(* ===== verification/Prelude.thy ===== *)
theory Prelude
  imports Main "HOL-Library.AList" "HOL-Library.Sublist"
begin

text \<open>
  What every component of the model shares: results that are either a thrown error or a
  value, the insertion-ordered \<open>Map\<close> and \<open>Set\<close> of JavaScript, the string operations the
  source calls (\<open>startsWith\<close>, \<open>slice\<close>, \<open>split\<close>, \<open>trim\<close>, decimal printing) and the
  collections of facts the component proofs use.

  A string is a list of characters, one per code unit; the source only handles ASCII text
  in the places modelled here.
\<close>

named_theorems result_simps \<open>equations of the result monad\<close>
named_theorems jsmap_simps \<open>lookup and key facts of the ordered map\<close>

section \<open>Results: a thrown error or a value\<close>

type_synonym ('e, 'a) result = "'e + 'a"

definition rbind :: "('e, 'a) result \<Rightarrow> ('a \<Rightarrow> ('e, 'b) result) \<Rightarrow> ('e, 'b) result" where
  "rbind r f = (case r of Inl e \<Rightarrow> Inl e | Inr a \<Rightarrow> f a)"

definition rguard :: "bool \<Rightarrow> 'e \<Rightarrow> ('e, unit) result" where
  "rguard b e = (if b then Inr () else Inl e)"

lemma rbind_Inl [simp, result_simps]: "rbind (Inl e) f = Inl e"
  and rbind_Inr [simp, result_simps]: "rbind (Inr a) f = f a"
  by (simp_all add: rbind_def)

lemma rbind_eq_Inr [simp]: "rbind r f = Inr b \<longleftrightarrow> (\<exists>a. r = Inr a \<and> f a = Inr b)"
  by (cases r) (simp_all add: rbind_def)

lemma rbind_eq_Inl: "rbind r f = Inl e \<longleftrightarrow> r = Inl e \<or> (\<exists>a. r = Inr a \<and> f a = Inl e)"
  by (cases r) (simp_all add: rbind_def)

lemma rguard_Inr [simp, result_simps]: "rguard b e = Inr u \<longleftrightarrow> b"
  by (simp add: rguard_def)

lemma rguard_Inl [simp, result_simps]: "rguard b e = Inl e' \<longleftrightarrow> \<not> b \<and> e' = e"
  by (auto simp: rguard_def)

text \<open>\<open>xs.map(f)\<close> where \<open>f\<close> may throw: the first throw ends the call.\<close>

fun rmap :: "('a \<Rightarrow> ('e, 'b) result) \<Rightarrow> 'a list \<Rightarrow> ('e, 'b list) result" where
  "rmap f [] = Inr []"
| "rmap f (x # xs) = rbind (f x) (\<lambda>y. rbind (rmap f xs) (\<lambda>ys. Inr (y # ys)))"

lemma rmap_Inr_length: "rmap f xs = Inr ys \<Longrightarrow> length ys = length xs"
  by (induction xs arbitrary: ys) auto

lemma rmap_Inr_nth: "rmap f xs = Inr ys \<Longrightarrow> i < length xs \<Longrightarrow> f (xs ! i) = Inr (ys ! i)"
proof (induction xs arbitrary: ys i)
  case Nil
  then show ?case by simp
next
  case (Cons x xs)
  then show ?case by (cases i) auto
qed

text \<open>An array literal of calls that may throw: evaluated left to right, the first throw wins.\<close>

definition rseq :: "('e, 'a) result list \<Rightarrow> ('e, 'a list) result" where
  "rseq = rmap id"

lemma rseq_simps [simp, result_simps]:
  "rseq [] = Inr []"
  "rseq (r # rs) = rbind r (\<lambda>x. rbind (rseq rs) (\<lambda>xs. Inr (x # xs)))"
  by (simp_all add: rseq_def)

lemma rmap_eq_Inr: "rmap f xs = Inr ys \<longleftrightarrow> list_all2 (\<lambda>x y. f x = Inr y) xs ys"
  by (induction xs arbitrary: ys) (auto simp: list_all2_Cons1)

section \<open>The ordered map and set of JavaScript\<close>

text \<open>
  A \<open>Map\<close> iterates its entries in insertion order; \<open>set\<close> on a present key keeps its
  place, on a new key appends. That is the association list of \<open>HOL-Library.AList\<close> with
  \<open>AList.update\<close> and \<open>AList.delete\<close>, read by \<open>map_of\<close>. A well-formed map has distinct
  keys (\<open>jm_wf\<close>).
\<close>

type_synonym ('k, 'v) jsmap = "('k \<times> 'v) list"

abbreviation jm_get :: "('k, 'v) jsmap \<Rightarrow> 'k \<Rightarrow> 'v option" where
  "jm_get m k \<equiv> map_of m k"

abbreviation jm_set :: "'k \<Rightarrow> 'v \<Rightarrow> ('k, 'v) jsmap \<Rightarrow> ('k, 'v) jsmap" where
  "jm_set k v m \<equiv> AList.update k v m"

abbreviation jm_del :: "'k \<Rightarrow> ('k, 'v) jsmap \<Rightarrow> ('k, 'v) jsmap" where
  "jm_del k m \<equiv> AList.delete k m"

abbreviation jm_keys :: "('k, 'v) jsmap \<Rightarrow> 'k list" where
  "jm_keys m \<equiv> map fst m"

abbreviation jm_values :: "('k, 'v) jsmap \<Rightarrow> 'v list" where
  "jm_values m \<equiv> map snd m"

definition jm_wf :: "('k, 'v) jsmap \<Rightarrow> bool" where
  "jm_wf m \<longleftrightarrow> distinct (jm_keys m)"

lemma jm_get_set [simp, jsmap_simps]:
  "jm_get (jm_set k v m) k' = (if k' = k then Some v else jm_get m k')"
  by (simp add: update_conv')

lemma jm_get_del [simp, jsmap_simps]:
  "jm_get (jm_del k m) k' = (if k' = k then None else jm_get m k')"
  by (simp add: delete_conv')

lemma jm_wf_Nil [simp, intro]: "jm_wf []"
  by (simp add: jm_wf_def)

lemma jm_wf_set [simp, intro]: "jm_wf m \<Longrightarrow> jm_wf (jm_set k v m)"
  by (simp add: jm_wf_def distinct_update)

lemma jm_wf_del [simp, intro]: "jm_wf m \<Longrightarrow> jm_wf (jm_del k m)"
  by (simp add: jm_wf_def distinct_delete)

lemma jm_set_new: "k \<notin> set (jm_keys m) \<Longrightarrow> jm_set k v m = m @ [(k, v)]"
  by (induction m) auto

lemma jm_keys_set:
  "jm_keys (jm_set k v m) = (if k \<in> set (jm_keys m) then jm_keys m else jm_keys m @ [k])"
  by (induction m) auto

lemma jm_length_set:
  "length (jm_set k v m) = (if k \<in> set (jm_keys m) then length m else Suc (length m))"
  by (induction m) auto

lemma jm_values_iff: "jm_wf m \<Longrightarrow> v \<in> set (jm_values m) \<longleftrightarrow> (\<exists>k. jm_get m k = Some v)"
  by (force simp: jm_wf_def)

lemma jm_values_set_same:
  "jm_get m k = Some v \<Longrightarrow> jm_set k v m = m"
  by (induction m) (auto split: if_splits)

text \<open>A \<open>Set\<close>: insertion order, no duplicates.\<close>

type_synonym 'a jsset = "'a list"

definition js_add :: "'a \<Rightarrow> 'a jsset \<Rightarrow> 'a jsset" where
  "js_add x s = (if x \<in> set s then s else s @ [x])"

lemma set_js_add [simp]: "set (js_add x s) = insert x (set s)"
  by (auto simp: js_add_def)

lemma distinct_js_add [simp, intro]: "distinct s \<Longrightarrow> distinct (js_add x s)"
  by (simp add: js_add_def)

section \<open>Keyed stores\<close>

text \<open>
  What the clients of a keyed collection rely on: a lookup after a write of the same key
  gives the written value, a write or a removal does not touch another key. The ordered
  map provides it here; the browser note vault, which rewrites a list, provides it in its
  own theory.
\<close>

locale keyed_store =
  fixes empty :: "'s"
    and get :: "'s \<Rightarrow> 'k \<Rightarrow> 'v option"
    and put :: "'k \<Rightarrow> 'v \<Rightarrow> 's \<Rightarrow> 's"
    and del :: "'k \<Rightarrow> 's \<Rightarrow> 's"
  assumes get_empty: "get empty k = None"
    and get_put: "get (put k v s) k' = (if k' = k then Some v else get s k')"
    and get_del: "get (del k s) k' = (if k' = k then None else get s k')"
begin

lemma get_put_same: "get (put k v s) k = Some v"
  by (simp add: get_put)

lemma get_put_other: "k' \<noteq> k \<Longrightarrow> get (put k v s) k' = get s k'"
  by (simp add: get_put)

lemma get_put_put: "get (put k v (put k w s)) = get (put k v s)"
  by (rule ext) (simp add: get_put)

lemma get_del_put: "get (del k (put k v s)) = get (del k s)"
  by (rule ext) (simp add: get_put get_del)

lemma get_put_commute: "k \<noteq> k' \<Longrightarrow> get (put k v (put k' w s)) = get (put k' w (put k v s))"
  by (rule ext) (simp add: get_put)

end

interpretation jm: keyed_store "[]" map_of AList.update AList.delete
  by unfold_locales simp_all

section \<open>Strings\<close>

definition js_startsWith :: "string \<Rightarrow> string \<Rightarrow> bool" where
  "js_startsWith s p = prefix p s"

text \<open>\<open>h.replace(/^0x/, "")\<close>: the prefix is removed once, if it is there.\<close>

definition strip0x :: "string \<Rightarrow> string" where
  "strip0x h = (if prefix ''0x'' h then drop 2 h else h)"

definition add0x :: "string \<Rightarrow> string" where
  "add0x h = (if prefix ''0x'' h then h else ''0x'' @ h)"

lemma strip0x_0x [simp]: "strip0x (CHR ''0'' # CHR ''x'' # s) = s"
  by (simp add: strip0x_def)

lemma strip0x_add0x: "strip0x (add0x h) = strip0x h"
  by (auto simp: strip0x_def add0x_def)

lemma add0x_idem [simp]: "add0x (add0x h) = add0x h"
  by (simp add: add0x_def)

text \<open>
  \<open>s.split(c)\<close> for a one-character separator: at least one piece, the separator removed.
\<close>

fun js_split :: "char \<Rightarrow> string \<Rightarrow> string list" where
  "js_split c [] = [[]]"
| "js_split c (x # xs) =
     (if x = c then [] # js_split c xs
      else (case js_split c xs of [] \<Rightarrow> [[x]] | p # ps \<Rightarrow> (x # p) # ps))"

lemma js_split_not_Nil [simp]: "js_split c s \<noteq> []"
  by (cases s) (auto split: list.splits)

lemma js_split_no_sep: "c \<notin> set s \<Longrightarrow> js_split c s = [s]"
  by (induction s) auto

lemma js_split_append: "c \<notin> set s \<Longrightarrow> js_split c (s @ c # t) = s # js_split c t"
  by (induction s) auto

text \<open>White space as \<open>trim\<close> removes it (the code units below 256).\<close>

definition js_space :: "char \<Rightarrow> bool" where
  "js_space c \<longleftrightarrow> of_char c \<in> {9, 10, 11, 12, 13, 32, 160 :: nat}"

definition js_trim :: "string \<Rightarrow> string" where
  "js_trim s = rev (dropWhile js_space (rev (dropWhile js_space s)))"

section \<open>Decimal printing\<close>

definition dec_digit :: "nat \<Rightarrow> char" where
  "dec_digit n = char_of (48 + n)"

fun dec_of_nat :: "nat \<Rightarrow> string" where
  "dec_of_nat n = (if n < 10 then [dec_digit n] else dec_of_nat (n div 10) @ [dec_digit (n mod 10)])"

declare dec_of_nat.simps [simp del]

definition dec_of_int :: "int \<Rightarrow> string" where
  "dec_of_int i = (if i < 0 then CHR ''-'' # dec_of_nat (nat (- i)) else dec_of_nat (nat i))"

definition is_dec :: "char \<Rightarrow> bool" where
  "is_dec c \<longleftrightarrow> 48 \<le> (of_char c :: nat) \<and> (of_char c :: nat) \<le> 57"

definition nat_of_dec :: "string \<Rightarrow> nat" where
  "nat_of_dec s = foldl (\<lambda>a c. 10 * a + (of_char c - 48)) 0 s"

lemma of_char_dec_digit: "n < 10 \<Longrightarrow> of_char (dec_digit n) = 48 + (n :: nat)"
  by (simp add: dec_digit_def)

lemma is_dec_dec_digit: "n < 10 \<Longrightarrow> is_dec (dec_digit n)"
  by (simp add: is_dec_def of_char_dec_digit)

lemma dec_of_nat_is_dec: "\<forall>c \<in> set (dec_of_nat n). is_dec c"
proof (induction n rule: dec_of_nat.induct)
  case (1 n)
  then show ?case
    by (subst dec_of_nat.simps) (auto simp: is_dec_dec_digit)
qed

lemma dec_of_nat_not_Nil [simp]: "dec_of_nat n \<noteq> []"
  by (subst dec_of_nat.simps) simp

lemma nat_of_dec_of_nat [simp]: "nat_of_dec (dec_of_nat n) = n"
proof (induction n rule: dec_of_nat.induct)
  case (1 n)
  show ?case
  proof (cases "n < 10")
    case True
    then show ?thesis
      by (subst dec_of_nat.simps) (simp add: nat_of_dec_def of_char_dec_digit)
  next
    case False
    with 1 have "nat_of_dec (dec_of_nat (n div 10)) = n div 10" by simp
    with False show ?thesis
      by (subst dec_of_nat.simps) (simp add: nat_of_dec_def of_char_dec_digit)
  qed
qed

lemma dec_of_nat_inj [simp]: "dec_of_nat m = dec_of_nat n \<longleftrightarrow> m = n"
  by (metis nat_of_dec_of_nat)

lemma dec_not_minus: "CHR ''-'' \<notin> set (dec_of_nat n)"
  using dec_of_nat_is_dec [of n] by (auto simp: is_dec_def)

lemma dec_not_colon: "CHR '':'' \<notin> set (dec_of_nat n)"
  using dec_of_nat_is_dec [of n] by (auto simp: is_dec_def)

lemma dec_of_int_inj [simp]: "dec_of_int i = dec_of_int j \<longleftrightarrow> i = j"
proof -
  have neg: "CHR ''-'' # s \<noteq> dec_of_nat n" for s n
    using dec_not_minus [of n] by (metis list.set_intros(1))
  show ?thesis
    by (auto simp: dec_of_int_def neg neg [symmetric] split: if_splits)
qed

lemma dec_of_int_no_colon: "CHR '':'' \<notin> set (dec_of_int i)"
  using dec_not_colon by (auto simp: dec_of_int_def)

text \<open>The key \<open>`${a}:${b}`\<close> the source builds from two numbers determines both.\<close>

definition pair_key :: "int \<Rightarrow> int \<Rightarrow> string" where
  "pair_key a b = dec_of_int a @ CHR '':'' # dec_of_int b"

lemma append_sep_inj:
  assumes "c \<notin> set s" "c \<notin> set s'" "s @ c # t = s' @ c # t'"
  shows "s = s' \<and> t = t'"
  using assms
proof (induction s arbitrary: s')
  case Nil
  then show ?case by (cases s') auto
next
  case (Cons x s)
  then show ?case by (cases s') auto
qed

lemma pair_key_inj [simp]: "pair_key a b = pair_key c d \<longleftrightarrow> a = c \<and> b = d"
  using append_sep_inj [of "CHR '':''" "dec_of_int a" "dec_of_int c" "dec_of_int b" "dec_of_int d"]
  by (auto simp: pair_key_def dec_of_int_no_colon)

text \<open>
  Two given values that a hash function maps to one. Where a theorem would otherwise assume that there are no
  collisions, which no hash function with outputs of a fixed length satisfies, it names the two values.
\<close>

definition clash :: "('a \<Rightarrow> 'b) \<Rightarrow> 'a \<Rightarrow> 'a \<Rightarrow> bool" where
  "clash f x y \<longleftrightarrow> x \<noteq> y \<and> f x = f y"

lemma clashI: "f x = f y \<Longrightarrow> x = y \<or> clash f x y"
  by (simp add: clash_def)

end
