(* ===== verification/Bytes.thy ===== *)
theory Bytes
  imports Prelude "HOL-Library.Word" "HOL-Library.Signed_Division"
begin

text \<open>
  Byte arrays, hexadecimal text and BN254 field elements: \<open>sdk/utilities/crypto.ts\<close>,
  \<open>sdk/src/crypto/field.ts\<close> and \<open>feUint\<close> of \<open>sdk/public-inputs/index.ts\<close>. A
  \<open>Uint8Array\<close> is a list of 8-bit words, a \<open>bigint\<close> is an \<open>int\<close>; \<open>parseInt\<close> and
  \<open>BigInt\<close> of the language are written out, malformed text included, because the hex
  decoders rely on what they do there.
\<close>

unbundle bit_operations_syntax

type_synonym byte = "8 word"
type_synonym bytes = "8 word list"

datatype js_error = SyntaxError | TypeError | RangeError | JsError string

section \<open>Hexadecimal digits and numbers\<close>

definition hex_digit :: "nat \<Rightarrow> char" where
  "hex_digit n = (if n < 10 then char_of (48 + n) else char_of (87 + n))"

definition hex_val :: "char \<Rightarrow> nat option" where
  "hex_val c = (let n = of_char c in
     if 48 \<le> n \<and> n \<le> 57 then Some (n - 48)
     else if 97 \<le> n \<and> n \<le> 102 then Some (n - 87)
     else if 65 \<le> n \<and> n \<le> 70 then Some (n - 55)
     else None)"

definition is_hex :: "char \<Rightarrow> bool" where
  "is_hex c = (hex_val c \<noteq> None)"

text \<open>\<open>x.toString(16)\<close> of a non-negative number.\<close>

fun hex_of_nat :: "nat \<Rightarrow> string" where
  "hex_of_nat n = (if n < 16 then [hex_digit n] else hex_of_nat (n div 16) @ [hex_digit (n mod 16)])"

declare hex_of_nat.simps [simp del]

definition nat_of_hex :: "string \<Rightarrow> nat" where
  "nat_of_hex s = foldl (\<lambda>a c. 16 * a + (case hex_val c of Some d \<Rightarrow> d | None \<Rightarrow> 0)) 0 s"

text \<open>\<open>s.padStart(n, "0")\<close>.\<close>

definition padStart0 :: "nat \<Rightarrow> string \<Rightarrow> string" where
  "padStart0 n s = replicate (n - length s) (CHR ''0'') @ s"

text \<open>
  \<open>BigInt("0x" + s)\<close>: a \<open>SyntaxError\<close> unless \<open>s\<close> is a non-empty run of hex digits, white
  space behind it allowed.
\<close>

definition bigInt0x :: "string \<Rightarrow> (js_error, int) result" where
  "bigInt0x s =
     (let ds = rev (dropWhile js_space (rev s))
      in if ds \<noteq> [] \<and> list_all is_hex ds then Inr (int (nat_of_hex ds)) else Inl SyntaxError)"

text \<open>
  \<open>parseInt(s, 16)\<close>: leading white space, a sign and a \<open>0x\<close> prefix are skipped, then the
  longest run of digits counts; \<open>None\<close> is \<open>NaN\<close>.
\<close>

definition parseInt16 :: "string \<Rightarrow> int option" where
  "parseInt16 s =
     (let s1 = dropWhile js_space s;
          neg = (prefix ''-'' s1);
          s2 = (if prefix ''-'' s1 \<or> prefix ''+'' s1 then drop 1 s1 else s1);
          s3 = (if prefix ''0x'' s2 \<or> prefix ''0X'' s2 then drop 2 s2 else s2);
          ds = takeWhile is_hex s3
      in if ds = [] then None
         else Some (if neg then - int (nat_of_hex ds) else int (nat_of_hex ds)))"

text \<open>Storing a number into a \<open>Uint8Array\<close> keeps its low eight bits, \<open>NaN\<close> becomes 0.\<close>

definition to_uint8 :: "int option \<Rightarrow> byte" where
  "to_uint8 v = (case v of None \<Rightarrow> 0 | Some i \<Rightarrow> word_of_int i)"

section \<open>The hex helpers of the source\<close>

definition bytesToHexStr :: "bytes \<Rightarrow> string" where
  "bytesToHexStr b = concat (map (\<lambda>x. padStart0 2 (hex_of_nat (unat x))) b)"

fun hex_pairs :: "string \<Rightarrow> bytes" where
  "hex_pairs (a # b # s) = to_uint8 (parseInt16 [a, b]) # hex_pairs s"
| "hex_pairs _ = []"

definition hexToBytesArr :: "string \<Rightarrow> bytes" where
  "hexToBytesArr h = (let s = (if odd (length h) then CHR ''0'' # h else h) in hex_pairs s)"

definition toHex :: "bytes \<Rightarrow> string" where
  "toHex b = ''0x'' @ bytesToHexStr b"

definition fromHex :: "string \<Rightarrow> bytes" where
  "fromHex h = hexToBytesArr (strip0x h)"

lemma byte_less: "unat (x :: byte) < 256"
  using unsigned_less [of x] by simp

lemma of_char_hex_digit:
  "n < 16 \<Longrightarrow> of_char (hex_digit n) = (if n < 10 then 48 + n else 87 + n)"
  by (simp add: hex_digit_def)

lemma hex_val_digit [simp]: "n < 16 \<Longrightarrow> hex_val (hex_digit n) = Some n"
  by (simp add: hex_val_def of_char_hex_digit Let_def)

lemma is_hex_digit [simp]: "n < 16 \<Longrightarrow> is_hex (hex_digit n)"
  by (simp add: is_hex_def)

lemma hex_of_nat_is_hex: "list_all is_hex (hex_of_nat n)"
proof (induction n rule: hex_of_nat.induct)
  case (1 n)
  then show ?case by (subst hex_of_nat.simps) auto
qed

lemma hex_of_nat_not_Nil [simp]: "hex_of_nat n \<noteq> []"
  by (subst hex_of_nat.simps) simp

lemma nat_of_hex_snoc:
  "nat_of_hex (s @ [c]) = 16 * nat_of_hex s + (case hex_val c of Some d \<Rightarrow> d | None \<Rightarrow> 0)"
  by (simp add: nat_of_hex_def)

lemma nat_of_hex_of_nat [simp]: "nat_of_hex (hex_of_nat n) = n"
proof (induction n rule: hex_of_nat.induct)
  case (1 n)
  show ?case
  proof (cases "n < 16")
    case True
    then show ?thesis by (subst hex_of_nat.simps) (simp add: nat_of_hex_def)
  next
    case False
    with 1 have "nat_of_hex (hex_of_nat (n div 16)) = n div 16" by simp
    with False show ?thesis by (subst hex_of_nat.simps) (simp add: nat_of_hex_snoc)
  qed
qed

lemma hex_val_0 [simp]: "hex_val (CHR ''0'') = Some 0"
  by (simp add: hex_val_def)

lemma is_hex_0 [simp]: "is_hex (CHR ''0'')"
  by (simp add: is_hex_def)

lemma nat_of_hex_pad_0 [simp]: "nat_of_hex (CHR ''0'' # s) = nat_of_hex s"
  by (simp add: nat_of_hex_def)

lemma nat_of_hex_padStart [simp]: "nat_of_hex (padStart0 n s) = nat_of_hex s"
proof -
  have "nat_of_hex (replicate k (CHR ''0'') @ s) = nat_of_hex s" for k
    by (induction k) simp_all
  then show ?thesis by (simp add: padStart0_def)
qed

lemma length_hex_of_nat: "n < 16 ^ k \<Longrightarrow> 0 < k \<Longrightarrow> length (hex_of_nat n) \<le> k"
proof (induction n arbitrary: k rule: hex_of_nat.induct)
  case (1 n)
  show ?case
  proof (cases "n < 16")
    case True
    with "1.prems" show ?thesis by (subst hex_of_nat.simps) simp
  next
    case False
    with "1.prems" obtain k' where k': "k = Suc k'" "0 < k'"
      by (metis less_numeral_extra(3) not0_implies_Suc gr0I power_Suc0_right)
    with "1.prems" have "n div 16 < 16 ^ k'"
      by (simp add: less_mult_imp_div_less mult.commute)
    with "1.IH" [OF False this] k' False show ?thesis by (subst hex_of_nat.simps) simp
  qed
qed

lemma length_padStart0: "length s \<le> n \<Longrightarrow> length (padStart0 n s) = n"
  by (simp add: padStart0_def)

lemma padStart0_is_hex: "list_all is_hex s \<Longrightarrow> list_all is_hex (padStart0 n s)"
  by (auto simp: padStart0_def list_all_iff)

lemma eval_0: "hex_digit 0 = CHR ''0''"
  by code_simp

text \<open>Two hex digits are the byte they spell; a byte's two digits are its nibbles.\<close>

lemma byte_hex: "padStart0 2 (hex_of_nat (unat (x :: byte))) = [hex_digit (unat x div 16), hex_digit (unat x mod 16)]"
proof -
  have lt: "unat x < 256" using byte_less [of x] by simp
  show ?thesis
  proof (cases "unat x < 16")
    case True
    then show ?thesis
      using eval_0 by (subst hex_of_nat.simps) (simp add: padStart0_def)
  next
    case False
    with lt have "unat x div 16 < 16" by simp
    with False show ?thesis
      by (subst hex_of_nat.simps, subst hex_of_nat.simps) (simp add: padStart0_def)
  qed
qed

lemma is_hex_not_special:
  assumes "is_hex a"
  shows "\<not> js_space a" "a \<noteq> CHR ''-''" "a \<noteq> CHR ''+''" "a \<noteq> CHR ''x''" "a \<noteq> CHR ''X''"
  using assms by (auto simp: is_hex_def hex_val_def js_space_def Let_def split: if_splits)

lemma parseInt16_pair:
  assumes "is_hex a" "is_hex b"
  shows "parseInt16 [a, b] = Some (int (nat_of_hex [a, b]))"
  using is_hex_not_special [OF assms(1)] is_hex_not_special [OF assms(2)] assms
  by (simp add: parseInt16_def)

lemma nat_of_hex_pair:
  assumes "m < 16" "n < 16"
  shows "nat_of_hex [hex_digit m, hex_digit n] = 16 * m + n"
  using assms by (simp add: nat_of_hex_def)

lemma hex_pairs_byte [simp]:
  "hex_pairs (padStart0 2 (hex_of_nat (unat (x :: byte))) @ s) = x # hex_pairs s"
proof -
  have lt: "unat x div 16 < 16" using byte_less [of x] by simp
  then have "to_uint8 (parseInt16 [hex_digit (unat x div 16), hex_digit (unat x mod 16)]) = x"
    by (simp add: parseInt16_pair nat_of_hex_pair to_uint8_def)
  then show ?thesis by (simp add: byte_hex)
qed

lemma bytesToHexStr_Nil [simp]: "bytesToHexStr [] = []"
  and bytesToHexStr_Cons:
    "bytesToHexStr (x # b) = padStart0 2 (hex_of_nat (unat x)) @ bytesToHexStr b"
  by (simp_all add: bytesToHexStr_def)

lemma length_bytesToHexStr [simp]: "length (bytesToHexStr b) = 2 * length b"
  by (induction b) (simp_all add: bytesToHexStr_Cons byte_hex)

lemma bytesToHexStr_eq_Nil [simp]: "bytesToHexStr b = [] \<longleftrightarrow> b = []"
  using length_bytesToHexStr [of b] by (metis bytesToHexStr_Nil length_0_conv mult_eq_0_iff zero_neq_numeral)

lemma bytesToHexStr_is_hex: "list_all is_hex (bytesToHexStr b)"
proof (induction b)
  case (Cons x b)
  have "unat x div 16 < 16" using byte_less [of x] by simp
  with Cons show ?case by (simp add: bytesToHexStr_Cons byte_hex)
qed simp

lemma hex_pairs_bytesToHexStr [simp]: "hex_pairs (bytesToHexStr b) = b"
  by (induction b) (simp_all add: bytesToHexStr_Cons)

lemma hexToBytesArr_bytesToHexStr [simp]: "hexToBytesArr (bytesToHexStr b) = b"
  by (simp add: hexToBytesArr_def)

lemma bytesToHexStr_inj [simp]: "bytesToHexStr a = bytesToHexStr b \<longleftrightarrow> a = b"
  by (metis hexToBytesArr_bytesToHexStr)

lemma bytesToHexStr_no_x: "CHR ''x'' \<notin> set (bytesToHexStr b)"
  using bytesToHexStr_is_hex [of b] is_hex_not_special(4) by (auto simp: list_all_iff)

lemma strip0x_bytesToHexStr [simp]: "strip0x (bytesToHexStr b) = bytesToHexStr b"
proof -
  have "\<not> prefix ''0x'' (bytesToHexStr b)"
    using bytesToHexStr_no_x [of b] set_mono_prefix by fastforce
  then show ?thesis by (simp add: strip0x_def)
qed

lemma fromHex_toHex [simp]: "fromHex (toHex b) = b"
  by (simp add: fromHex_def toHex_def)

lemma toHex_inj [simp]: "toHex a = toHex b \<longleftrightarrow> a = b"
  by (simp add: toHex_def)

section \<open>Big-endian values\<close>

definition be_val :: "bytes \<Rightarrow> nat" where
  "be_val b = foldl (\<lambda>a x. 256 * a + unat x) 0 b"

lemma be_val_Nil [simp]: "be_val [] = 0"
  by (simp add: be_val_def)

lemma be_val_snoc [simp]: "be_val (b @ [x]) = 256 * be_val b + unat x"
  by (simp add: be_val_def)

lemma be_val_less: "be_val b < 256 ^ length b"
proof (induction b rule: rev_induct)
  case (snoc x b)
  have "256 * be_val b + unat x < 256 * be_val b + 256" using byte_less [of x] by simp
  also have "\<dots> \<le> 256 * 256 ^ length b"
    using snoc by (metis Suc_leI mult_Suc_right mult_le_mono2 add.commute)
  finally show ?case by simp
qed simp

lemma digit_inj: "256 * u + i = 256 * v + j \<Longrightarrow> i < 256 \<Longrightarrow> j < 256 \<Longrightarrow> u = v \<and> i = (j :: nat)"
  by (metis add_left_cancel bits_mod_div_trivial div_mult_self4 mod_less mod_mult_self4 nat_mult_eq_cancel_disj zero_neq_numeral div_less add.right_neutral)

lemma be_val_inj: "length a = length b \<Longrightarrow> be_val a = be_val b \<Longrightarrow> a = b"
proof (induction a arbitrary: b rule: rev_induct)
  case (snoc x a)
  then obtain y b' where b: "b = b' @ [y]"
    by (metis length_0_conv length_append_singleton nat.distinct(1) rev_exhaust)
  have "256 * be_val a + unat x = 256 * be_val b' + unat y" using snoc.prems b by simp
  then have "be_val a = be_val b' \<and> unat x = unat y"
    by (rule digit_inj) (rule byte_less)+
  then have "x = y" and v: "be_val a = be_val b'" by (simp_all add: word_unat_eq_iff)
  moreover have "a = b'" using snoc.IH [OF _ v] snoc.prems(1) b by simp
  ultimately show ?case using b by simp
qed simp

lemma be_val_replicate_0 [simp]: "be_val (replicate n 0) = 0"
  by (induction n) (simp_all flip: replicate_append_same)

lemma nat_of_hex_bytes: "nat_of_hex (bytesToHexStr b) = be_val b"
proof (induction b rule: rev_induct)
  case (snoc x b)
  have d: "unat x div 16 < 16" using byte_less [of x] by simp
  have "bytesToHexStr (b @ [x]) = (bytesToHexStr b @ [hex_digit (unat x div 16)]) @ [hex_digit (unat x mod 16)]"
    by (simp add: bytesToHexStr_def byte_hex)
  then have "nat_of_hex (bytesToHexStr (b @ [x])) =
      16 * (16 * be_val b + unat x div 16) + unat x mod 16"
    using d snoc by (simp only: nat_of_hex_snoc) simp
  then show ?case by simp
qed (simp add: nat_of_hex_def)

text \<open>An even number of hex digits decodes to the bytes whose value they spell.\<close>

lemma nat_of_hex_append: "nat_of_hex (s @ t) = nat_of_hex s * 16 ^ length t + nat_of_hex t"
proof (induction t rule: rev_induct)
  case (snoc c t)
  then show ?case
    by (simp add: nat_of_hex_snoc algebra_simps flip: append_assoc)
qed (simp add: nat_of_hex_def)

lemma hex_val_less: "hex_val c = Some d \<Longrightarrow> d < 16"
  by (auto simp: hex_val_def Let_def split: if_splits)

lemma nat_of_hex_less: "nat_of_hex s < 16 ^ length s"
proof (induction s rule: rev_induct)
  case (snoc c s)
  have "(case hex_val c of Some d \<Rightarrow> d | None \<Rightarrow> 0) < (16 :: nat)"
    using hex_val_less by (auto split: option.splits)
  then have "nat_of_hex (s @ [c]) < 16 * nat_of_hex s + 16" by (simp add: nat_of_hex_snoc)
  also have "\<dots> \<le> 16 * 16 ^ length s"
    using snoc by (metis Suc_leI mult_Suc_right mult_le_mono2 add.commute)
  finally show ?case by simp
qed (simp add: nat_of_hex_def)

lemma be_val_Cons: "be_val (x # b) = unat x * 256 ^ length b + be_val b"
proof (induction b rule: rev_induct)
  case Nil
  show ?case by (simp add: be_val_def)
next
  case (snoc y b)
  have "be_val (x # (b @ [y])) = 256 * be_val (x # b) + unat y"
    using be_val_snoc [of "x # b" y] by simp
  with snoc show ?case by (simp add: algebra_simps)
qed

lemma be_val_hex_pairs:
  assumes "list_all is_hex s" "even (length s)"
  shows "be_val (hex_pairs s) = nat_of_hex s \<and> length (hex_pairs s) = length s div 2"
  using assms
proof (induction s rule: hex_pairs.induct)
  case (1 a b s)
  have ab: "is_hex a" "is_hex b" using "1.prems" by simp_all
  have IH: "be_val (hex_pairs s) = nat_of_hex s" "length (hex_pairs s) = length s div 2"
    using "1.IH" "1.prems" by simp_all
  have lt: "nat_of_hex [a, b] < 256" using nat_of_hex_less [of "[a, b]"] by simp
  have "unat (word_of_int (int (nat_of_hex [a, b])) :: byte) = nat_of_hex [a, b]"
    using lt by (simp add: unat_of_nat)
  then have hd: "unat (to_uint8 (parseInt16 [a, b])) = nat_of_hex [a, b]"
    by (simp only: parseInt16_pair [OF ab] to_uint8_def option.case)
  obtain k where k: "length s = 2 * k" using "1.prems"(2) by (auto elim: evenE)
  have pw: "(256 :: nat) ^ k = 16 ^ (2 * k)" by (simp add: power_mult)
  have "be_val (hex_pairs (a # b # s)) = nat_of_hex [a, b] * 16 ^ length s + nat_of_hex s"
    using IH k pw hd by (simp add: be_val_Cons)
  moreover have "nat_of_hex (a # b # s) = nat_of_hex [a, b] * 16 ^ length s + nat_of_hex s"
    using nat_of_hex_append [of "[a, b]" s] by simp
  ultimately show ?case using IH by simp
qed (auto simp: nat_of_hex_def)

section \<open>BN254 field elements\<close>

definition BN254_FIELD_MODULUS :: int where
  "BN254_FIELD_MODULUS =
     21888242871839275222246405745257275088548364400416034343698204186575808495617"

definition fieldToBytes32 :: "int \<Rightarrow> bytes" where
  "fieldToBytes32 f =
     (let m = ((f smod BN254_FIELD_MODULUS) + BN254_FIELD_MODULUS) smod BN254_FIELD_MODULUS
      in hexToBytesArr (padStart0 64 (hex_of_nat (nat m))))"

text \<open>
  \<open>bytes32ToField\<close> throws on an empty array, because \<open>BigInt("0x")\<close> does. On every other
  array it is \<open>field_of\<close>, the form the callers with 32-byte values use.
\<close>

definition bytes32ToField :: "bytes \<Rightarrow> (js_error, int) result" where
  "bytes32ToField b = rbind (bigInt0x (bytesToHexStr b)) (\<lambda>v. Inr (v smod BN254_FIELD_MODULUS))"

definition field_of :: "bytes \<Rightarrow> int" where
  "field_of b = int (nat_of_hex (bytesToHexStr b)) smod BN254_FIELD_MODULUS"

lemma smod_pos: "0 \<le> a \<Longrightarrow> 0 < p \<Longrightarrow> (a :: int) smod p = a mod p"
  by (cases "a = 0") (simp_all add: signed_modulo_int_def)

lemma field_pos [simp]: "0 < BN254_FIELD_MODULUS" "0 \<le> BN254_FIELD_MODULUS"
  by (simp_all add: BN254_FIELD_MODULUS_def)

lemma smod_normalise: "0 < p \<Longrightarrow> ((a smod p) + p) smod p = (a :: int) mod p"
proof -
  assume p: "0 < p"
  have "\<bar>a\<bar> mod p < p" "0 \<le> \<bar>a\<bar> mod p" using p by simp_all
  moreover have "a smod p = \<bar>a\<bar> mod p \<or> a smod p = - (\<bar>a\<bar> mod p)"
    using p by (cases "a = 0"; cases "0 < a") (simp_all add: signed_modulo_int_def)
  ultimately have b: "- p < a smod p" by linarith
  have c: "(a smod p) mod p = a mod p"
    by (simp add: signed_modulo_int_eq_modulo_int mod_diff_eq [symmetric, of "a mod p"])
  from b p have "0 \<le> (a smod p) + p" by simp
  with p c show ?thesis by (simp add: smod_pos)
qed

lemma field_of_alt: "field_of b = int (be_val b) mod BN254_FIELD_MODULUS"
  by (simp add: field_of_def nat_of_hex_bytes smod_pos)

lemma field_of_range: "0 \<le> field_of b" "field_of b < BN254_FIELD_MODULUS"
  by (simp_all add: field_of_alt)

lemma bigInt0x_hex:
  assumes "list_all is_hex s"
  shows "bigInt0x s = (if s = [] then Inl SyntaxError else Inr (int (nat_of_hex s)))"
proof -
  have "dropWhile js_space (rev s) = rev s"
    using assms is_hex_not_special(1) by (cases "rev s") (auto simp: list_all_iff dest: arg_cong [of _ _ set])
  with assms show ?thesis by (simp add: bigInt0x_def)
qed

lemma bytes32ToField_nonempty: "b \<noteq> [] \<Longrightarrow> bytes32ToField b = Inr (field_of b)"
  using bytesToHexStr_is_hex [of b] by (simp add: bytes32ToField_def bigInt0x_hex field_of_def)

lemma bytes32ToField_empty: "bytes32ToField [] = Inl SyntaxError"
  by (simp add: bytes32ToField_def bigInt0x_def)

lemma fieldToBytes32_alt:
  "fieldToBytes32 f = hex_pairs (padStart0 64 (hex_of_nat (nat (f mod BN254_FIELD_MODULUS))))"
  "length (padStart0 64 (hex_of_nat (nat (f mod BN254_FIELD_MODULUS)))) = 64"
proof -
  have "f mod BN254_FIELD_MODULUS < BN254_FIELD_MODULUS" by simp
  then have "nat (f mod BN254_FIELD_MODULUS) < 16 ^ 64"
    by (simp add: BN254_FIELD_MODULUS_def nat_less_iff)
  then have "length (hex_of_nat (nat (f mod BN254_FIELD_MODULUS))) \<le> 64"
    using length_hex_of_nat by simp
  then show l: "length (padStart0 64 (hex_of_nat (nat (f mod BN254_FIELD_MODULUS)))) = 64"
    by (rule length_padStart0)
  show "fieldToBytes32 f = hex_pairs (padStart0 64 (hex_of_nat (nat (f mod BN254_FIELD_MODULUS))))"
    using l by (simp add: fieldToBytes32_def hexToBytesArr_def smod_normalise)
qed

lemma length_fieldToBytes32 [simp]: "length (fieldToBytes32 f) = 32"
  using be_val_hex_pairs [OF padStart0_is_hex [OF hex_of_nat_is_hex]] fieldToBytes32_alt by simp

lemma be_val_fieldToBytes32: "be_val (fieldToBytes32 f) = nat (f mod BN254_FIELD_MODULUS)"
  using be_val_hex_pairs [OF padStart0_is_hex [OF hex_of_nat_is_hex]] fieldToBytes32_alt by simp

lemma field_of_fieldToBytes32 [simp]: "field_of (fieldToBytes32 f) = f mod BN254_FIELD_MODULUS"
  by (simp add: field_of_alt be_val_fieldToBytes32)

lemma fieldToBytes32_field_of:
  assumes "length b = 32" "int (be_val b) < BN254_FIELD_MODULUS"
  shows "fieldToBytes32 (field_of b) = b"
  using assms by (intro be_val_inj) (simp_all add: be_val_fieldToBytes32 field_of_alt)

lemma fieldToBytes32_eq_iff:
  "fieldToBytes32 f = fieldToBytes32 g \<longleftrightarrow> f mod BN254_FIELD_MODULUS = g mod BN254_FIELD_MODULUS"
  by (metis field_of_fieldToBytes32 fieldToBytes32_alt(1))

section \<open>Unsigned integers as field elements\<close>

text \<open>
  The loop of \<open>feUint\<close>: \<open>k\<close> is \<open>i + 1\<close>, so \<open>k = 0\<close> is the loop's \<open>i < 0\<close>. It returns the
  array and what is left of \<open>x\<close>.
\<close>

fun fe_loop :: "nat \<Rightarrow> nat \<Rightarrow> bytes \<Rightarrow> bytes \<times> nat" where
  "fe_loop 0 x out = (out, x)"
| "fe_loop (Suc i) x out =
     (if 0 < x then fe_loop i (x div 256) (out[i := of_nat (x mod 256)]) else (out, x))"

definition feUint :: "int \<Rightarrow> (js_error, bytes) result" where
  "feUint n =
     (if n < 0 then Inl (JsError ''field elements are unsigned'')
      else (let (out, x) = fe_loop 32 (nat n) (replicate 32 0)
            in if 0 < x then Inl (JsError ''value does not fit in a 32-byte field element'')
               else Inr out))"

lemma fe_loop_spec:
  assumes "k \<le> length out" "\<forall>j < k. out ! j = 0"
  shows "(let (out', r) = fe_loop k x out in
            length out' = length out \<and> r = x div 256 ^ k \<and> drop k out' = drop k out
            \<and> be_val (take k out') = x mod 256 ^ k)"
  using assms
proof (induction k x out rule: fe_loop.induct)
  case (1 x out)
  then show ?case by simp
next
  case (2 i x out)
  show ?case
  proof (cases "0 < x")
    case True
    let ?o = "out[i := of_nat (x mod 256)]"
    have pre: "i \<le> length ?o" "\<forall>j < i. ?o ! j = 0" using "2.prems" by simp_all
    obtain o' r where f: "fe_loop i (x div 256) ?o = (o', r)" by fastforce
    from "2.IH" [OF True pre] f
    have IH: "length o' = length out" "r = x div 256 div 256 ^ i" "drop i o' = drop i ?o"
      "be_val (take i o') = x div 256 mod 256 ^ i" by auto
    have i: "i < length out" using "2.prems" by simp
    then have oi: "o' ! i = of_nat (x mod 256)"
      using IH(1,3) by (metis Cons_nth_drop_Suc length_list_update list.inject nth_list_update_eq)
    have dr: "drop (Suc i) o' = drop (Suc i) out"
      using IH(3) by (metis drop_Suc drop_update_cancel lessI tl_drop)
    have "be_val (take (Suc i) o') = 256 * (x div 256 mod 256 ^ i) + x mod 256"
      using i IH(1,4) oi by (simp add: take_Suc_conv_app_nth unat_of_nat)
    also have "\<dots> = x mod 256 ^ Suc i" by (simp add: mod_mult2_eq)
    finally show ?thesis using True f IH dr by (simp add: div_mult2_eq)
  next
    case False
    have "take (Suc i) out = replicate (Suc i) 0"
      using "2.prems" by (intro nth_equalityI) (auto simp del: replicate_Suc)
    with False show ?thesis by (simp del: replicate_Suc take_Suc)
  qed
qed

lemma fe_loop_32:
  obtains out where "fe_loop 32 x (replicate 32 0) = (out, x div 256 ^ 32)"
    and "length out = 32" and "be_val out = x mod 256 ^ 32"
proof -
  obtain out r where f: "fe_loop 32 x (replicate 32 0) = (out, r)" by fastforce
  have "length out = 32 \<and> r = x div 256 ^ 32 \<and> be_val (take 32 out) = x mod 256 ^ 32"
    using fe_loop_spec [of 32 "replicate 32 0" x] f by auto
  with f have "fe_loop 32 x (replicate 32 0) = (out, x div 256 ^ 32)" "length out = 32"
    "be_val out = x mod 256 ^ 32" by (metis, metis, metis order_refl take_all)
  then show thesis by (rule that)
qed

lemma feUint_Inr:
  "feUint n = Inr b \<longleftrightarrow> 0 \<le> n \<and> n < 256 ^ 32 \<and> length b = 32 \<and> int (be_val b) = n"
proof -
  obtain out where o: "fe_loop 32 (nat n) (replicate 32 0) = (out, nat n div 256 ^ 32)"
    "length out = 32" "be_val out = nat n mod 256 ^ 32" by (rule fe_loop_32)
  show ?thesis
  proof (cases "0 \<le> n \<and> n < 256 ^ 32")
    case True
    then have "nat n < 256 ^ 32" by (simp add: nat_less_iff)
    with True o have "feUint n = Inr out" "be_val out = nat n" by (simp_all add: feUint_def)
    with True o(2) show ?thesis
      by (auto intro: be_val_inj)
  next
    case False
    moreover have "0 < nat n div 256 ^ 32" if "0 \<le> n"
      using that False by (simp add: div_greater_zero_iff le_nat_iff)
    ultimately show ?thesis using o by (auto simp: feUint_def)
  qed
qed

lemma feUint_length: "feUint n = Inr b \<Longrightarrow> length b = 32"
  by (simp add: feUint_Inr)

lemma feUint_inj: "feUint m = Inr b \<Longrightarrow> feUint n = Inr b \<Longrightarrow> m = n"
  by (simp add: feUint_Inr)

section \<open>Byte comparison\<close>

definition bytesEqual :: "bytes \<Rightarrow> bytes \<Rightarrow> bool" where
  "bytesEqual a b =
     (if length a \<noteq> length b then False
      else foldl (\<lambda>diff i. diff OR (a ! i XOR b ! i)) 0 [0..<length a] = 0)"

lemma xor_eq_0_iff: "(a :: byte) XOR b = 0 \<longleftrightarrow> a = b"
  by (metis xor.assoc xor.right_neutral xor_self_eq)

lemma foldl_or_eq_0:
  "foldl (\<lambda>d i. d OR f i) (e :: byte) xs = 0 \<longleftrightarrow> e = 0 \<and> (\<forall>i \<in> set xs. f i = 0)"
  by (induction xs arbitrary: e) (auto simp: or_eq_0_iff)

lemma bytesEqual_iff [simp]: "bytesEqual a b \<longleftrightarrow> a = b"
proof
  assume h: "bytesEqual a b"
  then have l: "length a = length b" by (simp add: bytesEqual_def split: if_splits)
  have "a ! i XOR b ! i = 0" if "i < length a" for i
    using h l that by (simp add: bytesEqual_def foldl_or_eq_0)
  then have "a ! i = b ! i" if "i < length a" for i
    using that by (simp add: xor_eq_0_iff)
  with l show "a = b" by (intro nth_equalityI)
next
  assume "a = b"
  then show "bytesEqual a b"
    using foldl_or_eq_0 [of "\<lambda>i. b ! i XOR b ! i" 0] by (simp add: bytesEqual_def)
qed

section \<open>Hex in Node\<close>

text \<open>\<open>Buffer.from(s, "hex")\<close> decodes pairs of digits up to the first pair that is not.\<close>

fun node_hex :: "string \<Rightarrow> bytes" where
  "node_hex (a # b # s) = (if is_hex a \<and> is_hex b then of_nat (nat_of_hex [a, b]) # node_hex s else [])"
| "node_hex _ = []"

lemma node_hex_bytes [simp]: "node_hex (bytesToHexStr b) = b"
proof (induction b)
  case (Cons x b)
  have "bytesToHexStr (x # b) = [hex_digit (unat x div 16), hex_digit (unat x mod 16)] @ bytesToHexStr b"
    by (simp add: bytesToHexStr_def byte_hex)
  moreover have "nat_of_hex [hex_digit (unat x div 16), hex_digit (unat x mod 16)] = unat x"
    using byte_less [of x] by (simp add: nat_of_hex_def)
  moreover have "is_hex (hex_digit (unat x div 16))" "is_hex (hex_digit (unat x mod 16))"
    using byte_less [of x] by simp_all
  ultimately show ?case using Cons by simp
qed simp

end
