(* ===== verification/MerkleSpec.thy ===== *)
theory MerkleSpec
  imports Bytes
begin

text \<open>
  The specification both Merkle trees of the SDK implement: the node at level \<open>L\<close> and
  index \<open>i\<close> of the complete tree over a list of leaves (\<open>subtree\<close>), the authentication
  path of a leaf (\<open>path_sibs\<close>, \<open>path_bits\<close>), the fold a verifier performs over a path
  (\<open>fold_path\<close>), and the contract \<open>merkle_tree\<close> an implementation has to meet. The hash
  of two children is a parameter.
\<close>

type_synonym hash2 = "bytes \<Rightarrow> bytes \<Rightarrow> bytes"

definition ZERO :: bytes where
  "ZERO = replicate 32 0"

lemma length_ZERO [simp]: "length ZERO = 32"
  by (simp add: ZERO_def)

fun zero_hash :: "hash2 \<Rightarrow> nat \<Rightarrow> bytes" where
  "zero_hash h 0 = ZERO"
| "zero_hash h (Suc L) = h (zero_hash h L) (zero_hash h L)"

fun subtree :: "hash2 \<Rightarrow> bytes list \<Rightarrow> nat \<Rightarrow> nat \<Rightarrow> bytes" where
  "subtree h ls 0 i = (if i < length ls then ls ! i else ZERO)"
| "subtree h ls (Suc L) i = h (subtree h ls L (2 * i)) (subtree h ls L (2 * i + 1))"

definition sib :: "nat \<Rightarrow> nat" where
  "sib i = (if even i then i + 1 else i - 1)"

fun path_sibs :: "hash2 \<Rightarrow> bytes list \<Rightarrow> nat \<Rightarrow> nat \<Rightarrow> nat \<Rightarrow> bytes list" where
  "path_sibs h ls 0 L i = []"
| "path_sibs h ls (Suc n) L i = subtree h ls L (sib i) # path_sibs h ls n (Suc L) (i div 2)"

fun path_bits :: "nat \<Rightarrow> nat \<Rightarrow> bool list" where
  "path_bits 0 i = []"
| "path_bits (Suc n) i = odd i # path_bits n (i div 2)"

fun fold_path :: "hash2 \<Rightarrow> bytes list \<Rightarrow> bool list \<Rightarrow> bytes \<Rightarrow> bytes" where
  "fold_path h (s # ss) (b # bs) node = fold_path h ss bs (if b then h s node else h node s)"
| "fold_path h _ _ node = node"

lemma length_path_sibs [simp]: "length (path_sibs h ls n L i) = n"
  by (induction n arbitrary: L i) auto

lemma length_path_bits [simp]: "length (path_bits n i) = n"
  by (induction n arbitrary: i) auto

section \<open>Facts of the complete tree\<close>

lemma subtree_parent:
  "subtree h ls (Suc L) (i div 2) =
     (if odd i then h (subtree h ls L (sib i)) (subtree h ls L i)
      else h (subtree h ls L i) (subtree h ls L (sib i)))"
  by (cases "even i") (auto simp: sib_def elim!: evenE oddE)

text \<open>Folding a leaf with the siblings of its path arrives at the node above it.\<close>

lemma fold_path_subtree:
  "fold_path h (path_sibs h ls n L i) (path_bits n i) (subtree h ls L i) = subtree h ls (L + n) (i div 2 ^ n)"
proof (induction n arbitrary: L i)
  case (Suc n)
  have "fold_path h (path_sibs h ls (Suc n) L i) (path_bits (Suc n) i) (subtree h ls L i) =
        fold_path h (path_sibs h ls n (Suc L) (i div 2)) (path_bits n (i div 2)) (subtree h ls (Suc L) (i div 2))"
    using subtree_parent [of h ls L i] by simp
  with Suc show ?case by (simp add: div_mult2_eq del: subtree.simps)
qed simp

lemma subtree_default: "length ls \<le> i * 2 ^ L \<Longrightarrow> subtree h ls L i = zero_hash h L"
proof (induction L arbitrary: i)
  case (Suc L)
  have "length ls \<le> 2 * i * 2 ^ L" "length ls \<le> (2 * i + 1) * 2 ^ L"
    using Suc.prems by (simp_all add: algebra_simps)
  with Suc.IH show ?case by (metis subtree.simps(2) zero_hash.simps(2))
qed simp

lemma subtree_empty: "subtree h [] L i = zero_hash h L"
  by (rule subtree_default) simp

text \<open>Appending a leaf touches the nodes above it and no other.\<close>

lemma subtree_append_other:
  "i \<noteq> length ls div 2 ^ L \<Longrightarrow> subtree h (ls @ [c]) L i = subtree h ls L i"
proof (induction L arbitrary: i)
  case 0
  then show ?case by (auto simp: nth_append)
next
  case (Suc L)
  have "length ls div 2 ^ Suc L = length ls div 2 ^ L div 2"
    by (simp add: div_mult2_eq power_Suc2 del: power_Suc)
  with Suc.prems have "i \<noteq> length ls div 2 ^ L div 2" by simp
  then have "2 * i \<noteq> length ls div 2 ^ L" "2 * i + 1 \<noteq> length ls div 2 ^ L"
    by auto
  with Suc.IH show ?case by simp
qed

lemma sib_div: "sib i div 2 = i div 2"
  by (auto simp: sib_def elim!: evenE oddE)

lemma sib_neq [simp]: "sib i \<noteq> i"
  by (auto simp: sib_def elim!: oddE)

lemma sib_sib [simp]: "sib (sib i) = i"
  by (auto simp: sib_def elim!: oddE)

text \<open>The siblings on the path of the next free slot are the same before and after it is filled.\<close>

lemma path_sibs_append:
  "path_sibs h (ls @ [c]) n L (length ls div 2 ^ L) = path_sibs h ls n L (length ls div 2 ^ L)"
proof (induction n arbitrary: L)
  case (Suc n)
  have "length ls div 2 ^ L div 2 = length ls div 2 ^ Suc L"
    by (simp add: div_mult2_eq power_Suc2 del: power_Suc)
  with Suc [of "Suc L"] show ?case by (simp only: path_sibs.simps) (simp add: subtree_append_other)
qed simp

lemma subtree_slot:
  "subtree h ls 0 (length ls) = ZERO" "subtree h (ls @ [c]) 0 (length ls) = c"
  by simp_all

text \<open>
  The transition an append is proved by: with the siblings of the next free slot, the
  empty leaf folds to the present root and the appended leaf to the root after it.
\<close>

lemma append_transition:
  assumes "length ls < 2 ^ d" and ss_def: "ss = path_sibs h ls d 0 (length ls)"
    and bs_def: "bs = path_bits d (length ls)"
  shows "fold_path h ss bs ZERO = subtree h ls d 0"
    and "fold_path h ss bs c = subtree h (ls @ [c]) d 0"
proof -
  have z: "length ls div 2 ^ d = 0" using assms(1) by simp
  show "fold_path h ss bs ZERO = subtree h ls d 0"
    using fold_path_subtree [of h ls d 0 "length ls"] z by (simp add: ss_def bs_def)
  have "path_sibs h (ls @ [c]) d 0 (length ls) = ss"
    using path_sibs_append [of h ls c d 0] by (simp add: ss_def)
  then show "fold_path h ss bs c = subtree h (ls @ [c]) d 0"
    using fold_path_subtree [of h "ls @ [c]" d 0 "length ls"] z by (simp add: bs_def nth_append)
qed

text \<open>The node above only depends on the leaves below it.\<close>

lemma root_member:
  assumes "i < length ls" "length ls \<le> 2 ^ d"
  shows "fold_path h (path_sibs h ls d 0 i) (path_bits d i) (ls ! i) = subtree h ls d 0"
proof -
  have "i div 2 ^ d = 0" using assms by simp
  then show ?thesis using fold_path_subtree [of h ls d 0 i] assms(1) by simp
qed

section \<open>Binding\<close>

text \<open>
  Two paths with the same turns meet at a level where they hash two different pairs of field elements to one
  node: a collision of the compression function that can be read off the paths.
\<close>

definition turned :: "bool \<Rightarrow> bytes \<Rightarrow> bytes \<Rightarrow> int \<times> int" where
  "turned b s x = (if b then (field_of s, field_of x) else (field_of x, field_of s))"

fun path_clash :: "(int \<Rightarrow> int \<Rightarrow> bytes) \<Rightarrow> bytes list \<Rightarrow> bytes list \<Rightarrow> bool list \<Rightarrow> bytes \<Rightarrow> bytes \<Rightarrow> bool" where
  "path_clash g (s # t) (s' # t') (b # bs) x y =
     (clash (\<lambda>(u, v). g u v) (turned b s x) (turned b s' y)
      \<or> path_clash g t t' bs (case turned b s x of (u, v) \<Rightarrow> g u v) (case turned b s' y of (u, v) \<Rightarrow> g u v))"
| "path_clash g _ _ _ x y = False"

lemma fold_path_binding:
  assumes h: "\<And>l r. h l r = g (field_of l) (field_of r)"
    and canon: "\<And>a b c d. field_of (g a b) = field_of (g c d) \<Longrightarrow> g a b = g c d"
  shows "fold_path h ss bs x = fold_path h ss' bs y \<Longrightarrow> length ss = length bs \<Longrightarrow> length ss' = length bs \<Longrightarrow>
    field_of x = field_of y \<and> map field_of ss = map field_of ss' \<or> path_clash g ss ss' bs x y"
proof (induction bs arbitrary: ss ss' x y)
  case (Cons b bs)
  from Cons.prems obtain s t s' t' where ss: "ss = s # t" "ss' = s' # t'"
    by (metis length_Suc_conv)
  let ?n = "if b then h s x else h x s" and ?n' = "if b then h s' y else h y s'"
  have n: "(case turned b s x of (u, v) \<Rightarrow> g u v) = ?n" "(case turned b s' y of (u, v) \<Rightarrow> g u v) = ?n'"
    by (simp_all add: turned_def h)
  have "field_of ?n = field_of ?n' \<and> map field_of t = map field_of t' \<or> path_clash g t t' bs ?n ?n'"
    using Cons.IH [of t ?n t' ?n'] Cons.prems ss by simp
  moreover have "field_of x = field_of y \<and> field_of s = field_of s' \<or> clash (\<lambda>(u, v). g u v) (turned b s x) (turned b s' y)"
    if "field_of ?n = field_of ?n'"
  proof -
    have "?n = ?n'" using that by (auto simp: h dest!: canon split: if_splits)
    then have "(case turned b s x of (u, v) \<Rightarrow> g u v) = (case turned b s' y of (u, v) \<Rightarrow> g u v)" by (simp only: n)
    from clashI [of "\<lambda>(u, v). g u v", OF this] show ?thesis by (auto simp: turned_def split: if_splits)
  qed
  ultimately show ?case unfolding ss path_clash.simps n by auto
qed simp

section \<open>The contract of an append-only tree\<close>

text \<open>
  \<open>leaves\<close> reads the appended leaves back; every law is stated on a well-formed tree. Both
  trees of the SDK interpret it, so that whatever follows here holds of both, and they agree
  on the root of the same leaves.
\<close>

locale merkle_tree =
  fixes h :: hash2
    and g :: "int \<Rightarrow> int \<Rightarrow> bytes"
    and depth :: nat
    and wf :: "'t \<Rightarrow> bool"
    and leaves :: "'t \<Rightarrow> bytes list"
    and empty :: "'t"
    and append1 :: "bytes \<Rightarrow> 't \<Rightarrow> 't"
    and root :: "'t \<Rightarrow> bytes"
    and siblings :: "'t \<Rightarrow> nat \<Rightarrow> bytes list"
  assumes h_def: "h l r = g (field_of l) (field_of r)"
    and g_canon: "field_of (g u v) = field_of (g u2 v2) \<Longrightarrow> g u v = g u2 v2"
    and wf_empty: "wf empty" and leaves_empty: "leaves empty = []"
    and wf_append: "wf t \<Longrightarrow> length (leaves t) < 2 ^ depth \<Longrightarrow> wf (append1 c t)"
    and leaves_append: "wf t \<Longrightarrow> length (leaves t) < 2 ^ depth \<Longrightarrow> leaves (append1 c t) = leaves t @ [c]"
    and wf_bound: "wf t \<Longrightarrow> length (leaves t) \<le> 2 ^ depth"
    and root_spec: "wf t \<Longrightarrow> root t = subtree h (leaves t) depth 0"
    and siblings_spec: "wf t \<Longrightarrow> siblings t i = path_sibs h (leaves t) depth 0 i"
begin

lemma fold_append:
  "wf t \<Longrightarrow> length (leaves t) + length cs \<le> 2 ^ depth \<Longrightarrow>
     wf (fold append1 cs t) \<and> leaves (fold append1 cs t) = leaves t @ cs"
proof (induction cs arbitrary: t)
  case (Cons c cs)
  have "wf (append1 c t)" "leaves (append1 c t) = leaves t @ [c]"
    using Cons.prems by (simp_all add: wf_append leaves_append)
  with Cons.IH [of "append1 c t"] Cons.prems show ?case by simp
qed simp

lemma built_root:
  "length cs \<le> 2 ^ depth \<Longrightarrow> root (fold append1 cs empty) = subtree h cs depth 0"
  using fold_append [of empty cs] by (simp add: wf_empty leaves_empty root_spec)

lemma member_fold:
  "wf t \<Longrightarrow> i < length (leaves t) \<Longrightarrow>
     fold_path h (siblings t i) (path_bits depth i) (leaves t ! i) = root t"
  using root_member wf_bound by (simp add: siblings_spec root_spec)

lemma append_fold:
  assumes "wf t" "length (leaves t) < 2 ^ depth"
  shows "fold_path h (siblings t (length (leaves t))) (path_bits depth (length (leaves t))) ZERO = root t"
    and "fold_path h (siblings t (length (leaves t))) (path_bits depth (length (leaves t))) c = root (append1 c t)"
  using assms append_transition(1) [where ls = "leaves t" and d = depth and h = h]
    append_transition(2) [where ls = "leaves t" and d = depth and h = h and c = c]
  by (simp_all add: siblings_spec root_spec wf_append leaves_append)

lemma member_binding:
  assumes "wf t" "i < length (leaves t)" "length ss = depth"
    and "fold_path h ss (path_bits depth i) x = root t"
  shows "field_of x = field_of (leaves t ! i) \<or> path_clash g ss (siblings t i) (path_bits depth i) x (leaves t ! i)"
proof -
  have "fold_path h ss (path_bits depth i) x = fold_path h (siblings t i) (path_bits depth i) (leaves t ! i)"
    using member_fold [OF assms(1,2)] assms(4) by simp
  moreover have "length (siblings t i) = depth" using assms(1) by (simp add: siblings_spec)
  ultimately show ?thesis
    using fold_path_binding [where h = h and g = g, OF h_def g_canon] assms(3)
    by (metis length_path_bits)
qed

end

end
