(* ===== verification/CommitmentTree.thy ===== *)
theory CommitmentTree
  imports MerkleSpec
begin

text \<open>
  The client-side commitment tree, \<open>sdk/merkle-tree/index.ts\<close>. The node store is the map
  of maps the class keeps (level, then index), read through \<open>tree_get\<close> with the zero hash
  of the level as default. \<open>poseidon2\<close> of the package \<open>poseidon-lite\<close> is a parameter.
  The bit operations \<open>i ^ 1\<close>, \<open>i & 1\<close>, \<open>i >> 1\<close> are the word operations of the source on
  an index below \<open>2 ^ 20\<close>.

  The invariant \<open>tree_inv\<close> says that every stored or defaulted node is the node of the
  complete tree over the appended leaves; \<open>insert\<close> keeps it, and the roots, proofs and
  insertion witnesses follow from the contract of \<open>MerkleSpec\<close>.
\<close>

section \<open>Hashing\<close>

definition poseidonHash2 :: "(int \<Rightarrow> int \<Rightarrow> int) \<Rightarrow> int \<Rightarrow> int \<Rightarrow> bytes" where
  "poseidonHash2 poseidon2 a b = fieldToBytes32 (poseidon2 a b)"

definition tree_hash :: "(int \<Rightarrow> int \<Rightarrow> int) \<Rightarrow> bytes \<Rightarrow> bytes \<Rightarrow> bytes" where
  "tree_hash p l r = fieldToBytes32 (field_of (poseidonHash2 p (field_of l) (field_of r)))"

lemma field_of_poseidonHash2 [simp]: "field_of (poseidonHash2 p a b) = p a b mod BN254_FIELD_MODULUS"
  by (simp add: poseidonHash2_def)

lemma fieldToBytes32_mod [simp]: "fieldToBytes32 (f mod BN254_FIELD_MODULUS) = fieldToBytes32 f"
  by (simp add: fieldToBytes32_eq_iff)

lemma tree_hash_poseidon: "tree_hash p l r = poseidonHash2 p (field_of l) (field_of r)"
  by (simp add: tree_hash_def) (simp add: poseidonHash2_def)

lemma poseidonHash2_canon:
  "field_of (poseidonHash2 p a b) = field_of (poseidonHash2 p c d) \<Longrightarrow> poseidonHash2 p a b = poseidonHash2 p c d"
  by (simp add: poseidonHash2_def fieldToBytes32_eq_iff)

lemma length_poseidonHash2 [simp]: "length (poseidonHash2 p a b) = 32"
  by (simp add: poseidonHash2_def)

section \<open>The tree\<close>

definition TREE_DEPTH :: nat where
  "TREE_DEPTH = 20"

definition MAX_LEAVES :: nat where
  "MAX_LEAVES = 2 ^ TREE_DEPTH"

record merkle_proof =
  mp_leaf :: bytes
  mp_index :: nat
  mp_indexBits :: "bool list"
  mp_siblings :: "bytes list"
  mp_root :: bytes

record insertion_witness =
  iw_index :: nat
  iw_indexBits :: "bool list"
  iw_siblings :: "bytes list"
  iw_emptyLeaf :: bytes
  iw_oldRoot :: bytes
  iw_newRoot :: bytes

record commitment_tree =
  ct_depth :: nat
  ct_zeros :: "bytes list"
  ct_nodes :: "(nat, (nat, bytes) jsmap) jsmap"
  ct_count :: nat

text \<open>The loop of the constructor, which pushes one zero hash after the other.\<close>

fun zeros_loop :: "(int \<Rightarrow> int \<Rightarrow> int) \<Rightarrow> nat \<Rightarrow> bytes \<Rightarrow> bytes list \<Rightarrow> bytes list" where
  "zeros_loop p 0 z zs = zs"
| "zeros_loop p (Suc n) z zs = (let z' = tree_hash p z z in zeros_loop p n z' (zs @ [z']))"

definition new_CommitmentTree :: "(int \<Rightarrow> int \<Rightarrow> int) \<Rightarrow> nat \<Rightarrow> commitment_tree" where
  "new_CommitmentTree p d =
     \<lparr>ct_depth = d, ct_zeros = zeros_loop p d ZERO [ZERO], ct_nodes = [], ct_count = 0\<rparr>"

definition tree_get :: "commitment_tree \<Rightarrow> nat \<Rightarrow> nat \<Rightarrow> bytes" where
  "tree_get t level index =
     (case Option.bind (jm_get (ct_nodes t) level) (\<lambda>lvl. jm_get lvl index) of
        Some v \<Rightarrow> v
      | None \<Rightarrow> ct_zeros t ! level)"

definition tree_set :: "nat \<Rightarrow> nat \<Rightarrow> bytes \<Rightarrow> commitment_tree \<Rightarrow> commitment_tree" where
  "tree_set level index v t =
     (let lvl = (case jm_get (ct_nodes t) level of Some l \<Rightarrow> l | None \<Rightarrow> [])
      in t\<lparr>ct_nodes := jm_set level (jm_set index v lvl) (ct_nodes t)\<rparr>)"

definition tree_root :: "commitment_tree \<Rightarrow> bytes" where
  "tree_root t = tree_get t (ct_depth t) 0"

fun setLeaf_loop :: "(int \<Rightarrow> int \<Rightarrow> int) \<Rightarrow> nat \<Rightarrow> nat \<Rightarrow> nat \<Rightarrow> commitment_tree \<Rightarrow> commitment_tree" where
  "setLeaf_loop p 0 level i t = t"
| "setLeaf_loop p (Suc n) level i t =
     (let sibling = tree_get t level (i XOR 1);
          current = tree_get t level i;
          (l, r) = (if i AND 1 = 0 then (current, sibling) else (sibling, current));
          i' = drop_bit 1 i
      in setLeaf_loop p n (level + 1) i' (tree_set (level + 1) i' (tree_hash p l r) t))"

definition setLeaf :: "(int \<Rightarrow> int \<Rightarrow> int) \<Rightarrow> nat \<Rightarrow> bytes \<Rightarrow> commitment_tree \<Rightarrow> commitment_tree" where
  "setLeaf p index v t = setLeaf_loop p (ct_depth t) 0 index (tree_set 0 index v t)"

definition tree_insert ::
  "(int \<Rightarrow> int \<Rightarrow> int) \<Rightarrow> bytes \<Rightarrow> commitment_tree \<Rightarrow> (js_error, nat \<times> commitment_tree) result" where
  "tree_insert p c t =
     (if MAX_LEAVES \<le> ct_count t then Inl (JsError ''commitment tree is full'')
      else (let index = ct_count t in Inr (index, setLeaf p index c (t\<lparr>ct_count := index + 1\<rparr>))))"

fun tree_insertMany ::
  "(int \<Rightarrow> int \<Rightarrow> int) \<Rightarrow> bytes list \<Rightarrow> commitment_tree \<Rightarrow> (js_error, nat list \<times> commitment_tree) result" where
  "tree_insertMany p [] t = Inr ([], t)"
| "tree_insertMany p (c # cs) t =
     rbind (tree_insert p c t) (\<lambda>(i, t'). rbind (tree_insertMany p cs t') (\<lambda>(is, t''). Inr (i # is, t'')))"

text \<open>The walk up the tree that \<open>insertionWitness\<close> and \<open>proof\<close> share.\<close>

fun path_loop :: "commitment_tree \<Rightarrow> nat \<Rightarrow> nat \<Rightarrow> nat \<Rightarrow> bytes list \<times> bool list" where
  "path_loop t 0 level i = ([], [])"
| "path_loop t (Suc n) level i =
     (let (ss, bs) = path_loop t n (level + 1) (drop_bit 1 i)
      in (tree_get t level (i XOR 1) # ss, (i AND 1 = 1) # bs))"

text \<open>\<open>fold\<close> of \<open>insertionWitness\<close>, over the levels below the depth.\<close>

definition witness_fold :: "(int \<Rightarrow> int \<Rightarrow> int) \<Rightarrow> nat \<Rightarrow> bytes list \<Rightarrow> bool list \<Rightarrow> bytes \<Rightarrow> bytes" where
  "witness_fold p d ss bs leaf =
     foldl (\<lambda>node level. let (l, r) = (if bs ! level then (ss ! level, node) else (node, ss ! level))
                         in tree_hash p l r) leaf [0..<d]"

definition insertionWitness ::
  "(int \<Rightarrow> int \<Rightarrow> int) \<Rightarrow> bytes \<Rightarrow> commitment_tree \<Rightarrow> (js_error, insertion_witness) result" where
  "insertionWitness p c t =
     (if MAX_LEAVES \<le> ct_count t then Inl (JsError ''commitment tree is full'')
      else
        (let index = ct_count t;
             (ss, bs) = path_loop t (ct_depth t) 0 index
         in Inr \<lparr>iw_index = index, iw_indexBits = bs, iw_siblings = ss, iw_emptyLeaf = ZERO,
                 iw_oldRoot = witness_fold p (ct_depth t) ss bs ZERO,
                 iw_newRoot = witness_fold p (ct_depth t) ss bs c\<rparr>))"

definition tree_proof :: "int \<Rightarrow> commitment_tree \<Rightarrow> (js_error, merkle_proof) result" where
  "tree_proof index t =
     (if index < 0 \<or> int (ct_count t) \<le> index
      then Inl (JsError (''leaf '' @ dec_of_int index @ '' is not in the tree (size '' @
             dec_of_nat (ct_count t) @ '')''))
      else
        (let i = nat index;
             (ss, bs) = path_loop t (ct_depth t) 0 i
         in Inr \<lparr>mp_leaf = tree_get t 0 i, mp_index = i, mp_indexBits = bs, mp_siblings = ss,
                 mp_root = tree_root t\<rparr>))"

fun indexOf_loop :: "bytes \<Rightarrow> (nat, bytes) jsmap \<Rightarrow> int" where
  "indexOf_loop c [] = -1"
| "indexOf_loop c ((index, value) # rest) =
     (if length value = length c \<and> list_all (\<lambda>k. value ! k = c ! k) [0..<length value]
      then int index else indexOf_loop c rest)"

definition tree_indexOf :: "bytes \<Rightarrow> commitment_tree \<Rightarrow> int" where
  "tree_indexOf c t = (case jm_get (ct_nodes t) 0 of None \<Rightarrow> -1 | Some leaves \<Rightarrow> indexOf_loop c leaves)"

text \<open>
  \<open>verifyMerkleProof\<close> walks the siblings; a missing direction bit reads as \<open>undefined\<close>,
  which is falsy. The final \<open>every\<close> runs over the recomputed node.
\<close>

definition verifyMerkleProof :: "(int \<Rightarrow> int \<Rightarrow> int) \<Rightarrow> merkle_proof \<Rightarrow> bool" where
  "verifyMerkleProof p pr =
     (let ss = mp_siblings pr; bs = mp_indexBits pr;
          node = foldl (\<lambda>node level.
                   let right = level < length bs \<and> bs ! level;
                       (l, r) = (if right then (ss ! level, node) else (node, ss ! level))
                   in tree_hash p l r) (mp_leaf pr) [0..<length ss]
      in list_all (\<lambda>i. i < length (mp_root pr) \<and> node ! i = mp_root pr ! i) [0..<length node])"

section \<open>The node store\<close>

lemma nat_xor_1: "(i :: nat) XOR 1 = sib i"
  by (simp add: sib_def xor_Suc_0_eq)

lemma nat_and_1: "(i :: nat) AND 1 = i mod 2"
  by (simp add: and_one_eq)

lemma tree_get_set [simp]:
  "tree_get (tree_set L i v t) L' j = (if L' = L \<and> j = i then v else tree_get t L' j)"
  by (auto simp: tree_get_def tree_set_def Let_def split: option.splits)

lemma tree_get_count [simp]: "tree_get (t\<lparr>ct_count := n\<rparr>) L j = tree_get t L j"
  by (simp add: tree_get_def split: option.split)

lemma tree_set_fields [simp]:
  "ct_depth (tree_set L i v t) = ct_depth t" "ct_zeros (tree_set L i v t) = ct_zeros t"
  "ct_count (tree_set L i v t) = ct_count t"
  by (simp_all add: tree_set_def Let_def)

lemma zeros_loop_spec:
  "zeros_loop p n (zero_hash (tree_hash p) k) zs = zs @ map (zero_hash (tree_hash p)) [Suc k..<Suc k + n]"
proof (induction n arbitrary: k zs)
  case (Suc n)
  have "[Suc k..<Suc k + Suc n] = Suc k # [Suc (Suc k)..<Suc (Suc k) + n]"
    by (simp add: upt_conv_Cons del: upt_Suc)
  then show ?case using Suc [of "Suc k"] by (simp add: Let_def del: upt_Suc)
qed simp

lemma zeros_loop_ZERO: "zeros_loop p d ZERO [ZERO] = map (zero_hash (tree_hash p)) [0..<Suc d]"
  using zeros_loop_spec [of p d 0 "[ZERO]"] by (simp add: upt_conv_Cons del: upt_Suc)

section \<open>The invariant\<close>

text \<open>The leaves are what the level-0 map holds, in insertion order.\<close>

definition tree_leaves :: "commitment_tree \<Rightarrow> bytes list" where
  "tree_leaves t = map (tree_get t 0) [0..<ct_count t]"

definition tree_inv :: "(int \<Rightarrow> int \<Rightarrow> int) \<Rightarrow> nat \<Rightarrow> commitment_tree \<Rightarrow> bool" where
  "tree_inv p d t \<longleftrightarrow> ct_depth t = d \<and> ct_count t \<le> 2 ^ d
     \<and> ct_zeros t = map (zero_hash (tree_hash p)) [0..<Suc d]
     \<and> (case jm_get (ct_nodes t) 0 of
          Some m \<Rightarrow> jm_keys m = [0..<ct_count t] | None \<Rightarrow> ct_count t = 0)
     \<and> (\<forall>L \<le> d. \<forall>i. tree_get t L i = subtree (tree_hash p) (tree_leaves t) L i)"

lemma tree_inv_get:
  "tree_inv p d t \<Longrightarrow> L \<le> d \<Longrightarrow> tree_get t L i = subtree (tree_hash p) (tree_leaves t) L i"
  by (simp add: tree_inv_def)

lemma length_tree_leaves [simp]: "length (tree_leaves t) = ct_count t"
  by (simp add: tree_leaves_def)

lemma tree_inv_new: "tree_inv p d (new_CommitmentTree p d)"
  by (simp add: tree_inv_def new_CommitmentTree_def zeros_loop_ZERO tree_get_def tree_leaves_def
      subtree_empty nth_map_upt less_Suc_eq_le del: upt_Suc map_upt_Suc)

text \<open>
  The loop of \<open>setLeaf\<close>: with the nodes up to \<open>L\<close> those of the new leaves and the higher
  ones those of the old, it brings all of them up to the new leaves.
\<close>

lemma setLeaf_loop_spec:
  assumes "\<forall>j. \<forall>K \<le> L. tree_get t K j = subtree (tree_hash p) (ls @ [c]) K j"
    and "\<forall>j. \<forall>K. L < K \<and> K \<le> L + n \<longrightarrow> tree_get t K j = subtree (tree_hash p) ls K j"
    and "K \<le> L + n"
  shows "tree_get (setLeaf_loop p n L (length ls div 2 ^ L) t) K j = subtree (tree_hash p) (ls @ [c]) K j"
  using assms
proof (induction n arbitrary: L t)
  case 0
  then show ?case by simp
next
  case (Suc n)
  let ?i = "length ls div 2 ^ L" and ?h = "tree_hash p"
  have half: "drop_bit 1 ?i = length ls div 2 ^ Suc L" "?i div 2 = length ls div 2 ^ Suc L"
    by (simp_all add: drop_bit_eq_div div_mult2_eq power_Suc2 del: power_Suc)
  define v where "v = subtree ?h (ls @ [c]) (Suc L) (length ls div 2 ^ Suc L)"
  have v: "v = (if odd ?i then ?h (tree_get t L (sib ?i)) (tree_get t L ?i)
                else ?h (tree_get t L ?i) (tree_get t L (sib ?i)))"
    unfolding v_def half(2) [symmetric] subtree_parent using Suc.prems(1) by simp
  have step: "setLeaf_loop p (Suc n) L ?i t =
      setLeaf_loop p n (Suc L) (length ls div 2 ^ Suc L) (tree_set (Suc L) (length ls div 2 ^ Suc L) v t)"
    by (simp only: setLeaf_loop.simps Let_def nat_xor_1 nat_and_1 half v)
      (simp add: even_iff_mod_2_eq_zero odd_iff_mod_2_eq_one)
  let ?t = "tree_set (Suc L) (length ls div 2 ^ Suc L) v t"
  have "tree_get t (Suc L) j = subtree ?h ls (Suc L) j" for j
    using Suc.prems(2) [rule_format, of "Suc L" j] by simp
  then have "\<forall>j. \<forall>K \<le> Suc L. tree_get ?t K j = subtree ?h (ls @ [c]) K j"
    using Suc.prems(1,2) subtree_append_other [of _ ls "Suc L" ?h c]
    by (auto simp: v_def le_Suc_eq simp del: subtree.simps)
  moreover have "\<forall>j. \<forall>K. Suc L < K \<and> K \<le> Suc L + n \<longrightarrow> tree_get ?t K j = subtree ?h ls K j"
    using Suc.prems(2) by simp
  ultimately show ?case using Suc.IH [of "Suc L" ?t] Suc.prems(3) by (simp only: step)
qed

lemma setLeaf_loop_fields:
  "ct_depth (setLeaf_loop p n L i t) = ct_depth t" "ct_zeros (setLeaf_loop p n L i t) = ct_zeros t"
  "ct_count (setLeaf_loop p n L i t) = ct_count t"
  "jm_get (ct_nodes (setLeaf_loop p n L i t)) 0 = jm_get (ct_nodes t) 0"
  by (induction n arbitrary: L i t) (simp_all add: Let_def case_prod_beta, simp add: tree_set_def Let_def)

lemma tree_insert_run:
  assumes "ct_count t < MAX_LEAVES"
  shows "tree_insert p c t = Inr (ct_count t, setLeaf p (ct_count t) c (t\<lparr>ct_count := ct_count t + 1\<rparr>))"
  using assms by (simp add: tree_insert_def Let_def)

definition tree_append :: "(int \<Rightarrow> int \<Rightarrow> int) \<Rightarrow> bytes \<Rightarrow> commitment_tree \<Rightarrow> commitment_tree" where
  "tree_append p c t = setLeaf p (ct_count t) c (t\<lparr>ct_count := ct_count t + 1\<rparr>)"

lemma tree_append_inv:
  assumes inv: "tree_inv p d t" and room: "ct_count t < 2 ^ d"
  shows "tree_inv p d (tree_append p c t)" "tree_leaves (tree_append p c t) = tree_leaves t @ [c]"
proof -
  let ?ls = "tree_leaves t" and ?n = "ct_count t" and ?h = "tree_hash p"
  let ?s = "tree_set 0 ?n c (t\<lparr>ct_count := ?n + 1\<rparr>)" and ?t = "tree_append p c t"
  have d: "ct_depth t = d" using inv by (simp add: tree_inv_def)
  have "ct_depth (t\<lparr>ct_count := ?n + 1\<rparr>) = d" using d by simp
  then have t: "?t = setLeaf_loop p d 0 (length ?ls div 2 ^ 0) ?s"
    unfolding tree_append_def setLeaf_def by simp
  have get: "tree_get ?t L j = subtree ?h (?ls @ [c]) L j" if "L \<le> d" for L j
    unfolding t
  proof (rule setLeaf_loop_spec)
    show "\<forall>j. \<forall>K \<le> 0. tree_get ?s K j = subtree ?h (?ls @ [c]) K j"
      using tree_inv_get [OF inv, of 0] by (auto simp: nth_append)
    show "\<forall>j K. 0 < K \<and> K \<le> 0 + d \<longrightarrow> tree_get ?s K j = subtree ?h ?ls K j"
      using tree_inv_get [OF inv] by simp
  qed (use that in simp)
  have cnt: "ct_count ?t = ?n + 1" by (simp add: t setLeaf_loop_fields)
  show lv: "tree_leaves ?t = ?ls @ [c]"
    by (rule nth_equalityI) (use get [of 0] in \<open>auto simp: cnt tree_leaves_def [of ?t] nth_append\<close>)
  have flds: "ct_depth ?t = d" "ct_zeros ?t = ct_zeros t"
    by (simp_all add: t setLeaf_loop_fields d)
  have keys: "case jm_get (ct_nodes ?t) 0 of
          Some m \<Rightarrow> jm_keys m = [0..<ct_count ?t] | None \<Rightarrow> ct_count ?t = 0"
  proof (cases "jm_get (ct_nodes t) 0")
    case None
    with inv show ?thesis
      by (simp add: t setLeaf_loop_fields tree_inv_def tree_set_def Let_def)
  next
    case (Some m)
    with inv have k: "jm_keys m = [0..<?n]" by (simp add: tree_inv_def)
    then have "jm_keys (jm_set ?n c m) = [0..<Suc ?n]" by (simp add: jm_keys_set)
    with Some show ?thesis
      by (simp add: t setLeaf_loop_fields tree_set_def Let_def)
  qed
  have "ct_zeros t = map (zero_hash ?h) [0..<Suc d]" using inv unfolding tree_inv_def by blast
  then show "tree_inv p d ?t"
    unfolding tree_inv_def lv flds using room get keys cnt by simp
qed

section \<open>The contract\<close>

lemma path_loop_inv:
  assumes "tree_inv p d t" "L + n \<le> d"
  shows "path_loop t n L i = (path_sibs (tree_hash p) (tree_leaves t) n L i, path_bits n i)"
  using assms(2)
proof (induction n arbitrary: L i)
  case (Suc n)
  have "tree_get t L (sib i) = subtree (tree_hash p) (tree_leaves t) L (sib i)"
    using tree_inv_get [OF assms(1)] Suc.prems by simp
  moreover have "path_loop t n (Suc L) (i div 2) =
      (path_sibs (tree_hash p) (tree_leaves t) n (Suc L) (i div 2), path_bits n (i div 2))"
    using Suc by simp
  ultimately show ?case
    by (simp only: path_loop.simps nat_xor_1 nat_and_1 drop_bit_eq_div) (simp add: odd_iff_mod_2_eq_one)
qed simp

interpretation ct: merkle_tree "tree_hash p" "poseidonHash2 p" d "tree_inv p d" tree_leaves
  "new_CommitmentTree p d" "tree_append p" tree_root "\<lambda>t i. fst (path_loop t d 0 i)"
  for p d
proof unfold_locales
  show "tree_leaves (new_CommitmentTree p d) = []"
    by (simp add: tree_leaves_def new_CommitmentTree_def)
  show "length (tree_leaves t) \<le> 2 ^ d" if "tree_inv p d t" for t
    using that by (simp add: tree_inv_def)
  show "tree_root t = subtree (tree_hash p) (tree_leaves t) d 0" if "tree_inv p d t" for t
    using that by (simp add: tree_root_def tree_inv_def)
  show "field_of (poseidonHash2 p u v) = field_of (poseidonHash2 p u2 v2) \<Longrightarrow>
      poseidonHash2 p u v = poseidonHash2 p u2 v2" for u v u2 v2
    by (rule poseidonHash2_canon)
qed (simp_all add: tree_hash_poseidon tree_inv_new tree_append_inv path_loop_inv)

section \<open>Paths and proofs\<close>

lemma fold_path_snoc:
  "length us = length vs \<Longrightarrow> fold_path h (us @ [s]) (vs @ [v]) y =
     (let n = fold_path h us vs y in if v then h s n else h n s)"
  by (induction h us vs y rule: fold_path.induct) auto

lemma fold_levels:
  assumes "length ss = length bs" "k \<le> length ss"
  shows "foldl (\<lambda>node level. let (l, r) = (if bs ! level then (ss ! level, node) else (node, ss ! level))
                              in tree_hash p l r) x [0..<k]
         = fold_path (tree_hash p) (take k ss) (take k bs) x"
  using assms(2)
proof (induction k)
  case (Suc k)
  have "take (Suc k) ss = take k ss @ [ss ! k]" "take (Suc k) bs = take k bs @ [bs ! k]"
    using Suc.prems assms(1) by (simp_all add: take_Suc_conv_app_nth)
  with Suc assms(1) show ?case by (simp add: fold_path_snoc Let_def)
qed simp

lemma witness_fold_path:
  "length ss = d \<Longrightarrow> length bs = d \<Longrightarrow> witness_fold p d ss bs x = fold_path (tree_hash p) ss bs x"
  using fold_levels [of ss bs d p x] by (simp add: witness_fold_def)

lemma list_all_prefix_iff:
  "list_all (\<lambda>i. i < length r \<and> n ! i = r ! i) [0..<length n] \<longleftrightarrow> prefix n r"
proof
  assume h: "list_all (\<lambda>i. i < length r \<and> n ! i = r ! i) [0..<length n]"
  then have e: "i < length n \<Longrightarrow> i < length r \<and> n ! i = r ! i" for i by (auto simp: list_all_iff)
  have "length n \<le> length r" using e [of "length n - 1"] by (cases n) auto
  with e have "n = take (length n) r" by (intro nth_equalityI) auto
  then show "prefix n r" by (metis take_is_prefix)
qed (auto simp: list_all_iff prefix_def nth_append)

lemma verifyMerkleProof_fold:
  assumes "length (mp_siblings pr) = length (mp_indexBits pr)"
  shows "verifyMerkleProof p pr \<longleftrightarrow>
    prefix (fold_path (tree_hash p) (mp_siblings pr) (mp_indexBits pr) (mp_leaf pr)) (mp_root pr)"
proof -
  let ?ss = "mp_siblings pr" and ?bs = "mp_indexBits pr"
  have "foldl (\<lambda>node level. let right = level < length ?bs \<and> ?bs ! level;
            (l, r) = (if right then (?ss ! level, node) else (node, ?ss ! level)) in tree_hash p l r)
          (mp_leaf pr) [0..<length ?ss]
      = foldl (\<lambda>node level. let (l, r) = (if ?bs ! level then (?ss ! level, node) else (node, ?ss ! level))
            in tree_hash p l r) (mp_leaf pr) [0..<length ?ss]"
    by (rule foldl_cong) (auto simp: assms)
  then show ?thesis
    using fold_levels [of ?ss ?bs "length ?ss" p "mp_leaf pr"] assms
    by (simp add: verifyMerkleProof_def list_all_prefix_iff)
qed

lemma length_tree_hash [simp]: "length (tree_hash p l r) = 32"
  by (simp add: tree_hash_poseidon)

lemma length_subtree: "\<forall>l \<in> set ls. length l = 32 \<Longrightarrow> length (subtree (tree_hash p) ls L i) = 32"
  by (cases L) auto

lemma tree_append_insert:
  assumes "tree_inv p d t" "ct_count t < 2 ^ d" "d \<le> TREE_DEPTH"
  shows "tree_insert p c t = Inr (ct_count t, tree_append p c t)"
proof -
  have "(2 :: nat) ^ d \<le> MAX_LEAVES" using assms(3) by (simp add: MAX_LEAVES_def)
  with assms(2) show ?thesis by (simp add: tree_insert_run tree_append_def)
qed

lemma tree_append_count: "tree_inv p d t \<Longrightarrow> ct_count t < 2 ^ d \<Longrightarrow> ct_count (tree_append p c t) = ct_count t + 1"
  using tree_append_inv(2) [of p d t c] by (metis length_append_singleton length_tree_leaves Suc_eq_plus1)

lemma insertMany_run:
  assumes "tree_inv p d t" "ct_count t + length cs \<le> 2 ^ d" "d \<le> TREE_DEPTH"
  shows "tree_insertMany p cs t = Inr ([ct_count t..<ct_count t + length cs], fold (tree_append p) cs t)"
  using assms
proof (induction cs arbitrary: t)
  case (Cons c cs)
  have room: "ct_count t < 2 ^ d" using Cons.prems by simp
  have "tree_insertMany p cs (tree_append p c t) =
      Inr ([Suc (ct_count t)..<Suc (ct_count t) + length cs], fold (tree_append p) cs (tree_append p c t))"
    using Cons.IH [of "tree_append p c t"] Cons.prems room
    by (simp add: tree_append_inv tree_append_count del: upt_Suc)
  then show ?case
    using Cons.prems room by (simp add: tree_append_insert upt_conv_Cons del: upt_Suc)
qed simp

text \<open>A tree built from a list of leaves, as the callers build it.\<close>

definition tree_of :: "(int \<Rightarrow> int \<Rightarrow> int) \<Rightarrow> nat \<Rightarrow> bytes list \<Rightarrow> commitment_tree" where
  "tree_of p d cs = fold (tree_append p) cs (new_CommitmentTree p d)"

lemma tree_of_inv:
  assumes "length cs \<le> 2 ^ d"
  shows "tree_inv p d (tree_of p d cs)" "tree_leaves (tree_of p d cs) = cs"
  using ct.fold_append [where t = "new_CommitmentTree p d" and cs = cs and p = p and d = d] assms
  by (simp_all add: tree_of_def ct.wf_empty ct.leaves_empty)

lemma tree_of_count: "length cs \<le> 2 ^ d \<Longrightarrow> ct_count (tree_of p d cs) = length cs"
  by (metis tree_of_inv(2) length_tree_leaves)

lemma tree_of_insertMany:
  assumes "length cs \<le> 2 ^ d" "d \<le> TREE_DEPTH"
  shows "tree_insertMany p cs (new_CommitmentTree p d) = Inr ([0..<length cs], tree_of p d cs)"
proof -
  have "ct_count (new_CommitmentTree p d) = 0" by (simp add: new_CommitmentTree_def)
  with insertMany_run [OF tree_inv_new [of p d], of cs] assms show ?thesis
    by (simp add: tree_of_def)
qed

lemma member_proof_verifies:
  assumes "length cs \<le> 2 ^ d" "\<forall>c \<in> set cs. length c = 32"
  shows "if 0 \<le> i \<and> i < int (length cs)
    then \<exists>pr. tree_proof i (tree_of p d cs) = Inr pr \<and> mp_leaf pr = cs ! nat i
      \<and> mp_root pr = tree_root (tree_of p d cs) \<and> length (mp_siblings pr) = d
      \<and> mp_indexBits pr = path_bits d (nat i) \<and> verifyMerkleProof p pr
    else \<exists>e. tree_proof i (tree_of p d cs) = Inl e"
proof (cases "0 \<le> i \<and> i < int (length cs)")
  case True
  let ?t = "tree_of p d cs"
  note inv = tree_of_inv [OF assms(1), where p = p]
  have d: "ct_depth ?t = d" using inv(1) by (simp add: tree_inv_def)
  have lt: "nat i < length cs" using True by (simp add: nat_less_iff)
  have pl: "path_loop ?t d 0 (nat i) = (path_sibs (tree_hash p) cs d 0 (nat i), path_bits d (nat i))"
    using path_loop_inv [OF inv(1), of 0 d "nat i"] inv(2) by simp
  have leaf: "tree_get ?t 0 (nat i) = cs ! nat i"
    using tree_inv_get [OF inv(1), of 0] inv(2) lt by simp
  define pr where "pr = \<lparr>mp_leaf = cs ! nat i, mp_index = nat i, mp_indexBits = path_bits d (nat i),
    mp_siblings = path_sibs (tree_hash p) cs d 0 (nat i), mp_root = tree_root ?t\<rparr>"
  have "tree_proof i ?t = Inr pr"
    using True pl leaf tree_of_count [OF assms(1), of p] by (simp add: tree_proof_def Let_def pr_def d)
  moreover have "verifyMerkleProof p pr"
    using ct.member_fold [OF inv(1), of "nat i"] inv(2) lt pl
    by (simp add: verifyMerkleProof_fold pr_def)
  ultimately show ?thesis using True by (auto simp: pr_def)
next
  case False
  then show ?thesis
    using tree_of_count [OF assms(1), of p] by (auto simp: tree_proof_def)
qed

lemma insertion_transition:
  assumes "length cs < 2 ^ d" "d \<le> TREE_DEPTH"
  shows "\<exists>w t'. insertionWitness p c (tree_of p d cs) = Inr w
    \<and> tree_insert p c (tree_of p d cs) = Inr (iw_index w, t')
    \<and> iw_index w = length cs \<and> iw_emptyLeaf w = ZERO
    \<and> iw_oldRoot w = tree_root (tree_of p d cs) \<and> iw_newRoot w = tree_root t'
    \<and> fold_path (tree_hash p) (iw_siblings w) (iw_indexBits w) ZERO = iw_oldRoot w
    \<and> fold_path (tree_hash p) (iw_siblings w) (iw_indexBits w) c = iw_newRoot w"
proof -
  let ?t = "tree_of p d cs"
  have le: "length cs \<le> 2 ^ d" using assms(1) by simp
  note inv = tree_of_inv [OF le, where p = p]
  have d: "ct_depth ?t = d" using inv(1) by (simp add: tree_inv_def)
  have n: "ct_count ?t = length cs" by (rule tree_of_count [OF le])
  have "(2 :: nat) ^ d \<le> MAX_LEAVES" using assms(2) by (simp add: MAX_LEAVES_def)
  then have room: "ct_count ?t < MAX_LEAVES" using assms(1) n by simp
  obtain ss bs where pl: "path_loop ?t d 0 (length cs) = (ss, bs)" by fastforce
  have sp: "ss = path_sibs (tree_hash p) cs d 0 (length cs)" "bs = path_bits d (length cs)"
    using path_loop_inv [OF inv(1), of 0 d "length cs"] inv(2) pl by simp_all
  have f: "fold_path (tree_hash p) ss bs ZERO = tree_root ?t"
    "fold_path (tree_hash p) ss bs c = tree_root (tree_append p c ?t)"
    using ct.append_fold [OF inv(1)] inv(2) assms(1) pl sp(2) by simp_all
  have "tree_insert p c ?t = Inr (length cs, tree_append p c ?t)"
    using tree_append_insert [OF inv(1) _ assms(2)] assms(1) n by simp
  moreover have "insertionWitness p c ?t = Inr \<lparr>iw_index = length cs, iw_indexBits = bs, iw_siblings = ss,
      iw_emptyLeaf = ZERO, iw_oldRoot = tree_root ?t, iw_newRoot = tree_root (tree_append p c ?t)\<rparr>"
    using room pl n d sp by (simp add: insertionWitness_def Let_def witness_fold_path f [symmetric])
  ultimately show ?thesis using f by simp
qed

section \<open>Properties\<close>

text \<open>C9: Appending a list of commitments to a fresh tree of depth at most 20 with room for
  them succeeds, hands out the leaf indices 0, 1, 2, ... in order, and leaves a tree in which
  every stored or defaulted node, the root included, is the node of the complete Poseidon
  Merkle tree over exactly those commitments.\<close>

theorem insertMany_builds_reference_tree:
  assumes "length cs \<le> 2 ^ d" "d \<le> TREE_DEPTH"
  shows "\<exists>t. tree_insertMany p cs (new_CommitmentTree p d) = Inr ([0..<length cs], t)
    \<and> ct_count t = length cs \<and> tree_root t = subtree (tree_hash p) cs d 0
    \<and> (\<forall>L i. L \<le> d \<longrightarrow> tree_get t L i = subtree (tree_hash p) cs L i)"
proof (intro exI conjI)
  note inv = tree_of_inv [OF assms(1), where p = p]
  show "tree_insertMany p cs (new_CommitmentTree p d) = Inr ([0..<length cs], tree_of p d cs)"
    by (rule tree_of_insertMany [OF assms])
  show "tree_root (tree_of p d cs) = subtree (tree_hash p) cs d 0"
    using ct.root_spec [OF inv(1)] inv(2) by simp
  show "\<forall>L i. L \<le> d \<longrightarrow> tree_get (tree_of p d cs) L i = subtree (tree_hash p) cs L i"
    using tree_inv_get [OF inv(1)] inv(2) by simp
qed (rule tree_of_count [OF assms(1)])

theorem insertMany_builds_reference_tree_witness:
  "\<exists>t. tree_insertMany (\<lambda>a b. a + 2 * b) [[1], [2], [3]] (new_CommitmentTree (\<lambda>a b. a + 2 * b) 2)
         = Inr ([0, 1, 2], t) \<and> ct_count t = 3"
proof -
  have "[0..<3] = [0, 1, 2 :: nat]" by (simp add: upt_rec)
  then show ?thesis
    using insertMany_builds_reference_tree [of "[[1], [2], [3]]" 2 "\<lambda>a b. a + 2 * b"]
    by (auto simp: TREE_DEPTH_def numeral_eq_Suc simp del: upt_Suc)
qed

text \<open>For a tree built by appending commitments, \<open>proof(i)\<close> of every leaf in it returns
  the leaf, its siblings and direction bits and the current root, and
  \<open>verifyMerkleProof\<close> accepts it; an index that is negative or beyond the size throws.\<close>

theorem proof_of_member_verifies:
  assumes "length cs \<le> 2 ^ d" "\<forall>c \<in> set cs. length c = 32"
  shows "if 0 \<le> i \<and> i < int (length cs)
    then \<exists>pr. tree_proof i (tree_of p d cs) = Inr pr \<and> mp_leaf pr = cs ! nat i
      \<and> mp_root pr = tree_root (tree_of p d cs) \<and> length (mp_siblings pr) = d
      \<and> mp_indexBits pr = path_bits d (nat i) \<and> verifyMerkleProof p pr
    else \<exists>e. tree_proof i (tree_of p d cs) = Inl e"
  using assms by (rule member_proof_verifies)

theorem proof_of_member_verifies_witness:
  "\<exists>pr. tree_proof 1 (tree_of (\<lambda>a b. a + 2 * b) 2 [ZERO, ZERO, ZERO]) = Inr pr \<and> verifyMerkleProof (\<lambda>a b. a + 2 * b) pr"
  using proof_of_member_verifies [of "[ZERO, ZERO, ZERO]" 2 1 "\<lambda>a b. a + 2 * b"] by auto

text \<open>C10: \<open>insertionWitness(c)\<close> proves the tree transition: at the next free slot, its
  siblings and direction bits fold the empty leaf to the current root (\<open>oldRoot\<close>) and the
  commitment to the root the tree has after \<open>insert(c)\<close> (\<open>newRoot\<close>).\<close>

theorem insertionWitness_is_transition:
  assumes "length cs < 2 ^ d" "d \<le> TREE_DEPTH"
  shows "\<exists>w t'. insertionWitness p c (tree_of p d cs) = Inr w
    \<and> tree_insert p c (tree_of p d cs) = Inr (iw_index w, t')
    \<and> iw_index w = length cs \<and> iw_emptyLeaf w = ZERO
    \<and> iw_oldRoot w = tree_root (tree_of p d cs) \<and> iw_newRoot w = tree_root t'
    \<and> fold_path (tree_hash p) (iw_siblings w) (iw_indexBits w) ZERO = iw_oldRoot w
    \<and> fold_path (tree_hash p) (iw_siblings w) (iw_indexBits w) c = iw_newRoot w"
  using assms by (rule insertion_transition)

theorem insertionWitness_is_transition_witness:
  "\<exists>w. insertionWitness (\<lambda>a b. a + 2 * b) [7] (tree_of (\<lambda>a b. a + 2 * b) 2 [[1], [2]]) = Inr w \<and> iw_index w = 2"
  using insertionWitness_is_transition [of "[[1], [2]]" 2 "\<lambda>a b. a + 2 * b" "[7]"]
  by (auto simp: TREE_DEPTH_def)

text \<open>C11: Membership proofs bind: whatever siblings a proof of the tree's depth carries, if it
  verifies against the root of a tree of commitments at position \<open>i\<close>, then its leaf is the
  commitment at \<open>i\<close> (as a field element), or its path and the tree's own path to \<open>i\<close> hash two
  different pairs of field elements to the same node at some level.\<close>

theorem verified_proof_binds_leaf:
  assumes "length cs \<le> 2 ^ d" "\<forall>c \<in> set cs. length c = 32" "i < length cs"
    and "length (mp_siblings pr) = d" "mp_indexBits pr = path_bits d i"
    and "mp_root pr = tree_root (tree_of p d cs)" "length (mp_leaf pr) = 32"
    and "verifyMerkleProof p pr"
  shows "field_of (mp_leaf pr) = field_of (cs ! i)
    \<or> path_clash (poseidonHash2 p) (mp_siblings pr) (path_sibs (tree_hash p) cs d 0 i) (path_bits d i) (mp_leaf pr) (cs ! i)"
proof -
  note inv = tree_of_inv [OF assms(1), where p = p]
  let ?n = "fold_path (tree_hash p) (mp_siblings pr) (path_bits d i) (mp_leaf pr)"
  have r: "tree_root (tree_of p d cs) = subtree (tree_hash p) cs d 0"
    using ct.root_spec [OF inv(1)] inv(2) by simp
  have "length (fold_path (tree_hash p) ss bs x) = 32" if "length x = 32" for ss bs x
    using that by (induction "tree_hash p" ss bs x rule: fold_path.induct) auto
  then have "length ?n = length (mp_root pr)"
    using assms(6,7) length_subtree [OF assms(2)] by (simp add: r)
  moreover have "prefix ?n (mp_root pr)"
    using assms(4,5,8) by (simp add: verifyMerkleProof_fold)
  ultimately have "?n = tree_root (tree_of p d cs)"
    using assms(6) by (metis append_eq_conv_conj prefix_def take_all_iff order_refl)
  then show ?thesis
    using ct.member_binding [OF inv(1), of i "mp_siblings pr" "mp_leaf pr"] ct.siblings_spec [OF inv(1), of i] assms(3,4) inv(2) by simp
qed

theorem verified_proof_binds_leaf_witness:
  "\<exists>pr. verifyMerkleProof (\<lambda>a b. a + 2 * b) pr \<and> mp_root pr = tree_root (tree_of (\<lambda>a b. a + 2 * b) 1 [ZERO, ZERO])
     \<and> (field_of (mp_leaf pr) = field_of ZERO
        \<or> path_clash (poseidonHash2 (\<lambda>a b. a + 2 * b)) (mp_siblings pr) (path_sibs (tree_hash (\<lambda>a b. a + 2 * b)) [ZERO, ZERO] 1 0 0)
            (path_bits 1 0) (mp_leaf pr) ZERO)"
proof -
  let ?p = "\<lambda>a b. a + 2 * b :: int" and ?cs = "[ZERO, ZERO]"
  obtain pr where pr: "tree_proof 0 (tree_of ?p 1 ?cs) = Inr pr" "mp_leaf pr = ZERO"
    "mp_root pr = tree_root (tree_of ?p 1 ?cs)" "length (mp_siblings pr) = 1" "verifyMerkleProof ?p pr"
    "mp_indexBits pr = path_bits 1 0"
    using member_proof_verifies [of ?cs 1 0 ?p] by auto
  show ?thesis
    using verified_proof_binds_leaf [of ?cs 1 0 pr ?p] pr by auto
qed

text \<open>The capacity check of \<open>insert\<close> uses the constant \<open>MAX_LEAVES\<close> = 2^20 and not the
  tree's own depth: a tree of depth below 20 that already holds 2^depth leaves or more
  accepts another commitment, hands out its index, and keeps its root, so the new
  commitment is not in the tree the root commits to.\<close>

theorem insert_beyond_depth_leaves_root:
  assumes "2 ^ ct_depth t \<le> ct_count t" "ct_count t < MAX_LEAVES"
  shows "\<exists>t'. tree_insert p c t = Inr (ct_count t, t') \<and> ct_count t' = ct_count t + 1 \<and> tree_root t' = tree_root t"
proof -
  have keep: "tree_get (setLeaf_loop p n L i s) (L + n) 0 = tree_get s (L + n) 0" if "2 ^ n \<le> i" for n L i s
    using that
  proof (induction n arbitrary: L i s)
    case (Suc n)
    have half: "2 ^ n \<le> drop_bit 1 i" using Suc.prems by (simp add: drop_bit_eq_div)
    then have "0 < drop_bit 1 i" by (meson less_le_trans zero_less_numeral zero_less_power)
    with Suc.IH [OF half, of "Suc L"] show ?case by (simp add: Let_def case_prod_beta)
  qed simp
  define s where "s = tree_set 0 (ct_count t) c (t\<lparr>ct_count := ct_count t + 1\<rparr>)"
  let ?r = "setLeaf_loop p (ct_depth t) 0 (ct_count t) s"
  have "(0 :: nat) < 2 ^ ct_depth t" by simp
  then have pos: "0 < ct_count t" using assms(1) by linarith
  have "ct_depth ?r = ct_depth t" by (simp add: setLeaf_loop_fields s_def)
  then have "tree_root ?r = tree_get s (ct_depth t) 0"
    using keep [OF assms(1), of 0] by (simp add: tree_root_def)
  also have "\<dots> = tree_root t" using pos by (simp add: s_def tree_root_def)
  finally have "tree_root ?r = tree_root t" .
  moreover have "tree_insert p c t = Inr (ct_count t, ?r)"
    using assms(2) by (simp add: tree_insert_run setLeaf_def s_def)
  moreover have "ct_count ?r = ct_count t + 1" by (simp add: setLeaf_loop_fields s_def)
  ultimately show ?thesis by blast
qed

theorem insert_beyond_depth_leaves_root_witness:
  "\<exists>t'. tree_insert (\<lambda>a b. a + 2 * b) [9] (tree_of (\<lambda>a b. a + 2 * b) 1 [[1], [2]]) = Inr (2, t')
     \<and> tree_root t' = tree_root (tree_of (\<lambda>a b. a + 2 * b) 1 [[1], [2]])"
proof -
  let ?t = "tree_of (\<lambda>a b. a + 2 * b) 1 [[1], [2]]"
  have "ct_count ?t = 2" using tree_of_count [of "[[1], [2]]" 1] by simp
  moreover have "ct_depth ?t = 1" using tree_of_inv(1) [of "[[1], [2]]" 1] by (simp add: tree_inv_def)
  ultimately show ?thesis
    using insert_beyond_depth_leaves_root [of ?t "\<lambda>a b. a + 2 * b" "[9]"]
    by (auto simp: MAX_LEAVES_def TREE_DEPTH_def)
qed

end
