(* ===== verification/RootsTree.thy ===== *)
theory RootsTree
  imports CommitmentTree
begin

text \<open>
  The second Merkle tree of the SDK and the client of the on-chain root:
  \<open>sdk/roots/merkle-tree.ts\<close> and \<open>sdk/roots/client.ts\<close>. \<open>MerkleTree\<close> keeps an array of
  leaves and one map per level. It meets the same contract as the commitment tree, so the
  two have the same root for the same leaves.

  \<open>retryRootUpdates\<close> is a loop over attempts. What the registry, the builder and the chain
  answer at attempt \<open>k\<close> is given by functions of \<open>k\<close>; the result carries the trace of the
  roots built against and the delays waited.
\<close>

section \<open>The tree\<close>

record roots_tree =
  rt_depth :: nat
  rt_zeros :: "bytes list"
  rt_leaves :: "bytes list"
  rt_nodes :: "(nat, bytes) jsmap list"

record merkle_path =
  pa_leaf :: bytes
  pa_index :: nat
  pa_indexBits :: "nat list"
  pa_siblings :: "bytes list"
  pa_root :: bytes

fun rt_zeros_loop :: "(int \<Rightarrow> int \<Rightarrow> int) \<Rightarrow> nat \<Rightarrow> bytes list \<Rightarrow> bytes list" where
  "rt_zeros_loop p 0 zs = zs"
| "rt_zeros_loop p (Suc n) zs =
     (let prev = last zs in rt_zeros_loop p n (zs @ [poseidonHash2 p (field_of prev) (field_of prev)]))"

definition new_MerkleTree :: "(int \<Rightarrow> int \<Rightarrow> int) \<Rightarrow> nat \<Rightarrow> roots_tree" where
  "new_MerkleTree p d =
     \<lparr>rt_depth = d, rt_zeros = rt_zeros_loop p d [ZERO], rt_leaves = [], rt_nodes = replicate (d + 1) []\<rparr>"

definition genesisRoot :: "roots_tree \<Rightarrow> bytes" where
  "genesisRoot t = rt_zeros t ! rt_depth t"

definition getNode :: "roots_tree \<Rightarrow> nat \<Rightarrow> nat \<Rightarrow> bytes" where
  "getNode t level index =
     (case jm_get (rt_nodes t ! level) index of Some v \<Rightarrow> v | None \<Rightarrow> rt_zeros t ! level)"

definition setNode :: "nat \<Rightarrow> nat \<Rightarrow> bytes \<Rightarrow> roots_tree \<Rightarrow> roots_tree" where
  "setNode level index v t = t\<lparr>rt_nodes := (rt_nodes t)[level := jm_set index v (rt_nodes t ! level)]\<rparr>"

fun recomputePath_loop :: "(int \<Rightarrow> int \<Rightarrow> int) \<Rightarrow> nat \<Rightarrow> nat \<Rightarrow> nat \<Rightarrow> roots_tree \<Rightarrow> roots_tree" where
  "recomputePath_loop p 0 level i t = t"
| "recomputePath_loop p (Suc n) level i t =
     (let left = (if i mod 2 = 0 then getNode t level i else getNode t level (i - 1));
          right = (if i mod 2 = 0 then getNode t level (i + 1) else getNode t level i);
          parent = poseidonHash2 p (field_of left) (field_of right);
          i' = i div 2
      in recomputePath_loop p n (level + 1) i' (setNode (level + 1) i' parent t))"

definition recomputePath :: "(int \<Rightarrow> int \<Rightarrow> int) \<Rightarrow> nat \<Rightarrow> roots_tree \<Rightarrow> roots_tree" where
  "recomputePath p index t = recomputePath_loop p (rt_depth t) 0 index t"

definition rt_append :: "(int \<Rightarrow> int \<Rightarrow> int) \<Rightarrow> bytes \<Rightarrow> roots_tree \<Rightarrow> (js_error, nat \<times> roots_tree) result" where
  "rt_append p leaf t =
     (if 2 ^ rt_depth t \<le> length (rt_leaves t) then Inl (JsError ''TREE_FULL'')
      else (let index = length (rt_leaves t);
                t1 = t\<lparr>rt_leaves := rt_leaves t @ [leaf]\<rparr>;
                t2 = setNode 0 index leaf t1
            in Inr (index, recomputePath p index t2)))"

definition rt_root :: "roots_tree \<Rightarrow> bytes" where
  "rt_root t = getNode t (rt_depth t) 0"

definition rt_clone :: "(int \<Rightarrow> int \<Rightarrow> int) \<Rightarrow> roots_tree \<Rightarrow> roots_tree" where
  "rt_clone p t = (new_MerkleTree p (rt_depth t))\<lparr>rt_leaves := rt_leaves t, rt_nodes := rt_nodes t\<rparr>"

fun rt_append_all :: "(int \<Rightarrow> int \<Rightarrow> int) \<Rightarrow> bytes list \<Rightarrow> roots_tree \<Rightarrow> (js_error, roots_tree) result" where
  "rt_append_all p [] t = Inr t"
| "rt_append_all p (l # ls) t = rbind (rt_append p l t) (\<lambda>(_, t'). rt_append_all p ls t')"

definition projectRoot :: "(int \<Rightarrow> int \<Rightarrow> int) \<Rightarrow> bytes list \<Rightarrow> roots_tree \<Rightarrow> (js_error, bytes) result" where
  "projectRoot p ls t = rbind (rt_append_all p ls (rt_clone p t)) (\<lambda>s. Inr (rt_root s))"

fun rt_path_loop :: "roots_tree \<Rightarrow> nat \<Rightarrow> nat \<Rightarrow> nat \<Rightarrow> bytes list \<times> nat list" where
  "rt_path_loop t 0 level i = ([], [])"
| "rt_path_loop t (Suc n) level i =
     (let isRight = (i mod 2 = 1);
          siblingIndex = (if isRight then i - 1 else i + 1);
          (ss, bs) = rt_path_loop t n (level + 1) (i div 2)
      in (getNode t level siblingIndex # ss, (if isRight then 1 else 0) # bs))"

definition rt_proof :: "int \<Rightarrow> roots_tree \<Rightarrow> (js_error, merkle_path) result" where
  "rt_proof index t =
     (if index < 0 \<or> int (length (rt_leaves t)) \<le> index then Inl (JsError ''BAD_INDEX'')
      else (let i = nat index; (ss, bs) = rt_path_loop t (rt_depth t) 0 i
            in Inr \<lparr>pa_leaf = rt_leaves t ! i, pa_index = i, pa_indexBits = bs, pa_siblings = ss,
                    pa_root = rt_root t\<rparr>))"

section \<open>The invariant and the contract\<close>

definition rt_inv :: "(int \<Rightarrow> int \<Rightarrow> int) \<Rightarrow> nat \<Rightarrow> roots_tree \<Rightarrow> bool" where
  "rt_inv p d t \<longleftrightarrow> rt_depth t = d \<and> length (rt_leaves t) \<le> 2 ^ d
     \<and> rt_zeros t = map (zero_hash (tree_hash p)) [0..<Suc d] \<and> length (rt_nodes t) = Suc d
     \<and> (\<forall>L \<le> d. \<forall>i. getNode t L i = subtree (tree_hash p) (rt_leaves t) L i)"

lemma rt_zeros_loop_spec:
  "rt_zeros_loop p n (map (zero_hash (tree_hash p)) [0..<Suc k]) = map (zero_hash (tree_hash p)) [0..<Suc k + n]"
proof (induction n arbitrary: k)
  case (Suc n)
  have "rt_zeros_loop p (Suc n) (map (zero_hash (tree_hash p)) [0..<Suc k]) =
        rt_zeros_loop p n (map (zero_hash (tree_hash p)) [0..<Suc (Suc k)])"
    by (simp add: tree_hash_poseidon Let_def)
  also have "\<dots> = map (zero_hash (tree_hash p)) [0..<Suc (Suc k) + n]" by (rule Suc)
  finally show ?case by simp
qed simp

lemma rt_zeros_ZERO: "rt_zeros_loop p d [ZERO] = map (zero_hash (tree_hash p)) [0..<Suc d]"
  using rt_zeros_loop_spec [of p d 0] by simp

lemma getNode_setNode [simp]:
  "L < length (rt_nodes t) \<Longrightarrow>
     getNode (setNode L i v t) L' j = (if L' = L \<and> j = i then v else getNode t L' j)"
  by (cases "L' = L") (auto simp: getNode_def setNode_def split: option.splits)

lemma setNode_fields [simp]:
  "rt_depth (setNode L i v t) = rt_depth t" "rt_zeros (setNode L i v t) = rt_zeros t"
  "rt_leaves (setNode L i v t) = rt_leaves t" "length (rt_nodes (setNode L i v t)) = length (rt_nodes t)"
  by (simp_all add: setNode_def)

lemma getNode_leaves [simp]: "getNode (t\<lparr>rt_leaves := ls\<rparr>) L i = getNode t L i"
  by (simp add: getNode_def split: option.splits)

lemma recomputePath_loop_fields [simp]:
  "rt_depth (recomputePath_loop p n L i t) = rt_depth t" "rt_zeros (recomputePath_loop p n L i t) = rt_zeros t"
  "rt_leaves (recomputePath_loop p n L i t) = rt_leaves t"
  "length (rt_nodes (recomputePath_loop p n L i t)) = length (rt_nodes t)"
  by (induction n arbitrary: L i t) (simp_all add: Let_def)

lemma recomputePath_loop_spec:
  assumes "\<forall>j. \<forall>K \<le> L. getNode t K j = subtree (tree_hash p) (ls @ [c]) K j"
    and "\<forall>j. \<forall>K. L < K \<and> K \<le> L + n \<longrightarrow> getNode t K j = subtree (tree_hash p) ls K j"
    and "L + n < length (rt_nodes t)" and "K \<le> L + n"
  shows "getNode (recomputePath_loop p n L (length ls div 2 ^ L) t) K j = subtree (tree_hash p) (ls @ [c]) K j"
  using assms
proof (induction n arbitrary: L t)
  case 0
  then show ?case by simp
next
  case (Suc n)
  let ?i = "length ls div 2 ^ L" and ?h = "tree_hash p"
  have half: "?i div 2 = length ls div 2 ^ Suc L"
    by (simp add: div_mult2_eq power_Suc2 del: power_Suc)
  define v where "v = subtree ?h (ls @ [c]) (Suc L) (length ls div 2 ^ Suc L)"
  have v: "v = (if odd ?i then ?h (getNode t L (sib ?i)) (getNode t L ?i)
                else ?h (getNode t L ?i) (getNode t L (sib ?i)))"
    unfolding v_def half [symmetric] subtree_parent using Suc.prems(1) by simp
  have par: "poseidonHash2 p (field_of (if ?i mod 2 = 0 then getNode t L ?i else getNode t L (?i - 1)))
      (field_of (if ?i mod 2 = 0 then getNode t L (?i + 1) else getNode t L ?i)) = v"
    by (simp add: v tree_hash_poseidon sib_def even_iff_mod_2_eq_zero [symmetric])
  have step: "recomputePath_loop p (Suc n) L ?i t =
      recomputePath_loop p n (Suc L) (length ls div 2 ^ Suc L) (setNode (Suc L) (length ls div 2 ^ Suc L) v t)"
    unfolding recomputePath_loop.simps(2) Let_def par half by simp
  let ?t = "setNode (Suc L) (length ls div 2 ^ Suc L) v t"
  have SL: "Suc L < length (rt_nodes t)" using Suc.prems(3) by simp
  have "getNode t (Suc L) j = subtree ?h ls (Suc L) j" for j
    using Suc.prems(2) [rule_format, of "Suc L" j] by simp
  then have "\<forall>j. \<forall>K \<le> Suc L. getNode ?t K j = subtree ?h (ls @ [c]) K j"
    using Suc.prems(1) subtree_append_other [of _ ls "Suc L" ?h c] SL
    by (auto simp: v_def le_Suc_eq simp del: subtree.simps)
  moreover have "\<forall>j. \<forall>K. Suc L < K \<and> K \<le> Suc L + n \<longrightarrow> getNode ?t K j = subtree ?h ls K j"
    using Suc.prems(2) SL by simp
  ultimately show ?case using Suc.IH [of "Suc L" ?t] Suc.prems(3,4) by (simp add: step del: recomputePath_loop.simps power_Suc)
qed

text \<open>The appended tree, when there is room.\<close>

definition rt_append_ok :: "(int \<Rightarrow> int \<Rightarrow> int) \<Rightarrow> bytes \<Rightarrow> roots_tree \<Rightarrow> roots_tree" where
  "rt_append_ok p leaf t =
     recomputePath p (length (rt_leaves t))
       (setNode 0 (length (rt_leaves t)) leaf (t\<lparr>rt_leaves := rt_leaves t @ [leaf]\<rparr>))"

lemma rt_append_run:
  "length (rt_leaves t) < 2 ^ rt_depth t \<Longrightarrow> rt_append p c t = Inr (length (rt_leaves t), rt_append_ok p c t)"
  by (simp add: rt_append_def rt_append_ok_def Let_def)

lemma rt_inv_get: "rt_inv p d t \<Longrightarrow> L \<le> d \<Longrightarrow> getNode t L i = subtree (tree_hash p) (rt_leaves t) L i"
  by (simp add: rt_inv_def)

lemma rt_inv_new: "rt_inv p d (new_MerkleTree p d)"
  by (simp add: rt_inv_def new_MerkleTree_def rt_zeros_ZERO getNode_def subtree_empty less_Suc_eq_le
      nth_map_upt nth_replicate del: upt_Suc map_upt_Suc replicate_Suc)

lemma rt_append_ok_inv:
  assumes inv: "rt_inv p d t" and room: "length (rt_leaves t) < 2 ^ d"
  shows "rt_inv p d (rt_append_ok p c t)" "rt_leaves (rt_append_ok p c t) = rt_leaves t @ [c]"
proof -
  let ?ls = "rt_leaves t" and ?h = "tree_hash p"
  let ?s = "setNode 0 (length ?ls) c (t\<lparr>rt_leaves := ?ls @ [c]\<rparr>)" and ?t = "rt_append_ok p c t"
  have d: "rt_depth t = d" "length (rt_nodes t) = Suc d"
    "rt_zeros t = map (zero_hash ?h) [0..<Suc d]" using inv by (simp_all add: rt_inv_def)
  have t: "?t = recomputePath_loop p d 0 (length ?ls div 2 ^ 0) ?s"
    by (simp add: rt_append_ok_def recomputePath_def d)
  have get: "getNode ?t L j = subtree ?h (?ls @ [c]) L j" if "L \<le> d" for L j
    unfolding t
  proof (rule recomputePath_loop_spec)
    show "\<forall>j. \<forall>K \<le> 0. getNode ?s K j = subtree ?h (?ls @ [c]) K j"
      using rt_inv_get [OF inv, of 0] d by (auto simp: nth_append)
    show "\<forall>j K. 0 < K \<and> K \<le> 0 + d \<longrightarrow> getNode ?s K j = subtree ?h ?ls K j"
      using rt_inv_get [OF inv] d by simp
  qed (use that d in simp_all)
  show lv: "rt_leaves ?t = ?ls @ [c]" by (simp add: t)
  have "rt_depth ?t = d" "length (rt_nodes ?t) = Suc d" "rt_zeros ?t = map (zero_hash ?h) [0..<Suc d]"
    using d by (simp_all add: t del: upt_Suc)
  then show "rt_inv p d ?t" unfolding rt_inv_def lv using room get by simp
qed

lemma rt_path_loop_inv:
  assumes "rt_inv p d t" "L + n \<le> d"
  shows "rt_path_loop t n L i =
    (path_sibs (tree_hash p) (rt_leaves t) n L i, map (\<lambda>b. if b then 1 else 0) (path_bits n i))"
  using assms(2)
proof (induction n arbitrary: L i)
  case (Suc n)
  have "getNode t L (if i mod 2 = 1 then i - 1 else i + 1) = subtree (tree_hash p) (rt_leaves t) L (sib i)"
    using rt_inv_get [OF assms(1)] Suc.prems by (simp add: sib_def odd_iff_mod_2_eq_one)
  with Suc show ?case
    by (simp add: Let_def odd_iff_mod_2_eq_one)
qed simp

interpretation rt: merkle_tree "tree_hash p" "poseidonHash2 p" d "rt_inv p d" rt_leaves
  "new_MerkleTree p d" "rt_append_ok p" rt_root "\<lambda>t i. fst (rt_path_loop t d 0 i)"
  for p d
proof unfold_locales
  show "rt_leaves (new_MerkleTree p d) = []" by (simp add: new_MerkleTree_def)
  show "length (rt_leaves t) \<le> 2 ^ d" if "rt_inv p d t" for t
    using that by (simp add: rt_inv_def)
  show "rt_root t = subtree (tree_hash p) (rt_leaves t) d 0" if "rt_inv p d t" for t
    using that by (simp add: rt_root_def rt_inv_def)
  show "field_of (poseidonHash2 p u v) = field_of (poseidonHash2 p u2 v2) \<Longrightarrow>
      poseidonHash2 p u v = poseidonHash2 p u2 v2" for u v u2 v2
    by (rule poseidonHash2_canon)
qed (simp_all add: tree_hash_poseidon rt_inv_new rt_append_ok_inv rt_path_loop_inv)

section \<open>Runs\<close>

definition rt_of :: "(int \<Rightarrow> int \<Rightarrow> int) \<Rightarrow> nat \<Rightarrow> bytes list \<Rightarrow> roots_tree" where
  "rt_of p d cs = fold (rt_append_ok p) cs (new_MerkleTree p d)"

lemma rt_append_all_run:
  assumes "rt_inv p d t" "length (rt_leaves t) + length cs \<le> 2 ^ d"
  shows "rt_append_all p cs t = Inr (fold (rt_append_ok p) cs t)"
  using assms
proof (induction cs arbitrary: t)
  case (Cons c cs)
  have "length (rt_leaves t) < 2 ^ d" "rt_depth t = d" using Cons.prems by (simp_all add: rt_inv_def)
  then show ?case
    using Cons.IH [of "rt_append_ok p c t"] Cons.prems by (simp add: rt_append_run rt_append_ok_inv)
qed simp

lemma rt_of_inv:
  assumes "length cs \<le> 2 ^ d"
  shows "rt_inv p d (rt_of p d cs)" "rt_leaves (rt_of p d cs) = cs"
  using rt.fold_append [where t = "new_MerkleTree p d" and cs = cs and p = p and d = d] assms
  by (simp_all add: rt_of_def rt.wf_empty rt.leaves_empty)

lemma rt_clone_same: "rt_inv p d t \<Longrightarrow> rt_clone p t = t"
  by (cases t) (simp add: rt_inv_def rt_clone_def new_MerkleTree_def rt_zeros_ZERO del: upt_Suc)

lemma rt_append_full: "rt_inv p d t \<Longrightarrow> length (rt_leaves t) = 2 ^ d \<Longrightarrow> rt_append p c t = Inl (JsError ''TREE_FULL'')"
  by (simp add: rt_append_def rt_inv_def)

section \<open>The root client\<close>

definition STALE_ROOT_CODES :: "int list" where
  "STALE_ROOT_CODES = [252]"

definition getCurrentRoot :: "('e, string) result \<Rightarrow> ('e, bytes) result" where
  "getCurrentRoot response = rbind response (\<lambda>root. Inr (fromHex root))"

definition isSynced :: "roots_tree \<Rightarrow> ('e, string) result \<Rightarrow> ('e, bool) result" where
  "isSynced t response = rbind (getCurrentRoot response) (\<lambda>r. Inr (bytesEqual (rt_root t) r))"

text \<open>
  An error thrown by a submission may carry a numeric \<open>code\<close>. The loop ends with the value,
  with the error it rethrows, or with \<open>ROOT_RETRY_EXHAUSTED\<close>.
\<close>

datatype retry_error = Thrown "int option" string | ROOT_RETRY_EXHAUSTED

datatype retry_event = Built bytes | Submitted | Waited nat

fun retry_loop ::
  "(nat \<Rightarrow> (retry_error, string) result) \<Rightarrow> (nat \<Rightarrow> bytes \<Rightarrow> (retry_error, unit) result) \<Rightarrow>
   (nat \<Rightarrow> bytes \<Rightarrow> (int option \<times> string, 'a) result) \<Rightarrow> nat \<Rightarrow> nat \<Rightarrow>
   (retry_error, 'a) result \<times> retry_event list" where
  "retry_loop fetch build submit 0 attempt = (Inl ROOT_RETRY_EXHAUSTED, [])"
| "retry_loop fetch build submit (Suc left) attempt =
     (case getCurrentRoot (fetch attempt) of
        Inl e \<Rightarrow> (Inl e, [])
      | Inr root \<Rightarrow>
          (case build attempt root of
             Inl e \<Rightarrow> (Inl e, [Built root])
           | Inr _ \<Rightarrow>
               (case submit attempt root of
                  Inr a \<Rightarrow> (Inr a, [Built root, Submitted])
                | Inl (code, msg) \<Rightarrow>
                    if (case code of None \<Rightarrow> False | Some c \<Rightarrow> c \<in> set STALE_ROOT_CODES)
                    then (let (r, tr) = retry_loop fetch build submit left (attempt + 1)
                          in (r, [Built root, Submitted, Waited (250 * (attempt + 1))] @ tr))
                    else (Inl (Thrown code msg), [Built root, Submitted]))))"

definition retryRootUpdates ::
  "(nat \<Rightarrow> (retry_error, string) result) \<Rightarrow> (nat \<Rightarrow> bytes \<Rightarrow> (retry_error, unit) result) \<Rightarrow>
   (nat \<Rightarrow> bytes \<Rightarrow> (int option \<times> string, 'a) result) \<Rightarrow> nat \<Rightarrow>
   (retry_error, 'a) result \<times> retry_event list" where
  "retryRootUpdates fetch build submit maxRetries = retry_loop fetch build submit (maxRetries + 1) 0"

definition submissions :: "retry_event list \<Rightarrow> nat" where
  "submissions tr = length (filter (\<lambda>e. e = Submitted) tr)"

lemma retry_loop_bound: "submissions (snd (retry_loop f b s n k)) \<le> n"
proof (induction f b s n k rule: retry_loop.induct)
  case (2 fetch build submit left attempt)
  then show ?case
    by (auto simp: submissions_def case_prod_beta Let_def split: sum.splits option.splits)
qed (simp add: submissions_def)

text \<open>While the chain answers with a stale root, every attempt sees the root fetched for it.\<close>

definition stale :: "(int option \<times> string, 'a) result \<Rightarrow> bool" where
  "stale r \<longleftrightarrow> (\<exists>m. r = Inl (Some 252, m))"

lemma retry_loop_skip:
  assumes "n \<le> m" "\<forall>j < n. \<exists>x. fetch (k + j) = Inr x \<and> build (k + j) (fromHex x) = Inr ()
      \<and> stale (submit (k + j) (fromHex x))"
  shows "fst (retry_loop fetch build submit m k) = fst (retry_loop fetch build submit (m - n) (k + n))"
  using assms
proof (induction n arbitrary: k m)
  case (Suc n)
  then obtain m' where m: "m = Suc m'" by (cases m) auto
  from Suc.prems(2) [rule_format, of 0] obtain x msg where x: "fetch k = Inr x" "build k (fromHex x) = Inr ()"
    "submit k (fromHex x) = Inl (Some 252, msg)" by (auto simp: stale_def)
  have "\<forall>j < n. \<exists>x. fetch (Suc k + j) = Inr x \<and> build (Suc k + j) (fromHex x) = Inr ()
      \<and> stale (submit (Suc k + j) (fromHex x))"
    using Suc.prems(2) by (metis Suc_less_eq add_Suc_shift)
  with Suc.IH [of m' "Suc k"] Suc.prems(1) m
  have "fst (retry_loop fetch build submit m' (Suc k)) = fst (retry_loop fetch build submit (m' - n) (Suc k + n))"
    by simp
  with x m show ?case by (simp add: getCurrentRoot_def STALE_ROOT_CODES_def case_prod_beta)
qed simp

section \<open>Properties\<close>

text \<open>C12: The two Merkle trees of the SDK, \<open>CommitmentTree\<close> and \<open>MerkleTree\<close>, agree: on
  the same commitments both appends succeed and both trees have the same root, which is the
  root \<open>projectRoot\<close> predicts without touching the tree; a full \<open>MerkleTree\<close> throws
  \<open>TREE_FULL\<close>.\<close>

theorem trees_agree_on_root:
  assumes "length cs + length ds \<le> 2 ^ d" "d \<le> TREE_DEPTH"
  shows "\<exists>t u. tree_insertMany p (cs @ ds) (new_CommitmentTree p d) = Inr ([0..<length (cs @ ds)], t)
    \<and> rt_append_all p cs (new_MerkleTree p d) = Inr u
    \<and> projectRoot p ds u = Inr (tree_root t)
    \<and> rt_append_all p (cs @ ds) (new_MerkleTree p d) = Inr (rt_of p d (cs @ ds))
    \<and> rt_root (rt_of p d (cs @ ds)) = tree_root t
    \<and> (length (cs @ ds) = 2 ^ d \<longrightarrow> rt_append p c (rt_of p d (cs @ ds)) = Inl (JsError ''TREE_FULL''))"
proof (intro exI conjI)
  have all: "length (cs @ ds) \<le> 2 ^ d" using assms(1) by simp
  have "length cs \<le> 2 ^ d" using assms(1) by simp
  note u = rt_of_inv [OF this, where p = p] and full = rt_of_inv [OF all, where p = p]
  note t = tree_of_inv [OF all, where p = p]
  have new: "rt_leaves (new_MerkleTree p d) = []" by (rule rt.leaves_empty)
  show "tree_insertMany p (cs @ ds) (new_CommitmentTree p d) = Inr ([0..<length (cs @ ds)], tree_of p d (cs @ ds))"
    by (rule tree_of_insertMany [OF all assms(2)])
  show "rt_append_all p cs (new_MerkleTree p d) = Inr (rt_of p d cs)"
    using rt_append_all_run [OF rt_inv_new] assms(1) by (simp add: rt_of_def new)
  show "rt_append_all p (cs @ ds) (new_MerkleTree p d) = Inr (rt_of p d (cs @ ds))"
    using rt_append_all_run [OF rt_inv_new, where cs = "cs @ ds"] all by (simp add: rt_of_def new)
  show root: "rt_root (rt_of p d (cs @ ds)) = tree_root (tree_of p d (cs @ ds))"
    using rt.root_spec [OF full(1)] ct.root_spec [OF t(1)] full(2) t(2) by simp
  have "rt_append_all p ds (rt_of p d cs) = Inr (rt_of p d (cs @ ds))"
    using rt_append_all_run [OF u(1), where cs = ds] u(2) assms(1) by (simp add: rt_of_def)
  then show "projectRoot p ds (rt_of p d cs) = Inr (tree_root (tree_of p d (cs @ ds)))"
    using rt_clone_same [OF u(1)] root by (simp add: projectRoot_def)
  show "length (cs @ ds) = 2 ^ d \<longrightarrow> rt_append p c (rt_of p d (cs @ ds)) = Inl (JsError ''TREE_FULL'')"
    using rt_append_full [OF full(1)] full(2) by simp
qed

theorem trees_agree_on_root_witness:
  "\<exists>u. rt_append_all (\<lambda>a b. a + 2 * b) [[1]] (new_MerkleTree (\<lambda>a b. a + 2 * b) 1) = Inr u
     \<and> rt_append (\<lambda>a b. a + 2 * b) [3] (rt_of (\<lambda>a b. a + 2 * b) 1 [[1], [2]]) = Inl (JsError ''TREE_FULL'')"
  using trees_agree_on_root [of "[[1]]" "[[2]]" 1 "\<lambda>a b. a + 2 * b" "[3]"] by (auto simp: TREE_DEPTH_def)

text \<open>\<open>retryRootUpdates\<close> never submits more than \<open>maxRetries + 1\<close> times. If the first
  \<open>n <= maxRetries\<close> submissions are refused with the stale-root code 252 and the next is
  accepted, the call returns its value; if it fails with any other code, that error is
  rethrown at once; and if all \<open>maxRetries + 1\<close> are stale, it throws
  \<open>ROOT_RETRY_EXHAUSTED\<close>.\<close>

theorem retryRootUpdates_recovers:
  assumes "\<forall>j < n. \<exists>x. fetch j = Inr x \<and> build j (fromHex x) = Inr () \<and> stale (submit j (fromHex x))"
    and "n \<le> maxRetries \<Longrightarrow> fetch n = Inr y \<and> build n (fromHex y) = Inr ()"
    and "n \<le> maxRetries + 1"
  shows "submissions (snd (retryRootUpdates fetch build submit maxRetries)) \<le> maxRetries + 1
    \<and> (n = maxRetries + 1 \<longrightarrow> fst (retryRootUpdates fetch build submit maxRetries) = Inl ROOT_RETRY_EXHAUSTED)
    \<and> (n \<le> maxRetries \<longrightarrow> (case submit n (fromHex y) of
          Inr a \<Rightarrow> fst (retryRootUpdates fetch build submit maxRetries) = Inr a
        | Inl (code, msg) \<Rightarrow> code \<noteq> Some 252 \<longrightarrow>
            fst (retryRootUpdates fetch build submit maxRetries) = Inl (Thrown code msg)))"
proof -
  have skip: "fst (retryRootUpdates fetch build submit maxRetries) =
      fst (retry_loop fetch build submit (maxRetries + 1 - n) n)"
    using retry_loop_skip [of n "maxRetries + 1" fetch 0 build submit] assms(1,3)
    by (simp add: retryRootUpdates_def)
  show ?thesis
  proof (intro conjI impI)
    assume n: "n \<le> maxRetries"
    then obtain m where "maxRetries + 1 - n = Suc m" by (metis Suc_diff_le Suc_eq_plus1)
    then show "case submit n (fromHex y) of
          Inr a \<Rightarrow> fst (retryRootUpdates fetch build submit maxRetries) = Inr a
        | Inl (code, msg) \<Rightarrow> code \<noteq> Some 252 \<longrightarrow>
            fst (retryRootUpdates fetch build submit maxRetries) = Inl (Thrown code msg)"
      using skip assms(2) [OF n]
      by (auto simp: getCurrentRoot_def STALE_ROOT_CODES_def split: sum.splits option.splits)
  qed (use skip in \<open>simp_all add: retryRootUpdates_def retry_loop_bound del: retry_loop.simps(2)\<close>)
qed

theorem retryRootUpdates_recovers_witness:
  "fst (retryRootUpdates (\<lambda>_. Inr ''0x01'') (\<lambda>_ _. Inr ())
     (\<lambda>k _. if k = 0 then Inl (Some 252, ''stale'') else Inr (5 :: int)) 2) = Inr 5"
  using retryRootUpdates_recovers [of 1 "\<lambda>_. Inr ''0x01''" "\<lambda>_ _. Inr ()"
      "\<lambda>k _. if k = 0 then Inl (Some 252, ''stale'') else Inr (5 :: int)" 2 "''0x01''"]
  by (simp add: stale_def)

end
