(* ===== verification/Json.thy ===== *)
theory Json
  imports Prelude Complex_Main
begin

text \<open>
  JSON values as \<open>JSON.parse\<close> returns them, and the checks of schema validation the source
  declares on them: a string that matches a regular expression, a number that is an integer,
  an array of bounded length, an object field that may be absent. A field that is absent reads
  as \<open>None\<close>. A number is a rational; every number the source serialises is an integer.

  A failed check carries the path it failed at. A schema reports the first failing field in
  the order the schema declares them.
\<close>

datatype json =
    JNull
  | JBool bool
  | JNum rat
  | JStr string
  | JArr "json list"
  | JObj "(string \<times> json) list"

type_synonym issue = "string list"

type_synonym 'a schema = "json option \<Rightarrow> (issue, 'a) result"

fun json_field :: "json \<Rightarrow> string \<Rightarrow> json option" where
  "json_field (JObj fs) k = map_of fs k"
| "json_field _ k = None"

fun is_object :: "json \<Rightarrow> bool" where
  "is_object (JObj _) = True"
| "is_object _ = False"

definition MAX_SAFE_INTEGER :: int where
  "MAX_SAFE_INTEGER = 2 ^ 53 - 1"

definition at_path :: "string \<Rightarrow> (issue, 'a) result \<Rightarrow> (issue, 'a) result" where
  "at_path k r = (case r of Inl p \<Rightarrow> Inl (k # p) | Inr a \<Rightarrow> Inr a)"

text \<open>\<open>z.string().regex(...)\<close>, \<open>z.string().min(a).max(b)\<close>.\<close>

definition z_string :: "(string \<Rightarrow> bool) \<Rightarrow> string schema" where
  "z_string ok v = (case v of Some (JStr s) \<Rightarrow> if ok s then Inr s else Inl [] | _ \<Rightarrow> Inl [])"

text \<open>\<open>z.number().int()\<close> with a range: an integer in the safe range.\<close>

definition z_int :: "(int \<Rightarrow> bool) \<Rightarrow> int schema" where
  "z_int ok v =
     (case v of
        Some (JNum r) \<Rightarrow>
          (let i = \<lfloor>r\<rfloor> in
           if of_int i = r \<and> \<bar>i\<bar> \<le> MAX_SAFE_INTEGER \<and> ok i then Inr i else Inl [])
      | _ \<Rightarrow> Inl [])"

definition nonnegative :: "int \<Rightarrow> bool" where
  "nonnegative i \<longleftrightarrow> 0 \<le> i"

text \<open>\<open>z.array(s).min(lo).max(hi)\<close>; an element's failure is reported at its index.\<close>

fun z_elems :: "'a schema \<Rightarrow> nat \<Rightarrow> json list \<Rightarrow> (issue, 'a list) result" where
  "z_elems s i [] = Inr []"
| "z_elems s i (v # vs) =
     rbind (at_path (dec_of_nat i) (s (Some v))) (\<lambda>a. rbind (z_elems s (i + 1) vs) (\<lambda>rest. Inr (a # rest)))"

definition z_array :: "'a schema \<Rightarrow> nat \<Rightarrow> nat \<Rightarrow> 'a list schema" where
  "z_array s lo hi v =
     (case v of
        Some (JArr vs) \<Rightarrow>
          rbind (z_elems s 0 vs) (\<lambda>xs. if lo \<le> length xs \<and> length xs \<le> hi then Inr xs else Inl [])
      | _ \<Rightarrow> Inl [])"

definition z_optional :: "'a schema \<Rightarrow> 'a option schema" where
  "z_optional s v = (case v of None \<Rightarrow> Inr None | Some j \<Rightarrow> rbind (s (Some j)) (\<lambda>a. Inr (Some a)))"

text \<open>A field of an object schema.\<close>

definition z_field :: "json \<Rightarrow> string \<Rightarrow> 'a schema \<Rightarrow> (issue, 'a) result" where
  "z_field o1 k s = at_path k (s (json_field o1 k))"

definition z_object :: "(json \<Rightarrow> (issue, 'a) result) \<Rightarrow> 'a schema" where
  "z_object fields_of v = (case v of Some (JObj fs) \<Rightarrow> fields_of (JObj fs) | _ \<Rightarrow> Inl [])"

section \<open>What a successful check says\<close>

named_theorems schema_simps \<open>what a schema accepts\<close>

lemma at_path_Inr [schema_simps]: "at_path k r = Inr a \<longleftrightarrow> r = Inr a"
  by (auto simp: at_path_def split: sum.splits)

lemma z_string_Inr [schema_simps]: "z_string ok v = Inr s \<longleftrightarrow> v = Some (JStr s) \<and> ok s"
  by (auto simp: z_string_def split: option.splits json.splits)

lemma z_int_Inr [schema_simps]:
  "z_int ok v = Inr i \<longleftrightarrow> v = Some (JNum (of_int i)) \<and> \<bar>i\<bar> \<le> MAX_SAFE_INTEGER \<and> ok i"
  by (auto simp: z_int_def Let_def split: option.splits json.splits)

lemma z_optional_Inr [schema_simps]:
  "z_optional s v = Inr a \<longleftrightarrow> (v = None \<and> a = None) \<or> (\<exists>j b. v = Some j \<and> s (Some j) = Inr b \<and> a = Some b)"
  by (auto simp: z_optional_def split: option.splits)

lemma z_elems_Inr: "z_elems s i vs = Inr xs \<longleftrightarrow> list_all2 (\<lambda>v x. s (Some v) = Inr x) vs xs"
  by (induction vs arbitrary: i xs) (auto simp: list_all2_Cons1 at_path_Inr)

lemma z_array_Inr [schema_simps]:
  "z_array s lo hi v = Inr xs \<longleftrightarrow>
     (\<exists>vs. v = Some (JArr vs) \<and> list_all2 (\<lambda>v x. s (Some v) = Inr x) vs xs \<and> lo \<le> length xs \<and> length xs \<le> hi)"
  by (auto simp: z_array_def z_elems_Inr split: option.splits json.splits if_splits)

lemma z_field_Inr [schema_simps]: "z_field o1 k s = Inr a \<longleftrightarrow> s (json_field o1 k) = Inr a"
  by (simp add: z_field_def at_path_Inr)

lemma z_object_Inr [schema_simps]:
  "z_object f v = Inr a \<longleftrightarrow> (\<exists>fs. v = Some (JObj fs) \<and> f (JObj fs) = Inr a)"
  by (auto simp: z_object_def split: option.splits json.splits)

end
