(* ===== verification/RelayTypes.thy ===== *)
theory RelayTypes
  imports Json Bytes
begin

text \<open>
  The relayer's requests, \<open>services/relayer/types/index.ts\<close>: the schemas every request body is
  parsed with, the typed request they give, and the job and error types. A request is the
  record of its operation; the fields all operations share (\<open>base\<close>) are the record each
  extends. Unknown keys of a body are dropped, a failing field is reported by its path.
\<close>

section \<open>Errors and jobs\<close>

datatype relay_error =
    RelayError (re_code: string) (re_message: string) (re_status: nat)
  | OtherError (oe_message: string)

datatype operation = Transfer | Withdraw | Split | Merge

definition OPERATIONS :: "operation list" where
  "OPERATIONS = [Transfer, Withdraw, Split, Merge]"

fun operation_name :: "operation \<Rightarrow> string" where
  "operation_name Transfer = ''transfer''"
| "operation_name Withdraw = ''withdraw''"
| "operation_name Split = ''split''"
| "operation_name Merge = ''merge''"

datatype job_state = Queued | Validating | Submitting | Confirmed | Failed

section \<open>Regular expressions of the schemas\<close>

text \<open>\<open>/^0x[0-9a-fA-F]{n}$/\<close>\<close>

definition hex_of_length :: "nat \<Rightarrow> string \<Rightarrow> bool" where
  "hex_of_length n s \<longleftrightarrow> js_startsWith s ''0x'' \<and> length s = n + 2 \<and> list_all is_hex (drop 2 s)"

text \<open>\<open>Bytes32\<close>: \<open>/^0x[0-9a-fA-F]{64}$/\<close>\<close>

definition isBytes32 :: "string \<Rightarrow> bool" where
  "isBytes32 s \<longleftrightarrow> hex_of_length 64 s"

definition is_upper :: "char \<Rightarrow> bool" where
  "is_upper c \<longleftrightarrow> 65 \<le> (of_char c :: nat) \<and> (of_char c :: nat) \<le> 90"

definition is_lower :: "char \<Rightarrow> bool" where
  "is_lower c \<longleftrightarrow> 97 \<le> (of_char c :: nat) \<and> (of_char c :: nat) \<le> 122"

definition c32_char :: "char \<Rightarrow> bool" where
  "c32_char c \<longleftrightarrow> is_dec c \<or> is_upper c"

definition is_alpha :: "char \<Rightarrow> bool" where
  "is_alpha c \<longleftrightarrow> is_upper c \<or> is_lower c"

definition name_char :: "char \<Rightarrow> bool" where
  "name_char c \<longleftrightarrow> is_alpha c \<or> is_dec c \<or> c = CHR ''-''"

text \<open>\<open>[a-zA-Z][a-zA-Z0-9-]*\<close>\<close>

definition contract_name :: "string \<Rightarrow> bool" where
  "contract_name s = (case s of [] \<Rightarrow> False | c # cs \<Rightarrow> is_alpha c \<and> list_all name_char cs)"

text \<open>
  \<open>/^S[0-9A-Z]{38,40}(\.[a-zA-Z][a-zA-Z0-9-]*)?$/\<close>. The greedy run of characters ends where
  the dot or the text does, as the class does not contain the dot.
\<close>

definition isPrincipal :: "string \<Rightarrow> bool" where
  "isPrincipal s =
     (case s of
        [] \<Rightarrow> False
      | c # cs \<Rightarrow>
          c = CHR ''S''
          \<and> (let addr = takeWhile c32_char cs; rest = dropWhile c32_char cs
             in 38 \<le> length addr \<and> length addr \<le> 40
                \<and> (rest = [] \<or> (hd rest = CHR ''.'' \<and> contract_name (tl rest)))))"

definition isDecimal :: "string \<Rightarrow> bool" where
  "isDecimal s \<longleftrightarrow> s \<noteq> [] \<and> list_all is_dec s"

section \<open>Requests\<close>

record inclusion =
  inc_domainId :: int
  inc_aggregationId :: int
  inc_merklePath :: "string list"
  inc_leafIndex :: int

record authorization =
  au_signature :: string
  au_publicKey :: string

record relay_base =
  rb_inclusion :: inclusion
  rb_authorization :: "authorization option"
  rb_encryptedPayload :: "string option"
  rb_token :: "string option"

record transfer_request = relay_base +
  tr_nullifier :: string
  tr_newCommitment :: string
  tr_newOwnerCommitment :: string
  tr_newMetadata :: string
  tr_currentRoot :: string
  tr_newRoot :: string
  tr_leafIndex :: "int option"

record withdraw_request = relay_base +
  wd_nullifier :: string
  wd_amount :: string
  wd_recipient :: string
  wd_root :: string

record split_request = relay_base +
  sp_nullifier :: string
  sp_commitment1 :: string
  sp_ownerCommitment1 :: string
  sp_metadata1 :: string
  sp_commitment2 :: string
  sp_ownerCommitment2 :: string
  sp_metadata2 :: string
  sp_currentRoot :: string
  sp_newRoot :: string
  sp_leafIndex :: "int option"

record merge_request = relay_base +
  mg_nullifier1 :: string
  mg_nullifier2 :: string
  mg_commitment :: string
  mg_ownerCommitment :: string
  mg_metadata :: string
  mg_currentRoot :: string
  mg_newRoot :: string
  mg_leafIndex :: "int option"

datatype relay_request =
    TransferReq transfer_request
  | WithdrawReq withdraw_request
  | SplitReq split_request
  | MergeReq merge_request

fun op_of :: "relay_request \<Rightarrow> operation" where
  "op_of (TransferReq _) = Transfer"
| "op_of (WithdrawReq _) = Withdraw"
| "op_of (SplitReq _) = Split"
| "op_of (MergeReq _) = Merge"

fun base_of :: "relay_request \<Rightarrow> relay_base" where
  "base_of (TransferReq r) = relay_base.truncate r"
| "base_of (WithdrawReq r) = relay_base.truncate r"
| "base_of (SplitReq r) = relay_base.truncate r"
| "base_of (MergeReq r) = relay_base.truncate r"

text \<open>\<open>Boolean(r.token)\<close>: an empty token is as good as none.\<close>

definition isSip10 :: "relay_request \<Rightarrow> bool" where
  "isSip10 r = (case rb_token (base_of r) of None \<Rightarrow> False | Some t \<Rightarrow> t \<noteq> [])"

section \<open>Schemas\<close>

definition Bytes32 :: "string schema" where
  "Bytes32 = z_string isBytes32"

definition Principal :: "string schema" where
  "Principal = z_string isPrincipal"

definition InclusionSchema :: "inclusion schema" where
  "InclusionSchema = z_object (\<lambda>v.
     rbind (z_field v ''domainId'' (z_int nonnegative)) (\<lambda>d.
     rbind (z_field v ''aggregationId'' (z_int nonnegative)) (\<lambda>a.
     rbind (z_field v ''merklePath'' (z_array Bytes32 0 32)) (\<lambda>mp.
     rbind (z_field v ''leafIndex'' (z_int nonnegative)) (\<lambda>l.
       Inr \<lparr>inc_domainId = d, inc_aggregationId = a, inc_merklePath = mp, inc_leafIndex = l\<rparr>)))))"

definition AuthorizationSchema :: "authorization option schema" where
  "AuthorizationSchema = z_optional (z_object (\<lambda>v.
     rbind (z_field v ''signature'' (z_string (hex_of_length 130))) (\<lambda>s.
     rbind (z_field v ''publicKey'' (z_string (hex_of_length 66))) (\<lambda>k.
       Inr \<lparr>au_signature = s, au_publicKey = k\<rparr>))))"

definition base_schema :: "json \<Rightarrow> (issue, relay_base) result" where
  "base_schema v =
     rbind (z_field v ''inclusion'' InclusionSchema) (\<lambda>i.
     rbind (z_field v ''authorization'' AuthorizationSchema) (\<lambda>a.
     rbind (z_field v ''encryptedPayload'' (z_optional (z_string (\<lambda>_. True)))) (\<lambda>e.
     rbind (z_field v ''token'' (z_optional Principal)) (\<lambda>t.
       Inr \<lparr>rb_inclusion = i, rb_authorization = a, rb_encryptedPayload = e, rb_token = t\<rparr>))))"

definition leafIndex_schema :: "int option schema" where
  "leafIndex_schema = z_optional (z_int nonnegative)"

definition TransferRequestSchema :: "transfer_request schema" where
  "TransferRequestSchema = z_object (\<lambda>v.
     rbind (base_schema v) (\<lambda>b.
     rbind (z_field v ''nullifier'' Bytes32) (\<lambda>n.
     rbind (z_field v ''newCommitment'' Bytes32) (\<lambda>c.
     rbind (z_field v ''newOwnerCommitment'' Bytes32) (\<lambda>oc.
     rbind (z_field v ''newMetadata'' Bytes32) (\<lambda>m.
     rbind (z_field v ''currentRoot'' Bytes32) (\<lambda>cr.
     rbind (z_field v ''newRoot'' Bytes32) (\<lambda>nr.
     rbind (z_field v ''leafIndex'' leafIndex_schema) (\<lambda>l.
       Inr (relay_base.extend b (transfer_request.fields n c oc m cr nr l)))))))))))"

definition WithdrawRequestSchema :: "withdraw_request schema" where
  "WithdrawRequestSchema = z_object (\<lambda>v.
     rbind (base_schema v) (\<lambda>b.
     rbind (z_field v ''nullifier'' Bytes32) (\<lambda>n.
     rbind (z_field v ''amount'' (z_string isDecimal)) (\<lambda>a.
     rbind (z_field v ''recipient'' Principal) (\<lambda>r.
     rbind (z_field v ''root'' Bytes32) (\<lambda>ro.
       Inr (relay_base.extend b (withdraw_request.fields n a r ro))))))))"

definition SplitRequestSchema :: "split_request schema" where
  "SplitRequestSchema = z_object (\<lambda>v.
     rbind (base_schema v) (\<lambda>b.
     rbind (z_field v ''nullifier'' Bytes32) (\<lambda>n.
     rbind (z_field v ''commitment1'' Bytes32) (\<lambda>c1.
     rbind (z_field v ''ownerCommitment1'' Bytes32) (\<lambda>o1.
     rbind (z_field v ''metadata1'' Bytes32) (\<lambda>m1.
     rbind (z_field v ''commitment2'' Bytes32) (\<lambda>c2.
     rbind (z_field v ''ownerCommitment2'' Bytes32) (\<lambda>o2.
     rbind (z_field v ''metadata2'' Bytes32) (\<lambda>m2.
     rbind (z_field v ''currentRoot'' Bytes32) (\<lambda>cr.
     rbind (z_field v ''newRoot'' Bytes32) (\<lambda>nr.
     rbind (z_field v ''leafIndex'' leafIndex_schema) (\<lambda>l.
       Inr (relay_base.extend b (split_request.fields n c1 o1 m1 c2 o2 m2 cr nr l))))))))))))))"

definition MergeRequestSchema :: "merge_request schema" where
  "MergeRequestSchema = z_object (\<lambda>v.
     rbind (base_schema v) (\<lambda>b.
     rbind (z_field v ''nullifier1'' Bytes32) (\<lambda>n1.
     rbind (z_field v ''nullifier2'' Bytes32) (\<lambda>n2.
     rbind (z_field v ''commitment'' Bytes32) (\<lambda>c.
     rbind (z_field v ''ownerCommitment'' Bytes32) (\<lambda>oc.
     rbind (z_field v ''metadata'' Bytes32) (\<lambda>m.
     rbind (z_field v ''currentRoot'' Bytes32) (\<lambda>cr.
     rbind (z_field v ''newRoot'' Bytes32) (\<lambda>nr.
     rbind (z_field v ''leafIndex'' leafIndex_schema) (\<lambda>l.
       Inr (relay_base.extend b (merge_request.fields n1 n2 c oc m cr nr l))))))))))))"

fun safeParse :: "operation \<Rightarrow> json option \<Rightarrow> (issue, relay_request) result" where
  "safeParse Transfer body = rbind (TransferRequestSchema body) (\<lambda>r. Inr (TransferReq r))"
| "safeParse Withdraw body = rbind (WithdrawRequestSchema body) (\<lambda>r. Inr (WithdrawReq r))"
| "safeParse Split body = rbind (SplitRequestSchema body) (\<lambda>r. Inr (SplitReq r))"
| "safeParse Merge body = rbind (MergeRequestSchema body) (\<lambda>r. Inr (MergeReq r))"

text \<open>\<open>SCHEMAS[operation]\<close>\<close>

definition SCHEMAS :: "string \<Rightarrow> operation option" where
  "SCHEMAS name = find (\<lambda>op. operation_name op = name) OPERATIONS"

section \<open>Well-formed requests\<close>

definition inclusion_ok :: "inclusion \<Rightarrow> bool" where
  "inclusion_ok i \<longleftrightarrow> 0 \<le> inc_domainId i \<and> 0 \<le> inc_aggregationId i \<and> 0 \<le> inc_leafIndex i
     \<and> inc_domainId i \<le> MAX_SAFE_INTEGER \<and> inc_aggregationId i \<le> MAX_SAFE_INTEGER
     \<and> inc_leafIndex i \<le> MAX_SAFE_INTEGER
     \<and> length (inc_merklePath i) \<le> 32 \<and> list_all isBytes32 (inc_merklePath i)"

definition leaf_ok :: "int option \<Rightarrow> bool" where
  "leaf_ok l = (case l of None \<Rightarrow> True | Some i \<Rightarrow> 0 \<le> i \<and> i \<le> MAX_SAFE_INTEGER)"

text \<open>The 32-byte fields of an operation, in the order of its contract call.\<close>

fun words32 :: "relay_request \<Rightarrow> string list" where
  "words32 (TransferReq r) =
     [tr_nullifier r, tr_newCommitment r, tr_newOwnerCommitment r, tr_newMetadata r, tr_currentRoot r, tr_newRoot r]"
| "words32 (WithdrawReq r) = [wd_nullifier r, wd_root r]"
| "words32 (SplitReq r) =
     [sp_nullifier r, sp_commitment1 r, sp_ownerCommitment1 r, sp_metadata1 r, sp_commitment2 r,
      sp_ownerCommitment2 r, sp_metadata2 r, sp_currentRoot r, sp_newRoot r]"
| "words32 (MergeReq r) =
     [mg_nullifier1 r, mg_nullifier2 r, mg_commitment r, mg_ownerCommitment r, mg_metadata r,
      mg_currentRoot r, mg_newRoot r]"

fun leaf_of :: "relay_request \<Rightarrow> int option" where
  "leaf_of (TransferReq r) = tr_leafIndex r"
| "leaf_of (WithdrawReq r) = None"
| "leaf_of (SplitReq r) = sp_leafIndex r"
| "leaf_of (MergeReq r) = mg_leafIndex r"

fun withdraw_ok :: "relay_request \<Rightarrow> bool" where
  "withdraw_ok (WithdrawReq r) \<longleftrightarrow> isDecimal (wd_amount r) \<and> isPrincipal (wd_recipient r)"
| "withdraw_ok _ \<longleftrightarrow> True"

definition request_ok :: "relay_request \<Rightarrow> bool" where
  "request_ok r \<longleftrightarrow> inclusion_ok (rb_inclusion (base_of r)) \<and> list_all isBytes32 (words32 r)
     \<and> leaf_ok (leaf_of r) \<and> withdraw_ok r
     \<and> (case rb_token (base_of r) of None \<Rightarrow> True | Some t \<Rightarrow> isPrincipal t)"

lemma Bytes32_Inr [schema_simps]: "Bytes32 v = Inr s \<longleftrightarrow> v = Some (JStr s) \<and> isBytes32 s"
  by (simp add: Bytes32_def schema_simps)

lemma Principal_Inr [schema_simps]: "Principal v = Inr s \<longleftrightarrow> v = Some (JStr s) \<and> isPrincipal s"
  by (simp add: Principal_def schema_simps)

lemma Inclusion_ok: "InclusionSchema v = Inr i \<Longrightarrow> inclusion_ok i"
  by (auto simp: InclusionSchema_def schema_simps inclusion_ok_def nonnegative_def list_all_length list_all2_conv_all_nth)

lemma leafIndex_ok: "leafIndex_schema v = Inr l \<Longrightarrow> leaf_ok l"
  by (auto simp: leafIndex_schema_def schema_simps leaf_ok_def nonnegative_def)

lemma base_ok:
  "base_schema v = Inr b \<Longrightarrow> inclusion_ok (rb_inclusion b)
     \<and> (case rb_token b of None \<Rightarrow> True | Some t \<Rightarrow> isPrincipal t)"
  by (auto simp: base_schema_def z_field_Inr z_optional_Inr Principal_Inr dest: Inclusion_ok)

lemma extend_truncate [simp]: "relay_base.truncate (relay_base.extend b m) = b"
  by (simp add: relay_base.defs)

lemma leaf_ok_None [simp]: "leaf_ok None"
  by (simp add: leaf_ok_def)

text \<open>Everything a schema lets through is well formed.\<close>

lemma safeParse_ok: "safeParse op body = Inr r \<Longrightarrow> request_ok r \<and> op_of r = op"
  by (cases op)
    (auto simp: TransferRequestSchema_def WithdrawRequestSchema_def SplitRequestSchema_def MergeRequestSchema_def
      z_field_Inr z_object_Inr Bytes32_Inr Principal_Inr z_string_Inr request_ok_def
      relay_base.defs transfer_request.defs withdraw_request.defs split_request.defs merge_request.defs
      dest: base_ok leafIndex_ok)

lemma SCHEMAS_Some: "SCHEMAS name = Some op \<longleftrightarrow> name = operation_name op"
  by (cases op) (auto simp: SCHEMAS_def OPERATIONS_def)

end
