(* ===== verification/Clarity.thy ===== *)
theory Clarity
  imports Bytes
begin

text \<open>
  Clarity values as the source builds them: one constructor per constructor function of the
  package \<open>@stacks/transactions\<close> the source calls (\<open>uintCV\<close> or \<open>Cl.uint\<close>, \<open>bufferCV\<close>,
  \<open>listCV\<close>, \<open>principalCV\<close>, \<open>contractPrincipalCV\<close>, \<open>tuple\<close>, \<open>stringAscii\<close>). A value is the record of the
  call; how the package serialises it, and which calls it refuses, belong to the package, so
  its serialiser is a parameter of type \<open>clarity_value \<Rightarrow> (js_error, bytes) result\<close>.
\<close>

datatype clarity_value =
    CvUInt int
  | CvBuffer bytes
  | CvList "clarity_value list"
  | CvPrincipal string
  | CvContractPrincipal string string
  | CvTuple "(string \<times> clarity_value) list"
  | CvBool bool
  | CvStringAscii string

text \<open>The five operations, \<open>ProofType\<close> of \<open>sdk/types.ts\<close> and \<open>OP\<close> of \<open>sdk/public-inputs\<close>.\<close>

datatype proof_type = PShield | PTransfer | PWithdrawal | PSplit | PMerge

fun proof_type_id :: "proof_type \<Rightarrow> int" where
  "proof_type_id PShield = 1"
| "proof_type_id PTransfer = 2"
| "proof_type_id PWithdrawal = 3"
| "proof_type_id PSplit = 4"
| "proof_type_id PMerge = 5"

lemma proof_type_id_inj [simp]: "proof_type_id a = proof_type_id b \<longleftrightarrow> a = b"
  by (cases a; cases b) simp_all

lemma proof_type_id_range: "0 \<le> proof_type_id a" "proof_type_id a < 256"
  by (cases a; simp)+

end
