(* ===== verification/TxManager.thy ===== *)
theory TxManager
  imports RelayTypes Clarity
begin

text \<open>
  The transaction manager of the relayer, \<open>services/relayer/transaction-manager\<close>: the mapping
  of a request onto its contract call, the nonce sequence, the store of signed transactions
  and the wait for a confirmation.

  The constructors of the package refuse some values (a number beyond 128 bits, an address
  with a bad checksum); \<open>mk\<close> stands for them, either throwing or returning the value. What the
  network answers is an argument of the operation that asks: one \<open>submit_env\<close> per
  submission, a clock and the replies to the polls for the wait. \<open>enqueue\<close> chains every
  submission behind the previous one, so a run of submissions is a fold over them
  (\<open>submit_all\<close>).
\<close>

section \<open>The contract call\<close>

record contract_call =
  cc_contract :: string
  cc_fn :: string
  cc_args :: "clarity_value list"

type_synonym cv_result = "(relay_error, clarity_value) result"

definition buf :: "(clarity_value \<Rightarrow> cv_result) \<Rightarrow> string \<Rightarrow> cv_result" where
  "buf mk hex = mk (CvBuffer (node_hex (strip0x hex)))"

definition tokenArg :: "(clarity_value \<Rightarrow> cv_result) \<Rightarrow> string \<Rightarrow> cv_result" where
  "tokenArg mk prin =
     (let parts = js_split (CHR ''.'') prin;
          addr = parts ! 0;
          name = (if 1 < length parts then parts ! 1 else [])
      in if addr = [] \<or> name = []
         then Inl (RelayError ''invalid_token'' (''token must be a contract principal: '' @ prin) 400)
         else mk (CvContractPrincipal addr name))"

definition inclusionArgs :: "(clarity_value \<Rightarrow> cv_result) \<Rightarrow> relay_base \<Rightarrow> cv_result list" where
  "inclusionArgs mk r =
     [mk (CvUInt (inc_domainId (rb_inclusion r))),
      mk (CvUInt (inc_aggregationId (rb_inclusion r))),
      rbind (rmap (buf mk) (inc_merklePath (rb_inclusion r))) (\<lambda>bs. mk (CvList bs)),
      mk (CvUInt (inc_leafIndex (rb_inclusion r)))]"

definition leafIndexArg :: "(clarity_value \<Rightarrow> cv_result) \<Rightarrow> int option \<Rightarrow> cv_result" where
  "leafIndexArg mk leafIndex =
     (case leafIndex of
        None \<Rightarrow> Inl (RelayError ''missing_leaf_index'' ''leaf-adding operations require leafIndex'' 400)
      | Some i \<Rightarrow> mk (CvUInt i))"

fun operation_args :: "(clarity_value \<Rightarrow> cv_result) \<Rightarrow> relay_request \<Rightarrow> cv_result list" where
  "operation_args mk (TransferReq t) =
     [buf mk (tr_nullifier t), buf mk (tr_newCommitment t), buf mk (tr_newOwnerCommitment t),
      buf mk (tr_newMetadata t), buf mk (tr_currentRoot t), buf mk (tr_newRoot t),
      leafIndexArg mk (tr_leafIndex t)]"
| "operation_args mk (WithdrawReq w) =
     [buf mk (wd_nullifier w), mk (CvUInt (int (nat_of_dec (wd_amount w)))),
      mk (CvPrincipal (wd_recipient w)), buf mk (wd_root w)]"
| "operation_args mk (SplitReq s) =
     [buf mk (sp_nullifier s), buf mk (sp_commitment1 s), buf mk (sp_ownerCommitment1 s),
      buf mk (sp_metadata1 s), buf mk (sp_commitment2 s), buf mk (sp_ownerCommitment2 s),
      buf mk (sp_metadata2 s), buf mk (sp_currentRoot s), buf mk (sp_newRoot s),
      leafIndexArg mk (sp_leafIndex s)]"
| "operation_args mk (MergeReq m) =
     [buf mk (mg_nullifier1 m), buf mk (mg_nullifier2 m), buf mk (mg_commitment m),
      buf mk (mg_ownerCommitment m), buf mk (mg_metadata m), buf mk (mg_currentRoot m),
      buf mk (mg_newRoot m), leafIndexArg mk (mg_leafIndex m)]"

fun call_target :: "bool \<Rightarrow> operation \<Rightarrow> string \<times> string" where
  "call_target sip10 Transfer = (if sip10 then ''sip10-pool'' else ''privacy-pool'', ''transfer'')"
| "call_target sip10 Withdraw = (if sip10 then ''sip10-pool'' else ''privacy-pool'', ''withdraw'')"
| "call_target sip10 Split =
     (if sip10 then ''sip10-pool'' else ''split-merge-manager'', if sip10 then ''split'' else ''split-note'')"
| "call_target sip10 Merge = (if sip10 then ''sip10-pool'' else ''split-merge-manager'', ''merge-notes'')"

text \<open>
  \<open>buildCall\<close>: the token argument is built first, then the arguments left to right; the first
  one that throws ends the call.
\<close>

definition buildCall :: "(clarity_value \<Rightarrow> cv_result) \<Rightarrow> relay_request \<Rightarrow> (relay_error, contract_call) result" where
  "buildCall mk r =
     (let sip10 = isSip10 r;
          lead = (if sip10 then [tokenArg mk (the (rb_token (base_of r)))] else []);
          (contract, fn) = call_target sip10 (op_of r)
      in rbind (rseq (lead @ operation_args mk r @ inclusionArgs mk (base_of r)))
           (\<lambda>args. Inr \<lparr>cc_contract = contract, cc_fn = fn, cc_args = args\<rparr>))"

section \<open>Submission\<close>

datatype nonce_reply = NonceThrows string | NonceStatus nat | NonceBody int

datatype broadcast_reply = BcThrows string | BcError string | BcOk string

text \<open>
  What the network does for one submission: the reply to the nonce lookup, the signed
  transaction the package makes for a call and a nonce (or its error), the reply to the
  broadcast. \<open>BcError\<close> carries the reply as JSON text.
\<close>

record 'tx submit_env =
  se_nonce :: nonce_reply
  se_make :: "contract_call \<Rightarrow> int \<Rightarrow> (string, 'tx) result"
  se_broadcast :: "'tx \<Rightarrow> broadcast_reply"

record 'tx tx_manager =
  tm_nonce :: "int option"
  tm_signed :: "(string, 'tx) jsmap"

definition new_TransactionManager :: "'tx tx_manager" where
  "new_TransactionManager = \<lparr>tm_nonce = None, tm_signed = []\<rparr>"

definition remember :: "string \<Rightarrow> 'tx \<Rightarrow> 'tx tx_manager \<Rightarrow> 'tx tx_manager" where
  "remember txid tx m =
     (let s = jm_set txid tx (tm_signed m)
      in if 256 < length s
         then (let oldest = fst (hd s)
               in m\<lparr>tm_signed := (if oldest \<noteq> [] then jm_del oldest s else s)\<rparr>)
         else m\<lparr>tm_signed := s\<rparr>)"

definition fetchNonce :: "nonce_reply \<Rightarrow> (relay_error, int) result" where
  "fetchNonce reply =
     (case reply of
        NonceThrows e \<Rightarrow> Inl (OtherError e)
      | NonceStatus s \<Rightarrow> Inl (RelayError ''nonce_unavailable'' (''nonce '' @ dec_of_nat s) 502)
      | NonceBody n \<Rightarrow> Inr n)"

text \<open>\<open>includes\<close>\<close>

definition js_includes :: "string \<Rightarrow> string \<Rightarrow> bool" where
  "js_includes s t \<longleftrightarrow> sublist t s"

definition submitRaw ::
  "'tx submit_env \<Rightarrow> contract_call \<Rightarrow> 'tx tx_manager \<Rightarrow> (relay_error, string) result \<times> 'tx tx_manager" where
  "submitRaw env call m =
     (case (case tm_nonce m of None \<Rightarrow> fetchNonce (se_nonce env) | Some n \<Rightarrow> Inr n) of
        Inl e \<Rightarrow> (Inl e, m)
      | Inr nonce \<Rightarrow>
          (let m1 = m\<lparr>tm_nonce := Some nonce\<rparr> in
           case se_make env call nonce of
             Inl e \<Rightarrow> (Inl (OtherError e), m1)
           | Inr tx \<Rightarrow>
               (case se_broadcast env tx of
                  BcThrows e \<Rightarrow> (Inl (OtherError e), m1)
                | BcError reason \<Rightarrow>
                    if js_includes reason ''BadNonce''
                    then (Inl (RelayError ''nonce_conflict'' ''nonce drift; retry'' 503), m1\<lparr>tm_nonce := None\<rparr>)
                    else (Inl (RelayError ''broadcast_failed'' reason 502), m1\<lparr>tm_nonce := None\<rparr>)
                | BcOk txid \<Rightarrow>
                    (Inr txid, remember txid tx (m1\<lparr>tm_nonce := Some (nonce + 1)\<rparr>)))))"

definition submit ::
  "(clarity_value \<Rightarrow> cv_result) \<Rightarrow> 'tx submit_env \<Rightarrow> relay_request \<Rightarrow> 'tx tx_manager \<Rightarrow>
   (relay_error, string) result \<times> 'tx tx_manager" where
  "submit mk env r m =
     (case buildCall mk r of
        Inl e \<Rightarrow> (Inl e, m)
      | Inr call \<Rightarrow> submitRaw env call m)"

text \<open>\<open>enqueue\<close>: submissions run one after the other, a failed one does not stop the next.\<close>

fun submit_all ::
  "('tx submit_env \<times> contract_call) list \<Rightarrow> 'tx tx_manager \<Rightarrow>
   (relay_error, string) result list \<times> 'tx tx_manager" where
  "submit_all [] m = ([], m)"
| "submit_all ((env, call) # rest) m =
     (let (r, m1) = submitRaw env call m; (rs, m2) = submit_all rest m1 in (r # rs, m2))"

section \<open>Confirmation\<close>

definition rebroadcast :: "('tx \<Rightarrow> broadcast_reply) \<Rightarrow> string \<Rightarrow> 'tx tx_manager \<Rightarrow> bool" where
  "rebroadcast bc txid m =
     (case jm_get (tm_signed m) txid of
        None \<Rightarrow> False
      | Some tx \<Rightarrow> (case bc tx of BcThrows _ \<Rightarrow> False | _ \<Rightarrow> True))"

datatype poll_reply = PollThrows string | PollNotOk | PollStatus string

datatype tx_outcome = TxSuccess | TxFailed

text \<open>
  \<open>clock j\<close> is the \<open>j\<close>th reading of \<open>Date.now()\<close>, \<open>poll k\<close> the \<open>k\<close>th reply, \<open>bc b\<close> the
  network's reply to the \<open>b\<close>th rebroadcast. One unit of fuel is one turn of a loop, \<open>None\<close> is
  a wait that has not ended. The second component counts the rebroadcasts.
\<close>

fun wait_loop ::
  "(nat \<Rightarrow> int) \<Rightarrow> (nat \<Rightarrow> poll_reply) \<Rightarrow> (nat \<Rightarrow> bool) \<Rightarrow> int \<Rightarrow> nat \<Rightarrow>
   int \<Rightarrow> nat \<Rightarrow> nat \<Rightarrow> nat \<Rightarrow> int \<Rightarrow> ((relay_error, tx_outcome) result \<times> nat) option" where
  "wait_loop clock poll rb windowMs 0 deadline j k b left = None"
| "wait_loop clock poll rb windowMs (Suc fuel) deadline j k b left =
     (if clock j < deadline then
        (case poll k of
           PollThrows e \<Rightarrow> Some (Inl (OtherError e), b)
         | PollNotOk \<Rightarrow> wait_loop clock poll rb windowMs fuel deadline (j + 1) (k + 1) b left
         | PollStatus s \<Rightarrow>
             if s = ''success'' then Some (Inr TxSuccess, b)
             else if js_startsWith s ''abort'' then Some (Inr TxFailed, b)
             else wait_loop clock poll rb windowMs fuel deadline (j + 1) (k + 1) b left)
      else if left \<le> 0 \<or> \<not> rb b then Some (Inr TxFailed, b)
      else wait_loop clock poll rb windowMs fuel (clock (j + 1) + windowMs) (j + 2) k (b + 1) (left - 1))"

record wait_opts =
  wo_timeoutMs :: "int option"
  wo_pollMs :: "int option"
  wo_rebroadcasts :: "int option"

definition or_default :: "'a option \<Rightarrow> 'a \<Rightarrow> 'a" where
  "or_default v d = (case v of None \<Rightarrow> d | Some x \<Rightarrow> x)"

definition waitForConfirmation ::
  "nat \<Rightarrow> (nat \<Rightarrow> int) \<Rightarrow> (nat \<Rightarrow> poll_reply) \<Rightarrow> (nat \<Rightarrow> 'tx \<Rightarrow> broadcast_reply) \<Rightarrow> string \<Rightarrow> wait_opts \<Rightarrow>
   'tx tx_manager \<Rightarrow> ((relay_error, tx_outcome) result \<times> nat) option" where
  "waitForConfirmation fuel clock poll bc txid opts m =
     (let windowMs = or_default (wo_timeoutMs opts) 900000;
          rebroadcasts = or_default (wo_rebroadcasts opts) 3
      in wait_loop clock poll (\<lambda>b. rebroadcast (bc b) txid m) windowMs fuel (clock 0 + windowMs) 1 0 0 rebroadcasts)"

datatype balance_reply = BalanceThrows string | BalanceNotOk | BalanceBody int

definition balance :: "balance_reply \<Rightarrow> (relay_error, int) result" where
  "balance reply =
     (case reply of
        BalanceThrows e \<Rightarrow> Inl (OtherError e)
      | BalanceNotOk \<Rightarrow> Inr 0
      | BalanceBody b \<Rightarrow> Inr b)"

section \<open>Facts of the contract call\<close>

lemma node_hex_full:
  "list_all is_hex s \<Longrightarrow> even (length s) \<Longrightarrow>
     be_val (node_hex s) = nat_of_hex s \<and> length (node_hex s) = length s div 2"
proof (induction s rule: node_hex.induct)
  case (1 a b s)
  then have h: "list_all is_hex [a, b]" and s: "list_all is_hex s" "even (length s)" by simp_all
  have lt: "nat_of_hex [a, b] < 256" using nat_of_hex_less [of "[a, b]"] by simp
  have "node_hex (a # b # s) = hex_pairs [a, b] @ node_hex s"
    using h by (simp add: parseInt16_pair to_uint8_def)
  moreover have "be_val (hex_pairs [a, b]) = nat_of_hex [a, b]" "length (hex_pairs [a, b]) = 1"
    using be_val_hex_pairs [of "[a, b]"] h by simp_all
  moreover obtain k where k: "length s = 2 * k" using s(2) by (auto elim: evenE)
  ultimately have "be_val (node_hex (a # b # s)) = nat_of_hex [a, b] * 16 ^ length s + nat_of_hex s"
    using "1.IH" s be_val_Cons [of "hd (hex_pairs [a, b])" "node_hex s"] h
    by (simp add: power_mult parseInt16_pair to_uint8_def be_val_def k)
  moreover have "nat_of_hex (a # b # s) = nat_of_hex [a, b] * 16 ^ length s + nat_of_hex s"
    using nat_of_hex_append [of "[a, b]" s] by simp
  ultimately show ?case using "1.IH" s h by simp
qed (simp_all add: nat_of_hex_def)

text \<open>A 32-byte hex string decodes to all of its 32 bytes.\<close>

lemma isBytes32_decode:
  assumes "isBytes32 s"
  shows "length (node_hex (strip0x s)) = 32" "be_val (node_hex (strip0x s)) = nat_of_hex (drop 2 s)"
proof -
  have p: "prefix ''0x'' s" "length s = 66" "list_all is_hex (drop 2 s)"
    using assms by (simp_all add: isBytes32_def hex_of_length_def js_startsWith_def)
  then have "strip0x s = drop 2 s" "even (length (drop 2 s))" by (simp_all add: strip0x_def)
  with p node_hex_full [of "drop 2 s"]
  show "length (node_hex (strip0x s)) = 32" "be_val (node_hex (strip0x s)) = nat_of_hex (drop 2 s)"
    by simp_all
qed

definition word_of :: "string \<Rightarrow> clarity_value" where
  "word_of s = CvBuffer (node_hex (strip0x s))"

text \<open>The arguments the contract of an operation declares, in its order.\<close>

fun declared_args :: "relay_request \<Rightarrow> clarity_value list" where
  "declared_args (TransferReq t) = map word_of (words32 (TransferReq t)) @ [CvUInt (the (tr_leafIndex t))]"
| "declared_args (WithdrawReq w) =
     [word_of (wd_nullifier w), CvUInt (int (nat_of_dec (wd_amount w))), CvPrincipal (wd_recipient w),
      word_of (wd_root w)]"
| "declared_args (SplitReq s) = map word_of (words32 (SplitReq s)) @ [CvUInt (the (sp_leafIndex s))]"
| "declared_args (MergeReq m) = map word_of (words32 (MergeReq m)) @ [CvUInt (the (mg_leafIndex m))]"

definition declared_inclusion :: "relay_base \<Rightarrow> clarity_value list" where
  "declared_inclusion b =
     [CvUInt (inc_domainId (rb_inclusion b)), CvUInt (inc_aggregationId (rb_inclusion b)),
      CvList (map word_of (inc_merklePath (rb_inclusion b))), CvUInt (inc_leafIndex (rb_inclusion b))]"

text \<open>A token that is present and well formed names a contract.\<close>

definition declared_token :: "relay_request \<Rightarrow> clarity_value list" where
  "declared_token r =
     (case rb_token (base_of r) of
        None \<Rightarrow> []
      | Some t \<Rightarrow> if t = [] then []
                  else [CvContractPrincipal (js_split (CHR ''.'') t ! 0) (js_split (CHR ''.'') t ! 1)])"

definition token_has_name :: "relay_request \<Rightarrow> bool" where
  "token_has_name r =
     (case rb_token (base_of r) of
        None \<Rightarrow> True
      | Some t \<Rightarrow> t = [] \<or> (1 < length (js_split (CHR ''.'') t) \<and> js_split (CHR ''.'') t ! 0 \<noteq> []
          \<and> js_split (CHR ''.'') t ! 1 \<noteq> []))"

definition needs_leaf :: "operation \<Rightarrow> bool" where
  "needs_leaf op \<longleftrightarrow> op \<noteq> Withdraw"

text \<open>The documented behaviour of a constructor that accepts its value: it returns it.\<close>

definition mk_returns :: "(clarity_value \<Rightarrow> cv_result) \<Rightarrow> bool" where
  "mk_returns mk \<longleftrightarrow> (\<forall>v w. mk v = Inr w \<longrightarrow> w = v)"

lemma mk_returnsD: "mk_returns mk \<Longrightarrow> mk v = Inr w \<Longrightarrow> w = v"
  by (simp add: mk_returns_def)

lemma buf_Inr: "mk_returns mk \<Longrightarrow> buf mk h = Inr w \<Longrightarrow> w = word_of h"
  by (auto simp: buf_def word_of_def dest: mk_returnsD)

lemma rmap_buf_Inr:
  assumes "mk_returns mk" "rmap (buf mk) hs = Inr ws"
  shows "ws = map word_of hs"
proof (rule nth_equalityI)
  have all: "list_all2 (\<lambda>x y. buf mk x = Inr y) hs ws" using assms(2) by (simp add: rmap_eq_Inr)
  then show "length ws = length (map word_of hs)" by (simp add: list_all2_lengthD)
  show "ws ! i = map word_of hs ! i" if "i < length ws" for i
    using that all buf_Inr [OF assms(1)] by (auto simp: list_all2_conv_all_nth)
qed

lemma leafIndexArg_Inr: "mk_returns mk \<Longrightarrow> leafIndexArg mk l = Inr w \<Longrightarrow> l \<noteq> None \<and> w = CvUInt (the l)"
  by (auto simp: leafIndexArg_def mk_returns_def split: option.splits)

lemma operation_args_Inr:
  assumes mk: "mk_returns mk" and "rseq (operation_args mk r) = Inr as"
  shows "as = declared_args r \<and> (needs_leaf (op_of r) \<longrightarrow> leaf_of r \<noteq> None)"
  using assms(2)
  by (cases r) (auto simp: needs_leaf_def word_of_def [symmetric]
      dest!: buf_Inr [OF mk] leafIndexArg_Inr [OF mk] mk_returnsD [OF mk])

lemma inclusionArgs_Inr:
  assumes mk: "mk_returns mk" and "rseq (inclusionArgs mk b) = Inr as"
  shows "as = declared_inclusion b"
  using assms(2)
  by (auto simp: inclusionArgs_def declared_inclusion_def
      dest!: rmap_buf_Inr [OF mk] mk_returnsD [OF mk])

lemma rseq_append: "rseq (xs @ ys) = rbind (rseq xs) (\<lambda>as. rbind (rseq ys) (\<lambda>bs. Inr (as @ bs)))"
proof (induction xs)
  case (Cons x xs)
  then show ?case by (cases x; cases "rseq xs"; cases "rseq ys") simp_all
qed (cases "rseq ys"; simp)

lemma token_Inr:
  assumes "mk_returns mk" "rseq (if isSip10 r then [tokenArg mk (the (rb_token (base_of r)))] else []) = Inr as"
  shows "as = declared_token r \<and> token_has_name r"
proof (cases "rb_token (base_of r)")
  case None
  with assms show ?thesis by (simp add: isSip10_def declared_token_def token_has_name_def)
next
  case (Some t)
  with assms show ?thesis
    by (cases "t = []")
      (auto simp: isSip10_def declared_token_def token_has_name_def tokenArg_def Let_def
        split: if_splits dest!: mk_returnsD [OF assms(1)])
qed

lemma buildCall_Inr:
  assumes "mk_returns mk" "buildCall mk r = Inr c"
  shows "cc_args c = declared_token r @ declared_args r @ declared_inclusion (base_of r)
    \<and> (cc_contract c, cc_fn c) = call_target (isSip10 r) (op_of r)
    \<and> token_has_name r \<and> (needs_leaf (op_of r) \<longrightarrow> leaf_of r \<noteq> None)"
  using assms
  by (auto simp: buildCall_def rseq_append Let_def case_prod_beta
      dest!: operation_args_Inr [OF assms(1)] inclusionArgs_Inr [OF assms(1)] token_Inr [OF assms(1)])

lemma rseq_Inr_map: "rseq (map Inr xs) = Inr xs"
  by (induction xs) simp_all

lemma rmap_Inr_all: "(\<And>x. x \<in> set xs \<Longrightarrow> f x = Inr (g x)) \<Longrightarrow> rmap f xs = Inr (map g xs)"
  by (induction xs) simp_all

section \<open>Facts of the nonce sequence\<close>

lemma tm_nonce_remember [simp]: "tm_nonce (remember txid tx m) = tm_nonce m"
  by (simp add: remember_def Let_def)

text \<open>A submission the network accepts at every nonce.\<close>

definition accepts_all :: "'tx submit_env \<Rightarrow> contract_call \<Rightarrow> bool" where
  "accepts_all env call \<longleftrightarrow> (\<forall>n. \<exists>tx txid. se_make env call n = Inr tx \<and> se_broadcast env tx = BcOk txid)"

definition signed_with :: "'tx submit_env \<Rightarrow> contract_call \<Rightarrow> int \<Rightarrow> (relay_error, string) result \<Rightarrow> bool" where
  "signed_with env call n r \<longleftrightarrow>
     (\<exists>tx txid. se_make env call n = Inr tx \<and> se_broadcast env tx = BcOk txid \<and> r = Inr txid)"

lemma submitRaw_accepted:
  assumes "accepts_all env call" "tm_nonce m = Some n"
  shows "signed_with env call n (fst (submitRaw env call m)) \<and> tm_nonce (snd (submitRaw env call m)) = Some (n + 1)"
proof -
  from assms(1) obtain tx txid where "se_make env call n = Inr tx" "se_broadcast env tx = BcOk txid"
    unfolding accepts_all_def by blast
  with assms(2) show ?thesis by (simp add: submitRaw_def signed_with_def)
qed

lemma submit_all_accepted:
  assumes "\<forall>(env, call) \<in> set js. accepts_all env call" "tm_nonce m = Some n"
  shows "length (fst (submit_all js m)) = length js
    \<and> (\<forall>k < length js. signed_with (fst (js ! k)) (snd (js ! k)) (n + int k) (fst (submit_all js m) ! k))
    \<and> tm_nonce (snd (submit_all js m)) = Some (n + int (length js))"
  using assms
proof (induction js arbitrary: m n)
  case Nil
  then show ?case by simp
next
  case (Cons j js)
  obtain env call where j: "j = (env, call)" by fastforce
  obtain r m1 where r: "submitRaw env call m = (r, m1)" by fastforce
  have "signed_with env call n r" "tm_nonce m1 = Some (n + 1)"
    using submitRaw_accepted [of env call m n] Cons.prems j r by auto
  with Cons.IH [of m1 "n + 1"] Cons.prems(1) show ?case
    by (auto simp: j r case_prod_beta All_less_Suc2 add.assoc)
qed

section \<open>Facts of the wait\<close>

lemma wait_loop_returns:
  assumes W: "\<And>j. \<exists>i \<le> W. clock (j + 1) + windowMs \<le> clock (j + 2 + i)"
  shows "deadline \<le> clock (j + i) \<Longrightarrow> i + 1 + nat left * (W + 1) \<le> fuel \<Longrightarrow>
     \<exists>r c. wait_loop clock poll rb windowMs fuel deadline j k b left = Some (r, c) \<and> c \<le> b + nat left"
proof (induction fuel arbitrary: deadline j k b left i)
  case 0
  then show ?case by simp
next
  case (Suc fuel)
  show ?case
  proof (cases "clock j < deadline")
    case True
    with Suc.prems(1) obtain i' where i: "i = Suc i'" by (cases i) auto
    have IH: "\<exists>r c. wait_loop clock poll rb windowMs fuel deadline (j + 1) (k + 1) b left = Some (r, c) \<and> c \<le> b + nat left"
      using Suc.IH [of deadline "j + 1" i' left "k + 1" b] Suc.prems i by simp
    then show ?thesis using True by (auto split: poll_reply.splits)
  next
    case False
    show ?thesis
    proof (cases "left \<le> 0 \<or> \<not> rb b")
      case True
      with False show ?thesis by simp
    next
      case go: False
      obtain i' where i': "i' \<le> W" "clock (j + 1) + windowMs \<le> clock (j + 2 + i')" using W by blast
      have l: "nat left = Suc (nat (left - 1))" using go by linarith
      have "\<exists>r c. wait_loop clock poll rb windowMs fuel (clock (j + 1) + windowMs) (j + 2) k (b + 1) (left - 1) = Some (r, c)
          \<and> c \<le> b + 1 + nat (left - 1)"
        using Suc.IH [of "clock (j + 1) + windowMs" "j + 2" i' "left - 1" k "b + 1"] i' Suc.prems(2) l by simp
      with False go l show ?thesis by auto
    qed
  qed
qed

lemma wait_loop_success:
  "wait_loop clock poll rb windowMs fuel deadline j k b left = Some (Inr TxSuccess, c) \<Longrightarrow>
     \<exists>k'. poll k' = PollStatus ''success''"
proof (induction fuel arbitrary: deadline j k b left)
  case (Suc fuel)
  then show ?case by (auto split: if_splits poll_reply.splits)
qed simp

text \<open>Time passes: readings never go back, and three readings apart there was a sleep.\<close>

definition ticking :: "(nat \<Rightarrow> int) \<Rightarrow> bool" where
  "ticking clock \<longleftrightarrow> (\<forall>j. clock j \<le> clock (j + 1) \<and> clock j + 1 \<le> clock (j + 3))"

lemma ticking_far: "ticking clock \<Longrightarrow> clock j + int m \<le> clock (j + 3 * m)"
proof (induction m)
  case (Suc m)
  have "clock (j + 3 * m) + 1 \<le> clock (j + 3 * m + 3)" using Suc.prems by (simp add: ticking_def)
  with Suc show ?case by (simp add: algebra_simps)
qed simp

text \<open>\<open>buildCall\<close> when the package accepts every value.\<close>

lemma buildCall_returns:
  "buildCall Inr r =
     (if \<not> token_has_name r
      then Inl (RelayError ''invalid_token''
             (''token must be a contract principal: '' @ the (rb_token (base_of r))) 400)
      else if needs_leaf (op_of r) \<and> leaf_of r = None
      then Inl (RelayError ''missing_leaf_index'' ''leaf-adding operations require leafIndex'' 400)
      else Inr \<lparr>cc_contract = fst (call_target (isSip10 r) (op_of r)),
                cc_fn = snd (call_target (isSip10 r) (op_of r)),
                cc_args = declared_token r @ declared_args r @ declared_inclusion (base_of r)\<rparr>)"
proof -
  have lead: "rseq (if isSip10 r then [tokenArg Inr (the (rb_token (base_of r)))] else []) =
      (if token_has_name r then Inr (declared_token r)
       else Inl (RelayError ''invalid_token''
             (''token must be a contract principal: '' @ the (rb_token (base_of r))) 400))"
    by (cases "rb_token (base_of r)")
      (auto simp: isSip10_def token_has_name_def declared_token_def tokenArg_def Let_def)
  have b: "buf Inr = (\<lambda>h. Inr (word_of h))" by (rule ext) (simp add: buf_def word_of_def)
  have args: "rseq (operation_args Inr r) =
      (if needs_leaf (op_of r) \<and> leaf_of r = None
       then Inl (RelayError ''missing_leaf_index'' ''leaf-adding operations require leafIndex'' 400)
       else Inr (declared_args r))"
    by (cases r) (auto simp: b needs_leaf_def leafIndexArg_def split: option.splits)
  have inc: "rseq (inclusionArgs Inr (base_of r)) = Inr (declared_inclusion (base_of r))"
    by (simp add: inclusionArgs_def declared_inclusion_def b rmap_Inr_all [where g = word_of])
  show ?thesis
    by (simp add: buildCall_def rseq_append lead args inc case_prod_beta Let_def)
qed

section \<open>Properties\<close>

text \<open>\<open>buildCall\<close> on every branch, when the package accepts every value: a SIP-10 token that is
  not a contract principal gives \<open>invalid_token\<close>; otherwise a transfer, split or merge without
  a leaf index gives \<open>missing_leaf_index\<close>; otherwise the call goes to the pool and function of
  the operation and the asset kind, and its arguments are the token (SIP-10 only), every
  32-byte field of the request in the contract's order, the leaf index (not for a
  withdrawal), and the four inclusion arguments.\<close>

theorem buildCall_spec:
  "buildCall Inr r =
     (if \<not> token_has_name r
      then Inl (RelayError ''invalid_token''
             (''token must be a contract principal: '' @ the (rb_token (base_of r))) 400)
      else if needs_leaf (op_of r) \<and> leaf_of r = None
      then Inl (RelayError ''missing_leaf_index'' ''leaf-adding operations require leafIndex'' 400)
      else Inr \<lparr>cc_contract = fst (call_target (isSip10 r) (op_of r)),
                cc_fn = snd (call_target (isSip10 r) (op_of r)),
                cc_args = declared_token r @ declared_args r @ declared_inclusion (base_of r)\<rparr>)"
  by (rule buildCall_returns)


definition demo_word :: string where
  "demo_word = ''0x'' @ replicate 64 (CHR ''a'')"

definition demo_principal :: string where
  "demo_principal = CHR ''S'' # replicate 40 (CHR ''P'')"

definition demo_body :: json where
  "demo_body = JObj
     [(''inclusion'', JObj [(''domainId'', JNum (of_int 0)), (''aggregationId'', JNum (of_int 5)),
        (''merklePath'', JArr [JStr demo_word]), (''leafIndex'', JNum (of_int 1))]),
      (''nullifier'', JStr demo_word), (''amount'', JStr ''1500''), (''recipient'', JStr demo_principal),
      (''root'', JStr demo_word), (''unknown'', JNull)]"

definition demo_request :: relay_request where
  "demo_request = WithdrawReq
     \<lparr>rb_inclusion = \<lparr>inc_domainId = 0, inc_aggregationId = 5, inc_merklePath = [demo_word], inc_leafIndex = 1\<rparr>,
      rb_authorization = None, rb_encryptedPayload = None, rb_token = None,
      wd_nullifier = demo_word, wd_amount = ''1500'', wd_recipient = demo_principal, wd_root = demo_word\<rparr>"

lemma demo_word_ok: "isBytes32 demo_word"
  by code_simp

lemma demo_principal_ok: "isPrincipal demo_principal"
  by code_simp

lemma demo_amount_ok: "isDecimal ''1500''"
  by code_simp

lemma demo_parse: "safeParse Withdraw (Some demo_body) = Inr demo_request"
  by (simp add: demo_body_def demo_request_def WithdrawRequestSchema_def base_schema_def InclusionSchema_def
      AuthorizationSchema_def z_object_def z_field_Inr z_int_Inr z_array_Inr z_string_Inr z_optional_Inr
      Bytes32_Inr Principal_Inr demo_word_ok demo_principal_ok demo_amount_ok nonnegative_def MAX_SAFE_INTEGER_def
      relay_base.defs withdraw_request.defs list_all2_Cons1)


text \<open>C16: Nonces: when the network accepts a run of submissions, exactly one nonce lookup is made
  (none if the manager already has a nonce) and the k-th submission is signed with the
  nonce looked up plus k, without gap or repetition.\<close>

theorem nonces_consecutive:
  assumes "\<forall>(env, call) \<in> set js. accepts_all env call" "js \<noteq> []"
    and "case tm_nonce m of Some n' \<Rightarrow> n = n' | None \<Rightarrow> fetchNonce (se_nonce (fst (hd js))) = Inr n"
  shows "length (fst (submit_all js m)) = length js
    \<and> (\<forall>k < length js. signed_with (fst (js ! k)) (snd (js ! k)) (n + int k) (fst (submit_all js m) ! k))
    \<and> tm_nonce (snd (submit_all js m)) = Some (n + int (length js))"
proof (cases "tm_nonce m")
  case Some
  with assms show ?thesis by (intro submit_all_accepted) simp_all
next
  case None
  obtain env call js' where js: "js = (env, call) # js'" using assms(2) by (cases js) auto
  have "submitRaw env call m = submitRaw env call (m\<lparr>tm_nonce := Some n\<rparr>)"
    using None assms(3) js by (simp add: submitRaw_def)
  then have "submit_all js m = submit_all js (m\<lparr>tm_nonce := Some n\<rparr>)" by (simp add: js)
  with submit_all_accepted [OF assms(1), of "m\<lparr>tm_nonce := Some n\<rparr>" n] show ?thesis by simp
qed

definition demo_env :: "(contract_call \<times> int) submit_env" where
  "demo_env = \<lparr>se_nonce = NonceBody 7, se_make = (\<lambda>c n. Inr (c, n)), se_broadcast = (\<lambda>t. BcOk (dec_of_int (snd t)))\<rparr>"

definition demo_call :: contract_call where
  "demo_call = \<lparr>cc_contract = ''privacy-pool'', cc_fn = ''withdraw'', cc_args = []\<rparr>"

theorem nonces_consecutive_witness:
  "tm_nonce (snd (submit_all [(demo_env, demo_call), (demo_env, demo_call)] new_TransactionManager)) = Some 9"
  using nonces_consecutive [where js = "[(demo_env, demo_call), (demo_env, demo_call)]"
      and m = new_TransactionManager and n = 7]
  by (simp add: accepts_all_def demo_env_def new_TransactionManager_def fetchNonce_def)

text \<open>A failed submission on every branch: a refused broadcast makes the manager forget its
  nonce, so that the next submission looks it up again; a failed lookup leaves it without
  one; an error of the signing or of the connection leaves the nonce in place for the next
  submission; no failure stores a transaction.\<close>

theorem failed_submission_resyncs:
  assumes "fst (submitRaw env call m) = Inl e"
  shows "tm_signed (snd (submitRaw env call m)) = tm_signed m
    \<and> (case e of
         RelayError code msg st \<Rightarrow> tm_nonce (snd (submitRaw env call m)) = None
       | OtherError msg \<Rightarrow> tm_nonce (snd (submitRaw env call m)) = tm_nonce m
           \<or> tm_nonce m = None \<and> (\<exists>n. fetchNonce (se_nonce env) = Inr n
               \<and> tm_nonce (snd (submitRaw env call m)) = Some n))"
  using assms
  by (cases "tm_nonce m")
    (auto simp: submitRaw_def Let_def fetchNonce_def split: sum.splits broadcast_reply.splits nonce_reply.splits if_splits)

theorem failed_submission_resyncs_witness:
  "let env = demo_env\<lparr>se_broadcast := (\<lambda>t. BcError ''BadNonce'')\<rparr>;
       m = new_TransactionManager\<lparr>tm_nonce := Some 3\<rparr>
   in fst (submitRaw env demo_call m) = Inl (RelayError ''nonce_conflict'' ''nonce drift; retry'' 503)
      \<and> tm_nonce (snd (submitRaw env demo_call m)) = None"
proof -
  let ?env = "demo_env\<lparr>se_broadcast := (\<lambda>t. BcError ''BadNonce'')\<rparr>"
    and ?m = "new_TransactionManager\<lparr>tm_nonce := Some 3\<rparr> :: (contract_call \<times> int) tx_manager"
  have "fst (submitRaw ?env demo_call ?m) = Inl (RelayError ''nonce_conflict'' ''nonce drift; retry'' 503)"
    by (simp add: submitRaw_def demo_env_def new_TransactionManager_def js_includes_def)
  with failed_submission_resyncs [OF this] show ?thesis by simp
qed

text \<open>\<open>waitForConfirmation\<close> returns: when time passes, it ends after at most
  (rebroadcasts + 1) * (3 * window + 1) turns, having rebroadcast at most \<open>rebroadcasts\<close>
  times, and it reports success only if the chain reported the transaction's success.\<close>

theorem wait_terminates:
  assumes "ticking clock"
    and "(nat (or_default (wo_rebroadcasts opts) 3) + 1) * (3 * nat (or_default (wo_timeoutMs opts) 900000) + 1) \<le> fuel"
  shows "\<exists>r n. waitForConfirmation fuel clock poll bc txid opts m = Some (r, n)
    \<and> n \<le> nat (or_default (wo_rebroadcasts opts) 3)
    \<and> (r = Inr TxSuccess \<longrightarrow> (\<exists>k. poll k = PollStatus ''success''))"
proof -
  let ?w = "or_default (wo_timeoutMs opts) 900000" and ?l = "or_default (wo_rebroadcasts opts) 3"
  let ?W = "3 * nat ?w"
  have far: "clock i + ?w \<le> clock (j + ?W)" if "clock i \<le> clock j" for i j
    using ticking_far [OF assms(1), of j "nat ?w"] that by linarith
  have W: "\<exists>i \<le> ?W. clock (j + 1) + ?w \<le> clock (j + 2 + i)" for j
    using far [of "j + 1" "j + 2"] assms(1) by (metis add.assoc le_refl nat_1_add_1 ticking_def)
  have "clock 0 + ?w \<le> clock (1 + ?W)" using far [of 0 1] assms(1) by (metis add_0 ticking_def)
  moreover have "?W + 1 + nat ?l * (?W + 1) \<le> fuel" using assms(2) by (simp add: algebra_simps)
  ultimately obtain r n where "wait_loop clock poll (\<lambda>b. rebroadcast (bc b) txid m) ?w fuel (clock 0 + ?w) 1 0 0 ?l = Some (r, n)"
    "n \<le> 0 + nat ?l"
    using wait_loop_returns [OF W, of "clock 0 + ?w" 1 ?W ?l fuel poll "\<lambda>b. rebroadcast (bc b) txid m" 0 0] by blast
  then show ?thesis
    using wait_loop_success by (fastforce simp: waitForConfirmation_def Let_def)
qed

theorem wait_terminates_witness:
  "\<exists>r n. waitForConfirmation 100 (\<lambda>j. int j) (\<lambda>k. PollStatus ''pending'') (\<lambda>b t. BcOk ''tx'') ''tx''
     \<lparr>wo_timeoutMs = Some 4, wo_pollMs = Some 1, wo_rebroadcasts = Some 1\<rparr>
     (new_TransactionManager :: (contract_call \<times> int) tx_manager) = Some (r, n)"
  using wait_terminates [of "\<lambda>j. int j" "\<lparr>wo_timeoutMs = Some 4, wo_pollMs = Some 1, wo_rebroadcasts = Some 1\<rparr>" 100]
  by (force simp: ticking_def or_default_def)

end
