(* ===== verification/JsNumber.thy ===== *)
theory JsNumber
  imports Json Bytes
begin

text \<open>
  \<open>String(v)\<close> and \<open>Number(v)\<close> of JavaScript on the values the source converts: JSON values and
  text (environment variables, identifiers in events and query strings). A number is a rational,
  read exactly; the rounding to a double and its overflow to infinity are not modelled. \<open>None\<close>
  is a result that is not finite (\<open>NaN\<close> or \<open>Infinity\<close>), which the source only ever tests with
  \<open>Number.isFinite\<close>.
\<close>

text \<open>\<open>String(v)\<close>; an array is its elements joined by commas, \<open>null\<close> elements
  empty. No answer of the chain is a fraction, whose digits are left out.\<close>

fun js_String :: "json \<Rightarrow> string" and js_join :: "json list \<Rightarrow> string" where
  "js_String JNull = ''null''"
| "js_String (JBool b) = (if b then ''true'' else ''false'')"
| "js_String (JNum r) = (if of_int \<lfloor>r\<rfloor> = r then dec_of_int \<lfloor>r\<rfloor> else ''fraction'')"
| "js_String (JStr s) = s"
| "js_String (JArr vs) = js_join vs"
| "js_String (JObj _) = ''[object Object]''"
| "js_join [] = []"
| "js_join [v] = (if v = JNull then [] else js_String v)"
| "js_join (v # w # ws) = (if v = JNull then [] else js_String v) @ CHR '','' # js_join (w # ws)"

text \<open>Digits of a base, at least one.\<close>

definition parse_base :: "nat \<Rightarrow> string \<Rightarrow> rat option" where
  "parse_base b s =
     (if s \<noteq> [] \<and> list_all (\<lambda>c. case hex_val c of Some d \<Rightarrow> d < b | None \<Rightarrow> False) s
      then Some (of_nat (foldl (\<lambda>a c. b * a + the (hex_val c)) 0 s)) else None)"

definition js_sign :: "string \<Rightarrow> bool \<times> string" where
  "js_sign s =
     (case s of
        [] \<Rightarrow> (False, [])
      | c # cs \<Rightarrow> if c = CHR ''-'' then (True, cs) else if c = CHR ''+'' then (False, cs) else (False, s))"

text \<open>A decimal literal: digits with an optional fraction, then an optional exponent.\<close>

definition js_exponent :: "rat \<Rightarrow> string \<Rightarrow> rat option" where
  "js_exponent m s =
     (case s of
        [] \<Rightarrow> Some m
      | c # cs \<Rightarrow>
          if c = CHR ''e'' \<or> c = CHR ''E''
          then (let (neg, ds) = js_sign cs in
                if ds \<noteq> [] \<and> list_all is_dec ds
                then Some (if neg then m / 10 ^ nat_of_dec ds else m * 10 ^ nat_of_dec ds) else None)
          else None)"

definition js_decimal :: "string \<Rightarrow> rat option" where
  "js_decimal s =
     (let (neg, u) = js_sign s;
          ip = takeWhile is_dec u;
          r1 = dropWhile is_dec u;
          (fp, r2) = (case r1 of [] \<Rightarrow> ([], [])
                      | c # cs \<Rightarrow> if c = CHR ''.'' then (takeWhile is_dec cs, dropWhile is_dec cs) else ([], r1))
      in if ip = [] \<and> fp = [] then None
         else map_option (\<lambda>r. if neg then - r else r)
                (js_exponent (of_nat (nat_of_dec (ip @ fp)) / 10 ^ length fp) r2))"

text \<open>\<open>Number(s)\<close> of a string.\<close>

definition js_Number_text :: "string \<Rightarrow> rat option" where
  "js_Number_text s =
     (let t = js_trim s in
      if t = [] then Some 0
      else if prefix ''0x'' t \<or> prefix ''0X'' t then parse_base 16 (drop 2 t)
      else if prefix ''0b'' t \<or> prefix ''0B'' t then parse_base 2 (drop 2 t)
      else if prefix ''0o'' t \<or> prefix ''0O'' t then parse_base 8 (drop 2 t)
      else js_decimal t)"

text \<open>\<open>BigInt(v)\<close>: a text in decimal with a sign, or in base 16, 8 or 2 without.\<close>

definition js_BigInt_text :: "string \<Rightarrow> (string, int) result" where
  "js_BigInt_text s =
     (let t = js_trim s;
          based = (\<lambda>b. case parse_base b (drop 2 t) of Some r \<Rightarrow> Inr \<lfloor>r\<rfloor> | None \<Rightarrow> Inl ''SyntaxError'');
          (neg, ds) = js_sign t
      in if t = [] then Inr 0
         else if prefix ''0x'' t \<or> prefix ''0X'' t then based 16
         else if prefix ''0b'' t \<or> prefix ''0B'' t then based 2
         else if prefix ''0o'' t \<or> prefix ''0O'' t then based 8
         else if ds \<noteq> [] \<and> list_all is_dec ds then Inr (if neg then - int (nat_of_dec ds) else int (nat_of_dec ds))
         else Inl ''SyntaxError'')"

text \<open>\<open>Number(v)\<close>; \<open>None\<close> as argument is \<open>undefined\<close>. Arrays and objects go through their text.\<close>

definition js_Number :: "json option \<Rightarrow> rat option" where
  "js_Number v =
     (case v of
        None \<Rightarrow> None
      | Some JNull \<Rightarrow> Some 0
      | Some (JBool b) \<Rightarrow> Some (if b then 1 else 0)
      | Some (JNum r) \<Rightarrow> Some r
      | Some (JStr s) \<Rightarrow> js_Number_text s
      | Some w \<Rightarrow> js_Number_text (js_String w))"

text \<open>\<open>a ?? b\<close>: the right side when the left is \<open>undefined\<close> or \<open>null\<close>.\<close>

definition js_nullish :: "json option \<Rightarrow> json option \<Rightarrow> json option" where
  "js_nullish a b = (if a = None \<or> a = Some JNull then b else a)"

text \<open>Truthiness of a JSON value.\<close>

definition js_truthy :: "json option \<Rightarrow> bool" where
  "js_truthy v \<longleftrightarrow> v \<notin> {None, Some JNull, Some (JBool False), Some (JNum 0), Some (JStr [])}"

lemma dec_digits_all: "list_all is_dec (dec_of_nat n)"
  using dec_of_nat_is_dec [of n] by (simp add: list_all_iff)

lemma js_trim_id: "s \<noteq> [] \<Longrightarrow> \<not> js_space (hd s) \<Longrightarrow> \<not> js_space (last s) \<Longrightarrow> js_trim s = s"
proof -
  assume a: "s \<noteq> []" "\<not> js_space (hd s)" "\<not> js_space (last s)"
  then have 1: "dropWhile js_space s = s" by (cases s) simp_all
  have "dropWhile js_space (rev s) = rev s" using a by (cases "rev s") (simp_all add: last_rev hd_rev [symmetric])
  with 1 show ?thesis by (simp add: js_trim_def)
qed

lemma is_dec_not_space: "is_dec c \<Longrightarrow> \<not> js_space c"
  by (auto simp: is_dec_def js_space_def)

lemma is_dec_not_letter: "is_dec c \<Longrightarrow> c \<notin> {CHR ''x'', CHR ''X'', CHR ''b'', CHR ''B'', CHR ''o'', CHR ''O'', CHR ''-'', CHR ''+''}"
  by (auto simp: is_dec_def)

text \<open>\<open>Number(String(n))\<close> of a natural number is the number.\<close>

lemma js_Number_dec [simp]: "js_Number_text (dec_of_nat n) = Some (of_nat n)"
proof -
  let ?s = "dec_of_nat n"
  have all: "\<forall>c \<in> set ?s. is_dec c" by (rule dec_of_nat_is_dec)
  obtain c cs where s: "?s = c # cs" by (cases ?s) auto
  have tr: "js_trim ?s = ?s"
    using all by (intro js_trim_id) (auto simp: is_dec_not_space)
  have np: "\<not> prefix [CHR ''0'', x] ?s" if "\<not> is_dec x" for x
    using all that by (auto simp: prefix_def)
  have nd: "\<not> is_dec (CHR ''x'')" "\<not> is_dec (CHR ''X'')" "\<not> is_dec (CHR ''b'')" "\<not> is_dec (CHR ''B'')"
    "\<not> is_dec (CHR ''o'')" "\<not> is_dec (CHR ''O'')" by (simp_all add: is_dec_def)
  have sg: "js_sign ?s = (False, ?s)"
    using all s is_dec_not_letter [of c] by (auto simp: js_sign_def)
  have tk: "takeWhile is_dec ?s = ?s" "dropWhile is_dec ?s = []"
    using all by (simp_all add: takeWhile_eq_all_conv dropWhile_eq_Nil_conv)
  show ?thesis
    by (simp add: js_Number_text_def tr np [OF nd(1)] np [OF nd(2)] np [OF nd(3)] np [OF nd(4)] np [OF nd(5)] np [OF nd(6)]
        js_decimal_def sg tk js_exponent_def)
qed

text \<open>\<open>BigInt(n.toString())\<close> is \<open>n\<close>.\<close>

lemma js_BigInt_dec [simp]: "js_BigInt_text (dec_of_int n) = Inr n"
proof -
  define m where "m = nat \<bar>n\<bar>"
  have all: "list_all is_dec (dec_of_nat m)" by (rule dec_digits_all)
  obtain c cs where s: "dec_of_nat m = c # cs" by (cases "dec_of_nat m") auto
  have c: "is_dec c" "list_all is_dec cs" using all s by simp_all
  have lst: "\<not> js_space (last (dec_of_nat m))"
    using all is_dec_not_space by (simp add: list_all_iff)
  show ?thesis
  proof (cases "n < 0")
    case True
    then have "nat (- n) = m" by (simp add: m_def)
    then have d: "dec_of_int n = CHR ''-'' # c # cs" using True by (simp add: dec_of_int_def s [symmetric])
    have "js_trim (CHR ''-'' # c # cs) = CHR ''-'' # c # cs"
      using lst s by (intro js_trim_id) (simp_all add: js_space_def)
    moreover have "js_sign (CHR ''-'' # c # cs) = (True, dec_of_nat m)" by (simp add: js_sign_def s)
    moreover have "dec_of_nat m \<noteq> []" by simp
    ultimately show ?thesis
      using all True unfolding js_BigInt_text_def d by (simp add: Let_def m_def nat_of_dec_of_nat)
  next
    case False
    then have d: "dec_of_int n = dec_of_nat m" by (simp add: dec_of_int_def m_def)
    have tr: "js_trim (dec_of_nat m) = dec_of_nat m"
      using lst s c is_dec_not_space by (intro js_trim_id) simp_all
    have np: "\<not> prefix [CHR ''0'', x] (dec_of_nat m)" if "\<not> is_dec x" for x
      using all that by (auto simp: prefix_def)
    have nd: "\<not> is_dec (CHR ''x'')" "\<not> is_dec (CHR ''X'')" "\<not> is_dec (CHR ''b'')" "\<not> is_dec (CHR ''B'')"
      "\<not> is_dec (CHR ''o'')" "\<not> is_dec (CHR ''O'')" by (simp_all add: is_dec_def)
    have sg: "js_sign (dec_of_nat m) = (False, dec_of_nat m)"
      using is_dec_not_letter [OF c(1)] s by (auto simp: js_sign_def)
    have r: "int (nat_of_dec (dec_of_nat m)) = n" using False by (simp add: m_def nat_of_dec_of_nat)
    show ?thesis
      using all r unfolding js_BigInt_text_def d tr Let_def sg
      by (simp add: np [OF nd(1)] np [OF nd(2)] np [OF nd(3)] np [OF nd(4)] np [OF nd(5)] np [OF nd(6)])
  qed
qed

end
