(* ===== verification/Validator.thy ===== *)
theory Validator
  imports TxManager JsNumber
begin

text \<open>
  The checks the relayer makes before it queues an operation,
  \<open>services/relayer/proof-validator\<close>: the read-only calls against the registry and the
  verifiers. A reader is a function from contract, function and arguments to the decoded
  answer; \<open>NodeReader\<close> is the one over HTTP, with the package's decoding of a hex-encoded
  Clarity value as the parameter \<open>decode\<close>.
\<close>

type_synonym chain_reader = "string \<Rightarrow> string \<Rightarrow> clarity_value list \<Rightarrow> (relay_error, json) result"

section \<open>The reader over HTTP\<close>

datatype node_reply =
    NodeThrows string
  | NodeStatus nat
  | NodeBody bool "string option" "string option"

definition NodeReader_readOnly :: "(string \<Rightarrow> (string, json) result) \<Rightarrow> node_reply \<Rightarrow> (relay_error, json) result" where
  "NodeReader_readOnly decode reply =
     (case reply of
        NodeThrows e \<Rightarrow> Inl (OtherError e)
      | NodeStatus s \<Rightarrow> Inl (RelayError ''node_unavailable'' (''node '' @ dec_of_nat s) 502)
      | NodeBody okay res cause \<Rightarrow>
          if \<not> okay \<or> res = None \<or> res = Some []
          then Inl (RelayError ''read_failed''
                 (case cause of Some c \<Rightarrow> c | None \<Rightarrow> ''read-only call failed'') 502)
          else (case decode (the res) of Inl e \<Rightarrow> Inl (OtherError e) | Inr v \<Rightarrow> Inr v))"

section \<open>The request's nullifiers and root\<close>

fun nullifiersOf :: "relay_request \<Rightarrow> string list" where
  "nullifiersOf (MergeReq m) = [mg_nullifier1 m, mg_nullifier2 m]"
| "nullifiersOf (TransferReq t) = [tr_nullifier t]"
| "nullifiersOf (WithdrawReq w) = [wd_nullifier w]"
| "nullifiersOf (SplitReq s) = [sp_nullifier s]"

fun rootOf :: "relay_request \<Rightarrow> string" where
  "rootOf (WithdrawReq w) = wd_root w"
| "rootOf (TransferReq t) = tr_currentRoot t"
| "rootOf (SplitReq s) = sp_currentRoot s"
| "rootOf (MergeReq m) = mg_currentRoot m"

text \<open>\<open>unwrap\<close>: the \<open>value\<close> of an object that has one, anything else as it is.\<close>

definition unwrap :: "json \<Rightarrow> json" where
  "unwrap v = (case json_field v ''value'' of Some x \<Rightarrow> x | None \<Rightarrow> v)"

section \<open>The checks\<close>

definition assertProtocolActive :: "chain_reader \<Rightarrow> (relay_error, unit) result" where
  "assertProtocolActive reader =
     rbind (reader ''privacy-registry'' ''get-protocol-state'' []) (\<lambda>v.
       let state = unwrap v in
       rguard (js_String state = ''1'')
         (RelayError ''protocol_inactive'' (''protocol state is '' @ js_String state) 503))"

definition assertRootKnown :: "chain_reader \<Rightarrow> relay_request \<Rightarrow> (relay_error, unit) result" where
  "assertRootKnown reader r =
     (let rt = rootOf r in
      rbind (reader ''privacy-registry'' ''is-known-root'' [word_of rt]) (\<lambda>v.
        rguard (unwrap v = JBool True) (RelayError ''unknown_root'' (''root '' @ rt @ '' is not valid'') 400)))"

fun assertNullifiers_loop :: "chain_reader \<Rightarrow> string list \<Rightarrow> (relay_error, unit) result" where
  "assertNullifiers_loop reader [] = Inr ()"
| "assertNullifiers_loop reader (n # ns) =
     rbind (reader ''privacy-registry'' ''is-nullifier-spent'' [word_of n]) (\<lambda>v.
       if unwrap v = JBool True
       then Inl (RelayError ''nullifier_spent'' (''nullifier '' @ n @ '' already spent'') 409)
       else assertNullifiers_loop reader ns)"

definition assertNullifiersUnspent :: "chain_reader \<Rightarrow> relay_request \<Rightarrow> (relay_error, unit) result" where
  "assertNullifiersUnspent reader r = assertNullifiers_loop reader (nullifiersOf r)"

definition assertAggregationPublished :: "chain_reader \<Rightarrow> relay_request \<Rightarrow> (relay_error, unit) result" where
  "assertAggregationPublished reader r =
     (let i = rb_inclusion (base_of r);
          verifier = (if isSip10 r then ''sip10-zk-verifier'' else ''zk-verifier'')
      in rbind (reader verifier ''get-aggregation'' [CvUInt (inc_domainId i), CvUInt (inc_aggregationId i)]) (\<lambda>v.
           rguard (unwrap v \<noteq> JNull)
             (RelayError ''aggregation_not_published''
               (''aggregation '' @ dec_of_int (inc_domainId i) @ ''/'' @ dec_of_int (inc_aggregationId i)
                @ '' is not on chain yet'') 409)))"

definition validate :: "chain_reader \<Rightarrow> relay_request \<Rightarrow> (relay_error, unit) result" where
  "validate reader r =
     rbind (assertProtocolActive reader) (\<lambda>_.
     rbind (assertRootKnown reader r) (\<lambda>_.
     rbind (assertNullifiersUnspent reader r) (\<lambda>_.
       assertAggregationPublished reader r)))"

section \<open>Facts\<close>

lemma nullifiers_loop_Inr:
  "assertNullifiers_loop reader ns = Inr u \<longleftrightarrow>
     (\<forall>n \<in> set ns. \<exists>v. reader ''privacy-registry'' ''is-nullifier-spent'' [word_of n] = Inr v \<and> unwrap v \<noteq> JBool True)"
  by (induction ns) (auto split: if_splits)

text \<open>What the chain says of a request, through the reader.\<close>

definition protocol_active :: "chain_reader \<Rightarrow> bool" where
  "protocol_active reader \<longleftrightarrow>
     (\<exists>v. reader ''privacy-registry'' ''get-protocol-state'' [] = Inr v \<and> js_String (unwrap v) = ''1'')"

definition root_known :: "chain_reader \<Rightarrow> string \<Rightarrow> bool" where
  "root_known reader rt \<longleftrightarrow>
     (\<exists>v. reader ''privacy-registry'' ''is-known-root'' [word_of rt] = Inr v \<and> unwrap v = JBool True)"

definition nullifier_unspent :: "chain_reader \<Rightarrow> string \<Rightarrow> bool" where
  "nullifier_unspent reader n \<longleftrightarrow>
     (\<exists>v. reader ''privacy-registry'' ''is-nullifier-spent'' [word_of n] = Inr v \<and> unwrap v \<noteq> JBool True)"

definition aggregation_posted :: "chain_reader \<Rightarrow> relay_request \<Rightarrow> bool" where
  "aggregation_posted reader r \<longleftrightarrow>
     (\<exists>v. reader (if isSip10 r then ''sip10-zk-verifier'' else ''zk-verifier'') ''get-aggregation''
            [CvUInt (inc_domainId (rb_inclusion (base_of r))), CvUInt (inc_aggregationId (rb_inclusion (base_of r)))] = Inr v
        \<and> unwrap v \<noteq> JNull)"

lemma validate_Inr:
  "validate reader r = Inr u \<longleftrightarrow> protocol_active reader \<and> root_known reader (rootOf r)
     \<and> (\<forall>n \<in> set (nullifiersOf r). nullifier_unspent reader n) \<and> aggregation_posted reader r"
  by (auto simp: validate_def assertProtocolActive_def assertRootKnown_def assertNullifiersUnspent_def
      nullifiers_loop_Inr assertAggregationPublished_def protocol_active_def root_known_def nullifier_unspent_def
      aggregation_posted_def Let_def)

section \<open>Properties\<close>

text \<open>The validator lets an operation through exactly when the reader answers every question
  and the answers are: the protocol is active, the root the operation proves against is
  known, none of its nullifiers (both, for a merge) is spent, and its aggregation is posted
  on the verifier of its asset kind. A spent nullifier is reported as \<open>nullifier_spent\<close> with
  status 409 when the checks before it pass.\<close>

theorem validate_spec:
  "(validate reader r = Inr () \<longleftrightarrow>
      protocol_active reader \<and> root_known reader (rootOf r)
      \<and> (\<forall>n \<in> set (nullifiersOf r). nullifier_unspent reader n) \<and> aggregation_posted reader r)
   \<and> (protocol_active reader \<and> root_known reader (rootOf r) \<and> nullifiersOf r = n # ns
      \<and> reader ''privacy-registry'' ''is-nullifier-spent'' [word_of n] = Inr (JBool True)
      \<longrightarrow> validate reader r = Inl (RelayError ''nullifier_spent'' (''nullifier '' @ n @ '' already spent'') 409))"
  by (auto simp: validate_Inr) (auto simp: validate_def assertProtocolActive_def assertRootKnown_def Let_def
      protocol_active_def root_known_def assertNullifiersUnspent_def unwrap_def rguard_def)

definition demo_reader :: chain_reader where
  "demo_reader c f as =
     (if f = ''get-protocol-state'' then Inr (JObj [(''type'', JStr ''uint''), (''value'', JStr ''1'')])
      else if f = ''is-known-root'' then Inr (JObj [(''type'', JStr ''bool''), (''value'', JBool True)])
      else if f = ''is-nullifier-spent'' then Inr (JBool (as = [CvBuffer [9]]))
      else Inr (JObj [(''value'', JObj [])]))"

lemma demo_word_other: "word_of demo_word \<noteq> CvBuffer [9]"
  using isBytes32_decode(1) [OF demo_word_ok] by (auto simp: word_of_def)

lemma demo_facts:
  "protocol_active demo_reader" "root_known demo_reader (rootOf demo_request)"
  "\<forall>n \<in> set (nullifiersOf demo_request). nullifier_unspent demo_reader n"
  "aggregation_posted demo_reader demo_request"
  using demo_word_other
  by (simp_all add: protocol_active_def root_known_def nullifier_unspent_def aggregation_posted_def demo_reader_def
      unwrap_def demo_request_def)

theorem validate_spec_witness:
  "validate demo_reader demo_request = Inr ()"
  using validate_spec [of demo_reader demo_request] demo_facts by blast

end
