(* ===== verification/RelayPolicy.thy ===== *)
theory RelayPolicy
  imports RelayTypes
begin

text \<open>
  The in-process metrics (\<open>services/relayer/metrics\<close>), the spend and rate policy
  (\<open>services/relayer/fee-manager\<close>) and the fixed-window limiter of the HTTP layer
  (\<open>makeRateLimiter\<close> of \<open>services/relayer/api\<close>). The clock is an argument of each call.

  The sliding window of the fee manager never lets a client have more than \<open>maxPerWindow\<close>
  accepted calls in any window; the fixed window of the HTTP layer lets it have up to twice
  its maximum across a boundary.
\<close>

section \<open>Metrics\<close>

record metrics =
  mt_counters :: "(string, int) jsmap"
  mt_gauges :: "(string, int) jsmap"

definition new_Metrics :: metrics where
  "new_Metrics = \<lparr>mt_counters = [], mt_gauges = []\<rparr>"

definition metrics_inc :: "string \<Rightarrow> int \<Rightarrow> metrics \<Rightarrow> metrics" where
  "metrics_inc name by m =
     m\<lparr>mt_counters := jm_set name ((case jm_get (mt_counters m) name of Some v \<Rightarrow> v | None \<Rightarrow> 0) + by) (mt_counters m)\<rparr>"

definition metrics_set :: "string \<Rightarrow> int \<Rightarrow> metrics \<Rightarrow> metrics" where
  "metrics_set name value m = m\<lparr>mt_gauges := jm_set name value (mt_gauges m)\<rparr>"

definition metrics_snapshot :: "metrics \<Rightarrow> (string \<times> int) list \<times> (string \<times> int) list" where
  "metrics_snapshot m = (mt_counters m, mt_gauges m)"

fun join_lines :: "string list \<Rightarrow> string" where
  "join_lines [] = []"
| "join_lines [l] = l"
| "join_lines (l # ls) = l @ CHR 0x0A # join_lines ls"

definition prometheus :: "metrics \<Rightarrow> string" where
  "prometheus m =
     (let lines =
        concat (map (\<lambda>(k, v). [''# TYPE '' @ k @ '' counter'', k @ '' '' @ dec_of_int v]) (mt_counters m))
        @ concat (map (\<lambda>(k, v). [''# TYPE '' @ k @ '' gauge'', k @ '' '' @ dec_of_int v]) (mt_gauges m))
      in join_lines lines @ [CHR 0x0A])"

datatype metric =
    JobsAccepted | JobsConfirmed | JobsFailed | JobsDeadLettered | TxSubmitted | TxRebroadcast
  | RootsPublished | RootsSkipped | ZkverifyPollErrors | RelayerBalanceMicroStx

fun M :: "metric \<Rightarrow> string" where
  "M JobsAccepted = ''relayer_jobs_accepted_total''"
| "M JobsConfirmed = ''relayer_jobs_confirmed_total''"
| "M JobsFailed = ''relayer_jobs_failed_total''"
| "M JobsDeadLettered = ''relayer_jobs_dead_lettered_total''"
| "M TxSubmitted = ''relayer_tx_submitted_total''"
| "M TxRebroadcast = ''relayer_tx_rebroadcast_total''"
| "M RootsPublished = ''relayer_roots_published_total''"
| "M RootsSkipped = ''relayer_roots_skipped_total''"
| "M ZkverifyPollErrors = ''relayer_zkverify_poll_errors_total''"
| "M RelayerBalanceMicroStx = ''relayer_balance_microstx''"

lemma M_inj [simp]: "M a = M b \<longleftrightarrow> a = b"
  by (cases a; cases b) simp_all

definition counter :: "metric \<Rightarrow> metrics \<Rightarrow> int" where
  "counter k m = (case jm_get (mt_counters m) (M k) of Some v \<Rightarrow> v | None \<Rightarrow> 0)"

lemma counter_inc [simp]: "counter k (metrics_inc (M k') by m) = (if k = k' then counter k m + by else counter k m)"
  by (simp add: counter_def metrics_inc_def)

section \<open>The fee manager\<close>

record fee_policy =
  fp_txFeeMicroStx :: int
  fp_minBalanceMicroStx :: int
  fp_maxPerWindow :: nat
  fp_windowMs :: int

definition DEFAULT_POLICY :: fee_policy where
  "DEFAULT_POLICY = \<lparr>fp_txFeeMicroStx = 10000, fp_minBalanceMicroStx = 1000000, fp_maxPerWindow = 30,
                     fp_windowMs = 60000\<rparr>"

record fee_manager =
  fm_policy :: fee_policy
  fm_hits :: "(string, int list) jsmap"

definition new_FeeManager :: "fee_policy \<Rightarrow> fee_manager" where
  "new_FeeManager policy = \<lparr>fm_policy = policy, fm_hits = []\<rparr>"

definition txFee :: "fee_manager \<Rightarrow> int" where
  "txFee f = fp_txFeeMicroStx (fm_policy f)"

definition assertFunded :: "int \<Rightarrow> fee_manager \<Rightarrow> (relay_error, unit) result" where
  "assertFunded bal f =
     rguard (fp_minBalanceMicroStx (fm_policy f) \<le> bal)
       (RelayError ''relayer_underfunded'' ''relayer balance is too low to accept work; try another relayer'' 503)"

definition hits_of :: "string \<Rightarrow> fee_manager \<Rightarrow> int list" where
  "hits_of key f = (case jm_get (fm_hits f) key of Some ts \<Rightarrow> ts | None \<Rightarrow> [])"

definition assertWithinRate :: "int \<Rightarrow> string \<Rightarrow> fee_manager \<Rightarrow> (relay_error, unit) result \<times> fee_manager" where
  "assertWithinRate now key f =
     (let window = now - fp_windowMs (fm_policy f);
          recent = filter (\<lambda>t. window < t) (hits_of key f)
      in if fp_maxPerWindow (fm_policy f) \<le> length recent
         then (Inl (RelayError ''rate_limited'' ''too many requests; try another relayer'' 429), f)
         else (Inr (), f\<lparr>fm_hits := jm_set key (recent @ [now]) (fm_hits f)\<rparr>))"

text \<open>A run of calls \<open>(now, key)\<close>, and the times at which a client's calls were let through.\<close>

fun rate_run :: "(int \<times> string) list \<Rightarrow> fee_manager \<Rightarrow> fee_manager" where
  "rate_run [] f = f"
| "rate_run ((now, key) # cs) f = rate_run cs (snd (assertWithinRate now key f))"

fun let_through :: "string \<Rightarrow> (int \<times> string) list \<Rightarrow> fee_manager \<Rightarrow> int list" where
  "let_through k [] f = []"
| "let_through k ((now, key) # cs) f =
     (let (r, f') = assertWithinRate now key f
      in (if key = k \<and> r = Inr () then [now] else []) @ let_through k cs f')"

definition in_window :: "int \<Rightarrow> int \<Rightarrow> int list \<Rightarrow> nat" where
  "in_window w t ts = length (filter (\<lambda>s. t - w < s \<and> s \<le> t) ts)"

text \<open>
  The invariant while the clock goes forward: \<open>acc\<close> are the accepted times so far, none later
  than \<open>now\<close>; the stored hits are the recent ones among them.
\<close>

definition rate_inv :: "string \<Rightarrow> int \<Rightarrow> int list \<Rightarrow> fee_manager \<Rightarrow> bool" where
  "rate_inv k now acc f \<longleftrightarrow> (\<forall>s \<in> set acc. s \<le> now)
     \<and> (\<exists>w. w \<le> now - fp_windowMs (fm_policy f) \<and> hits_of k f = filter (\<lambda>t. w < t) acc)
     \<and> (\<forall>t. in_window (fp_windowMs (fm_policy f)) t acc \<le> fp_maxPerWindow (fm_policy f))"

lemma assertWithinRate_policy [simp]: "fm_policy (snd (assertWithinRate now key f)) = fm_policy f"
  by (simp add: assertWithinRate_def Let_def)

lemma rate_inv_step:
  assumes inv: "rate_inv k now0 acc f" and le: "now0 \<le> now" and w: "0 < fp_windowMs (fm_policy f)"
  shows "rate_inv k now
    (acc @ (if key = k \<and> fst (assertWithinRate now key f) = Inr () then [now] else []))
    (snd (assertWithinRate now key f))"
proof (cases "key = k \<and> fst (assertWithinRate now key f) = Inr ()")
  case False
  then have "hits_of k (snd (assertWithinRate now key f)) = hits_of k f"
    by (auto simp: assertWithinRate_def Let_def hits_of_def split: if_splits)
  with inv le have "rate_inv k now acc (snd (assertWithinRate now key f))"
    unfolding rate_inv_def assertWithinRate_policy by (smt (verit, best))
  with False show ?thesis by auto
next
  case True
  let ?W = "fp_windowMs (fm_policy f)" and ?max = "fp_maxPerWindow (fm_policy f)"
  from inv obtain w0 where w0: "w0 \<le> now0 - ?W" "hits_of k f = filter (\<lambda>t. w0 < t) acc"
    and old: "\<forall>s \<in> set acc. s \<le> now0" and cnt: "\<forall>t. in_window ?W t acc \<le> ?max"
    by (auto simp: rate_inv_def)
  have rec: "filter (\<lambda>t. now - ?W < t) (hits_of k f) = filter (\<lambda>t. now - ?W < t) acc"
    using w0 le by (auto simp: intro!: filter_cong)
  have lt: "length (filter (\<lambda>t. now - ?W < t) acc) < ?max"
    using True rec by (auto simp: assertWithinRate_def Let_def split: if_splits)
  have hits: "hits_of k (snd (assertWithinRate now key f)) = filter (\<lambda>t. now - ?W < t) acc @ [now]"
    using True rec lt by (simp add: assertWithinRate_def Let_def hits_of_def)
  have win: "in_window ?W t (acc @ [now]) \<le> ?max" for t
  proof (cases "t < now")
    case True
    then have "in_window ?W t (acc @ [now]) = in_window ?W t acc" by (simp add: in_window_def)
    then show ?thesis using cnt by simp
  next
    case False
    have "length (filter (\<lambda>s. t - ?W < s \<and> s \<le> t) acc) \<le> length (filter (\<lambda>s. now - ?W < s) acc)"
      using False by (induction acc) auto
    then show ?thesis using lt by (simp add: in_window_def)
  qed
  have "hits_of k (snd (assertWithinRate now key f)) = filter (\<lambda>t. now - ?W < t) (acc @ [now])"
    using hits w by simp
  with win old le True show ?thesis
    unfolding rate_inv_def assertWithinRate_policy by (auto intro!: exI [of _ "now - ?W"])
qed

fun forward :: "int \<Rightarrow> (int \<times> string) list \<Rightarrow> bool" where
  "forward now0 [] = True"
| "forward now0 ((now, key) # cs) = (now0 \<le> now \<and> forward now cs)"

lemma rate_inv_run:
  "rate_inv k now0 acc f \<Longrightarrow> forward now0 cs \<Longrightarrow> 0 < fp_windowMs (fm_policy f) \<Longrightarrow>
     in_window (fp_windowMs (fm_policy f)) t (acc @ let_through k cs f) \<le> fp_maxPerWindow (fm_policy f)"
proof (induction cs arbitrary: now0 acc f)
  case Nil
  then show ?case by (simp add: rate_inv_def)
next
  case (Cons c cs)
  obtain now key where c: "c = (now, key)" by fastforce
  let ?f = "snd (assertWithinRate now key f)"
  let ?new = "if key = k \<and> fst (assertWithinRate now key f) = Inr () then [now] else []"
  have "rate_inv k now (acc @ ?new) ?f"
    using rate_inv_step Cons.prems c by auto
  with Cons.IH [of now "acc @ ?new" ?f] Cons.prems c show ?case
    by (simp add: case_prod_beta Let_def)
qed

section \<open>The fixed-window limiter\<close>

record window_entry =
  we_count :: nat
  we_resetAt :: int

type_synonym limiter = "(string, window_entry) jsmap"

definition allow :: "nat \<Rightarrow> int \<Rightarrow> int \<Rightarrow> string \<Rightarrow> limiter \<Rightarrow> bool \<times> limiter" where
  "allow mx windowMs now key hits =
     (case jm_get hits key of
        None \<Rightarrow> (True, jm_set key \<lparr>we_count = 1, we_resetAt = now + windowMs\<rparr> hits)
      | Some e \<Rightarrow>
          if we_resetAt e < now
          then (True, jm_set key \<lparr>we_count = 1, we_resetAt = now + windowMs\<rparr> hits)
          else if mx \<le> we_count e then (False, hits)
          else (True, jm_set key (e\<lparr>we_count := we_count e + 1\<rparr>) hits))"

fun allow_run :: "nat \<Rightarrow> int \<Rightarrow> (int \<times> string) list \<Rightarrow> limiter \<Rightarrow> bool list \<times> limiter" where
  "allow_run mx windowMs [] h = ([], h)"
| "allow_run mx windowMs ((now, key) # cs) h =
     (let (ok, h1) = allow mx windowMs now key h; (oks, h2) = allow_run mx windowMs cs h1 in (ok # oks, h2))"

lemma allow_run_append:
  "allow_run mx w (xs @ ys) h =
     (let (a, h1) = allow_run mx w xs h; (b, h2) = allow_run mx w ys h1 in (a @ b, h2))"
  by (induction xs arbitrary: h) (auto simp: case_prod_beta Let_def)

text \<open>Calls inside the window are let through until the count is reached.\<close>

lemma allow_fill:
  "jm_get h k = Some \<lparr>we_count = c, we_resetAt = r\<rparr> \<Longrightarrow> c + n \<le> mx \<Longrightarrow> now \<le> r \<Longrightarrow>
     \<exists>h'. allow_run mx w (replicate n (now, k)) h = (replicate n True, h')
        \<and> jm_get h' k = Some \<lparr>we_count = c + n, we_resetAt = r\<rparr>"
proof (induction n arbitrary: c h)
  case (Suc n)
  let ?h = "jm_set k \<lparr>we_count = Suc c, we_resetAt = r\<rparr> h"
  have "jm_get ?h k = Some \<lparr>we_count = Suc c, we_resetAt = r\<rparr>" by simp
  from Suc.IH [OF this] Suc.prems
  obtain h' where "allow_run mx w (replicate n (now, k)) ?h = (replicate n True, h')"
    "jm_get h' k = Some \<lparr>we_count = Suc c + n, we_resetAt = r\<rparr>" by auto
  with Suc.prems show ?case by (simp add: allow_def)
qed simp

section \<open>Properties\<close>

text \<open>The fee manager's rate limit is a true sliding window: while the clock does not go back,
  whatever the calls of all clients, at no time does a client have more than
  \<open>maxPerWindow\<close> calls let through in the last \<open>windowMs\<close> milliseconds.\<close>

theorem sliding_window_limit:
  assumes "forward now0 cs" "0 < fp_windowMs policy"
  shows "in_window (fp_windowMs policy) t (let_through k cs (new_FeeManager policy)) \<le> fp_maxPerWindow policy"
proof -
  have "rate_inv k now0 [] (new_FeeManager policy)"
    by (auto simp: rate_inv_def new_FeeManager_def hits_of_def in_window_def intro!: exI [of _ "now0 - fp_windowMs policy"])
  from rate_inv_run [OF this assms(1), of t] assms(2) show ?thesis by (simp add: new_FeeManager_def)
qed

theorem sliding_window_limit_witness:
  "in_window 60000 1002 (let_through ''a'' [(1000, ''a''), (1001, ''b''), (1002, ''a'')] (new_FeeManager DEFAULT_POLICY)) \<le> 30"
  using sliding_window_limit [of 1000 "[(1000, ''a''), (1001, ''b''), (1002, ''a'')]" DEFAULT_POLICY 1002 "''a''"]
  by (simp add: DEFAULT_POLICY_def)

text \<open>The limiter of \<open>POST /submit\<close> counts in fixed windows, so it can let through twice its
  maximum within two milliseconds around a boundary: with a fresh entry made at time 0, a
  client that sends \<open>mx - 1\<close> further calls at the end of the window and \<open>mx\<close> calls just
  after it has all of them let through, for every maximum and every window length.\<close>

theorem fixed_window_double_burst:
  assumes "0 < mx" "0 \<le> w"
  shows "fst (allow_run mx w ([(0, k)] @ replicate (mx - 1) (w, k) @ replicate mx (w + 1, k)) [])
    = replicate (2 * mx) True"
proof -
  let ?h1 = "jm_set k \<lparr>we_count = 1, we_resetAt = w\<rparr> []"
  obtain h2 where h2: "allow_run mx w (replicate (mx - 1) (w, k)) ?h1 = (replicate (mx - 1) True, h2)"
    "jm_get h2 k = Some \<lparr>we_count = mx, we_resetAt = w\<rparr>"
    using allow_fill [of ?h1 k 1 w "mx - 1" mx w w] assms by auto
  let ?h3 = "jm_set k \<lparr>we_count = 1, we_resetAt = w + 1 + w\<rparr> h2"
  obtain h4 where h4: "allow_run mx w (replicate (mx - 1) (w + 1, k)) ?h3 = (replicate (mx - 1) True, h4)"
    using allow_fill [of ?h3 k 1 "w + 1 + w" "mx - 1" mx "w + 1" w] assms by auto
  have last: "allow_run mx w (replicate mx (w + 1, k)) h2 = (replicate mx True, h4)"
    using assms(1) h2(2) h4 by (cases mx) (simp_all add: allow_def)
  have first: "allow_run mx w [(0, k)] [] = ([True], ?h1)" by (simp add: allow_def)
  have "[True] @ replicate (mx - 1) True @ replicate mx True = replicate (2 * mx) True"
    using assms(1) by (cases mx) (simp_all add: mult_2 replicate_add [symmetric] flip: replicate_Suc)
  then show ?thesis unfolding allow_run_append first using h2 last by (simp add: allow_run_append)
qed

theorem fixed_window_double_burst_witness:
  "fst (allow_run 20 60000 ([(0, ''ip'')] @ replicate 19 (60000, ''ip'') @ replicate 20 (60001, ''ip'')) [])
     = replicate 40 True"
  using fixed_window_double_burst [of 20 60000 "''ip''"] by simp

end
