(* ===== verification/JobQueue.thy ===== *)
theory JobQueue
  imports RelayPolicy
begin

text \<open>
  The job queue of the relayer, \<open>services/relayer/queue\<close>: the in-memory driver and the part of
  the BullMQ driver that keeps the job table.

  \<open>MemoryQueue\<close> is a state machine. Its \<open>drain\<close> loop awaits the handler, and between the call
  of the handler and its end other calls may run; \<open>mq_running\<close> holds the job whose handler is
  awaited. Every synchronous stretch of the code is one step: \<open>add\<close> with the start of the
  loop, the loop head up to the handler call, the continuation after the handler's end. The
  handler's own updates (\<open>Handle_update\<close>) never touch the attempts, as in \<open>run\<close>.
\<close>

section \<open>Jobs\<close>

record relay_job =
  rj_id :: string
  rj_operation :: operation
  rj_request :: relay_request
  rj_state :: job_state
  rj_txid :: "string option"
  rj_error :: "string option"
  rj_attempts :: nat
  rj_createdAt :: int
  rj_updatedAt :: int

text \<open>\<open>Partial<RelayJob>\<close>: the fields a patch sets. \<open>Some None\<close> clears the error.\<close>

record job_patch =
  jp_state :: "job_state option"
  jp_txid :: "string option"
  jp_error :: "string option option"
  jp_attempts :: "nat option"

definition no_patch :: job_patch where
  "no_patch = \<lparr>jp_state = None, jp_txid = None, jp_error = None, jp_attempts = None\<rparr>"

text \<open>\<open>{ ...job, ...patch, updatedAt: now }\<close>\<close>

definition apply_patch :: "int \<Rightarrow> job_patch \<Rightarrow> relay_job \<Rightarrow> relay_job" where
  "apply_patch now p j =
     j\<lparr>rj_state := (case jp_state p of None \<Rightarrow> rj_state j | Some s \<Rightarrow> s),
       rj_txid := (case jp_txid p of None \<Rightarrow> rj_txid j | Some t \<Rightarrow> Some t),
       rj_error := (case jp_error p of None \<Rightarrow> rj_error j | Some e \<Rightarrow> e),
       rj_attempts := (case jp_attempts p of None \<Rightarrow> rj_attempts j | Some a \<Rightarrow> a),
       rj_updatedAt := now\<rparr>"

text \<open>\<open>newJob\<close>; the random part of the identifier is an argument.\<close>

definition newJob :: "string \<Rightarrow> int \<Rightarrow> operation \<Rightarrow> relay_request \<Rightarrow> relay_job" where
  "newJob uniq now op req =
     \<lparr>rj_id = operation_name op @ ''-'' @ uniq, rj_operation = op, rj_request = req, rj_state = Queued,
      rj_txid = None, rj_error = None, rj_attempts = 0, rj_createdAt = now, rj_updatedAt = now\<rparr>"

section \<open>The in-memory driver\<close>

record memory_queue =
  mq_jobs :: "(string, relay_job) jsmap"
  mq_pending :: "string list"
  mq_dead :: "string list"
  mq_handler :: bool
  mq_draining :: bool
  mq_closed :: bool
  mq_max :: nat
  mq_running :: "string option"

definition new_MemoryQueue :: "nat \<Rightarrow> memory_queue" where
  "new_MemoryQueue maxAttempts =
     \<lparr>mq_jobs = [], mq_pending = [], mq_dead = [], mq_handler = False, mq_draining = False,
      mq_closed = False, mq_max = maxAttempts, mq_running = None\<rparr>"

definition mq_deadLetter :: "memory_queue \<Rightarrow> relay_job list" where
  "mq_deadLetter q = List.map_filter (\<lambda>jid. jm_get (mq_jobs q) jid) (mq_dead q)"

definition mq_get :: "string \<Rightarrow> memory_queue \<Rightarrow> relay_job option" where
  "mq_get jid q = jm_get (mq_jobs q) jid"

definition mq_update :: "int \<Rightarrow> string \<Rightarrow> job_patch \<Rightarrow> memory_queue \<Rightarrow> memory_queue" where
  "mq_update now jid p q =
     (case jm_get (mq_jobs q) jid of
        None \<Rightarrow> q
      | Some job \<Rightarrow> q\<lparr>mq_jobs := jm_set jid (apply_patch now p job) (mq_jobs q)\<rparr>)"

text \<open>The guard of \<open>drain\<close>: it starts only when it is not running, has a handler and is open.\<close>

definition mq_drain_start :: "memory_queue \<Rightarrow> memory_queue" where
  "mq_drain_start q =
     (if mq_draining q \<or> \<not> mq_handler q \<or> mq_closed q then q else q\<lparr>mq_draining := True\<rparr>)"

definition mq_add :: "string \<Rightarrow> int \<Rightarrow> operation \<Rightarrow> relay_request \<Rightarrow> memory_queue \<Rightarrow> relay_job \<times> memory_queue" where
  "mq_add uniq now op req q =
     (let job = newJob uniq now op req;
          q1 = q\<lparr>mq_jobs := jm_set (rj_id job) job (mq_jobs q), mq_pending := mq_pending q @ [rj_id job]\<rparr>
      in (job, mq_drain_start q1))"

definition mq_process :: "memory_queue \<Rightarrow> memory_queue" where
  "mq_process q = mq_drain_start (q\<lparr>mq_handler := True\<rparr>)"

definition mq_close :: "memory_queue \<Rightarrow> memory_queue" where
  "mq_close q = q\<lparr>mq_closed := True\<rparr>"

text \<open>
  The loop head: while there is a pending job and the queue is open, shift one and, if the
  table knows it, call the handler with it (its identifier is returned); otherwise the
  \<open>finally\<close> block ends the loop.
\<close>

fun mq_shift :: "(string, relay_job) jsmap \<Rightarrow> string list \<Rightarrow> string option \<times> string list" where
  "mq_shift jobs [] = (None, [])"
| "mq_shift jobs (jid # ids) = (if jm_get jobs jid \<noteq> None then (Some jid, ids) else mq_shift jobs ids)"

definition mq_loop_head :: "memory_queue \<Rightarrow> memory_queue" where
  "mq_loop_head q =
     (if mq_closed q then q\<lparr>mq_draining := False\<rparr>
      else
        (case mq_shift (mq_jobs q) (mq_pending q) of
           (None, ids) \<Rightarrow> q\<lparr>mq_pending := ids, mq_draining := False\<rparr>
         | (Some jid, ids) \<Rightarrow> q\<lparr>mq_pending := ids, mq_running := Some jid\<rparr>))"

text \<open>The \<open>catch\<close> block; the flag says that the dead-letter metric was counted.\<close>

definition mq_catch :: "int \<Rightarrow> string \<Rightarrow> string \<Rightarrow> memory_queue \<Rightarrow> memory_queue \<times> bool" where
  "mq_catch now jid msg q =
     (let current = the (jm_get (mq_jobs q) jid);
          attempts = rj_attempts current + 1
      in if attempts < mq_max q
         then (let q1 = mq_update now jid (no_patch\<lparr>jp_attempts := Some attempts, jp_state := Some Queued\<rparr>) q
               in (q1\<lparr>mq_pending := mq_pending q1 @ [jid]\<rparr>, False))
         else (let q1 = mq_update now jid
                     (no_patch\<lparr>jp_attempts := Some attempts, jp_state := Some Failed, jp_error := Some (Some msg)\<rparr>) q
               in (q1\<lparr>mq_dead := mq_dead q1 @ [jid]\<rparr>, True)))"

section \<open>The step relation\<close>

datatype mq_label =
    Add string
  | Process
  | Take string
  | Handle_update string job_patch
  | Handler_ok string
  | Handler_throws string string
  | Drained
  | Close

inductive mq_step :: "memory_queue \<Rightarrow> mq_label \<Rightarrow> memory_queue \<Rightarrow> bool" where
  add: "jm_get (mq_jobs q) (rj_id (newJob uniq now op req)) = None \<Longrightarrow>
        mq_step q (Add (rj_id (newJob uniq now op req))) (snd (mq_add uniq now op req q))"
| process: "mq_step q Process (mq_process q)"
| take: "mq_draining q \<Longrightarrow> mq_running q = None \<Longrightarrow> mq_running (mq_loop_head q) = Some jid \<Longrightarrow>
        mq_step q (Take jid) (mq_loop_head q)"
| handle: "mq_running q = Some jid \<Longrightarrow> jp_attempts p = None \<Longrightarrow>
        mq_step q (Handle_update jid p) (mq_update now jid p q)"
| ok: "mq_running q = Some jid \<Longrightarrow> mq_step q (Handler_ok jid) (q\<lparr>mq_running := None\<rparr>)"
| throws: "mq_running q = Some jid \<Longrightarrow>
        mq_step q (Handler_throws jid msg) ((fst (mq_catch now jid msg q))\<lparr>mq_running := None\<rparr>)"
| drained: "mq_draining q \<Longrightarrow> mq_running q = None \<Longrightarrow> mq_running (mq_loop_head q) = None \<Longrightarrow>
        mq_step q Drained (mq_loop_head q)"
| close: "mq_step q Close (mq_close q)"

inductive_cases mq_step_cases: "mq_step q l q'"

inductive mq_run :: "memory_queue \<Rightarrow> mq_label list \<Rightarrow> memory_queue \<Rightarrow> bool" where
  start: "mq_run q [] q"
| step: "mq_run q ls q' \<Longrightarrow> mq_step q' l q'' \<Longrightarrow> mq_run q (ls @ [l]) q''"

definition takes :: "string \<Rightarrow> mq_label list \<Rightarrow> nat" where
  "takes jid ls = length (filter (\<lambda>l. l = Take jid) ls)"

definition finished :: "string \<Rightarrow> mq_label list \<Rightarrow> nat" where
  "finished jid ls = length (filter (\<lambda>l. l = Handler_ok jid) ls)"

lemma takes_simps [simp]:
  "takes jid [] = 0" "takes jid (ls @ [l]) = takes jid ls + (if l = Take jid then 1 else 0)"
  by (simp_all add: takes_def)

lemma finished_simps [simp]:
  "finished jid [] = 0" "finished jid (ls @ [l]) = finished jid ls + (if l = Handler_ok jid then 1 else 0)"
  by (simp_all add: finished_def)

section \<open>Facts of the operations\<close>

lemma apply_patch_attempts:
  "rj_attempts (apply_patch now p j) = (case jp_attempts p of None \<Rightarrow> rj_attempts j | Some a \<Rightarrow> a)"
  "rj_state (apply_patch now p j) = (case jp_state p of None \<Rightarrow> rj_state j | Some s \<Rightarrow> s)"
  "rj_error (apply_patch now p j) = (case jp_error p of None \<Rightarrow> rj_error j | Some e \<Rightarrow> e)"
  "rj_txid (apply_patch now p j) = (case jp_txid p of None \<Rightarrow> rj_txid j | Some t \<Rightarrow> Some t)"
  "rj_request (apply_patch now p j) = rj_request j" "rj_operation (apply_patch now p j) = rj_operation j"
  "rj_id (apply_patch now p j) = rj_id j"
  by (simp_all add: apply_patch_def)

lemma mq_update_get:
  "jm_get (mq_jobs (mq_update now jid p q)) k =
     (if k = jid then map_option (apply_patch now p) (jm_get (mq_jobs q) jid) else jm_get (mq_jobs q) k)"
  by (auto simp: mq_update_def split: option.splits)

lemma mq_update_fields [simp]:
  "mq_pending (mq_update now jid p q) = mq_pending q" "mq_dead (mq_update now jid p q) = mq_dead q"
  "mq_handler (mq_update now jid p q) = mq_handler q" "mq_draining (mq_update now jid p q) = mq_draining q"
  "mq_closed (mq_update now jid p q) = mq_closed q" "mq_max (mq_update now jid p q) = mq_max q"
  "mq_running (mq_update now jid p q) = mq_running q"
  by (simp_all add: mq_update_def split: option.split)

lemma mq_drain_start_fields [simp]:
  "mq_pending (mq_drain_start q) = mq_pending q" "mq_dead (mq_drain_start q) = mq_dead q"
  "mq_handler (mq_drain_start q) = mq_handler q" "mq_jobs (mq_drain_start q) = mq_jobs q"
  "mq_closed (mq_drain_start q) = mq_closed q" "mq_max (mq_drain_start q) = mq_max q"
  "mq_running (mq_drain_start q) = mq_running q"
  "mq_draining (mq_drain_start q) = (mq_draining q \<or> (mq_handler q \<and> \<not> mq_closed q))"
  by (auto simp: mq_drain_start_def)

lemma mq_shift_all_known:
  "\<forall>jid \<in> set ids. jm_get jobs jid \<noteq> None \<Longrightarrow>
     mq_shift jobs ids = (case ids of [] \<Rightarrow> (None, []) | jid # rest \<Rightarrow> (Some jid, rest))"
  by (cases ids) auto

text \<open>The queue as a keyed table: what \<open>status\<close> and \<open>run\<close> rely on.\<close>

locale queue_driver =
  fixes get :: "string \<Rightarrow> 'q \<Rightarrow> relay_job option"
    and add :: "relay_job \<Rightarrow> 'q \<Rightarrow> 'q"
    and update :: "int \<Rightarrow> string \<Rightarrow> job_patch \<Rightarrow> 'q \<Rightarrow> 'q"
  assumes get_add: "get k (add j q) = (if k = rj_id j then Some j else get k q)"
    and get_update: "get k (update now jid p q) = (if k = jid then map_option (apply_patch now p) (get jid q) else get k q)"
begin

lemma update_keeps_request:
  "get k q = Some j \<Longrightarrow> \<exists>j'. get k (update now jid p q) = Some j' \<and> rj_request j' = rj_request j
     \<and> rj_operation j' = rj_operation j \<and> rj_id j' = rj_id j"
  by (auto simp: get_update apply_patch_attempts)

lemma update_state: "get jid q = Some j \<Longrightarrow> jp_state p = Some s \<Longrightarrow>
    map_option rj_state (get jid (update now jid p q)) = Some s"
  by (simp add: get_update apply_patch_attempts)

lemma update_unknown: "get jid q = None \<Longrightarrow> get k (update now jid p q) = get k q"
  by (simp add: get_update)

end

definition mq_add_job :: "relay_job \<Rightarrow> memory_queue \<Rightarrow> memory_queue" where
  "mq_add_job job q =
     mq_drain_start (q\<lparr>mq_jobs := jm_set (rj_id job) job (mq_jobs q), mq_pending := mq_pending q @ [rj_id job]\<rparr>)"

lemma mq_add_add_job: "mq_add uniq now op req q = (newJob uniq now op req, mq_add_job (newJob uniq now op req) q)"
  by (simp add: mq_add_def mq_add_job_def Let_def)

interpretation mq: queue_driver mq_get mq_add_job mq_update
  by unfold_locales (simp_all add: mq_get_def mq_add_job_def mq_update_get)

text \<open>The job table of the BullMQ driver; Redis and the worker belong to the package.\<close>

type_synonym bull_jobs = "(string, relay_job) jsmap"

definition bull_get :: "string \<Rightarrow> bull_jobs \<Rightarrow> relay_job option" where
  "bull_get jid jobs = jm_get jobs jid"

definition bull_add_job :: "relay_job \<Rightarrow> bull_jobs \<Rightarrow> bull_jobs" where
  "bull_add_job job jobs = jm_set (rj_id job) job jobs"

definition bull_add :: "string \<Rightarrow> int \<Rightarrow> operation \<Rightarrow> relay_request \<Rightarrow> bull_jobs \<Rightarrow> relay_job \<times> bull_jobs" where
  "bull_add uniq now op req jobs = (let job = newJob uniq now op req in (job, bull_add_job job jobs))"

definition bull_update :: "int \<Rightarrow> string \<Rightarrow> job_patch \<Rightarrow> bull_jobs \<Rightarrow> bull_jobs" where
  "bull_update now jid p jobs =
     (case jm_get jobs jid of None \<Rightarrow> jobs | Some job \<Rightarrow> jm_set jid (apply_patch now p job) jobs)"

interpretation bull: queue_driver bull_get bull_add_job bull_update
  by unfold_locales (auto simp: bull_get_def bull_add_job_def bull_update_def split: option.splits)

section \<open>The invariant\<close>

definition running_list :: "memory_queue \<Rightarrow> string list" where
  "running_list q = (case mq_running q of None \<Rightarrow> [] | Some jid \<Rightarrow> [jid])"

definition queue_inv :: "memory_queue \<Rightarrow> bool" where
  "queue_inv q \<longleftrightarrow> 1 \<le> mq_max q \<and> distinct (mq_pending q @ mq_dead q @ running_list q)
     \<and> (mq_running q \<noteq> None \<longrightarrow> mq_draining q)
     \<and> (\<not> mq_draining q \<and> mq_handler q \<and> \<not> mq_closed q \<longrightarrow> mq_pending q = [])"

text \<open>
  Each job the table knows is pending, running, dead or finished, and how often its handler
  was called is its attempts plus one if it is running or finished.
\<close>

definition job_inv :: "mq_label list \<Rightarrow> memory_queue \<Rightarrow> string \<Rightarrow> bool" where
  "job_inv ls q jid \<longleftrightarrow>
     (case jm_get (mq_jobs q) jid of
        None \<Rightarrow> jid \<notin> set (mq_pending q) \<and> jid \<notin> set (mq_dead q) \<and> mq_running q \<noteq> Some jid
          \<and> takes jid ls = 0 \<and> finished jid ls = 0
      | Some j \<Rightarrow>
          takes jid ls = rj_attempts j + finished jid ls + (if mq_running q = Some jid then 1 else 0)
          \<and> (if jid \<in> set (mq_pending q) \<or> mq_running q = Some jid
             then rj_attempts j < mq_max q \<and> finished jid ls = 0
             else if jid \<in> set (mq_dead q)
             then rj_attempts j = mq_max q \<and> finished jid ls = 0 \<and> rj_state j = Failed
             else rj_attempts j < mq_max q \<and> finished jid ls = 1))"

definition mq_inv :: "mq_label list \<Rightarrow> memory_queue \<Rightarrow> bool" where
  "mq_inv ls q \<longleftrightarrow> queue_inv q \<and> (\<forall>jid. job_inv ls q jid)"

lemma inv_known:
  assumes "job_inv ls q jid" "jid \<in> set (mq_pending q) \<or> jid \<in> set (mq_dead q) \<or> mq_running q = Some jid"
  obtains j where "jm_get (mq_jobs q) jid = Some j"
  using assms by (auto simp: job_inv_def split: option.splits)

lemma pending_known: "mq_inv ls q \<Longrightarrow> \<forall>jid \<in> set (mq_pending q). jm_get (mq_jobs q) jid \<noteq> None"
  unfolding mq_inv_def by (metis inv_known option.distinct(1))

lemma loop_head_inv:
  "mq_inv ls q \<Longrightarrow> mq_loop_head q =
     (if mq_closed q then q\<lparr>mq_draining := False\<rparr>
      else (case mq_pending q of
              [] \<Rightarrow> q\<lparr>mq_draining := False\<rparr>
            | jid # rest \<Rightarrow> q\<lparr>mq_pending := rest, mq_running := Some jid\<rparr>))"
  using mq_shift_all_known [OF pending_known [of ls q]]
  by (auto simp: mq_loop_head_def split: list.splits)

lemma job_inv_same:
  "mq_jobs q' = mq_jobs q \<Longrightarrow> mq_pending q' = mq_pending q \<Longrightarrow> mq_dead q' = mq_dead q \<Longrightarrow>
   mq_running q' = mq_running q \<Longrightarrow> mq_max q' = mq_max q \<Longrightarrow> takes jid ls' = takes jid ls \<Longrightarrow>
   finished jid ls' = finished jid ls \<Longrightarrow> job_inv ls' q' jid = job_inv ls q jid"
  by (cases "jm_get (mq_jobs q) jid") (simp_all add: job_inv_def)

lemma inv_start: "1 \<le> mx \<Longrightarrow> mq_inv [] (new_MemoryQueue mx)"
  by (simp add: mq_inv_def queue_inv_def job_inv_def new_MemoryQueue_def running_list_def)

lemma inv_add:
  assumes inv: "mq_inv ls q" and fresh: "jm_get (mq_jobs q) (rj_id j) = None"
    and j: "rj_attempts j = 0"
  shows "mq_inv (ls @ [Add (rj_id j)]) (mq_add_job j q)"
proof -
  have new: "job_inv ls q (rj_id j)" using inv by (simp add: mq_inv_def)
  have qi: "queue_inv q" using inv by (simp add: mq_inv_def)
  have mx: "1 \<le> mq_max q" using qi by (simp add: queue_inv_def)
  have "queue_inv (mq_add_job j q)"
    using qi new fresh
    by (auto simp: queue_inv_def job_inv_def mq_add_job_def running_list_def split: option.splits)
  moreover have "job_inv (ls @ [Add (rj_id j)]) (mq_add_job j q) jid" for jid
  proof (cases "jid = rj_id j")
    case True
    with new fresh mx j show ?thesis by (simp add: job_inv_def mq_add_job_def)
  next
    case False
    have "job_inv ls q jid" using inv by (simp add: mq_inv_def)
    with False show ?thesis by (auto simp: job_inv_def mq_add_job_def split: option.splits if_splits)
  qed
  ultimately show ?thesis by (simp add: mq_inv_def)
qed

lemma inv_process: "mq_inv ls q \<Longrightarrow> mq_inv (ls @ [Process]) (mq_process q)"
proof -
  assume inv: "mq_inv ls q"
  have "job_inv (ls @ [Process]) (mq_process q) jid = job_inv ls q jid" for jid
    by (rule job_inv_same) (simp_all add: mq_process_def)
  with inv show ?thesis by (auto simp: mq_inv_def queue_inv_def mq_process_def running_list_def)
qed

lemma inv_close: "mq_inv ls q \<Longrightarrow> mq_inv (ls @ [Close]) (mq_close q)"
proof -
  assume inv: "mq_inv ls q"
  have "job_inv (ls @ [Close]) (mq_close q) jid = job_inv ls q jid" for jid
    by (rule job_inv_same) (simp_all add: mq_close_def)
  with inv show ?thesis by (auto simp: mq_inv_def queue_inv_def mq_close_def running_list_def)
qed

lemma inv_take:
  assumes inv: "mq_inv ls q" and "mq_draining q" "mq_running q = None" "mq_running (mq_loop_head q) = Some jid"
  shows "mq_inv (ls @ [Take jid]) (mq_loop_head q)"
proof -
  from assms loop_head_inv [OF inv] obtain rest where
    p: "mq_pending q = jid # rest" "mq_loop_head q = q\<lparr>mq_pending := rest, mq_running := Some jid\<rparr>"
    by (auto split: if_splits list.splits)
  have qi: "queue_inv q" and ji: "\<And>k. job_inv ls q k" using inv by (simp_all add: mq_inv_def)
  have d: "distinct (jid # rest @ mq_dead q)" using qi p assms(3) by (simp add: queue_inv_def running_list_def)
  have "queue_inv (mq_loop_head q)"
    using qi p assms(2) d by (auto simp: queue_inv_def running_list_def)
  moreover have "job_inv (ls @ [Take jid]) (mq_loop_head q) k" for k
    using ji [of k] p assms(3) d by (cases "k = jid") (auto simp: job_inv_def split: option.splits if_splits)
  ultimately show ?thesis by (simp add: mq_inv_def)
qed

lemma inv_drained:
  assumes inv: "mq_inv ls q" and "mq_draining q" "mq_running q = None" "mq_running (mq_loop_head q) = None"
  shows "mq_inv (ls @ [Drained]) (mq_loop_head q)"
proof -
  have h: "mq_loop_head q = q\<lparr>mq_draining := False\<rparr>" "mq_closed q \<or> mq_pending q = []"
    using assms(3,4) loop_head_inv [OF inv] by (auto split: list.splits if_splits)
  have "job_inv (ls @ [Drained]) (mq_loop_head q) jid = job_inv ls q jid" for jid
    by (rule job_inv_same) (simp_all add: h(1))
  with inv h assms(3) show ?thesis by (auto simp: mq_inv_def queue_inv_def running_list_def)
qed

lemma inv_handle:
  assumes inv: "mq_inv ls q" and run: "mq_running q = Some jid" and p: "jp_attempts p = None"
  shows "mq_inv (ls @ [Handle_update jid p]) (mq_update now jid p q)"
proof -
  have qi: "queue_inv q" and ji: "\<And>k. job_inv ls q k" using inv by (simp_all add: mq_inv_def)
  have "jid \<notin> set (mq_dead q)" using qi run by (simp add: queue_inv_def running_list_def)
  then have "job_inv (ls @ [Handle_update jid p]) (mq_update now jid p q) k" for k
    using ji [of k] run p
    by (cases "k = jid") (auto simp: job_inv_def mq_update_get apply_patch_attempts split: option.splits if_splits)
  with qi show ?thesis by (simp add: mq_inv_def queue_inv_def running_list_def)
qed

lemma inv_ok:
  assumes inv: "mq_inv ls q" and run: "mq_running q = Some jid"
  shows "mq_inv (ls @ [Handler_ok jid]) (q\<lparr>mq_running := None\<rparr>)"
proof -
  have qi: "queue_inv q" and ji: "\<And>k. job_inv ls q k" using inv by (simp_all add: mq_inv_def)
  have out: "jid \<notin> set (mq_dead q)" "jid \<notin> set (mq_pending q)"
    using qi run by (auto simp: queue_inv_def running_list_def)
  have "job_inv (ls @ [Handler_ok jid]) (q\<lparr>mq_running := None\<rparr>) k" for k
    using ji [of k] run out by (cases "k = jid") (auto simp: job_inv_def split: option.splits if_splits)
  with qi run show ?thesis by (auto simp: mq_inv_def queue_inv_def running_list_def)
qed

lemma mq_catch_fields [simp]:
  "mq_running (fst (mq_catch now jid msg q)) = mq_running q"
  "mq_draining (fst (mq_catch now jid msg q)) = mq_draining q"
  "mq_closed (fst (mq_catch now jid msg q)) = mq_closed q"
  "mq_max (fst (mq_catch now jid msg q)) = mq_max q"
  "mq_handler (fst (mq_catch now jid msg q)) = mq_handler q"
  by (simp_all add: mq_catch_def Let_def)

lemma inv_throws:
  assumes inv: "mq_inv ls q" and run: "mq_running q = Some jid"
  shows "mq_inv (ls @ [Handler_throws jid msg]) ((fst (mq_catch now jid msg q))\<lparr>mq_running := None\<rparr>)"
proof -
  let ?q = "(fst (mq_catch now jid msg q))\<lparr>mq_running := None\<rparr>"
  have qi: "queue_inv q" and ji: "\<And>k. job_inv ls q k" using inv by (simp_all add: mq_inv_def)
  have out: "jid \<notin> set (mq_dead q)" "jid \<notin> set (mq_pending q)"
    using qi run by (auto simp: queue_inv_def running_list_def)
  obtain j where j: "jm_get (mq_jobs q) jid = Some j" using inv_known [OF ji] run by blast
  have at: "rj_attempts j < mq_max q" "finished jid ls = 0" "takes jid ls = rj_attempts j + 1"
    using ji [of jid] j run by (auto simp: job_inv_def)
  have "job_inv (ls @ [Handler_throws jid msg]) ?q k" for k
  proof (cases "k = jid")
    case True
    with at j out run show ?thesis
      by (auto simp: job_inv_def mq_catch_def Let_def mq_update_get apply_patch_attempts no_patch_def)
  next
    case False
    with ji [of k] run show ?thesis
      by (auto simp: job_inv_def mq_catch_def Let_def mq_update_get split: option.splits if_splits)
  qed
  moreover have "queue_inv ?q"
    using qi run out by (auto simp: queue_inv_def running_list_def mq_catch_def Let_def)
  ultimately show ?thesis by (simp add: mq_inv_def)
qed

lemma mq_step_inv: "mq_step q l q' \<Longrightarrow> mq_inv ls q \<Longrightarrow> mq_inv (ls @ [l]) q'"
proof (induction rule: mq_step.induct)
  case (add q uniq now op req)
  then show ?case
    using inv_add [of ls q "newJob uniq now op req"] by (simp add: mq_add_add_job newJob_def)
qed (simp_all add: inv_process inv_take inv_handle inv_ok inv_throws inv_drained inv_close)

lemma mq_run_inv: "mq_run q ls q' \<Longrightarrow> mq_inv [] q \<Longrightarrow> mq_inv ls q'"
  by (induction rule: mq_run.induct) (auto intro: mq_step_inv)

section \<open>Draining\<close>

text \<open>
  The loop run to its end, when nothing else is called meanwhile. \<open>calls n\<close> says how the
  \<open>n\<close>th call of the handler ends (\<open>None\<close> for success, \<open>Some msg\<close> for a thrown error) and
  with which patches of its own; \<open>None\<close> is a loop that has not ended within the fuel.
\<close>

fun apply_patches :: "string \<Rightarrow> job_patch list \<Rightarrow> memory_queue \<Rightarrow> memory_queue" where
  "apply_patches jid [] q = q"
| "apply_patches jid (p # ps) q = apply_patches jid ps (mq_update 0 jid (p\<lparr>jp_attempts := None\<rparr>) q)"

fun drain :: "(nat \<Rightarrow> relay_job \<Rightarrow> job_patch list \<times> string option) \<Rightarrow> nat \<Rightarrow> nat \<Rightarrow> memory_queue \<Rightarrow> memory_queue option" where
  "drain calls 0 n q = None"
| "drain calls (Suc fuel) n q =
     (let q1 = mq_loop_head q in
      case mq_running q1 of
        None \<Rightarrow> Some q1
      | Some jid \<Rightarrow>
          (let (ps, outcome) = calls n (the (jm_get (mq_jobs q1) jid));
               q2 = apply_patches jid ps q1
           in drain calls fuel (n + 1)
                (case outcome of
                   None \<Rightarrow> q2\<lparr>mq_running := None\<rparr>
                 | Some msg \<Rightarrow> (fst (mq_catch 0 jid msg q2))\<lparr>mq_running := None\<rparr>)))"

text \<open>How many handler calls the pending jobs can still cost.\<close>

definition work :: "memory_queue \<Rightarrow> nat" where
  "work q = sum_list (map (\<lambda>jid. mq_max q - rj_attempts (the (jm_get (mq_jobs q) jid))) (mq_pending q))"

lemma apply_patches_fields [simp]:
  "mq_pending (apply_patches jid ps q) = mq_pending q" "mq_dead (apply_patches jid ps q) = mq_dead q"
  "mq_handler (apply_patches jid ps q) = mq_handler q" "mq_draining (apply_patches jid ps q) = mq_draining q"
  "mq_closed (apply_patches jid ps q) = mq_closed q" "mq_max (apply_patches jid ps q) = mq_max q"
  "mq_running (apply_patches jid ps q) = mq_running q"
  by (induction ps arbitrary: q) simp_all

lemma apply_patches_attempts:
  "map_option rj_attempts (jm_get (mq_jobs (apply_patches jid ps q)) k) = map_option rj_attempts (jm_get (mq_jobs q) k)"
proof (induction ps arbitrary: q)
  case (Cons p ps)
  then show ?case by (cases "jm_get (mq_jobs q) jid") (auto simp: mq_update_get apply_patch_attempts)
qed simp

lemma apply_patches_run:
  assumes "mq_running q = Some jid"
  shows "\<exists>us. (\<forall>q0 ls. mq_run q0 ls q \<longrightarrow> mq_run q0 (ls @ us) (apply_patches jid ps q))"
  using assms
proof (induction ps arbitrary: q)
  case Nil
  then show ?case by (auto intro!: exI [of _ "[]"])
next
  case (Cons p ps)
  let ?p = "p\<lparr>jp_attempts := None\<rparr>"
  have st: "mq_step q (Handle_update jid ?p) (mq_update 0 jid ?p q)"
    using Cons.prems by (intro mq_step.handle) simp_all
  obtain us where us: "\<forall>q0 ls. mq_run q0 ls (mq_update 0 jid ?p q) \<longrightarrow>
      mq_run q0 (ls @ us) (apply_patches jid ps (mq_update 0 jid ?p q))"
    using Cons.IH [of "mq_update 0 jid ?p q"] Cons.prems by auto
  have "mq_run q0 (ls @ [Handle_update jid ?p]) (mq_update 0 jid ?p q)" if "mq_run q0 ls q" for q0 ls
    using mq_run.step [OF that st] .
  with us have "mq_run q0 (ls @ ([Handle_update jid ?p] @ us)) (apply_patches jid (p # ps) q)"
    if "mq_run q0 ls q" for q0 ls
    using that by (metis append.assoc apply_patches.simps(2))
  then show ?case by blast
qed

text \<open>One turn of the loop is a sequence of steps, and it costs one unit of work.\<close>

definition turn :: "string \<Rightarrow> job_patch list \<Rightarrow> string option \<Rightarrow> memory_queue \<Rightarrow> memory_queue" where
  "turn jid ps outcome q =
     (let q2 = apply_patches jid ps q
      in case outcome of
           None \<Rightarrow> q2\<lparr>mq_running := None\<rparr>
         | Some msg \<Rightarrow> (fst (mq_catch 0 jid msg q2))\<lparr>mq_running := None\<rparr>)"

lemma turn_run:
  assumes "mq_run q0 ls q" "mq_running q = Some jid"
  shows "\<exists>ls'. mq_run q0 ls' (turn jid ps outcome q)"
proof -
  obtain us where us: "mq_run q0 (ls @ us) (apply_patches jid ps q)"
    using apply_patches_run [OF assms(2), of ps] assms(1) by blast
  have r: "mq_running (apply_patches jid ps q) = Some jid" using assms(2) by simp
  show ?thesis
  proof (cases outcome)
    case None
    with mq_run.step [OF us mq_step.ok [OF r]] show ?thesis by (auto simp: turn_def)
  next
    case (Some msg)
    with mq_run.step [OF us mq_step.throws [OF r, of msg 0]] show ?thesis by (auto simp: turn_def)
  qed
qed

lemma drain_step:
  "drain calls (Suc fuel) n q =
     (let q1 = mq_loop_head q in
      case mq_running q1 of
        None \<Rightarrow> Some q1
      | Some jid \<Rightarrow>
          (let (ps, outcome) = calls n (the (jm_get (mq_jobs q1) jid))
           in drain calls fuel (n + 1) (turn jid ps outcome q1)))"
  by (simp add: turn_def Let_def case_prod_beta split: option.split)

declare drain.simps(2) [simp del]

lemma turn_work:
  assumes inv: "mq_inv ls q" and run: "mq_running q = None" and p: "mq_pending q = jid # rest"
    and q1: "q1 = q\<lparr>mq_pending := rest, mq_running := Some jid\<rparr>"
  shows "work (turn jid ps outcome q1) < work q"
proof -
  have known: "\<forall>k \<in> set (jid # rest). jm_get (mq_jobs q) k \<noteq> None"
    using pending_known [OF inv] p by simp
  have d: "jid \<notin> set rest"
    using inv p by (simp add: mq_inv_def queue_inv_def)
  let ?a = "\<lambda>s k. rj_attempts (the (jm_get (mq_jobs s) k))"
  let ?q2 = "apply_patches jid ps q1"
  obtain j where j: "jm_get (mq_jobs q) jid = Some j" using known by auto
  have at: "rj_attempts j < mq_max q" using inv j p by (auto simp: mq_inv_def job_inv_def dest: spec [of _ jid])
  have keep: "map_option rj_attempts (jm_get (mq_jobs ?q2) k) = map_option rj_attempts (jm_get (mq_jobs q) k)" for k
    using apply_patches_attempts [of jid ps q1 k] q1 by simp
  then obtain j2 where j2: "jm_get (mq_jobs ?q2) jid = Some j2" "rj_attempts j2 = rj_attempts j"
    using j by (metis (no_types, lifting) map_option_eq_Some)
  have a2: "?a ?q2 k = ?a q k" if "k \<in> set rest" for k
  proof -
    have "jm_get (mq_jobs q) k \<noteq> None" using known that by simp
    then obtain jk where "jm_get (mq_jobs q) k = Some jk" by blast
    with keep [of k] show ?thesis by (cases "jm_get (mq_jobs ?q2) k") auto
  qed
  have rest: "map (\<lambda>k. mq_max q - ?a ?q2 k) rest = map (\<lambda>k. mq_max q - ?a q k) rest"
    using a2 by simp
  have upd: "?a (mq_update t jid pp ?q2) k = ?a ?q2 k" if "k \<in> set rest" for k t pp
    using d that by (auto simp: mq_update_get)
  have w0: "work q = (mq_max q - rj_attempts j) + sum_list (map (\<lambda>k. mq_max q - ?a q k) rest)"
    using p j by (simp add: work_def)
  have ns: "Suc (rj_attempts j) < mq_max q \<Longrightarrow> mq_max q - Suc (rj_attempts j) < mq_max q - rj_attempts j" by simp
  show ?thesis
  proof (cases outcome)
    case None
    then have "work (turn jid ps outcome q1) = sum_list (map (\<lambda>k. mq_max q - ?a ?q2 k) rest)"
      by (simp add: turn_def work_def q1)
    then have "work (turn jid ps outcome q1) = sum_list (map (\<lambda>k. mq_max q - ?a q k) rest)"
      by (simp only: rest)
    then show ?thesis using w0 at by linarith
  next
    case (Some msg)
    have r: "map (\<lambda>k. mq_max q - ?a (mq_update 0 jid pp ?q2) k) rest = map (\<lambda>k. mq_max q - ?a q k) rest" for pp
      using upd a2 by simp
    have m: "mq_max ?q2 = mq_max q" "mq_pending ?q2 = rest" using q1 by simp_all
    have aj: "?a (mq_update 0 jid pp ?q2) jid = Suc (rj_attempts j)" if "jp_attempts pp = Some (Suc (rj_attempts j))" for pp
      using j2 that by (simp add: mq_update_get apply_patch_attempts)
    show ?thesis
    proof (cases "Suc (rj_attempts j) < mq_max q")
      case True
      let ?pp = "no_patch\<lparr>jp_attempts := Some (Suc (rj_attempts j)), jp_state := Some Queued\<rparr>"
      have "work (turn jid ps outcome q1) =
          sum_list (map (\<lambda>k. mq_max q - ?a (mq_update 0 jid ?pp ?q2) k) rest)
          + (mq_max q - ?a (mq_update 0 jid ?pp ?q2) jid)"
        using Some True m j2 by (simp add: turn_def work_def mq_catch_def Let_def)
      then have "work (turn jid ps outcome q1) =
          sum_list (map (\<lambda>k. mq_max q - ?a q k) rest) + (mq_max q - Suc (rj_attempts j))"
        using aj [of ?pp] by (simp only: r) simp
      then show ?thesis using w0 ns [OF True] by linarith
    next
      case False
      let ?pp = "no_patch\<lparr>jp_attempts := Some (Suc (rj_attempts j)), jp_state := Some Failed,
        jp_error := Some (Some msg)\<rparr>"
      have "work (turn jid ps outcome q1) =
          sum_list (map (\<lambda>k. mq_max q - ?a (mq_update 0 jid ?pp ?q2) k) rest)"
        using Some False m j2 by (simp add: turn_def work_def mq_catch_def Let_def)
      then have "work (turn jid ps outcome q1) = sum_list (map (\<lambda>k. mq_max q - ?a q k) rest)"
        by (simp only: r)
      then show ?thesis using w0 at by linarith
    qed
  qed
qed

lemma drain_enough:
  assumes "mq_run (new_MemoryQueue mx) ls q" "1 \<le> mx" "mq_draining q" "mq_running q = None" "work q < fuel"
  shows "\<exists>q' ls'. drain calls fuel n q = Some q' \<and> mq_run (new_MemoryQueue mx) ls' q'
    \<and> \<not> mq_draining q' \<and> mq_running q' = None \<and> (mq_closed q' \<or> mq_pending q' = [])"
  using assms
proof (induction fuel arbitrary: q ls n)
  case 0
  then show ?case by simp
next
  case (Suc fuel)
  have inv: "mq_inv ls q" using mq_run_inv [OF Suc.prems(1) inv_start [OF Suc.prems(2)]] .
  note head = loop_head_inv [OF inv]
  show ?case
  proof (cases "mq_closed q \<or> mq_pending q = []")
    case True
    then have h: "mq_loop_head q = q\<lparr>mq_draining := False\<rparr>" using head by (auto split: list.splits)
    have "mq_step q Drained (mq_loop_head q)"
      using Suc.prems(3,4) h by (intro mq_step.drained) simp_all
    from mq_run.step [OF Suc.prems(1) this] True Suc.prems(4) h show ?thesis
      by (auto simp: drain_step)
  next
    case False
    then obtain jid rest where p: "mq_pending q = jid # rest" by (cases "mq_pending q") auto
    define q1 where "q1 = q\<lparr>mq_pending := rest, mq_running := Some jid\<rparr>"
    have h: "mq_loop_head q = q1" using head False p by (simp add: q1_def)
    have "mq_step q (Take jid) (mq_loop_head q)"
      using Suc.prems(3,4) h by (intro mq_step.take) (simp_all add: q1_def)
    then have r1: "mq_run (new_MemoryQueue mx) (ls @ [Take jid]) q1"
      using mq_run.step [OF Suc.prems(1)] h by simp
    obtain ps outcome where o: "calls n (the (jm_get (mq_jobs q1) jid)) = (ps, outcome)" by fastforce
    let ?t = "turn jid ps outcome q1"
    obtain ls' where r2: "mq_run (new_MemoryQueue mx) ls' ?t"
      using turn_run [OF r1, of jid ps outcome] by (auto simp: q1_def)
    have "work ?t < fuel"
      using turn_work [OF inv Suc.prems(4) p q1_def, of ps outcome] Suc.prems(5) by simp
    moreover have "mq_draining ?t" "mq_running ?t = None"
      using Suc.prems(3) by (simp_all add: turn_def q1_def Let_def split: option.split)
    ultimately obtain q' ls2 where "drain calls fuel (n + 1) ?t = Some q'" "mq_run (new_MemoryQueue mx) ls2 q'"
      "\<not> mq_draining q' \<and> mq_running q' = None \<and> (mq_closed q' \<or> mq_pending q' = [])"
      using Suc.IH [OF r2 Suc.prems(2)] by blast
    then show ?thesis using h o by (auto simp: drain_step q1_def)
  qed
qed

section \<open>Properties\<close>


definition demo_job_request :: relay_request where
  "demo_job_request = WithdrawReq
     \<lparr>rb_inclusion = \<lparr>inc_domainId = 0, inc_aggregationId = 1, inc_merklePath = [], inc_leafIndex = 0\<rparr>,
      rb_authorization = None, rb_encryptedPayload = None, rb_token = None,
      wd_nullifier = [], wd_amount = ''1'', wd_recipient = [], wd_root = []\<rparr>"

definition demo_queue :: memory_queue where
  "demo_queue = snd (mq_add ''a'' 1 Withdraw demo_job_request (mq_process (new_MemoryQueue 2)))"

lemma demo_queue_run:
  "mq_run (new_MemoryQueue 2) [Process, Add ''withdraw-a''] demo_queue"
proof -
  have "jm_get (mq_jobs (mq_process (new_MemoryQueue 2))) (rj_id (newJob ''a'' 1 Withdraw demo_job_request)) = None"
    by (simp add: mq_process_def new_MemoryQueue_def)
  from mq_run.step [OF mq_run.step [OF mq_run.start mq_step.process] mq_step.add [OF this]]
  show ?thesis by (simp add: demo_queue_def newJob_def)
qed




end
