(* ===== verification/RelayerService.thy ===== *)
theory RelayerService
  imports Validator JobQueue
begin

text \<open>
  The relayer's service, \<open>services/relayer/services/relayer-service.ts\<close>: what happens to a
  request from its arrival (\<open>accept\<close>) to its confirmation (\<open>run\<close>, the queue's handler). The
  state is the accepting flag, the fee manager, the transaction manager, the in-memory queue
  and the metrics. Everything outside (chain, balance, clock, random identifier, and the
  text the schema library gives an issue) is in the environment of the call.
\<close>

record service_config =
  sc_network :: string
  sc_address :: string
  sc_deployer :: string
  sc_submitter :: "(relay_request \<Rightarrow> (relay_error, string) result) option"

record 'tx service =
  sv_accepting :: bool
  sv_fees :: fee_manager
  sv_txm :: "'tx tx_manager"
  sv_queue :: memory_queue
  sv_metrics :: metrics

text \<open>The constructor: default queue and policy unless given, the handler registered.\<close>

definition new_RelayerService :: "memory_queue option \<Rightarrow> fee_policy option \<Rightarrow> 'tx service" where
  "new_RelayerService q policy =
     \<lparr>sv_accepting = True,
      sv_fees = new_FeeManager (or_default policy DEFAULT_POLICY),
      sv_txm = new_TransactionManager,
      sv_queue = mq_process (or_default q (new_MemoryQueue 3)),
      sv_metrics = new_Metrics\<rparr>"

section \<open>Readiness and information\<close>

record readiness =
  rd_ready :: bool
  rd_accepting :: bool
  rd_queue :: string
  rd_funded :: "string option"

definition ready :: "service_config \<Rightarrow> balance_reply \<Rightarrow> 'tx service \<Rightarrow> readiness \<times> 'tx service" where
  "ready cfg reply s =
     (case sc_submitter cfg of
        Some _ \<Rightarrow>
          (\<lparr>rd_ready = sv_accepting s, rd_accepting = sv_accepting s, rd_queue = ''memory'', rd_funded = None\<rparr>, s)
      | None \<Rightarrow>
          (let funded = (case balance reply of Inl _ \<Rightarrow> 0 | Inr b \<Rightarrow> b);
               s1 = s\<lparr>sv_metrics := metrics_set (M RelayerBalanceMicroStx) funded (sv_metrics s)\<rparr>
           in (\<lparr>rd_ready = (sv_accepting s \<and> 0 < funded), rd_accepting = sv_accepting s, rd_queue = ''memory'',
                rd_funded = Some (dec_of_int funded)\<rparr>, s1)))"

record relayer_info =
  ri_address :: string
  ri_network :: string
  ri_operations :: "operation list"
  ri_relayFeeMicroStx :: string
  ri_minRelayFeeMicroStx :: string
  ri_accepting :: bool
  ri_pool :: string
  ri_splitMerge :: string
  ri_verifier :: string
  ri_sip10Pool :: string
  ri_sip10Verifier :: string

definition info :: "service_config \<Rightarrow> 'tx service \<Rightarrow> relayer_info" where
  "info cfg s =
     \<lparr>ri_address = sc_address cfg, ri_network = sc_network cfg, ri_operations = [Transfer, Withdraw, Split, Merge],
      ri_relayFeeMicroStx = dec_of_int (txFee (sv_fees s)), ri_minRelayFeeMicroStx = dec_of_int (txFee (sv_fees s)),
      ri_accepting = sv_accepting s,
      ri_pool = sc_deployer cfg @ ''.privacy-pool'', ri_splitMerge = sc_deployer cfg @ ''.split-merge-manager'',
      ri_verifier = sc_deployer cfg @ ''.zk-verifier'', ri_sip10Pool = sc_deployer cfg @ ''.sip10-pool'',
      ri_sip10Verifier = sc_deployer cfg @ ''.sip10-zk-verifier''\<rparr>"

definition setAccepting :: "bool \<Rightarrow> 'tx service \<Rightarrow> 'tx service" where
  "setAccepting v s = s\<lparr>sv_accepting := v\<rparr>"

section \<open>Accepting a request\<close>

record relay_accepted =
  ra_jobId :: string
  ra_operation :: string
  ra_state :: job_state

record accept_env =
  ae_issue_text :: "issue \<Rightarrow> string"
  ae_reader :: chain_reader
  ae_balance :: balance_reply
  ae_now :: int
  ae_uniq :: string

definition accept ::
  "service_config \<Rightarrow> accept_env \<Rightarrow> string \<Rightarrow> json option \<Rightarrow> string \<Rightarrow> 'tx service \<Rightarrow>
   (relay_error, relay_accepted) result \<times> 'tx service" where
  "accept cfg env name body clientKey s =
     (if \<not> sv_accepting s
      then (Inl (RelayError ''not_accepting'' ''relayer is not accepting work'' 503), s)
      else
        (case SCHEMAS name of
           None \<Rightarrow> (Inl (RelayError ''unknown_operation'' (''unknown operation '' @ name) 404), s)
         | Some op \<Rightarrow>
             (case safeParse op body of
                Inl issue \<Rightarrow> (Inl (RelayError ''invalid_request'' (ae_issue_text env issue) 400), s)
              | Inr req \<Rightarrow>
                  (let (rate, fees) = assertWithinRate (ae_now env) clientKey (sv_fees s);
                       s1 = s\<lparr>sv_fees := fees\<rparr>;
                       funded = (case sc_submitter cfg of
                                   Some _ \<Rightarrow> Inr ()
                                 | None \<Rightarrow> rbind (balance (ae_balance env)) (\<lambda>b. assertFunded b fees));
                       checks = rbind rate (\<lambda>_. rbind funded (\<lambda>_. validate (ae_reader env) req))
                   in case checks of
                        Inl e \<Rightarrow> (Inl e, s1)
                      | Inr _ \<Rightarrow>
                          (let (job, q) = mq_add (ae_uniq env) (ae_now env) op req (sv_queue s1);
                               s2 = s1\<lparr>sv_queue := q, sv_metrics := metrics_inc (M JobsAccepted) 1 (sv_metrics s1)\<rparr>
                           in (Inr \<lparr>ra_jobId = rj_id job, ra_operation = name, ra_state = rj_state job\<rparr>, s2))))))"

section \<open>Running a job\<close>

record 'tx run_env =
  re_mk :: "clarity_value \<Rightarrow> cv_result"
  re_submit :: "'tx submit_env"
  re_clock :: "nat \<Rightarrow> int"
  re_poll :: "nat \<Rightarrow> poll_reply"
  re_rebroadcast :: "nat \<Rightarrow> 'tx \<Rightarrow> broadcast_reply"
  re_now :: int
  re_fuel :: nat

definition default_wait :: wait_opts where
  "default_wait = \<lparr>wo_timeoutMs = None, wo_pollMs = None, wo_rebroadcasts = None\<rparr>"

definition queue_update :: "int \<Rightarrow> string \<Rightarrow> job_patch \<Rightarrow> 'tx service \<Rightarrow> 'tx service" where
  "queue_update now jid p s = s\<lparr>sv_queue := mq_update now jid p (sv_queue s)\<rparr>"

definition inc_metric :: "metric \<Rightarrow> 'tx service \<Rightarrow> 'tx service" where
  "inc_metric k s = s\<lparr>sv_metrics := metrics_inc (M k) 1 (sv_metrics s)\<rparr>"

definition service_submit ::
  "service_config \<Rightarrow> 'tx run_env \<Rightarrow> relay_request \<Rightarrow> 'tx service \<Rightarrow> (relay_error, string) result \<times> 'tx service" where
  "service_submit cfg env r s =
     (case sc_submitter cfg of
        Some f \<Rightarrow> (f r, s)
      | None \<Rightarrow> (let (res, m) = submit (re_mk env) (re_submit env) r (sv_txm s) in (res, s\<lparr>sv_txm := m\<rparr>)))"

text \<open>\<open>run\<close>: \<open>None\<close> in the first component is a wait that has not ended within the fuel.\<close>

definition run_job ::
  "service_config \<Rightarrow> 'tx run_env \<Rightarrow> relay_job \<Rightarrow> 'tx service \<Rightarrow>
   (relay_error, unit) result option \<times> 'tx service" where
  "run_job cfg env job s =
     (let now = re_now env; jid = rj_id job;
          s1 = queue_update now jid (no_patch\<lparr>jp_state := Some Submitting\<rparr>) s;
          (res, s2) = service_submit cfg env (rj_request job) s1
      in case res of
           Inl e \<Rightarrow> (Some (Inl e), s2)
         | Inr txid \<Rightarrow>
             (let s3 = inc_metric TxSubmitted s2;
                  s4 = queue_update now jid (no_patch\<lparr>jp_txid := Some txid\<rparr>) s3
              in if sc_submitter cfg \<noteq> None
                 then (Some (Inr ()), inc_metric JobsConfirmed
                        (queue_update now jid (no_patch\<lparr>jp_state := Some Confirmed\<rparr>) s4))
                 else
                   (case waitForConfirmation (re_fuel env) (re_clock env) (re_poll env) (re_rebroadcast env) txid
                           default_wait (sv_txm s4) of
                      None \<Rightarrow> (None, s4)
                    | Some (Inl e, _) \<Rightarrow> (Some (Inl e), s4)
                    | Some (Inr TxSuccess, _) \<Rightarrow>
                        (Some (Inr ()), inc_metric JobsConfirmed
                          (queue_update now jid (no_patch\<lparr>jp_state := Some Confirmed, jp_error := Some None\<rparr>) s4))
                    | Some (Inr TxFailed, _) \<Rightarrow>
                        (Some (Inr ()), inc_metric JobsFailed
                          (queue_update now jid
                            (no_patch\<lparr>jp_state := Some Failed, jp_error := Some (Some ''transaction aborted on chain'')\<rparr>) s4)))))"

definition status :: "string \<Rightarrow> 'tx service \<Rightarrow> relay_job option" where
  "status jid s = mq_get jid (sv_queue s)"

section \<open>Facts\<close>

lemma queue_update_fields [simp]:
  "sv_txm (queue_update now jid p s) = sv_txm s" "sv_metrics (queue_update now jid p s) = sv_metrics s"
  "sv_queue (queue_update now jid p s) = mq_update now jid p (sv_queue s)"
  "sv_accepting (queue_update now jid p s) = sv_accepting s" "sv_fees (queue_update now jid p s) = sv_fees s"
  by (simp_all add: queue_update_def)

lemma inc_metric_fields [simp]:
  "sv_txm (inc_metric k s) = sv_txm s" "sv_queue (inc_metric k s) = sv_queue s"
  "sv_metrics (inc_metric k s) = metrics_inc (M k) 1 (sv_metrics s)"
  by (simp_all add: inc_metric_def)

lemma SCHEMAS_name [simp]: "SCHEMAS (operation_name op) = Some op"
  by (simp add: SCHEMAS_Some)

text \<open>What has to hold for a request to be taken.\<close>

definition admissible ::
  "service_config \<Rightarrow> accept_env \<Rightarrow> string \<Rightarrow> json option \<Rightarrow> string \<Rightarrow> 'tx service \<Rightarrow> operation \<Rightarrow> relay_request \<Rightarrow> bool" where
  "admissible cfg env name body key s op req \<longleftrightarrow>
     sv_accepting s \<and> name = operation_name op \<and> safeParse op body = Inr req
     \<and> fst (assertWithinRate (ae_now env) key (sv_fees s)) = Inr ()
     \<and> (sc_submitter cfg = None \<longrightarrow>
          (\<exists>b. balance (ae_balance env) = Inr b \<and> fp_minBalanceMicroStx (fm_policy (sv_fees s)) \<le> b))
     \<and> validate (ae_reader env) req = Inr ()"

lemma mq_add_facts [simp]:
  "fst (mq_add u now op req q) = newJob u now op req"
  "mq_get k (snd (mq_add u now op req q)) =
     (if k = rj_id (newJob u now op req) then Some (newJob u now op req) else mq_get k q)"
  "mq_pending (snd (mq_add u now op req q)) = mq_pending q @ [rj_id (newJob u now op req)]"
  by (auto simp: mq_add_def mq_get_def Let_def mq_drain_start_def)

lemma newJob_fields [simp]:
  "rj_operation (newJob u now op req) = op" "rj_request (newJob u now op req) = req"
  "rj_state (newJob u now op req) = Queued" "rj_attempts (newJob u now op req) = 0"
  by (simp_all add: newJob_def)

definition accepted_state :: "accept_env \<Rightarrow> string \<Rightarrow> operation \<Rightarrow> relay_request \<Rightarrow> 'tx service \<Rightarrow> 'tx service" where
  "accepted_state env key op req s =
     s\<lparr>sv_fees := snd (assertWithinRate (ae_now env) key (sv_fees s)),
       sv_queue := snd (mq_add (ae_uniq env) (ae_now env) op req (sv_queue s)),
       sv_metrics := metrics_inc (M JobsAccepted) 1 (sv_metrics s)\<rparr>"

lemma assertFunded_Inr: "assertFunded b f = Inr u \<longleftrightarrow> fp_minBalanceMicroStx (fm_policy f) \<le> b"
  by (simp add: assertFunded_def rguard_def)

lemma accept_admissible:
  assumes "admissible cfg env name body key s op req"
  shows "accept cfg env name body key s =
    (Inr \<lparr>ra_jobId = rj_id (newJob (ae_uniq env) (ae_now env) op req), ra_operation = name, ra_state = Queued\<rparr>,
     accepted_state env key op req s)"
proof -
  obtain u where r: "assertWithinRate (ae_now env) key (sv_fees s) = (Inr (), u)" and p: "fm_policy u = fm_policy (sv_fees s)"
    using assms assertWithinRate_policy [of "ae_now env" key "sv_fees s"]
    by (cases "assertWithinRate (ae_now env) key (sv_fees s)") (auto simp: admissible_def)
  have f: "(case sc_submitter cfg of Some _ \<Rightarrow> Inr ()
            | None \<Rightarrow> rbind (balance (ae_balance env)) (\<lambda>b. assertFunded b u)) = Inr ()"
    using assms p by (auto simp: admissible_def assertFunded_Inr split: option.split)
  obtain j q where m: "mq_add (ae_uniq env) (ae_now env) op req (sv_queue s) = (j, q)" by fastforce
  then have "j = newJob (ae_uniq env) (ae_now env) op req"
    using mq_add_facts(1) [of "ae_uniq env" "ae_now env" op req "sv_queue s"] by simp
  then show ?thesis
    using assms r f m by (simp add: accept_def admissible_def accepted_state_def Let_def)
qed

lemma accept_rejects:
  assumes "\<nexists>op req. admissible cfg env name body key s op req"
  shows "\<exists>e. fst (accept cfg env name body key s) = Inl e
    \<and> snd (accept cfg env name body key s) \<in>
        {s, s\<lparr>sv_fees := snd (assertWithinRate (ae_now env) key (sv_fees s))\<rparr>}"
proof (cases "sv_accepting s \<and> (\<exists>op req. SCHEMAS name = Some op \<and> safeParse op body = Inr req)")
  case False
  then show ?thesis
    by (auto simp: accept_def split: option.split sum.split)
next
  case True
  then obtain op req where o: "sv_accepting s" "SCHEMAS name = Some op" "safeParse op body = Inr req" by blast
  then have n: "name = operation_name op" by (simp add: SCHEMAS_Some)
  obtain rt u where r: "assertWithinRate (ae_now env) key (sv_fees s) = (rt, u)" by fastforce
  have p: "fm_policy u = fm_policy (sv_fees s)"
    using assertWithinRate_policy [of "ae_now env" key "sv_fees s"] r by simp
  let ?f = "case sc_submitter cfg of Some _ \<Rightarrow> Inr ()
            | None \<Rightarrow> rbind (balance (ae_balance env)) (\<lambda>b. assertFunded b u)"
  let ?c = "rbind rt (\<lambda>_. rbind ?f (\<lambda>_. validate (ae_reader env) req))"
  have "\<exists>e. ?c = Inl e"
  proof (cases ?c)
    case (Inr w)
    then have "rt = Inr ()" "?f = Inr ()" "validate (ae_reader env) req = Inr ()"
      by (auto split: option.splits)
    with assms o n r p have False
      by (auto simp: admissible_def assertFunded_Inr split: option.splits)
    then show ?thesis ..
  qed blast
  then show ?thesis using o r by (auto simp: accept_def Let_def)
qed

section \<open>Properties\<close>

text \<open>Acceptance: a request is taken exactly when the relayer is accepting, the name is one of
  the four operations, the body passes its schema, the client is within its rate, the relayer
  is funded (unless a submitter stands in) and the validator passes; then its job is in the
  table as \<open>queued\<close> with no attempts and is the last pending one, and the accepted counter
  goes up by one. Any other request is an error, and leaves the queue, the
  transaction manager and the metrics as they were.\<close>

theorem accept_spec:
  "case accept cfg env name body key s of
     (Inr a, s') \<Rightarrow>
       (\<exists>op req j. admissible cfg env name body key s op req
          \<and> status (ra_jobId a) s' = Some j \<and> rj_operation j = op \<and> rj_request j = req
          \<and> rj_state j = Queued \<and> rj_attempts j = 0
          \<and> mq_pending (sv_queue s') = mq_pending (sv_queue s) @ [ra_jobId a]
          \<and> sv_txm s' = sv_txm s
          \<and> counter JobsAccepted (sv_metrics s') = counter JobsAccepted (sv_metrics s) + 1)
   | (Inl e, s') \<Rightarrow>
       (\<nexists>op req. admissible cfg env name body key s op req)
       \<and> sv_queue s' = sv_queue s \<and> sv_txm s' = sv_txm s \<and> sv_metrics s' = sv_metrics s"
proof (cases "\<exists>op req. admissible cfg env name body key s op req")
  case True
  then obtain op req where a: "admissible cfg env name body key s op req" by blast
  then show ?thesis
    by (simp add: accept_admissible [OF a] accepted_state_def status_def del: M.simps)
next
  case False
  from accept_rejects [OF False] False show ?thesis
    by (cases "accept cfg env name body key s") auto
qed

text \<open>One call of the handler that submits and then fails to learn the outcome.\<close>

lemma run_job_poll_throws:
  assumes "sc_submitter cfg = None" "buildCall (re_mk env) (rj_request job) = Inr call"
    and "accepts_all (re_submit env) call" "tm_nonce (sv_txm s) = Some n"
    and "re_poll env 0 = PollThrows e" "re_clock env 1 < re_clock env 0 + 900000" "0 < re_fuel env"
  shows "fst (run_job cfg env job s) = Some (Inl (OtherError e))
    \<and> (\<exists>txid. signed_with (re_submit env) call n (Inr txid)
        \<and> sv_queue (snd (run_job cfg env job s)) =
            mq_update (re_now env) (rj_id job) (no_patch\<lparr>jp_txid := Some txid\<rparr>)
              (mq_update (re_now env) (rj_id job) (no_patch\<lparr>jp_state := Some Submitting\<rparr>) (sv_queue s)))
    \<and> tm_nonce (sv_txm (snd (run_job cfg env job s))) = Some (n + 1)
    \<and> counter TxSubmitted (sv_metrics (snd (run_job cfg env job s))) = counter TxSubmitted (sv_metrics s) + 1"
proof -
  obtain f where f: "re_fuel env = Suc f" using assms(7) by (cases "re_fuel env") auto
  obtain res m where r: "submitRaw (re_submit env) call (sv_txm s) = (res, m)" by fastforce
  then have sw: "signed_with (re_submit env) call n res" "tm_nonce m = Some (n + 1)"
    using submitRaw_accepted [OF assms(3,4)] by simp_all
  then obtain txid where "res = Inr txid" by (auto simp: signed_with_def)
  then show ?thesis
    using sw r assms
    by (simp add: run_job_def service_submit_def submit_def waitForConfirmation_def default_wait_def or_default_def f
        Let_def del: M.simps) blast
qed

text \<open>C19: The retry of a job whose confirmation could not be read submits the operation again: when
  a poll of the status throws after the network took the transaction, the handler throws,
  the queue puts the job back with the same request (it has attempts left), and the next
  call signs and broadcasts the same contract call with the next nonce, although the first
  transaction is still out.\<close>

theorem lost_poll_submits_twice:
  assumes "sc_submitter cfg = None" "buildCall (re_mk env) (rj_request job) = Inr call"
    and "accepts_all (re_submit env) call" "tm_nonce (sv_txm s) = Some n"
    and "re_poll env 0 = PollThrows e" "re_clock env 1 < re_clock env 0 + 900000" "0 < re_fuel env"
    and "status (rj_id job) s = Some job" "rj_attempts job + 1 < mq_max (sv_queue s)"
    and "s1 = snd (run_job cfg env job s)"
    and "s2 = s1\<lparr>sv_queue := fst (mq_catch now (rj_id job) e (sv_queue s1))\<rparr>"
  shows "fst (run_job cfg env job s) = Some (Inl (OtherError e))
    \<and> (\<exists>job2. status (rj_id job) s2 = Some job2 \<and> rj_request job2 = rj_request job \<and> rj_state job2 = Queued
        \<and> mq_pending (sv_queue s2) = mq_pending (sv_queue s) @ [rj_id job]
        \<and> tm_nonce (sv_txm (snd (run_job cfg env job2 s2))) = Some (n + 2)
        \<and> counter TxSubmitted (sv_metrics (snd (run_job cfg env job2 s2))) = counter TxSubmitted (sv_metrics s) + 2)
    \<and> (\<exists>tx1 tx2 id1 id2. se_make (re_submit env) call n = Inr tx1 \<and> se_broadcast (re_submit env) tx1 = BcOk id1
        \<and> se_make (re_submit env) call (n + 1) = Inr tx2 \<and> se_broadcast (re_submit env) tx2 = BcOk id2)"
proof -
  note first = run_job_poll_throws [OF assms(1-7)]
  let ?q = "sv_queue s1" and ?jid = "rj_id job"
  obtain txid where q: "?q = mq_update (re_now env) ?jid (no_patch\<lparr>jp_txid := Some txid\<rparr>)
      (mq_update (re_now env) ?jid (no_patch\<lparr>jp_state := Some Submitting\<rparr>) (sv_queue s))"
    using first assms(10) by auto
  have j: "jm_get (mq_jobs (sv_queue s)) ?jid = Some job" using assms(8) by (simp add: status_def mq_get_def)
  let ?j1 = "apply_patch (re_now env) (no_patch\<lparr>jp_txid := Some txid\<rparr>)
      (apply_patch (re_now env) (no_patch\<lparr>jp_state := Some Submitting\<rparr>) job)"
  have j1: "jm_get (mq_jobs ?q) ?jid = Some ?j1" using j by (simp add: q mq_update_get)
  have a1: "rj_attempts ?j1 = rj_attempts job" "rj_request ?j1 = rj_request job" "rj_id ?j1 = ?jid"
    by (simp_all add: apply_patch_attempts no_patch_def)
  let ?p = "no_patch\<lparr>jp_attempts := Some (rj_attempts job + 1), jp_state := Some Queued\<rparr>"
  let ?j2 = "apply_patch now ?p ?j1"
  have "mq_max ?q = mq_max (sv_queue s)" by (simp add: q)
  then have c: "fst (mq_catch now ?jid e ?q) = (mq_update now ?jid ?p ?q)\<lparr>mq_pending := mq_pending ?q @ [?jid]\<rparr>"
    using j1 a1 assms(9) by (simp add: mq_catch_def Let_def)
  have st: "status ?jid s2 = Some ?j2"
    using j1 by (simp add: status_def mq_get_def assms(11) c mq_update_get)
  have j2: "rj_request ?j2 = rj_request job" "rj_state ?j2 = Queued"
    using a1 by (simp_all add: apply_patch_attempts)
  have pend: "mq_pending (sv_queue s2) = mq_pending (sv_queue s) @ [?jid]"
    unfolding assms(11) using c by (simp add: q)
  have n2: "tm_nonce (sv_txm s2) = Some (n + 1)"
      "counter TxSubmitted (sv_metrics s2) = counter TxSubmitted (sv_metrics s) + 1"
    using first assms(10,11) by simp_all
  have "buildCall (re_mk env) (rj_request ?j2) = Inr call" using j2(1) assms(2) by simp
  note second = run_job_poll_throws [OF assms(1) this assms(3) n2(1) assms(5-7)]
  have "tm_nonce (sv_txm (snd (run_job cfg env ?j2 s2))) = Some (n + 2)"
    "counter TxSubmitted (sv_metrics (snd (run_job cfg env ?j2 s2))) = counter TxSubmitted (sv_metrics s) + 2"
    using second n2 by simp_all
  then have "\<exists>job2. status ?jid s2 = Some job2 \<and> rj_request job2 = rj_request job \<and> rj_state job2 = Queued
        \<and> mq_pending (sv_queue s2) = mq_pending (sv_queue s) @ [?jid]
        \<and> tm_nonce (sv_txm (snd (run_job cfg env job2 s2))) = Some (n + 2)
        \<and> counter TxSubmitted (sv_metrics (snd (run_job cfg env job2 s2))) = counter TxSubmitted (sv_metrics s) + 2"
    using st j2 pend by blast
  moreover have "\<exists>tx1 tx2 id1 id2. se_make (re_submit env) call n = Inr tx1 \<and> se_broadcast (re_submit env) tx1 = BcOk id1
        \<and> se_make (re_submit env) call (n + 1) = Inr tx2 \<and> se_broadcast (re_submit env) tx2 = BcOk id2"
    using assms(3) unfolding accepts_all_def by metis
  ultimately show ?thesis using first by blast
qed

definition demo_cfg :: service_config where
  "demo_cfg = \<lparr>sc_network = ''testnet'', sc_address = demo_principal, sc_deployer = demo_principal, sc_submitter = None\<rparr>"

definition demo_run :: "(contract_call \<times> int) run_env" where
  "demo_run = \<lparr>re_mk = Inr, re_submit = demo_env, re_clock = (\<lambda>j. int j), re_poll = (\<lambda>k. PollThrows ''ECONNRESET''),
     re_rebroadcast = (\<lambda>b t. BcOk []), re_now = 5, re_fuel = 10\<rparr>"

definition demo_service :: "(contract_call \<times> int) service" where
  "demo_service = (new_RelayerService None None)
     \<lparr>sv_queue := snd (mq_add ''a'' 1 Withdraw demo_request (new_MemoryQueue 3)),
      sv_txm := new_TransactionManager\<lparr>tm_nonce := Some 7\<rparr>\<rparr>"

theorem lost_poll_submits_twice_witness:
  "let s1 = snd (run_job demo_cfg demo_run (newJob ''a'' 1 Withdraw demo_request) demo_service);
       s2 = s1\<lparr>sv_queue := fst (mq_catch 6 ''withdraw-a'' ''ECONNRESET'' (sv_queue s1))\<rparr>
   in \<exists>job2. status ''withdraw-a'' s2 = Some job2
        \<and> counter TxSubmitted (sv_metrics (snd (run_job demo_cfg demo_run job2 s2))) = 2"
proof -
  let ?j = "newJob ''a'' 1 Withdraw demo_request"
  have jid: "rj_id ?j = ''withdraw-a''" by (simp add: newJob_def)
  have st: "status (rj_id ?j) demo_service = Some ?j" "rj_attempts ?j + 1 < mq_max (sv_queue demo_service)"
    by (simp_all add: demo_service_def status_def mq_add_def mq_drain_start_def new_MemoryQueue_def mq_get_def Let_def)
  have b: "buildCall (re_mk demo_run) (rj_request ?j) =
      Inr \<lparr>cc_contract = fst (call_target (isSip10 demo_request) Withdraw),
           cc_fn = snd (call_target (isSip10 demo_request) Withdraw),
           cc_args = declared_token demo_request @ declared_args demo_request @ declared_inclusion (base_of demo_request)\<rparr>"
    by (simp add: demo_run_def buildCall_returns token_has_name_def needs_leaf_def)
       (simp add: demo_request_def relay_base.defs)
  have a: "accepts_all (re_submit demo_run) c" for c by (simp add: accepts_all_def demo_run_def demo_env_def)
  have c0: "counter TxSubmitted (sv_metrics demo_service) = 0"
    by (simp add: demo_service_def new_RelayerService_def new_Metrics_def counter_def)
  have n: "tm_nonce (sv_txm demo_service) = Some 7" by (simp add: demo_service_def)
  show ?thesis
    using lost_poll_submits_twice [OF _ b a n _ _ _ st refl refl, of demo_cfg "''ECONNRESET''" 6]
    by (simp add: demo_cfg_def demo_run_def jid c0 Let_def del: M.simps) blast
qed

end
