(* ===== verification/RootPublisher.thy ===== *)
theory RootPublisher
  imports RelayerService
begin

text \<open>
  The relayer's publication of aggregation roots, \<open>services/relayer/root-publisher\<close>:
  \<open>publish-root.ts\<close> submits one root to both verifiers, \<open>poll-zkverify.ts\<close> follows the
  receipts of the zkVerify session and publishes each aggregation once. The transaction manager
  and the metrics are the ones the service shares. What the chain answers is in the
  environment of a publication: per verifier the reply to \<open>get-aggregation\<close> and the network for
  the submission. Log lines are not modelled.
\<close>

section \<open>Publishing one root\<close>

definition VERIFIERS :: "string list" where
  "VERIFIERS = [''zk-verifier'', ''sip10-zk-verifier'']"

record agg_root =
  ar_domainId :: rat
  ar_aggregationId :: rat
  ar_root :: string
  ar_leafCount :: rat

definition isAggregationPosted :: "(string \<Rightarrow> (string, json) result) \<Rightarrow> node_reply \<Rightarrow> bool" where
  "isAggregationPosted decode reply =
     (case reply of
        NodeThrows e \<Rightarrow> False
      | NodeStatus s \<Rightarrow> False
      | NodeBody okay res cause \<Rightarrow>
          if \<not> okay \<or> res = None \<or> res = Some [] then False
          else (case decode (the res) of
                  Inl e \<Rightarrow> False
                | Inr j \<Rightarrow> json_field j ''value'' \<noteq> None \<and> json_field j ''value'' \<noteq> Some JNull))"

record 'tx publish_env =
  pe_decode :: "string \<Rightarrow> (string, json) result"
  pe_reply :: "string \<Rightarrow> node_reply"
  pe_mk :: "clarity_value \<Rightarrow> cv_result"
  pe_submit :: "string \<Rightarrow> 'tx submit_env"

text \<open>\<open>Cl.uint\<close> of a number: a fraction does not convert to a bigint.\<close>

definition uint_arg :: "(clarity_value \<Rightarrow> cv_result) \<Rightarrow> rat \<Rightarrow> cv_result" where
  "uint_arg mk r = (if of_int \<lfloor>r\<rfloor> = r then mk (CvUInt \<lfloor>r\<rfloor>) else Inl (OtherError ''RangeError''))"

definition aggregation_args :: "(clarity_value \<Rightarrow> cv_result) \<Rightarrow> agg_root \<Rightarrow> (relay_error, clarity_value list) result" where
  "aggregation_args mk agg =
     rseq [uint_arg mk (ar_domainId agg), uint_arg mk (ar_aggregationId agg),
           buf mk (ar_root agg), uint_arg mk (ar_leafCount agg)]"

definition aggregation_call :: "string \<Rightarrow> clarity_value list \<Rightarrow> contract_call" where
  "aggregation_call verifier args = \<lparr>cc_contract = verifier, cc_fn = ''submit-aggregation'', cc_args = args\<rparr>"

definition submit_aggregation ::
  "'tx publish_env \<Rightarrow> agg_root \<Rightarrow> string \<Rightarrow> 'tx tx_manager \<Rightarrow> (relay_error, string) result \<times> 'tx tx_manager" where
  "submit_aggregation env agg verifier txm =
     (case aggregation_args (pe_mk env) agg of
        Inl e \<Rightarrow> (Inl e, txm)
      | Inr args \<Rightarrow> submitRaw (pe_submit env verifier) (aggregation_call verifier args) txm)"

fun error_message :: "relay_error \<Rightarrow> string" where
  "error_message (RelayError c m s) = m"
| "error_message (OtherError m) = m"

definition already_posted_error :: "relay_error \<Rightarrow> bool" where
  "already_posted_error e \<longleftrightarrow> js_includes (error_message e) ''u562'' \<or> js_includes (error_message e) ''AGGREGATION-EXISTS''"

record 'tx publish_state =
  ps_txm :: "'tx tx_manager"
  ps_metrics :: metrics
  ps_published :: bool
  ps_txid :: "string option"

text \<open>
  The reply is read first; the constructors of its arguments are inside the same \<open>try\<close>, so an
  identifier they refuse reads as not posted.
\<close>

definition posted_on :: "'tx publish_env \<Rightarrow> agg_root \<Rightarrow> string \<Rightarrow> bool" where
  "posted_on env agg verifier =
     (case rseq [uint_arg (pe_mk env) (ar_domainId agg), uint_arg (pe_mk env) (ar_aggregationId agg)] of
        Inl e \<Rightarrow> False
      | Inr _ \<Rightarrow> isAggregationPosted (pe_decode env) (pe_reply env verifier))"

definition publish_one :: "'tx publish_env \<Rightarrow> agg_root \<Rightarrow> 'tx publish_state \<Rightarrow> string \<Rightarrow> 'tx publish_state" where
  "publish_one env agg st verifier =
     (if posted_on env agg verifier
      then st\<lparr>ps_metrics := metrics_inc (M RootsSkipped) 1 (ps_metrics st)\<rparr>
      else
        (let (res, txm) = submit_aggregation env agg verifier (ps_txm st);
             st1 = st\<lparr>ps_txm := txm\<rparr>
         in case res of
              Inr txid \<Rightarrow> st1\<lparr>ps_txid := Some txid, ps_published := True,
                             ps_metrics := metrics_inc (M RootsPublished) 1 (ps_metrics st1)\<rparr>
            | Inl e \<Rightarrow>
                if already_posted_error e then st1
                else st1\<lparr>ps_metrics := metrics_inc (M RootsSkipped) 1 (ps_metrics st1)\<rparr>))"

definition publishRoot ::
  "'tx publish_env \<Rightarrow> agg_root \<Rightarrow> metrics \<Rightarrow> 'tx tx_manager \<Rightarrow> 'tx publish_state" where
  "publishRoot env agg mt txm =
     foldl (publish_one env agg) \<lparr>ps_txm = txm, ps_metrics = mt, ps_published = False, ps_txid = None\<rparr> VERIFIERS"

section \<open>The poller\<close>

definition pick_field :: "json \<Rightarrow> string list \<Rightarrow> json option" where
  "pick_field ev ks = foldr (\<lambda>k rest. js_nullish (json_field ev k) rest) ks None"

text \<open>
  \<open>toAggregationRoot\<close>: \<open>Inl\<close> is a thrown error (an event that is \<open>null\<close>, a truthy root that is
  not a string), \<open>Inr None\<close> the \<open>null\<close> it returns.
\<close>

definition toAggregationRoot :: "rat \<Rightarrow> json \<Rightarrow> (string, agg_root option) result" where
  "toAggregationRoot domainId ev =
     (if ev = JNull then Inl ''TypeError''
      else
        (let aggregationId = js_Number (pick_field ev [''aggregationId'', ''id'', ''aggregation_id'']);
             rt = pick_field ev [''receipt'', ''root'', ''aggregationRoot''];
             leafCount = js_Number (js_nullish (pick_field ev [''leaves'', ''numberOfLeaves'', ''size'']) (Some (JNum 1)))
         in if aggregationId = None \<or> \<not> js_truthy rt then Inr None
            else (case the rt of
                    JStr s \<Rightarrow>
                      Inr (Some \<lparr>ar_domainId = domainId, ar_aggregationId = the aggregationId,
                        ar_root = (if js_startsWith s ''0x'' then s else ''0x'' @ s),
                        ar_leafCount = (if leafCount \<noteq> None \<and> 0 < the leafCount then the leafCount else 1)\<rparr>)
                  | _ \<Rightarrow> Inl ''TypeError'')))"

text \<open>The key of \<open>seen\<close> is the text of the two numbers, which determines them.\<close>

record 'tx poller =
  po_seen :: "(rat \<times> rat) list"
  po_stopped :: bool
  po_txm :: "'tx tx_manager"
  po_metrics :: metrics

definition agg_key :: "agg_root \<Rightarrow> rat \<times> rat" where
  "agg_key agg = (ar_domainId agg, ar_aggregationId agg)"

definition seen_add :: "rat \<times> rat \<Rightarrow> (rat \<times> rat) list \<Rightarrow> (rat \<times> rat) list" where
  "seen_add k seen = (let s = js_add k seen in if 5000 < length s then tl s else s)"

text \<open>\<open>publish\<close>: nothing in \<open>publishRoot\<close> throws, so its \<open>catch\<close> block is never entered.\<close>

definition poller_publish :: "'tx publish_env \<Rightarrow> agg_root \<Rightarrow> 'tx poller \<Rightarrow> 'tx poller" where
  "poller_publish env agg p =
     (if agg_key agg \<in> set (po_seen p) then p
      else
        (let st = publishRoot env agg (po_metrics p) (po_txm p)
         in p\<lparr>po_txm := ps_txm st, po_metrics := ps_metrics st, po_seen := seen_add (agg_key agg) (po_seen p)\<rparr>))"

text \<open>The receipts of one domain; an event that throws ends the domain's turn.\<close>

fun poll_receipts ::
  "(agg_root \<Rightarrow> 'tx publish_env) \<Rightarrow> rat \<Rightarrow> json list \<Rightarrow> 'tx poller \<Rightarrow> (string, unit) result \<times> 'tx poller" where
  "poll_receipts env domainId [] p = (Inr (), p)"
| "poll_receipts env domainId (ev # evs) p =
     (case toAggregationRoot domainId ev of
        Inl e \<Rightarrow> (Inl e, p)
      | Inr None \<Rightarrow> poll_receipts env domainId evs p
      | Inr (Some agg) \<Rightarrow> poll_receipts env domainId evs (poller_publish (env agg) agg p))"

definition poll_domain ::
  "(agg_root \<Rightarrow> 'tx publish_env) \<Rightarrow> rat \<Rightarrow> (string, json list) result \<Rightarrow> 'tx poller \<Rightarrow> 'tx poller" where
  "poll_domain env domainId reply p =
     (let (r, p1) = (case reply of Inl e \<Rightarrow> (Inl e, p) | Inr evs \<Rightarrow> poll_receipts env domainId evs p)
      in case r of
           Inr _ \<Rightarrow> p1
         | Inl e \<Rightarrow> p1\<lparr>po_metrics := metrics_inc (M ZkverifyPollErrors) 1 (po_metrics p1)\<rparr>)"

text \<open>One turn of \<open>pollLoop\<close>, and the loop over the turns until it is stopped.\<close>

fun poll_round ::
  "(agg_root \<Rightarrow> 'tx publish_env) \<Rightarrow> (rat \<times> (string, json list) result) list \<Rightarrow> 'tx poller \<Rightarrow> 'tx poller" where
  "poll_round env [] p = p"
| "poll_round env ((d, reply) # rest) p = poll_round env rest (poll_domain env d reply p)"

text \<open>A subscription's callback: a throw reaches the package, the poller is as it was.\<close>

definition on_receipt :: "(agg_root \<Rightarrow> 'tx publish_env) \<Rightarrow> rat \<Rightarrow> json \<Rightarrow> 'tx poller \<Rightarrow> 'tx poller" where
  "on_receipt env domainId ev p =
     (case toAggregationRoot domainId ev of
        Inr (Some agg) \<Rightarrow> poller_publish (env agg) agg p
      | _ \<Rightarrow> p)"

section \<open>Starting\<close>

record poller_config =
  pc_publishRoots :: bool
  pc_useApi :: bool
  pc_endpoint :: string
  pc_seed :: "string option"
  pc_useSubscriptions :: bool
  pc_domainIds :: "rat list"

datatype poller_mode =
    Disabled
  | PackageMissing
  | SessionFailed
  | Subscribed "rat list"
  | Polling

datatype session_start = Custom string | Volta

text \<open>The session \<open>start\<close> asks for: its network and the account, if any.\<close>

definition session_request :: "poller_config \<Rightarrow> session_start \<times> string option" where
  "session_request cfg =
     (if pc_useApi cfg \<and> pc_endpoint cfg \<noteq> [] then Custom (pc_endpoint cfg) else Volta,
      case pc_seed cfg of Some s \<Rightarrow> if s = [] then None else Some s | None \<Rightarrow> None)"

text \<open>\<open>open_session\<close> says whether the session opens, and if so whether it has the subscription call.\<close>

definition start_poller ::
  "poller_config \<Rightarrow> bool \<Rightarrow> (session_start \<times> string option \<Rightarrow> bool option) \<Rightarrow> poller_mode" where
  "start_poller cfg package open_session =
     (if \<not> pc_publishRoots cfg then Disabled
      else if \<not> package then PackageMissing
      else (case open_session (session_request cfg) of
              None \<Rightarrow> SessionFailed
            | Some subscribable \<Rightarrow>
                if pc_useSubscriptions cfg \<and> subscribable then Subscribed (pc_domainIds cfg) else Polling))"

definition stop_poller :: "'tx poller \<Rightarrow> 'tx poller" where
  "stop_poller p = p\<lparr>po_stopped := True\<rparr>"

definition new_poller :: "'tx tx_manager \<Rightarrow> metrics \<Rightarrow> 'tx poller" where
  "new_poller txm mt = \<lparr>po_seen = [], po_stopped = False, po_txm = txm, po_metrics = mt\<rparr>"

section \<open>Facts of a publication\<close>

text \<open>A network that takes every submission, whatever the manager's nonce; one that takes none.\<close>

definition network_works :: "'tx submit_env \<Rightarrow> contract_call \<Rightarrow> bool" where
  "network_works env call \<longleftrightarrow> accepts_all env call \<and> (\<exists>k. fetchNonce (se_nonce env) = Inr k)"

definition network_refuses :: "'tx submit_env \<Rightarrow> contract_call \<Rightarrow> bool" where
  "network_refuses env call \<longleftrightarrow> (\<forall>n tx. se_make env call n = Inr tx \<longrightarrow> (\<exists>r. se_broadcast env tx = BcError r))"

lemma works_submits:
  assumes "network_works env call"
  shows "\<exists>txid. fst (submitRaw env call m) = Inr txid"
proof -
  obtain k where k: "fetchNonce (se_nonce env) = Inr k" using assms by (auto simp: network_works_def)
  define n where "n = (case tm_nonce m of Some n \<Rightarrow> n | None \<Rightarrow> k)"
  from assms obtain tx txid where "se_make env call n = Inr tx" "se_broadcast env tx = BcOk txid"
    unfolding network_works_def accepts_all_def by blast
  with k show ?thesis
    by (cases "tm_nonce m") (simp_all add: submitRaw_def n_def)
qed

lemma refuses_fails: "network_refuses env call \<Longrightarrow> \<exists>e. fst (submitRaw env call m) = Inl e"
proof -
  assume r: "network_refuses env call"
  show ?thesis
  proof (cases "case tm_nonce m of None \<Rightarrow> fetchNonce (se_nonce env) | Some n \<Rightarrow> Inr n")
    case (Inr n)
    then show ?thesis
    proof (cases "se_make env call n")
      case tx: (Inr tx)
      then obtain reason where "se_broadcast env tx = BcError reason" using r by (auto simp: network_refuses_def)
      with Inr tx show ?thesis by (simp add: submitRaw_def Let_def)
    qed (simp add: submitRaw_def Let_def)
  qed (simp add: submitRaw_def)
qed

lemma refuses_not_works: "network_refuses env call \<Longrightarrow> \<not> network_works env call"
  by (metis accepts_all_def broadcast_reply.distinct(5) network_refuses_def network_works_def)

definition published_count :: "'tx publish_state \<Rightarrow> int" where
  "published_count st = counter RootsPublished (ps_metrics st)"

lemma publish_one_posted:
  "posted_on env agg v \<Longrightarrow> ps_txm (publish_one env agg st v) = ps_txm st
     \<and> ps_published (publish_one env agg st v) = ps_published st
     \<and> published_count (publish_one env agg st v) = published_count st"
  by (simp add: publish_one_def published_count_def del: M.simps)

lemma publish_one_works:
  assumes "\<not> posted_on env agg v" "aggregation_args (pe_mk env) agg = Inr args"
    "network_works (pe_submit env v) (aggregation_call v args)"
  shows "ps_published (publish_one env agg st v)
     \<and> published_count (publish_one env agg st v) = published_count st + 1"
proof -
  obtain txid m where "submitRaw (pe_submit env v) (aggregation_call v args) (ps_txm st) = (Inr txid, m)"
    using works_submits [OF assms(3), of "ps_txm st"] by (metis prod.collapse)
  with assms(1,2) show ?thesis
    by (simp add: publish_one_def submit_aggregation_def published_count_def del: M.simps)
qed

lemma publish_one_refuses:
  assumes "\<not> posted_on env agg v" "aggregation_args (pe_mk env) agg = Inr args"
    "network_refuses (pe_submit env v) (aggregation_call v args)"
  shows "ps_published (publish_one env agg st v) = ps_published st
     \<and> published_count (publish_one env agg st v) = published_count st"
proof -
  obtain e m where "submitRaw (pe_submit env v) (aggregation_call v args) (ps_txm st) = (Inl e, m)"
    using refuses_fails [OF assms(3), of "ps_txm st"] by (metis prod.collapse)
  with assms(1,2) show ?thesis
    by (simp add: publish_one_def submit_aggregation_def published_count_def Let_def del: M.simps)
qed

definition missing_works :: "'tx publish_env \<Rightarrow> agg_root \<Rightarrow> clarity_value list \<Rightarrow> string \<Rightarrow> bool" where
  "missing_works env agg args v \<longleftrightarrow>
     \<not> posted_on env agg v \<and> network_works (pe_submit env v) (aggregation_call v args)"

lemma publish_one_step:
  assumes "aggregation_args (pe_mk env) agg = Inr args"
    "network_works (pe_submit env v) (aggregation_call v args) \<or> network_refuses (pe_submit env v) (aggregation_call v args)"
  shows "ps_published (publish_one env agg st v) = (ps_published st \<or> missing_works env agg args v)
     \<and> published_count (publish_one env agg st v) = published_count st + (if missing_works env agg args v then 1 else 0)"
proof (cases "posted_on env agg v")
  case True
  then show ?thesis using publish_one_posted [OF True, of st] by (simp add: missing_works_def)
next
  case False
  show ?thesis
  proof (cases "network_works (pe_submit env v) (aggregation_call v args)")
    case True
    then show ?thesis using publish_one_works [OF False assms(1) True, of st] False by (simp add: missing_works_def)
  next
    case nw: False
    then have "network_refuses (pe_submit env v) (aggregation_call v args)" using assms(2) by simp
    then show ?thesis using publish_one_refuses [OF False assms(1), of st] nw by (simp add: missing_works_def)
  qed
qed

lemma publish_fold:
  assumes "aggregation_args (pe_mk env) agg = Inr args"
    "\<forall>v \<in> set vs. network_works (pe_submit env v) (aggregation_call v args)
       \<or> network_refuses (pe_submit env v) (aggregation_call v args)"
  shows "ps_published (foldl (publish_one env agg) st vs) = (ps_published st \<or> (\<exists>v \<in> set vs. missing_works env agg args v))
     \<and> published_count (foldl (publish_one env agg) st vs)
         = published_count st + int (length (filter (missing_works env agg args) vs))"
  using assms(2)
proof (induction vs arbitrary: st)
  case (Cons v vs)
  have "network_works (pe_submit env v) (aggregation_call v args) \<or> network_refuses (pe_submit env v) (aggregation_call v args)"
    using Cons.prems by simp
  from publish_one_step [OF assms(1) this, of st] Cons.IH [of "publish_one env agg st v"] Cons.prems
  show ?case by auto
qed simp

lemma publish_fold_posted:
  "\<forall>v \<in> set vs. posted_on env agg v \<Longrightarrow>
     ps_txm (foldl (publish_one env agg) st vs) = ps_txm st
     \<and> ps_published (foldl (publish_one env agg) st vs) = ps_published st"
  by (induction vs arbitrary: st) (simp_all add: publish_one_posted)

lemma publishRoot_count:
  assumes "aggregation_args (pe_mk env) agg = Inr args"
    "\<forall>v \<in> set VERIFIERS. network_works (pe_submit env v) (aggregation_call v args)
       \<or> network_refuses (pe_submit env v) (aggregation_call v args)"
  shows "(ps_published (publishRoot env agg mt txm) \<longleftrightarrow>
           (\<exists>v \<in> set VERIFIERS. missing_works env agg args v))
    \<and> counter RootsPublished (ps_metrics (publishRoot env agg mt txm))
        = counter RootsPublished mt + int (length (filter (missing_works env agg args) VERIFIERS))"
  using publish_fold [OF assms, of "\<lparr>ps_txm = txm, ps_metrics = mt, ps_published = False, ps_txid = None\<rparr>"]
  by (simp add: publishRoot_def published_count_def)

section \<open>Facts of the poller\<close>

lemma seen_add_member: "agg_key agg \<in> set (po_seen p) \<Longrightarrow> poller_publish env agg p = p"
  by (simp add: poller_publish_def)

lemma poller_publish_seen:
  "po_seen (poller_publish env agg p) =
     (if agg_key agg \<in> set (po_seen p) then po_seen p else seen_add (agg_key agg) (po_seen p))"
  by (simp add: poller_publish_def Let_def)

text \<open>The set of processed aggregations never grows beyond 5000 and has no repetition.\<close>

definition seen_ok :: "(rat \<times> rat) list \<Rightarrow> bool" where
  "seen_ok s \<longleftrightarrow> distinct s \<and> length s \<le> 5000"

lemma seen_add_ok: "seen_ok s \<Longrightarrow> seen_ok (seen_add k s)"
  by (auto simp: seen_ok_def seen_add_def js_add_def Let_def distinct_tl)

lemma poller_publish_ok: "seen_ok (po_seen p) \<Longrightarrow> seen_ok (po_seen (poller_publish env agg p))"
  by (simp add: poller_publish_seen seen_add_ok)

lemma poll_receipts_ok: "seen_ok (po_seen p) \<Longrightarrow> seen_ok (po_seen (snd (poll_receipts env d evs p)))"
  by (induction evs arbitrary: p) (auto simp: poller_publish_ok split: sum.split option.split)

lemma poll_domain_ok: "seen_ok (po_seen p) \<Longrightarrow> seen_ok (po_seen (poll_domain env d reply p))"
  using poll_receipts_ok [of p env d]
  by (cases reply) (auto simp: poll_domain_def case_prod_beta Let_def split: sum.split)

lemma poll_round_ok: "seen_ok (po_seen p) \<Longrightarrow> seen_ok (po_seen (poll_round env rs p))"
  by (induction env rs p rule: poll_round.induct) (simp_all add: poll_domain_ok)

text \<open>The last key added stays for the next 4999 publications.\<close>

definition publish_all :: "('tx publish_env \<times> agg_root) list \<Rightarrow> 'tx poller \<Rightarrow> 'tx poller" where
  "publish_all xs p = foldl (\<lambda>q (env, agg). poller_publish env agg q) p xs"

lemma seen_keeps:
  assumes "po_seen p = a @ k # b" "length (a @ k # b) \<le> 5000" "length b + length xs < 5000"
  shows "k \<in> set (po_seen (publish_all xs p))"
  using assms
proof (induction xs arbitrary: p a b)
  case Nil
  then show ?case by (simp add: publish_all_def)
next
  case (Cons x xs)
  obtain env agg where x: "x = (env, agg)" by fastforce
  let ?p = "poller_publish env agg p"
  have go: "publish_all (x # xs) p = publish_all xs ?p" by (simp add: publish_all_def x)
  show ?case
  proof (cases "agg_key agg \<in> set (po_seen p)")
    case True
    then have "po_seen ?p = a @ k # b" using Cons.prems(1) by (simp add: poller_publish_seen)
    then show ?thesis using Cons.IH [of ?p a b] Cons.prems go by simp
  next
    case new: False
    show ?thesis
    proof (cases "length (a @ k # b) < 5000")
      case True
      then have "po_seen ?p = a @ k # (b @ [agg_key agg])"
        using new Cons.prems(1) by (simp add: poller_publish_seen seen_add_def js_add_def)
      then show ?thesis using Cons.IH [of ?p a "b @ [agg_key agg]"] Cons.prems(3) True go by simp
    next
      case False
      then obtain y a' where a: "a = y # a'" using Cons.prems(3) by (cases a) auto
      have "po_seen ?p = a' @ k # (b @ [agg_key agg])"
        using new Cons.prems(1,2) False by (simp add: poller_publish_seen seen_add_def js_add_def a Let_def)
      then show ?thesis
        using Cons.IH [of ?p a' "b @ [agg_key agg]"] Cons.prems(2,3) a go by simp
    qed
  qed
qed

section \<open>Properties\<close>

text \<open>Publishing a root serves every verifier on its own: when the arguments can be encoded
  and each verifier's network either takes submissions or refuses them, the number of
  submissions that go out is the number of verifiers that miss the root and whose network
  works, so one verifier's refusal never blocks the other; and a verifier that has the root
  is never sent it again, so with the root on both nothing is submitted and no nonce is used.\<close>

theorem publishRoot_serves_each:
  assumes "aggregation_args (pe_mk env) agg = Inr args"
    "\<forall>v \<in> set VERIFIERS. network_works (pe_submit env v) (aggregation_call v args)
       \<or> network_refuses (pe_submit env v) (aggregation_call v args)"
  shows "(ps_published (publishRoot env agg mt txm) \<longleftrightarrow>
           (\<exists>v \<in> set VERIFIERS. missing_works env agg args v))
    \<and> counter RootsPublished (ps_metrics (publishRoot env agg mt txm))
        = counter RootsPublished mt + int (length (filter (missing_works env agg args) VERIFIERS))
    \<and> ((\<forall>v \<in> set VERIFIERS. posted_on env agg v) \<longrightarrow> ps_txm (publishRoot env agg mt txm) = txm)"
  using publishRoot_count [OF assms]
    publish_fold_posted [of VERIFIERS env agg "\<lparr>ps_txm = txm, ps_metrics = mt, ps_published = False, ps_txid = None\<rparr>"]
  by (auto simp: publishRoot_def)

definition demo_agg :: agg_root where
  "demo_agg = \<lparr>ar_domainId = 0, ar_aggregationId = 5, ar_root = demo_word, ar_leafCount = 8\<rparr>"

definition refusing_env :: "(contract_call \<times> int) submit_env" where
  "refusing_env = demo_env\<lparr>se_broadcast := (\<lambda>t. BcError ''NotEnoughFunds'')\<rparr>"

definition demo_publish :: "(contract_call \<times> int) publish_env" where
  "demo_publish = \<lparr>pe_decode = (\<lambda>h. Inr (JObj [(''value'', JNull)])), pe_reply = (\<lambda>v. NodeBody True (Some ''0x09'') None),
     pe_mk = Inr, pe_submit = (\<lambda>v. if v = ''zk-verifier'' then refusing_env else demo_env)\<rparr>"

lemma demo_args: "aggregation_args Inr demo_agg =
    Inr [CvUInt 0, CvUInt 5, word_of demo_word, CvUInt 8]"
  by (simp add: aggregation_args_def uint_arg_def demo_agg_def buf_def word_of_def)

lemma demo_works: "network_works demo_env c"
  by (simp add: network_works_def accepts_all_def demo_env_def fetchNonce_def)

lemma demo_refuses: "network_refuses refusing_env c"
  by (simp add: network_refuses_def refusing_env_def demo_env_def)

lemma demo_not_posted: "\<not> posted_on (demo_publish\<lparr>pe_submit := f\<rparr>) demo_agg v" "\<not> posted_on demo_publish demo_agg v"
  by (simp_all add: posted_on_def demo_publish_def uint_arg_def demo_agg_def isAggregationPosted_def)

lemma demo_not_works: "\<not> network_works refusing_env c"
  by (simp add: network_works_def accepts_all_def refusing_env_def demo_env_def)

theorem publishRoot_serves_each_witness:
  "counter RootsPublished (ps_metrics (publishRoot demo_publish demo_agg new_Metrics new_TransactionManager)) = 1"
proof -
  have a: "aggregation_args (pe_mk demo_publish) demo_agg = Inr [CvUInt 0, CvUInt 5, word_of demo_word, CvUInt 8]"
    using demo_args by (simp add: demo_publish_def)
  have n: "\<forall>v \<in> set VERIFIERS. network_works (pe_submit demo_publish v) (aggregation_call v c)
      \<or> network_refuses (pe_submit demo_publish v) (aggregation_call v c)" for c
    using demo_works demo_refuses by (simp add: VERIFIERS_def demo_publish_def)
  have m: "filter (missing_works demo_publish demo_agg c) VERIFIERS = [''sip10-zk-verifier'']" for c
    using demo_works demo_not_works demo_not_posted(2)
    by (simp add: VERIFIERS_def missing_works_def) (simp add: demo_publish_def)
  show ?thesis
    using publishRoot_serves_each [OF a n, of new_Metrics new_TransactionManager] m
    by (simp add: counter_def new_Metrics_def del: M.simps)
qed

text \<open>C20: A root whose publication failed is never tried again: when both verifiers miss the root and
  both submissions are refused, the poller still marks the aggregation as processed, so
  however the network recovers, seeing the same aggregation again submits nothing, during at
  least the next 4999 publications of the relayer.\<close>

theorem failed_root_marked_processed:
  assumes "aggregation_args (pe_mk env) agg = Inr args"
    "\<forall>v \<in> set VERIFIERS. \<not> posted_on env agg v \<and> network_refuses (pe_submit env v) (aggregation_call v args)"
    "seen_ok (po_seen p)" "agg_key agg \<notin> set (po_seen p)" "length xs < 4999"
  shows "counter RootsPublished (po_metrics (poller_publish env agg p)) = counter RootsPublished (po_metrics p)
    \<and> (let q = publish_all xs (poller_publish env agg p) in poller_publish env' agg q = q)"
proof -
  have r: "\<forall>v \<in> set VERIFIERS. network_works (pe_submit env v) (aggregation_call v args)
       \<or> network_refuses (pe_submit env v) (aggregation_call v args)" using assms(2) by blast
  have none: "filter (missing_works env agg args) VERIFIERS = []"
    using assms(2) refuses_not_works by (auto simp: filter_empty_conv missing_works_def)
  have c: "counter RootsPublished (po_metrics (poller_publish env agg p)) = counter RootsPublished (po_metrics p)"
    using publishRoot_count [OF assms(1) r, of "po_metrics p" "po_txm p"] assms(4) none
    by (simp add: poller_publish_def Let_def)
  have "\<exists>a. po_seen (poller_publish env agg p) = a @ [agg_key agg] \<and> length (a @ [agg_key agg]) \<le> 5000"
    using assms(3,4)
    by (cases "po_seen p") (auto simp: poller_publish_seen seen_add_def js_add_def seen_ok_def Let_def)
  then obtain a where a: "po_seen (poller_publish env agg p) = a @ agg_key agg # []" "length (a @ agg_key agg # []) \<le> 5000"
    by auto
  have "agg_key agg \<in> set (po_seen (publish_all xs (poller_publish env agg p)))"
    using seen_keeps [OF a] assms(5) by simp
  then show ?thesis using c by (simp add: Let_def seen_add_member)
qed

theorem failed_root_marked_processed_witness:
  "let env = demo_publish\<lparr>pe_submit := (\<lambda>v. refusing_env)\<rparr>;
       q = publish_all [(demo_publish, demo_agg\<lparr>ar_aggregationId := 6\<rparr>)]
             (poller_publish env demo_agg (new_poller new_TransactionManager new_Metrics))
   in poller_publish (demo_publish\<lparr>pe_submit := (\<lambda>v. demo_env)\<rparr>) demo_agg q = q"
proof -
  let ?env = "demo_publish\<lparr>pe_submit := (\<lambda>v. refusing_env)\<rparr>"
  have a: "aggregation_args (pe_mk ?env) demo_agg = Inr [CvUInt 0, CvUInt 5, word_of demo_word, CvUInt 8]"
    using demo_args by (simp add: demo_publish_def)
  have "\<forall>v \<in> set VERIFIERS. \<not> posted_on ?env demo_agg v \<and> network_refuses (pe_submit ?env v) (aggregation_call v c)" for c
    using demo_refuses demo_not_posted(1) by simp_all
  from failed_root_marked_processed [OF a this, of "new_poller new_TransactionManager new_Metrics"
      "[(demo_publish, demo_agg\<lparr>ar_aggregationId := 6\<rparr>)]" "demo_publish\<lparr>pe_submit := (\<lambda>v. demo_env)\<rparr>"]
  show ?thesis by (simp add: new_poller_def seen_ok_def)
qed

end
