(* ===== verification/RelayConfig.thy ===== *)
theory RelayConfig
  imports JsNumber
begin

text \<open>
  The relayer's configuration, \<open>services/relayer/config/index.ts\<close>: a function of the
  environment, which maps a variable to its text. Numbers are rationals, as \<open>Number\<close> reads them.
  \<open>None\<close> as the list of origins is the \<open>true\<close> that allows any.
\<close>

type_synonym environment = "string \<Rightarrow> string option"

definition num :: "environment \<Rightarrow> string \<Rightarrow> rat \<Rightarrow> rat" where
  "num env k dflt =
     (case env k of
        None \<Rightarrow> dflt
      | Some v \<Rightarrow> (case js_Number_text v of Some n \<Rightarrow> n | None \<Rightarrow> dflt))"

definition str :: "environment \<Rightarrow> string \<Rightarrow> string \<Rightarrow> string" where
  "str env k dflt = (case env k of Some v \<Rightarrow> v | None \<Rightarrow> dflt)"

record relayer_config =
  rc_network :: string
  rc_apiUrl :: string
  rc_port :: rat
  rc_redisUrl :: "string option"
  rc_senderKey :: string
  rc_address :: string
  rc_deployer :: string
  rc_txFeeMicroStx :: rat
  rc_treasuryAddress :: "string option"
  rc_retries :: rat
  rc_pollMs :: rat
  rc_timeoutMs :: rat
  rc_zkVerifyEndpoint :: "string option"
  rc_zkVerifyUseApi :: bool
  rc_zkVerifyUseSubscriptions :: bool
  rc_zkVerifySeed :: "string option"
  rc_zkVerifyDomainIds :: "rat list"
  rc_pollZkVerifyMs :: rat
  rc_publishRoots :: bool
  rc_corsOrigins :: "string list option"
  rc_submitTimeoutMs :: rat
  rc_submitRateMax :: rat
  rc_submitRateWindowMs :: rat
  rc_peers :: "string list"
  rc_relayerId :: string

text \<open>\<open>csv.split(",").map(trim).filter(Boolean)\<close>\<close>

definition csv_items :: "string \<Rightarrow> string list" where
  "csv_items s = filter (\<lambda>t. t \<noteq> []) (map js_trim (js_split (CHR '','') s))"

fun numbered_peers :: "environment \<Rightarrow> nat list \<Rightarrow> string list" where
  "numbered_peers env [] = []"
| "numbered_peers env (i # is) =
     (case env (''RELAYER_'' @ dec_of_nat i) of
        Some v \<Rightarrow> if js_trim v \<noteq> [] then js_trim v # numbered_peers env is else numbered_peers env is
      | None \<Rightarrow> numbered_peers env is)"

definition parsePeers :: "environment \<Rightarrow> string list" where
  "parsePeers env =
     (case env ''STX_SHIELD_RELAYERS'' of
        Some csv \<Rightarrow> if js_trim csv \<noteq> [] then csv_items csv else numbered_peers env [1..<17]
      | None \<Rightarrow> numbered_peers env [1..<17])"

definition parseCorsOrigins :: "environment \<Rightarrow> string list option" where
  "parseCorsOrigins env =
     (case env ''CORS_ORIGINS'' of
        None \<Rightarrow> None
      | Some raw \<Rightarrow> if js_trim raw = [] \<or> js_trim raw = ''*'' then None else Some (csv_items raw))"

definition need :: "environment \<Rightarrow> string \<Rightarrow> (string, string) result" where
  "need env k =
     (case env k of
        Some v \<Rightarrow> if v = [] then Inl (''missing required environment variable '' @ k) else Inr v
      | None \<Rightarrow> Inl (''missing required environment variable '' @ k))"

definition trimmed_endpoint :: "environment \<Rightarrow> string option" where
  "trimmed_endpoint env =
     (case env ''ZKVERIFY_ENDPOINT'' of
        None \<Rightarrow> None
      | Some v \<Rightarrow> if js_trim v = [] then None else Some (js_trim v))"

definition zkVerify_domains :: "environment \<Rightarrow> rat list" where
  "zkVerify_domains env =
     List.map_filter (\<lambda>s. js_Number_text (js_trim s)) (js_split (CHR '','') (str env ''ZKVERIFY_DOMAIN_ID'' ''0''))"

text \<open>The object \<open>loadConfig\<close> returns, and \<open>loadConfig\<close> with its three required variables.\<close>

definition config_with :: "environment \<Rightarrow> string \<Rightarrow> string \<Rightarrow> string \<Rightarrow> relayer_config" where
  "config_with env senderKey address deployer =
     (let network = str env ''STACKS_NETWORK'' ''testnet'';
          url = str env ''STACKS_API_URL'' [];
          apiUrl = (if url \<noteq> [] then url
                    else if network = ''mainnet'' then ''https://api.hiro.so'' else ''https://api.testnet.hiro.so'')
      in \<lparr>rc_network = network, rc_apiUrl = apiUrl,
                rc_port = num env ''RELAYER_PORT'' (num env ''PORT'' 8787),
                rc_redisUrl = env ''REDIS_URL'',
                rc_senderKey = senderKey, rc_address = address, rc_deployer = deployer,
                rc_txFeeMicroStx = num env ''RELAYER_TX_FEE'' 10000,
                rc_treasuryAddress = env ''TREASURY_ADDRESS'',
                rc_retries = num env ''RELAYER_RETRIES'' 3,
                rc_pollMs = num env ''RELAYER_POLL_MS'' 30000,
                rc_timeoutMs = num env ''RELAYER_TIMEOUT_MS'' 900000,
                rc_zkVerifyEndpoint = trimmed_endpoint env,
                rc_zkVerifyUseApi =
                  (str env ''ZKVERIFY_USE_API'' (if trimmed_endpoint env \<noteq> None then ''true'' else ''false'') \<noteq> ''false''),
                rc_zkVerifyUseSubscriptions = (str env ''ZKVERIFY_USE_SUBSCRIPTIONS'' ''false'' = ''true''),
                rc_zkVerifySeed = env ''ZKVERIFY_SEED_PHRASE'',
                rc_zkVerifyDomainIds = zkVerify_domains env,
                rc_pollZkVerifyMs = num env ''ZKVERIFY_POLL_MS'' 10000,
                rc_publishRoots = (str env ''RELAYER_PUBLISH_ROOTS'' ''true'' \<noteq> ''false''),
                rc_corsOrigins = parseCorsOrigins env,
                rc_submitTimeoutMs = num env ''SUBMIT_TIMEOUT_MS'' 300000,
                rc_submitRateMax = num env ''SUBMIT_RATE_MAX'' 20,
                rc_submitRateWindowMs = num env ''SUBMIT_RATE_WINDOW_MS'' 60000,
                rc_peers = parsePeers env,
                rc_relayerId = str env ''RELAYER_ID'' (str env ''RELAYER_ADDRESS'' ''relayer'')\<rparr>)"

definition loadConfig :: "environment \<Rightarrow> (string, relayer_config) result" where
  "loadConfig env =
     rbind (need env ''RELAYER_PRIVATE_KEY'') (\<lambda>senderKey.
     rbind (need env ''RELAYER_ADDRESS'') (\<lambda>address.
     rbind (need env ''CONTRACT_DEPLOYER'') (\<lambda>deployer.
       Inr (config_with env senderKey address deployer))))"

section \<open>Facts\<close>

lemma need_Inr: "need env k = Inr v \<longleftrightarrow> env k = Some v \<and> v \<noteq> []"
  by (auto simp: need_def split: option.splits if_splits)

lemma need_Inl: "need env k = Inl e \<longleftrightarrow> (env k = None \<or> env k = Some []) \<and> e = ''missing required environment variable '' @ k"
  by (auto simp: need_def split: option.splits if_splits)

lemma num_text: "env k = Some (dec_of_nat n) \<Longrightarrow> num env k d = of_nat n"
  by (simp add: num_def)

lemma config_with_fields:
  "rc_port (config_with env k a d) = num env ''RELAYER_PORT'' (num env ''PORT'' 8787)"
  "rc_senderKey (config_with env k a d) = k" "rc_address (config_with env k a d) = a"
  "rc_deployer (config_with env k a d) = d"
  "rc_publishRoots (config_with env k a d) = (env ''RELAYER_PUBLISH_ROOTS'' \<noteq> Some ''false'')"
  by (simp_all add: config_with_def Let_def str_def split: option.split)

definition required :: "string list" where
  "required = [''RELAYER_PRIVATE_KEY'', ''RELAYER_ADDRESS'', ''CONTRACT_DEPLOYER'']"

definition present :: "environment \<Rightarrow> string \<Rightarrow> bool" where
  "present env k \<longleftrightarrow> (\<exists>v. env k = Some v \<and> v \<noteq> [])"

lemma need_present: "need env k = Inr v \<Longrightarrow> present env k \<and> env k = Some v"
  by (simp add: need_Inr present_def)

lemma need_absent: "need env k = Inl e \<Longrightarrow> \<not> present env k \<and> e = ''missing required environment variable '' @ k"
  by (auto simp: need_Inl present_def)

section \<open>Properties\<close>

text \<open>Loading the configuration fails exactly when one of the key, the address and the deployer is
  absent or empty, naming the first such variable; a malformed number in any variable never
  fails it. When it succeeds the three values are the variables' own, the port is the first
  of \<open>RELAYER_PORT\<close> and \<open>PORT\<close> that reads as a number (8787 if none does), and root publication
  is on unless the variable is literally \<open>false\<close>.\<close>

theorem loadConfig_spec:
  "case loadConfig env of
     Inl e \<Rightarrow> \<exists>k \<in> set required. \<not> present env k \<and> e = ''missing required environment variable '' @ k
        \<and> (\<forall>k' \<in> set (takeWhile (\<lambda>x. x \<noteq> k) required). present env k')
   | Inr c \<Rightarrow> (\<forall>k \<in> set required. present env k)
        \<and> env ''RELAYER_PRIVATE_KEY'' = Some (rc_senderKey c) \<and> env ''RELAYER_ADDRESS'' = Some (rc_address c)
        \<and> env ''CONTRACT_DEPLOYER'' = Some (rc_deployer c)
        \<and> rc_port c = num env ''RELAYER_PORT'' (num env ''PORT'' 8787)
        \<and> rc_publishRoots c = (env ''RELAYER_PUBLISH_ROOTS'' \<noteq> Some ''false'')"
proof -
  let ?k = "need env ''RELAYER_PRIVATE_KEY''" and ?a = "need env ''RELAYER_ADDRESS''" and ?d = "need env ''CONTRACT_DEPLOYER''"
  show ?thesis
  proof (cases ?k)
    case (Inl e)
    then have "loadConfig env = Inl e" by (simp add: loadConfig_def)
    then show ?thesis using need_absent [OF Inl] by (simp add: required_def)
  next
    case k: (Inr v)
    show ?thesis
    proof (cases ?a)
      case (Inl e)
      with k have "loadConfig env = Inl e" by (simp add: loadConfig_def)
      then show ?thesis using need_absent [OF Inl] need_present [OF k] by (simp add: required_def)
    next
      case a: (Inr w)
      show ?thesis
      proof (cases ?d)
        case (Inl e)
        with k a have "loadConfig env = Inl e" by (simp add: loadConfig_def)
        then show ?thesis using need_absent [OF Inl] need_present [OF k] need_present [OF a] by (simp add: required_def)
      next
        case d: (Inr x)
        then have "loadConfig env = Inr (config_with env v w x)" using k a by (simp add: loadConfig_def)
        then show ?thesis using need_present [OF k] need_present [OF a] need_present [OF d]
          by (simp add: config_with_fields required_def)
      qed
    qed
  qed
qed

end
