(* ===== verification/Submitter.thy ===== *)
theory Submitter
  imports RootPublisher RelayConfig
begin

text \<open>
  The proof submitter behind \<open>POST /submit\<close>, \<open>services/relayer/submitter/index.ts\<close>: it picks a
  domain the relayer serves, opens the zkVerify session once, submits the proof, waits for its
  aggregation and publishes the aggregation's root. What the zkVerify package answers at each
  call is in the environment; the proof-system version and variant it is asked for are fixed.
  \<open>submit\<close> chains every submission behind the previous one, so a run of them is a sequence of
  calls of \<open>doSubmit\<close>.
\<close>

record submit_request =
  sq_proof :: string
  sq_publicInputs :: "string list"
  sq_vk :: string
  sq_domainId :: "int option"

record proof_inclusion =
  in_domainId :: rat
  in_aggregationId :: rat
  in_root :: string
  in_leafCount :: rat
  in_merklePath :: "string list"
  in_leafIndex :: rat

record statement_path =
  pt_root :: string
  pt_numberOfLeaves :: rat
  pt_proof :: "string list"
  pt_leafIndex :: rat

text \<open>
  \<open>execute\<close> gives the aggregation's number and the statement, if any, of a proof submitted with a
  version and a variant to a domain.
\<close>

record 'tx zk_env =
  zk_open :: "session_start \<times> string option \<Rightarrow> (string, unit) result"
  zk_execute :: "string \<Rightarrow> string \<Rightarrow> submit_request \<Rightarrow> rat \<Rightarrow> (string, rat \<times> string option) result"
  zk_receipt :: "rat \<Rightarrow> rat \<Rightarrow> rat \<Rightarrow> (string, string) result"
  zk_path :: "string \<Rightarrow> rat \<Rightarrow> rat \<Rightarrow> string \<Rightarrow> (string, statement_path) result"
  zk_publish :: "'tx publish_env"

text \<open>The submitter: whether its session is open, and the relayer's manager when it publishes roots.\<close>

record 'tx submitter =
  sb_session :: bool
  sb_timeoutMs :: rat
  sb_txm :: "'tx tx_manager option"
  sb_metrics :: metrics

definition isConfigured :: "relayer_config \<Rightarrow> bool" where
  "isConfigured cfg \<longleftrightarrow> (case rc_zkVerifySeed cfg of None \<Rightarrow> False | Some s \<Rightarrow> s \<noteq> [])"

definition pickDomain :: "relayer_config \<Rightarrow> int option \<Rightarrow> rat" where
  "pickDomain cfg d =
     (let allowed = rc_zkVerifyDomainIds cfg in
      case d of
        Some n \<Rightarrow> if of_int n \<in> set allowed then of_int n else (case allowed of [] \<Rightarrow> 0 | a # _ \<Rightarrow> a)
      | None \<Rightarrow> (case allowed of [] \<Rightarrow> 0 | a # _ \<Rightarrow> a))"

definition session_start_of :: "relayer_config \<Rightarrow> session_start \<times> string option" where
  "session_start_of cfg =
     (case (if rc_zkVerifyUseApi cfg then rc_zkVerifyEndpoint cfg else None) of
        Some ep \<Rightarrow> if ep \<noteq> [] then Custom ep else Volta
      | None \<Rightarrow> Volta,
      rc_zkVerifySeed cfg)"

text \<open>\<open>session()\<close>: the open session is kept; a failed opening is forgotten.\<close>

definition zk_session ::
  "relayer_config \<Rightarrow> 'tx zk_env \<Rightarrow> 'tx submitter \<Rightarrow> (string, unit) result \<times> 'tx submitter" where
  "zk_session cfg env s =
     (if sb_session s then (Inr (), s)
      else (case zk_open env (session_start_of cfg) of
              Inl e \<Rightarrow> (Inl e, s)
            | Inr _ \<Rightarrow> (Inr (), s\<lparr>sb_session := True\<rparr>)))"

text \<open>Publishing the root never fails the submission.\<close>

definition publish_inclusion ::
  "'tx zk_env \<Rightarrow> rat \<Rightarrow> rat \<Rightarrow> statement_path \<Rightarrow> 'tx submitter \<Rightarrow> 'tx submitter" where
  "publish_inclusion env d a p s =
     (case sb_txm s of
        None \<Rightarrow> s
      | Some txm \<Rightarrow>
          (let st = publishRoot (zk_publish env)
                      \<lparr>ar_domainId = d, ar_aggregationId = a, ar_root = pt_root p, ar_leafCount = pt_numberOfLeaves p\<rparr>
                      (sb_metrics s) txm
           in s\<lparr>sb_txm := Some (ps_txm st), sb_metrics := ps_metrics st\<rparr>))"

definition doSubmit ::
  "relayer_config \<Rightarrow> 'tx zk_env \<Rightarrow> submit_request \<Rightarrow> rat \<Rightarrow> 'tx submitter \<Rightarrow>
   (relay_error, proof_inclusion) result \<times> 'tx submitter" where
  "doSubmit cfg env req d s =
     (let (opened, s1) = zk_session cfg env s;
          res = rbind opened (\<lambda>_.
                rbind (zk_execute env ''V3_0'' ''ZK'' req d) (\<lambda>(a, statement).
                rbind (zk_receipt env d a (sb_timeoutMs s1)) (\<lambda>blockHash.
                rbind (zk_path env blockHash d a (case statement of Some x \<Rightarrow> x | None \<Rightarrow> [])) (\<lambda>p.
                  Inr (a, p)))))
      in case res of
           Inl e \<Rightarrow> (Inl (OtherError e), s1)
         | Inr (a, p) \<Rightarrow>
             (Inr \<lparr>in_domainId = d, in_aggregationId = a, in_root = pt_root p, in_leafCount = pt_numberOfLeaves p,
                   in_merklePath = pt_proof p, in_leafIndex = pt_leafIndex p\<rparr>,
              publish_inclusion env d a p s1))"

definition submit_proof ::
  "relayer_config \<Rightarrow> 'tx zk_env \<Rightarrow> submit_request \<Rightarrow> 'tx submitter \<Rightarrow>
   (relay_error, proof_inclusion) result \<times> 'tx submitter" where
  "submit_proof cfg env req s =
     (if \<not> isConfigured cfg
      then (Inl (OtherError ''zkVerify submitter is not configured (no account seed)''), s)
      else doSubmit cfg env req (pickDomain cfg (sq_domainId req)) s)"

section \<open>Facts\<close>

lemma pickDomain_served:
  "rc_zkVerifyDomainIds cfg \<noteq> [] \<Longrightarrow> pickDomain cfg d \<in> set (rc_zkVerifyDomainIds cfg)"
  by (cases "rc_zkVerifyDomainIds cfg") (auto simp: pickDomain_def Let_def split: option.split)

lemma pickDomain_asked: "of_int n \<in> set (rc_zkVerifyDomainIds cfg) \<Longrightarrow> pickDomain cfg (Some n) = of_int n"
  by (simp add: pickDomain_def Let_def)

lemma publish_inclusion_fields [simp]:
  "sb_session (publish_inclusion env d a p s) = sb_session s"
  "sb_timeoutMs (publish_inclusion env d a p s) = sb_timeoutMs s"
  by (auto simp: publish_inclusion_def Let_def split: option.split)

lemma publish_inclusion_counts:
  "sb_txm s = Some txm \<Longrightarrow>
     counter k (sb_metrics (publish_inclusion env d a p s)) =
       counter k (ps_metrics (publishRoot (zk_publish env)
         \<lparr>ar_domainId = d, ar_aggregationId = a, ar_root = pt_root p, ar_leafCount = pt_numberOfLeaves p\<rparr> (sb_metrics s) txm))"
  by (simp add: publish_inclusion_def Let_def)

lemma zk_session_keeps [simp]:
  "sb_txm (snd (zk_session cfg env s)) = sb_txm s" "sb_metrics (snd (zk_session cfg env s)) = sb_metrics s"
  "sb_timeoutMs (snd (zk_session cfg env s)) = sb_timeoutMs s"
  by (auto simp: zk_session_def split: sum.split)

section \<open>Properties\<close>

text \<open>What \<open>POST /submit\<close> returns: the inclusion names a domain the relayer serves (the one asked
  for when it is served), the aggregation zkVerify put the proof into under the fixed version
  and variant, and the path of that aggregation in the receipt's block; and it does not depend
  on how the publication of the root goes, which only touches the manager and the metrics.\<close>

theorem submit_inclusion_spec:
  assumes "submit_proof cfg env req s = (Inr i, s')" "rc_zkVerifyDomainIds cfg \<noteq> []"
  shows "in_domainId i \<in> set (rc_zkVerifyDomainIds cfg)
    \<and> (case sq_domainId req of Some n \<Rightarrow> of_int n \<in> set (rc_zkVerifyDomainIds cfg) \<longrightarrow> in_domainId i = of_int n | None \<Rightarrow> True)
    \<and> sb_session s'
    \<and> (\<exists>statement blockHash p.
          zk_execute env ''V3_0'' ''ZK'' req (in_domainId i) = Inr (in_aggregationId i, statement)
          \<and> zk_receipt env (in_domainId i) (in_aggregationId i) (sb_timeoutMs s) = Inr blockHash
          \<and> zk_path env blockHash (in_domainId i) (in_aggregationId i) (case statement of Some x \<Rightarrow> x | None \<Rightarrow> []) = Inr p
          \<and> in_root i = pt_root p \<and> in_merklePath i = pt_proof p \<and> in_leafIndex i = pt_leafIndex p)
    \<and> fst (submit_proof cfg (env\<lparr>zk_publish := pe\<rparr>) req s) = Inr i"
proof -
  let ?d = "pickDomain cfg (sq_domainId req)"
  obtain r s1 where z: "zk_session cfg env s = (r, s1)" by fastforce
  have z': "zk_session cfg (env\<lparr>zk_publish := pe\<rparr>) s = (r, s1)" using z by (auto simp: zk_session_def split: sum.splits)
  have t: "sb_timeoutMs s1 = sb_timeoutMs s" using zk_session_keeps(3) [of cfg env s] z by simp
  have c: "isConfigured cfg" using assms(1) by (auto simp: submit_proof_def split: if_splits)
  have o: "r = Inr u \<Longrightarrow> sb_session s1" for u
    using z by (auto simp: zk_session_def split: if_splits sum.splits)
  have run: "doSubmit cfg env req ?d s = (Inr i, s')" using assms(1) c by (simp add: submit_proof_def)
  then obtain a statement blockHash p where
    ex: "r = Inr ()" "zk_execute env ''V3_0'' ''ZK'' req ?d = Inr (a, statement)"
      "zk_receipt env ?d a (sb_timeoutMs s) = Inr blockHash"
      "zk_path env blockHash ?d a (case statement of Some x \<Rightarrow> x | None \<Rightarrow> []) = Inr p"
    and i: "i = \<lparr>in_domainId = ?d, in_aggregationId = a, in_root = pt_root p, in_leafCount = pt_numberOfLeaves p,
                   in_merklePath = pt_proof p, in_leafIndex = pt_leafIndex p\<rparr>"
    and s': "s' = publish_inclusion env ?d a p s1"
    by (auto simp: doSubmit_def z t Let_def split: sum.splits prod.splits)
  have "fst (submit_proof cfg (env\<lparr>zk_publish := pe\<rparr>) req s) = Inr i"
    using ex c i t by (simp add: submit_proof_def doSubmit_def z')
  then show ?thesis
    using ex i s' o [OF ex(1)] pickDomain_served [OF assms(2)] pickDomain_asked [of _ cfg]
    by (auto split: option.split)
qed

definition demo_relayer_env :: environment where
  "demo_relayer_env k =
     (if k \<in> {''RELAYER_PRIVATE_KEY'', ''RELAYER_ADDRESS'', ''CONTRACT_DEPLOYER'', ''ZKVERIFY_SEED_PHRASE''} then Some ''x'' else None)"

definition demo_zk :: "(contract_call \<times> int) zk_env" where
  "demo_zk = \<lparr>zk_open = (\<lambda>q. Inr ()), zk_execute = (\<lambda>v w r d. Inr (7, None)), zk_receipt = (\<lambda>d a t. Inr ''0xb''),
     zk_path = (\<lambda>b d a st. Inr \<lparr>pt_root = demo_word, pt_numberOfLeaves = 8, pt_proof = [demo_word], pt_leafIndex = 3\<rparr>),
     zk_publish = demo_publish\<rparr>"

definition demo_submitter :: "(contract_call \<times> int) submitter" where
  "demo_submitter = \<lparr>sb_session = False, sb_timeoutMs = 300000, sb_txm = None, sb_metrics = new_Metrics\<rparr>"

definition demo_submit :: submit_request where
  "demo_submit = \<lparr>sq_proof = ''0x01'', sq_publicInputs = [''0x02''], sq_vk = ''0x03'', sq_domainId = Some 9\<rparr>"

definition demo_relayer_config :: relayer_config where
  "demo_relayer_config = config_with demo_relayer_env ''x'' ''x'' ''x''"

lemma demo_relayer_facts:
  "rc_zkVerifyDomainIds demo_relayer_config = [0]" "rc_zkVerifySeed demo_relayer_config = Some ''x''"
proof -
  have "js_Number_text (js_trim ''0'') = Some 0" by code_simp
  then show "rc_zkVerifyDomainIds demo_relayer_config = [0]"
    by (simp add: demo_relayer_config_def config_with_def Let_def zkVerify_domains_def str_def demo_relayer_env_def
        List.map_filter_def)
qed (simp add: demo_relayer_config_def config_with_def Let_def demo_relayer_env_def)

theorem submit_inclusion_spec_witness:
  "\<exists>i s'. submit_proof demo_relayer_config demo_zk demo_submit demo_submitter = (Inr i, s') \<and> in_domainId i = 0
     \<and> fst (submit_proof demo_relayer_config (demo_zk\<lparr>zk_publish := demo_publish\<lparr>pe_submit := \<lambda>v. refusing_env\<rparr>\<rparr>)
              demo_submit demo_submitter) = Inr i"
proof -
  have ne: "rc_zkVerifyDomainIds demo_relayer_config \<noteq> []" by (simp add: demo_relayer_facts)
  have "\<exists>i s'. submit_proof demo_relayer_config demo_zk demo_submit demo_submitter = (Inr i, s')"
    by (simp add: submit_proof_def isConfigured_def demo_relayer_facts doSubmit_def zk_session_def demo_zk_def
        demo_submitter_def Let_def)
  then obtain i s' where r: "submit_proof demo_relayer_config demo_zk demo_submit demo_submitter = (Inr i, s')" by blast
  from submit_inclusion_spec [OF r ne, of "demo_publish\<lparr>pe_submit := \<lambda>v. refusing_env\<rparr>"] r
  show ?thesis by (auto simp: demo_relayer_facts)
qed

end
