(* ===== verification/RelayApi.thy ===== *)
theory RelayApi
  imports Submitter
begin

text \<open>
  The relayer's HTTP routes, \<open>services/relayer/api/index.ts\<close>, over the service, the proof
  submitter and the limiter of \<open>POST /submit\<close>. A request is a constructor of \<open>relay_api_request\<close>, a
  reply a status and a body. \<open>handle\<close> is the dispatch of \<open>registerRoutes\<close>; the server around it
  (parsing, CORS, listening) belongs to the package. What the outside answers to a request is in
  its environment.
\<close>

datatype http_body =
    BodyJson json
  | BodyText string
  | BodyReady readiness
  | BodyInfo relayer_info bool
  | BodyAccepted relay_accepted
  | BodyJobs "relay_job list"
  | BodyInclusion proof_inclusion

record http_reply =
  hr_status :: nat
  hr_body :: http_body

definition json_error :: "string \<Rightarrow> string \<Rightarrow> http_body" where
  "json_error code msg = BodyJson (JObj [(''error'', JStr code), (''message'', JStr msg)])"

definition clientKey :: "string option \<Rightarrow> string" where
  "clientKey ip = (case ip of Some a \<Rightarrow> a | None \<Rightarrow> ''anonymous'')"

definition fail_reply :: "relay_error \<Rightarrow> http_reply" where
  "fail_reply e =
     (case e of
        RelayError code msg st \<Rightarrow> \<lparr>hr_status = st, hr_body = json_error code msg\<rparr>
      | OtherError _ \<Rightarrow> \<lparr>hr_status = 500, hr_body = json_error ''internal_error'' ''unexpected failure''\<rparr>)"

section \<open>The body of a submission\<close>

definition text_between :: "nat \<Rightarrow> nat \<Rightarrow> string \<Rightarrow> bool" where
  "text_between lo hi s \<longleftrightarrow> lo \<le> length s \<and> length s \<le> hi"

definition submitSchema :: "submit_request schema" where
  "submitSchema = z_object (\<lambda>b.
     rbind (z_field b ''proof'' (z_string (text_between 2 200000))) (\<lambda>proof.
     rbind (z_field b ''publicInputs'' (z_array (z_string (text_between 0 200)) 1 2048)) (\<lambda>pub.
     rbind (z_field b ''vk'' (z_string (text_between 2 2000000))) (\<lambda>vk.
     rbind (z_field b ''domainId'' (z_optional (z_int (\<lambda>i. 0 \<le> i \<and> i \<le> 65535)))) (\<lambda>d.
       Inr \<lparr>sq_proof = proof, sq_publicInputs = pub, sq_vk = vk, sq_domainId = d\<rparr>)))))"

section \<open>The routes\<close>

fun state_name :: "job_state \<Rightarrow> string" where
  "state_name Queued = ''queued''"
| "state_name Validating = ''validating''"
| "state_name Submitting = ''submitting''"
| "state_name Confirmed = ''confirmed''"
| "state_name Failed = ''failed''"

text \<open>A field that is \<open>undefined\<close> is absent from the JSON.\<close>

definition opt_field :: "string \<Rightarrow> string option \<Rightarrow> (string \<times> json) list" where
  "opt_field k v = (case v of Some s \<Rightarrow> [(k, JStr s)] | None \<Rightarrow> [])"

definition job_status_json :: "relay_job \<Rightarrow> json" where
  "job_status_json job = JObj
     ([(''jobId'', JStr (rj_id job)), (''operation'', JStr (operation_name (rj_operation job))),
       (''state'', JStr (state_name (rj_state job)))]
      @ opt_field ''txid'' (rj_txid job) @ opt_field ''error'' (rj_error job)
      @ [(''attempts'', JNum (of_nat (rj_attempts job)))])"

record submit_rate =
  sr_max :: nat
  sr_windowMs :: int

record 'tx relay_api_config =
  ac_service :: service_config
  ac_relayer :: relayer_config
  ac_hasSubmitter :: bool
  ac_rate :: "submit_rate option"

record 'tx api_state =
  as_service :: "'tx service"
  as_submitter :: "'tx submitter"
  as_limiter :: limiter

record 'tx api_env =
  av_accept :: accept_env
  av_balance :: balance_reply
  av_now :: int
  av_zk :: "'tx zk_env"

datatype relay_api_request =
    GetHealth
  | GetReady
  | GetInfo
  | GetMetrics
  | GetDeadLetter
  | PostOperation string "string option" "json option"
  | GetStatus string
  | PostSubmit "string option" "json option"
  | OtherRequest

definition route_operation ::
  "'tx relay_api_config \<Rightarrow> 'tx api_env \<Rightarrow> operation \<Rightarrow> string option \<Rightarrow> json option \<Rightarrow> 'tx api_state \<Rightarrow> http_reply \<times> 'tx api_state" where
  "route_operation cfg env op ip body st =
     (let (res, sv) = accept (ac_service cfg) (av_accept env) (operation_name op) body (clientKey ip) (as_service st);
          st1 = st\<lparr>as_service := sv\<rparr>
      in case res of
           Inr a \<Rightarrow> (\<lparr>hr_status = 202, hr_body = BodyAccepted a\<rparr>, st1)
         | Inl e \<Rightarrow> (fail_reply e, st1))"

definition route_status :: "string \<Rightarrow> 'tx api_state \<Rightarrow> http_reply" where
  "route_status jobId st =
     (case status jobId (as_service st) of
        None \<Rightarrow> \<lparr>hr_status = 404, hr_body = json_error ''not_found'' ''unknown job''\<rparr>
      | Some job \<Rightarrow> \<lparr>hr_status = 200, hr_body = BodyJson (job_status_json job)\<rparr>)"

definition default_rate :: submit_rate where
  "default_rate = \<lparr>sr_max = 20, sr_windowMs = 60000\<rparr>"

definition route_submit ::
  "'tx relay_api_config \<Rightarrow> 'tx api_env \<Rightarrow> string option \<Rightarrow> json option \<Rightarrow> 'tx api_state \<Rightarrow> http_reply \<times> 'tx api_state" where
  "route_submit cfg env ip body st =
     (if \<not> isConfigured (ac_relayer cfg)
      then (\<lparr>hr_status = 503, hr_body = json_error ''unavailable'' ''proof submission is not enabled on this relayer''\<rparr>, st)
      else
        (let rate = or_default (ac_rate cfg) default_rate;
             (ok, lim) = allow (sr_max rate) (sr_windowMs rate) (av_now env) (clientKey ip) (as_limiter st);
             st1 = st\<lparr>as_limiter := lim\<rparr>
         in if \<not> ok
            then (\<lparr>hr_status = 429, hr_body = json_error ''rate_limited'' ''too many submissions; retry shortly''\<rparr>, st1)
            else (case submitSchema body of
                    Inl issue \<Rightarrow> (\<lparr>hr_status = 400, hr_body = json_error ''invalid_request'' ''malformed proof payload''\<rparr>, st1)
                  | Inr req \<Rightarrow>
                      (let (res, sb) = submit_proof (ac_relayer cfg) (av_zk env) req (as_submitter st1);
                           st2 = st1\<lparr>as_submitter := sb\<rparr>
                       in case res of
                            Inr i \<Rightarrow> (\<lparr>hr_status = 200, hr_body = BodyInclusion i\<rparr>, st2)
                          | Inl e \<Rightarrow> (fail_reply e, st2)))))"

text \<open>The package's reply to a path no route has; its text is not modelled.\<close>

definition reply_not_found :: http_reply where
  "reply_not_found = \<lparr>hr_status = 404, hr_body = json_error ''Not Found'' []\<rparr>"

fun handle :: "'tx relay_api_config \<Rightarrow> 'tx api_env \<Rightarrow> relay_api_request \<Rightarrow> 'tx api_state \<Rightarrow> http_reply \<times> 'tx api_state" where
  "handle cfg env GetHealth st = (\<lparr>hr_status = 200, hr_body = BodyJson (JObj [(''ok'', JBool True)])\<rparr>, st)"
| "handle cfg env GetReady st =
     (let (r, sv) = ready (ac_service cfg) (av_balance env) (as_service st)
      in (\<lparr>hr_status = (if rd_ready r then 200 else 503), hr_body = BodyReady r\<rparr>, st\<lparr>as_service := sv\<rparr>))"
| "handle cfg env GetInfo st =
     (\<lparr>hr_status = 200, hr_body = BodyInfo (info (ac_service cfg) (as_service st))
         (ac_hasSubmitter cfg \<and> isConfigured (ac_relayer cfg))\<rparr>, st)"
| "handle cfg env GetMetrics st = (\<lparr>hr_status = 200, hr_body = BodyText (prometheus (sv_metrics (as_service st)))\<rparr>, st)"
| "handle cfg env GetDeadLetter st =
     (\<lparr>hr_status = 200, hr_body = BodyJobs (mq_deadLetter (sv_queue (as_service st)))\<rparr>, st)"
| "handle cfg env (PostOperation name ip body) st =
     (case find (\<lambda>op. operation_name op = name) OPERATIONS of
        Some op \<Rightarrow> route_operation cfg env op ip body st
      | None \<Rightarrow> (reply_not_found, st))"
| "handle cfg env (GetStatus jobId) st = (route_status jobId st, st)"
| "handle cfg env (PostSubmit ip body) st =
     (if ac_hasSubmitter cfg then route_submit cfg env ip body st else (reply_not_found, st))"
| "handle cfg env OtherRequest st = (reply_not_found, st)"

section \<open>Facts\<close>

text \<open>A job with its request replaced.\<close>

definition with_request :: "relay_request \<Rightarrow> relay_job \<Rightarrow> relay_job" where
  "with_request r job = job\<lparr>rj_request := r\<rparr>"

definition swap_request :: "string \<Rightarrow> relay_request \<Rightarrow> 'tx api_state \<Rightarrow> 'tx api_state" where
  "swap_request jid r st =
     st\<lparr>as_service := (as_service st)\<lparr>sv_queue := (sv_queue (as_service st))
          \<lparr>mq_jobs := map (\<lambda>(k, j). (k, if k = jid then with_request r j else j)) (mq_jobs (sv_queue (as_service st)))\<rparr>\<rparr>\<rparr>"

lemma swap_get:
  "map_of (map (\<lambda>(k, j). (k, if k = jid then f j else j)) m) k =
     (if k = jid then map_option f (map_of m k) else map_of m k)"
  by (induction m) auto

lemma job_status_with_request [simp]: "job_status_json (with_request r job) = job_status_json job"
  by (simp add: job_status_json_def with_request_def)

lemma route_status_swap: "route_status k (swap_request jid r st) = route_status k st"
  by (simp add: route_status_def status_def mq_get_def swap_request_def swap_get split: option.split)

lemma find_operation: "find (\<lambda>op. operation_name op = name) OPERATIONS = Some op \<Longrightarrow> name = operation_name op"
  by (auto simp: find_Some_iff)

lemma find_operation_name [simp]: "find (\<lambda>op'. operation_name op' = operation_name op) OPERATIONS = Some op"
  by (cases op) (simp_all add: OPERATIONS_def)

lemma submitSchema_Inr:
  assumes "submitSchema body = Inr req"
  shows "2 \<le> length (sq_proof req) \<and> length (sq_proof req) \<le> 200000
    \<and> sq_publicInputs req \<noteq> [] \<and> length (sq_publicInputs req) \<le> 2048
    \<and> (\<forall>p \<in> set (sq_publicInputs req). length p \<le> 200)
    \<and> 2 \<le> length (sq_vk req) \<and> length (sq_vk req) \<le> 2000000
    \<and> (\<forall>d. sq_domainId req = Some d \<longrightarrow> 0 \<le> d \<and> d \<le> 65535)"
proof -
  obtain b pub where "req = \<lparr>sq_proof = sq_proof req, sq_publicInputs = pub, sq_vk = sq_vk req, sq_domainId = sq_domainId req\<rparr>"
    and f: "z_field b ''proof'' (z_string (text_between 2 200000)) = Inr (sq_proof req)"
      "z_field b ''publicInputs'' (z_array (z_string (text_between 0 200)) 1 2048) = Inr pub"
      "z_field b ''vk'' (z_string (text_between 2 2000000)) = Inr (sq_vk req)"
      "z_field b ''domainId'' (z_optional (z_int (\<lambda>i. 0 \<le> i \<and> i \<le> 65535))) = Inr (sq_domainId req)"
    using assms by (auto simp: submitSchema_def z_object_Inr)
  then have p: "sq_publicInputs req = pub" by (metis submit_request.select_convs(2))
  have "\<forall>x \<in> set pub. length x \<le> 200"
    using f(2) by (auto simp: z_field_Inr z_array_Inr z_string_Inr text_between_def list_all2_conv_all_nth in_set_conv_nth)
  then show ?thesis
    using f p by (auto simp: z_field_Inr z_string_Inr z_array_Inr z_optional_Inr z_int_Inr text_between_def)
qed

section \<open>Properties\<close>

text \<open>\<open>GET /status\<close> says nothing of a request: replacing the request body of any job by any other
  changes no reply of the route. \<open>GET /dead-letter\<close>, which needs no credentials either,
  returns every dead job whole, so it does give the request bodies away.\<close>

theorem status_hides_request:
  "fst (handle cfg env (GetStatus k) (swap_request jid r st)) = fst (handle cfg env (GetStatus k) st)
   \<and> hr_body (fst (handle cfg env GetDeadLetter st)) =
       BodyJobs (List.map_filter (\<lambda>d. status d (as_service st)) (mq_dead (sv_queue (as_service st))))"
  by (simp add: route_status_swap mq_deadLetter_def status_def mq_get_def)

text \<open>The relayer's account for zkVerify is only spent on requests that pass every gate: whenever
  \<open>POST /submit\<close> changes the submitter or answers with an inclusion, the submitter is
  configured, the limiter let the client through, and the proof, the public inputs, the key
  and the domain of the parsed body are within their bounds; every other request leaves the
  submitter and the service as they were.\<close>

theorem submit_route_guarded:
  assumes "handle cfg env (PostSubmit ip body) st = (reply, st')"
    and "as_submitter st' \<noteq> as_submitter st \<or> hr_status reply = 200"
  shows "ac_hasSubmitter cfg \<and> isConfigured (ac_relayer cfg)
    \<and> fst (allow (sr_max (or_default (ac_rate cfg) default_rate)) (sr_windowMs (or_default (ac_rate cfg) default_rate))
             (av_now env) (clientKey ip) (as_limiter st))
    \<and> (\<exists>req. submitSchema body = Inr req \<and> length (sq_proof req) \<le> 200000
          \<and> sq_publicInputs req \<noteq> [] \<and> length (sq_publicInputs req) \<le> 2048 \<and> length (sq_vk req) \<le> 2000000
          \<and> (\<forall>d. sq_domainId req = Some d \<longrightarrow> 0 \<le> d \<and> d \<le> 65535))
    \<and> as_service st' = as_service st"
proof -
  let ?rate = "or_default (ac_rate cfg) default_rate"
  obtain ok lim where l: "allow (sr_max ?rate) (sr_windowMs ?rate) (av_now env) (clientKey ip) (as_limiter st) = (ok, lim)"
    by fastforce
  have c: "ac_hasSubmitter cfg" "isConfigured (ac_relayer cfg)"
    using assms by (auto simp: reply_not_found_def route_submit_def split: if_splits)
  have k: "ok" using assms c l by (cases ok) (auto simp: route_submit_def Let_def)
  obtain req where r: "submitSchema body = Inr req"
    using assms c l k by (cases "submitSchema body") (auto simp: route_submit_def Let_def)
  obtain res sb where "submit_proof (ac_relayer cfg) (av_zk env) req (as_submitter st) = (res, sb)" by fastforce
  then have "as_service st' = as_service st"
    using assms(1) c l k r by (auto simp: route_submit_def Let_def split: sum.splits)
  then show ?thesis using c l k r submitSchema_Inr [OF r] by auto
qed

definition demo_api_config :: "(contract_call \<times> int) relay_api_config" where
  "demo_api_config = \<lparr>ac_service = demo_cfg, ac_relayer = demo_relayer_config, ac_hasSubmitter = True, ac_rate = None\<rparr>"

definition demo_api_env :: "(contract_call \<times> int) api_env" where
  "demo_api_env = \<lparr>av_accept = \<lparr>ae_issue_text = (\<lambda>i. ''invalid''), ae_reader = demo_reader, ae_balance = BalanceNotOk,
     ae_now = 0, ae_uniq = ''u''\<rparr>, av_balance = BalanceNotOk, av_now = 0, av_zk = demo_zk\<rparr>"

definition demo_api_state :: "(contract_call \<times> int) api_state" where
  "demo_api_state = \<lparr>as_service = demo_service, as_submitter = demo_submitter, as_limiter = []\<rparr>"

definition demo_submit_body :: json where
  "demo_submit_body = JObj [(''proof'', JStr ''0x01''), (''publicInputs'', JArr [JStr ''0x02'']), (''vk'', JStr ''0x03'')]"

theorem submit_route_guarded_witness:
  "\<exists>reply st'. handle demo_api_config demo_api_env (PostSubmit None (Some demo_submit_body)) demo_api_state = (reply, st')
     \<and> hr_status reply = 200 \<and> as_service st' = as_service demo_api_state"
proof -
  let ?req = "\<lparr>sq_proof = ''0x01'', sq_publicInputs = [''0x02''], sq_vk = ''0x03'', sq_domainId = None\<rparr>"
  have s: "submitSchema (Some demo_submit_body) = Inr ?req"
    by (simp add: submitSchema_def demo_submit_body_def z_object_def z_field_def z_string_def z_array_def z_optional_def
        text_between_def at_path_def)
  obtain i sb where p: "submit_proof demo_relayer_config demo_zk ?req demo_submitter = (Inr i, sb)"
    by (simp add: submit_proof_def isConfigured_def demo_relayer_facts doSubmit_def zk_session_def demo_zk_def
        demo_submitter_def Let_def)
  have c: "isConfigured demo_relayer_config" by (simp add: isConfigured_def demo_relayer_facts)
  obtain reply st' where h: "handle demo_api_config demo_api_env (PostSubmit None (Some demo_submit_body)) demo_api_state = (reply, st')"
    by fastforce
  have ok: "hr_status reply = 200"
    using h s p c by (auto simp: demo_api_config_def demo_api_env_def demo_api_state_def route_submit_def allow_def Let_def)
  from submit_route_guarded [OF h] ok h show ?thesis by auto
qed

end
