(* ===== verification/SdkTx.thy ===== *)
theory SdkTx
  imports TxManager
begin

text \<open>
  The SDK's side of an operation, \<open>sdk/transactions/index.ts\<close>: \<open>TransactionBuilder\<close> makes the
  contract call a user signs, \<open>toRelayPayload\<close> the JSON body a relayer gets instead. The
  constructors of the package are the same parameter \<open>mk\<close> as in the relayer's transaction manager.
\<close>

section \<open>Arguments\<close>

record sdk_inclusion =
  si_domainId :: int
  si_aggregationId :: int
  si_merklePath :: "bytes list"
  si_leafIndex :: int

record sdk_call =
  sk_contractAddress :: string
  sk_contractName :: string
  sk_functionName :: string
  sk_functionArgs :: "clarity_value list"

record shield_args =
  sa_amount :: int
  sa_commitment :: bytes
  sa_ownerCommitment :: bytes
  sa_metadata :: bytes
  sa_currentRoot :: bytes
  sa_newRoot :: bytes
  sa_inclusion :: sdk_inclusion

record transfer_args =
  ta_nullifier :: bytes
  ta_newCommitment :: bytes
  ta_newOwnerCommitment :: bytes
  ta_newMetadata :: bytes
  ta_currentRoot :: bytes
  ta_newRoot :: bytes
  ta_inclusion :: sdk_inclusion

record withdraw_args =
  wa_nullifier :: bytes
  wa_amount :: int
  wa_recipient :: string
  wa_root :: bytes
  wa_inclusion :: sdk_inclusion

record split_args =
  pa_nullifier :: bytes
  pa_commitment1 :: bytes
  pa_ownerCommitment1 :: bytes
  pa_metadata1 :: bytes
  pa_commitment2 :: bytes
  pa_ownerCommitment2 :: bytes
  pa_metadata2 :: bytes
  pa_currentRoot :: bytes
  pa_newRoot :: bytes
  pa_inclusion :: sdk_inclusion

record merge_args =
  ma_nullifier1 :: bytes
  ma_nullifier2 :: bytes
  ma_commitment :: bytes
  ma_ownerCommitment :: bytes
  ma_metadata :: bytes
  ma_currentRoot :: bytes
  ma_newRoot :: bytes
  ma_inclusion :: sdk_inclusion

text \<open>\<open>split(id)\<close> at the first dot; without one, \<open>indexOf\<close> is -1 and \<open>slice\<close> counts from the end.\<close>

definition split_id :: "string \<Rightarrow> string \<times> string" where
  "split_id cid =
     (if CHR ''.'' \<in> set cid
      then (takeWhile (\<lambda>c. c \<noteq> CHR ''.'') cid, tl (dropWhile (\<lambda>c. c \<noteq> CHR ''.'') cid))
      else (butlast cid, cid))"

record sdk_contracts =
  sx_pool :: string
  sx_splitMerge :: string

section \<open>The calls a user signs\<close>

definition cl_buffer :: "(clarity_value \<Rightarrow> cv_result) \<Rightarrow> bytes \<Rightarrow> cv_result" where
  "cl_buffer mk b = mk (CvBuffer b)"

definition sdk_inclusionArgs :: "(clarity_value \<Rightarrow> cv_result) \<Rightarrow> sdk_inclusion \<Rightarrow> cv_result list" where
  "sdk_inclusionArgs mk i =
     [mk (CvUInt (si_domainId i)), mk (CvUInt (si_aggregationId i)),
      rbind (rmap (cl_buffer mk) (si_merklePath i)) (\<lambda>bs. mk (CvList bs)),
      mk (CvUInt (si_leafIndex i))]"

definition tx_call :: "string \<Rightarrow> string \<Rightarrow> cv_result list \<Rightarrow> (relay_error, sdk_call) result" where
  "tx_call cid fn args =
     rbind (rseq args) (\<lambda>as.
       Inr \<lparr>sk_contractAddress = fst (split_id cid), sk_contractName = snd (split_id cid),
            sk_functionName = fn, sk_functionArgs = as\<rparr>)"

definition tx_shield :: "(clarity_value \<Rightarrow> cv_result) \<Rightarrow> sdk_contracts \<Rightarrow> shield_args \<Rightarrow> (relay_error, sdk_call) result" where
  "tx_shield mk cfg a = tx_call (sx_pool cfg) ''shield''
     ([mk (CvUInt (sa_amount a)), cl_buffer mk (sa_commitment a), cl_buffer mk (sa_ownerCommitment a),
       cl_buffer mk (sa_metadata a), cl_buffer mk (sa_currentRoot a), cl_buffer mk (sa_newRoot a)]
      @ sdk_inclusionArgs mk (sa_inclusion a))"

definition tx_transfer :: "(clarity_value \<Rightarrow> cv_result) \<Rightarrow> sdk_contracts \<Rightarrow> transfer_args \<Rightarrow> (relay_error, sdk_call) result" where
  "tx_transfer mk cfg a = tx_call (sx_pool cfg) ''transfer''
     ([cl_buffer mk (ta_nullifier a), cl_buffer mk (ta_newCommitment a), cl_buffer mk (ta_newOwnerCommitment a),
       cl_buffer mk (ta_newMetadata a), cl_buffer mk (ta_currentRoot a), cl_buffer mk (ta_newRoot a)]
      @ sdk_inclusionArgs mk (ta_inclusion a))"

definition tx_withdraw :: "(clarity_value \<Rightarrow> cv_result) \<Rightarrow> sdk_contracts \<Rightarrow> withdraw_args \<Rightarrow> (relay_error, sdk_call) result" where
  "tx_withdraw mk cfg a = tx_call (sx_pool cfg) ''withdraw''
     ([cl_buffer mk (wa_nullifier a), mk (CvUInt (wa_amount a)), mk (CvPrincipal (wa_recipient a)),
       cl_buffer mk (wa_root a)]
      @ sdk_inclusionArgs mk (wa_inclusion a))"

definition tx_split :: "(clarity_value \<Rightarrow> cv_result) \<Rightarrow> sdk_contracts \<Rightarrow> split_args \<Rightarrow> (relay_error, sdk_call) result" where
  "tx_split mk cfg a = tx_call (sx_splitMerge cfg) ''split-note''
     ([cl_buffer mk (pa_nullifier a), cl_buffer mk (pa_commitment1 a), cl_buffer mk (pa_ownerCommitment1 a),
       cl_buffer mk (pa_metadata1 a), cl_buffer mk (pa_commitment2 a), cl_buffer mk (pa_ownerCommitment2 a),
       cl_buffer mk (pa_metadata2 a), cl_buffer mk (pa_currentRoot a), cl_buffer mk (pa_newRoot a)]
      @ sdk_inclusionArgs mk (pa_inclusion a))"

definition tx_merge :: "(clarity_value \<Rightarrow> cv_result) \<Rightarrow> sdk_contracts \<Rightarrow> merge_args \<Rightarrow> (relay_error, sdk_call) result" where
  "tx_merge mk cfg a = tx_call (sx_splitMerge cfg) ''merge-notes''
     ([cl_buffer mk (ma_nullifier1 a), cl_buffer mk (ma_nullifier2 a), cl_buffer mk (ma_commitment a),
       cl_buffer mk (ma_ownerCommitment a), cl_buffer mk (ma_metadata a), cl_buffer mk (ma_currentRoot a),
       cl_buffer mk (ma_newRoot a)]
      @ sdk_inclusionArgs mk (ma_inclusion a))"

section \<open>The bodies a relayer gets\<close>

definition jhex :: "bytes \<Rightarrow> json" where
  "jhex b = JStr (toHex b)"

definition jint :: "int \<Rightarrow> json" where
  "jint i = JNum (of_int i)"

text \<open>\<open>JSON.stringify\<close> leaves out a field that is \<open>undefined\<close>.\<close>

definition payload_field :: "string option \<Rightarrow> (string \<times> json) list" where
  "payload_field e = (case e of Some s \<Rightarrow> [(''encryptedPayload'', JStr s)] | None \<Rightarrow> [])"

definition relayInclusion :: "sdk_inclusion \<Rightarrow> json" where
  "relayInclusion i = JObj
     [(''domainId'', jint (si_domainId i)), (''aggregationId'', jint (si_aggregationId i)),
      (''merklePath'', JArr (map jhex (si_merklePath i))), (''leafIndex'', jint (si_leafIndex i))]"

definition payload_transfer :: "transfer_args \<Rightarrow> string option \<Rightarrow> json" where
  "payload_transfer a e = JObj
     ([(''nullifier'', jhex (ta_nullifier a)), (''newCommitment'', jhex (ta_newCommitment a)),
       (''newOwnerCommitment'', jhex (ta_newOwnerCommitment a)), (''newMetadata'', jhex (ta_newMetadata a)),
       (''currentRoot'', jhex (ta_currentRoot a)), (''newRoot'', jhex (ta_newRoot a)),
       (''inclusion'', relayInclusion (ta_inclusion a))] @ payload_field e)"

definition payload_withdraw :: "withdraw_args \<Rightarrow> json" where
  "payload_withdraw a = JObj
     [(''nullifier'', jhex (wa_nullifier a)), (''amount'', JStr (dec_of_int (wa_amount a))),
      (''recipient'', JStr (wa_recipient a)), (''root'', jhex (wa_root a)),
      (''inclusion'', relayInclusion (wa_inclusion a))]"

definition payload_split :: "split_args \<Rightarrow> string option \<Rightarrow> json" where
  "payload_split a e = JObj
     ([(''nullifier'', jhex (pa_nullifier a)), (''commitment1'', jhex (pa_commitment1 a)),
       (''ownerCommitment1'', jhex (pa_ownerCommitment1 a)), (''metadata1'', jhex (pa_metadata1 a)),
       (''commitment2'', jhex (pa_commitment2 a)), (''ownerCommitment2'', jhex (pa_ownerCommitment2 a)),
       (''metadata2'', jhex (pa_metadata2 a)), (''currentRoot'', jhex (pa_currentRoot a)),
       (''newRoot'', jhex (pa_newRoot a)), (''inclusion'', relayInclusion (pa_inclusion a))] @ payload_field e)"

definition payload_merge :: "merge_args \<Rightarrow> string option \<Rightarrow> json" where
  "payload_merge a e = JObj
     ([(''nullifier1'', jhex (ma_nullifier1 a)), (''nullifier2'', jhex (ma_nullifier2 a)),
       (''commitment'', jhex (ma_commitment a)), (''ownerCommitment'', jhex (ma_ownerCommitment a)),
       (''metadata'', jhex (ma_metadata a)), (''currentRoot'', jhex (ma_currentRoot a)),
       (''newRoot'', jhex (ma_newRoot a)), (''inclusion'', relayInclusion (ma_inclusion a))] @ payload_field e)"

section \<open>What crosses the boundary\<close>

definition word32 :: "bytes \<Rightarrow> bool" where
  "word32 b \<longleftrightarrow> length b = 32"

definition safe_nat :: "int \<Rightarrow> bool" where
  "safe_nat i \<longleftrightarrow> 0 \<le> i \<and> i \<le> MAX_SAFE_INTEGER"

definition sdk_inclusion_ok :: "sdk_inclusion \<Rightarrow> bool" where
  "sdk_inclusion_ok i \<longleftrightarrow> safe_nat (si_domainId i) \<and> safe_nat (si_aggregationId i) \<and> safe_nat (si_leafIndex i)
     \<and> length (si_merklePath i) \<le> 32 \<and> list_all word32 (si_merklePath i)"

lemma word_of_toHex [simp]: "word_of (toHex b) = CvBuffer b"
  by (simp add: word_of_def toHex_def)

lemma isBytes32_toHex: "word32 b \<Longrightarrow> isBytes32 (toHex b)"
  using bytesToHexStr_is_hex [of b]
  by (simp add: isBytes32_def hex_of_length_def toHex_def js_startsWith_def word32_def)

lemma jhex_Bytes32: "word32 b \<Longrightarrow> Bytes32 (Some (jhex b)) = Inr (toHex b)"
  by (simp add: jhex_def Bytes32_Inr isBytes32_toHex)

lemma jint_z_int: "safe_nat i \<Longrightarrow> z_int nonnegative (Some (jint i)) = Inr i"
  by (simp add: jint_def z_int_Inr nonnegative_def safe_nat_def)

definition relayed_inclusion :: "sdk_inclusion \<Rightarrow> inclusion" where
  "relayed_inclusion i = \<lparr>inc_domainId = si_domainId i, inc_aggregationId = si_aggregationId i,
     inc_merklePath = map toHex (si_merklePath i), inc_leafIndex = si_leafIndex i\<rparr>"

lemma relayInclusion_parses:
  assumes "sdk_inclusion_ok i"
  shows "InclusionSchema (Some (relayInclusion i)) = Inr (relayed_inclusion i)"
proof -
  have "list_all2 (\<lambda>v x. Bytes32 (Some v) = Inr x) (map jhex (si_merklePath i)) (map toHex (si_merklePath i))"
    using assms by (auto simp: sdk_inclusion_ok_def list_all2_conv_all_nth list_all_length jhex_Bytes32)
  then show ?thesis
    using assms jint_z_int
    by (simp add: InclusionSchema_def relayInclusion_def relayed_inclusion_def sdk_inclusion_ok_def z_object_Inr z_field_Inr
        z_array_Inr)
qed

definition relayed_base :: "sdk_inclusion \<Rightarrow> string option \<Rightarrow> relay_base" where
  "relayed_base i e = \<lparr>rb_inclusion = relayed_inclusion i, rb_authorization = None, rb_encryptedPayload = e, rb_token = None\<rparr>"

lemma payload_field_get [simp]:
  "map_of (payload_field e) ''encryptedPayload'' = map_option JStr e"
  "k \<noteq> ''encryptedPayload'' \<Longrightarrow> map_of (payload_field e) k = None"
  by (auto simp: payload_field_def split: option.split)

lemma base_parses:
  assumes "sdk_inclusion_ok i" "json_field v ''inclusion'' = Some (relayInclusion i)" "json_field v ''authorization'' = None"
    "json_field v ''token'' = None" "json_field v ''encryptedPayload'' = map_option JStr e"
  shows "base_schema v = Inr (relayed_base i e)"
  using assms relayInclusion_parses [OF assms(1)]
  by (cases e)
    (simp_all add: base_schema_def z_field_def AuthorizationSchema_def z_optional_def at_path_def relayed_base_def z_string_def)

lemma no_leaf: "leafIndex_schema None = Inr None"
  by (simp add: leafIndex_schema_def z_optional_def)

definition transfer_args_ok :: "transfer_args \<Rightarrow> bool" where
  "transfer_args_ok a \<longleftrightarrow> sdk_inclusion_ok (ta_inclusion a)
     \<and> list_all word32 [ta_nullifier a, ta_newCommitment a, ta_newOwnerCommitment a, ta_newMetadata a,
         ta_currentRoot a, ta_newRoot a]"

definition withdraw_args_ok :: "withdraw_args \<Rightarrow> bool" where
  "withdraw_args_ok a \<longleftrightarrow> sdk_inclusion_ok (wa_inclusion a) \<and> word32 (wa_nullifier a) \<and> word32 (wa_root a)
     \<and> 0 \<le> wa_amount a \<and> isPrincipal (wa_recipient a)"

definition split_args_ok :: "split_args \<Rightarrow> bool" where
  "split_args_ok a \<longleftrightarrow> sdk_inclusion_ok (pa_inclusion a)
     \<and> list_all word32 [pa_nullifier a, pa_commitment1 a, pa_ownerCommitment1 a, pa_metadata1 a, pa_commitment2 a,
         pa_ownerCommitment2 a, pa_metadata2 a, pa_currentRoot a, pa_newRoot a]"

definition merge_args_ok :: "merge_args \<Rightarrow> bool" where
  "merge_args_ok a \<longleftrightarrow> sdk_inclusion_ok (ma_inclusion a)
     \<and> list_all word32 [ma_nullifier1 a, ma_nullifier2 a, ma_commitment a, ma_ownerCommitment a, ma_metadata a,
         ma_currentRoot a, ma_newRoot a]"

text \<open>The requests the relayer reads out of the payloads.\<close>

definition relayed_transfer :: "transfer_args \<Rightarrow> string option \<Rightarrow> relay_request" where
  "relayed_transfer a e = TransferReq (relay_base.extend (relayed_base (ta_inclusion a) e)
     (transfer_request.fields (toHex (ta_nullifier a)) (toHex (ta_newCommitment a)) (toHex (ta_newOwnerCommitment a))
        (toHex (ta_newMetadata a)) (toHex (ta_currentRoot a)) (toHex (ta_newRoot a)) None))"

definition relayed_withdraw :: "withdraw_args \<Rightarrow> relay_request" where
  "relayed_withdraw a = WithdrawReq (relay_base.extend (relayed_base (wa_inclusion a) None)
     (withdraw_request.fields (toHex (wa_nullifier a)) (dec_of_int (wa_amount a)) (wa_recipient a) (toHex (wa_root a))))"

definition relayed_split :: "split_args \<Rightarrow> string option \<Rightarrow> relay_request" where
  "relayed_split a e = SplitReq (relay_base.extend (relayed_base (pa_inclusion a) e)
     (split_request.fields (toHex (pa_nullifier a)) (toHex (pa_commitment1 a)) (toHex (pa_ownerCommitment1 a))
        (toHex (pa_metadata1 a)) (toHex (pa_commitment2 a)) (toHex (pa_ownerCommitment2 a)) (toHex (pa_metadata2 a))
        (toHex (pa_currentRoot a)) (toHex (pa_newRoot a)) None))"

definition relayed_merge :: "merge_args \<Rightarrow> string option \<Rightarrow> relay_request" where
  "relayed_merge a e = MergeReq (relay_base.extend (relayed_base (ma_inclusion a) e)
     (merge_request.fields (toHex (ma_nullifier1 a)) (toHex (ma_nullifier2 a)) (toHex (ma_commitment a))
        (toHex (ma_ownerCommitment a)) (toHex (ma_metadata a)) (toHex (ma_currentRoot a)) (toHex (ma_newRoot a)) None))"

lemma z_field_jhex: "json_field v k = Some (jhex b) \<Longrightarrow> word32 b \<Longrightarrow> z_field v k Bytes32 = Inr (toHex b)"
  by (simp add: z_field_def jhex_Bytes32 at_path_def)

lemma payload_transfer_parses:
  assumes "transfer_args_ok a"
  shows "safeParse Transfer (Some (payload_transfer a e)) = Inr (relayed_transfer a e)"
proof -
  let ?v = "payload_transfer a e"
  have b: "base_schema ?v = Inr (relayed_base (ta_inclusion a) e)"
    using assms by (intro base_parses) (simp_all add: transfer_args_ok_def payload_transfer_def)
  have w: "z_field ?v ''nullifier'' Bytes32 = Inr (toHex (ta_nullifier a))"
    "z_field ?v ''newCommitment'' Bytes32 = Inr (toHex (ta_newCommitment a))"
    "z_field ?v ''newOwnerCommitment'' Bytes32 = Inr (toHex (ta_newOwnerCommitment a))"
    "z_field ?v ''newMetadata'' Bytes32 = Inr (toHex (ta_newMetadata a))"
    "z_field ?v ''currentRoot'' Bytes32 = Inr (toHex (ta_currentRoot a))"
    "z_field ?v ''newRoot'' Bytes32 = Inr (toHex (ta_newRoot a))"
    using assms by (auto intro!: z_field_jhex simp: transfer_args_ok_def payload_transfer_def)
  have l: "z_field ?v ''leafIndex'' leafIndex_schema = Inr None"
    by (simp add: z_field_def payload_transfer_def no_leaf at_path_def)
  show ?thesis
    using b w l by (simp add: TransferRequestSchema_def z_object_def payload_transfer_def relayed_transfer_def)
qed

lemma payload_withdraw_parses:
  assumes "withdraw_args_ok a"
  shows "safeParse Withdraw (Some (payload_withdraw a)) = Inr (relayed_withdraw a)"
proof -
  let ?v = "payload_withdraw a"
  have b: "base_schema ?v = Inr (relayed_base (wa_inclusion a) None)"
    using assms by (intro base_parses) (simp_all add: withdraw_args_ok_def payload_withdraw_def)
  have w: "z_field ?v ''nullifier'' Bytes32 = Inr (toHex (wa_nullifier a))"
    "z_field ?v ''root'' Bytes32 = Inr (toHex (wa_root a))"
    using assms by (auto intro!: z_field_jhex simp: withdraw_args_ok_def payload_withdraw_def)
  have "isDecimal (dec_of_int (wa_amount a))"
    using assms dec_of_nat_is_dec by (simp add: isDecimal_def dec_of_int_def withdraw_args_ok_def list_all_iff)
  then have m: "z_field ?v ''amount'' (z_string isDecimal) = Inr (dec_of_int (wa_amount a))"
    "z_field ?v ''recipient'' Principal = Inr (wa_recipient a)"
    using assms by (simp_all add: z_field_Inr z_string_Inr Principal_Inr payload_withdraw_def withdraw_args_ok_def)
  show ?thesis
    using b w m by (simp add: WithdrawRequestSchema_def z_object_def payload_withdraw_def relayed_withdraw_def)
qed

lemma payload_split_parses:
  assumes "split_args_ok a"
  shows "safeParse Split (Some (payload_split a e)) = Inr (relayed_split a e)"
proof -
  let ?v = "payload_split a e"
  have b: "base_schema ?v = Inr (relayed_base (pa_inclusion a) e)"
    using assms by (intro base_parses) (simp_all add: split_args_ok_def payload_split_def)
  have w: "z_field ?v ''nullifier'' Bytes32 = Inr (toHex (pa_nullifier a))"
    "z_field ?v ''commitment1'' Bytes32 = Inr (toHex (pa_commitment1 a))"
    "z_field ?v ''ownerCommitment1'' Bytes32 = Inr (toHex (pa_ownerCommitment1 a))"
    "z_field ?v ''metadata1'' Bytes32 = Inr (toHex (pa_metadata1 a))"
    "z_field ?v ''commitment2'' Bytes32 = Inr (toHex (pa_commitment2 a))"
    "z_field ?v ''ownerCommitment2'' Bytes32 = Inr (toHex (pa_ownerCommitment2 a))"
    "z_field ?v ''metadata2'' Bytes32 = Inr (toHex (pa_metadata2 a))"
    "z_field ?v ''currentRoot'' Bytes32 = Inr (toHex (pa_currentRoot a))"
    "z_field ?v ''newRoot'' Bytes32 = Inr (toHex (pa_newRoot a))"
    using assms by (auto intro!: z_field_jhex simp: split_args_ok_def payload_split_def)
  have l: "z_field ?v ''leafIndex'' leafIndex_schema = Inr None"
    by (simp add: z_field_def payload_split_def no_leaf at_path_def)
  show ?thesis
    using b w l by (simp add: SplitRequestSchema_def z_object_def payload_split_def relayed_split_def)
qed

lemma payload_merge_parses:
  assumes "merge_args_ok a"
  shows "safeParse Merge (Some (payload_merge a e)) = Inr (relayed_merge a e)"
proof -
  let ?v = "payload_merge a e"
  have b: "base_schema ?v = Inr (relayed_base (ma_inclusion a) e)"
    using assms by (intro base_parses) (simp_all add: merge_args_ok_def payload_merge_def)
  have w: "z_field ?v ''nullifier1'' Bytes32 = Inr (toHex (ma_nullifier1 a))"
    "z_field ?v ''nullifier2'' Bytes32 = Inr (toHex (ma_nullifier2 a))"
    "z_field ?v ''commitment'' Bytes32 = Inr (toHex (ma_commitment a))"
    "z_field ?v ''ownerCommitment'' Bytes32 = Inr (toHex (ma_ownerCommitment a))"
    "z_field ?v ''metadata'' Bytes32 = Inr (toHex (ma_metadata a))"
    "z_field ?v ''currentRoot'' Bytes32 = Inr (toHex (ma_currentRoot a))"
    "z_field ?v ''newRoot'' Bytes32 = Inr (toHex (ma_newRoot a))"
    using assms by (auto intro!: z_field_jhex simp: merge_args_ok_def payload_merge_def)
  have l: "z_field ?v ''leafIndex'' leafIndex_schema = Inr None"
    by (simp add: z_field_def payload_merge_def no_leaf at_path_def)
  show ?thesis
    using b w l by (simp add: MergeRequestSchema_def z_object_def payload_merge_def relayed_merge_def)
qed

lemma relayed_base_of [simp]:
  "base_of (relayed_transfer a e) = relayed_base (ta_inclusion a) e"
  "base_of (relayed_withdraw w) = relayed_base (wa_inclusion w) None"
  "base_of (relayed_split s e) = relayed_base (pa_inclusion s) e"
  "base_of (relayed_merge m e) = relayed_base (ma_inclusion m) e"
  by (simp_all add: relayed_transfer_def relayed_withdraw_def relayed_split_def relayed_merge_def)

lemma relayed_declared:
  "declared_inclusion (relayed_base i e) =
     [CvUInt (si_domainId i), CvUInt (si_aggregationId i), CvList (map CvBuffer (si_merklePath i)), CvUInt (si_leafIndex i)]"
  by (simp add: declared_inclusion_def relayed_base_def relayed_inclusion_def)

lemma sdk_inclusion_returns:
  "rseq (sdk_inclusionArgs Inr i) =
     Inr [CvUInt (si_domainId i), CvUInt (si_aggregationId i), CvList (map CvBuffer (si_merklePath i)), CvUInt (si_leafIndex i)]"
  by (simp add: sdk_inclusionArgs_def cl_buffer_def rmap_Inr_all [where g = CvBuffer])

lemma relayed_token: "rb_token (relayed_base i e) = None"
  by (simp add: relayed_base_def)

section \<open>Properties\<close>

text \<open>A relayed withdrawal is the withdrawal the user could have signed: for 32-byte fields, a
  valid recipient and an inclusion within the schema's bounds, the JSON body the SDK sends
  passes the relayer's schema, and the call the relayer builds from it has the function and
  exactly the arguments, byte for byte, of the call \<open>TransactionBuilder\<close> makes.\<close>

theorem relayed_withdraw_is_direct:
  assumes "withdraw_args_ok a"
  shows "\<exists>r c d. safeParse Withdraw (Some (payload_withdraw a)) = Inr r
    \<and> buildCall Inr r = Inr c \<and> tx_withdraw Inr cfg a = Inr d
    \<and> cc_contract c = ''privacy-pool'' \<and> cc_fn c = sk_functionName d \<and> cc_args c = sk_functionArgs d"
proof -
  let ?r = "relayed_withdraw a"
  have n: "int (nat_of_dec (dec_of_int (wa_amount a))) = wa_amount a"
    using assms by (simp add: dec_of_int_def withdraw_args_ok_def)
  have op: "op_of ?r = Withdraw" by (simp add: relayed_withdraw_def)
  have "buildCall Inr ?r = Inr \<lparr>cc_contract = ''privacy-pool'', cc_fn = ''withdraw'',
      cc_args = declared_args ?r @ declared_inclusion (base_of ?r)\<rparr>"
    by (simp add: buildCall_returns token_has_name_def relayed_token needs_leaf_def op isSip10_def declared_token_def)
  moreover have "declared_args ?r = [CvBuffer (wa_nullifier a), CvUInt (wa_amount a), CvPrincipal (wa_recipient a),
      CvBuffer (wa_root a)]"
    using n by (simp add: relayed_withdraw_def relay_base.defs withdraw_request.defs)
  ultimately show ?thesis
    using payload_withdraw_parses [OF assms]
    by (intro exI [of _ ?r])
      (simp add: tx_withdraw_def tx_call_def rseq_append sdk_inclusion_returns cl_buffer_def relayed_declared
        del: safeParse.simps)
qed

definition demo_sdk_inclusion :: sdk_inclusion where
  "demo_sdk_inclusion = \<lparr>si_domainId = 0, si_aggregationId = 5, si_merklePath = [replicate 32 1], si_leafIndex = 2\<rparr>"

definition demo_withdraw_args :: withdraw_args where
  "demo_withdraw_args = \<lparr>wa_nullifier = replicate 32 2, wa_amount = 1500, wa_recipient = demo_principal,
     wa_root = replicate 32 3, wa_inclusion = demo_sdk_inclusion\<rparr>"

definition demo_transfer_args :: transfer_args where
  "demo_transfer_args = \<lparr>ta_nullifier = replicate 32 2, ta_newCommitment = replicate 32 3, ta_newOwnerCommitment = replicate 32 4,
     ta_newMetadata = replicate 32 5, ta_currentRoot = replicate 32 6, ta_newRoot = replicate 32 7, ta_inclusion = demo_sdk_inclusion\<rparr>"

lemma demo_args_ok: "withdraw_args_ok demo_withdraw_args" "transfer_args_ok demo_transfer_args"
  by (simp_all add: withdraw_args_ok_def demo_withdraw_args_def transfer_args_ok_def demo_transfer_args_def
      sdk_inclusion_ok_def demo_sdk_inclusion_def word32_def safe_nat_def MAX_SAFE_INTEGER_def demo_principal_ok)

theorem relayed_withdraw_is_direct_witness:
  "\<exists>r c d. safeParse Withdraw (Some (payload_withdraw demo_withdraw_args)) = Inr r \<and> buildCall Inr r = Inr c
     \<and> tx_withdraw Inr \<lparr>sx_pool = ''ST1.privacy-pool'', sx_splitMerge = ''ST1.split-merge-manager''\<rparr> demo_withdraw_args = Inr d
     \<and> cc_args c = sk_functionArgs d"
  using relayed_withdraw_is_direct [OF demo_args_ok(1), of "\<lparr>sx_pool = ''ST1.privacy-pool'', sx_splitMerge = ''ST1.split-merge-manager''\<rparr>"]
  by blast

text \<open>C21: The SDK's relay bodies of the three leaf-adding operations carry no leaf index: the relayer's
  schema accepts them, its validator never looks at the field, and then no call can be built,
  so each such job fails with \<open>missing_leaf_index\<close>; the call \<open>TransactionBuilder\<close> makes is one
  argument short of the contract's in the same way.\<close>

theorem relayed_leaf_operations_fail:
  assumes "transfer_args_ok t" "split_args_ok s" "merge_args_ok m"
  shows "\<forall>(op, body, direct) \<in>
      {(Transfer, payload_transfer t e, tx_transfer Inr cfg t), (Split, payload_split s e, tx_split Inr cfg s),
       (Merge, payload_merge m e, tx_merge Inr cfg m)}.
      \<exists>r. safeParse op (Some body) = Inr r
        \<and> buildCall Inr r = Inl (RelayError ''missing_leaf_index'' ''leaf-adding operations require leafIndex'' 400)
        \<and> (\<exists>d. direct = Inr d \<and> Suc (length (sk_functionArgs d)) = length (declared_args r @ declared_inclusion (base_of r)))"
proof -
  have f: "leaf_of r = None \<and> op_of r \<noteq> Withdraw \<and> rb_token (base_of r) = None
      \<Longrightarrow> buildCall Inr r = Inl (RelayError ''missing_leaf_index'' ''leaf-adding operations require leafIndex'' 400)" for r
    by (simp add: buildCall_returns token_has_name_def needs_leaf_def)
  have "buildCall Inr (relayed_transfer t e) = Inl (RelayError ''missing_leaf_index'' ''leaf-adding operations require leafIndex'' 400)"
    "buildCall Inr (relayed_split s e) = Inl (RelayError ''missing_leaf_index'' ''leaf-adding operations require leafIndex'' 400)"
    "buildCall Inr (relayed_merge m e) = Inl (RelayError ''missing_leaf_index'' ''leaf-adding operations require leafIndex'' 400)"
    by (rule f; simp add: relayed_token; simp add: relayed_transfer_def relayed_split_def relayed_merge_def
        relay_base.defs transfer_request.defs split_request.defs merge_request.defs)+
  moreover have "\<exists>d. tx_transfer Inr cfg t = Inr d \<and> length (sk_functionArgs d) = 10"
    "\<exists>d. tx_split Inr cfg s = Inr d \<and> length (sk_functionArgs d) = 13"
    "\<exists>d. tx_merge Inr cfg m = Inr d \<and> length (sk_functionArgs d) = 11"
    by (simp_all add: tx_transfer_def tx_split_def tx_merge_def tx_call_def rseq_append sdk_inclusion_returns cl_buffer_def)
  moreover have "length (declared_args (relayed_transfer t e)) = 7" "length (declared_args (relayed_split s e)) = 10"
    "length (declared_args (relayed_merge m e)) = 8"
    by (simp_all add: relayed_transfer_def relayed_split_def relayed_merge_def)
  ultimately show ?thesis
    using payload_transfer_parses [OF assms(1), of e] payload_split_parses [OF assms(2), of e]
      payload_merge_parses [OF assms(3), of e]
    by (auto simp: relayed_declared simp del: safeParse.simps)
qed

definition demo_split_args :: split_args where
  "demo_split_args = \<lparr>pa_nullifier = replicate 32 2, pa_commitment1 = replicate 32 3, pa_ownerCommitment1 = replicate 32 4,
     pa_metadata1 = replicate 32 5, pa_commitment2 = replicate 32 6, pa_ownerCommitment2 = replicate 32 7,
     pa_metadata2 = replicate 32 8, pa_currentRoot = replicate 32 9, pa_newRoot = replicate 32 10, pa_inclusion = demo_sdk_inclusion\<rparr>"

definition demo_merge_args :: merge_args where
  "demo_merge_args = \<lparr>ma_nullifier1 = replicate 32 2, ma_nullifier2 = replicate 32 3, ma_commitment = replicate 32 4,
     ma_ownerCommitment = replicate 32 5, ma_metadata = replicate 32 6, ma_currentRoot = replicate 32 7,
     ma_newRoot = replicate 32 8, ma_inclusion = demo_sdk_inclusion\<rparr>"

lemma demo_split_merge_ok: "split_args_ok demo_split_args" "merge_args_ok demo_merge_args"
  by (simp_all add: split_args_ok_def demo_split_args_def merge_args_ok_def demo_merge_args_def
      sdk_inclusion_ok_def demo_sdk_inclusion_def word32_def safe_nat_def MAX_SAFE_INTEGER_def)

theorem relayed_leaf_operations_fail_witness:
  "\<exists>r. safeParse Transfer (Some (payload_transfer demo_transfer_args None)) = Inr r
     \<and> buildCall Inr r = Inl (RelayError ''missing_leaf_index'' ''leaf-adding operations require leafIndex'' 400)"
  using relayed_leaf_operations_fail [OF demo_args_ok(2) demo_split_merge_ok, of None "\<lparr>sx_pool = [], sx_splitMerge = []\<rparr>"]
  by (simp del: safeParse.simps) blast

end
