(* ===== verification/SdkRelay.thy ===== *)
theory SdkRelay
  imports SdkTx JsNumber "HOL-Library.Multiset"
begin

text \<open>
  How the SDK reaches a relayer: the failover client \<open>sdk/relayer/index.ts\<close>, the routing of a
  spend \<open>sdk/submission/index.ts\<close>, and of the second SDK the retry helper
  \<open>sdk/src/utils/retry.ts\<close> and the provider \<open>sdk/src/providers/relayer.ts\<close>. What a relayer
  answers is a function of the relayer (and of the attempt, where one is asked again). The
  texts of the client's own errors are shortened.
\<close>

section \<open>The failover client\<close>

record endpoint =
  ep_name :: string
  ep_url :: string
  ep_priority :: "int option"

record relayer_client =
  cl_relayers :: "endpoint list"
  cl_selection :: string
  cl_timeoutMs :: int

datatype client_error = NoRelayerAvailable "(string \<times> string) list" | PlainError string

definition new_RelayerClient ::
  "endpoint list \<Rightarrow> string option \<Rightarrow> int option \<Rightarrow> (client_error, relayer_client) result" where
  "new_RelayerClient relayers selection timeoutMs =
     (if relayers = [] then Inl (PlainError ''at least one relayer is required'')
      else Inr \<lparr>cl_relayers = relayers, cl_selection = or_default selection ''random'',
                cl_timeoutMs = or_default timeoutMs 20000\<rparr>)"

text \<open>The loop of the shuffle: \<open>rnd i\<close> is \<open>Math.floor(Math.random() * (i + 1))\<close>.\<close>

definition swap_at :: "nat \<Rightarrow> nat \<Rightarrow> 'a list \<Rightarrow> 'a list" where
  "swap_at i j xs = xs[i := xs ! j, j := xs ! i]"

fun shuffle_loop :: "(nat \<Rightarrow> nat) \<Rightarrow> nat \<Rightarrow> 'a list \<Rightarrow> 'a list" where
  "shuffle_loop rnd 0 xs = xs"
| "shuffle_loop rnd (Suc i) xs = shuffle_loop rnd i (swap_at (Suc i) (rnd (Suc i)) xs)"

definition order :: "(nat \<Rightarrow> nat) \<Rightarrow> string \<Rightarrow> relayer_client \<Rightarrow> (client_error, endpoint list) result" where
  "order rnd selection c =
     (if selection \<noteq> ''random'' \<and> selection \<noteq> ''ordered''
      then (case find (\<lambda>r. ep_name r = selection) (cl_relayers c) of
              None \<Rightarrow> Inl (PlainError (''unknown relayer '' @ CHR 0x22 # selection @ [CHR 0x22]))
            | Some pinned \<Rightarrow> Inr (pinned # filter (\<lambda>r. ep_name r \<noteq> selection) (cl_relayers c)))
      else if selection = ''ordered''
      then Inr (sort_key (\<lambda>r. or_default (ep_priority r) 0) (cl_relayers c))
      else Inr (shuffle_loop rnd (length (cl_relayers c) - 1) (cl_relayers c)))"

text \<open>
  What a relayer does with one request: the connection fails (a timeout is one), or it replies
  with a status and a body; \<open>None\<close> is a body that is not JSON.
\<close>

datatype relayer_reply = ReplyThrows string | Reply nat "json option"

definition reply_ok :: "nat \<Rightarrow> bool" where
  "reply_ok s \<longleftrightarrow> 200 \<le> s \<and> s \<le> 299"

definition reply_message :: "nat \<Rightarrow> json \<Rightarrow> string" where
  "reply_message s err =
     (case js_nullish (json_field err ''message'') (js_nullish (json_field err ''error'') None) of
        Some v \<Rightarrow> js_String v
      | None \<Rightarrow> ''http '' @ dec_of_nat s)"

text \<open>One turn of the loop: accepted, refused for good, or an attempt to record.\<close>

datatype turn_result = Accepted json | Refused string | Tried string

definition submit_turn :: "relayer_reply \<Rightarrow> turn_result" where
  "submit_turn reply =
     (case reply of
        ReplyThrows e \<Rightarrow> Tried e
      | Reply s body \<Rightarrow>
          if reply_ok s then (case body of Some j \<Rightarrow> Accepted j | None \<Rightarrow> Tried ''SyntaxError'')
          else (let err = (case body of Some j \<Rightarrow> j | None \<Rightarrow> JObj []) in
                if err = JNull then Tried ''TypeError''
                else if s = 400 \<or> s = 409 then Refused (reply_message s err)
                else Tried (reply_message s err)))"

fun submit_loop ::
  "(endpoint \<Rightarrow> relayer_reply) \<Rightarrow> endpoint list \<Rightarrow> (string \<times> string) list \<Rightarrow> (client_error, json \<times> string) result" where
  "submit_loop reply [] attempts = Inl (NoRelayerAvailable attempts)"
| "submit_loop reply (r # rs) attempts =
     (case submit_turn (reply r) of
        Accepted j \<Rightarrow> Inr (j, ep_name r)
      | Refused m \<Rightarrow> Inl (NoRelayerAvailable [(ep_name r, m)])
      | Tried m \<Rightarrow> submit_loop reply rs (attempts @ [(ep_name r, m)]))"

definition client_submit ::
  "(nat \<Rightarrow> nat) \<Rightarrow> (endpoint \<Rightarrow> relayer_reply) \<Rightarrow> string option \<Rightarrow> relayer_client \<Rightarrow> (client_error, json \<times> string) result" where
  "client_submit rnd reply selection c =
     rbind (order rnd (or_default selection (cl_selection c)) c) (\<lambda>rs. submit_loop reply rs [])"

definition client_status ::
  "(endpoint \<Rightarrow> (string, json) result) \<Rightarrow> string \<Rightarrow> relayer_client \<Rightarrow> (client_error, json) result" where
  "client_status get relayerName c =
     (case find (\<lambda>r. ep_name r = relayerName) (cl_relayers c) of
        None \<Rightarrow> Inl (PlainError (''unknown relayer '' @ CHR 0x22 # relayerName @ [CHR 0x22]))
      | Some r \<Rightarrow> (case get r of Inl e \<Rightarrow> Inl (PlainError e) | Inr j \<Rightarrow> Inr j))"

definition endpoint_available :: "relayer_reply \<Rightarrow> bool" where
  "endpoint_available reply =
     (case reply of
        Reply s (Some j) \<Rightarrow> reply_ok s \<and> j \<noteq> JNull \<and> json_field j ''accepting'' \<noteq> Some (JBool False)
      | _ \<Rightarrow> False)"

definition available :: "(endpoint \<Rightarrow> relayer_reply) \<Rightarrow> relayer_client \<Rightarrow> endpoint list" where
  "available reply c = filter (\<lambda>r. endpoint_available (reply r)) (cl_relayers c)"

section \<open>Routing a spend\<close>

datatype submission_mode = Relayed string json | Direct string

record submission_result =
  sn_mode :: submission_mode
  sn_senderExposed :: bool

record submission_config =
  sf_relayers :: "relayer_client option"
  sf_direct :: "(sdk_call \<Rightarrow> (string, string) result) option"
  sf_defaultSelection :: "string option"

record submit_options =
  so_relayer :: "string option"
  so_direct :: bool
  so_encryptedPayload :: "string option"

text \<open>
  \<open>submitSpend\<close>; the second component says whether the privacy warning was emitted, the third
  lists the calls handed to the wallet.
\<close>

definition submitSpend ::
  "(nat \<Rightarrow> nat) \<Rightarrow> (endpoint \<Rightarrow> relayer_reply) \<Rightarrow> sdk_call \<Rightarrow> submit_options \<Rightarrow> submission_config \<Rightarrow>
   (client_error, submission_result) result \<times> bool \<times> sdk_call list" where
  "submitSpend rnd reply call opts cfg =
     (if sf_relayers cfg \<noteq> None \<and> \<not> so_direct opts
      then (let sel = (case so_relayer opts of Some r \<Rightarrow> r | None \<Rightarrow> or_default (sf_defaultSelection cfg) ''random'')
            in (case client_submit rnd reply (Some sel) (the (sf_relayers cfg)) of
                  Inl e \<Rightarrow> Inl e
                | Inr (j, name) \<Rightarrow> Inr \<lparr>sn_mode = Relayed name j, sn_senderExposed = False\<rparr>, False, []))
      else
        (case sf_direct cfg of
           None \<Rightarrow> (Inl (PlainError ''no relayer configured and no direct submitter available''), False, [])
         | Some sign \<Rightarrow>
             (case sign call of
                Inl e \<Rightarrow> Inl (PlainError e)
              | Inr txid \<Rightarrow> Inr \<lparr>sn_mode = Direct txid, sn_senderExposed = True\<rparr>, True, [call])))"

definition submitShield ::
  "sdk_call \<Rightarrow> submission_config \<Rightarrow> (client_error, submission_result) result" where
  "submitShield call cfg =
     (case sf_direct cfg of
        None \<Rightarrow> Inl (PlainError ''shield requires a wallet signer'')
      | Some sign \<Rightarrow>
          (case sign call of
             Inl e \<Rightarrow> Inl (PlainError e)
           | Inr txid \<Rightarrow> Inr \<lparr>sn_mode = Direct txid, sn_senderExposed = True\<rparr>))"

text \<open>\<open>relayersFromEnv\<close>\<close>

definition env_endpoint :: "nat \<Rightarrow> string \<Rightarrow> endpoint" where
  "env_endpoint i entry =
     (if CHR ''='' \<in> set entry
      then \<lparr>ep_name = js_trim (takeWhile (\<lambda>c. c \<noteq> CHR ''='') entry),
            ep_url = js_trim (tl (dropWhile (\<lambda>c. c \<noteq> CHR ''='') entry)), ep_priority = Some (int i)\<rparr>
      else \<lparr>ep_name = CHR ''R'' # dec_of_nat (i + 1), ep_url = entry, ep_priority = Some (int i)\<rparr>)"

fun env_endpoints :: "nat \<Rightarrow> string list \<Rightarrow> endpoint list" where
  "env_endpoints i [] = []"
| "env_endpoints i (e # es) = env_endpoint i e # env_endpoints (i + 1) es"

definition relayersFromEnv :: "string option \<Rightarrow> string option \<Rightarrow> relayer_client option" where
  "relayersFromEnv value selection =
     (case value of
        None \<Rightarrow> None
      | Some v \<Rightarrow>
          if js_trim v = [] then None
          else (let rs = env_endpoints 0 (filter (\<lambda>e. e \<noteq> []) (map js_trim (js_split (CHR '','') v)))
                in case new_RelayerClient rs selection None of Inl _ \<Rightarrow> None | Inr c \<Rightarrow> Some c))"

section \<open>Retry with backoff\<close>

text \<open>
  The loop of \<open>retry\<close>: \<open>fn k\<close> is the outcome of call number \<open>k\<close>; the last component lists the
  delays between the calls, without the random part of at most 100 milliseconds. \<open>Inl None\<close> is
  the \<open>undefined\<close> thrown when no call is made.
\<close>

fun backoff_loop ::
  "(nat \<Rightarrow> ('e, 'a) result) \<Rightarrow> ('e \<Rightarrow> nat \<Rightarrow> bool) \<Rightarrow> int \<Rightarrow> int \<Rightarrow> nat \<Rightarrow> nat \<Rightarrow> nat \<Rightarrow> 'e option \<Rightarrow>
   ('e option, 'a) result \<times> int list" where
  "backoff_loop fn again base mx retries 0 attempt e0 = (Inl e0, [])"
| "backoff_loop fn again base mx retries (Suc left) attempt e0 =
     (case fn attempt of
        Inr a \<Rightarrow> (Inr a, [])
      | Inl e \<Rightarrow>
          if attempt = retries \<or> \<not> again e attempt then (Inl (Some e), [])
          else (let (r, ds) = backoff_loop fn again base mx retries left (attempt + 1) (Some e)
                in (r, min mx (base * 2 ^ (attempt - 1)) # ds)))"

definition retry ::
  "(nat \<Rightarrow> ('e, 'a) result) \<Rightarrow> ('e \<Rightarrow> nat \<Rightarrow> bool) \<Rightarrow> nat option \<Rightarrow> int option \<Rightarrow> int option \<Rightarrow>
   ('e option, 'a) result \<times> int list" where
  "retry fn again retries base mx =
     (let n = or_default retries 3
      in backoff_loop fn again (or_default base 500) (or_default mx 8000) n n 1 None)"

section \<open>The relayer provider\<close>

datatype provider_error =
    SdkRelayerError (pv_message: string) (pv_code: "string option")
  | OtherFailure string

text \<open>One relayer as a submission sees it: the replies to its accept calls and to its status polls.\<close>

datatype status_reply = StatusThrows string | StatusNotOk | StatusJob string "string option" "string option"

record relayer_view =
  vw_accept :: "nat \<Rightarrow> relayer_reply"
  vw_clock :: "nat \<Rightarrow> int"
  vw_poll :: "nat \<Rightarrow> status_reply"
  vw_fuel :: nat

text \<open>\<open>j?.error\<close> and \<open>j.jobId\<close> are only ever compared with and sent as text.\<close>

definition json_text :: "json option \<Rightarrow> string option" where
  "json_text v = (case v of Some (JStr s) \<Rightarrow> Some s | _ \<Rightarrow> None)"

definition provider_accept :: "string \<Rightarrow> relayer_reply \<Rightarrow> (provider_error, string) result" where
  "provider_accept op reply =
     (case reply of
        ReplyThrows e \<Rightarrow> Inl (OtherFailure e)
      | Reply s body \<Rightarrow>
          (let j = (case body of Some b \<Rightarrow> b | None \<Rightarrow> JObj []) in
           if s \<noteq> 202
           then Inl (SdkRelayerError
                  (case js_nullish (json_field j ''message'') None of
                     Some m \<Rightarrow> js_String m
                   | None \<Rightarrow> ''relayer '' @ op @ '' -> '' @ dec_of_nat s)
                  (json_text (json_field j ''error'')))
           else if j = JNull then Inl (OtherFailure ''TypeError'')
           else Inr (case json_field j ''jobId'' of Some v \<Rightarrow> js_String v | None \<Rightarrow> ''undefined'')))"

text \<open>\<open>await\<close>: one unit of fuel per poll, \<open>None\<close> is a wait that has not ended.\<close>

fun await_loop ::
  "(nat \<Rightarrow> int) \<Rightarrow> (nat \<Rightarrow> status_reply) \<Rightarrow> nat \<Rightarrow> int \<Rightarrow> nat \<Rightarrow> (provider_error, string) result option" where
  "await_loop clock poll 0 deadline k = None"
| "await_loop clock poll (Suc fuel) deadline k =
     (if \<not> clock (k + 1) < deadline then Some (Inl (SdkRelayerError ''relayed operation timed out'' None))
      else (case poll k of
              StatusThrows e \<Rightarrow> Some (Inl (OtherFailure e))
            | StatusNotOk \<Rightarrow> await_loop clock poll fuel deadline (k + 1)
            | StatusJob state txid err \<Rightarrow>
                if state = ''confirmed'' \<and> txid \<noteq> None \<and> txid \<noteq> Some [] then Some (Inr (the txid))
                else if state = ''failed''
                then Some (Inl (SdkRelayerError (or_default err ''relayed operation failed on chain'') None))
                else await_loop clock poll fuel deadline (k + 1)))"

definition provider_await :: "relayer_view \<Rightarrow> (provider_error, string) result option" where
  "provider_await v = await_loop (vw_clock v) (vw_poll v) (vw_fuel v) (vw_clock v 0 + 1200000) 0"

definition root_pending :: "provider_error \<Rightarrow> nat \<Rightarrow> bool" where
  "root_pending e n =
     (case e of SdkRelayerError m (Some c) \<Rightarrow> c = ''aggregation_not_published'' | _ \<Rightarrow> False)"

text \<open>One relayer of \<open>submit\<close>: accept with its retries, then wait. The errors \<open>retry\<close> throws are \<open>Some\<close>.\<close>

definition provider_try :: "string \<Rightarrow> relayer_view \<Rightarrow> (provider_error, string) result option" where
  "provider_try op v =
     (case fst (retry (\<lambda>k. provider_accept op (vw_accept v k)) root_pending (Some 5) (Some 2000) None) of
        Inl e \<Rightarrow> Some (Inl (or_default e (OtherFailure ''undefined'')))
      | Inr jobId \<Rightarrow> provider_await v)"

fun provider_loop ::
  "string \<Rightarrow> relayer_view list \<Rightarrow> provider_error option \<Rightarrow> (provider_error, string) result option" where
  "provider_loop op [] lastError =
     Some (Inl (case lastError of
                  Some (SdkRelayerError m c) \<Rightarrow> SdkRelayerError m c
                | _ \<Rightarrow> SdkRelayerError (''no relayer accepted '' @ op) None))"
| "provider_loop op (v # vs) lastError =
     (case provider_try op v of
        None \<Rightarrow> None
      | Some (Inr txid) \<Rightarrow> Some (Inr txid)
      | Some (Inl e) \<Rightarrow> provider_loop op vs (Some e))"

definition provider_submit :: "string \<Rightarrow> relayer_view list \<Rightarrow> (provider_error, string) result option" where
  "provider_submit op vs = provider_loop op vs None"

definition inclusionBody :: "int \<Rightarrow> int \<Rightarrow> string list \<Rightarrow> int \<Rightarrow> json" where
  "inclusionBody domainId aggregationId merklePath leafIndex = JObj
     [(''domainId'', jint domainId), (''aggregationId'', jint aggregationId),
      (''merklePath'', JArr (map (\<lambda>p. JStr (add0x p)) merklePath)), (''leafIndex'', jint leafIndex)]"

fun provider_available :: "relayer_reply list \<Rightarrow> bool" where
  "provider_available [] = False"
| "provider_available (Reply s b # rs) = (reply_ok s \<or> provider_available rs)"
| "provider_available (ReplyThrows e # rs) = provider_available rs"

section \<open>Facts of the client\<close>

lemma mset_swap_at: "i < length xs \<Longrightarrow> j < length xs \<Longrightarrow> mset (swap_at i j xs) = mset xs"
  unfolding swap_at_def by (rule mset_swap)

lemma length_swap_at [simp]: "length (swap_at i j xs) = length xs"
  by (simp add: swap_at_def)

lemma mset_shuffle:
  "i < length xs \<or> i = 0 \<Longrightarrow> \<forall>k. rnd k \<le> k \<Longrightarrow> mset (shuffle_loop rnd i xs) = mset xs"
proof (induction i arbitrary: xs)
  case (Suc i)
  then have l: "Suc i < length xs" by simp
  have "rnd (Suc i) < length xs" using l Suc.prems(2) by (metis le_less_trans)
  then have "mset (swap_at (Suc i) (rnd (Suc i)) xs) = mset xs" using l by (intro mset_swap_at)
  with Suc.IH [of "swap_at (Suc i) (rnd (Suc i)) xs"] Suc.prems(2) l show ?case by simp
qed simp

text \<open>Whatever the selection, every relayer is a candidate once.\<close>

lemma order_candidates:
  assumes "distinct (map ep_name (cl_relayers c))" "\<forall>k. rnd k \<le> k"
    and "selection \<in> {''random'', ''ordered''} \<union> ep_name ` set (cl_relayers c)"
  shows "\<exists>rs. order rnd selection c = Inr rs \<and> mset rs = mset (cl_relayers c)"
proof (cases "selection \<noteq> ''random'' \<and> selection \<noteq> ''ordered''")
  case True
  then obtain r where r: "r \<in> set (cl_relayers c)" "ep_name r = selection" using assms(3) by auto
  then obtain q where q: "find (\<lambda>r. ep_name r = selection) (cl_relayers c) = Some q"
    by (metis (mono_tags, lifting) find_None_iff option.exhaust)
  then have "q \<in> set (cl_relayers c)" "ep_name q = selection" by (auto simp: find_Some_iff in_set_conv_nth)
  then obtain xs ys where x: "cl_relayers c = xs @ q # ys" by (meson split_list)
  have "ep_name z \<noteq> selection" if "z \<in> set xs \<union> set ys" for z
  proof -
    have "ep_name q \<notin> ep_name ` (set xs \<union> set ys)" using assms(1) by (auto simp: x)
    then show ?thesis using that \<open>ep_name q = selection\<close> by (metis imageI)
  qed
  then have "filter (\<lambda>r. ep_name r \<noteq> selection) (cl_relayers c) = xs @ ys"
    using \<open>ep_name q = selection\<close> by (simp add: x filter_id_conv)
  then show ?thesis using True q by (simp add: order_def x)
next
  case False
  have "length (cl_relayers c) - 1 < length (cl_relayers c) \<or> length (cl_relayers c) - 1 = 0"
    by (cases "cl_relayers c") simp_all
  from mset_shuffle [OF this assms(2)]
  have m: "mset (shuffle_loop rnd (length (cl_relayers c) - 1) (cl_relayers c)) = mset (cl_relayers c)" .
  show ?thesis
    using False m unfolding order_def by (cases "selection = ''ordered''") (simp_all only: if_False if_True, auto)
qed

lemma submit_loop_accepts:
  assumes "\<exists>r \<in> set rs. \<exists>j. submit_turn (reply r) = Accepted j" "\<forall>r \<in> set rs. \<forall>m. submit_turn (reply r) \<noteq> Refused m"
  shows "\<exists>r j. r \<in> set rs \<and> submit_turn (reply r) = Accepted j \<and> submit_loop reply rs attempts = Inr (j, ep_name r)"
  using assms
proof (induction rs arbitrary: attempts)
  case (Cons x rs)
  show ?case
  proof (cases "submit_turn (reply x)")
    case (Tried m)
    with Cons.prems have "\<exists>r \<in> set rs. \<exists>j. submit_turn (reply r) = Accepted j"
      "\<forall>r \<in> set rs. \<forall>m. submit_turn (reply r) \<noteq> Refused m" by auto
    from Cons.IH [OF this, of "attempts @ [(ep_name x, m)]"] Tried show ?thesis by auto
  qed (use Cons.prems in auto)
qed simp

text \<open>The backoff: at most \<open>retries\<close> calls, and no delay above the maximum.\<close>

lemma backoff_delays:
  "backoff_loop fn again base mx n left k e0 = (r, ds) \<Longrightarrow> length ds \<le> left \<and> (\<forall>d \<in> set ds. d \<le> mx)"
proof (induction left arbitrary: k e0 r ds)
  case (Suc left)
  then show ?case by (auto split: sum.splits if_splits prod.splits)
qed simp

lemma backoff_first: "fn k = Inr a \<Longrightarrow> backoff_loop fn again base mx n (Suc left) k e0 = (Inr a, [])"
  by simp

section \<open>Properties\<close>

text \<open>Failover finds a relayer: with distinct names and any selection (at random, by priority, or
  pinned to a known name), a submission succeeds, through a relayer that accepted it, as soon as
  some configured relayer accepts it and none refuses it for good (400 or 409), whatever
  the others do.\<close>

theorem failover_finds_relayer:
  assumes "distinct (map ep_name (cl_relayers c))" "\<forall>k. rnd k \<le> k"
    and "or_default selection (cl_selection c) \<in> {''random'', ''ordered''} \<union> ep_name ` set (cl_relayers c)"
    and "r0 \<in> set (cl_relayers c)" "submit_turn (reply r0) = Accepted j0"
    and "\<forall>r \<in> set (cl_relayers c). \<forall>m. submit_turn (reply r) \<noteq> Refused m"
  shows "\<exists>r j. r \<in> set (cl_relayers c) \<and> submit_turn (reply r) = Accepted j
    \<and> client_submit rnd reply selection c = Inr (j, ep_name r)"
proof -
  obtain rs where rs: "order rnd (or_default selection (cl_selection c)) c = Inr rs" "mset rs = mset (cl_relayers c)"
    using order_candidates [OF assms(1-3)] by blast
  then have s: "set rs = set (cl_relayers c)" by (metis set_mset_mset)
  have "\<exists>r \<in> set rs. \<exists>j. submit_turn (reply r) = Accepted j" using assms(4,5) s by blast
  from submit_loop_accepts [OF this, of "[]"] assms(6) s rs(1) show ?thesis
    by (auto simp: client_submit_def)
qed

definition demo_client :: relayer_client where
  "demo_client = \<lparr>cl_relayers = [\<lparr>ep_name = ''R1'', ep_url = ''a'', ep_priority = Some 1\<rparr>, \<lparr>ep_name = ''R2'', ep_url = ''b'', ep_priority = None\<rparr>],
     cl_selection = ''random'', cl_timeoutMs = 20000\<rparr>"

definition demo_reply :: "endpoint \<Rightarrow> relayer_reply" where
  "demo_reply r = (if ep_name r = ''R1'' then Reply 503 None else Reply 202 (Some (JObj [])))"

theorem failover_finds_relayer_witness:
  "client_submit (\<lambda>k. 0) demo_reply (Some ''R1'') demo_client = Inr (JObj [], ''R2'')"
proof -
  have "submit_turn (demo_reply \<lparr>ep_name = ''R2'', ep_url = ''b'', ep_priority = None\<rparr>) = Accepted (JObj [])"
    by (simp add: demo_reply_def submit_turn_def reply_ok_def)
  from failover_finds_relayer [where c = demo_client and rnd = "\<lambda>k. 0" and selection = "Some ''R1''"
      and reply = demo_reply, OF _ _ _ _ this] show ?thesis
    by (auto simp: demo_client_def demo_reply_def submit_turn_def reply_ok_def or_default_def)
qed




definition demo_view :: "status_reply \<Rightarrow> relayer_view" where
  "demo_view s = \<lparr>vw_accept = (\<lambda>k. Reply 202 (Some (JObj [(''jobId'', JStr ''j'')]))), vw_clock = (\<lambda>k. int k),
     vw_poll = (\<lambda>k. s), vw_fuel = 2\<rparr>"


end
