(* ===== verification/ApiStore.thy ===== *)
theory ApiStore
  imports Prelude
begin

text \<open>
  The database of the indexing API and its writes: the tables of \<open>services/api/src/db/schema.ts\<close>
  and the helpers of \<open>indexers/store.ts\<close>. A table is an insertion-ordered map from its unique
  key to its row; \<open>onConflictDoNothing\<close> and \<open>onConflictDoUpdate\<close> are the two ways an insert
  treats a key that is there. Generated identifiers are not modelled, \<open>now()\<close> is an argument.

  Every write of the indexer leaves the rows it finds alone or overwrites a fixed set of their
  columns with values of the event; that is what makes a second scan of the same events a no-op.
\<close>

section \<open>Tables\<close>

record note_row =
  nr_ciphertext :: "string option"
  nr_wallet :: "string option"
  nr_root :: "string option"
  nr_txid :: string
  nr_leafIndex :: "int option"
  nr_type :: string
  nr_assetId :: "int option"
  nr_status :: string
  nr_spent :: bool
  nr_createdAt :: int

record root_row =
  rr_aggregationId :: "int option"
  rr_height :: "int option"
  rr_txid :: "string option"
  rr_createdAt :: int

record aggregation_row =
  gr_root :: string
  gr_leafCount :: int
  gr_published :: bool
  gr_height :: "int option"
  gr_txid :: "string option"
  gr_createdAt :: int

record transaction_row =
  tx_type :: string
  tx_aggregationId :: "int option"
  tx_height :: "int option"
  tx_assetId :: "int option"
  tx_createdAt :: int

record stats_row =
  st_shieldedStx :: int
  st_notes :: nat
  st_operations :: nat
  st_users :: nat

record nonce_row =
  nn_wallet :: string
  nn_used :: bool
  nn_expiresAt :: int

record session_row =
  ss_wallet :: string
  ss_revoked :: bool
  ss_expiresAt :: int

record db =
  db_notes :: "(string, note_row) jsmap"
  db_roots :: "(string, root_row) jsmap"
  db_aggregations :: "(int \<times> int, aggregation_row) jsmap"
  db_transactions :: "(string, transaction_row) jsmap"
  db_fees :: "int option"
  db_stats :: "stats_row option"
  db_cursor :: "int option"
  db_users :: "(string, int) jsmap"
  db_nonces :: "(string, nonce_row) jsmap"
  db_sessions :: "(string, session_row) jsmap"

definition empty_db :: db where
  "empty_db = \<lparr>db_notes = [], db_roots = [], db_aggregations = [], db_transactions = [], db_fees = None,
     db_stats = None, db_cursor = None, db_users = [], db_nonces = [], db_sessions = []\<rparr>"

text \<open>\<open>insert ... onConflictDoNothing\<close> and \<open>insert ... onConflictDoUpdate\<close>.\<close>

definition insert_ignore :: "'k \<Rightarrow> 'v \<Rightarrow> ('k, 'v) jsmap \<Rightarrow> ('k, 'v) jsmap" where
  "insert_ignore k v t = (case jm_get t k of None \<Rightarrow> jm_set k v t | Some _ \<Rightarrow> t)"

definition insert_update :: "'k \<Rightarrow> 'v \<Rightarrow> ('v \<Rightarrow> 'v) \<Rightarrow> ('k, 'v) jsmap \<Rightarrow> ('k, 'v) jsmap" where
  "insert_update k v f t = (case jm_get t k of None \<Rightarrow> jm_set k v t | Some w \<Rightarrow> jm_set k (f w) t)"

section \<open>Writes\<close>

definition upsertRoot :: "int \<Rightarrow> string \<Rightarrow> int option \<Rightarrow> string option \<Rightarrow> int option \<Rightarrow> db \<Rightarrow> db" where
  "upsertRoot now rt height txid aggregationId d =
     d\<lparr>db_roots := insert_ignore rt
         \<lparr>rr_aggregationId = aggregationId, rr_height = height, rr_txid = txid, rr_createdAt = now\<rparr> (db_roots d)\<rparr>"

record note_fields =
  nf_commitment :: string
  nf_root :: string
  nf_txid :: string
  nf_leafIndex :: "int option"
  nf_type :: string
  nf_assetId :: "int option"

definition note_insert_row :: "int \<Rightarrow> note_fields \<Rightarrow> note_row" where
  "note_insert_row now v =
     \<lparr>nr_ciphertext = None, nr_wallet = None, nr_root = Some (nf_root v), nr_txid = nf_txid v,
      nr_leafIndex = nf_leafIndex v, nr_type = nf_type v, nr_assetId = nf_assetId v, nr_status = ''confirmed'',
      nr_spent = False, nr_createdAt = now\<rparr>"

definition note_update_row :: "note_fields \<Rightarrow> note_row \<Rightarrow> note_row" where
  "note_update_row v r =
     r\<lparr>nr_root := Some (nf_root v), nr_txid := nf_txid v, nr_leafIndex := nf_leafIndex v, nr_type := nf_type v,
       nr_assetId := nf_assetId v, nr_status := ''confirmed''\<rparr>"

definition insertNote :: "int \<Rightarrow> note_fields \<Rightarrow> db \<Rightarrow> db" where
  "insertNote now v d =
     d\<lparr>db_notes := insert_update (nf_commitment v) (note_insert_row now v) (note_update_row v) (db_notes d)\<rparr>"

definition leaf_insert_row :: "int \<Rightarrow> string \<Rightarrow> int option \<Rightarrow> note_row" where
  "leaf_insert_row now txid leaf =
     \<lparr>nr_ciphertext = None, nr_wallet = None, nr_root = None, nr_txid = txid, nr_leafIndex = leaf,
      nr_type = ''note'', nr_assetId = None, nr_status = ''confirmed'', nr_spent = False, nr_createdAt = now\<rparr>"

definition leaf_update_row :: "int option \<Rightarrow> note_row \<Rightarrow> note_row" where
  "leaf_update_row leaf r = r\<lparr>nr_leafIndex := leaf, nr_status := ''confirmed''\<rparr>"

definition upsertCommitmentLeaf :: "int \<Rightarrow> string \<Rightarrow> string \<Rightarrow> int option \<Rightarrow> db \<Rightarrow> db" where
  "upsertCommitmentLeaf now commitment txid leaf d =
     d\<lparr>db_notes := insert_update commitment (leaf_insert_row now txid leaf) (leaf_update_row leaf) (db_notes d)\<rparr>"

record tx_fields =
  tf_txid :: string
  tf_type :: string
  tf_height :: "int option"
  tf_feeMicro :: "int option"
  tf_aggregationId :: "int option"
  tf_assetId :: "int option"

definition add_fee :: "int option \<Rightarrow> int option \<Rightarrow> int option" where
  "add_fee fee sum0 =
     (case fee of
        Some f \<Rightarrow> if 0 < f then Some (case sum0 of Some t \<Rightarrow> t + f | None \<Rightarrow> f) else sum0
      | None \<Rightarrow> sum0)"

definition recordTransaction :: "int \<Rightarrow> tx_fields \<Rightarrow> db \<Rightarrow> bool \<times> db" where
  "recordTransaction now v d =
     (case jm_get (db_transactions d) (tf_txid v) of
        Some _ \<Rightarrow> (False, d)
      | None \<Rightarrow>
          (True, d\<lparr>db_transactions := jm_set (tf_txid v)
               \<lparr>tx_type = tf_type v, tx_aggregationId = tf_aggregationId v, tx_height = tf_height v,
                tx_assetId = tf_assetId v, tx_createdAt = now\<rparr> (db_transactions d),
             db_fees := add_fee (tf_feeMicro v) (db_fees d)\<rparr>))"

record agg_fields =
  af_aggregationId :: int
  af_domainId :: int
  af_root :: string
  af_leafCount :: int
  af_height :: "int option"
  af_txid :: "string option"

definition upsertAggregation :: "int \<Rightarrow> agg_fields \<Rightarrow> db \<Rightarrow> db" where
  "upsertAggregation now v d =
     d\<lparr>db_aggregations := insert_ignore (af_domainId v, af_aggregationId v)
         \<lparr>gr_root = af_root v, gr_leafCount = af_leafCount v, gr_published = True, gr_height = af_height v,
          gr_txid = af_txid v, gr_createdAt = now\<rparr> (db_aggregations d)\<rparr>"

section \<open>Facts of the two inserts\<close>

lemma insert_ignore_get:
  "jm_get (insert_ignore k v t) k' = (if k' = k \<and> jm_get t k = None then Some v else jm_get t k')"
  by (auto simp: insert_ignore_def split: option.split)

lemma insert_update_get:
  "jm_get (insert_update k v f t) k' =
     (if k' = k then Some (case jm_get t k of None \<Rightarrow> v | Some w \<Rightarrow> f w) else jm_get t k')"
  by (auto simp: insert_update_def split: option.split)

lemma insert_ignore_present [simp]: "jm_get t k = Some w \<Longrightarrow> insert_ignore k v t = t"
  by (simp add: insert_ignore_def)

lemma insert_ignore_wf [simp]: "jm_wf t \<Longrightarrow> jm_wf (insert_ignore k v t)"
  by (auto simp: insert_ignore_def split: option.split)

lemma insert_update_wf [simp]: "jm_wf t \<Longrightarrow> jm_wf (insert_update k v f t)"
  by (auto simp: insert_update_def split: option.split)

lemma insert_update_keys:
  "jm_keys (insert_update k v f t) = (if k \<in> set (jm_keys t) then jm_keys t else jm_keys t @ [k])"
  by (auto simp: insert_update_def jm_keys_set split: option.split)

lemma get_None_keys: "jm_get t k = None \<longleftrightarrow> k \<notin> set (jm_keys t)"
  by (simp add: map_of_eq_None_iff)

text \<open>Two maps with the same keys in the same order and the same lookups are equal.\<close>

lemma jm_eqI:
  assumes "jm_keys s = jm_keys t" "jm_wf s" "\<And>k. jm_get s k = jm_get t k"
  shows "s = t"
proof (rule nth_equalityI)
  show l: "length s = length t" using assms(1) by (metis length_map)
  show "s ! i = t ! i" if i: "i < length s" for i
  proof -
    have k: "fst (s ! i) = fst (t ! i)" using assms(1) i l by (metis nth_map)
    have "distinct (jm_keys s)" "distinct (jm_keys t)" using assms(1,2) by (simp_all add: jm_wf_def)
    then have "jm_get s (fst (s ! i)) = Some (snd (s ! i))" "jm_get t (fst (t ! i)) = Some (snd (t ! i))"
      using i l by (simp_all add: map_of_is_SomeI)
    then show ?thesis using assms(3) [of "fst (s ! i)"] k by (simp add: prod_eq_iff)
  qed
qed

section \<open>Tables written again\<close>

text \<open>
  A table that is only written by upserts: the row a write creates, the columns it overwrites. Its
  two laws are what makes a second run of the same writes, at any later time, leave it alone.
\<close>

definition put_row ::
  "('w \<Rightarrow> 'k) \<Rightarrow> (int \<Rightarrow> 'w \<Rightarrow> 'v) \<Rightarrow> ('w \<Rightarrow> 'v \<Rightarrow> 'v) \<Rightarrow> ('k, 'v) jsmap \<Rightarrow> int \<times> 'w \<Rightarrow> ('k, 'v) jsmap" where
  "put_row key ins upd t w = insert_update (key (snd w)) (ins (fst w) (snd w)) (upd (snd w)) t"

definition put_cell :: "(int \<Rightarrow> 'w \<Rightarrow> 'v) \<Rightarrow> ('w \<Rightarrow> 'v \<Rightarrow> 'v) \<Rightarrow> int \<times> 'w \<Rightarrow> 'v option \<Rightarrow> 'v option" where
  "put_cell ins upd w r = Some (case r of None \<Rightarrow> ins (fst w) (snd w) | Some v \<Rightarrow> upd (snd w) v)"

lemma get_put_rows:
  "jm_get (foldl (put_row key ins upd) t ws) k =
     fold (put_cell ins upd) (filter (\<lambda>w. key (snd w) = k) ws) (jm_get t k)"
  by (induction ws arbitrary: t) (auto simp: put_row_def insert_update_get put_cell_def)

lemma put_rows_wf [simp]: "jm_wf t \<Longrightarrow> jm_wf (foldl (put_row key ins upd) t ws)"
  by (induction ws arbitrary: t) (simp_all add: put_row_def)

lemma insert_update_key_set: "fst ` set (insert_update k v f t) = insert k (fst ` set t)"
proof -
  have "set (jm_keys (insert_update k v f t)) = insert k (set (jm_keys t))"
    unfolding insert_update_keys by auto
  then show ?thesis by simp
qed

lemma put_rows_keys_set:
  "set (jm_keys (foldl (put_row key ins upd) t ws)) = set (jm_keys t) \<union> (\<lambda>w. key (snd w)) ` set ws"
  by (induction ws arbitrary: t) (simp_all add: put_row_def insert_update_key_set)

lemma put_rows_keys_present:
  "(\<lambda>w. key (snd w)) ` set ws \<subseteq> set (jm_keys t) \<Longrightarrow> jm_keys (foldl (put_row key ins upd) t ws) = jm_keys t"
proof (induction ws arbitrary: t)
  case (Cons w ws)
  have k: "jm_keys (put_row key ins upd t w) = jm_keys t"
    using Cons.prems by (simp add: put_row_def insert_update_keys)
  have "set (jm_keys (put_row key ins upd t w)) = set (jm_keys t)" unfolding k ..
  then have "jm_keys (foldl (put_row key ins upd) (put_row key ins upd t w) ws) = jm_keys (put_row key ins upd t w)"
    using Cons.prems by (intro Cons.IH) auto
  then show ?case using k by simp
qed simp

lemma put_cells_present: "fold (put_cell ins upd) ws (Some v) = Some (fold upd (map snd ws) v)"
  by (induction ws arbitrary: v) (simp_all add: put_cell_def)

locale upsert_table =
  fixes key :: "'w \<Rightarrow> 'k"
    and ins :: "int \<Rightarrow> 'w \<Rightarrow> 'v"
    and upd :: "'w \<Rightarrow> 'v \<Rightarrow> 'v"
  assumes fresh: "upd w (ins now w) = ins now w"
    and settle: "fold upd us (fold upd us v) = fold upd us v"
begin

lemma put_cells_settled:
  assumes "ws \<noteq> []"
  shows "\<exists>v. fold (put_cell ins upd) ws r = Some (fold upd (map snd ws) v)"
proof (cases r)
  case (Some v)
  then show ?thesis by (auto simp: put_cells_present)
next
  case None
  obtain w us where ws: "ws = w # us" using assms by (cases ws) auto
  have "fold (put_cell ins upd) ws r = Some (fold upd (map snd us) (ins (fst w) (snd w)))"
    by (simp add: ws None put_cell_def put_cells_present)
  also have "\<dots> = Some (fold upd (map snd ws) (ins (fst w) (snd w)))" by (simp add: ws fresh)
  finally show ?thesis by blast
qed

lemma replay:
  assumes wf: "jm_wf t" and same: "map snd vs = map snd ws"
  shows "foldl (put_row key ins upd) (foldl (put_row key ins upd) t ws) vs = foldl (put_row key ins upd) t ws"
    (is "foldl _ ?s vs = ?s")
proof (rule jm_eqI)
  have "(\<lambda>w. key (snd w)) ` set vs = key ` set (map snd vs)"
    "(\<lambda>w. key (snd w)) ` set ws = key ` set (map snd ws)" by (simp_all add: image_image)
  then have "(\<lambda>w. key (snd w)) ` set vs \<subseteq> set (jm_keys ?s)"
    using put_rows_keys_set [of key ins upd t ws] same by simp
  then show "jm_keys (foldl (put_row key ins upd) ?s vs) = jm_keys ?s" by (rule put_rows_keys_present)
  show "jm_wf (foldl (put_row key ins upd) ?s vs)" using wf by simp
  show "jm_get (foldl (put_row key ins upd) ?s vs) k = jm_get ?s k" for k
  proof -
    let ?f = "filter (\<lambda>w. key (snd w) = k)"
    have e: "map snd (?f us) = filter (\<lambda>w. key w = k) (map snd us)" for us :: "(int \<times> 'w) list"
      by (induction us) auto
    have m: "map snd (?f vs) = map snd (?f ws)" by (simp add: e same)
    show ?thesis
    proof (cases "?f ws = []")
      case True
      then have "?f vs = []" using m by simp
      then show ?thesis by (simp add: get_put_rows [of _ _ _ ?s])
    next
      case False
      then obtain v where v: "jm_get ?s k = Some (fold upd (map snd (?f ws)) v)"
        using put_cells_settled [OF False, of "jm_get t k"] by (auto simp: get_put_rows)
      then show ?thesis by (simp add: get_put_rows [of _ _ _ ?s] put_cells_present m settle)
    qed
  qed
qed

end

text \<open>\<open>onConflictDoNothing\<close> is the upsert that overwrites no column.\<close>

lemma insert_ignore_update: "insert_ignore k v t = insert_update k v (\<lambda>r. r) t"
  by (simp add: insert_ignore_def insert_update_def jm_values_set_same split: option.split)

lemma fold_keeps [simp]: "fold (\<lambda>w v. v) us v = v"
  by (induction us) simp_all

text \<open>The writes of the \<open>notes\<close> table, and a normal form for a sequence of them: a last full note, then a last leaf.\<close>

datatype note_write = NW_note note_fields | NW_leaf string string "int option"

fun nw_key :: "note_write \<Rightarrow> string" where
  "nw_key (NW_note v) = nf_commitment v"
| "nw_key (NW_leaf c txid leaf) = c"

fun nw_ins :: "int \<Rightarrow> note_write \<Rightarrow> note_row" where
  "nw_ins now (NW_note v) = note_insert_row now v"
| "nw_ins now (NW_leaf c txid leaf) = leaf_insert_row now txid leaf"

fun nw_upd :: "note_write \<Rightarrow> note_row \<Rightarrow> note_row" where
  "nw_upd (NW_note v) r = note_update_row v r"
| "nw_upd (NW_leaf c txid leaf) r = leaf_update_row leaf r"

definition note_patch :: "note_fields option \<Rightarrow> int option option \<Rightarrow> note_row \<Rightarrow> note_row" where
  "note_patch n l r =
     (let r1 = (case n of None \<Rightarrow> r | Some v \<Rightarrow> note_update_row v r)
      in case l of None \<Rightarrow> r1 | Some leaf \<Rightarrow> leaf_update_row leaf r1)"

lemma nw_upd_patch: "\<exists>n' l'. \<forall>r. nw_upd w (note_patch n l r) = note_patch n' l' r"
proof (cases w)
  case (NW_note v)
  have "nw_upd w (note_patch n l r) = note_patch (Some v) None r" for r
    by (simp add: NW_note note_patch_def note_update_row_def leaf_update_row_def split: option.split)
  then show ?thesis by blast
next
  case (NW_leaf c txid leaf)
  have "nw_upd w (note_patch n l r) = note_patch n (Some leaf) r" for r
    by (simp add: NW_leaf note_patch_def note_update_row_def leaf_update_row_def split: option.split)
  then show ?thesis by blast
qed

lemma fold_nw_upd_patch: "\<exists>n' l'. \<forall>r. fold nw_upd us (note_patch n l r) = note_patch n' l' r"
proof (induction us arbitrary: n l)
  case Nil
  show ?case by auto
next
  case (Cons w us)
  obtain n1 l1 where "\<forall>r. nw_upd w (note_patch n l r) = note_patch n1 l1 r" using nw_upd_patch by blast
  then show ?case using Cons.IH [of n1 l1] by simp
qed

lemma note_patch_idem: "note_patch n l (note_patch n l r) = note_patch n l r"
  by (simp add: note_patch_def note_update_row_def leaf_update_row_def split: option.split)

lemma fold_nw_upd_idem: "fold nw_upd us (fold nw_upd us v) = fold nw_upd us v"
proof -
  have "note_patch None None r = r" for r by (simp add: note_patch_def)
  then obtain n l where "\<forall>r. fold nw_upd us r = note_patch n l r"
    using fold_nw_upd_patch [of us None None] by auto
  then show ?thesis by (simp add: note_patch_idem)
qed

interpretation note_table: upsert_table nw_key nw_ins nw_upd
proof
  show "nw_upd w (nw_ins now w) = nw_ins now w" for w now
    by (cases w) (simp_all add: note_update_row_def note_insert_row_def leaf_update_row_def leaf_insert_row_def)
qed (rule fold_nw_upd_idem)

text \<open>The tables that keep their first row: roots, aggregations and transactions.\<close>

record root_write =
  rw_root :: string
  rw_height :: "int option"
  rw_txid :: "string option"
  rw_aggregationId :: "int option"

definition root_ins :: "int \<Rightarrow> root_write \<Rightarrow> root_row" where
  "root_ins now w =
     \<lparr>rr_aggregationId = rw_aggregationId w, rr_height = rw_height w, rr_txid = rw_txid w, rr_createdAt = now\<rparr>"

definition tx_ins :: "int \<Rightarrow> tx_fields \<Rightarrow> transaction_row" where
  "tx_ins now v =
     \<lparr>tx_type = tf_type v, tx_aggregationId = tf_aggregationId v, tx_height = tf_height v,
      tx_assetId = tf_assetId v, tx_createdAt = now\<rparr>"

definition agg_ins :: "int \<Rightarrow> agg_fields \<Rightarrow> aggregation_row" where
  "agg_ins now v =
     \<lparr>gr_root = af_root v, gr_leafCount = af_leafCount v, gr_published = True, gr_height = af_height v,
      gr_txid = af_txid v, gr_createdAt = now\<rparr>"

definition agg_key :: "agg_fields \<Rightarrow> int \<times> int" where
  "agg_key v = (af_domainId v, af_aggregationId v)"

interpretation root_table: upsert_table rw_root root_ins "\<lambda>w r. r"
  by unfold_locales simp_all

interpretation tx_table: upsert_table tf_txid tx_ins "\<lambda>w r. r"
  by unfold_locales simp_all

interpretation agg_table: upsert_table agg_key agg_ins "\<lambda>w r. r"
  by unfold_locales simp_all

section \<open>The database as a sequence of writes\<close>

datatype db_write = W_root root_write | W_note note_write | W_tx tx_fields | W_agg agg_fields

fun apply_write :: "int \<Rightarrow> db \<Rightarrow> db_write \<Rightarrow> db" where
  "apply_write now d (W_root w) = upsertRoot now (rw_root w) (rw_height w) (rw_txid w) (rw_aggregationId w) d"
| "apply_write now d (W_note (NW_note v)) = insertNote now v d"
| "apply_write now d (W_note (NW_leaf c txid leaf)) = upsertCommitmentLeaf now c txid leaf d"
| "apply_write now d (W_tx v) = snd (recordTransaction now v d)"
| "apply_write now d (W_agg v) = upsertAggregation now v d"

definition apply_writes :: "(int \<times> db_write) list \<Rightarrow> db \<Rightarrow> db" where
  "apply_writes ws d = foldl (\<lambda>s w. apply_write (fst w) s (snd w)) d ws"

fun root_part :: "int \<times> db_write \<Rightarrow> (int \<times> root_write) option" where
  "root_part (now, W_root w) = Some (now, w)"
| "root_part _ = None"

fun note_part :: "int \<times> db_write \<Rightarrow> (int \<times> note_write) option" where
  "note_part (now, W_note w) = Some (now, w)"
| "note_part _ = None"

fun tx_part :: "int \<times> db_write \<Rightarrow> (int \<times> tx_fields) option" where
  "tx_part (now, W_tx w) = Some (now, w)"
| "tx_part _ = None"

fun agg_part :: "int \<times> db_write \<Rightarrow> (int \<times> agg_fields) option" where
  "agg_part (now, W_agg w) = Some (now, w)"
| "agg_part _ = None"

text \<open>What a sequence of writes does to each table.\<close>

lemmas write_defs = upsertRoot_def insertNote_def upsertCommitmentLeaf_def recordTransaction_def upsertAggregation_def

lemma apply_write_root:
  "db_roots (apply_write now d w) =
     (case w of W_root x \<Rightarrow> put_row rw_root root_ins (\<lambda>w r. r) (db_roots d) (now, x) | _ \<Rightarrow> db_roots d)"
  by (cases "(now, d, w)" rule: apply_write.cases)
     (simp_all add: write_defs put_row_def insert_ignore_update root_ins_def split: option.split)

lemma apply_write_note:
  "db_notes (apply_write now d w) =
     (case w of W_note x \<Rightarrow> put_row nw_key nw_ins nw_upd (db_notes d) (now, x) | _ \<Rightarrow> db_notes d)"
proof -
  have "nw_upd (NW_note v) = note_update_row v" "nw_upd (NW_leaf c txid leaf) = leaf_update_row leaf"
    for v c txid leaf by (simp_all add: fun_eq_iff)
  then show ?thesis
    by (cases "(now, d, w)" rule: apply_write.cases) (simp_all add: write_defs put_row_def split: option.split)
qed

lemma apply_write_tx:
  "db_transactions (apply_write now d w) =
     (case w of W_tx x \<Rightarrow> put_row tf_txid tx_ins (\<lambda>w r. r) (db_transactions d) (now, x) | _ \<Rightarrow> db_transactions d)"
  by (cases "(now, d, w)" rule: apply_write.cases)
     (simp_all add: write_defs put_row_def insert_update_def jm_values_set_same tx_ins_def split: option.split)

lemma apply_write_agg:
  "db_aggregations (apply_write now d w) =
     (case w of W_agg x \<Rightarrow> put_row agg_key agg_ins (\<lambda>w r. r) (db_aggregations d) (now, x) | _ \<Rightarrow> db_aggregations d)"
  by (cases "(now, d, w)" rule: apply_write.cases)
     (simp_all add: write_defs put_row_def insert_ignore_update agg_ins_def agg_key_def split: option.split)

lemma apply_write_rest [simp]:
  "db_stats (apply_write now d w) = db_stats d" "db_cursor (apply_write now d w) = db_cursor d"
  "db_users (apply_write now d w) = db_users d" "db_nonces (apply_write now d w) = db_nonces d"
  "db_sessions (apply_write now d w) = db_sessions d"
  by (cases "(now, d, w)" rule: apply_write.cases; simp add: write_defs split: option.split)+

lemma apply_writes_Nil [simp]: "apply_writes [] d = d"
  by (simp add: apply_writes_def)

lemma apply_writes_Cons [simp]: "apply_writes (w # ws) d = apply_writes ws (apply_write (fst w) d (snd w))"
  by (simp add: apply_writes_def)

lemma apply_writes_append: "apply_writes (vs @ ws) d = apply_writes ws (apply_writes vs d)"
  by (simp add: apply_writes_def)

lemma apply_writes_rest [simp]:
  "db_stats (apply_writes ws d) = db_stats d" "db_cursor (apply_writes ws d) = db_cursor d"
  "db_users (apply_writes ws d) = db_users d" "db_nonces (apply_writes ws d) = db_nonces d"
  "db_sessions (apply_writes ws d) = db_sessions d"
  by (induction ws arbitrary: d; simp)+

lemma apply_writes_root:
  "db_roots (apply_writes ws d) =
     foldl (put_row rw_root root_ins (\<lambda>w r. r)) (db_roots d) (List.map_filter root_part ws)"
  by (induction ws arbitrary: d rule: list.induct)
     (auto simp: map_filter_simps apply_write_root split: db_write.split)

lemma apply_writes_note:
  "db_notes (apply_writes ws d) =
     foldl (put_row nw_key nw_ins nw_upd) (db_notes d) (List.map_filter note_part ws)"
  by (induction ws arbitrary: d rule: list.induct)
     (auto simp: map_filter_simps apply_write_note split: db_write.split)

lemma apply_writes_tx:
  "db_transactions (apply_writes ws d) =
     foldl (put_row tf_txid tx_ins (\<lambda>w r. r)) (db_transactions d) (List.map_filter tx_part ws)"
  by (induction ws arbitrary: d rule: list.induct)
     (auto simp: map_filter_simps apply_write_tx split: db_write.split)

lemma apply_writes_agg:
  "db_aggregations (apply_writes ws d) =
     foldl (put_row agg_key agg_ins (\<lambda>w r. r)) (db_aggregations d) (List.map_filter agg_part ws)"
  by (induction ws arbitrary: d rule: list.induct)
     (auto simp: map_filter_simps apply_write_agg split: db_write.split)

text \<open>The same writes at other times touch the same keys.\<close>

lemma parts_same:
  assumes "map snd vs = map snd ws"
  shows "map snd (List.map_filter root_part vs) = map snd (List.map_filter root_part ws)"
    and "map snd (List.map_filter note_part vs) = map snd (List.map_filter note_part ws)"
    and "map snd (List.map_filter tx_part vs) = map snd (List.map_filter tx_part ws)"
    and "map snd (List.map_filter agg_part vs) = map snd (List.map_filter agg_part ws)"
proof -
  have l: "length vs = length ws" using assms by (metis length_map)
  have "map snd (List.map_filter root_part vs) = map snd (List.map_filter root_part ws) \<and>
        map snd (List.map_filter note_part vs) = map snd (List.map_filter note_part ws) \<and>
        map snd (List.map_filter tx_part vs) = map snd (List.map_filter tx_part ws) \<and>
        map snd (List.map_filter agg_part vs) = map snd (List.map_filter agg_part ws)"
    using l assms
  proof (induction rule: list_induct2)
    case (Cons v vs w ws)
    then show ?case by (cases v; cases w; cases "snd w") (simp_all add: map_filter_simps)
  qed simp
  then show "map snd (List.map_filter root_part vs) = map snd (List.map_filter root_part ws)"
    "map snd (List.map_filter note_part vs) = map snd (List.map_filter note_part ws)"
    "map snd (List.map_filter tx_part vs) = map snd (List.map_filter tx_part ws)"
    "map snd (List.map_filter agg_part vs) = map snd (List.map_filter agg_part ws)" by blast+
qed

text \<open>Fees grow only with a transaction that is new.\<close>

definition tx_known :: "db \<Rightarrow> db_write \<Rightarrow> bool" where
  "tx_known d w \<longleftrightarrow> (\<forall>v. w = W_tx v \<longrightarrow> jm_get (db_transactions d) (tf_txid v) \<noteq> None)"

lemma tx_known_write [simp]: "tx_known d w \<Longrightarrow> tx_known (apply_write now d x) w"
  by (cases x) (auto simp: tx_known_def apply_write_tx put_row_def insert_update_get simp del: apply_write.simps)

lemma tx_known_after [simp]: "tx_known (apply_write now d w) w"
  by (cases w) (auto simp: tx_known_def apply_write_tx put_row_def insert_update_get simp del: apply_write.simps)

lemma tx_known_writes: "tx_known d w \<or> w \<in> snd ` set ws \<Longrightarrow> tx_known (apply_writes ws d) w"
  by (induction ws arbitrary: d) auto

lemma known_write_fees: "tx_known d w \<Longrightarrow> db_fees (apply_write now d w) = db_fees d"
  by (cases "(now, d, w)" rule: apply_write.cases) (auto simp: write_defs tx_known_def split: option.split)

lemma known_writes_fees: "\<forall>w\<in>snd ` set ws. tx_known d w \<Longrightarrow> db_fees (apply_writes ws d) = db_fees d"
  by (induction ws arbitrary: d) (auto simp: known_write_fees)

text \<open>The tables of a database have no key twice.\<close>

definition db_wf :: "db \<Rightarrow> bool" where
  "db_wf d \<longleftrightarrow> jm_wf (db_notes d) \<and> jm_wf (db_roots d) \<and> jm_wf (db_transactions d) \<and> jm_wf (db_aggregations d)"

lemma empty_db_wf [simp]: "db_wf empty_db"
  by (simp add: db_wf_def empty_db_def)

lemma apply_writes_wf [simp]: "db_wf d \<Longrightarrow> db_wf (apply_writes ws d)"
  by (simp add: db_wf_def apply_writes_root apply_writes_note apply_writes_tx apply_writes_agg)

lemma writes_replay:
  assumes wf: "db_wf d" and same: "map snd vs = map snd ws"
  shows "apply_writes vs (apply_writes ws d) = apply_writes ws d"
proof (rule db.equality)
  note p = parts_same [OF same]
  have w: "jm_wf (db_notes d)" "jm_wf (db_roots d)" "jm_wf (db_transactions d)" "jm_wf (db_aggregations d)"
    using wf by (simp_all add: db_wf_def)
  show "db_notes (apply_writes vs (apply_writes ws d)) = db_notes (apply_writes ws d)"
    unfolding apply_writes_note by (rule note_table.replay [OF w(1) p(2)])
  show "db_roots (apply_writes vs (apply_writes ws d)) = db_roots (apply_writes ws d)"
    unfolding apply_writes_root by (rule root_table.replay [OF w(2) p(1)])
  show "db_transactions (apply_writes vs (apply_writes ws d)) = db_transactions (apply_writes ws d)"
    unfolding apply_writes_tx by (rule tx_table.replay [OF w(3) p(3)])
  show "db_aggregations (apply_writes vs (apply_writes ws d)) = db_aggregations (apply_writes ws d)"
    unfolding apply_writes_agg by (rule agg_table.replay [OF w(4) p(4)])
  have "snd ` set vs = set (map snd vs)" by (simp only: set_map)
  also have "\<dots> = snd ` set ws" by (simp only: same set_map)
  finally have "\<forall>w\<in>snd ` set vs. tx_known (apply_writes ws d) w" by (simp add: tx_known_writes)
  then show "db_fees (apply_writes vs (apply_writes ws d)) = db_fees (apply_writes ws d)"
    by (rule known_writes_fees)
qed simp_all

end
