(* ===== verification/ApiIndexer.thy ===== *)
theory ApiIndexer
  imports ApiStore JsNumber
begin

text \<open>
  The indexer of the API, \<open>services/api/src/indexers\<close>: the decoder of print events, the handlers
  of note, commitment, root and aggregation events, the statistics snapshot and the scan of the
  contracts. The chain's answers and the package's decoding of a Clarity value are parameters;
  the database is passed along. Each event comes with the time its rows are inserted at.
\<close>

section \<open>Decoding\<close>

datatype field_value = FNull | FText string | FInt int | FBool bool | FObj json

record decoded_event =
  de_event :: string
  de_fields :: "(string \<times> field_value) list"

definition js_BigInt :: "json \<Rightarrow> (string, int) result" where
  "js_BigInt v =
     (case v of
        JStr s \<Rightarrow> js_BigInt_text s
      | JNum r \<Rightarrow> if of_int \<lfloor>r\<rfloor> = r then Inr \<lfloor>r\<rfloor> else Inl ''RangeError''
      | JBool b \<Rightarrow> Inr (if b then 1 else 0)
      | _ \<Rightarrow> Inl ''TypeError'')"

text \<open>
  A value as it is; no value of a node is a fraction. \<open>stringify\<close> is \<open>JSON.stringify\<close>, the \<open>type\<close> of
  a node is a text.
\<close>

definition raw_value :: "json \<Rightarrow> field_value" where
  "raw_value v =
     (case v of
        JStr s \<Rightarrow> FText s
      | JBool b \<Rightarrow> FBool b
      | JNum r \<Rightarrow> FInt \<lfloor>r\<rfloor>
      | JNull \<Rightarrow> FNull
      | w \<Rightarrow> FObj w)"

definition js_object :: "json \<Rightarrow> bool" where
  "js_object v \<longleftrightarrow> (case v of JNull \<Rightarrow> True | JArr _ \<Rightarrow> True | JObj _ \<Rightarrow> True | _ \<Rightarrow> False)"

definition flatten_node :: "(json \<Rightarrow> string) \<Rightarrow> json \<Rightarrow> (string, field_value) result" where
  "flatten_node stringify node =
     (case json_field node ''value'' of
        None \<Rightarrow> Inr FNull
      | Some v \<Rightarrow>
          (let t = (case json_field node ''type'' of Some (JStr s) \<Rightarrow> s | _ \<Rightarrow> []) in
           if js_startsWith t ''uint'' \<or> js_startsWith t ''int''
           then rbind (js_BigInt v) (\<lambda>i. Inr (FInt i))
           else if js_startsWith t ''(buff'' \<or> t = ''bool'' \<or> js_startsWith t ''principal'' \<or> js_startsWith t ''(string''
           then Inr (raw_value v)
           else Inr (if js_object v then FText (stringify v) else raw_value v)))"

fun flatten_all :: "(json \<Rightarrow> string) \<Rightarrow> (string \<times> json) list \<Rightarrow> (string, (string \<times> field_value) list) result" where
  "flatten_all stringify [] = Inr []"
| "flatten_all stringify ((k, v) # rest) =
     (if k = ''event'' then flatten_all stringify rest
      else rbind (flatten_node stringify v) (\<lambda>x.
           rbind (flatten_all stringify rest) (\<lambda>xs. Inr ((k, x) # xs))))"

text \<open>\<open>Inl\<close> is an error the function throws, \<open>Inr None\<close> the \<open>null\<close> it returns.\<close>

definition decodeEvent ::
  "(json \<Rightarrow> string) \<Rightarrow> (string \<Rightarrow> (string, json) result) \<Rightarrow> string \<Rightarrow> (string, decoded_event option) result" where
  "decodeEvent stringify decode hex =
     (case decode hex of
        Inl e \<Rightarrow> Inr None
      | Inr j \<Rightarrow>
          (case json_field j ''value'' of
             Some (JObj raw) \<Rightarrow>
               (case map_of raw ''event'' of
                  Some node \<Rightarrow>
                    (case json_field node ''value'' of
                       Some (JStr ev) \<Rightarrow>
                         rbind (flatten_all stringify raw) (\<lambda>fs. Inr (Some \<lparr>de_event = ev, de_fields = fs\<rparr>))
                     | _ \<Rightarrow> Inr None)
                | None \<Rightarrow> Inr None)
           | _ \<Rightarrow> Inr None))"

definition field_at :: "decoded_event \<Rightarrow> string \<Rightarrow> field_value" where
  "field_at ev k = (case map_of (de_fields ev) k of Some v \<Rightarrow> v | None \<Rightarrow> FNull)"

fun asHex :: "field_value \<Rightarrow> string option" where
  "asHex (FText s) = Some s"
| "asHex _ = None"

fun asInt :: "field_value \<Rightarrow> int option" where
  "asInt (FInt i) = Some i"
| "asInt _ = None"

fun asBig :: "field_value \<Rightarrow> int option" where
  "asBig (FInt i) = Some i"
| "asBig _ = None"

text \<open>A text the code tests with \<open>&&\<close>: present and not empty.\<close>

definition truthy_text :: "string option \<Rightarrow> bool" where
  "truthy_text v \<longleftrightarrow> v \<noteq> None \<and> v \<noteq> Some []"

section \<open>Handlers\<close>

definition handleRootFromEvent :: "int \<Rightarrow> decoded_event \<Rightarrow> string \<Rightarrow> db \<Rightarrow> db" where
  "handleRootFromEvent now ev txid d =
     (let height = asInt (field_at ev ''height''); newRoot = asHex (field_at ev ''new-root'')
      in if truthy_text newRoot then upsertRoot now (the newRoot) height (Some txid) None d else d)"

text \<open>The block the note handlers share: a root and a note when both texts are there.\<close>

definition root_and_note ::
  "int \<Rightarrow> decoded_event \<Rightarrow> string \<Rightarrow> string \<Rightarrow> string \<Rightarrow> string \<Rightarrow> int option \<Rightarrow> db \<Rightarrow> db" where
  "root_and_note now ev txid ckey lkey ty assetId d =
     (let height = asInt (field_at ev ''height''); newRoot = asHex (field_at ev ''new-root'');
          commitment = asHex (field_at ev ckey)
      in if truthy_text commitment \<and> truthy_text newRoot
         then insertNote now
                \<lparr>nf_commitment = the commitment, nf_root = the newRoot, nf_txid = txid,
                 nf_leafIndex = asInt (field_at ev lkey), nf_type = ty, nf_assetId = assetId\<rparr>
                (upsertRoot now (the newRoot) height (Some txid) None d)
         else d)"

definition note_only ::
  "int \<Rightarrow> decoded_event \<Rightarrow> string \<Rightarrow> string \<Rightarrow> string \<Rightarrow> string \<Rightarrow> db \<Rightarrow> db" where
  "note_only now ev txid ckey lkey ty d =
     (let newRoot = asHex (field_at ev ''new-root''); commitment = asHex (field_at ev ckey)
      in if truthy_text commitment \<and> truthy_text newRoot
         then insertNote now
                \<lparr>nf_commitment = the commitment, nf_root = the newRoot, nf_txid = txid,
                 nf_leafIndex = asInt (field_at ev lkey), nf_type = ty, nf_assetId = None\<rparr> d
         else d)"

definition record_op ::
  "int \<Rightarrow> decoded_event \<Rightarrow> string \<Rightarrow> string \<Rightarrow> int option \<Rightarrow> int option \<Rightarrow> db \<Rightarrow> db" where
  "record_op now ev txid ty fee assetId d =
     snd (recordTransaction now
       \<lparr>tf_txid = txid, tf_type = ty, tf_height = asInt (field_at ev ''height''), tf_feeMicro = fee,
        tf_aggregationId = None, tf_assetId = assetId\<rparr> d)"

definition handleNoteEvent :: "int \<Rightarrow> decoded_event \<Rightarrow> string \<Rightarrow> db \<Rightarrow> bool \<times> db" where
  "handleNoteEvent now ev txid d =
     (let fee = asBig (field_at ev ''fee''); assetId = asInt (field_at ev ''asset-id''); e = de_event ev
      in if e = ''shielded'' then
           (True, record_op now ev txid ''shield'' fee None
                    (root_and_note now ev txid ''commitment'' ''leaf-index'' ''shield'' None d))
         else if e = ''transferred'' then
           (True, record_op now ev txid ''transfer'' fee None
                    (root_and_note now ev txid ''new-commitment'' ''leaf-index'' ''transfer'' None d))
         else if e = ''note-split'' then
           (True, record_op now ev txid ''split'' fee None
                    (note_only now ev txid ''commitment-2'' ''leaf-2'' ''split''
                      (note_only now ev txid ''commitment-1'' ''leaf-1'' ''split''
                        (handleRootFromEvent now ev txid d))))
         else if e = ''note-merge'' then
           (True, record_op now ev txid ''merge'' fee None
                    (root_and_note now ev txid ''commitment'' ''leaf-index'' ''merge'' None d))
         else if e = ''withdrawn'' then
           (True, record_op now ev txid ''withdraw'' fee None d)
         else if e = ''sip10-shielded'' then
           (True, record_op now ev txid ''shield'' None assetId
                    (root_and_note now ev txid ''commitment'' ''leaf-index'' ''shield'' assetId d))
         else if e = ''sip10-transferred'' then
           (True, record_op now ev txid ''transfer'' None assetId
                    (root_and_note now ev txid ''new-commitment'' ''leaf-index'' ''transfer'' assetId d))
         else if e = ''sip10-split'' then
           (True, record_op now ev txid ''split'' None assetId (handleRootFromEvent now ev txid d))
         else if e = ''sip10-merged'' then
           (True, record_op now ev txid ''merge'' None assetId
                    (root_and_note now ev txid ''commitment'' ''leaf-index'' ''merge'' assetId d))
         else if e = ''sip10-withdrawn'' then
           (True, record_op now ev txid ''withdraw'' None assetId d)
         else (False, d))"

definition handleCommitmentEvent :: "int \<Rightarrow> decoded_event \<Rightarrow> string \<Rightarrow> db \<Rightarrow> bool \<times> db" where
  "handleCommitmentEvent now ev txid d =
     (if de_event ev \<noteq> ''commitment-registered'' then (False, d)
      else (let commitment = asHex (field_at ev ''commitment'')
            in (True, if truthy_text commitment
                      then upsertCommitmentLeaf now (the commitment) txid (asInt (field_at ev ''index'')) d else d)))"

definition handleAggregationEvent :: "int \<Rightarrow> decoded_event \<Rightarrow> string \<Rightarrow> db \<Rightarrow> bool \<times> db" where
  "handleAggregationEvent now ev txid d =
     (if de_event ev = ''aggregation-posted'' then
        (let aggregationId = asBig (field_at ev ''aggregation-id''); domainId = asInt (field_at ev ''domain-id'');
             rt = asHex (field_at ev ''root''); leafCount = asInt (field_at ev ''leaf-count'');
             height = asInt (field_at ev ''height'')
         in (True,
             if aggregationId \<noteq> None \<and> domainId \<noteq> None \<and> truthy_text rt \<and> leafCount \<noteq> None
             then snd (recordTransaction now
                    \<lparr>tf_txid = txid, tf_type = ''aggregation'', tf_height = height, tf_feeMicro = None,
                     tf_aggregationId = aggregationId, tf_assetId = None\<rparr>
                    (upsertRoot now (the rt) height (Some txid) aggregationId
                      (upsertAggregation now
                        \<lparr>af_aggregationId = the aggregationId, af_domainId = the domainId, af_root = the rt,
                         af_leafCount = the leafCount, af_height = height, af_txid = Some txid\<rparr> d)))
             else d))
      else if de_event ev = ''proof-verified'' then (True, d)
      else (False, d))"

definition dispatch_decoded :: "int \<Rightarrow> decoded_event \<Rightarrow> string \<Rightarrow> db \<Rightarrow> db" where
  "dispatch_decoded now ev txid d =
     (let d1 = handleRootFromEvent now ev txid d;
          (isNote, d2) = handleNoteEvent now ev txid d1
      in if isNote then d2
         else (let (isCommitment, d3) = handleCommitmentEvent now ev txid d2
               in if isCommitment then d3 else snd (handleAggregationEvent now ev txid d3)))"

section \<open>The scan\<close>

record raw_event =
  rv_txid :: string
  rv_hex :: "string option"

record chain_env =
  ce_stringify :: "json \<Rightarrow> string"
  ce_decode :: "string \<Rightarrow> (string, json) result"
  ce_page :: "string \<Rightarrow> nat \<Rightarrow> (string, raw_event list) result"
  ce_tip :: "(string, int) result"
  ce_now :: int
  ce_pool :: "(string, string option) result"

definition PAGE :: nat where
  "PAGE = 50"

definition MAX_PAGES :: nat where
  "MAX_PAGES = 40"

definition OVERLAP :: int where
  "OVERLAP = 3"

text \<open>\<open>getContractEvents\<close> drops the results that are not a print with a value.\<close>

definition getContractEvents :: "chain_env \<Rightarrow> string \<Rightarrow> nat \<Rightarrow> (string, raw_event list) result" where
  "getContractEvents env c offset =
     rbind (ce_page env c offset) (\<lambda>rs. Inr (filter (\<lambda>r. truthy_text (rv_hex r)) rs))"

definition dispatch :: "chain_env \<Rightarrow> raw_event \<Rightarrow> db \<Rightarrow> (string, int option) result \<times> db" where
  "dispatch env r d =
     (case decodeEvent (ce_stringify env) (ce_decode env) (the (rv_hex r)) of
        Inl e \<Rightarrow> (Inl e, d)
      | Inr None \<Rightarrow> (Inr None, d)
      | Inr (Some ev) \<Rightarrow> (Inr (asInt (field_at ev ''height'')), dispatch_decoded (ce_now env) ev (rv_txid r) d))"

text \<open>One page: the lowest height seen (\<open>None\<close> is infinity), the highest, the database.\<close>

fun scan_events ::
  "chain_env \<Rightarrow> raw_event list \<Rightarrow> int option \<Rightarrow> int \<Rightarrow> db \<Rightarrow> (string, int option \<times> int) result \<times> db" where
  "scan_events env [] pageMin maxHeight d = (Inr (pageMin, maxHeight), d)"
| "scan_events env (r # rs) pageMin maxHeight d =
     (case dispatch env r d of
        (Inl e, d1) \<Rightarrow> (Inl e, d1)
      | (Inr None, d1) \<Rightarrow> scan_events env rs pageMin maxHeight d1
      | (Inr (Some h), d1) \<Rightarrow>
          scan_events env rs (Some (case pageMin of None \<Rightarrow> h | Some m \<Rightarrow> min m h)) (max maxHeight h) d1)"

fun scan_pages ::
  "chain_env \<Rightarrow> string \<Rightarrow> int \<Rightarrow> nat \<Rightarrow> nat \<Rightarrow> int \<Rightarrow> db \<Rightarrow> (string, int) result \<times> db" where
  "scan_pages env c since 0 page maxHeight d = (Inr maxHeight, d)"
| "scan_pages env c since (Suc left) page maxHeight d =
     (case getContractEvents env c (page * PAGE) of
        Inl e \<Rightarrow> (Inl e, d)
      | Inr events \<Rightarrow>
          if events = [] then (Inr maxHeight, d)
          else (case scan_events env events None maxHeight d of
                  (Inl e, d1) \<Rightarrow> (Inl e, d1)
                | (Inr (pageMin, mh), d1) \<Rightarrow>
                    if (case pageMin of Some m \<Rightarrow> m \<le> since | None \<Rightarrow> False) then (Inr mh, d1)
                    else if length events < PAGE then (Inr mh, d1)
                    else scan_pages env c since left (page + 1) mh d1))"

definition scanContract :: "chain_env \<Rightarrow> string \<Rightarrow> int \<Rightarrow> db \<Rightarrow> (string, int) result \<times> db" where
  "scanContract env c since d = scan_pages env c since MAX_PAGES 0 since d"

text \<open>A contract whose scan fails is skipped.\<close>

fun scan_contracts :: "chain_env \<Rightarrow> int \<Rightarrow> string list \<Rightarrow> int \<Rightarrow> db \<Rightarrow> int \<times> db" where
  "scan_contracts env since [] processedTo d = (processedTo, d)"
| "scan_contracts env since (c # cs) processedTo d =
     (case scanContract env c since d of
        (Inl e, d1) \<Rightarrow> scan_contracts env since cs processedTo d1
      | (Inr seen, d1) \<Rightarrow> scan_contracts env since cs (max processedTo seen) d1)"

section \<open>Statistics and the cursor\<close>

definition readPoolBalance :: "chain_env \<Rightarrow> int" where
  "readPoolBalance env =
     (case ce_pool env of
        Inl e \<Rightarrow> 0
      | Inr None \<Rightarrow> 0
      | Inr (Some hex) \<Rightarrow>
          if hex = [] then 0
          else (case ce_decode env hex of
                  Inl e \<Rightarrow> 0
                | Inr j \<Rightarrow>
                    (case js_nullish (json_field j ''value'') None of
                       None \<Rightarrow> 0
                     | Some v \<Rightarrow> (case js_BigInt v of Inl e \<Rightarrow> 0 | Inr n \<Rightarrow> n))))"

definition refreshStats :: "chain_env \<Rightarrow> db \<Rightarrow> db" where
  "refreshStats env d =
     d\<lparr>db_stats := Some \<lparr>st_shieldedStx = readPoolBalance env, st_notes = length (db_notes d),
         st_operations = length (db_transactions d), st_users = length (db_users d)\<rparr>\<rparr>"

definition getCursor :: "int \<Rightarrow> db \<Rightarrow> int" where
  "getCursor start d = (case db_cursor d of Some h \<Rightarrow> h | None \<Rightarrow> start)"

definition setCursor :: "int \<Rightarrow> db \<Rightarrow> db" where
  "setCursor h d = d\<lparr>db_cursor := Some h\<rparr>"

definition scanOnce :: "chain_env \<Rightarrow> int \<Rightarrow> string list \<Rightarrow> db \<Rightarrow> (string, int \<times> int) result \<times> db" where
  "scanOnce env start contracts d =
     (case ce_tip env of
        Inl e \<Rightarrow> (Inl e, d)
      | Inr tip \<Rightarrow>
          (let cursor = getCursor start d;
               since = max 0 (cursor - OVERLAP);
               (processedTo, d1) = scan_contracts env since contracts cursor d;
               d2 = refreshStats env d1;
               newCursor = max cursor (min processedTo tip)
           in (Inr (tip, newCursor), setCursor newCursor d2)))"

text \<open>\<open>tick\<close>: a scan only when the tip moved; \<open>lastTip\<close> is set before the scan, whatever it does.\<close>

definition indexer_tick :: "chain_env \<Rightarrow> int \<Rightarrow> string list \<Rightarrow> int \<Rightarrow> db \<Rightarrow> int \<times> db" where
  "indexer_tick env start contracts lastTip d =
     (case ce_tip env of
        Inl e \<Rightarrow> (lastTip, d)
      | Inr tip \<Rightarrow> if tip = lastTip then (lastTip, d) else (tip, snd (scanOnce env start contracts d)))"

section \<open>The scan as a sequence of writes\<close>

text \<open>
  What a handler does is a sequence of writes that depends on the event, and neither on the time
  nor on what the database holds. The rules below compute this over the text of the handlers.
\<close>

definition writes_only :: "(int \<Rightarrow> db \<Rightarrow> db) \<Rightarrow> bool" where
  "writes_only f \<longleftrightarrow> (\<exists>ws. \<forall>now d. f now d = apply_writes (map (Pair now) ws) d)"

definition answers_writes :: "(int \<Rightarrow> db \<Rightarrow> 'a \<times> db) \<Rightarrow> bool" where
  "answers_writes f \<longleftrightarrow> (\<exists>r ws. \<forall>now d. f now d = (r, apply_writes (map (Pair now) ws) d))"

named_theorems write_rules

lemma writes_none [write_rules]: "writes_only (\<lambda>now d. d)"
proof -
  have "\<forall>now d. d = apply_writes (map (Pair now) []) d" by simp
  then show ?thesis unfolding writes_only_def by (rule exI)
qed

lemma writes_then:
  assumes "\<And>now d. g now d = apply_writes (map (Pair now) vs) d" "writes_only f"
  shows "writes_only (\<lambda>now d. g now (f now d))"
proof -
  obtain ws where "\<forall>now d. f now d = apply_writes (map (Pair now) ws) d"
    using assms(2) unfolding writes_only_def by blast
  then have "\<forall>now d. g now (f now d) = apply_writes (map (Pair now) (ws @ vs)) d"
    using assms(1) by (simp add: apply_writes_append)
  then show ?thesis unfolding writes_only_def by blast
qed

lemma writes_if [write_rules]:
  "writes_only f \<Longrightarrow> writes_only g \<Longrightarrow> writes_only (\<lambda>now d. if c then f now d else g now d)"
  by (cases c) simp_all

lemma answers_if [write_rules]:
  "answers_writes f \<Longrightarrow> answers_writes g \<Longrightarrow> answers_writes (\<lambda>now d. if c then f now d else g now d)"
  by (cases c) simp_all

lemma answers_const [write_rules]: "writes_only f \<Longrightarrow> answers_writes (\<lambda>now d. (r, f now d))"
  unfolding writes_only_def answers_writes_def by blast

lemma answers_snd: "answers_writes f \<Longrightarrow> writes_only (\<lambda>now d. snd (f now d))"
  unfolding writes_only_def answers_writes_def by force

lemma answers_then:
  assumes f: "answers_writes f" and g: "\<And>r. answers_writes (\<lambda>now d. g r now d)"
  shows "answers_writes (\<lambda>now d. g (fst (f now d)) now (snd (f now d)))"
proof -
  obtain r ws where e: "\<forall>now d. f now d = (r, apply_writes (map (Pair now) ws) d)"
    using f unfolding answers_writes_def by blast
  obtain q vs where e': "\<forall>now d. g r now d = (q, apply_writes (map (Pair now) vs) d)"
    using g [of r] unfolding answers_writes_def by blast
  have "\<forall>now d. g (fst (f now d)) now (snd (f now d)) = (q, apply_writes (map (Pair now) (ws @ vs)) d)"
    using e e' by (simp add: apply_writes_append)
  then show ?thesis unfolding answers_writes_def by blast
qed

lemma upsertRoot_writes [write_rules]:
  "writes_only f \<Longrightarrow> writes_only (\<lambda>now d. upsertRoot now rt h t a (f now d))"
  by (rule writes_then [where vs = "[W_root \<lparr>rw_root = rt, rw_height = h, rw_txid = t, rw_aggregationId = a\<rparr>]"]) simp_all

lemma insertNote_writes [write_rules]: "writes_only f \<Longrightarrow> writes_only (\<lambda>now d. insertNote now v (f now d))"
  by (rule writes_then [where vs = "[W_note (NW_note v)]"]) simp_all

lemma upsertCommitmentLeaf_writes [write_rules]:
  "writes_only f \<Longrightarrow> writes_only (\<lambda>now d. upsertCommitmentLeaf now c t leaf (f now d))"
  by (rule writes_then [where vs = "[W_note (NW_leaf c t leaf)]"]) simp_all

lemma recordTransaction_writes [write_rules]:
  "writes_only f \<Longrightarrow> writes_only (\<lambda>now d. snd (recordTransaction now v (f now d)))"
  by (rule writes_then [where vs = "[W_tx v]"]) simp_all

lemma upsertAggregation_writes [write_rules]:
  "writes_only f \<Longrightarrow> writes_only (\<lambda>now d. upsertAggregation now v (f now d))"
  by (rule writes_then [where vs = "[W_agg v]"]) simp_all

lemma writes_compose:
  assumes "writes_only g" "writes_only f"
  shows "writes_only (\<lambda>now d. g now (f now d))"
proof -
  obtain vs where "\<forall>now d. g now d = apply_writes (map (Pair now) vs) d"
    using assms(1) unfolding writes_only_def by blast
  then show ?thesis using writes_then [of g vs f] assms(2) by blast
qed

lemma handleRoot_writes [write_rules]: "writes_only f \<Longrightarrow> writes_only (\<lambda>now d. handleRootFromEvent now ev t (f now d))"
  by (rule writes_compose [of "\<lambda>now d. handleRootFromEvent now ev t d" f]) (unfold handleRootFromEvent_def Let_def, intro write_rules)

lemma root_and_note_writes [write_rules]:
  "writes_only f \<Longrightarrow> writes_only (\<lambda>now d. root_and_note now ev t ck lk ty a (f now d))"
  by (rule writes_compose [of "\<lambda>now d. root_and_note now ev t ck lk ty a d" f]) (unfold root_and_note_def Let_def, intro write_rules)

lemma note_only_writes [write_rules]:
  "writes_only f \<Longrightarrow> writes_only (\<lambda>now d. note_only now ev t ck lk ty (f now d))"
  by (rule writes_compose [of "\<lambda>now d. note_only now ev t ck lk ty d" f]) (unfold note_only_def Let_def, intro write_rules)

lemma record_op_writes [write_rules]:
  "writes_only f \<Longrightarrow> writes_only (\<lambda>now d. record_op now ev t ty fee a (f now d))"
  by (rule writes_compose [of "\<lambda>now d. record_op now ev t ty fee a d" f]) (unfold record_op_def, intro write_rules)

lemma handleNoteEvent_writes: "answers_writes (\<lambda>now d. handleNoteEvent now ev t d)"
  unfolding handleNoteEvent_def Let_def by (intro write_rules)

lemma handleCommitmentEvent_writes: "answers_writes (\<lambda>now d. handleCommitmentEvent now ev t d)"
  unfolding handleCommitmentEvent_def Let_def by (intro write_rules)

lemma handleAggregationEvent_writes: "answers_writes (\<lambda>now d. handleAggregationEvent now ev t d)"
  unfolding handleAggregationEvent_def Let_def by (intro write_rules)

text \<open>The order of the handlers: the next one runs when the one before answers that it is not its event.\<close>

lemma dispatch_decoded_writes: "writes_only (\<lambda>now d. dispatch_decoded now ev t d)"
proof -
  define root where "root = (\<lambda>now d. ((), handleRootFromEvent now ev t d))"
  define commitment where "commitment = (\<lambda>(b :: bool) now d.
     if b then (True, d) else handleCommitmentEvent now ev t d)"
  define agg where "agg = (\<lambda>(b :: bool) now d. if b then (True, d) else handleAggregationEvent now ev t d)"
  define first where "first = (\<lambda>now d. handleNoteEvent now ev t (snd (root now d)))"
  define second where "second = (\<lambda>now d. commitment (fst (first now d)) now (snd (first now d)))"
  have r: "answers_writes root" unfolding root_def by (intro write_rules)
  have f: "answers_writes first"
    unfolding first_def using answers_then [OF r, of "\<lambda>_ now d. handleNoteEvent now ev t d"]
    by (simp add: handleNoteEvent_writes)
  have s: "answers_writes second"
    unfolding second_def
    by (rule answers_then [OF f]) (unfold commitment_def, intro write_rules handleCommitmentEvent_writes)
  have "answers_writes (\<lambda>now d. agg (fst (second now d)) now (snd (second now d)))"
    by (rule answers_then [OF s]) (unfold agg_def, intro write_rules handleAggregationEvent_writes)
  then have "writes_only (\<lambda>now d. snd (agg (fst (second now d)) now (snd (second now d))))" by (rule answers_snd)
  moreover have "dispatch_decoded now ev t d = snd (agg (fst (second now d)) now (snd (second now d)))" for now d
    by (simp add: dispatch_decoded_def agg_def second_def commitment_def first_def root_def Let_def
             split: prod.split)
  ultimately show ?thesis by simp
qed

text \<open>A scan at one time: its answer, and writes that another time would make as well.\<close>

definition scan_writes :: "chain_env \<Rightarrow> (chain_env \<Rightarrow> db \<Rightarrow> 'a \<times> db) \<Rightarrow> bool" where
  "scan_writes env f \<longleftrightarrow> answers_writes (\<lambda>now d. f (env\<lparr>ce_now := now\<rparr>) d)"

lemma scan_writesI: "(\<And>now d. f (env\<lparr>ce_now := now\<rparr>) d = (r, apply_writes (map (Pair now) ws) d)) \<Longrightarrow> scan_writes env f"
  unfolding scan_writes_def answers_writes_def by blast

lemma scan_writesE:
  assumes "scan_writes env f"
  obtains r ws where "\<And>now d. f (env\<lparr>ce_now := now\<rparr>) d = (r, apply_writes (map (Pair now) ws) d)"
  using assms unfolding scan_writes_def answers_writes_def by blast

lemma dispatch_writes: "scan_writes env (\<lambda>e d. dispatch e r d)"
proof (cases "decodeEvent (ce_stringify env) (ce_decode env) (the (rv_hex r))")
  case (Inl e)
  then show ?thesis by (intro scan_writesI [where ws = "[]"]) (simp add: dispatch_def)
next
  case (Inr x)
  show ?thesis
  proof (cases x)
    case None
    then show ?thesis using Inr by (intro scan_writesI [where ws = "[]"]) (simp add: dispatch_def)
  next
    case (Some ev)
    obtain ws where "\<forall>now d. dispatch_decoded now ev (rv_txid r) d = apply_writes (map (Pair now) ws) d"
      using dispatch_decoded_writes unfolding writes_only_def by blast
    then show ?thesis using Inr Some by (intro scan_writesI [where ws = ws]) (simp add: dispatch_def)
  qed
qed

lemma scan_events_writes: "scan_writes env (\<lambda>e d. scan_events e rs lo hi d)"
proof (induction rs arbitrary: lo hi)
  case Nil
  show ?case by (intro scan_writesI [where ws = "[]"]) simp
next
  case (Cons r rs)
  obtain q ws where w: "\<And>now d. dispatch (env\<lparr>ce_now := now\<rparr>) r d = (q, apply_writes (map (Pair now) ws) d)"
    using dispatch_writes [of env r] by (rule scan_writesE) blast
  show ?case
  proof (cases q)
    case (Inl e)
    then show ?thesis using w by (intro scan_writesI [where ws = ws]) simp
  next
    case (Inr h)
    obtain lo' hi' where n: "\<And>now d. scan_events (env\<lparr>ce_now := now\<rparr>) (r # rs) lo hi d =
        scan_events (env\<lparr>ce_now := now\<rparr>) rs lo' hi' (apply_writes (map (Pair now) ws) d)"
      using w Inr by (cases h) (simp_all add: that)
    obtain q' vs where "\<And>now d. scan_events (env\<lparr>ce_now := now\<rparr>) rs lo' hi' d = (q', apply_writes (map (Pair now) vs) d)"
      using Cons.IH [of lo' hi'] by (rule scan_writesE) blast
    then show ?thesis using n by (intro scan_writesI [where ws = "ws @ vs"]) (simp add: apply_writes_append)
  qed
qed

lemma scan_pages_writes: "scan_writes env (\<lambda>e d. scan_pages e c since left page hi d)"
proof (induction left arbitrary: page hi)
  case 0
  show ?case by (intro scan_writesI [where ws = "[]"]) simp
next
  case (Suc left)
  have g: "getContractEvents (env\<lparr>ce_now := now\<rparr>) = getContractEvents env" for now
    by (simp add: fun_eq_iff getContractEvents_def)
  show ?case
  proof (cases "getContractEvents env c (page * PAGE)")
    case (Inl e)
    then show ?thesis by (intro scan_writesI [where ws = "[]"]) (simp add: g)
  next
    case (Inr events)
    show ?thesis
    proof (cases "events = []")
      case True
      then show ?thesis using Inr by (intro scan_writesI [where ws = "[]"]) (simp add: g)
    next
      case False
      obtain q ws where w: "\<And>now d. scan_events (env\<lparr>ce_now := now\<rparr>) events None hi d = (q, apply_writes (map (Pair now) ws) d)"
        using scan_events_writes [of env events None hi] by (rule scan_writesE) blast
      note s = g Inr False w
      show ?thesis
      proof (cases q)
        case (Inl e)
        then show ?thesis using s by (intro scan_writesI [where ws = ws]) simp
      next
        case q: (Inr x)
        obtain lo' hi' where x: "x = (lo', hi')" by (cases x)
        show ?thesis
        proof (cases "(case lo' of Some m \<Rightarrow> m \<le> since | None \<Rightarrow> False) \<or> length events < PAGE")
          case True
          then show ?thesis using s q x by (intro scan_writesI [where ws = ws and r = "Inr hi'"]) auto
        next
          case False
          obtain q' vs where "\<And>now d. scan_pages (env\<lparr>ce_now := now\<rparr>) c since left (page + 1) hi' d =
              (q', apply_writes (map (Pair now) vs) d)"
            using Suc.IH [of "page + 1" hi'] by (rule scan_writesE) blast
          then show ?thesis using s q x False
            by (intro scan_writesI [where ws = "ws @ vs" and r = q']) (auto simp: apply_writes_append)
        qed
      qed
    qed
  qed
qed

lemma scan_contracts_writes: "scan_writes env (\<lambda>e d. scan_contracts e since cs p d)"
proof (induction cs arbitrary: p)
  case Nil
  show ?case by (intro scan_writesI [where ws = "[]"]) simp
next
  case (Cons c cs)
  obtain q ws where w: "\<And>now d. scanContract (env\<lparr>ce_now := now\<rparr>) c since d = (q, apply_writes (map (Pair now) ws) d)"
    using scan_pages_writes [of env c since MAX_PAGES 0 since] unfolding scanContract_def by (rule scan_writesE) blast
  define p' where "p' = (case q of Inl e \<Rightarrow> p | Inr seen \<Rightarrow> max p seen)"
  obtain q' vs where "\<And>now d. scan_contracts (env\<lparr>ce_now := now\<rparr>) since cs p' d = (q', apply_writes (map (Pair now) vs) d)"
    using Cons.IH [of p'] by (rule scan_writesE) blast
  then show ?case using w
    by (intro scan_writesI [where ws = "ws @ vs" and r = q']) (auto simp: apply_writes_append p'_def split: sum.split)
qed

lemma scan_again:
  assumes f: "scan_writes env f" and wf: "db_wf d"
  shows "f (env\<lparr>ce_now := later\<rparr>) (snd (f (env\<lparr>ce_now := now\<rparr>) d)) = f (env\<lparr>ce_now := now\<rparr>) d"
proof -
  obtain r ws where e: "\<And>now d. f (env\<lparr>ce_now := now\<rparr>) d = (r, apply_writes (map (Pair now) ws) d)"
    using f by (rule scan_writesE) blast
  have "map snd (map (Pair later) ws) = map snd (map (Pair now) ws)" by (simp add: comp_def)
  then show ?thesis using writes_replay [OF wf] by (simp add: e)
qed

lemma scan_contracts_wf: "db_wf d \<Longrightarrow> db_wf (snd (scan_contracts env since cs p d))"
proof -
  assume wf: "db_wf d"
  obtain r ws where e: "\<And>now d. scan_contracts (env\<lparr>ce_now := now\<rparr>) since cs p d = (r, apply_writes (map (Pair now) ws) d)"
    using scan_contracts_writes [of env since cs p] by (rule scan_writesE) blast
  show ?thesis using e [of "ce_now env" d] wf by simp
qed

text \<open>One contract's page that the filter made short ends the scan of the contract.\<close>

lemma scanContract_short:
  assumes "getContractEvents env c 0 = Inr evs" "length evs < PAGE"
  shows "scanContract env c since d =
    (case scan_events env evs None since d of
       (Inl e, d1) \<Rightarrow> (Inl e, d1)
     | (Inr (lo, hi), d1) \<Rightarrow> (Inr hi, d1))"
  using assms
  by (auto simp: scanContract_def MAX_PAGES_def numeral_eq_Suc split: prod.split sum.split option.split)

lemma getContractEvents_pages: "getContractEvents (env\<lparr>ce_page := pages\<rparr>) c n =
    rbind (pages c n) (\<lambda>rs. Inr (filter (\<lambda>r. truthy_text (rv_hex r)) rs))"
  by (simp add: getContractEvents_def)

lemma dispatch_pages [simp]: "dispatch (env\<lparr>ce_page := pages\<rparr>) = dispatch env"
  by (simp add: fun_eq_iff dispatch_def split: sum.split option.split)

lemma scan_events_pages [simp]: "scan_events (env\<lparr>ce_page := pages\<rparr>) rs lo hi d = scan_events env rs lo hi d"
  by (induction rs arbitrary: lo hi d) (simp_all split: prod.split sum.split option.split)

lemma filter_shorter: "r \<in> set rs \<Longrightarrow> \<not> P r \<Longrightarrow> length (filter P rs) < length rs"
  by (simp add: length_filter_less)

lemma truncated_scan:
  assumes "ce_page env c 0 = Inr rs" "length rs = PAGE" "r \<in> set rs" "\<not> truthy_text (rv_hex r)" "pages c 0 = Inr rs"
  shows "scanContract (env\<lparr>ce_page := pages\<rparr>) c since d = scanContract env c since d"
proof -
  let ?evs = "filter (\<lambda>r. truthy_text (rv_hex r)) rs"
  have l: "length ?evs < PAGE" using filter_shorter [OF assms(3), of "\<lambda>r. truthy_text (rv_hex r)"] assms(2,4) by simp
  have "getContractEvents env c 0 = Inr ?evs" "getContractEvents (env\<lparr>ce_page := pages\<rparr>) c 0 = Inr ?evs"
    using assms(1,5) by (simp_all add: getContractEvents_def)
  then show ?thesis using scanContract_short l by simp
qed

section \<open>Properties\<close>


definition demo_decode :: "string \<Rightarrow> (string, json) result" where
  "demo_decode h =
     Inr (JObj [(''value'', JObj
       [(''event'', JObj [(''value'', JStr ''shielded'')]),
        (''fee'', JObj [(''type'', JStr ''uint''), (''value'', JStr ''5'')]),
        (''height'', JObj [(''type'', JStr ''uint''), (''value'', JStr ''7'')]),
        (''leaf-index'', JObj [(''type'', JStr ''uint''), (''value'', JStr ''0'')]),
        (''commitment'', JObj [(''type'', JStr ''(buff 32)''), (''value'', JStr h)]),
        (''new-root'', JObj [(''type'', JStr ''(buff 32)''), (''value'', JStr ''0xaa'')])])])"

definition demo_env :: "raw_event list \<Rightarrow> chain_env" where
  "demo_env rs = \<lparr>ce_stringify = (\<lambda>_. []), ce_decode = demo_decode,
     ce_page = (\<lambda>c n. Inr (if n = 0 then rs else [])), ce_tip = Inr 9, ce_now = 1, ce_pool = Inr None\<rparr>"

definition demo_event :: raw_event where
  "demo_event = \<lparr>rv_txid = ''0x01'', rv_hex = Some ''0xbb''\<rparr>"


text \<open>A page whose events are not all prints hides everything older. The scan stops at a page with fewer
  than \<open>PAGE\<close> events, counted after \<open>getContractEvents\<close> dropped what is not a print, so when the first,
  full page of a contract holds one other event, the result and the database are the same whatever the
  further pages of the contract hold.\<close>

theorem short_page_stops_scan:
  assumes "ce_page env c 0 = Inr rs" "length rs = PAGE" "r \<in> set rs" "\<not> truthy_text (rv_hex r)"
    and "pages c 0 = Inr rs"
  shows "scanContract (env\<lparr>ce_page := pages\<rparr>) c since d = scanContract env c since d"
  using assms by (rule truncated_scan)

definition demo_page :: "raw_event list" where
  "demo_page = \<lparr>rv_txid = ''0x02'', rv_hex = None\<rparr> # replicate 49 demo_event"

lemma short_page_stops_scan_witness:
  "length demo_page = PAGE \<and>
   (\<forall>older. scanContract ((demo_env demo_page)\<lparr>ce_page := (\<lambda>c n. Inr (if n = 0 then demo_page else older))\<rparr>)
      ''pool'' 0 empty_db = scanContract (demo_env demo_page) ''pool'' 0 empty_db)"
proof (intro conjI allI)
  show l: "length demo_page = PAGE" by (simp add: demo_page_def PAGE_def)
  show "scanContract ((demo_env demo_page)\<lparr>ce_page := (\<lambda>c n. Inr (if n = 0 then demo_page else older))\<rparr>)
      ''pool'' 0 empty_db = scanContract (demo_env demo_page) ''pool'' 0 empty_db" for older
    by (rule short_page_stops_scan [where rs = demo_page and r = "\<lparr>rv_txid = ''0x02'', rv_hex = None\<rparr>"])
       (use l in \<open>simp_all add: demo_env_def demo_page_def truthy_text_def\<close>)
qed

end
