(* ===== verification/ApiQueries.thy ===== *)
theory ApiQueries
  imports ApiIndexer RelayTypes
begin

text \<open>
  What the indexing API answers from its database, \<open>services/api/src/services/queries.ts\<close>, and
  the routes over it, \<open>routes/public.ts\<close> and \<open>routes/me.ts\<close>. A query is a function of the
  database; \<open>Date.now()\<close> is an argument and a time stays a number of milliseconds. SQL leaves the
  order of rows with equal sort keys open; the model keeps the order they were inserted in.
\<close>

section \<open>Limits and statuses\<close>

definition MICRO :: int where
  "MICRO = 1000000"

definition STALE_PENDING_MS :: int where
  "STALE_PENDING_MS = 45 * 60 * 1000"

definition deriveStatus :: "int \<Rightarrow> string \<Rightarrow> string option \<Rightarrow> int \<Rightarrow> string" where
  "deriveStatus now status rt createdAt =
     (if status \<noteq> ''pending'' then status
      else if \<not> truthy_text rt \<and> now - createdAt > STALE_PENDING_MS then ''failed''
      else ''pending'')"

definition clampLimit :: "json option \<Rightarrow> int \<Rightarrow> int \<Rightarrow> int" where
  "clampLimit v dflt hi =
     (case js_Number v of
        None \<Rightarrow> dflt
      | Some n \<Rightarrow> if n \<le> 0 then dflt else min \<lfloor>n\<rfloor> hi)"

definition clampOffset :: "json option \<Rightarrow> int" where
  "clampOffset v = (case js_Number v of None \<Rightarrow> 0 | Some n \<Rightarrow> if n < 0 then 0 else \<lfloor>n\<rfloor>)"

text \<open>The \<open>pagination\<close> of the routes; a query parameter is text.\<close>

definition pagination :: "string option \<Rightarrow> string option \<Rightarrow> int \<times> int" where
  "pagination limit offset =
     (clampLimit (map_option JStr limit) 50 200, clampOffset (map_option JStr offset))"

text \<open>\<open>orderBy(desc(createdAt)).limit(..).offset(..)\<close>\<close>

definition newest_first :: "('v \<Rightarrow> int) \<Rightarrow> ('k \<times> 'v) list \<Rightarrow> ('k \<times> 'v) list" where
  "newest_first created = sort_key (\<lambda>r. - created (snd r))"

definition page_of :: "int \<Rightarrow> int \<Rightarrow> 'a list \<Rightarrow> 'a list" where
  "page_of limit offset rows = take (nat limit) (drop (nat offset) rows)"

section \<open>Statistics and fees\<close>

record stats_view =
  sv_shielded :: rat
  sv_notes :: nat
  sv_operations :: nat
  sv_users :: nat
  sv_fees :: rat

definition getStats :: "db \<Rightarrow> stats_view" where
  "getStats d =
     (let row = db_stats d in
      \<lparr>sv_shielded = (case row of Some r \<Rightarrow> of_int (st_shieldedStx r) / of_int MICRO | None \<Rightarrow> 0),
       sv_notes = (case row of Some r \<Rightarrow> st_notes r | None \<Rightarrow> 0),
       sv_operations = (case row of Some r \<Rightarrow> st_operations r | None \<Rightarrow> 0),
       sv_users = (case row of Some r \<Rightarrow> st_users r | None \<Rightarrow> 0),
       sv_fees = (case db_fees d of Some f \<Rightarrow> of_int f / of_int MICRO | None \<Rightarrow> 0)\<rparr>)"

definition getFees :: "db \<Rightarrow> string \<times> rat" where
  "getFees d =
     (let micro = (case db_fees d of Some f \<Rightarrow> f | None \<Rightarrow> 0)
      in (dec_of_int micro, of_int micro / of_int MICRO))"

section \<open>Feeds\<close>

record note_view =
  nv_commitment :: string
  nv_ciphertext :: "string option"
  nv_root :: "string option"
  nv_txid :: string
  nv_type :: string
  nv_status :: string
  nv_spent :: bool
  nv_createdAt :: int

definition note_view_of :: "int \<Rightarrow> string \<times> note_row \<Rightarrow> note_view" where
  "note_view_of now kr =
     (let r = snd kr in
      \<lparr>nv_commitment = fst kr, nv_ciphertext = nr_ciphertext r, nv_root = nr_root r, nv_txid = nr_txid r,
       nv_type = nr_type r, nv_status = deriveStatus now (nr_status r) (nr_root r) (nr_createdAt r),
       nv_spent = nr_spent r, nv_createdAt = nr_createdAt r\<rparr>)"

definition getEncryptedNotes :: "int \<Rightarrow> int \<Rightarrow> int \<Rightarrow> db \<Rightarrow> note_view list" where
  "getEncryptedNotes now limit offset d =
     map (note_view_of now)
       (page_of limit offset
         (newest_first nr_createdAt (filter (\<lambda>kr. nr_ciphertext (snd kr) \<noteq> None) (db_notes d))))"

definition getAllCommitments :: "db \<Rightarrow> (string \<times> int) list" where
  "getAllCommitments d =
     map (\<lambda>kr. (fst kr, the (nr_leafIndex (snd kr))))
       (sort_key (\<lambda>kr. the (nr_leafIndex (snd kr))) (filter (\<lambda>kr. nr_leafIndex (snd kr) \<noteq> None) (db_notes d)))"

record root_view =
  rv_root :: string
  rv_aggregationId :: "string option"
  rv_height :: "int option"
  rv_tx :: "string option"
  rv_createdAt :: int

definition mapRoot :: "string \<times> root_row \<Rightarrow> root_view" where
  "mapRoot kr =
     \<lparr>rv_root = fst kr, rv_aggregationId = map_option dec_of_int (rr_aggregationId (snd kr)),
      rv_height = rr_height (snd kr), rv_tx = rr_txid (snd kr), rv_createdAt = rr_createdAt (snd kr)\<rparr>"

definition getRoots :: "int \<Rightarrow> int \<Rightarrow> db \<Rightarrow> root_view list" where
  "getRoots limit offset d = map mapRoot (page_of limit offset (newest_first rr_createdAt (db_roots d)))"

definition getLatestRoot :: "db \<Rightarrow> root_view option" where
  "getLatestRoot d =
     (case page_of 1 0 (newest_first rr_createdAt (db_roots d)) of [] \<Rightarrow> None | kr # _ \<Rightarrow> Some (mapRoot kr))"

record agg_view =
  av_aggregationId :: string
  av_domainId :: int
  av_root :: string
  av_leafCount :: int
  av_published :: bool
  av_height :: "int option"
  av_txid :: "string option"
  av_createdAt :: int

definition mapAgg :: "(int \<times> int) \<times> aggregation_row \<Rightarrow> agg_view" where
  "mapAgg kr =
     (let a = snd kr in
      \<lparr>av_aggregationId = dec_of_int (snd (fst kr)), av_domainId = fst (fst kr), av_root = gr_root a,
       av_leafCount = gr_leafCount a, av_published = gr_published a, av_height = gr_height a,
       av_txid = gr_txid a, av_createdAt = gr_createdAt a\<rparr>)"

definition getAggregations :: "int \<Rightarrow> int \<Rightarrow> db \<Rightarrow> agg_view list" where
  "getAggregations limit offset d = map mapAgg (page_of limit offset (newest_first gr_createdAt (db_aggregations d)))"

definition getAggregation :: "int \<Rightarrow> db \<Rightarrow> agg_view option" where
  "getAggregation aggregationId d =
     map_option mapAgg (find (\<lambda>kr. snd (fst kr) = aggregationId) (db_aggregations d))"

record tx_view =
  tv_txid :: string
  tv_type :: string
  tv_aggregationId :: "string option"
  tv_height :: "int option"
  tv_createdAt :: int

definition mapTx :: "string \<times> transaction_row \<Rightarrow> tx_view" where
  "mapTx kr =
     \<lparr>tv_txid = fst kr, tv_type = tx_type (snd kr), tv_aggregationId = map_option dec_of_int (tx_aggregationId (snd kr)),
      tv_height = tx_height (snd kr), tv_createdAt = tx_createdAt (snd kr)\<rparr>"

definition getTransactions :: "int \<Rightarrow> int \<Rightarrow> string option \<Rightarrow> db \<Rightarrow> tx_view list" where
  "getTransactions limit offset ty d =
     map mapTx (page_of limit offset (newest_first tx_createdAt
       (if truthy_text ty then filter (\<lambda>kr. tx_type (snd kr) = the ty) (db_transactions d) else db_transactions d)))"

definition bare_hex :: "string \<Rightarrow> string" where
  "bare_hex s = (if js_startsWith s ''0x'' then drop 2 s else s)"

definition getTransaction :: "string \<Rightarrow> db \<Rightarrow> tx_view option" where
  "getTransaction txid d =
     (let bare = bare_hex txid
      in map_option mapTx (find (\<lambda>kr. fst kr \<in> {bare, ''0x'' @ bare}) (db_transactions d)))"

section \<open>A wallet's notes\<close>

definition getWalletNotes :: "int \<Rightarrow> string \<Rightarrow> db \<Rightarrow> note_view list" where
  "getWalletNotes now wallet d =
     map (note_view_of now) (newest_first nr_createdAt (filter (\<lambda>kr. nr_wallet (snd kr) = Some wallet) (db_notes d)))"

record history_view =
  hv_txid :: string
  hv_type :: string
  hv_commitment :: string
  hv_createdAt :: int

definition getWalletHistory :: "string \<Rightarrow> db \<Rightarrow> history_view list" where
  "getWalletHistory wallet d =
     map (\<lambda>kr. \<lparr>hv_txid = nr_txid (snd kr), hv_type = nr_type (snd kr), hv_commitment = fst kr,
                hv_createdAt = nr_createdAt (snd kr)\<rparr>)
       (newest_first nr_createdAt (filter (\<lambda>kr. nr_wallet (snd kr) = Some wallet) (db_notes d)))"

text \<open>The update of the row that is there, else a pending row.\<close>

definition registerWalletNote :: "int \<Rightarrow> string \<Rightarrow> string \<Rightarrow> string \<Rightarrow> db \<Rightarrow> bool \<times> db" where
  "registerWalletNote now wallet commitment ciphertext d =
     (case jm_get (db_notes d) commitment of
        Some r \<Rightarrow>
          (True, d\<lparr>db_notes := jm_set commitment (r\<lparr>nr_wallet := Some wallet, nr_ciphertext := Some ciphertext\<rparr>) (db_notes d)\<rparr>)
      | None \<Rightarrow>
          (False, d\<lparr>db_notes := insert_update commitment
             \<lparr>nr_ciphertext = Some ciphertext, nr_wallet = Some wallet, nr_root = Some [], nr_txid = [],
              nr_leafIndex = None, nr_type = ''shield'', nr_assetId = None, nr_status = ''pending'',
              nr_spent = False, nr_createdAt = now\<rparr>
             (\<lambda>r. r\<lparr>nr_wallet := Some wallet, nr_ciphertext := Some ciphertext\<rparr>) (db_notes d)\<rparr>))"

definition own_note :: "string \<Rightarrow> string \<Rightarrow> string \<times> note_row \<Rightarrow> bool" where
  "own_note wallet commitment kr \<longleftrightarrow>
     nr_wallet (snd kr) = Some wallet \<and> fst kr \<in> {bare_hex commitment, ''0x'' @ bare_hex commitment}"

definition markWalletNoteSpent :: "string \<Rightarrow> string \<Rightarrow> db \<Rightarrow> bool \<times> db" where
  "markWalletNoteSpent wallet commitment d =
     (list_ex (own_note wallet commitment) (db_notes d),
      d\<lparr>db_notes := map (\<lambda>kr. if own_note wallet commitment kr then (fst kr, (snd kr)\<lparr>nr_spent := True\<rparr>) else kr)
          (db_notes d)\<rparr>)"

section \<open>Routes\<close>

text \<open>A refused request is its status and error code.\<close>

type_synonym 'a http = "(nat \<times> string, 'a) result"

definition route_encrypted :: "int \<Rightarrow> string option \<Rightarrow> string option \<Rightarrow> db \<Rightarrow> note_view list \<times> int \<times> int" where
  "route_encrypted now limit offset d =
     (let (l, k) = pagination limit offset in (getEncryptedNotes now l k d, l, k))"

definition route_roots :: "string option \<Rightarrow> string option \<Rightarrow> db \<Rightarrow> root_view list \<times> int \<times> int" where
  "route_roots limit offset d = (let (l, k) = pagination limit offset in (getRoots l k d, l, k))"

definition route_latest_root :: "db \<Rightarrow> root_view http" where
  "route_latest_root d = (case getLatestRoot d of Some r \<Rightarrow> Inr r | None \<Rightarrow> Inl (404, ''not_found''))"

definition route_aggregations :: "string option \<Rightarrow> string option \<Rightarrow> db \<Rightarrow> agg_view list \<times> int \<times> int" where
  "route_aggregations limit offset d = (let (l, k) = pagination limit offset in (getAggregations l k d, l, k))"

definition route_aggregation :: "string \<Rightarrow> db \<Rightarrow> agg_view http" where
  "route_aggregation i d =
     (case js_BigInt_text i of
        Inl e \<Rightarrow> Inl (400, ''invalid_request'')
      | Inr n \<Rightarrow> (case getAggregation n d of Some a \<Rightarrow> Inr a | None \<Rightarrow> Inl (404, ''not_found'')))"

definition route_transactions ::
  "string option \<Rightarrow> string option \<Rightarrow> string option \<Rightarrow> db \<Rightarrow> tx_view list \<times> int \<times> int" where
  "route_transactions limit offset ty d =
     (let (l, k) = pagination limit offset in (getTransactions l k ty d, l, k))"

definition route_transaction :: "string \<Rightarrow> db \<Rightarrow> tx_view http" where
  "route_transaction txid d = (case getTransaction txid d of Some t \<Rightarrow> Inr t | None \<Rightarrow> Inl (404, ''not_found''))"

text \<open>The routes of an authenticated wallet.\<close>

definition registerBody :: "(string \<times> string) schema" where
  "registerBody = z_object (\<lambda>v.
     rbind (z_field v ''commitment'' (z_string isBytes32)) (\<lambda>c.
     rbind (z_field v ''ciphertext'' (z_string (\<lambda>s. 1 \<le> length s \<and> length s \<le> 8192))) (\<lambda>x. Inr (c, x))))"

definition route_register_note :: "int \<Rightarrow> string \<Rightarrow> json option \<Rightarrow> db \<Rightarrow> (nat \<times> bool) http \<times> db" where
  "route_register_note now wallet body d =
     (case registerBody body of
        Inl _ \<Rightarrow> (Inl (400, ''invalid_request''), d)
      | Inr (c, x) \<Rightarrow>
          (let (updated, d1) = registerWalletNote now wallet c x d
           in (Inr (if updated then 200 else 202, updated), d1)))"

definition spent_param :: "string \<Rightarrow> bool" where
  "spent_param s \<longleftrightarrow> (let t = bare_hex s in 1 \<le> length t \<and> length t \<le> 64 \<and> list_all is_hex t)"

definition route_mark_spent :: "string \<Rightarrow> string \<Rightarrow> db \<Rightarrow> bool http \<times> db" where
  "route_mark_spent wallet commitment d =
     (if \<not> spent_param commitment then (Inl (400, ''invalid_request''), d)
      else (let (updated, d1) = markWalletNoteSpent wallet commitment d in (Inr updated, d1)))"

fun count_types :: "history_view list \<Rightarrow> (string, nat) jsmap \<Rightarrow> (string, nat) jsmap" where
  "count_types [] m = m"
| "count_types (h # hs) m =
     count_types hs (jm_set (hv_type h) ((case jm_get m (hv_type h) of Some n \<Rightarrow> n | None \<Rightarrow> 0) + 1) m)"

definition route_operations :: "string \<Rightarrow> db \<Rightarrow> nat \<times> (string, nat) jsmap" where
  "route_operations wallet d =
     (let history = getWalletHistory wallet d in (length history, count_types history []))"

definition route_me :: "int \<Rightarrow> string \<Rightarrow> db \<Rightarrow> string \<times> nat" where
  "route_me now wallet d = (wallet, length (getWalletNotes now wallet d))"

section \<open>Pages\<close>

lemma pagination_bounds: "0 \<le> fst (pagination l k)" "fst (pagination l k) \<le> 200" "0 \<le> snd (pagination l k)"
  by (auto simp: pagination_def clampLimit_def clampOffset_def min_def split: option.split)

lemma newest_first_set [simp]: "set (newest_first f xs) = set xs"
  by (simp add: newest_first_def)

text \<open>An element among the first \<open>n\<close> of a sorted list has fewer than \<open>n\<close> elements below it.\<close>

lemma sort_key_rank:
  assumes x: "x \<in> set (take n (sort_key f xs))"
  shows "length (filter (\<lambda>y. f y < f x) xs) < n"
proof -
  let ?ys = "sort_key f xs"
  obtain i where i: "i < n" "i < length ?ys" "?ys ! i = x" using x by (auto simp: in_set_conv_nth)
  have srt: "sorted (map f ?ys)" by simp
  have sub: "{j. j < length ?ys \<and> f (?ys ! j) < f x} \<subseteq> {..<i}"
  proof
    fix j assume "j \<in> {j. j < length ?ys \<and> f (?ys ! j) < f x}"
    then have j: "j < length ?ys" "f (?ys ! j) < f (?ys ! i)" using i by auto
    show "j \<in> {..<i}"
    proof (rule ccontr)
      assume "j \<notin> {..<i}"
      then have "i \<le> j" by simp
      then have "f (?ys ! i) \<le> f (?ys ! j)" using srt j(1) i(2) by (simp add: sorted_iff_nth_mono)
      then show False using j(2) by simp
    qed
  qed
  have "length (filter (\<lambda>y. f y < f x) xs) = length (filter (\<lambda>y. f y < f x) ?ys)"
    by (simp add: filter_sort)
  also have "\<dots> = card {j. j < length ?ys \<and> f (?ys ! j) < f x}" by (simp add: length_filter_conv_card)
  also have "\<dots> \<le> i" using card_mono [OF _ sub] by simp
  finally show ?thesis using i(1) by simp
qed

lemma page_of_first: "page_of l 0 xs = take (nat l) xs"
  by (simp add: page_of_def)

lemma view_commitments [simp]: "nv_commitment ` set (map (note_view_of now) rows) = fst ` set rows"
  by (simp add: image_image note_view_of_def Let_def)

lemma no_offset: "snd (pagination l None) = 0"
  by (simp add: pagination_def clampOffset_def js_Number_def)

lemma feed_first_page:
  assumes wf: "jm_wf (db_notes d)" and r: "jm_get (db_notes d) c = Some r"
    and newer: "200 \<le> length (filter (\<lambda>kr. nr_ciphertext (snd kr) \<noteq> None \<and> nr_createdAt r < nr_createdAt (snd kr)) (db_notes d))"
  shows "c \<notin> nv_commitment ` set (fst (route_encrypted now limit None d))"
proof
  let ?feed = "filter (\<lambda>kr. nr_ciphertext (snd kr) \<noteq> None) (db_notes d)"
  let ?l = "fst (pagination limit None)"
  assume "c \<in> nv_commitment ` set (fst (route_encrypted now limit None d))"
  then have "c \<in> nv_commitment ` set (map (note_view_of now) (take (nat ?l) (newest_first nr_createdAt ?feed)))"
    by (simp add: route_encrypted_def getEncryptedNotes_def page_of_first no_offset split: prod.split_asm)
       (metis no_offset page_of_first snd_conv)
  then obtain s where s: "(c, s) \<in> set (take (nat ?l) (sort_key (\<lambda>kr. - nr_createdAt (snd kr)) ?feed))"
    unfolding view_commitments newest_first_def by auto
  then have "(c, s) \<in> set (db_notes d)" using in_set_takeD [OF s] by simp
  then have "s = r" using r wf by (simp add: jm_wf_def)
  then have "length (filter (\<lambda>y. nr_createdAt r < nr_createdAt (snd y)) ?feed) < nat ?l"
    using sort_key_rank [OF s] by simp
  then show False using newer pagination_bounds(2) [of limit None] by (simp add: conj_commute)
qed

section \<open>Ownership\<close>

lemma wallet_notes_commitments:
  "nv_commitment ` set (getWalletNotes now w d) = fst ` {kr \<in> set (db_notes d). nr_wallet (snd kr) = Some w}"
  unfolding getWalletNotes_def view_commitments newest_first_set by simp

lemma register_known:
  assumes "jm_get (db_notes d) c = Some r"
  shows "registerWalletNote now w c x d =
    (True, d\<lparr>db_notes := jm_set c (r\<lparr>nr_wallet := Some w, nr_ciphertext := Some x\<rparr>) (db_notes d)\<rparr>)"
  using assms by (simp add: registerWalletNote_def)

lemma wallet_notes_iff:
  "jm_wf (db_notes d) \<Longrightarrow>
   c \<in> nv_commitment ` set (getWalletNotes now w d) \<longleftrightarrow>
     (\<exists>r. jm_get (db_notes d) c = Some r \<and> nr_wallet r = Some w)"
  unfolding wallet_notes_commitments by (force simp: jm_wf_def)

lemma jm_get_map_rows:
  "jm_get (map (\<lambda>kr. if P kr then (fst kr, f (snd kr)) else kr) t) k =
     map_option (\<lambda>v. if P (k, v) then f v else v) (jm_get t k)"
  by (induction t) auto

section \<open>The latest root\<close>

text \<open>Events indexed one after the other, each with the time of its writes.\<close>

definition index_events :: "(int \<times> decoded_event \<times> string) list \<Rightarrow> db \<Rightarrow> db" where
  "index_events evs d = foldl (\<lambda>d (now, ev, txid). dispatch_decoded now ev txid d) d evs"

definition event_root :: "decoded_event \<Rightarrow> string" where
  "event_root ev = the (asHex (field_at ev ''new-root''))"

definition root_event :: "decoded_event \<Rightarrow> bool" where
  "root_event ev \<longleftrightarrow> truthy_text (asHex (field_at ev ''new-root'')) \<and> de_event ev \<noteq> ''aggregation-posted''"

definition event_root_row :: "int \<Rightarrow> decoded_event \<Rightarrow> string \<Rightarrow> root_row" where
  "event_root_row now ev t =
     \<lparr>rr_aggregationId = None, rr_height = asInt (field_at ev ''height''), rr_txid = Some t, rr_createdAt = now\<rparr>"

lemma upserts_keep_roots [simp]:
  "db_roots (insertNote now v d) = db_roots d"
  "db_roots (upsertCommitmentLeaf now c t leaf d) = db_roots d"
  "db_roots (snd (recordTransaction now x d)) = db_roots d"
  by (simp_all add: insertNote_def upsertCommitmentLeaf_def recordTransaction_def split: option.split)

lemma record_op_roots [simp]: "db_roots (record_op now ev t ty fee a d) = db_roots d"
  by (simp add: record_op_def)

lemma note_only_roots [simp]: "db_roots (note_only now ev t ck lk ty d) = db_roots d"
  by (simp add: note_only_def Let_def)

lemma upsertRoot_known: "jm_get (db_roots d) rt \<noteq> None \<Longrightarrow> upsertRoot now rt h t a d = d"
  by (auto simp: upsertRoot_def)

lemma root_and_note_roots:
  "jm_get (db_roots d) (event_root ev) \<noteq> None \<Longrightarrow> db_roots (root_and_note now ev t ck lk ty a d) = db_roots d"
  by (simp add: root_and_note_def Let_def upsertRoot_known event_root_def)

lemma handleRoot_roots:
  "root_event ev \<Longrightarrow>
   db_roots (handleRootFromEvent now ev t d) = insert_ignore (event_root ev) (event_root_row now ev t) (db_roots d)"
  by (simp add: handleRootFromEvent_def root_event_def event_root_def event_root_row_def upsertRoot_def Let_def)

lemma handleRoot_known:
  "jm_get (db_roots d) (event_root ev) \<noteq> None \<Longrightarrow> handleRootFromEvent now ev t d = d"
  by (simp add: handleRootFromEvent_def upsertRoot_known event_root_def Let_def)

lemma handleNoteEvent_roots:
  assumes "jm_get (db_roots d) (event_root ev) \<noteq> None"
  shows "db_roots (snd (handleNoteEvent now ev t d)) = db_roots d"
  by (simp add: handleNoteEvent_def Let_def root_and_note_roots [OF assms] handleRoot_known [OF assms])

lemma handleCommitmentEvent_roots: "db_roots (snd (handleCommitmentEvent now ev t d)) = db_roots d"
  by (simp add: handleCommitmentEvent_def Let_def)

lemma handleAggregationEvent_other:
  "de_event ev \<noteq> ''aggregation-posted'' \<Longrightarrow> snd (handleAggregationEvent now ev t d) = d"
  by (simp add: handleAggregationEvent_def)

lemma dispatch_roots:
  assumes "root_event ev"
  shows "db_roots (dispatch_decoded now ev t d) = insert_ignore (event_root ev) (event_root_row now ev t) (db_roots d)"
proof -
  let ?d1 = "handleRootFromEvent now ev t d"
  have k: "jm_get (db_roots ?d1) (event_root ev) \<noteq> None"
    by (auto simp: handleRoot_roots [OF assms] insert_ignore_get)
  obtain b d2 where n: "handleNoteEvent now ev t ?d1 = (b, d2)" by fastforce
  obtain b' d3 where c: "handleCommitmentEvent now ev t d2 = (b', d3)" by fastforce
  have "db_roots d2 = db_roots ?d1" using handleNoteEvent_roots [OF k, of now t] n by simp
  moreover have "db_roots d3 = db_roots d2" using handleCommitmentEvent_roots [of now ev t d2] c by simp
  moreover have "snd (handleAggregationEvent now ev t d3) = d3"
    using assms by (intro handleAggregationEvent_other) (simp add: root_event_def)
  ultimately show ?thesis
    using n c by (simp add: dispatch_decoded_def Let_def handleRoot_roots [OF assms])
qed

lemma index_roots:
  assumes "\<forall>(now, ev, t) \<in> set evs. root_event ev"
    "distinct (map (\<lambda>(now, ev, t). event_root ev) evs)"
    "\<forall>(now, ev, t) \<in> set evs. jm_get (db_roots d) (event_root ev) = None"
  shows "db_roots (index_events evs d) =
    db_roots d @ map (\<lambda>(now, ev, t). (event_root ev, event_root_row now ev t)) evs"
  using assms
proof (induction evs arbitrary: d)
  case Nil
  show ?case by (simp add: index_events_def)
next
  case (Cons e evs)
  obtain now ev t where e: "e = (now, ev, t)" by (cases e)
  let ?d = "dispatch_decoded now ev t d"
  have r: "root_event ev" and new: "jm_get (db_roots d) (event_root ev) = None"
    using Cons.prems e by auto
  have d: "db_roots ?d = db_roots d @ [(event_root ev, event_root_row now ev t)]"
    using jm_set_new [OF new [unfolded get_None_keys]]
    by (simp only: dispatch_roots [OF r] insert_ignore_def new option.case)
  have "\<forall>(now, ev, t) \<in> set evs. jm_get (db_roots ?d) (event_root ev) = None"
    using Cons.prems(2,3) e by (force simp: d map_add_def)
  then have "db_roots (index_events evs ?d) =
      db_roots ?d @ map (\<lambda>(now, ev, t). (event_root ev, event_root_row now ev t)) evs"
    using Cons.prems by (intro Cons.IH) auto
  then show ?case by (simp add: e d index_events_def)
qed

text \<open>The row the query returns is created last.\<close>

lemma sort_key_hd:
  assumes "x \<in> set xs" "\<forall>y \<in> set xs. y \<noteq> x \<longrightarrow> f x < f y"
  shows "hd (sort_key f xs) = x"
proof -
  have ne: "sort_key f xs \<noteq> []" using assms(1) by (metis empty_iff empty_set set_sort)
  have "hd (sort_key f xs) \<in> set xs" using ne hd_in_set by fastforce
  moreover have "f (hd (sort_key f xs)) \<le> f x"
  proof -
    obtain y ys where s: "sort_key f xs = y # ys" using ne by (cases "sort_key f xs") auto
    then have "sorted (map f (y # ys))" by (metis sorted_sort_key)
    moreover have "x \<in> set (y # ys)" using assms(1) s by (metis set_sort)
    ultimately show ?thesis using s by auto
  qed
  ultimately show ?thesis using assms(2) by force
qed

lemma getLatestRoot_newest:
  assumes "kr \<in> set (db_roots d)" "\<forall>y \<in> set (db_roots d). y \<noteq> kr \<longrightarrow> rr_createdAt (snd y) < rr_createdAt (snd kr)"
  shows "getLatestRoot d = Some (mapRoot kr)"
proof -
  let ?s = "newest_first rr_createdAt (db_roots d)"
  have "hd ?s = kr" unfolding newest_first_def using assms by (intro sort_key_hd) auto
  moreover have "?s \<noteq> []" using assms(1) by (metis empty_iff empty_set newest_first_set)
  ultimately show ?thesis by (cases ?s) (simp_all add: getLatestRoot_def page_of_def)
qed

lemma index_latest_root:
  assumes ev: "\<forall>(now, ev, t) \<in> set (evs @ [(now, ev, t)]). root_event ev"
    and ds: "distinct (map (\<lambda>(now, ev, t). event_root ev) (evs @ [(now, ev, t)]))"
    and new: "\<forall>(now, ev, t) \<in> set (evs @ [(now, ev, t)]). jm_get (db_roots d) (event_root ev) = None"
    and old: "\<forall>kr \<in> set (db_roots d). rr_createdAt (snd kr) < now"
    and times: "\<forall>e \<in> set evs. fst e < now"
  shows "getLatestRoot (index_events (evs @ [(now, ev, t)]) d) = Some (mapRoot (event_root ev, event_root_row now ev t))"
proof (rule getLatestRoot_newest)
  note r = index_roots [OF ev ds new]
  show "(event_root ev, event_root_row now ev t) \<in> set (db_roots (index_events (evs @ [(now, ev, t)]) d))"
    by (simp add: r)
  show "\<forall>y \<in> set (db_roots (index_events (evs @ [(now, ev, t)]) d)).
     y \<noteq> (event_root ev, event_root_row now ev t) \<longrightarrow>
     rr_createdAt (snd y) < rr_createdAt (snd (event_root ev, event_root_row now ev t))"
    using old times by (auto simp: r event_root_row_def)
qed

section \<open>Properties\<close>

text \<open>The feed of encrypted notes never gives more than 200 notes, whatever limit is asked for, and
  its first page is all a client that asks once gets: a note with 200 newer notes in the feed is not among
  the answers, although it is the client's own. The SDK asks once, for 1000 notes.\<close>

theorem feed_hides_old_notes:
  assumes "jm_wf (db_notes d)" "jm_get (db_notes d) c = Some r"
    and "200 \<le> length (filter (\<lambda>kr. nr_ciphertext (snd kr) \<noteq> None \<and> nr_createdAt r < nr_createdAt (snd kr)) (db_notes d))"
  shows "c \<notin> nv_commitment ` set (fst (route_encrypted now limit None d))"
  by (rule feed_first_page [OF assms])

definition demo_note :: "int \<Rightarrow> note_row" where
  "demo_note now =
     \<lparr>nr_ciphertext = Some ''aa'', nr_wallet = Some ''SP1'', nr_root = Some ''0x01'', nr_txid = ''0x02'', nr_leafIndex = Some now,
      nr_type = ''shield'', nr_assetId = None, nr_status = ''confirmed'', nr_spent = False, nr_createdAt = now\<rparr>"

definition demo_feed :: db where
  "demo_feed = empty_db\<lparr>db_notes := map (\<lambda>i. (dec_of_nat i, demo_note (int i))) [0..<201]\<rparr>"

lemma feed_hides_old_notes_witness:
  "''0'' \<notin> nv_commitment ` set (fst (route_encrypted 300 (Some ''1000'') None demo_feed))"
proof (rule feed_hides_old_notes [where r = "demo_note 0"])
  show "jm_wf (db_notes demo_feed)"
    by (simp add: demo_feed_def jm_wf_def comp_def distinct_map inj_on_def)
  have "[0..<201] = 0 # [1..<201 :: nat]" by (simp add: upt_conv_Cons)
  moreover have "dec_of_nat 0 = ''0''" by code_simp
  ultimately show "jm_get (db_notes demo_feed) ''0'' = Some (demo_note 0)" by (simp add: demo_feed_def)
  have "filter (\<lambda>kr. nr_ciphertext (snd kr) \<noteq> None \<and> nr_createdAt (demo_note 0) < nr_createdAt (snd kr)) (db_notes demo_feed) =
      map (\<lambda>i. (dec_of_nat i, demo_note (int i))) (filter (\<lambda>i. 0 < i) [0..<201])"
    by (simp add: demo_feed_def demo_note_def filter_map comp_def)
  also have "filter (\<lambda>i. 0 < i) [0..<201 :: nat] = [1..<201]"
  proof -
    have "[0..<201] = 0 # [1..<201 :: nat]" by (simp add: upt_conv_Cons)
    moreover have "filter (\<lambda>i. 0 < i) [1..<201 :: nat] = [1..<201]" by (simp add: filter_id_conv)
    ultimately show ?thesis by simp
  qed
  finally have f: "filter (\<lambda>kr. nr_ciphertext (snd kr) \<noteq> None \<and> nr_createdAt (demo_note 0) < nr_createdAt (snd kr))
      (db_notes demo_feed) = map (\<lambda>i. (dec_of_nat i, demo_note (int i))) [1..<201]" .
  show "200 \<le> length (filter (\<lambda>kr. nr_ciphertext (snd kr) \<noteq> None \<and> nr_createdAt (demo_note 0) < nr_createdAt (snd kr))
      (db_notes demo_feed))" unfolding f by simp
qed

text \<open>C25: Any authenticated wallet takes over any note that is known: registering a ciphertext for another
  wallet's commitment is answered with success, replaces the owner's ciphertext and the owner, and the note
  leaves the lists of all other wallets.\<close>

theorem wallet_note_takeover:
  assumes "jm_wf (db_notes d)" "jm_get (db_notes d) c = Some r" "registerBody body = Inr (c, x)" "w \<noteq> thief"
  shows "\<exists>d1. route_register_note now thief body d = (Inr (200, True), d1)
    \<and> jm_get (db_notes d1) c = Some (r\<lparr>nr_wallet := Some thief, nr_ciphertext := Some x\<rparr>)
    \<and> c \<notin> nv_commitment ` set (getWalletNotes now w d1)"
proof -
  let ?d1 = "d\<lparr>db_notes := jm_set c (r\<lparr>nr_wallet := Some thief, nr_ciphertext := Some x\<rparr>) (db_notes d)\<rparr>"
  have "route_register_note now thief body d = (Inr (200, True), ?d1)"
    using assms by (simp add: route_register_note_def register_known)
  moreover have "c \<notin> nv_commitment ` set (getWalletNotes now w ?d1)"
    using assms by (subst wallet_notes_iff) simp_all
  ultimately show ?thesis by auto
qed

definition demo_commitment :: string where
  "demo_commitment = ''0x'' @ replicate 64 (CHR ''a'')"

lemma wallet_note_takeover_witness:
  "(let d = empty_db\<lparr>db_notes := [(demo_commitment, demo_note 1)]\<rparr>;
        body = Some (JObj [(''commitment'', JStr demo_commitment), (''ciphertext'', JStr ''bb'')])
    in demo_commitment \<in> nv_commitment ` set (getWalletNotes 5 ''SP1'' d)
     \<and> demo_commitment \<notin> nv_commitment ` set (getWalletNotes 5 ''SP1'' (snd (route_register_note 5 ''SP2'' body d))))"
proof -
  let ?d = "empty_db\<lparr>db_notes := [(demo_commitment, demo_note 1)]\<rparr>"
  let ?body = "Some (JObj [(''commitment'', JStr demo_commitment), (''ciphertext'', JStr ''bb'')])"
  have h: "is_hex (CHR ''a'')" by code_simp
  have b: "registerBody ?body = Inr (demo_commitment, ''bb'')"
    by (simp add: registerBody_def schema_simps demo_commitment_def isBytes32_def hex_of_length_def js_startsWith_def
        list_all_iff h)
  have wf: "jm_wf (db_notes ?d)" by (simp add: jm_wf_def)
  have "demo_commitment \<in> nv_commitment ` set (getWalletNotes 5 ''SP1'' ?d)"
    by (subst wallet_notes_iff) (simp_all add: jm_wf_def demo_note_def)
  moreover have "demo_commitment \<notin> nv_commitment ` set (getWalletNotes 5 ''SP1'' (snd (route_register_note 5 ''SP2'' ?body ?d)))"
    using wallet_note_takeover [OF wf _ b, where r = "demo_note 1" and w = "''SP1''" and thief = "''SP2''" and now = 5] by auto
  ultimately show ?thesis by (simp add: Let_def)
qed

text \<open>Events come newest first and every row is stamped when it is written, so after indexing a batch of
  events with new roots, \<open>GET /roots/latest\<close> answers the oldest root of the batch: the one of the event that
  was indexed last.\<close>

theorem latest_root_is_oldest:
  assumes "\<forall>(now, ev, t) \<in> set (evs @ [(now, ev, t)]). root_event ev"
    and "distinct (map (\<lambda>(now, ev, t). event_root ev) (evs @ [(now, ev, t)]))"
    and "\<forall>(now, ev, t) \<in> set (evs @ [(now, ev, t)]). jm_get (db_roots d) (event_root ev) = None"
    and "\<forall>kr \<in> set (db_roots d). rr_createdAt (snd kr) < now"
    and "\<forall>e \<in> set evs. fst e < now"
  shows "route_latest_root (index_events (evs @ [(now, ev, t)]) d) =
    Inr \<lparr>rv_root = event_root ev, rv_aggregationId = None, rv_height = asInt (field_at ev ''height''),
         rv_tx = Some t, rv_createdAt = now\<rparr>"
  using index_latest_root [OF assms] by (simp add: route_latest_root_def mapRoot_def event_root_row_def)

definition demo_root_event :: "string \<Rightarrow> int \<Rightarrow> decoded_event" where
  "demo_root_event rt h = \<lparr>de_event = ''shielded'', de_fields = [(''new-root'', FText rt), (''height'', FInt h)]\<rparr>"

lemma latest_root_is_oldest_witness:
  "route_latest_root (index_events ([(1, demo_root_event ''0xnew'' 9, ''t9'')] @ [(2, demo_root_event ''0xold'' 8, ''t8'')]) empty_db) =
    Inr \<lparr>rv_root = ''0xold'', rv_aggregationId = None, rv_height = Some 8, rv_tx = Some ''t8'', rv_createdAt = 2\<rparr>"
proof -
  have s: "root_event (demo_root_event rt h) \<longleftrightarrow> rt \<noteq> []" "event_root (demo_root_event rt h) = rt" for rt h
    by (simp_all add: root_event_def event_root_def demo_root_event_def field_at_def truthy_text_def)
  have h: "asInt (field_at (demo_root_event rt h) ''height'') = Some h" for rt h
    by (simp add: demo_root_event_def field_at_def)
  show ?thesis
    using latest_root_is_oldest [of "[(1, demo_root_event ''0xnew'' 9, ''t9'')]" 2 "demo_root_event ''0xold'' 8" "''t8''" empty_db]
    by (simp add: s h empty_db_def)
qed

end
