(* ===== verification/ApiAuth.thy ===== *)
theory ApiAuth
  imports ApiStore RelayTypes
begin

text \<open>
  Authentication of the indexing API, \<open>services/api/src/auth\<close>: the message a wallet signs
  (\<open>message.ts\<close>), the check of a signature (\<open>verify.ts\<close>), the guard of the protected routes
  (\<open>plugin.ts\<close>) and the three routes (\<open>routes.ts\<close>). The address of a public key and the
  verification of a signature belong to packages and are parameters (\<open>None\<close> is a throw), as are
  the random nonces and identifiers and the clock. A request with a token brings what the token
  says, or nothing when it does not verify.

  \<open>/auth/verify\<close> reads the nonce, waits, and then consumes it: it is the composition of a check
  and a commit, and a commit can come after another request's.
\<close>

section \<open>The message\<close>

definition NL :: string where
  "NL = [CHR 0x0A]"

fun join_nl :: "string list \<Rightarrow> string" where
  "join_nl [] = []"
| "join_nl [s] = s"
| "join_nl (s # t # ts) = s @ NL @ join_nl (t # ts)"

definition buildAuthMessage :: "string \<Rightarrow> string \<Rightarrow> string \<Rightarrow> string" where
  "buildAuthMessage wallet nonce dateISO =
     join_nl [''Sign this message to authenticate with Stacks Shield.'', [], ''Wallet:'', wallet, [], ''Nonce:'', nonce,
              [], ''Timestamp:'', dateISO]"

definition nonce_char :: "char \<Rightarrow> bool" where
  "nonce_char c \<longleftrightarrow> is_dec c \<or> (97 \<le> (of_char c :: nat) \<and> (of_char c :: nat) \<le> 102)"

text \<open>The first match of \<open>/Nonce:\n([0-9a-f]{64})/\<close>.\<close>

definition nonce_here :: "string \<Rightarrow> bool" where
  "nonce_here s \<longleftrightarrow> prefix (''Nonce:'' @ NL) s \<and> 71 \<le> length s \<and> list_all nonce_char (take 64 (drop 7 s))"

fun extractNonce :: "string \<Rightarrow> string option" where
  "extractNonce [] = None"
| "extractNonce (c # cs) = (if nonce_here (c # cs) then Some (take 64 (drop 7 (c # cs))) else extractNonce cs)"

text \<open>\<open>walletRe\<close>: \<open>/^S[TP][0-9A-Z]{38,40}$/\<close>\<close>

definition walletRe :: "string \<Rightarrow> bool" where
  "walletRe s =
     (case s of
        a # b # cs \<Rightarrow> a = CHR ''S'' \<and> (b = CHR ''T'' \<or> b = CHR ''P'') \<and> 38 \<le> length cs \<and> length cs \<le> 40
                       \<and> list_all c32_char cs
      | _ \<Rightarrow> False)"

section \<open>Signatures\<close>

record auth_env =
  ae_address :: "string \<Rightarrow> string option"
  ae_rsv :: "string \<Rightarrow> string \<Rightarrow> string \<Rightarrow> bool option"
  ae_nonceTtlMs :: int
  ae_jwtTtlSeconds :: int

record signature_check =
  sc_message :: string
  sc_signature :: string
  sc_publicKey :: string
  sc_wallet :: string

definition verifyWalletSignature :: "auth_env \<Rightarrow> signature_check \<Rightarrow> bool" where
  "verifyWalletSignature env c =
     (case ae_address env (sc_publicKey c) of
        None \<Rightarrow> False
      | Some derived \<Rightarrow>
          if derived \<noteq> sc_wallet c then False
          else (case ae_rsv env (sc_message c) (sc_signature c) (sc_publicKey c) of None \<Rightarrow> False | Some b \<Rightarrow> b))"

section \<open>The guard\<close>

type_synonym 'a http = "(nat \<times> string, 'a) result"

type_synonym jwt_user = "string \<times> string"

definition authenticate :: "int \<Rightarrow> jwt_user option \<Rightarrow> db \<Rightarrow> string http" where
  "authenticate now user d =
     (case user of
        None \<Rightarrow> Inl (401, ''unauthorized'')
      | Some (wallet, jti) \<Rightarrow>
          (case jm_get (db_sessions d) jti of
             None \<Rightarrow> Inl (401, ''unauthorized'')
           | Some session \<Rightarrow>
               if ss_revoked session \<or> ss_expiresAt session < now then Inl (401, ''unauthorized'')
               else Inr wallet))"

section \<open>Routes\<close>

text \<open>An insert that meets its unique key throws, which the server answers with 500.\<close>

definition nonceBody :: "string schema" where
  "nonceBody = z_object (\<lambda>v. z_field v ''wallet'' (z_string walletRe))"

definition route_nonce :: "auth_env \<Rightarrow> int \<Rightarrow> string \<Rightarrow> string \<Rightarrow> json option \<Rightarrow> db \<Rightarrow> (string \<times> string) http \<times> db" where
  "route_nonce env now nonce dateISO body d =
     (case nonceBody body of
        Inl _ \<Rightarrow> (Inl (400, ''invalid_request''), d)
      | Inr wallet \<Rightarrow>
          if jm_get (db_nonces d) nonce \<noteq> None then (Inl (500, ''internal''), d)
          else (Inr (nonce, buildAuthMessage wallet nonce dateISO),
                d\<lparr>db_nonces := jm_set nonce
                    \<lparr>nn_wallet = wallet, nn_used = False, nn_expiresAt = now + ae_nonceTtlMs env\<rparr> (db_nonces d)\<rparr>))"

definition nonempty :: "string \<Rightarrow> bool" where
  "nonempty s \<longleftrightarrow> 1 \<le> length s"

definition verifyBody :: "signature_check schema" where
  "verifyBody = z_object (\<lambda>v.
     rbind (z_field v ''wallet'' (z_string walletRe)) (\<lambda>w.
     rbind (z_field v ''publicKey'' (z_string nonempty)) (\<lambda>p.
     rbind (z_field v ''signature'' (z_string nonempty)) (\<lambda>s.
     rbind (z_field v ''message'' (z_string nonempty)) (\<lambda>m.
       Inr \<lparr>sc_message = m, sc_signature = s, sc_publicKey = p, sc_wallet = w\<rparr>)))))"

text \<open>Up to the signature: the wallet and the nonce to consume, or the refusal. Nothing is written.\<close>

definition verify_check :: "auth_env \<Rightarrow> int \<Rightarrow> json option \<Rightarrow> db \<Rightarrow> (string \<times> string) http" where
  "verify_check env now body d =
     (case verifyBody body of
        Inl _ \<Rightarrow> Inl (400, ''invalid_request'')
      | Inr c \<Rightarrow>
          (case extractNonce (sc_message c) of
             None \<Rightarrow> Inl (400, ''invalid_request'')
           | Some nonce \<Rightarrow>
               (case jm_get (db_nonces d) nonce of
                  None \<Rightarrow> Inl (401, ''unauthorized'')
                | Some row \<Rightarrow>
                    if nn_wallet row \<noteq> sc_wallet c \<or> nn_used row \<or> nn_expiresAt row < now then Inl (401, ''unauthorized'')
                    else if \<not> verifyWalletSignature env c then Inl (401, ''unauthorized'')
                    else Inr (sc_wallet c, nonce))))"

definition consume_nonce :: "string \<Rightarrow> db \<Rightarrow> db" where
  "consume_nonce nonce d =
     (case jm_get (db_nonces d) nonce of
        None \<Rightarrow> d
      | Some row \<Rightarrow> d\<lparr>db_nonces := jm_set nonce (row\<lparr>nn_used := True\<rparr>) (db_nonces d)\<rparr>)"

text \<open>The nonce, the user and the session, one statement after the other; the token's \<open>jti\<close> and its expiry.\<close>

definition verify_commit :: "auth_env \<Rightarrow> int \<Rightarrow> string \<Rightarrow> string \<times> string \<Rightarrow> db \<Rightarrow> (string \<times> int) http \<times> db" where
  "verify_commit env now jti wn d =
     (let (wallet, nonce) = wn;
          d1 = consume_nonce nonce d;
          d2 = d1\<lparr>db_users := insert_update wallet now (\<lambda>_. now) (db_users d1)\<rparr>;
          expiresAt = now + ae_jwtTtlSeconds env * 1000
      in if jm_get (db_sessions d2) jti \<noteq> None then (Inl (500, ''internal''), d2)
         else (Inr (jti, expiresAt),
               d2\<lparr>db_sessions := jm_set jti
                   \<lparr>ss_wallet = wallet, ss_revoked = False, ss_expiresAt = expiresAt\<rparr> (db_sessions d2)\<rparr>))"

definition route_verify ::
  "auth_env \<Rightarrow> int \<Rightarrow> string \<Rightarrow> json option \<Rightarrow> db \<Rightarrow> (string \<times> int) http \<times> db" where
  "route_verify env now jti body d =
     (case verify_check env now body d of
        Inl e \<Rightarrow> (Inl e, d)
      | Inr wn \<Rightarrow> verify_commit env now jti wn d)"

definition revoke :: "string \<Rightarrow> db \<Rightarrow> db" where
  "revoke jti d =
     (case jm_get (db_sessions d) jti of
        None \<Rightarrow> d
      | Some s \<Rightarrow> d\<lparr>db_sessions := jm_set jti (s\<lparr>ss_revoked := True\<rparr>) (db_sessions d)\<rparr>)"

definition route_logout :: "int \<Rightarrow> jwt_user option \<Rightarrow> db \<Rightarrow> unit http \<times> db" where
  "route_logout now user d =
     (case authenticate now user d of
        Inl e \<Rightarrow> (Inl e, d)
      | Inr wallet \<Rightarrow> (Inr (), revoke (snd (the user)) d))"

section \<open>Requests as steps\<close>

text \<open>
  A pending request has passed its check and still has to commit; the pending ones are the second
  component of the state. A request that is served at once is a check and a commit in a row.
\<close>

type_synonym auth_state = "db \<times> (string \<times> string) list"

inductive auth_step :: "auth_env \<Rightarrow> auth_state \<Rightarrow> auth_state \<Rightarrow> bool" for env :: auth_env where
  nonce_step: "auth_step env (d, ps) (snd (route_nonce env now nonce dateISO body d), ps)"
| check_step: "verify_check env now body d = Inr p \<Longrightarrow> auth_step env (d, ps) (d, p # ps)"
| commit_step: "p \<in> set ps \<Longrightarrow> auth_step env (d, ps) (snd (verify_commit env now jti p d), remove1 p ps)"
| logout_step: "auth_step env (d, ps) (snd (route_logout now user d), ps)"

inductive_cases auth_stepE: "auth_step env s s'"

abbreviation auth_steps :: "auth_env \<Rightarrow> auth_state \<Rightarrow> auth_state \<Rightarrow> bool" where
  "auth_steps env \<equiv> (auth_step env)\<^sup>*\<^sup>*"

text \<open>What no step undoes: a consumed nonce and a revoked session.\<close>

definition spent_nonce :: "string \<Rightarrow> db \<Rightarrow> bool" where
  "spent_nonce nonce d \<longleftrightarrow> (\<exists>row. jm_get (db_nonces d) nonce = Some row \<and> nn_used row)"

definition dead_session :: "string \<Rightarrow> db \<Rightarrow> bool" where
  "dead_session jti d \<longleftrightarrow> (\<exists>s. jm_get (db_sessions d) jti = Some s \<and> ss_revoked s)"

lemma route_nonce_keeps [simp]:
  "db_sessions (snd (route_nonce env now nonce dateISO body d)) = db_sessions d"
  "spent_nonce n d \<Longrightarrow> spent_nonce n (snd (route_nonce env now nonce dateISO body d))"
  by (auto simp: route_nonce_def spent_nonce_def split: sum.split)

lemma consume_nonce_keeps [simp]:
  "db_sessions (consume_nonce nonce d) = db_sessions d"
  "spent_nonce n d \<Longrightarrow> spent_nonce n (consume_nonce nonce d)"
  by (auto simp: consume_nonce_def spent_nonce_def split: option.split)

lemma consume_nonce_spends: "jm_get (db_nonces d) nonce \<noteq> None \<Longrightarrow> spent_nonce nonce (consume_nonce nonce d)"
  by (auto simp: consume_nonce_def spent_nonce_def)

lemma verify_commit_nonces: "db_nonces (snd (verify_commit env now jti p d)) = db_nonces (consume_nonce (snd p) d)"
  by (simp add: verify_commit_def Let_def split: prod.split)

lemma verify_commit_spent:
  "spent_nonce n (snd (verify_commit env now jti p d)) = spent_nonce n (consume_nonce (snd p) d)"
  by (simp add: spent_nonce_def verify_commit_nonces)

lemma verify_commit_keeps [simp]:
  "spent_nonce n d \<Longrightarrow> spent_nonce n (snd (verify_commit env now jti p d))"
  "dead_session j d \<Longrightarrow> dead_session j (snd (verify_commit env now jti p d))"
proof -
  show "spent_nonce n d \<Longrightarrow> spent_nonce n (snd (verify_commit env now jti p d))"
    by (simp add: verify_commit_spent)
  show "dead_session j d \<Longrightarrow> dead_session j (snd (verify_commit env now jti p d))"
    by (auto simp: verify_commit_def dead_session_def Let_def split: prod.split)
qed

lemma route_logout_keeps [simp]:
  "spent_nonce n (snd (route_logout now user d)) = spent_nonce n d"
  "dead_session j d \<Longrightarrow> dead_session j (snd (route_logout now user d))"
  by (auto simp: route_logout_def revoke_def spent_nonce_def dead_session_def split: sum.split option.split)

lemma route_nonce_session [simp]:
  "dead_session j (snd (route_nonce env now nonce dateISO body d)) = dead_session j d"
  by (simp add: dead_session_def)

lemma auth_step_keeps:
  assumes "auth_step env s s'"
  shows "spent_nonce n (fst s) \<Longrightarrow> spent_nonce n (fst s')" "dead_session j (fst s) \<Longrightarrow> dead_session j (fst s')"
  using assms by (auto elim!: auth_stepE)

lemma auth_steps_keep:
  assumes "auth_steps env s s'"
  shows "spent_nonce n (fst s) \<Longrightarrow> spent_nonce n (fst s')" "dead_session j (fst s) \<Longrightarrow> dead_session j (fst s')"
  using assms by (induction rule: rtranclp_induct) (auto intro: auth_step_keeps)

lemma spent_nonce_refused:
  assumes "spent_nonce nonce d" "verifyBody body = Inr c" "extractNonce (sc_message c) = Some nonce"
  shows "verify_check env now body d = Inl (401, ''unauthorized'')"
  using assms by (auto simp: verify_check_def spent_nonce_def)

lemma dead_session_refused: "dead_session jti d \<Longrightarrow> authenticate now (Some (w, jti)) d = Inl (401, ''unauthorized'')"
  by (auto simp: dead_session_def authenticate_def)

section \<open>The nonce in a message\<close>

declare extractNonce.simps(2) [simp del]

lemma skip_char: "c \<noteq> CHR ''N'' \<Longrightarrow> extractNonce (c # cs) = extractNonce cs"
  by (simp add: extractNonce.simps(2) nonce_here_def)

lemma skip_N: "d \<noteq> CHR ''o'' \<Longrightarrow> extractNonce (c # d # cs) = extractNonce (d # cs)"
  by (simp add: extractNonce.simps(2) nonce_here_def)

lemma c32_not_o: "c32_char c \<Longrightarrow> c \<noteq> CHR ''o''"
  by (auto simp: c32_char_def is_dec_def is_upper_def)

lemma skip_wallet: "list_all c32_char w \<Longrightarrow> extractNonce (w @ NL @ s) = extractNonce s"
proof (induction w)
  case Nil
  show ?case by (simp add: NL_def skip_char)
next
  case (Cons c w)
  have "extractNonce (c # w @ NL @ s) = extractNonce (w @ NL @ s)"
  proof (cases w)
    case Nil
    then show ?thesis by (simp add: NL_def skip_N)
  next
    case (Cons e w')
    then have "e \<noteq> CHR ''o''" using Cons.prems c32_not_o by simp
    then show ?thesis using Cons by (simp add: skip_N)
  qed
  then show ?case using Cons by simp
qed

lemma skip_text: "list_all (\<lambda>c. c \<noteq> CHR ''N'') t \<Longrightarrow> extractNonce (t @ s) = extractNonce s"
  by (induction t) (simp_all add: skip_char)

lemma nonce_found:
  assumes "length nonce = 64" "list_all nonce_char nonce"
  shows "extractNonce (''Nonce:'' @ NL @ nonce @ s) = Some nonce"
proof -
  have d: "drop 7 (''Nonce:'' @ NL @ nonce @ s) = nonce @ s" by (simp add: NL_def)
  have "nonce_here (''Nonce:'' @ NL @ nonce @ s)"
    using assms unfolding nonce_here_def d by (simp add: NL_def)
  moreover have "extractNonce t = Some (take 64 (drop 7 t))" if "nonce_here t" for t
    using that by (cases t) (simp_all add: extractNonce.simps(2) nonce_here_def)
  ultimately have "extractNonce (''Nonce:'' @ NL @ nonce @ s) = Some (take 64 (drop 7 (''Nonce:'' @ NL @ nonce @ s)))"
    by blast
  also have "\<dots> = Some nonce" unfolding d using assms(1) by simp
  finally show ?thesis .
qed

lemma walletRe_chars: "walletRe w \<Longrightarrow> list_all c32_char w"
  by (auto simp: walletRe_def c32_char_def is_upper_def split: list.splits)

lemma message_nonce:
  assumes "walletRe w" "length nonce = 64" "list_all nonce_char nonce"
  shows "extractNonce (buildAuthMessage w nonce date) = Some nonce"
proof -
  let ?a = "''Sign this message to authenticate with Stacks Shield.'' @ NL @ NL @ ''Wallet:'' @ NL"
  let ?c = "NL @ NL @ ''Timestamp:'' @ NL @ date"
  have "buildAuthMessage w nonce date = ?a @ (w @ NL @ (NL @ ''Nonce:'' @ NL @ nonce @ ?c))"
    by (simp add: buildAuthMessage_def)
  moreover have "list_all (\<lambda>c. c \<noteq> CHR ''N'') ?a" by (simp add: NL_def)
  ultimately have "extractNonce (buildAuthMessage w nonce date) = extractNonce (NL @ ''Nonce:'' @ NL @ nonce @ ?c)"
    using walletRe_chars [OF assms(1)] by (simp only: skip_text skip_wallet)
  also have "\<dots> = extractNonce (''Nonce:'' @ NL @ nonce @ ?c)"
    by (rule skip_text) (simp add: NL_def)
  finally show ?thesis using nonce_found [OF assms(2,3)] by simp
qed

section \<open>Who can hold a session\<close>

definition signed_in :: "auth_env \<Rightarrow> string \<Rightarrow> bool" where
  "signed_in env wallet \<longleftrightarrow>
     (\<exists>c nonce. sc_wallet c = wallet \<and> verifyWalletSignature env c \<and> extractNonce (sc_message c) = Some nonce)"

definition auth_inv :: "auth_env \<Rightarrow> auth_state \<Rightarrow> bool" where
  "auth_inv env s \<longleftrightarrow>
     (\<forall>j row. jm_get (db_sessions (fst s)) j = Some row \<longrightarrow> signed_in env (ss_wallet row)) \<and>
     (\<forall>p \<in> set (snd s). signed_in env (fst p))"

lemma verify_check_signed: "verify_check env now body d = Inr p \<Longrightarrow> signed_in env (fst p)"
  by (auto simp: verify_check_def signed_in_def split: sum.splits option.splits if_splits)

lemma verify_commit_sessions:
  "jm_get (db_sessions (snd (verify_commit env now jti p d))) j = Some row \<Longrightarrow>
   jm_get (db_sessions d) j = Some row \<or> ss_wallet row = fst p"
  by (auto simp: verify_commit_def Let_def split: prod.splits if_splits)

lemma route_logout_sessions:
  "jm_get (db_sessions (snd (route_logout now user d))) j = Some row \<Longrightarrow>
   \<exists>row'. jm_get (db_sessions d) j = Some row' \<and> ss_wallet row = ss_wallet row'"
  by (auto simp: route_logout_def revoke_def split: sum.splits option.splits if_splits)

lemma auth_inv_step: "auth_step env s s' \<Longrightarrow> auth_inv env s \<Longrightarrow> auth_inv env s'"
proof (induction rule: auth_step.induct)
  case (nonce_step d ps now nonce dateISO body)
  then show ?case by (simp add: auth_inv_def)
next
  case (check_step now body d p ps)
  then show ?case using verify_check_signed by (auto simp: auth_inv_def)
next
  case (commit_step p ps d now jti)
  have "signed_in env (fst p)" using commit_step by (simp add: auth_inv_def)
  moreover have "signed_in env (fst q)" if "q \<in> set (remove1 p ps)" for q
    using that commit_step.prems notin_set_remove1 [of q ps p] by (auto simp: auth_inv_def)
  moreover have "signed_in env (ss_wallet row)"
    if "jm_get (db_sessions (snd (verify_commit env now jti p d))) j = Some row" for j row
    using verify_commit_sessions [OF that] commit_step by (auto simp: auth_inv_def)
  ultimately show ?case unfolding auth_inv_def by simp
next
  case (logout_step d ps now user)
  then show ?case using route_logout_sessions [of now user d] by (fastforce simp: auth_inv_def)
qed

lemma auth_inv_reachable: "auth_steps env s s' \<Longrightarrow> auth_inv env s \<Longrightarrow> auth_inv env s'"
  by (induction rule: rtranclp_induct) (auto intro: auth_inv_step)

lemma auth_inv_empty: "auth_inv env (empty_db, [])"
  by (simp add: auth_inv_def empty_db_def)

lemma verify_check_nonce:
  "verify_check env now body d = Inr (w, n) \<Longrightarrow>
   \<exists>c. verifyBody body = Inr c \<and> extractNonce (sc_message c) = Some n \<and> jm_get (db_nonces d) n \<noteq> None"
  by (auto simp: verify_check_def split: sum.splits option.splits if_splits)

lemma route_verify_spends:
  assumes "verify_check env now body d = Inr (w, n)"
  shows "spent_nonce n (snd (route_verify env now jti body d))"
proof -
  have "spent_nonce n (consume_nonce n d)" using verify_check_nonce [OF assms] consume_nonce_spends by blast
  then show ?thesis using assms by (simp add: route_verify_def verify_commit_spent)
qed

lemma logout_kills:
  assumes "route_logout now (Some (w, jti)) d = (Inr (), d1)"
  shows "dead_session jti d1"
  using assms by (auto simp: route_logout_def authenticate_def revoke_def dead_session_def
      split: sum.splits option.splits if_splits)

section \<open>Properties\<close>

text \<open>C26: A nonce is used once by requests that are served one after the other: after a request of
  \<open>/auth/verify\<close> passed its checks and was served, no request with the same nonce is accepted, whatever
  other requests are served, started or finished in between.\<close>

theorem nonce_single_use:
  assumes "verify_check env now body d = Inr (w, n)"
    and "auth_steps env (snd (route_verify env now jti body d), ps) (d2, qs)"
    and "verifyBody body2 = Inr c2" "extractNonce (sc_message c2) = Some n"
  shows "route_verify env later jti2 body2 d2 = (Inl (401, ''unauthorized''), d2)"
proof -
  have "spent_nonce n d2"
    using auth_steps_keep(1) [OF assms(2)] route_verify_spends [OF assms(1)] by simp
  then show ?thesis using assms(3,4) by (simp add: route_verify_def spent_nonce_refused)
qed

text \<open>Consuming a nonce is not atomic: two requests with the same signed message that are both checked
  before either of them consumes the nonce both get a session. Every check the first request passed, the
  second passes as well, and both tokens are accepted afterwards.\<close>

theorem nonce_race:
  assumes "verify_check env now body d = Inr (w, n)"
    and "jm_get (db_sessions d) j1 = None" "jm_get (db_sessions d) j2 = None" "j1 \<noteq> j2"
    and "0 \<le> ae_jwtTtlSeconds env"
  shows "\<exists>d2. auth_steps env (d, []) (d2, []) \<and>
    authenticate now (Some (w, j1)) d2 = Inr w \<and> authenticate now (Some (w, j2)) d2 = Inr w"
proof -
  let ?p = "(w, n)"
  let ?d1 = "snd (verify_commit env now j1 ?p d)"
  let ?d2 = "snd (verify_commit env now j2 ?p ?d1)"
  have 1: "auth_step env (d, []) (d, [?p])" using assms(1) by (rule check_step)
  have 2: "auth_step env (d, [?p]) (d, [?p, ?p])" using assms(1) by (rule check_step)
  have 3: "auth_step env (d, [?p, ?p]) (?d1, [?p])" using commit_step [of ?p "[?p, ?p]" env d now j1] by simp
  have 4: "auth_step env (?d1, [?p]) (?d2, [])" using commit_step [of ?p "[?p]" env ?d1 now j2] by simp
  have "auth_steps env (d, []) (?d2, [])"
  proof (rule rtranclp.rtrancl_into_rtrancl)
    have "auth_steps env (d, []) (d, [?p])" by (rule r_into_rtranclp) (rule 1)
    then have "auth_steps env (d, []) (d, [?p, ?p])" by (rule rtranclp.rtrancl_into_rtrancl) (rule 2)
    then show "auth_steps env (d, []) (?d1, [?p])" by (rule rtranclp.rtrancl_into_rtrancl) (rule 3)
  qed (rule 4)
  moreover have "authenticate now (Some (w, j1)) ?d2 = Inr w" "authenticate now (Some (w, j2)) ?d2 = Inr w"
    using assms by (simp_all add: verify_commit_def Let_def authenticate_def)
  ultimately show ?thesis by blast
qed

text \<open>A session that was logged out stays out: from the database after an accepted logout, no sequence of
  requests makes its token pass the guard again, whatever wallet the token names.\<close>

theorem logout_is_final:
  assumes "route_logout now (Some (w, jti)) d = (Inr (), d1)"
    and "auth_steps env (d1, ps) (d2, qs)"
  shows "authenticate later (Some (w', jti)) d2 = Inl (401, ''unauthorized'')"
  using auth_steps_keep(2) [OF assms(2)] logout_kills [OF assms(1)] by (simp add: dead_session_refused)


text \<open>The nonce of the message a wallet is given to sign is the nonce \<open>/auth/verify\<close> reads back from it:
  extraction inverts \<open>buildAuthMessage\<close> for every address the routes accept and every 32-byte nonce.\<close>

theorem auth_message_roundtrip:
  assumes "walletRe wallet" "length nonce = 64" "list_all nonce_char nonce"
  shows "extractNonce (buildAuthMessage wallet nonce dateISO) = Some nonce"
  by (rule message_nonce [OF assms])

text \<open>A concrete exchange: one wallet, one nonce, one signature that verifies.\<close>

definition demo_wallet :: string where
  "demo_wallet = ''SP'' @ replicate 38 (CHR ''A'')"

definition demo_nonce :: string where
  "demo_nonce = replicate 64 (CHR ''a'')"

definition demo_auth :: auth_env where
  "demo_auth = \<lparr>ae_address = (\<lambda>_. Some demo_wallet), ae_rsv = (\<lambda>_ _ _. Some True), ae_nonceTtlMs = 1000, ae_jwtTtlSeconds = 60\<rparr>"

definition demo_login :: "json option" where
  "demo_login = Some (JObj [(''wallet'', JStr demo_wallet), (''publicKey'', JStr ''02''), (''signature'', JStr ''00''),
     (''message'', JStr (buildAuthMessage demo_wallet demo_nonce ''now''))])"

definition demo_issued :: db where
  "demo_issued = empty_db\<lparr>db_nonces := [(demo_nonce, \<lparr>nn_wallet = demo_wallet, nn_used = False, nn_expiresAt = 1000\<rparr>)]\<rparr>"

lemma demo_checks:
  "verifyBody demo_login = Inr \<lparr>sc_message = buildAuthMessage demo_wallet demo_nonce ''now'', sc_signature = ''00'',
     sc_publicKey = ''02'', sc_wallet = demo_wallet\<rparr>"
  "extractNonce (buildAuthMessage demo_wallet demo_nonce ''now'') = Some demo_nonce"
  "verify_check demo_auth 5 demo_login demo_issued = Inr (demo_wallet, demo_nonce)"
  "snd (route_nonce demo_auth 0 demo_nonce ''now'' (Some (JObj [(''wallet'', JStr demo_wallet)])) empty_db) = demo_issued"
  by code_simp+

lemma nonce_single_use_witness:
  "route_verify demo_auth 6 ''j2'' demo_login (snd (route_verify demo_auth 5 ''j1'' demo_login demo_issued)) =
    (Inl (401, ''unauthorized''), snd (route_verify demo_auth 5 ''j1'' demo_login demo_issued))"
  by (rule nonce_single_use [OF demo_checks(3) rtranclp.rtrancl_refl [where a = "(x, [])" for x] demo_checks(1)])
     (simp add: demo_checks(2))

lemma nonce_race_witness:
  "\<exists>d2. auth_steps demo_auth (demo_issued, []) (d2, []) \<and>
    authenticate 5 (Some (demo_wallet, ''j1'')) d2 = Inr demo_wallet \<and>
    authenticate 5 (Some (demo_wallet, ''j2'')) d2 = Inr demo_wallet"
  by (rule nonce_race [OF demo_checks(3)]) (simp_all add: demo_issued_def empty_db_def demo_auth_def)

lemma logout_is_final_witness:
  "(let d = empty_db\<lparr>db_sessions := [(''j1'', \<lparr>ss_wallet = demo_wallet, ss_revoked = False, ss_expiresAt = 9\<rparr>)]\<rparr>
    in authenticate 5 (Some (demo_wallet, ''j1'')) d = Inr demo_wallet \<and>
       authenticate 5 (Some (demo_wallet, ''j1'')) (snd (route_logout 5 (Some (demo_wallet, ''j1'')) d)) = Inl (401, ''unauthorized''))"
proof -
  let ?d = "empty_db\<lparr>db_sessions := [(''j1'', \<lparr>ss_wallet = demo_wallet, ss_revoked = False, ss_expiresAt = 9\<rparr>)]\<rparr>"
  have l: "route_logout 5 (Some (demo_wallet, ''j1'')) ?d = (Inr (), snd (route_logout 5 (Some (demo_wallet, ''j1'')) ?d))"
    by (simp add: route_logout_def authenticate_def)
  show ?thesis
    using logout_is_final [OF l, of demo_auth "[]" _ "[]" 5 demo_wallet]
    by (simp add: Let_def authenticate_def)
qed


lemma auth_message_roundtrip_witness:
  "walletRe demo_wallet \<and> extractNonce (buildAuthMessage demo_wallet demo_nonce ''2026'') = Some demo_nonce"
proof -
  have w: "walletRe demo_wallet" "length demo_nonce = 64" "list_all nonce_char demo_nonce" by code_simp+
  then show ?thesis using auth_message_roundtrip [OF w] by simp
qed

end
