(* ===== verification/PublicInputs.thy ===== *)
theory PublicInputs
  imports Clarity MerkleSpec
begin

text \<open>
  The canonical public-input encoding of the five operations, \<open>sdk/public-inputs/index.ts\<close>,
  its SIP-10 sibling \<open>sdk/public-inputs/sip10.ts\<close> and the older tuple hashing of
  \<open>sdk/proofs/public-inputs.ts\<close>. The object each function takes is a record; \<open>keccak256\<close>,
  \<open>sha256\<close> and the serialiser of the package are fields of the parameter \<open>crypto\<close>.

  The array of field elements is evaluated left to right and the first \<open>feUint\<close>,
  \<open>fe32\<close> or \<open>fePrincipal\<close> that throws ends the call. The main facts: the hash determines
  the operation and all its fields, up to a clash of \<open>keccak256\<close>, also between the
  native and the SIP-10 encodings.
\<close>

record crypto =
  keccak256 :: "bytes \<Rightarrow> bytes"
  sha256 :: "bytes \<Rightarrow> bytes"
  serializeCV :: "clarity_value \<Rightarrow> (js_error, bytes) result"

section \<open>Field elements\<close>

definition concatAll :: "bytes list \<Rightarrow> bytes" where
  "concatAll parts = fold (\<lambda>p out. out @ p) parts []"

lemma concatAll_concat: "concatAll parts = concat parts"
proof -
  have "fold (\<lambda>p out. out @ p) parts a = a @ concat parts" for a
    by (induction parts arbitrary: a) auto
  then show ?thesis by (simp add: concatAll_def)
qed

definition fePrincipal :: "crypto \<Rightarrow> string \<Rightarrow> (js_error, bytes) result" where
  "fePrincipal C address =
     rbind (serializeCV C (CvPrincipal address)) (\<lambda>enc. Inr ((sha256 C enc)[0 := 0]))"

definition fe32 :: "bytes \<Rightarrow> (js_error, bytes) result" where
  "fe32 b = (if length b \<noteq> 32
     then Inl (JsError (''field element must be 32 bytes, got '' @ dec_of_nat (length b)))
     else Inr b)"

definition hash_fields :: "crypto \<Rightarrow> (js_error, bytes) result list \<Rightarrow> (js_error, bytes) result" where
  "hash_fields C fes = rbind (rseq fes) (\<lambda>fs. Inr (keccak256 C (concatAll fs)))"

lemma fe32_Inr [simp]:
  "fe32 b = Inr c \<longleftrightarrow> length b = 32 \<and> c = b" "Inr c = fe32 b \<longleftrightarrow> length b = 32 \<and> c = b"
  by (auto simp: fe32_def)

section \<open>The operations\<close>

record shield_inputs =
  shi_commitment :: bytes
  shi_ownerCommitment :: bytes
  shi_amount :: int
  shi_oldRoot :: bytes
  shi_newRoot :: bytes
  shi_leafIndex :: int
  shi_circuitVersion :: int

record transfer_inputs =
  tri_nullifier :: bytes
  tri_newCommitment :: bytes
  tri_newOwnerCommitment :: bytes
  tri_merkleRoot :: bytes
  tri_newRoot :: bytes
  tri_leafIndex :: int
  tri_circuitVersion :: int

record withdraw_inputs =
  wdi_nullifier :: bytes
  wdi_amount :: int
  wdi_recipient :: string
  wdi_merkleRoot :: bytes
  wdi_circuitVersion :: int

record split_inputs =
  spi_nullifier :: bytes
  spi_commitment1 :: bytes
  spi_ownerCommitment1 :: bytes
  spi_commitment2 :: bytes
  spi_ownerCommitment2 :: bytes
  spi_merkleRoot :: bytes
  spi_newRoot :: bytes
  spi_leafIndex :: int
  spi_circuitVersion :: int

record merge_inputs =
  mgi_nullifier1 :: bytes
  mgi_nullifier2 :: bytes
  mgi_commitment :: bytes
  mgi_ownerCommitment :: bytes
  mgi_merkleRoot :: bytes
  mgi_newRoot :: bytes
  mgi_leafIndex :: int
  mgi_circuitVersion :: int

definition shieldPublicInputs :: "crypto \<Rightarrow> shield_inputs \<Rightarrow> (js_error, bytes) result" where
  "shieldPublicInputs C o1 = hash_fields C
     [feUint (proof_type_id PShield), fe32 (shi_commitment o1), fe32 (shi_ownerCommitment o1),
      feUint (shi_amount o1), fe32 (shi_oldRoot o1), fe32 (shi_newRoot o1),
      feUint (shi_leafIndex o1), feUint (shi_circuitVersion o1)]"

definition transferPublicInputs :: "crypto \<Rightarrow> transfer_inputs \<Rightarrow> (js_error, bytes) result" where
  "transferPublicInputs C o1 = hash_fields C
     [feUint (proof_type_id PTransfer), fe32 (tri_nullifier o1), fe32 (tri_newCommitment o1),
      fe32 (tri_newOwnerCommitment o1), fe32 (tri_merkleRoot o1), fe32 (tri_newRoot o1),
      feUint (tri_leafIndex o1), feUint (tri_circuitVersion o1)]"

definition withdrawPublicInputs :: "crypto \<Rightarrow> withdraw_inputs \<Rightarrow> (js_error, bytes) result" where
  "withdrawPublicInputs C o1 = hash_fields C
     [feUint (proof_type_id PWithdrawal), fe32 (wdi_nullifier o1), feUint (wdi_amount o1),
      fePrincipal C (wdi_recipient o1), fe32 (wdi_merkleRoot o1), feUint (wdi_circuitVersion o1)]"

definition splitPublicInputs :: "crypto \<Rightarrow> split_inputs \<Rightarrow> (js_error, bytes) result" where
  "splitPublicInputs C o1 = hash_fields C
     [feUint (proof_type_id PSplit), fe32 (spi_nullifier o1), fe32 (spi_commitment1 o1),
      fe32 (spi_ownerCommitment1 o1), fe32 (spi_commitment2 o1), fe32 (spi_ownerCommitment2 o1),
      fe32 (spi_merkleRoot o1), fe32 (spi_newRoot o1), feUint (spi_leafIndex o1),
      feUint (spi_circuitVersion o1)]"

definition mergePublicInputs :: "crypto \<Rightarrow> merge_inputs \<Rightarrow> (js_error, bytes) result" where
  "mergePublicInputs C o1 = hash_fields C
     [feUint (proof_type_id PMerge), fe32 (mgi_nullifier1 o1), fe32 (mgi_nullifier2 o1),
      fe32 (mgi_commitment o1), fe32 (mgi_ownerCommitment o1), fe32 (mgi_merkleRoot o1),
      fe32 (mgi_newRoot o1), feUint (mgi_leafIndex o1), feUint (mgi_circuitVersion o1)]"

text \<open>\<open>publicInputVector\<close>: the same fields, the byte fields not yet checked.\<close>

definition shieldVector :: "shield_inputs \<Rightarrow> (js_error, bytes list) result" where
  "shieldVector o1 = rseq
     [feUint (proof_type_id PShield), Inr (shi_commitment o1), Inr (shi_ownerCommitment o1),
      feUint (shi_amount o1), Inr (shi_oldRoot o1), Inr (shi_newRoot o1),
      feUint (shi_leafIndex o1), feUint (shi_circuitVersion o1)]"

definition transferVector :: "transfer_inputs \<Rightarrow> (js_error, bytes list) result" where
  "transferVector o1 = rseq
     [feUint (proof_type_id PTransfer), Inr (tri_nullifier o1), Inr (tri_newCommitment o1),
      Inr (tri_newOwnerCommitment o1), Inr (tri_merkleRoot o1), Inr (tri_newRoot o1),
      feUint (tri_leafIndex o1), feUint (tri_circuitVersion o1)]"

definition withdrawVector :: "crypto \<Rightarrow> withdraw_inputs \<Rightarrow> (js_error, bytes list) result" where
  "withdrawVector C o1 = rseq
     [feUint (proof_type_id PWithdrawal), Inr (wdi_nullifier o1), feUint (wdi_amount o1),
      fePrincipal C (wdi_recipient o1), Inr (wdi_merkleRoot o1), feUint (wdi_circuitVersion o1)]"

definition splitVector :: "split_inputs \<Rightarrow> (js_error, bytes list) result" where
  "splitVector o1 = rseq
     [feUint (proof_type_id PSplit), Inr (spi_nullifier o1), Inr (spi_commitment1 o1),
      Inr (spi_ownerCommitment1 o1), Inr (spi_commitment2 o1), Inr (spi_ownerCommitment2 o1),
      Inr (spi_merkleRoot o1), Inr (spi_newRoot o1), feUint (spi_leafIndex o1),
      feUint (spi_circuitVersion o1)]"

definition mergeVector :: "merge_inputs \<Rightarrow> (js_error, bytes list) result" where
  "mergeVector o1 = rseq
     [feUint (proof_type_id PMerge), Inr (mgi_nullifier1 o1), Inr (mgi_nullifier2 o1),
      Inr (mgi_commitment o1), Inr (mgi_ownerCommitment o1), Inr (mgi_merkleRoot o1),
      Inr (mgi_newRoot o1), feUint (mgi_leafIndex o1), feUint (mgi_circuitVersion o1)]"

definition hashPublicInputVector :: "crypto \<Rightarrow> bytes list \<Rightarrow> (js_error, bytes) result" where
  "hashPublicInputVector C fes = rbind (rmap fe32 fes) (\<lambda>fs. Inr (keccak256 C (concatAll fs)))"

section \<open>The SIP-10 operations\<close>

record shield_inputs_sip10 = shield_inputs +
  shi_token :: string

record transfer_inputs_sip10 = transfer_inputs +
  tri_token :: string

record withdraw_inputs_sip10 = withdraw_inputs +
  wdi_token :: string

record split_inputs_sip10 = split_inputs +
  spi_token :: string

record merge_inputs_sip10 = merge_inputs +
  mgi_token :: string

definition assetIdOf :: "crypto \<Rightarrow> string \<Rightarrow> (js_error, bytes) result" where
  "assetIdOf C token = fePrincipal C token"

definition shieldPublicInputsSip10 :: "crypto \<Rightarrow> shield_inputs_sip10 \<Rightarrow> (js_error, bytes) result" where
  "shieldPublicInputsSip10 C o1 = hash_fields C
     [feUint (proof_type_id PShield), fe32 (shi_commitment o1), fe32 (shi_ownerCommitment o1),
      feUint (shi_amount o1), fe32 (shi_oldRoot o1), fe32 (shi_newRoot o1),
      feUint (shi_leafIndex o1), assetIdOf C (shi_token o1), feUint (shi_circuitVersion o1)]"

definition transferPublicInputsSip10 :: "crypto \<Rightarrow> transfer_inputs_sip10 \<Rightarrow> (js_error, bytes) result" where
  "transferPublicInputsSip10 C o1 = hash_fields C
     [feUint (proof_type_id PTransfer), fe32 (tri_nullifier o1), fe32 (tri_newCommitment o1),
      fe32 (tri_newOwnerCommitment o1), fe32 (tri_merkleRoot o1), fe32 (tri_newRoot o1),
      feUint (tri_leafIndex o1), assetIdOf C (tri_token o1), feUint (tri_circuitVersion o1)]"

definition withdrawPublicInputsSip10 :: "crypto \<Rightarrow> withdraw_inputs_sip10 \<Rightarrow> (js_error, bytes) result" where
  "withdrawPublicInputsSip10 C o1 = hash_fields C
     [feUint (proof_type_id PWithdrawal), fe32 (wdi_nullifier o1), feUint (wdi_amount o1),
      fePrincipal C (wdi_recipient o1), fe32 (wdi_merkleRoot o1), assetIdOf C (wdi_token o1),
      feUint (wdi_circuitVersion o1)]"

definition splitPublicInputsSip10 :: "crypto \<Rightarrow> split_inputs_sip10 \<Rightarrow> (js_error, bytes) result" where
  "splitPublicInputsSip10 C o1 = hash_fields C
     [feUint (proof_type_id PSplit), fe32 (spi_nullifier o1), fe32 (spi_commitment1 o1),
      fe32 (spi_ownerCommitment1 o1), fe32 (spi_commitment2 o1), fe32 (spi_ownerCommitment2 o1),
      fe32 (spi_merkleRoot o1), fe32 (spi_newRoot o1), feUint (spi_leafIndex o1),
      assetIdOf C (spi_token o1), feUint (spi_circuitVersion o1)]"

definition mergePublicInputsSip10 :: "crypto \<Rightarrow> merge_inputs_sip10 \<Rightarrow> (js_error, bytes) result" where
  "mergePublicInputsSip10 C o1 = hash_fields C
     [feUint (proof_type_id PMerge), fe32 (mgi_nullifier1 o1), fe32 (mgi_nullifier2 o1),
      fe32 (mgi_commitment o1), fe32 (mgi_ownerCommitment o1), fe32 (mgi_merkleRoot o1),
      fe32 (mgi_newRoot o1), feUint (mgi_leafIndex o1), assetIdOf C (mgi_token o1),
      feUint (mgi_circuitVersion o1)]"

section \<open>The hash determines the statement\<close>

text \<open>Every statement the SDK can hash, native and SIP-10.\<close>

datatype statement =
    NShield shield_inputs | NTransfer transfer_inputs | NWithdraw withdraw_inputs
  | NSplit split_inputs | NMerge merge_inputs
  | SShield shield_inputs_sip10 | STransfer transfer_inputs_sip10 | SWithdraw withdraw_inputs_sip10
  | SSplit split_inputs_sip10 | SMerge merge_inputs_sip10

fun statement_hash :: "crypto \<Rightarrow> statement \<Rightarrow> (js_error, bytes) result" where
  "statement_hash C (NShield o1) = shieldPublicInputs C o1"
| "statement_hash C (NTransfer o1) = transferPublicInputs C o1"
| "statement_hash C (NWithdraw o1) = withdrawPublicInputs C o1"
| "statement_hash C (NSplit o1) = splitPublicInputs C o1"
| "statement_hash C (NMerge o1) = mergePublicInputs C o1"
| "statement_hash C (SShield o1) = shieldPublicInputsSip10 C o1"
| "statement_hash C (STransfer o1) = transferPublicInputsSip10 C o1"
| "statement_hash C (SWithdraw o1) = withdrawPublicInputsSip10 C o1"
| "statement_hash C (SSplit o1) = splitPublicInputsSip10 C o1"
| "statement_hash C (SMerge o1) = mergePublicInputsSip10 C o1"

text \<open>
  Two statements agree when they are the same operation on the same pool kind, all their
  numbers and 32-byte values are equal, and their principals have the same field element.
\<close>

definition agree :: "crypto \<Rightarrow> statement \<Rightarrow> statement \<Rightarrow> bool" where
  "agree C s s' = (case s of
       NShield a \<Rightarrow> (case s' of NShield b \<Rightarrow> (a = b) | _ \<Rightarrow> False)
     | NTransfer a \<Rightarrow> (case s' of NTransfer b \<Rightarrow> (a = b) | _ \<Rightarrow> False)
     | NWithdraw a \<Rightarrow> (case s' of NWithdraw b \<Rightarrow> (a\<lparr>wdi_recipient := wdi_recipient b\<rparr> = b \<and> fePrincipal C (wdi_recipient a) = fePrincipal C (wdi_recipient b)) | _ \<Rightarrow> False)
     | NSplit a \<Rightarrow> (case s' of NSplit b \<Rightarrow> (a = b) | _ \<Rightarrow> False)
     | NMerge a \<Rightarrow> (case s' of NMerge b \<Rightarrow> (a = b) | _ \<Rightarrow> False)
     | SShield a \<Rightarrow> (case s' of SShield b \<Rightarrow> (a\<lparr>shi_token := shi_token b\<rparr> = b \<and> assetIdOf C (shi_token a) = assetIdOf C (shi_token b)) | _ \<Rightarrow> False)
     | STransfer a \<Rightarrow> (case s' of STransfer b \<Rightarrow> (a\<lparr>tri_token := tri_token b\<rparr> = b \<and> assetIdOf C (tri_token a) = assetIdOf C (tri_token b)) | _ \<Rightarrow> False)
     | SWithdraw a \<Rightarrow> (case s' of SWithdraw b \<Rightarrow> (a\<lparr>wdi_recipient := wdi_recipient b, wdi_token := wdi_token b\<rparr> = b \<and> fePrincipal C (wdi_recipient a) = fePrincipal C (wdi_recipient b) \<and> assetIdOf C (wdi_token a) = assetIdOf C (wdi_token b)) | _ \<Rightarrow> False)
     | SSplit a \<Rightarrow> (case s' of SSplit b \<Rightarrow> (a\<lparr>spi_token := spi_token b\<rparr> = b \<and> assetIdOf C (spi_token a) = assetIdOf C (spi_token b)) | _ \<Rightarrow> False)
     | SMerge a \<Rightarrow> (case s' of SMerge b \<Rightarrow> (a\<lparr>mgi_token := mgi_token b\<rparr> = b \<and> assetIdOf C (mgi_token a) = assetIdOf C (mgi_token b)) | _ \<Rightarrow> False))"

text \<open>The field list of a statement.\<close>

fun statement_fields :: "crypto \<Rightarrow> statement \<Rightarrow> (js_error, bytes) result list" where
  "statement_fields C (NShield o1) =
     [feUint 1, fe32 (shi_commitment o1), fe32 (shi_ownerCommitment o1),
      feUint (shi_amount o1), fe32 (shi_oldRoot o1), fe32 (shi_newRoot o1),
      feUint (shi_leafIndex o1), feUint (shi_circuitVersion o1)]"
| "statement_fields C (NTransfer o1) =
     [feUint 2, fe32 (tri_nullifier o1), fe32 (tri_newCommitment o1),
      fe32 (tri_newOwnerCommitment o1), fe32 (tri_merkleRoot o1), fe32 (tri_newRoot o1),
      feUint (tri_leafIndex o1), feUint (tri_circuitVersion o1)]"
| "statement_fields C (NWithdraw o1) =
     [feUint 3, fe32 (wdi_nullifier o1), feUint (wdi_amount o1),
      fePrincipal C (wdi_recipient o1), fe32 (wdi_merkleRoot o1), feUint (wdi_circuitVersion o1)]"
| "statement_fields C (NSplit o1) =
     [feUint 4, fe32 (spi_nullifier o1), fe32 (spi_commitment1 o1),
      fe32 (spi_ownerCommitment1 o1), fe32 (spi_commitment2 o1), fe32 (spi_ownerCommitment2 o1),
      fe32 (spi_merkleRoot o1), fe32 (spi_newRoot o1), feUint (spi_leafIndex o1),
      feUint (spi_circuitVersion o1)]"
| "statement_fields C (NMerge o1) =
     [feUint 5, fe32 (mgi_nullifier1 o1), fe32 (mgi_nullifier2 o1),
      fe32 (mgi_commitment o1), fe32 (mgi_ownerCommitment o1), fe32 (mgi_merkleRoot o1),
      fe32 (mgi_newRoot o1), feUint (mgi_leafIndex o1), feUint (mgi_circuitVersion o1)]"
| "statement_fields C (SShield o1) =
     [feUint 1, fe32 (shi_commitment o1), fe32 (shi_ownerCommitment o1),
      feUint (shi_amount o1), fe32 (shi_oldRoot o1), fe32 (shi_newRoot o1),
      feUint (shi_leafIndex o1), assetIdOf C (shi_token o1), feUint (shi_circuitVersion o1)]"
| "statement_fields C (STransfer o1) =
     [feUint 2, fe32 (tri_nullifier o1), fe32 (tri_newCommitment o1),
      fe32 (tri_newOwnerCommitment o1), fe32 (tri_merkleRoot o1), fe32 (tri_newRoot o1),
      feUint (tri_leafIndex o1), assetIdOf C (tri_token o1), feUint (tri_circuitVersion o1)]"
| "statement_fields C (SWithdraw o1) =
     [feUint 3, fe32 (wdi_nullifier o1), feUint (wdi_amount o1),
      fePrincipal C (wdi_recipient o1), fe32 (wdi_merkleRoot o1), assetIdOf C (wdi_token o1),
      feUint (wdi_circuitVersion o1)]"
| "statement_fields C (SSplit o1) =
     [feUint 4, fe32 (spi_nullifier o1), fe32 (spi_commitment1 o1),
      fe32 (spi_ownerCommitment1 o1), fe32 (spi_commitment2 o1), fe32 (spi_ownerCommitment2 o1),
      fe32 (spi_merkleRoot o1), fe32 (spi_newRoot o1), feUint (spi_leafIndex o1),
      assetIdOf C (spi_token o1), feUint (spi_circuitVersion o1)]"
| "statement_fields C (SMerge o1) =
     [feUint 5, fe32 (mgi_nullifier1 o1), fe32 (mgi_nullifier2 o1),
      fe32 (mgi_commitment o1), fe32 (mgi_ownerCommitment o1), fe32 (mgi_merkleRoot o1),
      fe32 (mgi_newRoot o1), feUint (mgi_leafIndex o1), assetIdOf C (mgi_token o1),
      feUint (mgi_circuitVersion o1)]"

lemmas public_input_defs =
  shieldPublicInputs_def transferPublicInputs_def withdrawPublicInputs_def splitPublicInputs_def
  mergePublicInputs_def shieldPublicInputsSip10_def transferPublicInputsSip10_def
  withdrawPublicInputsSip10_def splitPublicInputsSip10_def mergePublicInputsSip10_def

lemma statement_hash_fields: "statement_hash C s = hash_fields C (statement_fields C s)"
  by (cases s) (simp_all only: statement_hash.simps statement_fields.simps public_input_defs proof_type_id.simps)

text \<open>What the package \<open>@noble/hashes\<close> documents: a digest has 32 bytes.\<close>

definition digest32 :: "crypto \<Rightarrow> bool" where
  "digest32 C \<longleftrightarrow> (\<forall>b. length (sha256 C b) = 32)"

lemma fePrincipal_length: "digest32 C \<Longrightarrow> fePrincipal C a = Inr b \<Longrightarrow> length b = 32"
  by (auto simp: fePrincipal_def digest32_def)

lemma rseq_Inr: "rseq rs = Inr xs \<longleftrightarrow> rs = map Inr xs"
  by (induction rs arbitrary: xs) (auto simp: Cons_eq_map_conv)

lemma hash_fields_Inr: "hash_fields C rs = Inr h \<longleftrightarrow> (\<exists>fs. rs = map Inr fs \<and> h = keccak256 C (concat fs))"
  by (auto simp: hash_fields_def rseq_Inr concatAll_concat)

lemma statement_fields_length:
  assumes "digest32 C" "statement_fields C s = map Inr fs"
  shows "\<forall>f \<in> set fs. length f = 32"
proof -
  have "r = Inr f \<Longrightarrow> length f = 32" if "r \<in> set (statement_fields C s)" for r f
    using that assms(1) by (cases s) (auto simp: feUint_length fePrincipal_length assetIdOf_def)
  then show ?thesis using assms(2) by (metis image_eqI list.set_map)
qed

lemma concat_chunks_inj:
  assumes "\<forall>x \<in> set xs. length x = k" "\<forall>y \<in> set ys. length y = k" "0 < k" "concat xs = concat ys"
  shows "xs = ys"
  using assms
proof (induction xs arbitrary: ys)
  case Nil
  then show ?case by (cases ys) auto
next
  case (Cons x xs)
  have x: "length x = k" "0 < k" using Cons.prems by simp_all
  then obtain y zs where ys: "ys = y # zs" using Cons.prems(4) by (cases ys) auto
  then have "x @ concat xs = y @ concat zs" "length x = length y" using Cons.prems(2,4) x by simp_all
  then have "x = y" "concat xs = concat zs" by simp_all
  moreover have "xs = zs" using Cons.IH [of zs] Cons.prems ys \<open>concat xs = concat zs\<close> by simp
  ultimately show ?case using ys by simp
qed

text \<open>Equal field lists come from statements that agree: the operation number and the length tell them apart.\<close>

fun kind :: "statement \<Rightarrow> int \<times> nat" where
"kind (NShield _) = (1, 8)"
| "kind (NTransfer _) = (2, 8)"
| "kind (NWithdraw _) = (3, 6)"
| "kind (NSplit _) = (4, 10)"
| "kind (NMerge _) = (5, 9)"
| "kind (SShield _) = (1, 9)"
| "kind (STransfer _) = (2, 9)"
| "kind (SWithdraw _) = (3, 7)"
| "kind (SSplit _) = (4, 11)"
| "kind (SMerge _) = (5, 10)"

lemma statement_fields_kind:
  assumes "statement_fields C s = map Inr fs"
  shows "length fs = snd (kind s)" "feUint (fst (kind s)) = Inr (hd fs)"
proof -
  have "length (statement_fields C s) = snd (kind s)" by (cases s) simp_all
  with assms show "length fs = snd (kind s)" by simp
  have "hd (statement_fields C s) = feUint (fst (kind s)) \<and> statement_fields C s \<noteq> []" by (cases s) simp_all
  with assms show "feUint (fst (kind s)) = Inr (hd fs)" by (cases fs) simp_all
qed

lemma agree_NShield:
  "statement_fields C (NShield a0) = map Inr fs \<Longrightarrow> statement_fields C (NShield b0) = map Inr fs \<Longrightarrow> agree C (NShield a0) (NShield b0)"
  by (cases a0; cases b0) (auto simp: agree_def Cons_eq_map_conv feUint_Inr assetIdOf_def)

lemma agree_NTransfer:
  "statement_fields C (NTransfer a1) = map Inr fs \<Longrightarrow> statement_fields C (NTransfer b1) = map Inr fs \<Longrightarrow> agree C (NTransfer a1) (NTransfer b1)"
  by (cases a1; cases b1) (auto simp: agree_def Cons_eq_map_conv feUint_Inr assetIdOf_def)

lemma agree_NWithdraw:
  "statement_fields C (NWithdraw a2) = map Inr fs \<Longrightarrow> statement_fields C (NWithdraw b2) = map Inr fs \<Longrightarrow> agree C (NWithdraw a2) (NWithdraw b2)"
  by (cases a2; cases b2) (auto simp: agree_def Cons_eq_map_conv feUint_Inr assetIdOf_def)

lemma agree_NSplit:
  "statement_fields C (NSplit a3) = map Inr fs \<Longrightarrow> statement_fields C (NSplit b3) = map Inr fs \<Longrightarrow> agree C (NSplit a3) (NSplit b3)"
  by (cases a3; cases b3) (auto simp: agree_def Cons_eq_map_conv feUint_Inr assetIdOf_def)

lemma agree_NMerge:
  "statement_fields C (NMerge a4) = map Inr fs \<Longrightarrow> statement_fields C (NMerge b4) = map Inr fs \<Longrightarrow> agree C (NMerge a4) (NMerge b4)"
  by (cases a4; cases b4) (auto simp: agree_def Cons_eq_map_conv feUint_Inr assetIdOf_def)

lemma agree_SShield:
  "statement_fields C (SShield a5) = map Inr fs \<Longrightarrow> statement_fields C (SShield b5) = map Inr fs \<Longrightarrow> agree C (SShield a5) (SShield b5)"
  by (cases a5; cases b5) (auto simp: agree_def Cons_eq_map_conv feUint_Inr assetIdOf_def)

lemma agree_STransfer:
  "statement_fields C (STransfer a6) = map Inr fs \<Longrightarrow> statement_fields C (STransfer b6) = map Inr fs \<Longrightarrow> agree C (STransfer a6) (STransfer b6)"
  by (cases a6; cases b6) (auto simp: agree_def Cons_eq_map_conv feUint_Inr assetIdOf_def)

lemma agree_SWithdraw:
  "statement_fields C (SWithdraw a7) = map Inr fs \<Longrightarrow> statement_fields C (SWithdraw b7) = map Inr fs \<Longrightarrow> agree C (SWithdraw a7) (SWithdraw b7)"
  by (cases a7; cases b7) (auto simp: agree_def Cons_eq_map_conv feUint_Inr assetIdOf_def)

lemma agree_SSplit:
  "statement_fields C (SSplit a8) = map Inr fs \<Longrightarrow> statement_fields C (SSplit b8) = map Inr fs \<Longrightarrow> agree C (SSplit a8) (SSplit b8)"
  by (cases a8; cases b8) (auto simp: agree_def Cons_eq_map_conv feUint_Inr assetIdOf_def)

lemma agree_SMerge:
  "statement_fields C (SMerge a9) = map Inr fs \<Longrightarrow> statement_fields C (SMerge b9) = map Inr fs \<Longrightarrow> agree C (SMerge a9) (SMerge b9)"
  by (cases a9; cases b9) (auto simp: agree_def Cons_eq_map_conv feUint_Inr assetIdOf_def)

lemmas agree_diagonal = agree_NShield agree_NTransfer agree_NWithdraw agree_NSplit agree_NMerge agree_SShield agree_STransfer agree_SWithdraw agree_SSplit agree_SMerge

text \<open>Equal field lists come from statements that agree: the operation number and the length tell them apart.\<close>

lemma statement_fields_agree:
  assumes "statement_fields C s = map Inr fs" "statement_fields C s' = map Inr fs"
  shows "agree C s s'"
proof -
  have "kind s = kind s'"
    using statement_fields_kind [OF assms(1)] statement_fields_kind [OF assms(2)] feUint_inj
    by (metis prod.expand)
  then show ?thesis
    using assms by (cases s; cases s'; simp only: kind.simps prod.inject) (simp_all add: agree_diagonal del: statement_fields.simps)
qed

section \<open>The tuple hashing of the earlier contracts\<close>

text \<open>\<open>sdk/proofs/public-inputs.ts\<close>: sha256 over the serialised tuple of parameters.\<close>

definition hashTuple :: "crypto \<Rightarrow> clarity_value \<Rightarrow> (js_error, bytes) result" where
  "hashTuple C cv = rbind (serializeCV C cv) (\<lambda>b. Inr (sha256 C b))"

record shield_tuple =
  sht_commitment :: bytes
  sht_ownerCommitment :: bytes
  sht_metadata :: bytes
  sht_amount :: int
  sht_currentRoot :: bytes
  sht_newRoot :: bytes

record transfer_tuple =
  trt_oldNote :: bytes
  trt_nullifier :: bytes
  trt_newCommitment :: bytes
  trt_newOwnerCommitment :: bytes
  trt_newMetadata :: bytes
  trt_currentRoot :: bytes
  trt_newRoot :: bytes

record withdraw_tuple =
  wdt_noteId :: bytes
  wdt_nullifier :: bytes
  wdt_amount :: int
  wdt_recipient :: string
  wdt_root :: bytes

record split_tuple =
  spt_oldNote :: bytes
  spt_nullifier :: bytes
  spt_commitment1 :: bytes
  spt_ownerCommitment1 :: bytes
  spt_metadata1 :: bytes
  spt_commitment2 :: bytes
  spt_ownerCommitment2 :: bytes
  spt_metadata2 :: bytes
  spt_currentRoot :: bytes
  spt_newRoot :: bytes

record merge_tuple =
  mgt_oldNote1 :: bytes
  mgt_nullifier1 :: bytes
  mgt_oldNote2 :: bytes
  mgt_nullifier2 :: bytes
  mgt_commitment :: bytes
  mgt_ownerCommitment :: bytes
  mgt_metadata :: bytes
  mgt_currentRoot :: bytes
  mgt_newRoot :: bytes

definition shield_cv :: "shield_tuple \<Rightarrow> clarity_value" where
  "shield_cv o1 = CvTuple
     [(''op'', CvUInt (proof_type_id PShield)), (''commitment'', CvBuffer (sht_commitment o1)),
      (''owner-commitment'', CvBuffer (sht_ownerCommitment o1)), (''metadata'', CvBuffer (sht_metadata o1)),
      (''amount'', CvUInt (sht_amount o1)), (''current-root'', CvBuffer (sht_currentRoot o1)),
      (''new-root'', CvBuffer (sht_newRoot o1))]"

definition transfer_cv :: "transfer_tuple \<Rightarrow> clarity_value" where
  "transfer_cv o1 = CvTuple
     [(''op'', CvUInt (proof_type_id PTransfer)), (''old-note'', CvBuffer (trt_oldNote o1)),
      (''nullifier'', CvBuffer (trt_nullifier o1)), (''new-commitment'', CvBuffer (trt_newCommitment o1)),
      (''new-owner-commitment'', CvBuffer (trt_newOwnerCommitment o1)),
      (''new-metadata'', CvBuffer (trt_newMetadata o1)),
      (''current-root'', CvBuffer (trt_currentRoot o1)), (''new-root'', CvBuffer (trt_newRoot o1))]"

definition withdraw_cv :: "withdraw_tuple \<Rightarrow> clarity_value" where
  "withdraw_cv o1 = CvTuple
     [(''op'', CvUInt (proof_type_id PWithdrawal)), (''note-id'', CvBuffer (wdt_noteId o1)),
      (''nullifier'', CvBuffer (wdt_nullifier o1)), (''amount'', CvUInt (wdt_amount o1)),
      (''recipient'', CvPrincipal (wdt_recipient o1)), (''root'', CvBuffer (wdt_root o1))]"

definition split_cv :: "split_tuple \<Rightarrow> clarity_value" where
  "split_cv o1 = CvTuple
     [(''op'', CvUInt (proof_type_id PSplit)), (''old-note'', CvBuffer (spt_oldNote o1)),
      (''nullifier'', CvBuffer (spt_nullifier o1)), (''commitment-1'', CvBuffer (spt_commitment1 o1)),
      (''owner-commitment-1'', CvBuffer (spt_ownerCommitment1 o1)),
      (''metadata-1'', CvBuffer (spt_metadata1 o1)), (''commitment-2'', CvBuffer (spt_commitment2 o1)),
      (''owner-commitment-2'', CvBuffer (spt_ownerCommitment2 o1)),
      (''metadata-2'', CvBuffer (spt_metadata2 o1)),
      (''current-root'', CvBuffer (spt_currentRoot o1)), (''new-root'', CvBuffer (spt_newRoot o1))]"

definition merge_cv :: "merge_tuple \<Rightarrow> clarity_value" where
  "merge_cv o1 = CvTuple
     [(''op'', CvUInt (proof_type_id PMerge)), (''old-note-1'', CvBuffer (mgt_oldNote1 o1)),
      (''nullifier-1'', CvBuffer (mgt_nullifier1 o1)), (''old-note-2'', CvBuffer (mgt_oldNote2 o1)),
      (''nullifier-2'', CvBuffer (mgt_nullifier2 o1)), (''commitment'', CvBuffer (mgt_commitment o1)),
      (''owner-commitment'', CvBuffer (mgt_ownerCommitment o1)),
      (''metadata'', CvBuffer (mgt_metadata o1)),
      (''current-root'', CvBuffer (mgt_currentRoot o1)), (''new-root'', CvBuffer (mgt_newRoot o1))]"

definition shieldInputsHash :: "crypto \<Rightarrow> shield_tuple \<Rightarrow> (js_error, bytes) result" where
  "shieldInputsHash C o1 = hashTuple C (shield_cv o1)"

definition transferInputsHash :: "crypto \<Rightarrow> transfer_tuple \<Rightarrow> (js_error, bytes) result" where
  "transferInputsHash C o1 = hashTuple C (transfer_cv o1)"

definition withdrawInputsHash :: "crypto \<Rightarrow> withdraw_tuple \<Rightarrow> (js_error, bytes) result" where
  "withdrawInputsHash C o1 = hashTuple C (withdraw_cv o1)"

definition splitInputsHash :: "crypto \<Rightarrow> split_tuple \<Rightarrow> (js_error, bytes) result" where
  "splitInputsHash C o1 = hashTuple C (split_cv o1)"

definition mergeInputsHash :: "crypto \<Rightarrow> merge_tuple \<Rightarrow> (js_error, bytes) result" where
  "mergeInputsHash C o1 = hashTuple C (merge_cv o1)"

definition inputsHashHex :: "bytes \<Rightarrow> string" where
  "inputsHashHex h = toHex h"

datatype tuple_statement =
    TShield shield_tuple | TTransfer transfer_tuple | TWithdraw withdraw_tuple
  | TSplit split_tuple | TMerge merge_tuple

fun tuple_cv :: "tuple_statement \<Rightarrow> clarity_value" where
  "tuple_cv (TShield a) = shield_cv a"
| "tuple_cv (TTransfer a) = transfer_cv a"
| "tuple_cv (TWithdraw a) = withdraw_cv a"
| "tuple_cv (TSplit a) = split_cv a"
| "tuple_cv (TMerge a) = merge_cv a"

fun tuple_hash :: "crypto \<Rightarrow> tuple_statement \<Rightarrow> (js_error, bytes) result" where
  "tuple_hash C (TShield a) = shieldInputsHash C a"
| "tuple_hash C (TTransfer a) = transferInputsHash C a"
| "tuple_hash C (TWithdraw a) = withdrawInputsHash C a"
| "tuple_hash C (TSplit a) = splitInputsHash C a"
| "tuple_hash C (TMerge a) = mergeInputsHash C a"

lemmas tuple_cv_defs = shield_cv_def transfer_cv_def withdraw_cv_def split_cv_def merge_cv_def

lemma shield_cv_inj: "shield_cv a = shield_cv b \<Longrightarrow> a = b"
  by (cases a; cases b) (simp add: shield_cv_def)

lemma transfer_cv_inj: "transfer_cv a = transfer_cv b \<Longrightarrow> a = b"
  by (cases a; cases b) (simp add: transfer_cv_def)

lemma withdraw_cv_inj: "withdraw_cv a = withdraw_cv b \<Longrightarrow> a = b"
  by (cases a; cases b) (simp add: withdraw_cv_def)

lemma split_cv_inj: "split_cv a = split_cv b \<Longrightarrow> a = b"
  by (cases a; cases b) (simp add: split_cv_def)

lemma merge_cv_inj: "merge_cv a = merge_cv b \<Longrightarrow> a = b"
  by (cases a; cases b) (simp add: merge_cv_def)

lemma tuple_cv_inj: "tuple_cv s = tuple_cv s' \<Longrightarrow> s = s'"
proof (cases s; cases s'; simp)
qed (simp_all add: shield_cv_inj transfer_cv_inj withdraw_cv_inj split_cv_inj merge_cv_inj tuple_cv_defs)

lemma tuple_hash_cv: "tuple_hash C s = hashTuple C (tuple_cv s)"
  by (cases s) (simp_all add: shieldInputsHash_def transferInputsHash_def withdrawInputsHash_def
      splitInputsHash_def mergeInputsHash_def)

section \<open>Properties\<close>

text \<open>The bytes whose keccak256 is the hash of a statement.\<close>

definition statement_bytes :: "crypto \<Rightarrow> statement \<Rightarrow> bytes" where
  "statement_bytes C s = concat (map (\<lambda>r. case r of Inr f \<Rightarrow> f | Inl e \<Rightarrow> []) (statement_fields C s))"

text \<open>C13: The public-input hash binds: if two statements, each any of the five operations on
  the native or on the SIP-10 pool, hash to the same value, then they are the same operation
  of the same pool kind with equal numbers and equal 32-byte values, and with principals of
  the same field element, or keccak256 maps the two different strings of field elements that
  were hashed to the same digest. In particular no
  native statement shares its hash with a SIP-10 one.\<close>

theorem public_inputs_bind:
  assumes "digest32 C" "statement_hash C s = Inr h" "statement_hash C s' = Inr h"
  shows "agree C s s' \<or> clash (keccak256 C) (statement_bytes C s) (statement_bytes C s')"
proof -
  from assms(2,3) obtain fs fs' where fs: "statement_fields C s = map Inr fs" "statement_fields C s' = map Inr fs'"
    and h: "keccak256 C (concat fs) = keccak256 C (concat fs')"
    by (auto simp: statement_hash_fields hash_fields_Inr)
  have "fs = fs'" if "concat fs = concat fs'"
    using that by (intro concat_chunks_inj [of _ 32])
      (use statement_fields_length [OF assms(1)] fs in auto)
  moreover have "statement_bytes C s = concat fs" "statement_bytes C s' = concat fs'"
    by (simp_all add: statement_bytes_def fs comp_def)
  ultimately show ?thesis using clashI [of "keccak256 C", OF h] statement_fields_agree fs by metis
qed

definition plain_crypto :: crypto where
  "plain_crypto = \<lparr>keccak256 = (\<lambda>b. b), sha256 = (\<lambda>b. replicate 32 7), serializeCV = (\<lambda>_. Inr [1])\<rparr>"

lemma feUint_small: "0 \<le> n \<Longrightarrow> n < 256 \<Longrightarrow> feUint n = Inr (replicate 31 0 @ [word_of_int n])"
  by (simp only: feUint_Inr be_val_snoc be_val_replicate_0) (simp add: unsigned_of_int take_bit_int_eq_self)

definition plain_withdraw :: withdraw_inputs where
  "plain_withdraw = \<lparr>wdi_nullifier = ZERO, wdi_amount = 5, wdi_recipient = ''SP1'', wdi_merkleRoot = ZERO,
     wdi_circuitVersion = 1\<rparr>"

theorem public_inputs_bind_witness:
  "\<exists>h. statement_hash plain_crypto (NWithdraw plain_withdraw) = Inr h
     \<and> (agree plain_crypto (NWithdraw plain_withdraw) (NWithdraw plain_withdraw)
        \<or> clash (keccak256 plain_crypto) (statement_bytes plain_crypto (NWithdraw plain_withdraw))
             (statement_bytes plain_crypto (NWithdraw plain_withdraw)))"
proof -
  have "digest32 plain_crypto" by (simp add: digest32_def plain_crypto_def)
  moreover have "\<exists>h. statement_hash plain_crypto (NWithdraw plain_withdraw) = Inr h"
    by (simp add: statement_hash_fields plain_withdraw_def feUint_small fePrincipal_def plain_crypto_def
        hash_fields_def)
  ultimately show ?thesis using public_inputs_bind by blast
qed

text \<open>For each of the five operations, hashing the raw field vector the prover feeds the
  circuit (\<open>hashPublicInputVector\<close> of \<open>publicInputVector\<close>) succeeds exactly when the
  operation's own hash function does, with the same hash.\<close>

theorem vector_hash_agrees:
  assumes "digest32 C"
  shows "(rbind (shieldVector a1) (hashPublicInputVector C) = Inr h) = (shieldPublicInputs C a1 = Inr h)
    \<and> (rbind (transferVector a2) (hashPublicInputVector C) = Inr h) = (transferPublicInputs C a2 = Inr h)
    \<and> (rbind (withdrawVector C a3) (hashPublicInputVector C) = Inr h) = (withdrawPublicInputs C a3 = Inr h)
    \<and> (rbind (splitVector a4) (hashPublicInputVector C) = Inr h) = (splitPublicInputs C a4 = Inr h)
    \<and> (rbind (mergeVector a5) (hashPublicInputVector C) = Inr h) = (mergePublicInputs C a5 = Inr h)"
proof -
  note defs = shieldVector_def transferVector_def withdrawVector_def splitVector_def mergeVector_def
    public_input_defs hash_fields_def
  note len = feUint_length fePrincipal_length [OF assms]
  show ?thesis by (intro conjI; simp only: defs) (auto simp: len hashPublicInputVector_def concatAll_concat)
qed

lemma plain_digest32: "digest32 plain_crypto"
  by (simp add: digest32_def plain_crypto_def)

lemma plain_withdraw_hash: "\<exists>h. withdrawPublicInputs plain_crypto plain_withdraw = Inr h"
  by (simp add: withdrawPublicInputs_def plain_withdraw_def feUint_small fePrincipal_def plain_crypto_def
      hash_fields_def)

theorem vector_hash_agrees_witness:
  "\<exists>h. withdrawPublicInputs plain_crypto plain_withdraw = Inr h
     \<and> rbind (withdrawVector plain_crypto plain_withdraw) (hashPublicInputVector plain_crypto) = Inr h"
  using vector_hash_agrees [OF plain_digest32] plain_withdraw_hash by metis

text \<open>\<open>fePrincipal\<close> gives a valid field element: 32 bytes whose value is below 2^248, hence
  below the BN254 modulus, so reading it as a field element loses nothing.\<close>

theorem fePrincipal_is_field_element:
  assumes "digest32 C" "fePrincipal C a = Inr b"
  shows "length b = 32 \<and> int (be_val b) < 2 ^ 248 \<and> field_of b = int (be_val b)
    \<and> fieldToBytes32 (field_of b) = b"
proof -
  have len: "length b = 32" by (rule fePrincipal_length [OF assms])
  then obtain c where b: "b = 0 # c" "length c = 31"
  proof (cases b)
    case (Cons x xs)
    from assms(2) obtain enc where "b = (sha256 C enc)[0 := 0]" by (auto simp: fePrincipal_def)
    then have "x = 0" using Cons by (cases "sha256 C enc") auto
    with Cons len that show thesis by simp
  qed (use len in simp)
  have v: "int (be_val b) < 2 ^ 248"
    using be_val_less [of c] b by (simp add: be_val_Cons)
  then have "int (be_val b) < BN254_FIELD_MODULUS" by (simp add: BN254_FIELD_MODULUS_def)
  with v len show ?thesis by (simp add: fieldToBytes32_field_of) (simp add: field_of_alt)
qed

theorem fePrincipal_is_field_element_witness:
  "\<exists>b. fePrincipal plain_crypto ''SP1'' = Inr b \<and> int (be_val b) < 2 ^ 248"
proof -
  have "digest32 plain_crypto" by (simp add: digest32_def plain_crypto_def)
  moreover have "\<exists>b. fePrincipal plain_crypto ''SP1'' = Inr b"
    by (simp add: fePrincipal_def plain_crypto_def)
  ultimately show ?thesis using fePrincipal_is_field_element by blast
qed

text \<open>The tuple hashes of the earlier contracts bind: two statements with the same
  \<open>InputsHash\<close> are the same operation with the same fields, or their two different tuples
  have the same serialisation or the same hash.\<close>

theorem tuple_hashes_bind:
  assumes "tuple_hash C s = Inr h" "tuple_hash C s' = Inr h"
  shows "s = s' \<or> clash (serializeCV C) (tuple_cv s) (tuple_cv s')
    \<or> (\<exists>b b'. serializeCV C (tuple_cv s) = Inr b \<and> serializeCV C (tuple_cv s') = Inr b' \<and> clash (sha256 C) b b')"
proof -
  from assms obtain b b' where b: "serializeCV C (tuple_cv s) = Inr b" "serializeCV C (tuple_cv s') = Inr b'"
    and h: "sha256 C b = sha256 C b'"
    by (auto simp: tuple_hash_cv hashTuple_def)
  show ?thesis using b clashI [of "sha256 C", OF h] tuple_cv_inj [of s s'] by (auto simp: clash_def)
qed

end
