(* ===== verification/NoteCrypto.thy ===== *)
theory NoteCrypto
  imports CommitmentTree PublicInputs Complex_Main
begin

text \<open>
  Notes, nullifiers and fees: \<open>sdk/commitments\<close>, \<open>sdk/nullifiers\<close>, \<open>sdk/fees\<close> and the newer
  layer \<open>sdk/src/crypto\<close> (\<open>commitments.ts\<close>, \<open>field.ts\<close>). The Poseidon functions of the package
  and the curve multiplication are parameters; the two layers are shown to agree. The
  division of two \<open>bigint\<close>s truncates towards zero (\<open>sdiv\<close>).
\<close>

record poseidon =
  poseidon2 :: "int \<Rightarrow> int \<Rightarrow> int"
  poseidon4 :: "int \<Rightarrow> int \<Rightarrow> int \<Rightarrow> int \<Rightarrow> int"

text \<open>What the package \<open>poseidon-lite\<close> documents: its outputs are field elements.\<close>

definition poseidon_field :: "poseidon \<Rightarrow> bool" where
  "poseidon_field P \<longleftrightarrow>
     (\<forall>a b. 0 \<le> poseidon2 P a b \<and> poseidon2 P a b < BN254_FIELD_MODULUS)
     \<and> (\<forall>a b c d. 0 \<le> poseidon4 P a b c d \<and> poseidon4 P a b c d < BN254_FIELD_MODULUS)"

definition poseidonHash4 :: "poseidon \<Rightarrow> int \<Rightarrow> int \<Rightarrow> int \<Rightarrow> int \<Rightarrow> bytes" where
  "poseidonHash4 P a b c d = fieldToBytes32 (poseidon4 P a b c d)"

section \<open>Notes\<close>

record owner_key =
  ok_sk :: int
  ok_pkX :: int
  ok_pkY :: int

record shielded_note =
  n_amount :: int
  n_ownerPkX :: int
  n_ownerPkY :: int
  n_ownerSk :: int
  n_blinding :: int
  n_commitment :: bytes
  n_ownerCommitment :: bytes

text \<open>\<open>multiply\<close> stands for the scalar multiplication of the curve's base point.\<close>

definition ownerKeyFromSecret ::
  "(int \<Rightarrow> (js_error, int \<times> int) result) \<Rightarrow> bytes \<Rightarrow> (js_error, owner_key) result" where
  "ownerKeyFromSecret multiply secret =
     rbind (bytes32ToField secret) (\<lambda>sk.
       if sk = 0 then Inl (JsError ''BAD_SECRET'')
       else rbind (multiply sk) (\<lambda>(x, y). Inr \<lparr>ok_sk = sk, ok_pkX = x, ok_pkY = y\<rparr>))"

definition createNote :: "poseidon \<Rightarrow> int \<Rightarrow> owner_key \<Rightarrow> int \<Rightarrow> (js_error, shielded_note) result" where
  "createNote P amount owner blinding =
     (if amount \<le> 0 then Inl (JsError ''BAD_AMOUNT'')
      else if 2 ^ 64 \<le> amount then Inl (JsError ''BAD_AMOUNT'')
      else
        (let commitment = poseidonHash4 P amount (ok_pkX owner) (ok_pkY owner) blinding;
             ownerCommitment = poseidonHash2 (poseidon2 P) (ok_pkX owner) (ok_pkY owner)
         in Inr \<lparr>n_amount = amount, n_ownerPkX = ok_pkX owner, n_ownerPkY = ok_pkY owner,
                 n_ownerSk = ok_sk owner, n_blinding = blinding, n_commitment = commitment,
                 n_ownerCommitment = ownerCommitment\<rparr>))"

definition noteLeafField :: "shielded_note \<Rightarrow> (js_error, int) result" where
  "noteLeafField nt = bytes32ToField (n_commitment nt)"

definition computeNullifier :: "poseidon \<Rightarrow> shielded_note \<Rightarrow> (js_error, bytes) result" where
  "computeNullifier P nt =
     rbind (bytes32ToField (n_commitment nt)) (\<lambda>c. Inr (poseidonHash2 (poseidon2 P) c (n_ownerSk nt)))"

section \<open>The newer layer\<close>

record commitment_input =
  ci_amount :: int
  ci_ownerPkX :: int
  ci_ownerPkY :: int
  ci_blinding :: int
  ci_assetField :: "int option"

record note_secret =
  sec_ownerSk :: int
  sec_ownerPkX :: int
  sec_ownerPkY :: int
  sec_blinding :: int
  sec_leafIndex :: "int option"
  sec_assetId :: "rat option"
  sec_assetField :: "int option"

definition commitmentOf :: "poseidon \<Rightarrow> commitment_input \<Rightarrow> int" where
  "commitmentOf P s =
     (let inner = poseidon4 P (ci_amount s) (ci_ownerPkX s) (ci_ownerPkY s) (ci_blinding s)
      in case ci_assetField s of
           None \<Rightarrow> inner
         | Some a \<Rightarrow> if a \<noteq> 0 then poseidon2 P inner a else inner)"

definition bytesToHex :: "bytes \<Rightarrow> string" where
  "bytesToHex b = concat (map (\<lambda>x. padStart0 2 (hex_of_nat (unat x))) b)"

definition hexToBytes :: "string \<Rightarrow> bytes" where
  "hexToBytes h =
     (let raw = (if js_startsWith h ''0x'' then drop 2 h else h);
          s = (if odd (length raw) then CHR ''0'' # raw else raw)
      in hex_pairs s)"

definition bytesToBig :: "bytes \<Rightarrow> (js_error, int) result" where
  "bytesToBig b = bigInt0x (let h = bytesToHex b in if h = [] then ''0'' else h)"

text \<open>\<open>x.toString(16)\<close> of a negative number has a minus sign in front, which the padding keeps inside.\<close>

definition toHex32 :: "int \<Rightarrow> string" where
  "toHex32 x = ''0x'' @ padStart0 64 (if x < 0 then CHR ''-'' # hex_of_nat (nat (- x)) else hex_of_nat (nat x))"

definition field_fromHex :: "string \<Rightarrow> (js_error, int) result" where
  "field_fromHex h = (if js_startsWith h ''0x'' then bigInt0x (drop 2 h) else bigInt0x h)"

definition assetFieldOf :: "crypto \<Rightarrow> string \<Rightarrow> (js_error, int) result" where
  "assetFieldOf C tokenPrincipal = rbind (fePrincipal C tokenPrincipal) bytesToBig"

definition ownerCommitmentOf :: "poseidon \<Rightarrow> int \<Rightarrow> int \<Rightarrow> int" where
  "ownerCommitmentOf P x y = poseidon2 P x y"

definition nullifierOf :: "poseidon \<Rightarrow> int \<Rightarrow> int \<Rightarrow> int" where
  "nullifierOf P commitment ownerSk = poseidon2 P commitment ownerSk"

definition commitmentOfSecret :: "poseidon \<Rightarrow> int \<Rightarrow> note_secret \<Rightarrow> int" where
  "commitmentOfSecret P amount s =
     commitmentOf P \<lparr>ci_amount = amount, ci_ownerPkX = sec_ownerPkX s, ci_ownerPkY = sec_ownerPkY s,
                     ci_blinding = sec_blinding s, ci_assetField = sec_assetField s\<rparr>"

text \<open>The loop of \<open>randomBlinding\<close> over the 31 bytes the platform drew.\<close>

definition randomBlinding :: "bytes \<Rightarrow> int" where
  "randomBlinding drawn = foldl (\<lambda>x b. (push_bit 8 x) OR int (unat b)) 0 drawn + 1"

section \<open>Fees\<close>

definition BPS_DENOMINATOR :: int where
  "BPS_DENOMINATOR = 10000"

record fee_config =
  fc_bps :: int
  fc_flat :: int
  fc_enabled :: bool

definition calculateFee :: "fee_config \<Rightarrow> int \<Rightarrow> int \<Rightarrow> int" where
  "calculateFee config amount maxFeeBps =
     (if \<not> fc_enabled config then 0
      else (let effectiveBps = (if fc_bps config > maxFeeBps then maxFeeBps else fc_bps config)
            in fc_flat config + (amount * effectiveBps) sdiv BPS_DENOMINATOR))"

definition withdrawalNet :: "int \<Rightarrow> fee_config \<Rightarrow> int \<Rightarrow> (js_error, int) result" where
  "withdrawalNet amount config maxFeeBps =
     (let fee = calculateFee config amount maxFeeBps
      in if amount \<le> fee then Inl (JsError ''fee exceeds withdrawal amount'') else Inr (amount - fee))"

section \<open>Facts\<close>

lemma bytesToHex_same: "bytesToHex b = bytesToHexStr b"
  by (simp add: bytesToHex_def bytesToHexStr_def)

lemma hexToBytes_fromHex: "hexToBytes h = fromHex h"
  by (simp add: hexToBytes_def fromHex_def hexToBytesArr_def strip0x_def js_startsWith_def Let_def)

lemma bytesToBig_val: "bytesToBig b = Inr (int (be_val b))"
proof (cases "b = []")
  case True
  have "nat_of_hex ''0'' = 0" by (simp add: nat_of_hex_def)
  with True show ?thesis by (simp add: bytesToBig_def bytesToHex_same bigInt0x_hex)
next
  case False
  then show ?thesis
    using bytesToHexStr_is_hex [of b] by (simp add: bytesToBig_def bytesToHex_same bigInt0x_hex nat_of_hex_bytes)
qed

lemma field_fromHex_toHex32: "0 \<le> x \<Longrightarrow> field_fromHex (toHex32 x) = Inr x"
proof -
  have "padStart0 64 (hex_of_nat (nat x)) \<noteq> []" by (simp add: padStart0_def)
  then show "0 \<le> x \<Longrightarrow> field_fromHex (toHex32 x) = Inr x"
    using padStart0_is_hex [OF hex_of_nat_is_hex, of 64 "nat x"]
    by (simp add: field_fromHex_def toHex32_def js_startsWith_def bigInt0x_hex)
qed

lemma toHex32_field: "0 \<le> x \<Longrightarrow> x < 2 ^ 256 \<Longrightarrow> length (toHex32 x) = 66"
  using length_hex_of_nat [of "nat x" 64] by (simp add: toHex32_def length_padStart0 nat_less_iff)

lemma toHex32_inj: "0 \<le> x \<Longrightarrow> 0 \<le> y \<Longrightarrow> toHex32 x = toHex32 y \<Longrightarrow> x = y"
  by (metis field_fromHex_toHex32 sum.inject(2))

lemma randomBlinding_val: "randomBlinding drawn = int (be_val drawn) + 1"
proof -
  have "foldl (\<lambda>x b. (push_bit 8 x) OR int (unat b)) 0 drawn = int (be_val drawn)"
  proof (induction drawn rule: rev_induct)
    case (snoc b bs)
    have "push_bit 8 x OR int (unat b) = 256 * x + int (unat b)" for x
    proof -
      have "take_bit 8 (int (unat b)) = int (unat b)"
      proof (rule take_bit_int_eq_self)
        show "int (unat b) < 2 ^ 8" using uint_lt2p [of b] by simp
      qed simp
      then show ?thesis
        using concat_bit_eq [of 8 "int (unat b)" x] by (simp add: concat_bit_def push_bit_eq_mult or.commute)
    qed
    with snoc show ?case by simp
  qed simp
  then show ?thesis by (simp add: randomBlinding_def)
qed

text \<open>The two layers compute the same commitment and nullifier bytes.\<close>

lemma field_of_canonical: "0 \<le> x \<Longrightarrow> x < BN254_FIELD_MODULUS \<Longrightarrow> field_of (fieldToBytes32 x) = x"
  by simp

lemma bytes32ToField_canonical:
  "0 \<le> x \<Longrightarrow> x < BN254_FIELD_MODULUS \<Longrightarrow> bytes32ToField (fieldToBytes32 x) = Inr x"
proof -
  have "fieldToBytes32 x \<noteq> []" using length_fieldToBytes32 [of x] by (metis list.size(3) zero_neq_numeral)
  then show "0 \<le> x \<Longrightarrow> x < BN254_FIELD_MODULUS \<Longrightarrow> bytes32ToField (fieldToBytes32 x) = Inr x"
    by (simp add: bytes32ToField_nonempty)
qed

section \<open>Properties\<close>

text \<open>C14: The two note layers of the SDK agree on native notes: for an amount between 1 and
  2^64 - 1 \<open>createNote\<close> succeeds, its commitment is the 32-byte form of \<open>commitmentOf\<close>, its
  nullifier is the 32-byte form of \<open>nullifierOf\<close>, and its owner commitment that of
  \<open>ownerCommitmentOf\<close>; every other amount is refused with \<open>BAD_AMOUNT\<close>.\<close>

theorem note_layers_agree:
  assumes "poseidon_field P"
  shows "if 0 < amount \<and> amount < 2 ^ 64
    then \<exists>nt. createNote P amount k r = Inr nt
      \<and> (let c = commitmentOf P \<lparr>ci_amount = amount, ci_ownerPkX = ok_pkX k, ci_ownerPkY = ok_pkY k,
                                ci_blinding = r, ci_assetField = None\<rparr>
         in n_commitment nt = fieldToBytes32 c \<and> noteLeafField nt = Inr c
            \<and> computeNullifier P nt = Inr (fieldToBytes32 (nullifierOf P c (ok_sk k)))
            \<and> n_ownerCommitment nt = fieldToBytes32 (ownerCommitmentOf P (ok_pkX k) (ok_pkY k)))
    else createNote P amount k r = Inl (JsError ''BAD_AMOUNT'')"
  using assms
  by (auto simp: createNote_def commitmentOf_def computeNullifier_def noteLeafField_def Let_def poseidon_field_def
      poseidonHash4_def poseidonHash2_def nullifierOf_def ownerCommitmentOf_def bytes32ToField_canonical)

definition sum_poseidon :: poseidon where
  "sum_poseidon = \<lparr>poseidon2 = (\<lambda>a b. (a + 3 * b) mod BN254_FIELD_MODULUS),
                   poseidon4 = (\<lambda>a b c d. (a + 5 * b + 7 * c + 11 * d) mod BN254_FIELD_MODULUS)\<rparr>"

lemma sum_poseidon_field: "poseidon_field sum_poseidon"
  by (simp add: poseidon_field_def sum_poseidon_def)

theorem note_layers_agree_witness:
  "\<exists>nt. createNote sum_poseidon 5 \<lparr>ok_sk = 1, ok_pkX = 2, ok_pkY = 3\<rparr> 4 = Inr nt"
  using note_layers_agree [OF sum_poseidon_field, of 5 "\<lparr>ok_sk = 1, ok_pkX = 2, ok_pkY = 3\<rparr>" 4] by auto

text \<open>Asset binding: two SIP-10 notes with the same commitment carry the same asset field
  and the same inner commitment, or \<open>poseidon2\<close> maps their two different pairs of inner commitment
  and asset field to one value; and spending them gives the same nullifier only for the
  same commitment and owner secret, under the same exception.\<close>

theorem commitment_binds_asset:
  fixes P :: poseidon
  assumes "ci_assetField s = Some a" "a \<noteq> 0" "ci_assetField s' = Some b" "b \<noteq> 0"
  defines "inner \<equiv> \<lambda>s. commitmentOf P (s\<lparr>ci_assetField := None\<rparr>)"
  shows "(commitmentOf P s = commitmentOf P s' \<longrightarrow>
      a = b \<and> inner s = inner s' \<or> clash (\<lambda>(u, v). poseidon2 P u v) (inner s, a) (inner s', b))
    \<and> (nullifierOf P c sk = nullifierOf P c' sk' \<longrightarrow> c = c' \<and> sk = sk' \<or> clash (\<lambda>(u, v). poseidon2 P u v) (c, sk) (c', sk'))"
  using assms by (auto simp: clash_def commitmentOf_def nullifierOf_def Let_def)

theorem commitment_binds_asset_witness:
  "let s = \<lparr>ci_amount = 1, ci_ownerPkX = 2, ci_ownerPkY = 3, ci_blinding = 4, ci_assetField = Some 9\<rparr>
   in commitmentOf sum_poseidon s = commitmentOf sum_poseidon s \<and> (9 :: int) = 9"
  using commitment_binds_asset [of "\<lparr>ci_amount = 1, ci_ownerPkX = 2, ci_ownerPkY = 3, ci_blinding = 4, ci_assetField = Some 9\<rparr>" 9
      "\<lparr>ci_amount = 1, ci_ownerPkX = 2, ci_ownerPkY = 3, ci_blinding = 4, ci_assetField = Some 9\<rparr>" 9 sum_poseidon]
  by (simp add: Let_def)

text \<open>Fees: with a non-negative configuration and ceiling, the fee of a non-negative amount
  is at least the flat part and at most the flat part plus the amount's share at the ceiling
  rounded down; \<open>withdrawalNet\<close> returns a positive net amount that together with the fee is
  exactly the amount, and throws exactly when the fee reaches the amount.\<close>

theorem fee_bounds:
  assumes "0 \<le> fc_flat config" "0 \<le> fc_bps config" "0 \<le> maxFeeBps" "0 \<le> amount"
  shows "0 \<le> calculateFee config amount maxFeeBps
    \<and> calculateFee config amount maxFeeBps \<le> fc_flat config + amount * maxFeeBps div 10000
    \<and> (case withdrawalNet amount config maxFeeBps of
         Inr net \<Rightarrow> 0 < net \<and> net + calculateFee config amount maxFeeBps = amount
       | Inl e \<Rightarrow> amount \<le> calculateFee config amount maxFeeBps)"
proof -
  define e where "e = (if fc_bps config > maxFeeBps then maxFeeBps else fc_bps config)"
  have e: "0 \<le> e" "e \<le> maxFeeBps" using assms by (auto simp: e_def)
  have "(amount * e) sdiv BPS_DENOMINATOR = amount * e div 10000"
    using e assms by (simp add: BPS_DENOMINATOR_def signed_divide_int_def sgn_if)
  moreover have "amount * e div 10000 \<le> amount * maxFeeBps div 10000"
    using e assms by (intro zdiv_mono1 mult_left_mono) simp_all
  moreover have "0 \<le> amount * e div 10000" using e assms by (simp add: pos_imp_zdiv_nonneg_iff)
  moreover have "0 \<le> amount * maxFeeBps div 10000" using assms by (simp add: pos_imp_zdiv_nonneg_iff)
  ultimately show ?thesis
    using assms by (simp add: calculateFee_def e_def [symmetric] withdrawalNet_def Let_def)
qed

theorem fee_bounds_witness:
  "0 \<le> calculateFee \<lparr>fc_bps = 30, fc_flat = 100, fc_enabled = True\<rparr> 1000000 50
   \<and> withdrawalNet 1000000 \<lparr>fc_bps = 30, fc_flat = 100, fc_enabled = True\<rparr> 50 = Inr 996900"
proof -
  have "withdrawalNet 1000000 \<lparr>fc_bps = 30, fc_flat = 100, fc_enabled = True\<rparr> 50 = Inr 996900"
    by code_simp
  then show ?thesis
    using fee_bounds [of "\<lparr>fc_bps = 30, fc_flat = 100, fc_enabled = True\<rparr>" 50 1000000] by simp
qed

text \<open>\<open>randomBlinding\<close> of the 31 bytes the platform draws is their big-endian value plus one,
  a non-zero field element.\<close>

theorem randomBlinding_in_field:
  assumes "length drawn = 31"
  shows "randomBlinding drawn = int (be_val drawn) + 1 \<and> 0 < randomBlinding drawn
    \<and> randomBlinding drawn < BN254_FIELD_MODULUS"
proof -
  have "int (be_val drawn) < 256 ^ 31" using be_val_less [of drawn] assms by (metis of_nat_less_numeral_power_cancel_iff)
  then show ?thesis by (simp add: randomBlinding_val BN254_FIELD_MODULUS_def)
qed

theorem randomBlinding_in_field_witness:
  "0 < randomBlinding (replicate 31 255) \<and> randomBlinding (replicate 31 255) < BN254_FIELD_MODULUS"
  using randomBlinding_in_field [of "replicate 31 255"] by simp

end
