(* ===== verification/Attestation.thy ===== *)
theory Attestation
  imports PublicInputs Complex_Main
begin

text \<open>
  Attestation of proofs by a committee: the client \<open>sdk/attestations/index.ts\<close>, and under
  \<open>zk/attestations\<close> the member's service and server (\<open>committee\<close>), the signing primitives
  (\<open>signatures\<close>), the aggregation of signatures and the threshold policies. The signature scheme
  and the member's proof verifier are parameters; a call that may throw gives \<open>None\<close> or \<open>Inl\<close>.
\<close>

section \<open>The message\<close>

record signing = crypto +
  sg_sign :: "bytes \<Rightarrow> bytes \<Rightarrow> bytes"
  sg_verify :: "bytes \<Rightarrow> bytes \<Rightarrow> bytes \<Rightarrow> bool option"
  sg_public :: "bytes \<Rightarrow> bytes"

definition ATTESTATION_DOMAIN :: string where
  "ATTESTATION_DOMAIN = ''stx-shield-attestation-v1''"

record attestation_request =
  aq_proofType :: int
  aq_circuitVersion :: int
  aq_vkeyHash :: bytes
  aq_publicInputsHash :: bytes
  aq_proof :: bytes

definition attestationMessage :: "'a crypto_scheme \<Rightarrow> attestation_request \<Rightarrow> (js_error, bytes) result" where
  "attestationMessage C o1 =
     rbind (serializeCV C (CvTuple
       [(''domain'', CvStringAscii ATTESTATION_DOMAIN), (''proof-type'', CvUInt (aq_proofType o1)),
        (''circuit-version'', CvUInt (aq_circuitVersion o1)), (''vkey-hash'', CvBuffer (aq_vkeyHash o1)),
        (''public-inputs-hash'', CvBuffer (aq_publicInputsHash o1)),
        (''proof-hash'', CvBuffer (sha256 C (aq_proof o1)))]))
       (\<lambda>b. Inr (sha256 C b))"

record message_parts =
  mp_domain :: "string option"
  mp_proofType :: int
  mp_circuitVersion :: int
  mp_vkeyHash :: bytes
  mp_publicInputsHash :: bytes
  mp_proofHash :: bytes

definition buildAttestationMessage :: "'a crypto_scheme \<Rightarrow> message_parts \<Rightarrow> (js_error, bytes) result" where
  "buildAttestationMessage C o1 =
     rbind (serializeCV C (CvTuple
       [(''domain'', CvStringAscii (case mp_domain o1 of Some d \<Rightarrow> d | None \<Rightarrow> ATTESTATION_DOMAIN)),
        (''proof-type'', CvUInt (mp_proofType o1)), (''circuit-version'', CvUInt (mp_circuitVersion o1)),
        (''vkey-hash'', CvBuffer (mp_vkeyHash o1)), (''public-inputs-hash'', CvBuffer (mp_publicInputsHash o1)),
        (''proof-hash'', CvBuffer (mp_proofHash o1))]))
       (\<lambda>b. Inr (sha256 C b))"

definition signAttestation :: "'a signing_scheme \<Rightarrow> bytes \<Rightarrow> bytes \<Rightarrow> bytes" where
  "signAttestation C message privateKey = sg_sign C message privateKey"

definition committeePublicKey :: "'a signing_scheme \<Rightarrow> bytes \<Rightarrow> bytes" where
  "committeePublicKey C privateKey = sg_public C privateKey"

definition verifySignature :: "'a signing_scheme \<Rightarrow> bytes \<Rightarrow> bytes \<Rightarrow> bytes \<Rightarrow> bool" where
  "verifySignature C message signature signer =
     (case sg_verify C signature message signer of None \<Rightarrow> False | Some b \<Rightarrow> b)"

section \<open>The client\<close>

record attestation =
  at_signature :: bytes
  at_signer :: bytes

definition verifyAttestation :: "'a signing_scheme \<Rightarrow> bytes \<Rightarrow> attestation \<Rightarrow> bool" where
  "verifyAttestation C message att =
     (case sg_verify C (at_signature att) message (at_signer att) of None \<Rightarrow> False | Some b \<Rightarrow> b)"

record attestor_endpoint =
  ae_url :: string
  ae_publicKey :: "bytes option"

datatype attest_reply = ReplyThrows | ReplyNotOk | ReplyBody string string

record attestation_client =
  ac_endpoints :: "attestor_endpoint list"
  ac_threshold :: int

definition new_AttestationClient :: "attestor_endpoint list \<Rightarrow> int \<Rightarrow> (js_error, attestation_client) result" where
  "new_AttestationClient endpoints threshold =
     (if threshold < 1 then Inl (JsError ''BAD_THRESHOLD'')
      else Inr \<lparr>ac_endpoints = endpoints, ac_threshold = threshold\<rparr>)"

text \<open>What one endpoint's request settles to: \<open>None\<close> is a rejection or the \<open>null\<close> it returns.\<close>

definition endpoint_answer :: "attestor_endpoint \<Rightarrow> attest_reply \<Rightarrow> attestation option" where
  "endpoint_answer e reply =
     (case reply of
        ReplyBody sig signer \<Rightarrow>
          (let att = \<lparr>at_signature = fromHex sig, at_signer = fromHex signer\<rparr> in
           case ae_publicKey e of
             Some pk \<Rightarrow> if bytesEqual pk (at_signer att) then Some att else None
           | None \<Rightarrow> Some att)
      | _ \<Rightarrow> None)"

fun collect_loop ::
  "'a signing_scheme \<Rightarrow> bytes \<Rightarrow> int \<Rightarrow> attestation option list \<Rightarrow> string list \<Rightarrow> attestation list \<Rightarrow> attestation list" where
  "collect_loop C message threshold [] seen collected = collected"
| "collect_loop C message threshold (r # rs) seen collected =
     (case r of
        None \<Rightarrow> collect_loop C message threshold rs seen collected
      | Some att \<Rightarrow>
          if toHex (at_signer att) \<in> set seen \<or> \<not> verifyAttestation C message att
          then collect_loop C message threshold rs seen collected
          else (let collected' = collected @ [att] in
                if threshold \<le> int (length collected') then collected'
                else collect_loop C message threshold rs (toHex (at_signer att) # seen) collected'))"

definition collect ::
  "'a signing_scheme \<Rightarrow> (attestor_endpoint \<Rightarrow> attest_reply) \<Rightarrow> attestation_request \<Rightarrow> attestation_client \<Rightarrow>
   (js_error, attestation list) result" where
  "collect C reply req c =
     rbind (attestationMessage C req) (\<lambda>message.
       let collected = collect_loop C message (ac_threshold c) (map (\<lambda>e. endpoint_answer e (reply e)) (ac_endpoints c)) [] []
       in if int (length collected) < ac_threshold c then Inl (JsError ''INSUFFICIENT_ATTESTATIONS'') else Inr collected)"

definition attestationsToClarity :: "attestation list \<Rightarrow> clarity_value" where
  "attestationsToClarity atts =
     CvList (map (\<lambda>a. CvTuple [(''signature'', CvBuffer (at_signature a)), (''signer'', CvBuffer (at_signer a))]) atts)"

section \<open>Aggregation and thresholds\<close>

record aggregation_result =
  ar_attestations :: "attestation list"
  ar_validCount :: nat
  ar_meetsThreshold :: bool

fun aggregate_loop ::
  "'a signing_scheme \<Rightarrow> bytes \<Rightarrow> int \<Rightarrow> attestation list \<Rightarrow> string list \<Rightarrow> attestation list \<Rightarrow> attestation list" where
  "aggregate_loop C message threshold [] seen kept = kept"
| "aggregate_loop C message threshold (att # atts) seen kept =
     (let signerHex = bytesToHexStr (at_signer att) in
      if signerHex \<in> set seen then aggregate_loop C message threshold atts seen kept
      else if \<not> verifySignature C message (at_signature att) (at_signer att)
      then aggregate_loop C message threshold atts seen kept
      else (let kept' = kept @ [att] in
            if threshold \<le> int (length kept') then kept'
            else aggregate_loop C message threshold atts (signerHex # seen) kept'))"

definition aggregate :: "'a signing_scheme \<Rightarrow> bytes \<Rightarrow> attestation list \<Rightarrow> int \<Rightarrow> aggregation_result" where
  "aggregate C message candidates threshold =
     (let kept = aggregate_loop C message threshold candidates [] []
      in \<lparr>ar_attestations = kept, ar_validCount = length kept, ar_meetsThreshold = (threshold \<le> int (length kept))\<rparr>)"

record threshold_policy =
  pl_threshold :: int
  pl_committeeSize :: int
  pl_label :: string

definition SUPPORTED_POLICIES :: "threshold_policy list" where
  "SUPPORTED_POLICIES =
     [\<lparr>pl_threshold = 1, pl_committeeSize = 1, pl_label = ''1-of-1''\<rparr>,
      \<lparr>pl_threshold = 2, pl_committeeSize = 3, pl_label = ''2-of-3''\<rparr>,
      \<lparr>pl_threshold = 3, pl_committeeSize = 5, pl_label = ''3-of-5''\<rparr>,
      \<lparr>pl_threshold = 5, pl_committeeSize = 7, pl_label = ''5-of-7''\<rparr>,
      \<lparr>pl_threshold = 7, pl_committeeSize = 10, pl_label = ''7-of-10''\<rparr>]"

definition policyFor :: "int \<Rightarrow> (js_error, threshold_policy) result" where
  "policyFor committeeSize =
     (case find (\<lambda>x. pl_committeeSize x = committeeSize) SUPPORTED_POLICIES of
        None \<Rightarrow> Inl (JsError (''no supported threshold policy for committee size '' @ dec_of_int committeeSize))
      | Some p \<Rightarrow> Inr p)"

definition isValidThreshold :: "int \<Rightarrow> int \<Rightarrow> bool" where
  "isValidThreshold threshold committeeSize \<longleftrightarrow> 1 \<le> threshold \<and> threshold \<le> committeeSize"

section \<open>A committee member\<close>

record trusted_vkey =
  tk_proofType :: int
  tk_circuitVersion :: int
  tk_vkeyHash :: bytes
  tk_enabled :: bool
  tk_verify :: "bytes \<Rightarrow> string list option \<Rightarrow> (js_error, bool) result"

text \<open>The request as it is parsed; \<open>publicInputs\<close> may be missing.\<close>

record attest_request =
  rq_proofType :: int
  rq_circuitVersion :: int
  rq_vkeyHash :: string
  rq_publicInputsHash :: string
  rq_publicInputs :: "string list option"
  rq_proof :: string

record attest_response =
  rs_signature :: string
  rs_signer :: string

record attestation_service =
  as_privateKey :: bytes
  as_signer :: bytes
  as_vkeys :: "(string, trusted_vkey) jsmap"
  as_signed :: "string list"

definition new_AttestationService :: "'a signing_scheme \<Rightarrow> bytes \<Rightarrow> (string, trusted_vkey) jsmap \<Rightarrow> attestation_service" where
  "new_AttestationService C privateKey vkeys =
     \<lparr>as_privateKey = privateKey, as_signer = committeePublicKey C privateKey, as_vkeys = vkeys, as_signed = []\<rparr>"

definition node_fromHex :: "string \<Rightarrow> bytes" where
  "node_fromHex h = node_hex (strip0x h)"

definition service_message :: "'a crypto_scheme \<Rightarrow> attestation_request \<Rightarrow> (js_error, bytes) result" where
  "service_message C o1 =
     buildAttestationMessage C
       \<lparr>mp_domain = None, mp_proofType = aq_proofType o1, mp_circuitVersion = aq_circuitVersion o1,
        mp_vkeyHash = aq_vkeyHash o1, mp_publicInputsHash = aq_publicInputsHash o1,
        mp_proofHash = sha256 C (aq_proof o1)\<rparr>"

definition attest ::
  "'a signing_scheme \<Rightarrow> attest_request \<Rightarrow> attestation_service \<Rightarrow> (js_error, attest_response) result \<times> attestation_service" where
  "attest C req s =
     (case jm_get (as_vkeys s) (pair_key (rq_proofType req) (rq_circuitVersion req)) of
        None \<Rightarrow> (Inl (JsError ''unknown (proof type, circuit version)''), s)
      | Some vkey \<Rightarrow>
          if \<not> tk_enabled vkey then (Inl (JsError ''vkey disabled''), s)
          else if toHex (node_fromHex (rq_vkeyHash req)) \<noteq> toHex (tk_vkeyHash vkey)
          then (Inl (JsError ''vkey hash mismatch''), s)
          else
            (let pih = node_fromHex (rq_publicInputsHash req); proof = node_fromHex (rq_proof req) in
             if length pih \<noteq> 32 \<or> list_all (\<lambda>b. b = 0) pih then (Inl (JsError ''invalid public inputs hash''), s)
             else
               (case tk_verify vkey proof (rq_publicInputs req) of
                  Inl e \<Rightarrow> (Inl e, s)
                | Inr False \<Rightarrow> (Inl (JsError ''proof verification failed''), s)
                | Inr True \<Rightarrow>
                    (case service_message C
                            \<lparr>aq_proofType = rq_proofType req, aq_circuitVersion = rq_circuitVersion req,
                             aq_vkeyHash = tk_vkeyHash vkey, aq_publicInputsHash = pih, aq_proof = proof\<rparr> of
                       Inl e \<Rightarrow> (Inl e, s)
                     | Inr message \<Rightarrow>
                         if toHex message \<in> set (as_signed s) then (Inl (JsError ''already attested (replay)''), s)
                         else (Inr \<lparr>rs_signature = toHex (signAttestation C message (as_privateKey s)),
                                    rs_signer = toHex (as_signer s)\<rparr>,
                               s\<lparr>as_signed := js_add (toHex message) (as_signed s)\<rparr>)))))"

text \<open>The body the client posts: the fields of its request, in hex.\<close>

definition posted_request :: "attestation_request \<Rightarrow> attest_request" where
  "posted_request req =
     \<lparr>rq_proofType = aq_proofType req, rq_circuitVersion = aq_circuitVersion req, rq_vkeyHash = toHex (aq_vkeyHash req),
      rq_publicInputsHash = toHex (aq_publicInputsHash req), rq_publicInputs = None, rq_proof = toHex (aq_proof req)\<rparr>"

section \<open>The member's server\<close>

record bucket =
  bk_tokens :: rat
  bk_ts :: int

text \<open>One \<open>allow\<close> of the limiter at time \<open>now\<close>.\<close>

definition limiter_allow :: "rat \<Rightarrow> int \<Rightarrow> string \<Rightarrow> (string, bucket) jsmap \<Rightarrow> bool \<times> (string, bucket) jsmap" where
  "limiter_allow rps now key buckets =
     (let b = (case jm_get buckets key of Some b \<Rightarrow> b | None \<Rightarrow> \<lparr>bk_tokens = rps, bk_ts = now\<rparr>);
          elapsed = of_int (now - bk_ts b) / 1000;
          tokens = min rps (bk_tokens b + elapsed * rps)
      in if tokens < 1 then (False, jm_set key \<lparr>bk_tokens = tokens, bk_ts = now\<rparr> buckets)
         else (True, jm_set key \<lparr>bk_tokens = tokens - 1, bk_ts = now\<rparr> buckets))"

datatype server_body = SvHealth string | SvAttested attest_response | SvError string | SvFailed js_error

record server_state =
  ss_service :: attestation_service
  ss_buckets :: "(string, bucket) jsmap"

text \<open>\<open>parsed\<close> is the request's body as it is collected and parsed, or the error of that.\<close>

definition attestation_server ::
  "'a signing_scheme \<Rightarrow> rat \<Rightarrow> int \<Rightarrow> string \<Rightarrow> string \<Rightarrow> string option \<Rightarrow> (js_error, attest_request) result \<Rightarrow>
   server_state \<Rightarrow> (nat \<times> server_body) \<times> server_state" where
  "attestation_server C rps now meth url remote parsed st =
     (if meth = ''GET'' \<and> url = ''/health'' then ((200, SvHealth (toHex (as_signer (ss_service st)))), st)
      else if meth \<noteq> ''POST'' \<or> url \<noteq> ''/attest'' then ((404, SvError ''not found''), st)
      else
        (let (ok, bs) = limiter_allow rps now (case remote of Some a \<Rightarrow> a | None \<Rightarrow> ''unknown'') (ss_buckets st);
             st1 = st\<lparr>ss_buckets := bs\<rparr>
         in if \<not> ok then ((429, SvError ''rate limited''), st1)
            else (case parsed of
                    Inl e \<Rightarrow> ((422, SvFailed e), st1)
                  | Inr req \<Rightarrow>
                      (let (res, sv) = attest C req (ss_service st1); st2 = st1\<lparr>ss_service := sv\<rparr>
                       in case res of
                            Inl e \<Rightarrow> ((422, SvFailed e), st2)
                          | Inr a \<Rightarrow> ((200, SvAttested a), st2)))))"

section \<open>Distinct valid signatures\<close>

text \<open>What both loops compute: the first valid attestation of every signer, up to the threshold.\<close>

fun first_valid :: "'a signing_scheme \<Rightarrow> bytes \<Rightarrow> attestation list \<Rightarrow> bytes list \<Rightarrow> attestation list" where
  "first_valid C message [] seen = []"
| "first_valid C message (a # as) seen =
     (if at_signer a \<in> set seen \<or> \<not> verifyAttestation C message a then first_valid C message as seen
      else a # first_valid C message as (at_signer a # seen))"

lemma verify_same: "verifySignature C message (at_signature a) (at_signer a) = verifyAttestation C message a"
  by (simp add: verifySignature_def verifyAttestation_def)

lemma hex_member [simp]: "bytesToHexStr b \<in> bytesToHexStr ` A \<longleftrightarrow> b \<in> A"
  by (auto simp: bytesToHexStr_inj)

lemma toHex_member [simp]: "toHex b \<in> toHex ` A \<longleftrightarrow> b \<in> A"
  by (auto simp: toHex_inj)

lemma aggregate_loop_first:
  assumes "int (length kept) < threshold"
  shows "aggregate_loop C message threshold as (map bytesToHexStr seen) kept =
    take (nat threshold) (kept @ first_valid C message as seen)"
  using assms
proof (induction as arbitrary: seen kept)
  case Nil
  then show ?case by simp
next
  case (Cons a as)
  show ?case
  proof (cases "at_signer a \<in> set seen \<or> \<not> verifyAttestation C message a")
    case True
    then show ?thesis using Cons by (auto simp: verify_same)
  next
    case new: False
    show ?thesis
    proof (cases "threshold \<le> int (length kept) + 1")
      case True
      then have "nat threshold = length (kept @ [a])" using Cons.prems by simp
      then show ?thesis using new True by (simp add: verify_same)
    next
      case False
      then show ?thesis using new Cons.IH [of "kept @ [a]" "at_signer a # seen"] by (simp add: verify_same)
    qed
  qed
qed

lemma collect_loop_first:
  assumes "int (length kept) < threshold"
  shows "collect_loop C message threshold rs (map toHex seen) kept =
    take (nat threshold) (kept @ first_valid C message (List.map_filter id rs) seen)"
  using assms
proof (induction rs arbitrary: seen kept)
  case Nil
  then show ?case by (simp add: map_filter_simps)
next
  case (Cons r rs)
  show ?case
  proof (cases r)
    case None
    then show ?thesis using Cons by (simp add: map_filter_simps)
  next
    case (Some a)
    show ?thesis
    proof (cases "at_signer a \<in> set seen \<or> \<not> verifyAttestation C message a")
      case True
      then show ?thesis using Cons Some by (auto simp: map_filter_simps)
    next
      case new: False
      show ?thesis
      proof (cases "threshold \<le> int (length kept) + 1")
        case True
        then have "nat threshold = length (kept @ [a])" using Cons.prems by simp
        then show ?thesis using new True Some by (simp add: map_filter_simps)
      next
        case False
        then show ?thesis using new Some Cons.IH [of "kept @ [a]" "at_signer a # seen"]
          by (simp add: map_filter_simps)
      qed
    qed
  qed
qed

lemma first_valid_props:
  "distinct (map at_signer (first_valid C message as seen))"
  "set (first_valid C message as seen) \<subseteq> set as"
  "\<forall>a \<in> set (first_valid C message as seen). verifyAttestation C message a"
  "at_signer ` set (first_valid C message as seen) = at_signer ` {a \<in> set as. verifyAttestation C message a} - set seen"
proof (induction as arbitrary: seen)
  case (Cons a as)
  case 1
  show ?case using Cons [of seen] Cons [of "at_signer a # seen"] by auto
next
  case (Cons a as)
  case 2
  show ?case using Cons(2) [of seen] Cons(2) [of "at_signer a # seen"] by auto
next
  case (Cons a as)
  case 3
  show ?case using Cons(3) [of seen] Cons(3) [of "at_signer a # seen"] by auto
next
  case (Cons a as)
  case 4
  show ?case using Cons(4) [of seen] Cons(4) [of "at_signer a # seen"] by auto
qed simp_all

definition valid_signers :: "'a signing_scheme \<Rightarrow> bytes \<Rightarrow> attestation list \<Rightarrow> bytes set" where
  "valid_signers C message as = at_signer ` {a \<in> set as. verifyAttestation C message a}"

lemma first_valid_length: "length (first_valid C message as []) = card (valid_signers C message as)"
proof -
  have "card (set (map at_signer (first_valid C message as []))) = length (map at_signer (first_valid C message as []))"
    by (rule distinct_card) (rule first_valid_props(1))
  then show ?thesis by (simp add: first_valid_props(4) valid_signers_def)
qed

text \<open>The attestations the endpoints of a client answered with.\<close>

definition answers :: "(attestor_endpoint \<Rightarrow> attest_reply) \<Rightarrow> attestation_client \<Rightarrow> attestation list" where
  "answers reply c = List.map_filter (\<lambda>e. endpoint_answer e (reply e)) (ac_endpoints c)"

lemma collect_first:
  assumes "1 \<le> ac_threshold c" "attestationMessage C req = Inr m"
  shows "collect C reply req c =
    (let as = take (nat (ac_threshold c)) (first_valid C m (answers reply c) [])
     in if int (length as) < ac_threshold c then Inl (JsError ''INSUFFICIENT_ATTESTATIONS'') else Inr as)"
proof -
  have "List.map_filter id (map (\<lambda>e. endpoint_answer e (reply e)) (ac_endpoints c)) = answers reply c"
    by (simp add: answers_def List.map_filter_def comp_def filter_map)
  then show ?thesis
    using assms collect_loop_first [of "[]" "ac_threshold c" C m "map (\<lambda>e. endpoint_answer e (reply e)) (ac_endpoints c)" "[]"]
    by (simp add: collect_def)
qed

lemma collected_attestations:
  assumes c: "1 \<le> ac_threshold c" "attestationMessage C req = Inr m" and a: "collect C reply req c = Inr as"
  shows "int (length as) = ac_threshold c" "distinct (map at_signer as)" "set as \<subseteq> set (answers reply c)"
    "\<forall>a \<in> set as. verifyAttestation C m a"
    "aggregate C m (answers reply c) (ac_threshold c) =
       \<lparr>ar_attestations = as, ar_validCount = length as, ar_meetsThreshold = True\<rparr>"
proof -
  let ?f = "first_valid C m (answers reply c) []"
  note e = collect_first [OF c, of reply, unfolded Let_def]
  have as: "as = take (nat (ac_threshold c)) ?f" "ac_threshold c \<le> int (length as)" using a by (auto simp: e split: if_splits)
  show l: "int (length as) = ac_threshold c" using as c by simp
  show "distinct (map at_signer as)"
    using first_valid_props(1) [of C m "answers reply c" "[]"] by (simp add: as(1) take_map [symmetric])
  have "set as \<subseteq> set ?f" by (simp add: as(1) set_take_subset)
  then show "set as \<subseteq> set (answers reply c)" "\<forall>a \<in> set as. verifyAttestation C m a"
    using first_valid_props(2,3) [of C m "answers reply c" "[]"] by auto
  have "aggregate_loop C m (ac_threshold c) (answers reply c) [] [] = as"
    using aggregate_loop_first [of "[]" "ac_threshold c" C m "answers reply c" "[]"] c as(1) by simp
  then show "aggregate C m (answers reply c) (ac_threshold c) =
       \<lparr>ar_attestations = as, ar_validCount = length as, ar_meetsThreshold = True\<rparr>"
    using l by (simp add: aggregate_def)
qed

section \<open>What a member signs\<close>

lemma service_message_same: "service_message C o1 = attestationMessage C o1"
  by (simp add: service_message_def buildAttestationMessage_def attestationMessage_def)

lemma node_fromHex_toHex [simp]: "node_fromHex (toHex b) = b"
  by (simp add: node_fromHex_def toHex_def)

text \<open>The statement a request asks a signature for, with the member's key.\<close>

definition request_statement :: "attest_request \<Rightarrow> trusted_vkey \<Rightarrow> attestation_request" where
  "request_statement req vkey =
     \<lparr>aq_proofType = rq_proofType req, aq_circuitVersion = rq_circuitVersion req, aq_vkeyHash = tk_vkeyHash vkey,
      aq_publicInputsHash = node_fromHex (rq_publicInputsHash req), aq_proof = node_fromHex (rq_proof req)\<rparr>"

definition proper_hash :: "bytes \<Rightarrow> bool" where
  "proper_hash h \<longleftrightarrow> length h = 32 \<and> \<not> list_all (\<lambda>b. b = 0) h"

lemma attest_Inr:
  "attest C req s = (Inr a, s') \<longleftrightarrow>
   (\<exists>vkey message.
      jm_get (as_vkeys s) (pair_key (rq_proofType req) (rq_circuitVersion req)) = Some vkey \<and> tk_enabled vkey \<and>
      node_fromHex (rq_vkeyHash req) = tk_vkeyHash vkey \<and> proper_hash (node_fromHex (rq_publicInputsHash req)) \<and>
      tk_verify vkey (node_fromHex (rq_proof req)) (rq_publicInputs req) = Inr True \<and>
      attestationMessage C (request_statement req vkey) = Inr message \<and> toHex message \<notin> set (as_signed s) \<and>
      a = \<lparr>rs_signature = toHex (signAttestation C message (as_privateKey s)), rs_signer = toHex (as_signer s)\<rparr> \<and>
      s' = s\<lparr>as_signed := js_add (toHex message) (as_signed s)\<rparr>)"
  unfolding attest_def service_message_same request_statement_def [symmetric] Let_def
  by (auto simp: proper_hash_def toHex_inj split: option.split sum.split bool.split)

lemma attest_keeps:
  assumes "attest C req s = (r, s')"
  shows "as_privateKey s' = as_privateKey s" "as_signer s' = as_signer s" "as_vkeys s' = as_vkeys s"
    "set (as_signed s) \<subseteq> set (as_signed s')"
  using assms unfolding attest_def Let_def
  by (auto split: option.splits sum.splits bool.splits if_splits)

text \<open>A member answers the request a client posts; a refusal is an answer that is not ok.\<close>

definition member_reply :: "'a signing_scheme \<Rightarrow> attestation_service \<Rightarrow> attestation_request \<Rightarrow> attest_reply" where
  "member_reply C s req =
     (case fst (attest C (posted_request req) s) of
        Inl e \<Rightarrow> ReplyNotOk
      | Inr a \<Rightarrow> ReplyBody (rs_signature a) (rs_signer a))"

lemma no_answers_no_quorum:
  assumes "1 \<le> ac_threshold c" "\<forall>e \<in> set (ac_endpoints c). endpoint_answer e (reply e) = None"
  shows "\<exists>e. collect C reply req c = Inl e"
proof (cases "attestationMessage C req")
  case (Inl e)
  then show ?thesis by (simp add: collect_def)
next
  case (Inr m)
  have "List.map_filter (\<lambda>e. endpoint_answer e (reply e)) es = []"
    if "\<forall>e \<in> set es. endpoint_answer e (reply e) = None" for es
    using that by (induction es) (simp_all add: map_filter_simps)
  then have "answers reply c = []" using assms(2) by (simp add: answers_def)
  then show ?thesis using collect_first [OF assms(1) Inr] assms(1) by simp
qed

section \<open>The limiter\<close>

text \<open>One client's calls at given times: how many were let through, and its bucket.\<close>

fun limiter_run :: "rat \<Rightarrow> string \<Rightarrow> int list \<Rightarrow> (string, bucket) jsmap \<Rightarrow> nat \<times> (string, bucket) jsmap" where
  "limiter_run rps key [] bs = (0, bs)"
| "limiter_run rps key (t # ts) bs =
     (let (ok, bs1) = limiter_allow rps t key bs; (n, bs2) = limiter_run rps key ts bs1
      in ((if ok then 1 else 0) + n, bs2))"

lemma limiter_step:
  assumes "jm_get bs key = Some b" "bk_ts b \<le> t" "0 \<le> rps"
  shows "\<exists>ok bs1 b1. limiter_allow rps t key bs = (ok, bs1) \<and> jm_get bs1 key = Some b1 \<and> bk_ts b1 = t \<and>
    (if ok then 1 else 0) + bk_tokens b1 \<le> bk_tokens b + of_int (t - bk_ts b) / 1000 * rps \<and>
    (0 \<le> bk_tokens b \<longrightarrow> 0 \<le> bk_tokens b1)"
proof -
  have "0 \<le> of_int (t - bk_ts b) / 1000 * rps" using assms(2,3) by simp
  then show ?thesis using assms by (auto simp: limiter_allow_def Let_def min_def)
qed

lemma limiter_run_bound:
  assumes "jm_get bs key = Some b" "sorted (bk_ts b # ts)" "0 \<le> rps" "0 \<le> bk_tokens b"
  shows "of_nat (fst (limiter_run rps key ts bs)) \<le> bk_tokens b + of_int (last (bk_ts b # ts) - bk_ts b) / 1000 * rps"
  using assms
proof (induction ts arbitrary: bs b)
  case Nil
  then show ?case by simp
next
  case (Cons t ts)
  obtain ok bs1 b1 where s: "limiter_allow rps t key bs = (ok, bs1)" "jm_get bs1 key = Some b1" "bk_ts b1 = t"
    "(if ok then 1 else 0) + bk_tokens b1 \<le> bk_tokens b + of_int (t - bk_ts b) / 1000 * rps" "0 \<le> bk_tokens b1"
    using limiter_step [of bs key b t rps] Cons.prems by auto
  have "of_nat (fst (limiter_run rps key ts bs1)) \<le> bk_tokens b1 + of_int (last (bk_ts b1 # ts) - bk_ts b1) / 1000 * rps"
    using s Cons.prems by (intro Cons.IH) auto
  then have "of_nat (fst (limiter_run rps key ts bs1)) \<le> bk_tokens b1 + of_int (last (t # ts) - t) / 1000 * rps"
    by (simp only: s(3))
  moreover have "of_int (last (t # ts) - bk_ts b) / 1000 * rps =
      of_int (last (t # ts) - t) / 1000 * rps + of_int (t - bk_ts b) / 1000 * rps"
    by (simp add: field_simps)
  moreover have "(of_nat (fst (limiter_run rps key (t # ts) bs)) :: rat) =
      (if ok then 1 else 0) + of_nat (fst (limiter_run rps key ts bs1))"
    using s(1) by (simp add: Let_def split: prod.split)
  moreover have l: "last (bk_ts b # t # ts) = last (t # ts)" by simp
  ultimately show ?case unfolding l using s(4) by linarith
qed

section \<open>Properties\<close>

text \<open>A quorum is real: with a threshold the constructor accepts, collecting succeeds exactly when the
  endpoints' answers hold valid signatures of at least as many different signers as the threshold, and then
  returns exactly that many attestations, of pairwise different signers, each valid for the message of the
  statement and each the answer of an endpoint, pinned key included. The aggregation of the committee side
  (\<open>aggregate\<close>) keeps the same attestations and agrees on whether the threshold is met.\<close>

theorem collect_quorum:
  assumes "new_AttestationClient endpoints threshold = Inr c" "attestationMessage C req = Inr m"
  shows "((\<exists>as. collect C reply req c = Inr as) \<longleftrightarrow> threshold \<le> int (card (valid_signers C m (answers reply c)))) \<and>
    (\<forall>as. collect C reply req c = Inr as \<longrightarrow>
      int (length as) = threshold \<and> distinct (map at_signer as) \<and> set as \<subseteq> set (answers reply c)
      \<and> (\<forall>a \<in> set as. verifyAttestation C m a)
      \<and> aggregate C m (answers reply c) threshold =
          \<lparr>ar_attestations = as, ar_validCount = length as, ar_meetsThreshold = True\<rparr>)"
proof (intro conjI allI impI)
  have c: "1 \<le> ac_threshold c" "ac_threshold c = threshold"
    using assms(1) by (auto simp: new_AttestationClient_def split: if_splits)
  show "(\<exists>as. collect C reply req c = Inr as) \<longleftrightarrow> threshold \<le> int (card (valid_signers C m (answers reply c)))"
    using c collect_first [OF c(1) assms(2), of reply] first_valid_length [of C m "answers reply c"]
    by (auto simp: Let_def split: if_splits)
  fix as assume a: "collect C reply req c = Inr as"
  note k = collected_attestations [OF c(1) assms(2) a]
  show "int (length as) = threshold" "distinct (map at_signer as)" "set as \<subseteq> set (answers reply c)"
    "\<forall>a \<in> set as. verifyAttestation C m a"
    "aggregate C m (answers reply c) threshold = \<lparr>ar_attestations = as, ar_validCount = length as, ar_meetsThreshold = True\<rparr>"
    using k c(2) by simp_all
qed

definition demo_signing :: signing where
  "demo_signing = \<lparr>keccak256 = (\<lambda>b. b), sha256 = (\<lambda>b. [7]), serializeCV = (\<lambda>_. Inr [1]),
     sg_sign = (\<lambda>m k. m @ k), sg_verify = (\<lambda>s m k. Some (s = m @ k)), sg_public = (\<lambda>k. k)\<rparr>"

definition demo_statement :: attestation_request where
  "demo_statement = \<lparr>aq_proofType = 1, aq_circuitVersion = 1, aq_vkeyHash = [9], aq_publicInputsHash = replicate 32 1, aq_proof = [4]\<rparr>"

definition demo_replies :: "attestor_endpoint \<Rightarrow> attest_reply" where
  "demo_replies e = (if ae_url e = ''a'' then ReplyBody ''0x0701'' ''0x01'' else if ae_url e = ''b'' then ReplyBody ''0x0702'' ''0x02''
     else ReplyBody ''0x0701'' ''0x01'')"

definition demo_endpoints :: "attestor_endpoint list" where
  "demo_endpoints = map (\<lambda>u. \<lparr>ae_url = u, ae_publicKey = None\<rparr>) [''a'', ''c'', ''b'']"

lemma collect_quorum_witness:
  "\<exists>c as. new_AttestationClient demo_endpoints 2 = Inr c \<and> collect demo_signing demo_replies demo_statement c = Inr as
    \<and> length as = 2 \<and> distinct (map at_signer as)"
proof -
  let ?c = "\<lparr>ac_endpoints = demo_endpoints, ac_threshold = 2\<rparr>"
  have c: "new_AttestationClient demo_endpoints 2 = Inr ?c" by (simp add: new_AttestationClient_def)
  have m: "attestationMessage demo_signing demo_statement = Inr [7]" by code_simp
  have r: "collect demo_signing demo_replies demo_statement ?c =
      Inr [\<lparr>at_signature = [7, 1], at_signer = [1]\<rparr>, \<lparr>at_signature = [7, 2], at_signer = [2]\<rparr>]"
    by code_simp
  have "int (length [\<lparr>at_signature = [7, 1 :: byte], at_signer = [1 :: byte]\<rparr>, \<lparr>at_signature = [7, 2], at_signer = [2]\<rparr>]) = 2 \<and>
    distinct (map at_signer [\<lparr>at_signature = [7, 1 :: byte], at_signer = [1 :: byte]\<rparr>, \<lparr>at_signature = [7, 2], at_signer = [2]\<rparr>])"
    using collect_quorum [OF c m, of demo_replies] r by blast
  then show ?thesis using c r by auto
qed

text \<open>C28: A member signs public inputs nobody checked: the hash it signs is taken from the request and never
  compared with the public inputs the proof is verified for. Whenever a member signs a request, it would, in
  the same state, sign the same proof for any other well-formed hash of public inputs (not signed before),
  whatever that hash stands for.\<close>

theorem attested_hash_unbound:
  assumes "attest C req s = (Inr a, s')"
    and "proper_hash (node_fromHex h)"
    and "jm_get (as_vkeys s) (pair_key (rq_proofType req) (rq_circuitVersion req)) = Some vkey"
    and "attestationMessage C (request_statement (req\<lparr>rq_publicInputsHash := h\<rparr>) vkey) = Inr m" "toHex m \<notin> set (as_signed s)"
  shows "fst (attest C (req\<lparr>rq_publicInputsHash := h\<rparr>) s) =
    Inr \<lparr>rs_signature = toHex (signAttestation C m (as_privateKey s)), rs_signer = toHex (as_signer s)\<rparr>"
proof -
  have "attest C (req\<lparr>rq_publicInputsHash := h\<rparr>) s =
    (Inr \<lparr>rs_signature = toHex (signAttestation C m (as_privateKey s)), rs_signer = toHex (as_signer s)\<rparr>,
     s\<lparr>as_signed := js_add (toHex m) (as_signed s)\<rparr>)"
    using assms unfolding attest_Inr by (auto simp: request_statement_def)
  then show ?thesis by simp
qed

text \<open>The client cannot get a signature from members that check: the body it posts carries no public
  inputs, so if every member's verifier refuses or throws when they are missing, collecting fails for every
  statement, every proof and every threshold.\<close>

theorem posted_request_lacks_inputs:
  assumes "new_AttestationClient endpoints threshold = Inr c"
    and "\<forall>e k vkey p. jm_get (as_vkeys (member e)) k = Some vkey \<longrightarrow> tk_verify vkey p None \<noteq> Inr True"
  shows "\<exists>err. collect C (\<lambda>e. member_reply C (member e) req) req c = Inl err"
proof (rule no_answers_no_quorum)
  show "1 \<le> ac_threshold c" using assms(1) by (auto simp: new_AttestationClient_def split: if_splits)
  have "member_reply C (member e) req = ReplyNotOk" for e
  proof (cases "attest C (posted_request req) (member e)")
    case (Pair r s')
    show ?thesis
    proof (cases r)
      case (Inl x)
      then show ?thesis using Pair by (simp add: member_reply_def)
    next
      case (Inr a)
      obtain vkey k p where "jm_get (as_vkeys (member e)) k = Some vkey"
        "tk_verify vkey p (rq_publicInputs (posted_request req)) = Inr True"
        using Pair unfolding Inr attest_Inr by blast
      then show ?thesis using assms(2) by (simp add: posted_request_def)
    qed
  qed
  then show "\<forall>e \<in> set (ac_endpoints c). endpoint_answer e (member_reply C (member e) req) = None"
    by (simp add: endpoint_answer_def)
qed

definition demo_member :: attestation_service where
  "demo_member = new_AttestationService demo_signing [5]
     [(pair_key 1 1, \<lparr>tk_proofType = 1, tk_circuitVersion = 1, tk_vkeyHash = [9], tk_enabled = True,
        tk_verify = (\<lambda>p i. case i of None \<Rightarrow> Inl TypeError | Some xs \<Rightarrow> Inr (xs = [''0x2a'']))\<rparr>)]"

definition demo_asked :: attest_request where
  "demo_asked = \<lparr>rq_proofType = 1, rq_circuitVersion = 1, rq_vkeyHash = ''0x09'', rq_publicInputsHash = ''0x'' @ replicate 64 (CHR ''1''),
     rq_publicInputs = Some [''0x2a''], rq_proof = ''0x04''\<rparr>"

lemma attested_hash_unbound_witness:
  "(\<exists>a. fst (attest demo_signing demo_asked demo_member) = Inr a) \<and>
   (\<exists>a. fst (attest demo_signing (demo_asked\<lparr>rq_publicInputsHash := ''0x'' @ replicate 64 (CHR ''2'')\<rparr>) demo_member) = Inr a)"
proof -
  let ?h = "''0x'' @ replicate 64 (CHR ''2'')"
  let ?k = "snd (hd (as_vkeys demo_member))"
  obtain a s' where a: "attest demo_signing demo_asked demo_member = (Inr a, s')"
  proof -
    have "case fst (attest demo_signing demo_asked demo_member) of Inr _ \<Rightarrow> True | Inl _ \<Rightarrow> False" by code_simp
    then show ?thesis
      using that by (cases "attest demo_signing demo_asked demo_member") (auto split: sum.splits)
  qed
  have h: "proper_hash (node_fromHex ?h)" by code_simp
  have k: "jm_get (as_vkeys demo_member) (pair_key (rq_proofType demo_asked) (rq_circuitVersion demo_asked)) = Some ?k"
    by (simp add: demo_member_def new_AttestationService_def demo_asked_def)
  have m: "attestationMessage demo_signing (request_statement (demo_asked\<lparr>rq_publicInputsHash := ?h\<rparr>) ?k) = Inr [7]"
    by (simp add: attestationMessage_def demo_signing_def)
  have n: "toHex [7] \<notin> set (as_signed demo_member)" by (simp add: demo_member_def new_AttestationService_def)
  show ?thesis using attested_hash_unbound [OF a h k m n] a by auto
qed

lemma posted_request_lacks_inputs_witness:
  "\<exists>err. collect demo_signing (\<lambda>e. member_reply demo_signing demo_member demo_statement) demo_statement
     \<lparr>ac_endpoints = demo_endpoints, ac_threshold = 2\<rparr> = Inl err"
proof (rule posted_request_lacks_inputs [where member = "\<lambda>_. demo_member"])
  show "new_AttestationClient demo_endpoints 2 = Inr \<lparr>ac_endpoints = demo_endpoints, ac_threshold = 2\<rparr>"
    by (simp add: new_AttestationClient_def)
  show "\<forall>(e :: attestor_endpoint) k vkey p. jm_get (as_vkeys demo_member) k = Some vkey \<longrightarrow> tk_verify vkey p None \<noteq> Inr True"
    by (auto simp: demo_member_def new_AttestationService_def split: if_splits)
qed

end
