(* ===== verification/SdkAssets.thy ===== *)
theory SdkAssets
  imports JsNumber RelayTypes PublicInputs NoteCrypto "HOL-Library.Log_Nat"
begin

text \<open>
  Assets and amounts of the second SDK: the networks (\<open>sdk/src/constants/networks.ts\<close>), the asset
  records of the API and how a caller's reference is resolved (\<open>sdk/src/types/asset.ts\<close>), and the
  conversion of a human amount to base units (\<open>toBaseUnits\<close> of \<open>sdk/src/client/STXShield.ts\<close>),
  which multiplies two doubles: the product is rounded as IEEE 754 says. \<open>10 ** d\<close> is a parameter,
  because the language leaves its accuracy to the implementation. Case is that of ASCII letters.
\<close>

section \<open>Networks\<close>

record network_defaults =
  nd_apiUrl :: string
  nd_relayerUrls :: "string list"
  nd_deployer :: string
  nd_hiroApiUrl :: string
  nd_zkVerifyDomainId :: int

definition NETWORKS :: "string \<Rightarrow> network_defaults option" where
  "NETWORKS n =
     (if n = ''testnet'' then Some \<lparr>nd_apiUrl = ''https://stx-shield-api.onrender.com'',
        nd_relayerUrls = [''https://stx-shield-relayer.onrender.com''],
        nd_deployer = ''ST18XMPE0PS5VNEEKB82BPW7NRZRHXEPH16JK8NN6'',
        nd_hiroApiUrl = ''https://api.testnet.hiro.so'', nd_zkVerifyDomainId = 0\<rparr>
      else if n = ''mainnet'' then Some \<lparr>nd_apiUrl = ''https://api.stxshield.io'',
        nd_relayerUrls = [''https://relayer.stxshield.io''], nd_deployer = '''',
        nd_hiroApiUrl = ''https://api.hiro.so'', nd_zkVerifyDomainId = 0\<rparr>
      else None)"

definition MIN_SHIELD :: int where
  "MIN_SHIELD = 1000000"

definition MIN_WITHDRAWAL :: int where
  "MIN_WITHDRAWAL = 1000000"

section \<open>Assets\<close>

record asset_info =
  as_id :: rat
  as_symbol :: string
  as_token :: "string option"
  as_decimals :: rat
  as_active :: bool
  as_native :: bool
  as_pool :: string
  as_verifier :: string
  as_splitMerge :: string
  as_protocolFees :: string

text \<open>What a caller names an asset with; \<open>undefined\<close> and \<open>null\<close> are told apart once.\<close>

datatype asset_ref = RefUndefined | RefNull | RefText string | RefAsset asset_info

fun isObj :: "json \<Rightarrow> bool" where
  "isObj (JObj _) = True"
| "isObj (JArr _) = True"
| "isObj _ = False"

definition asset_text :: "json \<Rightarrow> string \<Rightarrow> (string, string) result" where
  "asset_text raw k =
     (case json_field raw k of
        Some (JStr v) \<Rightarrow> if v = [] then Inl (''asset: '' @ k @ '' must be a non-empty string'') else Inr v
      | _ \<Rightarrow> Inl (''asset: '' @ k @ '' must be a non-empty string''))"

definition asset_number :: "json \<Rightarrow> string \<Rightarrow> (string, rat) result" where
  "asset_number raw k =
     (case json_field raw k of Some (JNum v) \<Rightarrow> Inr v | _ \<Rightarrow> Inl (''asset: '' @ k @ '' must be a number''))"

text \<open>\<open>/^S[0-9A-Z]{38,40}\.[a-zA-Z][a-zA-Z0-9-]*$/\<close>\<close>

definition token_principal :: "string \<Rightarrow> bool" where
  "token_principal s =
     (case s of
        [] \<Rightarrow> False
      | c # r \<Rightarrow>
          (let addr = takeWhile c32_char r; rest = dropWhile c32_char r
           in c = CHR ''S'' \<and> 38 \<le> length addr \<and> length addr \<le> 40 \<and>
              (case rest of [] \<Rightarrow> False | d # name \<Rightarrow> d = CHR ''.'' \<and> contract_name name)))"

definition validateAsset :: "json \<Rightarrow> (string, asset_info) result" where
  "validateAsset raw =
     (if \<not> isObj raw then Inl ''asset: not an object''
      else
        (let native = (json_field raw ''native'' = Some (JBool True));
             token = (case json_field raw ''token'' of Some (JStr t) \<Rightarrow> if token_principal t then Some t else None | _ \<Rightarrow> None)
         in if \<not> native \<and> token = None then Inl ''asset: SIP-10 asset requires a token contract principal''
            else
              rbind (asset_number raw ''id'') (\<lambda>i.
              rbind (asset_text raw ''symbol'') (\<lambda>symbol.
              rbind (asset_number raw ''decimals'') (\<lambda>decimals.
              rbind (asset_text raw ''pool'') (\<lambda>pool.
              rbind (asset_text raw ''verifier'') (\<lambda>verifier.
              rbind (asset_text raw ''splitMerge'') (\<lambda>splitMerge.
              rbind (asset_text raw ''protocolFees'') (\<lambda>protocolFees.
                Inr \<lparr>as_id = i, as_symbol = symbol, as_token = (if native then None else token), as_decimals = decimals,
                     as_active = (json_field raw ''active'' = Some (JBool True)), as_native = native, as_pool = pool,
                     as_verifier = verifier, as_splitMerge = splitMerge, as_protocolFees = protocolFees\<rparr>)))))))))"

definition js_toLowerCase :: "string \<Rightarrow> string" where
  "js_toLowerCase s = map (\<lambda>c. if is_upper c then char_of (of_char c + 32 :: nat) else c) s"

definition js_toUpperCase :: "string \<Rightarrow> string" where
  "js_toUpperCase s = map (\<lambda>c. if is_lower c then char_of (of_char c - 32 :: nat) else c) s"

fun isNativeRef :: "asset_ref \<Rightarrow> bool" where
  "isNativeRef RefUndefined = True"
| "isNativeRef RefNull = True"
| "isNativeRef (RefText s) = (js_toUpperCase s = ''STX'')"
| "isNativeRef (RefAsset a) = as_native a"

definition resolveAsset :: "asset_ref \<Rightarrow> asset_info list \<Rightarrow> (string, asset_info) result" where
  "resolveAsset ref assets =
     (if isNativeRef ref
      then (case find as_native assets of
              None \<Rightarrow> Inl ''asset: native STX not present in the asset list''
            | Some a \<Rightarrow> Inr a)
      else (case ref of
              RefAsset a \<Rightarrow> Inr a
            | RefText s \<Rightarrow>
                (case find (\<lambda>a. as_token a = Some s \<or> js_toLowerCase (as_symbol a) = js_toLowerCase s) assets of
                   None \<Rightarrow> Inl (''asset: unknown asset '' @ s)
                 | Some a \<Rightarrow> Inr a)
            | _ \<Rightarrow> Inl []))"

text \<open>The asset's field element; \<open>undefined\<close> for native STX.\<close>

definition assetFieldFor :: "crypto \<Rightarrow> asset_info \<Rightarrow> (js_error, int option) result" where
  "assetFieldFor C a =
     (if as_native a then Inr None
      else (case as_token a of
              None \<Rightarrow> Inl TypeError
            | Some t \<Rightarrow> rbind (assetFieldOf C t) (\<lambda>f. Inr (Some f))))"

definition sameAsset :: "asset_info option \<Rightarrow> asset_info \<Rightarrow> bool" where
  "sameAsset a b \<longleftrightarrow> (case a of Some x \<Rightarrow> as_id x | None \<Rightarrow> 0) = as_id b"

section \<open>Doubles\<close>

text \<open>The exponent of the leading bit of a positive number.\<close>

definition leading_bit :: "rat \<Rightarrow> int" where
  "leading_bit r =
     (if 1 \<le> r then int (floorlog 2 (nat \<lfloor>r\<rfloor>)) - 1 else - int (floorlog 2 (nat (\<lceil>1 / r\<rceil> - 1))))"

definition round_half_even :: "rat \<Rightarrow> int" where
  "round_half_even q =
     (let f = \<lfloor>q\<rfloor>; d = q - of_int f in if d < 1 / 2 \<or> d = 1 / 2 \<and> even f then f else f + 1)"

definition pow2 :: "int \<Rightarrow> rat" where
  "pow2 e = (if 0 \<le> e then 2 ^ nat e else 1 / 2 ^ nat (- e))"

text \<open>The double nearest to a number; \<open>None\<close> is an infinity.\<close>

definition js_double :: "rat \<Rightarrow> rat option" where
  "js_double r =
     (if r = 0 then Some 0
      else
        (let e = max (leading_bit \<bar>r\<bar> - 52) (- 1074);
             v = of_int (round_half_even (\<bar>r\<bar> / pow2 e)) * pow2 e
         in if 2 ^ 1024 \<le> v then None else Some (if r < 0 then - v else v)))"

text \<open>An amount: a \<open>bigint\<close> of base units, or a number, \<open>None\<close> when it is not finite.\<close>

datatype amount = AmountBig int | AmountNumber "rat option"

definition toBaseUnits :: "(rat \<Rightarrow> rat) \<Rightarrow> amount \<Rightarrow> rat \<Rightarrow> (js_error, int) result" where
  "toBaseUnits pow10 amount decimals =
     (case amount of
        AmountBig b \<Rightarrow> Inr b
      | AmountNumber None \<Rightarrow> Inl RangeError
      | AmountNumber (Some x) \<Rightarrow>
          (case js_double (x * pow10 decimals) of
             None \<Rightarrow> Inl RangeError
           | Some p \<Rightarrow> Inr \<lfloor>p + 1 / 2\<rfloor>))"

section \<open>Rounding is close\<close>

lemma pow2_pos: "0 < pow2 e"
  by (simp add: pow2_def)

lemma pow2_neg: "pow2 (- int n) = 1 / 2 ^ n"
  by (cases "n = 0") (simp_all add: pow2_def)

lemma pow2_add_nat: "pow2 e * 2 ^ n = pow2 (e + int n)"
proof -
  consider "0 \<le> e" | "e < 0" "0 \<le> e + int n" | "e + int n < 0" by linarith
  then show ?thesis
  proof cases
    case 1
    then show ?thesis by (simp add: pow2_def nat_add_distrib power_add)
  next
    case 2
    then have "n = nat (- e) + nat (e + int n)" by linarith
    then have "(2 :: rat) ^ n = 2 ^ nat (- e) * 2 ^ nat (e + int n)" by (metis power_add)
    with 2 show ?thesis by (simp add: pow2_def)
  next
    case 3
    then have "nat (- e) = nat (- (e + int n)) + n" by linarith
    then have "(2 :: rat) ^ nat (- e) = 2 ^ nat (- (e + int n)) * 2 ^ n" by (metis power_add)
    with 3 show ?thesis by (simp add: pow2_def)
  qed
qed

lemma leading_bit_le:
  assumes "0 < r"
  shows "pow2 (leading_bit r) \<le> r"
proof (cases "1 \<le> r")
  case True
  define n where "n = nat \<lfloor>r\<rfloor>"
  have n: "0 < n" "of_nat n \<le> r" using True by (simp_all add: n_def)
  have b: "2 ^ (floorlog 2 n - 1) \<le> n" "n < 2 ^ floorlog 2 n" using floorlog_bounds [of n 2] n(1) by simp_all
  have "0 < floorlog 2 n" using b(2) n(1) by (cases "floorlog 2 n") simp_all
  then have "pow2 (leading_bit r) = 2 ^ (floorlog 2 n - 1)"
    using True by (simp add: leading_bit_def pow2_def n_def nat_diff_distrib)
  also have "\<dots> \<le> of_nat n" using b(1) by (metis of_nat_le_iff of_nat_numeral of_nat_power)
  finally show ?thesis using n(2) by simp
next
  case False
  define m where "m = nat (\<lceil>1 / r\<rceil> - 1)"
  have "1 < 1 / r" using False assms by (simp add: field_simps)
  then have "2 \<le> \<lceil>1 / r\<rceil>" by linarith
  then have m: "0 < m" "int m = \<lceil>1 / r\<rceil> - 1" unfolding m_def by linarith+
  have "m < 2 ^ floorlog 2 m" using floorlog_bounds [of m 2] m(1) by simp
  then have "int m < 2 ^ floorlog 2 m" by (metis of_nat_less_iff of_nat_numeral of_nat_power)
  then have "\<lceil>1 / r\<rceil> \<le> 2 ^ floorlog 2 m" using m(2) by simp
  then have "1 / r \<le> of_int (2 ^ floorlog 2 m)" by (simp only: ceiling_le_iff)
  then have "1 / 2 ^ floorlog 2 m \<le> r" using assms by (simp add: field_simps)
  moreover have "pow2 (leading_bit r) = 1 / 2 ^ floorlog 2 m"
    using False by (simp add: leading_bit_def pow2_neg m_def)
  ultimately show ?thesis by simp
qed

lemma leading_bit_ge:
  assumes "1 / 2 ^ j \<le> r"
  shows "- int j \<le> leading_bit r"
proof (cases "1 \<le> r")
  case True
  then have "1 \<le> nat \<lfloor>r\<rfloor>" by linarith
  then have "0 < floorlog 2 (nat \<lfloor>r\<rfloor>)" using floorlog_eq_zero_iff [of 2 "nat \<lfloor>r\<rfloor>"] by linarith
  with True show ?thesis by (simp add: leading_bit_def)
next
  case False
  have r: "0 < r" using assms by (rule less_le_trans [rotated]) simp
  then have "1 / r \<le> 2 ^ j" using assms by (simp add: field_simps)
  then have "\<lceil>1 / r\<rceil> \<le> 2 ^ j" by (simp add: ceiling_le_iff)
  then have "\<lceil>1 / r\<rceil> - 1 < int (2 ^ j)" by simp
  then have "nat (\<lceil>1 / r\<rceil> - 1) < 2 ^ j"
    by (cases "0 \<le> \<lceil>1 / r\<rceil> - 1") (simp_all only: nat_less_iff, simp)
  then have "floorlog 2 (nat (\<lceil>1 / r\<rceil> - 1)) \<le> j" by (intro floorlog_leI) simp_all
  with False show ?thesis by (simp add: leading_bit_def)
qed

lemma round_half_even_close: "\<bar>of_int (round_half_even q) - q\<bar> \<le> 1 / 2"
  using floor_correct [of q] by (auto simp: round_half_even_def Let_def abs_le_iff)

lemma js_double_close:
  assumes "1 / 2 ^ 1022 \<le> r" "r < 2 ^ 1023"
  shows "\<exists>v. js_double r = Some v \<and> \<bar>v - r\<bar> \<le> r / 2 ^ 53"
proof -
  have r: "0 < r" using assms(1) by (rule less_le_trans [rotated]) simp
  define e where "e = leading_bit r - 52"
  have e: "max (leading_bit \<bar>r\<bar> - 52) (- 1074) = e"
    using leading_bit_ge [OF assms(1)] r by (simp add: e_def)
  define v where "v = of_int (round_half_even (r / pow2 e)) * pow2 e"
  have "v - r = (of_int (round_half_even (r / pow2 e)) - r / pow2 e) * pow2 e"
    using pow2_pos [of e] by (simp add: v_def field_simps)
  then have "\<bar>v - r\<bar> = \<bar>of_int (round_half_even (r / pow2 e)) - r / pow2 e\<bar> * pow2 e"
    using pow2_pos [of e] by (simp add: abs_mult)
  also have "\<dots> \<le> 1 / 2 * pow2 e"
    using round_half_even_close pow2_pos [of e] by (intro mult_right_mono) simp_all
  also have "\<dots> \<le> r / 2 ^ 53"
    using leading_bit_le [OF r] pow2_add_nat [of e 52] by (simp add: e_def)
  finally have c: "\<bar>v - r\<bar> \<le> r / 2 ^ 53" .
  have "r / 2 ^ 53 \<le> r" using r by simp
  then have "v \<le> r + r" using c by linarith
  then have "v < 2 ^ 1023 + 2 ^ 1023" using assms(2) by linarith
  also have "(2 :: rat) ^ 1023 + 2 ^ 1023 = 2 ^ 1024" by (simp flip: power_Suc)
  finally have "v < 2 ^ 1024" .
  then have "js_double r = Some v"
    using r unfolding js_double_def Let_def e by (simp add: v_def)
  with c show ?thesis by blast
qed

text \<open>A human amount with as many decimals as the asset has is converted exactly: the number nearest to
  k / 10 ^ d gives k base units, for up to 2 ^ 50 base units and 22 decimals, although the number itself and
  its product with 10 ^ d are both rounded.\<close>

theorem human_amount_exact:
  assumes "pow10 (of_nat d) = 10 ^ d" "d \<le> 22" "k \<le> 2 ^ 50"
  shows "toBaseUnits pow10 (AmountNumber (js_double (of_nat k / 10 ^ d))) (of_nat d) = Inr (int k)"
proof (cases "k = 0")
  case True
  have "\<lfloor>1 / 2 :: rat\<rfloor> = 0" by (simp add: floor_eq_iff)
  with True show ?thesis by (simp add: toBaseUnits_def js_double_def)
next
  case False
  define K where "K = (of_nat k :: rat)"
  have "of_nat k \<le> (of_nat (2 ^ 50) :: rat)" unfolding of_nat_le_iff using assms(3) .
  then have K: "1 \<le> K" "K \<le> 2 ^ 50" using False by (simp_all add: K_def)
  define D where "D = (10 ^ d :: rat)"
  have "(10 :: rat) ^ d \<le> 10 ^ 22" using assms(2) by (intro power_increasing) simp_all
  then have D: "1 \<le> D" "D \<le> 10 ^ 22" by (simp_all add: D_def)
  have "(1 :: rat) / 2 ^ 1022 \<le> 1 / 10 ^ 22" by simp
  also have "\<dots> \<le> 1 / D" using D by (simp add: field_simps)
  also have "\<dots> \<le> K / D" using K(1) D(1) by (simp add: divide_right_mono)
  finally have lo: "1 / 2 ^ 1022 \<le> K / D" .
  have "K / D \<le> K" using K(1) D(1) by (simp add: divide_le_eq)
  also have "\<dots> < 2 ^ 1023" using K(2) by (rule le_less_trans) simp
  finally have hi: "K / D < 2 ^ 1023" .
  obtain x where x: "js_double (K / D) = Some x" "\<bar>x - K / D\<bar> \<le> K / D / 2 ^ 53"
    using js_double_close [OF lo hi] by blast
  have "\<bar>x * D - K\<bar> = \<bar>x - K / D\<bar> * D" using D(1) by (simp add: field_simps abs_mult_pos)
  also have "\<dots> \<le> K / D / 2 ^ 53 * D" using x(2) D(1) by (intro mult_right_mono) simp_all
  finally have xD: "\<bar>x * D - K\<bar> \<le> K / 2 ^ 53" using D(1) by simp
  define y where "y = x * D"
  have K': "K \<le> 1125899906842624" using K(2) by simp
  have y: "\<bar>y - K\<bar> \<le> K / 9007199254740992" using xD by (simp add: y_def)
  have b: "1 / 2 \<le> y" "y \<le> 2251799813685248" using y K(1) K' by linarith+
  have "(1 :: rat) / 2 ^ 1022 \<le> 1 / 2" "(2251799813685248 :: rat) < 2 ^ 1023" by simp_all
  then have "1 / 2 ^ 1022 \<le> y" "y < 2 ^ 1023" using b by (blast intro: order_trans le_less_trans)+
  then obtain p where p: "js_double y = Some p" "\<bar>p - y\<bar> \<le> y / 2 ^ 53"
    using js_double_close by blast
  have "\<bar>p - y\<bar> \<le> y / 9007199254740992" using p(2) by simp
  then have "\<bar>p - K\<bar> < 1 / 2" using y K(1) K' b by linarith
  then have "\<lfloor>p + 1 / 2\<rfloor> = int k" 
    unfolding floor_eq_iff of_int_of_nat_eq K_def [symmetric] abs_less_iff by (intro conjI) linarith+
  then show ?thesis
    using x(1) p(1) assms(1) by (simp add: toBaseUnits_def K_def D_def y_def)
qed

lemma human_amount_exact_witness:
  "toBaseUnits (\<lambda>r. if r = of_nat 6 then 10 ^ 6 else 1) (AmountNumber (js_double (of_nat 1100000 / 10 ^ 6))) (of_nat 6) =
     Inr (int 1100000)"
  by (rule human_amount_exact) simp_all

end
