(* ===== verification/NoteScanner.thy ===== *)
theory NoteScanner
  imports CommitmentTree JsNumber PublicInputs "HOL-Library.Multiset"
begin

text \<open>
  Encrypted note delivery, \<open>sdk/encryption/index.ts\<close>, and the scanner that finds a receiver's
  notes, \<open>sdk/note-discovery/index.ts\<close>. The curve, the authenticated cipher, the random ephemeral
  key and the text of JSON are parameters; a call that may throw gives \<open>None\<close>. A JavaScript number
  that may be \<open>NaN\<close> is an optional rational, as in \<open>JsNumber\<close>.
\<close>

section \<open>Encryption\<close>

record delivery = crypto +
  dl_public :: "bytes \<Rightarrow> bytes"
  dl_shared :: "bytes \<Rightarrow> bytes \<Rightarrow> bytes option"
  dl_encrypt :: "bytes \<Rightarrow> bytes \<Rightarrow> bytes \<Rightarrow> bytes"
  dl_decrypt :: "bytes \<Rightarrow> bytes \<Rightarrow> bytes \<Rightarrow> bytes option"
  dl_text :: "json \<Rightarrow> bytes"
  dl_parse :: "bytes \<Rightarrow> json option"

definition NOTE_PAYLOAD_VERSION :: rat where
  "NOTE_PAYLOAD_VERSION = 1"

type_synonym js_number = "rat option"

record note_payload =
  np_version :: js_number
  np_amount :: int
  np_blinding :: int
  np_ownerSk :: int
  np_nonce :: int
  np_commitment :: bytes
  np_treePosition :: js_number
  np_assetId :: "js_number option"

record viewing_key_pair =
  vk_secretKey :: bytes
  vk_publicKey :: bytes

record encrypted_note =
  en_ephemeralPublicKey :: bytes
  en_nonce :: bytes
  en_ciphertext :: bytes

definition generateViewingKeyPair :: "'a delivery_scheme \<Rightarrow> bytes \<Rightarrow> viewing_key_pair" where
  "generateViewingKeyPair D secret = \<lparr>vk_secretKey = secret, vk_publicKey = dl_public D secret\<rparr>"

text \<open>The bytes of \<open>"stx-shield-note"\<close>, and one zero for the length the code reserves.\<close>

definition note_label :: bytes where
  "note_label = map (\<lambda>c. of_nat (of_char c)) ''stx-shield-note'' @ [0]"

definition deriveKey :: "'a delivery_scheme \<Rightarrow> bytes \<Rightarrow> bytes \<Rightarrow> bytes" where
  "deriveKey D shared ephemeralPk = sha256 D (shared @ ephemeralPk @ note_label)"

definition jnumber :: "js_number \<Rightarrow> json" where
  "jnumber v = (case v of Some r \<Rightarrow> JNum r | None \<Rightarrow> JNull)"

text \<open>A number in a condition: \<open>NaN\<close> and 0 are false.\<close>

definition asset_given :: "js_number option \<Rightarrow> bool" where
  "asset_given a \<longleftrightarrow> (case a of Some (Some r) \<Rightarrow> r \<noteq> 0 | _ \<Rightarrow> False)"

definition payload_json :: "note_payload \<Rightarrow> json" where
  "payload_json p = JObj
     ([(''v'', jnumber (np_version p)), (''a'', JStr (dec_of_int (np_amount p))),
       (''b'', JStr (dec_of_int (np_blinding p))), (''s'', JStr (dec_of_int (np_ownerSk p))),
       (''n'', JStr (dec_of_int (np_nonce p))), (''c'', JStr (bytesToHexStr (np_commitment p))),
       (''t'', jnumber (np_treePosition p))]
      @ (if asset_given (np_assetId p) then [(''i'', jnumber (the (np_assetId p)))] else []))"

definition serialize :: "'a delivery_scheme \<Rightarrow> note_payload \<Rightarrow> bytes" where
  "serialize D p = dl_text D (payload_json p)"

text \<open>\<open>BigInt(o[k])\<close>: a text or a whole number, else a throw. \<open>h2b(o["c"])\<close> needs a text.\<close>

definition json_big :: "json option \<Rightarrow> (string, int) result" where
  "json_big v =
     (case v of
        Some (JStr s) \<Rightarrow> js_BigInt_text s
      | Some (JNum r) \<Rightarrow> if of_int \<lfloor>r\<rfloor> = r then Inr \<lfloor>r\<rfloor> else Inl ''RangeError''
      | Some (JBool b) \<Rightarrow> Inr (if b then 1 else 0)
      | _ \<Rightarrow> Inl ''TypeError'')"

definition json_bytes :: "json option \<Rightarrow> (string, bytes) result" where
  "json_bytes v = (case v of Some (JStr s) \<Rightarrow> Inr (hexToBytesArr s) | _ \<Rightarrow> Inl ''TypeError'')"

definition payload_of_json :: "json \<Rightarrow> (string, note_payload) result" where
  "payload_of_json o1 =
     rbind (json_big (json_field o1 ''a'')) (\<lambda>a.
     rbind (json_big (json_field o1 ''b'')) (\<lambda>b.
     rbind (json_big (json_field o1 ''s'')) (\<lambda>s.
     rbind (json_big (json_field o1 ''n'')) (\<lambda>n.
     rbind (json_bytes (json_field o1 ''c'')) (\<lambda>c.
       Inr \<lparr>np_version = js_Number (json_field o1 ''v''), np_amount = a, np_blinding = b, np_ownerSk = s,
            np_nonce = n, np_commitment = c, np_treePosition = js_Number (json_field o1 ''t''),
            np_assetId = (case js_nullish (json_field o1 ''i'') None of
                            None \<Rightarrow> None | Some i \<Rightarrow> Some (js_Number (Some i)))\<rparr>)))))"

definition deserialize :: "'a delivery_scheme \<Rightarrow> bytes \<Rightarrow> (string, note_payload) result" where
  "deserialize D b = (case dl_parse D b of None \<Rightarrow> Inl ''SyntaxError'' | Some j \<Rightarrow> payload_of_json j)"

definition encryptNote ::
  "'a delivery_scheme \<Rightarrow> note_payload \<Rightarrow> bytes \<Rightarrow> bytes \<Rightarrow> (string, encrypted_note) result" where
  "encryptNote D payload receiverViewingPk ephSk =
     (let ephemeralPublicKey = dl_public D ephSk in
      case dl_shared D ephSk receiverViewingPk of
        None \<Rightarrow> Inl ''bad point''
      | Some shared \<Rightarrow>
          (let nonce = take 24 (sha256 D ephemeralPublicKey)
           in Inr \<lparr>en_ephemeralPublicKey = ephemeralPublicKey, en_nonce = nonce,
                   en_ciphertext = dl_encrypt D (deriveKey D shared ephemeralPublicKey) nonce (serialize D payload)\<rparr>))"

definition tryDecryptNote :: "'a delivery_scheme \<Rightarrow> encrypted_note \<Rightarrow> bytes \<Rightarrow> note_payload option" where
  "tryDecryptNote D note1 viewingSecretKey =
     (case dl_shared D viewingSecretKey (en_ephemeralPublicKey note1) of
        None \<Rightarrow> None
      | Some shared \<Rightarrow>
          (case dl_decrypt D (deriveKey D shared (en_ephemeralPublicKey note1)) (en_nonce note1) (en_ciphertext note1) of
             None \<Rightarrow> None
           | Some plaintext \<Rightarrow>
               (case deserialize D plaintext of
                  Inl _ \<Rightarrow> None
                | Inr payload \<Rightarrow> if np_version payload \<noteq> Some NOTE_PAYLOAD_VERSION then None else Some payload)))"

text \<open>The buffer is 56 bytes and the ciphertext; a part of another length than its place would not fit it.\<close>

definition encodeEncryptedNote :: "encrypted_note \<Rightarrow> bytes" where
  "encodeEncryptedNote n = en_ephemeralPublicKey n @ en_nonce n @ en_ciphertext n"

definition decodeEncryptedNote :: "bytes \<Rightarrow> (string, encrypted_note) result" where
  "decodeEncryptedNote b =
     (if length b < 57 then Inl ''encrypted note too short''
      else Inr \<lparr>en_ephemeralPublicKey = take 32 b, en_nonce = take 24 (drop 32 b), en_ciphertext = drop 56 b\<rparr>)"

section \<open>The scanner\<close>

record published_note =
  pn_commitment :: bytes
  pn_leafIndex :: int
  pn_payload :: bytes

record owned_note = note_payload +
  on_leafIndex :: int
  on_spent :: bool

record scanner =
  sn_viewing :: viewing_key_pair
  sn_tree :: commitment_tree
  sn_owned :: "(string, owned_note) jsmap"
  sn_nextIndex :: int

definition new_NoteScanner :: "(int \<Rightarrow> int \<Rightarrow> int) \<Rightarrow> viewing_key_pair \<Rightarrow> commitment_tree option \<Rightarrow> scanner" where
  "new_NoteScanner p viewing tree =
     \<lparr>sn_viewing = viewing, sn_tree = (case tree of Some t \<Rightarrow> t | None \<Rightarrow> new_CommitmentTree p TREE_DEPTH),
      sn_owned = [], sn_nextIndex = 0\<rparr>"

definition scanner_decrypt :: "'a delivery_scheme \<Rightarrow> published_note \<Rightarrow> scanner \<Rightarrow> note_payload option" where
  "scanner_decrypt D n s =
     (case decodeEncryptedNote (pn_payload n) of
        Inl _ \<Rightarrow> None
      | Inr e \<Rightarrow> tryDecryptNote D e (vk_secretKey (sn_viewing s)))"

definition owned_of :: "published_note \<Rightarrow> note_payload \<Rightarrow> owned_note" where
  "owned_of n payload = note_payload.extend payload \<lparr>on_leafIndex = pn_leafIndex n, on_spent = False\<rparr>"

text \<open>One note: into the tree, then into the owned notes when it decrypts. A full tree throws.\<close>

fun scan_notes ::
  "(int \<Rightarrow> int \<Rightarrow> int) \<Rightarrow> 'a delivery_scheme \<Rightarrow> published_note list \<Rightarrow> nat \<Rightarrow> scanner \<Rightarrow> (js_error, nat) result \<times> scanner" where
  "scan_notes p D [] found s = (Inr found, s)"
| "scan_notes p D (n # ns) found s =
     (case tree_insert p (pn_commitment n) (sn_tree s) of
        Inl e \<Rightarrow> (Inl e, s)
      | Inr (_, t) \<Rightarrow>
          (let s1 = s\<lparr>sn_tree := t, sn_nextIndex := pn_leafIndex n + 1\<rparr>
           in case scanner_decrypt D n s1 of
                None \<Rightarrow> scan_notes p D ns found s1
              | Some payload \<Rightarrow>
                  scan_notes p D ns (found + 1)
                    (s1\<lparr>sn_owned := jm_set (bytesToHexStr (pn_commitment n)) (owned_of n payload) (sn_owned s1)\<rparr>)))"

definition refreshSpent :: "(owned_note \<Rightarrow> bytes option) \<Rightarrow> bytes list \<Rightarrow> scanner \<Rightarrow> scanner" where
  "refreshSpent nullifierFor onChain s =
     s\<lparr>sn_owned := map (\<lambda>(k, n).
         (k, if \<not> on_spent n \<and> (case nullifierFor n of None \<Rightarrow> False
                                | Some f \<Rightarrow> bytesToHexStr f \<in> set (map bytesToHexStr onChain))
             then n\<lparr>on_spent := True\<rparr> else n)) (sn_owned s)\<rparr>"

text \<open>\<open>fetchNotes(nextIndex)\<close> and \<open>fetchNullifiers()\<close> answer or throw.\<close>

record chain_source =
  cs_notes :: "int \<Rightarrow> (js_error, published_note list) result"
  cs_nullifiers :: "(js_error, bytes list) result"

definition scanner_sync ::
  "(int \<Rightarrow> int \<Rightarrow> int) \<Rightarrow> 'a delivery_scheme \<Rightarrow> (owned_note \<Rightarrow> bytes option) \<Rightarrow> chain_source \<Rightarrow> scanner \<Rightarrow>
   (js_error, nat \<times> nat) result \<times> scanner" where
  "scanner_sync p D nullifierFor src s =
     (case cs_notes src (sn_nextIndex s) of
        Inl e \<Rightarrow> (Inl e, s)
      | Inr ns \<Rightarrow>
          (case scan_notes p D ns 0 s of
             (Inl e, s1) \<Rightarrow> (Inl e, s1)
           | (Inr found, s1) \<Rightarrow>
               (case cs_nullifiers src of
                  Inl e \<Rightarrow> (Inl e, s1)
                | Inr nulls \<Rightarrow> (Inr (length ns, found), refreshSpent nullifierFor nulls s1))))"

definition scanner_notes :: "scanner \<Rightarrow> owned_note list" where
  "scanner_notes s = filter (\<lambda>n. \<not> on_spent n) (jm_values (sn_owned s))"

definition scanner_balance :: "scanner \<Rightarrow> int" where
  "scanner_balance s = sum_list (map np_amount (scanner_notes s))"

definition proofFor :: "bytes \<Rightarrow> scanner \<Rightarrow> (js_error, merkle_proof) result" where
  "proofFor commitment s =
     (case jm_get (sn_owned s) (bytesToHexStr commitment) of
        None \<Rightarrow> Inl (JsError ''note is not owned by this viewing key'')
      | Some n \<Rightarrow> tree_proof (on_leafIndex n) (sn_tree s))"

fun select_loop :: "int \<Rightarrow> owned_note list \<Rightarrow> owned_note list \<Rightarrow> int \<Rightarrow> owned_note list \<times> int" where
  "select_loop amount [] chosen got = (chosen, got)"
| "select_loop amount (n # ns) chosen got =
     (if amount \<le> got then (chosen, got) else select_loop amount ns (chosen @ [n]) (got + np_amount n))"

text \<open>Largest first. The order of notes of the same amount is not fixed by the comparator; here it is the scanner's.\<close>

definition select_notes :: "int \<Rightarrow> scanner \<Rightarrow> (js_error, owned_note list) result" where
  "select_notes amount s =
     (let available = sort_key (\<lambda>n. - np_amount n) (scanner_notes s);
          (chosen, got) = select_loop amount available [] 0
      in if got < amount
         then Inl (JsError (''insufficient shielded balance: have '' @ dec_of_int got @ '', need '' @ dec_of_int amount))
         else Inr chosen)"

section \<open>Delivery\<close>

text \<open>
  What the packages document, for one payload and two secrets: key agreement, the inverse of the
  cipher, its tag, the lengths of keys and digests, and the parser on the text of the payload.
\<close>

definition delivery_laws :: "'a delivery_scheme \<Rightarrow> note_payload \<Rightarrow> bytes \<Rightarrow> bytes \<Rightarrow> bool" where
  "delivery_laws D p sk ephSk \<longleftrightarrow>
     (\<exists>z. dl_shared D ephSk (dl_public D sk) = Some z \<and> dl_shared D sk (dl_public D ephSk) = Some z) \<and>
     (\<forall>k n m. dl_decrypt D k n (dl_encrypt D k n m) = Some m \<and> dl_encrypt D k n m \<noteq> []) \<and>
     length (dl_public D ephSk) = 32 \<and> (\<forall>b. length (sha256 D b) = 32) \<and>
     dl_parse D (dl_text D (payload_json p)) = Some (payload_json p)"

text \<open>A payload as the SDK writes it: the current version, a position, and no asset id of 0.\<close>

definition proper_payload :: "note_payload \<Rightarrow> bool" where
  "proper_payload p \<longleftrightarrow> np_version p = Some NOTE_PAYLOAD_VERSION \<and> np_treePosition p \<noteq> None \<and>
     (np_assetId p = None \<or> asset_given (np_assetId p))"

lemma payload_json_fields:
  "json_field (payload_json p) ''v'' = Some (jnumber (np_version p))"
  "json_field (payload_json p) ''a'' = Some (JStr (dec_of_int (np_amount p)))"
  "json_field (payload_json p) ''b'' = Some (JStr (dec_of_int (np_blinding p)))"
  "json_field (payload_json p) ''s'' = Some (JStr (dec_of_int (np_ownerSk p)))"
  "json_field (payload_json p) ''n'' = Some (JStr (dec_of_int (np_nonce p)))"
  "json_field (payload_json p) ''c'' = Some (JStr (bytesToHexStr (np_commitment p)))"
  "json_field (payload_json p) ''t'' = Some (jnumber (np_treePosition p))"
  "json_field (payload_json p) ''i'' = (if asset_given (np_assetId p) then Some (jnumber (the (np_assetId p))) else None)"
  by (simp_all add: payload_json_def)

lemma js_Number_jnumber: "js_Number (Some (jnumber (Some r))) = Some r"
  by (simp add: js_Number_def jnumber_def)

lemma payload_roundtrip:
  assumes "proper_payload p"
  shows "payload_of_json (payload_json p) = Inr p"
proof -
  obtain r where t: "np_treePosition p = Some r" using assms by (auto simp: proper_payload_def)
  have v: "np_version p = Some NOTE_PAYLOAD_VERSION" using assms by (simp add: proper_payload_def)
  have i: "(case js_nullish (json_field (payload_json p) ''i'') None of None \<Rightarrow> None | Some i \<Rightarrow> Some (js_Number (Some i))) = np_assetId p"
  proof (cases "asset_given (np_assetId p)")
    case True
    then obtain a where a: "np_assetId p = Some (Some a)" by (auto simp: asset_given_def split: option.splits)
    then have "js_nullish (Some (jnumber (Some a))) None = Some (jnumber (Some a))" by (simp add: js_nullish_def jnumber_def)
    then show ?thesis using True a by (simp add: payload_json_fields(8) js_Number_jnumber)
  next
    case False
    then have "np_assetId p = None" using assms by (simp add: proper_payload_def)
    then show ?thesis using False by (simp add: payload_json_fields(8) js_nullish_def)
  qed
  show ?thesis
    unfolding payload_of_json_def i
    unfolding payload_json_fields v t js_Number_jnumber
    by (simp add: json_big_def json_bytes_def hexToBytesArr_bytesToHexStr v [symmetric] t [symmetric])
qed

lemma decode_encode:
  assumes "length (en_ephemeralPublicKey e) = 32" "length (en_nonce e) = 24" "en_ciphertext e \<noteq> []"
  shows "decodeEncryptedNote (encodeEncryptedNote e) = Inr e"
  using assms by (cases e) (simp add: decodeEncryptedNote_def encodeEncryptedNote_def Suc_le_eq)

lemma delivery:
  assumes "delivery_laws D p sk ephSk" "proper_payload p"
  shows "\<exists>e. encryptNote D p (dl_public D sk) ephSk = Inr e \<and> decodeEncryptedNote (encodeEncryptedNote e) = Inr e
    \<and> tryDecryptNote D e sk = Some p"
proof -
  obtain z where z: "dl_shared D ephSk (dl_public D sk) = Some z" "dl_shared D sk (dl_public D ephSk) = Some z"
    using assms(1) by (auto simp: delivery_laws_def)
  have l: "dl_decrypt D k n (dl_encrypt D k n m) = Some m" "dl_encrypt D k n m \<noteq> []"
    "length (dl_public D ephSk) = 32" "length (sha256 D b) = 32" for k n m b
    using assms(1) by (simp_all add: delivery_laws_def)
  have j: "deserialize D (serialize D p) = Inr p"
    using assms by (simp add: deserialize_def serialize_def delivery_laws_def payload_roundtrip)
  have v: "np_version p = Some NOTE_PAYLOAD_VERSION" using assms(2) by (simp add: proper_payload_def)
  show ?thesis
    by (simp add: encryptNote_def Let_def z tryDecryptNote_def l j v decode_encode)
qed

section \<open>Selection\<close>

text \<open>Of a list in falling order, no part of a given size sums to more than the front of that size.\<close>

lemma front_is_largest:
  fixes f :: "'x \<Rightarrow> int"
  assumes "sorted_wrt (\<lambda>a b. f b \<le> f a) xs" "mset ys \<subseteq># mset xs"
  shows "sum_list (map f ys) \<le> sum_list (map f (take (length ys) xs))"
  using assms
proof (induction xs arbitrary: ys)
  case Nil
  then show ?case by simp
next
  case (Cons x xs)
  show ?case
  proof (cases "x \<in> set ys")
    case True
    then obtain us vs where ys: "ys = us @ x # vs" by (auto simp: in_set_conv_decomp)
    then have "mset (us @ vs) \<subseteq># mset xs" using Cons.prems(2) by simp
    then have "sum_list (map f (us @ vs)) \<le> sum_list (map f (take (length (us @ vs)) xs))"
      using Cons.prems(1) by (intro Cons.IH) simp_all
    then show ?thesis by (simp add: ys)
  next
    case False
    then have sub: "mset ys \<subseteq># mset xs" using Cons.prems(2)
      by (metis mset.simps(2) set_mset_mset subset_mset.le_iff_add add_mset_add_single mset_subset_eq_insertD
          diff_single_trivial mset_subset_eq_add_right subset_eq_diff_conv)
    show ?thesis
    proof (cases ys)
      case Nil
      then show ?thesis by simp
    next
      case (Cons y t)
      have "y \<in> set xs" using sub Cons by (metis list.set_intros(1) mset_subset_eqD set_mset_mset)
      then have "f y \<le> f x" using Cons.prems(1) by simp
      moreover have "mset t \<subseteq># mset xs" using sub Cons by (simp add: mset_subset_eq_insertD subset_mset.less_imp_le)
      then have "sum_list (map f t) \<le> sum_list (map f (take (length t) xs))" using Cons.IH Cons.prems(1) by simp
      ultimately show ?thesis using Cons by simp
    qed
  qed
qed

lemma select_loop_front:
  "\<exists>k. select_loop amount ns chosen got = (chosen @ take k ns, got + sum_list (map np_amount (take k ns))) \<and>
    k \<le> length ns \<and>
    (amount \<le> got + sum_list (map np_amount (take k ns)) \<or> k = length ns) \<and>
    (\<forall>i < k. got + sum_list (map np_amount (take i ns)) < amount)"
proof (induction ns arbitrary: chosen got)
  case Nil
  show ?case by simp
next
  case (Cons n ns)
  show ?case
  proof (cases "amount \<le> got")
    case True
    then show ?thesis by (intro exI [of _ 0]) simp
  next
    case False
    obtain k where k: "select_loop amount ns (chosen @ [n]) (got + np_amount n) =
        ((chosen @ [n]) @ take k ns, got + np_amount n + sum_list (map np_amount (take k ns)))" "k \<le> length ns"
      "amount \<le> got + np_amount n + sum_list (map np_amount (take k ns)) \<or> k = length ns"
      "\<forall>i < k. got + np_amount n + sum_list (map np_amount (take i ns)) < amount"
      using Cons.IH [of "chosen @ [n]" "got + np_amount n"] by blast
    have "got + sum_list (map np_amount (take i (n # ns))) < amount" if "i < Suc k" for i
      using that False k(4) by (cases i) (auto simp: add.assoc)
    then show ?thesis using False k by (intro exI [of _ "Suc k"]) (auto simp: add.assoc)
  qed
qed

definition total_of :: "owned_note list \<Rightarrow> int" where
  "total_of ns = sum_list (map np_amount ns)"

lemma select_front:
  assumes "\<forall>n \<in> set (scanner_notes s). 0 \<le> np_amount n"
  shows "if scanner_balance s < amount then \<exists>e. select_notes amount s = Inl e
    else \<exists>k. select_notes amount s = Inr (take k (sort_key (\<lambda>n. - np_amount n) (scanner_notes s)))
      \<and> amount \<le> total_of (take k (sort_key (\<lambda>n. - np_amount n) (scanner_notes s)))
      \<and> (\<forall>i < k. total_of (take i (sort_key (\<lambda>n. - np_amount n) (scanner_notes s))) < amount)
      \<and> k \<le> length (sort_key (\<lambda>n. - np_amount n) (scanner_notes s))"
proof -
  let ?av = "sort_key (\<lambda>n. - np_amount n) (scanner_notes s)"
  obtain k where k: "select_loop amount ?av [] 0 = (take k ?av, total_of (take k ?av))" "k \<le> length ?av"
    "amount \<le> total_of (take k ?av) \<or> k = length ?av" "\<forall>i < k. total_of (take i ?av) < amount"
    using select_loop_front [of amount ?av "[]" 0] by (auto simp: total_of_def)
  have "mset (map np_amount ?av) = mset (map np_amount (scanner_notes s))" by simp
  then have all: "total_of ?av = scanner_balance s"
    unfolding total_of_def scanner_balance_def by (metis sum_mset_sum_list)
  have "total_of (take k ?av) + total_of (drop k ?av) = total_of ?av"
    unfolding total_of_def by (metis append_take_drop_id map_append sum_list_append)
  moreover have "0 \<le> total_of (drop k ?av)"
    unfolding total_of_def using assms by (intro sum_list_nonneg) (auto dest: in_set_dropD)
  ultimately have le: "total_of (take k ?av) \<le> scanner_balance s" using all by simp
  show ?thesis
  proof (cases "scanner_balance s < amount")
    case True
    then show ?thesis using k(1) le by (simp add: select_notes_def)
  next
    case False
    then have "amount \<le> total_of (take k ?av)" using k(3) all by auto
    then show ?thesis using False k by (auto simp: select_notes_def)
  qed
qed

section \<open>Scanning\<close>

text \<open>The positions of a run of notes, and what is owned after it.\<close>

definition positioned :: "nat \<Rightarrow> published_note list \<Rightarrow> bool" where
  "positioned k ns \<longleftrightarrow> (\<forall>i < length ns. pn_leafIndex (ns ! i) = int (k + i))"

lemma positioned_Cons: "positioned k (n # ns) \<longleftrightarrow> pn_leafIndex n = int k \<and> positioned (Suc k) ns"
  unfolding positioned_def by (auto simp: less_Suc_eq_0_disj)

definition owned_ok :: "bytes list \<Rightarrow> scanner \<Rightarrow> bool" where
  "owned_ok cs s \<longleftrightarrow> (\<forall>h n. jm_get (sn_owned s) h = Some n \<longrightarrow>
     0 \<le> on_leafIndex n \<and> nat (on_leafIndex n) < length cs \<and> bytesToHexStr (cs ! nat (on_leafIndex n)) = h)"

lemma owned_ok_append: "owned_ok cs s \<Longrightarrow> owned_ok (cs @ ds) s"
  unfolding owned_ok_def by (fastforce simp: nth_append)

lemma scanner_decrypt_viewing:
  "sn_viewing s = sn_viewing s' \<Longrightarrow> scanner_decrypt D n s = scanner_decrypt D n s'"
  by (simp add: scanner_decrypt_def split: sum.split)

lemma scan_notes_run:
  assumes "sn_tree s = tree_of p TREE_DEPTH cs" "length cs + length ns \<le> 2 ^ TREE_DEPTH"
    "positioned (length cs) ns" "owned_ok cs s"
  shows "\<exists>f s'. scan_notes p D ns found s = (Inr f, s') \<and> sn_tree s' = tree_of p TREE_DEPTH (cs @ map pn_commitment ns)
    \<and> owned_ok (cs @ map pn_commitment ns) s' \<and> sn_viewing s' = sn_viewing s
    \<and> (\<forall>h. jm_get (sn_owned s) h \<noteq> None \<longrightarrow> jm_get (sn_owned s') h \<noteq> None)
    \<and> (\<forall>n \<in> set ns. scanner_decrypt D n s \<noteq> None \<longrightarrow> jm_get (sn_owned s') (bytesToHexStr (pn_commitment n)) \<noteq> None)"
  using assms
proof (induction ns arbitrary: s cs found)
  case Nil
  then show ?case by simp
next
  case (Cons n ns)
  have le: "length cs \<le> 2 ^ TREE_DEPTH" "length cs < 2 ^ TREE_DEPTH" using Cons.prems(2) by simp_all
  have inv: "tree_inv p TREE_DEPTH (tree_of p TREE_DEPTH cs)" using tree_of_inv(1) [OF le(1)] .
  have ins: "tree_insert p (pn_commitment n) (sn_tree s) = Inr (length cs, tree_of p TREE_DEPTH (cs @ [pn_commitment n]))"
    using tree_append_insert [OF inv] tree_of_count [OF le(1), of p] le(2) Cons.prems(1) by (simp add: tree_of_def)
  have leaf: "pn_leafIndex n = int (length cs)" "positioned (length (cs @ [pn_commitment n])) ns"
    using Cons.prems(3) by (simp_all add: positioned_Cons)
  let ?s1 = "s\<lparr>sn_tree := tree_of p TREE_DEPTH (cs @ [pn_commitment n]), sn_nextIndex := pn_leafIndex n + 1\<rparr>"
  have o1: "owned_ok (cs @ [pn_commitment n]) ?s1"
    using owned_ok_append [OF Cons.prems(4), of "[pn_commitment n]"] by (simp add: owned_ok_def)
  have step: "\<exists>f s'. scan_notes p D ns found' s2 = (Inr f, s')
      \<and> sn_tree s' = tree_of p TREE_DEPTH (cs @ map pn_commitment (n # ns))
      \<and> owned_ok (cs @ map pn_commitment (n # ns)) s' \<and> sn_viewing s' = sn_viewing s
      \<and> (\<forall>h. jm_get (sn_owned s2) h \<noteq> None \<longrightarrow> jm_get (sn_owned s') h \<noteq> None)
      \<and> (\<forall>n \<in> set ns. scanner_decrypt D n s \<noteq> None \<longrightarrow> jm_get (sn_owned s') (bytesToHexStr (pn_commitment n)) \<noteq> None)"
    if "sn_tree s2 = tree_of p TREE_DEPTH (cs @ [pn_commitment n])" "owned_ok (cs @ [pn_commitment n]) s2"
      "sn_viewing s2 = sn_viewing s" for s2 found'
    using Cons.IH [of s2 "cs @ [pn_commitment n]" found'] that Cons.prems(2) leaf(2)
      scanner_decrypt_viewing [OF that(3), of D] by simp
  have dec: "scanner_decrypt D n ?s1 = scanner_decrypt D n s" by (rule scanner_decrypt_viewing) simp
  show ?case
  proof (cases "scanner_decrypt D n s")
    case None
    then show ?thesis using step [of ?s1 found] o1 ins dec by (simp add: Let_def)
  next
    case (Some payload)
    let ?s2 = "?s1\<lparr>sn_owned := jm_set (bytesToHexStr (pn_commitment n)) (owned_of n payload) (sn_owned ?s1)\<rparr>"
    have "owned_ok (cs @ [pn_commitment n]) ?s2"
      using o1 leaf(1) by (auto simp: owned_ok_def owned_of_def note_payload.extend_def)
    then show ?thesis using step [of ?s2 "found + 1"] ins dec Some by (auto simp: Let_def)
  qed
qed

lemma refresh_owned:
  "jm_get (sn_owned (refreshSpent nf nulls s)) h =
     map_option (\<lambda>n. if \<not> on_spent n \<and> (case nf n of None \<Rightarrow> False | Some f \<Rightarrow> bytesToHexStr f \<in> set (map bytesToHexStr nulls))
       then n\<lparr>on_spent := True\<rparr> else n) (jm_get (sn_owned s) h)"
  unfolding refreshSpent_def by (simp add: map_of_map)

lemma refresh_tree [simp]: "sn_tree (refreshSpent nf nulls s) = sn_tree s"
  by (simp add: refreshSpent_def)

section \<open>Properties\<close>

text \<open>C29: A note reaches its receiver: with keys that agree, a cipher that decrypts what it encrypts and a
  parser that reads the text of the payload back, encrypting a note for a viewing key succeeds, its wire form
  decodes to the same encrypted note, and trial decryption with the viewing secret gives exactly the payload
  that was sent: version, amount, blinding, secret, nonce, commitment, position and asset.\<close>

theorem delivery_roundtrip:
  assumes "delivery_laws D p sk ephSk" "proper_payload p"
  shows "\<exists>e. encryptNote D p (vk_publicKey (generateViewingKeyPair D sk)) ephSk = Inr e
    \<and> decodeEncryptedNote (encodeEncryptedNote e) = Inr e \<and> tryDecryptNote D e sk = Some p"
  using delivery [OF assms] by (simp add: generateViewingKeyPair_def)

definition demo_payload :: note_payload where
  "demo_payload = \<lparr>np_version = Some 1, np_amount = 250, np_blinding = 77, np_ownerSk = 5, np_nonce = 3,
     np_commitment = replicate 32 6, np_treePosition = Some 0, np_assetId = Some (Some 2)\<rparr>"

definition demo_delivery :: delivery where
  "demo_delivery = \<lparr>keccak256 = (\<lambda>b. b), sha256 = (\<lambda>b. replicate 32 7), serializeCV = (\<lambda>_. Inr [1]),
     dl_public = (\<lambda>s. replicate 32 (hd s)), dl_shared = (\<lambda>s p. Some [hd s * hd p]),
     dl_encrypt = (\<lambda>k n m. 0 # m), dl_decrypt = (\<lambda>k n c. Some (tl c)),
     dl_text = (\<lambda>j. [1]), dl_parse = (\<lambda>b. Some (payload_json demo_payload))\<rparr>"

lemma demo_delivery_laws: "delivery_laws demo_delivery demo_payload [2] [3]" "proper_payload demo_payload"
  by (simp_all add: delivery_laws_def demo_delivery_def proper_payload_def demo_payload_def NOTE_PAYLOAD_VERSION_def asset_given_def)

lemma delivery_roundtrip_witness:
  "\<exists>e. encryptNote demo_delivery demo_payload (vk_publicKey (generateViewingKeyPair demo_delivery [2])) [3] = Inr e
    \<and> tryDecryptNote demo_delivery e [2] = Some demo_payload"
  using delivery_roundtrip [OF demo_delivery_laws] by blast

text \<open>C30: The scanner's membership proofs verify: after one sync of a fresh scanner over published notes with
  32-byte commitments and the leaf indices 0, 1, 2, ..., every note that decrypts has a proof, for its own
  commitment and against the root of the whole tree, that \<open>verifyMerkleProof\<close> accepts, wherever its payload
  claims to be.\<close>

theorem scanned_notes_have_proofs:
  assumes "cs_notes src 0 = Inr ns" "cs_nullifiers src = Inr nulls" "positioned 0 ns"
    and "length ns \<le> 2 ^ TREE_DEPTH" "\<forall>n \<in> set ns. length (pn_commitment n) = 32"
    and "n \<in> set ns" "scanner_decrypt D n (new_NoteScanner p viewing None) \<noteq> None"
  shows "\<exists>found s' pr. scanner_sync p D nf src (new_NoteScanner p viewing None) = (Inr (length ns, found), s')
    \<and> proofFor (pn_commitment n) s' = Inr pr \<and> mp_leaf pr = pn_commitment n
    \<and> mp_root pr = tree_root (tree_of p TREE_DEPTH (map pn_commitment ns)) \<and> verifyMerkleProof p pr"
proof -
  let ?s = "new_NoteScanner p viewing None" and ?cs = "map pn_commitment ns"
  have "sn_tree ?s = tree_of p TREE_DEPTH []" by (simp add: new_NoteScanner_def tree_of_def)
  moreover have "owned_ok [] ?s" by (simp add: owned_ok_def new_NoteScanner_def)
  ultimately obtain f s1 where r: "scan_notes p D ns 0 ?s = (Inr f, s1)" "sn_tree s1 = tree_of p TREE_DEPTH ?cs"
    "owned_ok ?cs s1" "jm_get (sn_owned s1) (bytesToHexStr (pn_commitment n)) \<noteq> None"
    using scan_notes_run [of ?s p "[]" ns D 0] assms(3,4,6,7) by auto
  let ?s' = "refreshSpent nf nulls s1"
  obtain o1 where o1: "jm_get (sn_owned s1) (bytesToHexStr (pn_commitment n)) = Some o1" using r(4) by blast
  have i: "0 \<le> on_leafIndex o1" "nat (on_leafIndex o1) < length ?cs" "?cs ! nat (on_leafIndex o1) = pn_commitment n"
  proof -
    have "0 \<le> on_leafIndex o1 \<and> nat (on_leafIndex o1) < length ?cs \<and>
        bytesToHexStr (?cs ! nat (on_leafIndex o1)) = bytesToHexStr (pn_commitment n)"
      using r(3) o1 unfolding owned_ok_def by blast
    then show "0 \<le> on_leafIndex o1" "nat (on_leafIndex o1) < length ?cs" "?cs ! nat (on_leafIndex o1) = pn_commitment n"
      by (simp_all only: bytesToHexStr_inj)
  qed
  have m: "0 \<le> on_leafIndex o1 \<and> on_leafIndex o1 < int (length ?cs)" using i by (simp add: nat_less_iff)
  have len: "length ?cs \<le> 2 ^ TREE_DEPTH" "\<forall>c \<in> set ?cs. length c = 32" using assms(4,5) by simp_all
  obtain pr where pr: "tree_proof (on_leafIndex o1) (tree_of p TREE_DEPTH ?cs) = Inr pr" "mp_leaf pr = pn_commitment n"
    "mp_root pr = tree_root (tree_of p TREE_DEPTH ?cs)" "verifyMerkleProof p pr"
    using member_proof_verifies [OF len, of "on_leafIndex o1" p] m i(3) by auto
  have "proofFor (pn_commitment n) ?s' = Inr pr"
    using o1 pr(1) r(2) by (simp add: proofFor_def refresh_owned)
  moreover have "scanner_sync p D nf src ?s = (Inr (length ns, f), ?s')"
    using assms(1,2) r(1) by (simp add: scanner_sync_def new_NoteScanner_def)
  ultimately show ?thesis using pr by blast
qed

definition demo_published :: "published_note list" where
  "demo_published = [\<lparr>pn_commitment = replicate 32 4, pn_leafIndex = 0, pn_payload = []\<rparr>,
     \<lparr>pn_commitment = replicate 32 6, pn_leafIndex = 1, pn_payload = replicate 58 0\<rparr>]"

definition demo_source :: chain_source where
  "demo_source = \<lparr>cs_notes = (\<lambda>_. Inr demo_published), cs_nullifiers = Inr []\<rparr>"

definition demo_viewing :: viewing_key_pair where
  "demo_viewing = generateViewingKeyPair demo_delivery [2]"

lemma scanned_notes_have_proofs_witness:
  "\<exists>found s' pr. scanner_sync (\<lambda>a b. a + 2 * b) demo_delivery (\<lambda>_. None) demo_source
       (new_NoteScanner (\<lambda>a b. a + 2 * b) demo_viewing None) = (Inr (2, found), s')
    \<and> proofFor (replicate 32 6) s' = Inr pr \<and> verifyMerkleProof (\<lambda>a b. a + 2 * b) pr"
proof -
  let ?n = "\<lparr>pn_commitment = replicate 32 6, pn_leafIndex = 1, pn_payload = replicate 58 0\<rparr>"
  have p: "payload_of_json (payload_json demo_payload) = Inr demo_payload"
    by (rule payload_roundtrip [OF demo_delivery_laws(2)])
  have d: "scanner_decrypt demo_delivery ?n (new_NoteScanner (\<lambda>a b. a + 2 * b) demo_viewing None) \<noteq> None"
    using p by (simp add: scanner_decrypt_def decodeEncryptedNote_def tryDecryptNote_def demo_delivery_def deserialize_def
        demo_payload_def NOTE_PAYLOAD_VERSION_def)
  have pos: "positioned 0 demo_published" by (simp add: demo_published_def positioned_Cons) (simp add: positioned_def)
  have "\<exists>found s' pr. scanner_sync (\<lambda>a b. a + 2 * b) demo_delivery (\<lambda>_. None) demo_source
       (new_NoteScanner (\<lambda>a b. a + 2 * b) demo_viewing None) = (Inr (length demo_published, found), s')
    \<and> proofFor (pn_commitment ?n) s' = Inr pr \<and> mp_leaf pr = pn_commitment ?n
    \<and> mp_root pr = tree_root (tree_of (\<lambda>a b. a + 2 * b) TREE_DEPTH (map pn_commitment demo_published))
    \<and> verifyMerkleProof (\<lambda>a b. a + 2 * b) pr"
    by (rule scanned_notes_have_proofs [OF _ _ pos _ _ _ d])
       (simp_all add: demo_source_def demo_published_def TREE_DEPTH_def)
  then show ?thesis by (auto simp: demo_published_def)
qed

text \<open>Note selection covers the amount with as few notes as possible: with amounts that are not negative,
  it fails exactly when the balance is smaller than the amount; otherwise the chosen notes are unspent notes,
  cover the amount, fall short of it without the last one, and no choice of fewer unspent notes covers it.\<close>

theorem selection_is_minimal:
  assumes "\<forall>n \<in> set (scanner_notes s). 0 \<le> np_amount n"
  shows "if scanner_balance s < amount then \<exists>e. select_notes amount s = Inl e
    else \<exists>chosen. select_notes amount s = Inr chosen \<and> mset chosen \<subseteq># mset (scanner_notes s) \<and> amount \<le> total_of chosen
      \<and> (chosen \<noteq> [] \<longrightarrow> total_of (butlast chosen) < amount)
      \<and> (\<forall>ys. mset ys \<subseteq># mset (scanner_notes s) \<and> amount \<le> total_of ys \<longrightarrow> length chosen \<le> length ys)"
proof (cases "scanner_balance s < amount")
  case True
  then show ?thesis using select_front [OF assms, of amount] by simp
next
  case False
  let ?av = "sort_key (\<lambda>n. - np_amount n) (scanner_notes s)"
  obtain k where k: "select_notes amount s = Inr (take k ?av)" "amount \<le> total_of (take k ?av)"
    "\<forall>i < k. total_of (take i ?av) < amount" "k \<le> length ?av"
    using select_front [OF assms, of amount] False by auto
  have "sorted (map (\<lambda>n. - np_amount n) ?av)" by simp
  then have srt: "sorted_wrt (\<lambda>a b. np_amount b \<le> np_amount a) ?av" by (simp add: sorted_map)
  have "mset (take k ?av) + mset (drop k ?av) = mset ?av" by (metis append_take_drop_id mset_append)
  then have sub: "mset (take k ?av) \<subseteq># mset (scanner_notes s)" by (metis mset_sort mset_subset_eq_add_left)
  have fewer: "k \<le> length ys" if ys: "mset ys \<subseteq># mset (scanner_notes s)" "amount \<le> total_of ys" for ys
  proof (rule ccontr)
    assume "\<not> k \<le> length ys"
    then have "total_of (take (length ys) ?av) < amount" using k(3) by simp
    moreover have "mset ys \<subseteq># mset ?av" using ys(1) by simp
    then have "total_of ys \<le> total_of (take (length ys) ?av)"
      unfolding total_of_def using front_is_largest [OF srt] by simp
    ultimately show False using ys(2) by simp
  qed
  have "total_of (butlast (take k ?av)) < amount" if "take k ?av \<noteq> []"
    using k(3,4) that by (simp add: butlast_take)
  then show ?thesis using False k sub fewer by auto
qed

definition demo_owned :: "int \<Rightarrow> owned_note" where
  "demo_owned a = note_payload.extend (demo_payload\<lparr>np_amount := a\<rparr>) \<lparr>on_leafIndex = 0, on_spent = False\<rparr>"

definition demo_wallet :: scanner where
  "demo_wallet = (new_NoteScanner (\<lambda>a b. a + 2 * b) demo_viewing None)
     \<lparr>sn_owned := [(''a'', demo_owned 3), (''b'', demo_owned 10), (''c'', demo_owned 4)]\<rparr>"

lemma selection_is_minimal_witness:
  "\<exists>chosen. select_notes 12 demo_wallet = Inr chosen \<and> 12 \<le> total_of chosen
     \<and> (\<forall>ys. mset ys \<subseteq># mset (scanner_notes demo_wallet) \<and> 12 \<le> total_of ys \<longrightarrow> length chosen \<le> length ys)"
proof -
  have n: "scanner_notes demo_wallet = [demo_owned 3, demo_owned 10, demo_owned 4]"
    by (simp add: scanner_notes_def demo_wallet_def demo_owned_def note_payload.extend_def)
  have a: "np_amount (demo_owned x) = x" for x by (simp add: demo_owned_def note_payload.extend_def)
  have "\<forall>n \<in> set (scanner_notes demo_wallet). 0 \<le> np_amount n" by (simp add: n a)
  moreover have "\<not> scanner_balance demo_wallet < 12" by (simp add: scanner_balance_def n a)
  ultimately show ?thesis using selection_is_minimal [of demo_wallet 12] by auto
qed

end
