(* ===== verification/NoteVault.thy ===== *)
theory NoteVault
  imports SdkAssets NoteScanner
begin

text \<open>
  Notes on the client, \<open>sdk/src\<close>: shield addresses, the in-memory note store and the discovery of
  notes in the API's feed (\<open>notes/index.ts\<close>), and the two vaults that keep a wallet's notes
  (\<open>vault.ts\<close>). What a browser stores is the text of a list of notes; the model keeps the list. A
  storage may be missing, or refuse a write.
\<close>

section \<open>Addresses\<close>

record shield_address =
  sa_ownerPkX :: int
  sa_ownerPkY :: int
  sa_viewingPk :: bytes

definition encodeAddress :: "shield_address \<Rightarrow> string" where
  "encodeAddress a = ''stxsh1'' @ drop 2 (toHex32 (sa_ownerPkX a)) @ drop 2 (toHex32 (sa_ownerPkY a)) @ bytesToHex (sa_viewingPk a)"

definition decodeAddress :: "string \<Rightarrow> (js_error, shield_address) result" where
  "decodeAddress s =
     (if \<not> js_startsWith s ''stxsh1'' then Inl (JsError ''not a Stacks Shield address'')
      else
        (let body = drop 6 s in
         if length body \<noteq> 64 + 64 + 64 then Inl (JsError ''malformed Stacks Shield address'')
         else
           rbind (bigInt0x (take 64 body)) (\<lambda>x.
           rbind (bigInt0x (take 64 (drop 64 body))) (\<lambda>y.
             Inr \<lparr>sa_ownerPkX = x, sa_ownerPkY = y, sa_viewingPk = hexToBytes (drop 128 body)\<rparr>))))"

definition viewingKeyFromSecret :: "'a delivery_scheme \<Rightarrow> bytes \<Rightarrow> viewing_key_pair" where
  "viewingKeyFromSecret D secret =
     generateViewingKeyPair D (sha256 D (secret @ map (\<lambda>c. of_nat (of_char c)) ''stx-shield-viewing''))"

section \<open>The note store\<close>

record shield_note =
  sh_commitment :: string
  sh_ciphertext :: string
  sh_root :: string
  sh_txid :: string
  sh_amount :: int
  sh_asset :: "asset_info option"
  sh_spent :: bool
  sh_status :: "string option"
  sh_secret :: note_secret

type_synonym note_store = "(string, shield_note) jsmap"

definition store_add :: "shield_note \<Rightarrow> note_store \<Rightarrow> note_store" where
  "store_add n s =
     (let spent = (sh_spent n \<or> (case jm_get s (sh_commitment n) of Some prev \<Rightarrow> sh_spent prev | None \<Rightarrow> False))
      in jm_set (sh_commitment n) (if spent = sh_spent n then n else n\<lparr>sh_spent := spent\<rparr>) s)"

definition store_markSpent :: "string \<Rightarrow> note_store \<Rightarrow> note_store" where
  "store_markSpent c s = (case jm_get s c of None \<Rightarrow> s | Some n \<Rightarrow> jm_set c (n\<lparr>sh_spent := True\<rparr>) s)"

definition store_remove :: "string \<Rightarrow> note_store \<Rightarrow> note_store" where
  "store_remove c s = jm_del c s"

definition store_unspent :: "note_store \<Rightarrow> shield_note list" where
  "store_unspent s = filter (\<lambda>n. \<not> sh_spent n) (jm_values s)"

section \<open>Discovery\<close>

record note_record =
  nr_commitment :: string
  nr_ciphertext :: "string option"
  nr_root :: string
  nr_txid :: string
  nr_spent :: bool
  nr_status :: "string option"

definition normalize_hex :: "string \<Rightarrow> string" where
  "normalize_hex h = (if js_startsWith h ''0x'' then h else ''0x'' @ h)"

text \<open>\<open>byId.get(id)\<close> of a map built from the assets in order: the last asset with the id.\<close>

definition asset_by_id :: "asset_info list \<Rightarrow> js_number \<Rightarrow> asset_info option" where
  "asset_by_id assets v = (case v of None \<Rightarrow> None | Some r \<Rightarrow> find (\<lambda>a. as_id a = r) (rev assets))"

definition decrypt_record :: "'a delivery_scheme \<Rightarrow> bytes \<Rightarrow> note_record \<Rightarrow> note_payload option" where
  "decrypt_record D viewingSk r =
     (case nr_ciphertext r of
        None \<Rightarrow> None
      | Some c \<Rightarrow>
          if c = [] then None
          else (case decodeEncryptedNote (hexToBytes (strip0x c)) of
                  Inl _ \<Rightarrow> None
                | Inr e \<Rightarrow> tryDecryptNote D e viewingSk))"

text \<open>The note of one record: \<open>Inr None\<close> when it is skipped. A position is a whole number.\<close>

definition discover_one ::
  "poseidon \<Rightarrow> 'a delivery_scheme \<Rightarrow> bytes \<Rightarrow> owner_key \<Rightarrow> asset_info list \<Rightarrow> note_record \<Rightarrow>
   (js_error, shield_note option) result" where
  "discover_one P D viewingSk own assets r =
     (case decrypt_record D viewingSk r of
        None \<Rightarrow> Inr None
      | Some payload \<Rightarrow>
          (let given = asset_given (np_assetId payload);
               asset = (if given then asset_by_id assets (the (np_assetId payload)) else None)
           in if given \<and> asset = None then Inr None
              else
                rbind (case asset of Some a \<Rightarrow> assetFieldFor (crypto.truncate D) a | None \<Rightarrow> Inr None) (\<lambda>assetField.
                  let secret = \<lparr>sec_ownerSk = ok_sk own, sec_ownerPkX = ok_pkX own, sec_ownerPkY = ok_pkY own,
                        sec_blinding = np_blinding payload, sec_leafIndex = map_option floor (np_treePosition payload),
                        sec_assetId = (case asset of Some a \<Rightarrow> if as_native a then None else Some (as_id a) | None \<Rightarrow> None),
                        sec_assetField = assetField\<rparr>
                  in if toHex32 (commitmentOfSecret P (np_amount payload) secret) \<noteq> normalize_hex (nr_commitment r)
                     then Inr None
                     else Inr (Some \<lparr>sh_commitment = nr_commitment r, sh_ciphertext = the (nr_ciphertext r),
                            sh_root = nr_root r, sh_txid = nr_txid r, sh_amount = np_amount payload, sh_asset = asset,
                            sh_spent = nr_spent r, sh_status = nr_status r, sh_secret = secret\<rparr>))))"

fun discoverNotes ::
  "poseidon \<Rightarrow> 'a delivery_scheme \<Rightarrow> bytes \<Rightarrow> owner_key \<Rightarrow> asset_info list \<Rightarrow> note_record list \<Rightarrow>
   (js_error, shield_note list) result" where
  "discoverNotes P D viewingSk own assets [] = Inr []"
| "discoverNotes P D viewingSk own assets (r # rs) =
     rbind (discover_one P D viewingSk own assets r) (\<lambda>n.
     rbind (discoverNotes P D viewingSk own assets rs) (\<lambda>ns.
       Inr (case n of None \<Rightarrow> ns | Some x \<Rightarrow> x # ns)))"

section \<open>Vaults\<close>

record persisted_note =
  pv_commitment :: string
  pv_ciphertext :: string
  pv_root :: string
  pv_txid :: string
  pv_leafIndex :: "int option"
  pv_assetId :: "rat option"
  pv_spent :: bool

text \<open>A browser's storage: \<open>None\<close> when nothing readable is stored. A write may be refused.\<close>

record browser_storage =
  bs_item :: "persisted_note list option"
  bs_writable :: bool

definition local_read :: "browser_storage \<Rightarrow> persisted_note list" where
  "local_read b = (case bs_item b of Some ns \<Rightarrow> ns | None \<Rightarrow> [])"

definition local_write :: "persisted_note list \<Rightarrow> browser_storage \<Rightarrow> browser_storage" where
  "local_write ns b = (if bs_writable b then b\<lparr>bs_item := Some ns\<rparr> else b)"

definition local_put :: "persisted_note \<Rightarrow> browser_storage \<Rightarrow> browser_storage" where
  "local_put n b = local_write (filter (\<lambda>m. pv_commitment m \<noteq> pv_commitment n) (local_read b) @ [n]) b"

definition local_setSpent :: "string \<Rightarrow> browser_storage \<Rightarrow> browser_storage" where
  "local_setSpent c b =
     local_write (map (\<lambda>n. if pv_commitment n = c then n\<lparr>pv_spent := True\<rparr> else n) (local_read b)) b"

definition local_remove :: "string \<Rightarrow> browser_storage \<Rightarrow> browser_storage" where
  "local_remove c b = local_write (filter (\<lambda>n. pv_commitment n \<noteq> c) (local_read b)) b"

type_synonym memory_vault = "(string, persisted_note) jsmap"

definition memory_put :: "persisted_note \<Rightarrow> memory_vault \<Rightarrow> memory_vault" where
  "memory_put n m = jm_set (pv_commitment n) n m"

definition memory_all :: "memory_vault \<Rightarrow> persisted_note list" where
  "memory_all m = jm_values m"

definition memory_setSpent :: "string \<Rightarrow> memory_vault \<Rightarrow> memory_vault" where
  "memory_setSpent c m = (case jm_get m c of None \<Rightarrow> m | Some n \<Rightarrow> jm_set c (n\<lparr>pv_spent := True\<rparr>) m)"

definition memory_remove :: "string \<Rightarrow> memory_vault \<Rightarrow> memory_vault" where
  "memory_remove c m = jm_del c m"

section \<open>The contract of a vault\<close>

text \<open>
  A vault is a map from commitments to notes, whatever it is made of: \<open>contents\<close> reads the map,
  \<open>ok\<close> says the vault takes writes. The two vaults of the SDK are interpretations.
\<close>

datatype vault_op = VPut persisted_note | VSetSpent string | VRemove string

fun vault_step ::
  "(persisted_note \<Rightarrow> 's \<Rightarrow> 's) \<Rightarrow> (string \<Rightarrow> 's \<Rightarrow> 's) \<Rightarrow> (string \<Rightarrow> 's \<Rightarrow> 's) \<Rightarrow> vault_op \<Rightarrow> 's \<Rightarrow> 's" where
  "vault_step put setSpent remove (VPut n) s = put n s"
| "vault_step put setSpent remove (VSetSpent c) s = setSpent c s"
| "vault_step put setSpent remove (VRemove c) s = remove c s"

fun spec_step :: "vault_op \<Rightarrow> (string \<rightharpoonup> persisted_note) \<Rightarrow> (string \<rightharpoonup> persisted_note)" where
  "spec_step (VPut n) m = m(pv_commitment n \<mapsto> n)"
| "spec_step (VSetSpent c) m = m(c := map_option (\<lambda>n. n\<lparr>pv_spent := True\<rparr>) (m c))"
| "spec_step (VRemove c) m = m(c := None)"

locale note_vault =
  fixes ok :: "'s \<Rightarrow> bool"
    and contents :: "'s \<Rightarrow> string \<rightharpoonup> persisted_note"
    and put :: "persisted_note \<Rightarrow> 's \<Rightarrow> 's"
    and setSpent :: "string \<Rightarrow> 's \<Rightarrow> 's"
    and remove :: "string \<Rightarrow> 's \<Rightarrow> 's"
  assumes put_law: "ok s \<Longrightarrow> ok (put n s) \<and> contents (put n s) = (contents s)(pv_commitment n \<mapsto> n)"
    and setSpent_law: "ok s \<Longrightarrow> ok (setSpent c s) \<and>
      contents (setSpent c s) = (contents s)(c := map_option (\<lambda>n. n\<lparr>pv_spent := True\<rparr>) (contents s c))"
    and remove_law: "ok s \<Longrightarrow> ok (remove c s) \<and> contents (remove c s) = (contents s)(c := None)"
begin

lemma step_law:
  "ok s \<Longrightarrow> ok (vault_step put setSpent remove x s) \<and> contents (vault_step put setSpent remove x s) = spec_step x (contents s)"
  by (cases x) (simp_all add: put_law setSpent_law remove_law)

lemma run_law:
  "ok s \<Longrightarrow> ok (fold (vault_step put setSpent remove) xs s) \<and>
     contents (fold (vault_step put setSpent remove) xs s) = fold spec_step xs (contents s)"
  by (induction xs arbitrary: s) (simp_all add: step_law)

end

definition local_contents :: "browser_storage \<Rightarrow> string \<rightharpoonup> persisted_note" where
  "local_contents b = map_of (map (\<lambda>n. (pv_commitment n, n)) (local_read b))"

lemma local_read_write [simp]: "bs_writable b \<Longrightarrow> local_read (local_write ns b) = ns"
  by (simp add: local_read_def local_write_def)

lemma local_writable [simp]: "bs_writable (local_write ns b) = bs_writable b"
  by (simp add: local_write_def)

lemma find_filtered:
  "map_of (map (\<lambda>n. (pv_commitment n, n)) (filter (\<lambda>n. pv_commitment n \<noteq> c) ns)) =
     (map_of (map (\<lambda>n. (pv_commitment n, n)) ns))(c := None)"
  by (induction ns) (auto simp: fun_eq_iff)

lemma find_spent:
  "map_of (map (\<lambda>n. (pv_commitment n, n)) (map (\<lambda>n. if pv_commitment n = c then n\<lparr>pv_spent := True\<rparr> else n) ns)) =
     (map_of (map (\<lambda>n. (pv_commitment n, n)) ns))
       (c := map_option (\<lambda>n. n\<lparr>pv_spent := True\<rparr>) (map_of (map (\<lambda>n. (pv_commitment n, n)) ns) c))"
  by (induction ns) (auto simp: fun_eq_iff)

interpretation local_vault: note_vault bs_writable local_contents local_put local_setSpent local_remove
proof
  show "bs_writable (local_put n b) \<and> local_contents (local_put n b) = (local_contents b)(pv_commitment n \<mapsto> n)"
    if "bs_writable b" for n b
    using that by (auto simp: local_put_def local_contents_def map_of_append find_filtered fun_eq_iff map_add_def split: option.split)
  show "bs_writable (local_setSpent c b) \<and>
      local_contents (local_setSpent c b) = (local_contents b)(c := map_option (\<lambda>n. n\<lparr>pv_spent := True\<rparr>) (local_contents b c))"
    if "bs_writable b" for c b
    using that find_spent [of c "local_read b"] by (simp add: local_setSpent_def local_contents_def)
  show "bs_writable (local_remove c b) \<and> local_contents (local_remove c b) = (local_contents b)(c := None)"
    if "bs_writable b" for c b
    using that by (simp add: local_remove_def local_contents_def find_filtered)
qed

interpretation memory_vault: note_vault "\<lambda>_. True" map_of memory_put memory_setSpent memory_remove
proof
  show "True \<and> map_of (memory_put n m) = (map_of m)(pv_commitment n \<mapsto> n)" for n m
    by (simp add: memory_put_def fun_eq_iff)
  show "True \<and> map_of (memory_setSpent c m) = (map_of m)(c := map_option (\<lambda>n. n\<lparr>pv_spent := True\<rparr>) (map_of m c))" for c m
    by (cases "jm_get m c") (simp_all add: memory_setSpent_def fun_eq_iff)
  show "True \<and> map_of (memory_remove c m) = (map_of m)(c := None)" for c m
    by (simp add: memory_remove_def fun_eq_iff)
qed

abbreviation local_run :: "vault_op list \<Rightarrow> browser_storage \<Rightarrow> browser_storage" where
  "local_run \<equiv> fold (vault_step local_put local_setSpent local_remove)"

abbreviation memory_run :: "vault_op list \<Rightarrow> memory_vault \<Rightarrow> memory_vault" where
  "memory_run \<equiv> fold (vault_step memory_put memory_setSpent memory_remove)"

definition keys_ok :: "(string \<rightharpoonup> persisted_note) \<Rightarrow> bool" where
  "keys_ok m \<longleftrightarrow> (\<forall>c n. m c = Some n \<longrightarrow> pv_commitment n = c)"

lemma keys_ok_step:
  assumes "keys_ok m"
  shows "keys_ok (spec_step x m)"
  unfolding keys_ok_def
proof (intro allI impI)
  have k: "pv_commitment n = c" if "m c = Some n" for c n using assms that unfolding keys_ok_def by blast
  fix c n assume a: "spec_step x m c = Some n"
  show "pv_commitment n = c"
  proof (cases x)
    case (VPut y)
    then show ?thesis using a k [of c n] by (cases "c = pv_commitment y") simp_all
  next
    case (VSetSpent e)
    show ?thesis
    proof (cases "c = e")
      case True
      then obtain z where "m c = Some z" "n = z\<lparr>pv_spent := True\<rparr>" using a VSetSpent by auto
      then show ?thesis using k [of c z] by simp
    next
      case False
      then show ?thesis using a VSetSpent k [of c n] by simp
    qed
  next
    case (VRemove e)
    then show ?thesis using a k [of c n] by (cases "c = e") simp_all
  qed
qed

lemma spec_keys: "keys_ok m \<Longrightarrow> keys_ok (fold spec_step xs m)"
  by (induction xs arbitrary: m) (simp_all add: keys_ok_step)

lemma local_distinct:
  "distinct (map pv_commitment (local_read b)) \<Longrightarrow> distinct (map pv_commitment (local_read (local_run xs b)))"
proof (induction xs arbitrary: b)
  case (Cons x xs)
  have "distinct (map pv_commitment (local_read (vault_step local_put local_setSpent local_remove x b)))"
  proof (cases "bs_writable b")
    case True
    show ?thesis
    proof (cases x)
      case (VPut n)
      then show ?thesis using True Cons.prems by (auto simp: local_put_def distinct_map_filter)
    next
      case (VSetSpent c)
      have e: "map pv_commitment (map (\<lambda>n. if pv_commitment n = c then n\<lparr>pv_spent := True\<rparr> else n) ns) = map pv_commitment ns"
        for ns by (induction ns) auto
      show ?thesis
        unfolding VSetSpent vault_step.simps local_setSpent_def local_read_write [OF True] e by (rule Cons.prems)
    next
      case (VRemove c)
      then show ?thesis using True Cons.prems by (simp add: local_remove_def distinct_map_filter)
    qed
  next
    case False
    then show ?thesis using Cons.prems by (cases x) (simp_all add: local_put_def local_setSpent_def local_remove_def local_write_def)
  qed
  then show ?case using Cons.IH by simp
qed simp

lemma memory_run_wf: "jm_wf m \<Longrightarrow> jm_wf (memory_run xs m)"
proof (induction xs arbitrary: m)
  case (Cons x xs)
  have "jm_wf (vault_step memory_put memory_setSpent memory_remove x m)"
    using Cons.prems by (cases x) (auto simp: memory_put_def memory_setSpent_def memory_remove_def split: option.split)
  then show ?case using Cons.IH by simp
qed simp

lemma local_set: "distinct (map pv_commitment (local_read b)) \<Longrightarrow>
   n \<in> set (local_read b) \<longleftrightarrow> local_contents b (pv_commitment n) = Some n"
proof -
  assume d: "distinct (map pv_commitment (local_read b))"
  have "distinct (map fst (map (\<lambda>n. (pv_commitment n, n)) (local_read b)))" using d by (simp add: comp_def)
  then have "local_contents b (pv_commitment n) = Some n \<longleftrightarrow>
      (pv_commitment n, n) \<in> set (map (\<lambda>n. (pv_commitment n, n)) (local_read b))"
    unfolding local_contents_def by (rule map_of_eq_Some_iff)
  then show ?thesis by auto
qed

section \<open>What discovery finds\<close>

lemma native_discover:
  assumes "decrypt_record D sk r = Some p" "np_assetId p = None"
  shows "discover_one P D sk own assets r =
    (let secret = \<lparr>sec_ownerSk = ok_sk own, sec_ownerPkX = ok_pkX own, sec_ownerPkY = ok_pkY own,
           sec_blinding = np_blinding p, sec_leafIndex = map_option floor (np_treePosition p), sec_assetId = None, sec_assetField = None\<rparr>
     in if toHex32 (commitmentOfSecret P (np_amount p) secret) \<noteq> normalize_hex (nr_commitment r) then Inr None
        else Inr (Some \<lparr>sh_commitment = nr_commitment r, sh_ciphertext = the (nr_ciphertext r), sh_root = nr_root r,
               sh_txid = nr_txid r, sh_amount = np_amount p, sh_asset = None, sh_spent = nr_spent r,
               sh_status = nr_status r, sh_secret = secret\<rparr>))"
  using assms by (simp add: discover_one_def asset_given_def Let_def)

text \<open>The commitment does not look at the position or the asset id of a secret.\<close>

lemma commitment_fields:
  "commitmentOfSecret P a \<lparr>sec_ownerSk = s, sec_ownerPkX = x, sec_ownerPkY = y, sec_blinding = b, sec_leafIndex = l,
      sec_assetId = i, sec_assetField = f\<rparr> =
   commitmentOf P \<lparr>ci_amount = a, ci_ownerPkX = x, ci_ownerPkY = y, ci_blinding = b, ci_assetField = f\<rparr>"
  by (simp add: commitmentOfSecret_def)

definition genuine :: "poseidon \<Rightarrow> owner_key \<Rightarrow> shield_note \<Rightarrow> bool" where
  "genuine P own n \<longleftrightarrow>
     toHex32 (commitmentOfSecret P (sh_amount n) (sh_secret n)) = normalize_hex (sh_commitment n) \<and>
     sec_ownerSk (sh_secret n) = ok_sk own \<and> sec_ownerPkX (sh_secret n) = ok_pkX own \<and>
     sec_ownerPkY (sh_secret n) = ok_pkY own"

lemma discover_one_genuine:
  "discover_one P D sk own assets r = Inr (Some n) \<Longrightarrow> genuine P own n \<and> sh_commitment n = nr_commitment r"
  unfolding discover_one_def Let_def genuine_def
  by (auto simp: rbind_eq_Inr split: option.splits if_splits)

lemma discoverNotes_genuine:
  "discoverNotes P D sk own assets rs = Inr ns \<Longrightarrow> n \<in> set ns \<Longrightarrow>
   genuine P own n \<and> (\<exists>r \<in> set rs. sh_commitment n = nr_commitment r)"
proof (induction rs arbitrary: ns)
  case (Cons r rs)
  obtain x xs where x: "discover_one P D sk own assets r = Inr x" "discoverNotes P D sk own assets rs = Inr xs"
    "ns = (case x of None \<Rightarrow> xs | Some y \<Rightarrow> y # xs)"
    using Cons.prems(1) by (auto simp: rbind_eq_Inr)
  then show ?case
    using Cons.IH [OF x(2)] Cons.prems(2) discover_one_genuine [of P D sk own assets r]
    by (cases x) auto
qed simp

lemma discoverNotes_member:
  "discoverNotes P D sk own assets rs = Inr ns \<Longrightarrow> r \<in> set rs \<Longrightarrow> discover_one P D sk own assets r = Inr (Some n) \<Longrightarrow> n \<in> set ns"
proof (induction rs arbitrary: ns)
  case (Cons r1 rs)
  obtain x xs where "discover_one P D sk own assets r1 = Inr x" "discoverNotes P D sk own assets rs = Inr xs"
    "ns = (case x of None \<Rightarrow> xs | Some y \<Rightarrow> y # xs)"
    using Cons.prems(1) by (auto simp: rbind_eq_Inr)
  then show ?case using Cons.IH Cons.prems(2,3) by (cases x) auto
qed simp

text \<open>Both the plain hex text and the doubled prefix the client writes are read back.\<close>

lemma hex_texts:
  "c \<in> {toHex b, ''0x'' @ toHex b} \<Longrightarrow> hexToBytes (strip0x c) = b"
proof -
  have 1: "hexToBytes (bytesToHexStr b) = b"
    by (simp add: hexToBytes_fromHex fromHex_def strip0x_bytesToHexStr hexToBytesArr_bytesToHexStr)
  have 2: "hexToBytes (toHex b) = b"
    by (simp add: hexToBytes_fromHex)
  have 3: "strip0x (toHex b) = bytesToHexStr b" "strip0x (''0x'' @ toHex b) = toHex b"
    by (simp_all add: toHex_def strip0x_def)
  show "c \<in> {toHex b, ''0x'' @ toHex b} \<Longrightarrow> hexToBytes (strip0x c) = b" using 1 2 3 by auto
qed

lemma sent_decrypts:
  assumes "delivery_laws D p sk ephSk" "proper_payload p" "encryptNote D p (dl_public D sk) ephSk = Inr e"
    "nr_ciphertext r \<in> {Some (toHex (encodeEncryptedNote e)), Some (''0x'' @ toHex (encodeEncryptedNote e))}"
  shows "decrypt_record D sk r = Some p"
proof -
  have d: "decodeEncryptedNote (encodeEncryptedNote e) = Inr e" "tryDecryptNote D e sk = Some p"
    using delivery [OF assms(1,2)] assms(3) by auto
  obtain c where c: "nr_ciphertext r = Some c" "c \<in> {toHex (encodeEncryptedNote e), ''0x'' @ toHex (encodeEncryptedNote e)}"
    using assms(4) by auto
  have "c \<noteq> []" using c(2) by (auto simp: toHex_def)
  then show ?thesis using c(1) hex_texts [OF c(2)] d by (simp add: decrypt_record_def)
qed

section \<open>The store over time\<close>

datatype store_op = SAdd shield_note | SMark string | SRemove string

fun store_step :: "store_op \<Rightarrow> note_store \<Rightarrow> note_store" where
  "store_step (SAdd n) s = store_add n s"
| "store_step (SMark c) s = store_markSpent c s"
| "store_step (SRemove c) s = store_remove c s"

definition spent_in :: "string \<Rightarrow> note_store \<Rightarrow> bool" where
  "spent_in c s \<longleftrightarrow> (\<exists>n. jm_get s c = Some n \<and> sh_spent n)"

lemma store_step_spent: "spent_in c s \<Longrightarrow> SRemove c \<noteq> x \<Longrightarrow> spent_in c (store_step x s)"
  by (cases x) (auto simp: spent_in_def store_add_def store_markSpent_def store_remove_def Let_def split: option.split)

lemma store_run_spent: "spent_in c s \<Longrightarrow> SRemove c \<notin> set xs \<Longrightarrow> spent_in c (fold store_step xs s)"
  by (induction xs arbitrary: s) (simp_all add: store_step_spent)

definition store_ok :: "note_store \<Rightarrow> bool" where
  "store_ok s \<longleftrightarrow> jm_wf s \<and> (\<forall>c n. jm_get s c = Some n \<longrightarrow> sh_commitment n = c)"

lemma store_okD: "store_ok s \<Longrightarrow> jm_get s c = Some n \<Longrightarrow> sh_commitment n = c"
  unfolding store_ok_def by blast

lemma store_member: "store_ok s \<Longrightarrow> (c, n) \<in> set s \<Longrightarrow> jm_get s c = Some n"
  by (simp add: store_ok_def jm_wf_def)

lemma store_set_ok: "store_ok s \<Longrightarrow> sh_commitment n = c \<Longrightarrow> store_ok (jm_set c n s)"
  unfolding store_ok_def by (auto split: if_splits)

lemma store_step_ok: "store_ok s \<Longrightarrow> store_ok (store_step x s)"
proof (cases x)
  case (SAdd n)
  assume "store_ok s"
  then show ?thesis using SAdd by (simp add: store_add_def Let_def store_set_ok)
next
  case (SMark c)
  assume ok: "store_ok s"
  show ?thesis
  proof (cases "jm_get s c")
    case (Some n)
    then show ?thesis using SMark ok store_okD [OF ok Some] by (simp add: store_markSpent_def store_set_ok)
  qed (use SMark ok in \<open>simp add: store_markSpent_def\<close>)
next
  case (SRemove c)
  assume "store_ok s"
  then show ?thesis using SRemove unfolding store_ok_def by (auto simp: store_remove_def)
qed

lemma store_run_ok: "store_ok s \<Longrightarrow> store_ok (fold store_step xs s)"
  by (induction xs arbitrary: s) (simp_all add: store_step_ok)

section \<open>Properties\<close>

text \<open>C31: The browser's vault refines the map of the in-memory vault: after any sequence of puts, spent
  marks and removals on a writable storage and on a fresh map, both hold the same note for every commitment,
  and listing them gives the same notes. The list in the storage never holds a commitment twice.\<close>

theorem local_vault_refines_map:
  assumes "bs_writable b" "bs_item b = None"
  shows "local_contents (local_run xs b) = map_of (memory_run xs []) \<and>
    set (local_read (local_run xs b)) = set (memory_all (memory_run xs [])) \<and>
    distinct (map pv_commitment (local_read (local_run xs b)))"
proof -
  let ?b = "local_run xs b" and ?m = "memory_run xs []"
  have r: "local_read b = []" using assms(2) by (simp add: local_read_def)
  have b: "local_contents ?b = fold spec_step xs Map.empty"
    using local_vault.run_law [OF assms(1), of xs] r by (simp add: local_contents_def)
  have m: "map_of ?m = fold spec_step xs Map.empty"
    using memory_vault.run_law [where s = "[]" and xs = xs] by simp
  have d: "distinct (map pv_commitment (local_read ?b))" using local_distinct [of b xs] r by simp
  have wf: "jm_wf ?m" using memory_run_wf [of "[]" xs] by simp
  have k: "keys_ok (map_of ?m)" unfolding m by (rule spec_keys) (simp add: keys_ok_def)
  have "n \<in> set (local_read ?b) \<longleftrightarrow> n \<in> set (memory_all ?m)" for n
  proof -
    have "n \<in> set (memory_all ?m) \<longleftrightarrow> (\<exists>c. jm_get ?m c = Some n)"
      unfolding memory_all_def by (rule jm_values_iff [OF wf])
    also have "\<dots> \<longleftrightarrow> jm_get ?m (pv_commitment n) = Some n" using k unfolding keys_ok_def by blast
    also have "\<dots> \<longleftrightarrow> n \<in> set (local_read ?b)" using local_set [OF d, of n] b m by simp
    finally show ?thesis by simp
  qed
  then have s: "set (local_read ?b) = set (memory_all ?m)" by blast
  show ?thesis using b m d s by simp
qed

definition demo_persisted :: "string \<Rightarrow> bool \<Rightarrow> persisted_note" where
  "demo_persisted c sp = \<lparr>pv_commitment = c, pv_ciphertext = ''aa'', pv_root = ''r'', pv_txid = ''t'', pv_leafIndex = None,
     pv_assetId = None, pv_spent = sp\<rparr>"

lemma local_vault_refines_map_witness:
  "(let xs = [VPut (demo_persisted ''a'' False), VPut (demo_persisted ''b'' False), VSetSpent ''a'',
              VPut (demo_persisted ''b'' True), VRemove ''c''];
        b = local_run xs \<lparr>bs_item = None, bs_writable = True\<rparr>
    in set (local_read b) = set (memory_all (memory_run xs [])) \<and> length (local_read b) = 2)"
proof -
  let ?xs = "[VPut (demo_persisted ''a'' False), VPut (demo_persisted ''b'' False), VSetSpent ''a'',
              VPut (demo_persisted ''b'' True), VRemove ''c'']"
  let ?b = "local_run ?xs \<lparr>bs_item = None, bs_writable = True\<rparr>"
  have "length (local_read ?b) = 2" by code_simp
  then show ?thesis using local_vault_refines_map [of "\<lparr>bs_item = None, bs_writable = True\<rparr>" ?xs] by (simp only: Let_def) simp
qed

text \<open>A spent note is never offered again: whatever is added, rediscovered or marked afterwards, and as
  long as the note itself is not removed, a commitment that was spent once is not among the unspent notes of
  the store.\<close>

theorem spent_stays_spent:
  assumes "store_ok s" "spent_in c s" "SRemove c \<notin> set xs"
  shows "\<forall>n \<in> set (store_unspent (fold store_step xs s)). sh_commitment n \<noteq> c"
proof
  let ?s = "fold store_step xs s"
  fix n assume "n \<in> set (store_unspent ?s)"
  then obtain k where k: "(k, n) \<in> set ?s" "\<not> sh_spent n" by (auto simp: store_unspent_def)
  have ok: "store_ok ?s" using store_run_ok [OF assms(1)] .
  have g: "jm_get ?s k = Some n" using store_member [OF ok k(1)] .
  have "sh_commitment n = k" using store_okD [OF ok g] .
  then show "sh_commitment n \<noteq> c" using store_run_spent [OF assms(2,3)] g k(2) by (auto simp: spent_in_def)
qed

definition demo_shield_note :: "string \<Rightarrow> bool \<Rightarrow> shield_note" where
  "demo_shield_note c sp = \<lparr>sh_commitment = c, sh_ciphertext = ''aa'', sh_root = ''r'', sh_txid = ''t'', sh_amount = 7,
     sh_asset = None, sh_spent = sp, sh_status = None,
     sh_secret = \<lparr>sec_ownerSk = 1, sec_ownerPkX = 2, sec_ownerPkY = 3, sec_blinding = 4, sec_leafIndex = None,
       sec_assetId = None, sec_assetField = None\<rparr>\<rparr>"

lemma spent_stays_spent_witness:
  "list_all (\<lambda>n. sh_commitment n \<noteq> ''a'') (store_unspent (fold store_step
      [SAdd (demo_shield_note ''a'' False), SAdd (demo_shield_note ''b'' False)] [(''a'', demo_shield_note ''a'' True)]))"
  unfolding list_all_iff by (rule spent_stays_spent)
     (simp_all add: store_ok_def jm_wf_def spent_in_def demo_shield_note_def)

text \<open>C32: What is sent is found, and only what is genuine: a native note encrypted for a viewing key, whose
  commitment is the one its amount, its blinding and the receiver's key give, is among the notes discovered in
  any feed that holds its record, with its amount and the receiver's own spending key; whether its ciphertext
  was written with one prefix or two makes no difference. And every note that is discovered reproduces the
  commitment of a record of the feed and carries the receiver's keys.\<close>

theorem sent_note_is_discovered:
  assumes "delivery_laws D p sk ephSk" "proper_payload p" "np_assetId p = None"
    and "encryptNote D p (vk_publicKey (generateViewingKeyPair D sk)) ephSk = Inr e"
    and "discoverNotes P D sk own assets rs = Inr ns" "r \<in> set rs"
    and "nr_ciphertext r \<in> {Some (toHex (encodeEncryptedNote e)), Some (''0x'' @ toHex (encodeEncryptedNote e))}"
    and "normalize_hex (nr_commitment r) = toHex32 (commitmentOf P \<lparr>ci_amount = np_amount p, ci_ownerPkX = ok_pkX own,
           ci_ownerPkY = ok_pkY own, ci_blinding = np_blinding p, ci_assetField = None\<rparr>)"
  shows "(\<exists>n \<in> set ns. sh_commitment n = nr_commitment r \<and> sh_amount n = np_amount p
      \<and> sec_ownerSk (sh_secret n) = ok_sk own \<and> sec_blinding (sh_secret n) = np_blinding p)
    \<and> (\<forall>n \<in> set ns. genuine P own n \<and> (\<exists>r \<in> set rs. sh_commitment n = nr_commitment r))"
proof -
  have d: "decrypt_record D sk r = Some p"
    using sent_decrypts [OF assms(1,2) _ assms(7)] assms(4) by (simp add: generateViewingKeyPair_def)
  obtain n where n: "discover_one P D sk own assets r = Inr (Some n)" "sh_commitment n = nr_commitment r"
    "sh_amount n = np_amount p" "sec_ownerSk (sh_secret n) = ok_sk own" "sec_blinding (sh_secret n) = np_blinding p"
    using native_discover [OF d assms(3), of P own assets] assms(8) by (auto simp: Let_def commitment_fields)
  have "n \<in> set ns" using discoverNotes_member [OF assms(5,6) n(1)] .
  then show ?thesis using n discoverNotes_genuine [OF assms(5)] by blast
qed

definition demo_native :: note_payload where
  "demo_native = demo_payload\<lparr>np_assetId := None\<rparr>"

definition native_delivery :: delivery where
  "native_delivery = demo_delivery\<lparr>dl_parse := (\<lambda>b. Some (payload_json demo_native))\<rparr>"

definition sum_hash :: poseidon where
  "sum_hash = \<lparr>poseidon2 = (\<lambda>a b. a + b), poseidon4 = (\<lambda>a b c d. a + b + c + d)\<rparr>"

definition demo_owner :: owner_key where
  "demo_owner = \<lparr>ok_sk = 9, ok_pkX = 1, ok_pkY = 2\<rparr>"

definition demo_record :: "encrypted_note \<Rightarrow> note_record" where
  "demo_record e = \<lparr>nr_commitment = toHex32 330, nr_ciphertext = Some (''0x'' @ toHex (encodeEncryptedNote e)), nr_root = ''r'',
     nr_txid = ''t'', nr_spent = False, nr_status = None\<rparr>"

lemma sent_note_is_discovered_witness:
  "\<exists>e ns. encryptNote native_delivery demo_native (vk_publicKey (generateViewingKeyPair native_delivery [2])) [3] = Inr e \<and>
     discoverNotes sum_hash native_delivery [2] demo_owner [] [demo_record e] = Inr ns \<and>
     (\<exists>n \<in> set ns. sh_amount n = 250 \<and> sec_ownerSk (sh_secret n) = 9)"
proof -
  have l: "delivery_laws native_delivery demo_native [2] [3]" "proper_payload demo_native" "np_assetId demo_native = None"
    using demo_delivery_laws
    by (simp_all add: delivery_laws_def native_delivery_def demo_delivery_def demo_native_def proper_payload_def)
  obtain e where e: "encryptNote native_delivery demo_native (vk_publicKey (generateViewingKeyPair native_delivery [2])) [3] = Inr e"
    using delivery [OF l(1,2)] by (auto simp: generateViewingKeyPair_def)
  have c: "nr_ciphertext (demo_record e) \<in> {Some (toHex (encodeEncryptedNote e)), Some (''0x'' @ toHex (encodeEncryptedNote e))}"
    by (simp add: demo_record_def)
  have n: "normalize_hex (nr_commitment (demo_record e)) = toHex32 330"
    by (simp add: demo_record_def normalize_hex_def toHex32_def js_startsWith_def)
  have k: "commitmentOf sum_hash \<lparr>ci_amount = np_amount demo_native, ci_ownerPkX = ok_pkX demo_owner, ci_ownerPkY = ok_pkY demo_owner,
      ci_blinding = np_blinding demo_native, ci_assetField = None\<rparr> = 330"
    by (simp add: commitmentOf_def sum_hash_def demo_native_def demo_payload_def demo_owner_def)
  have d: "decrypt_record native_delivery [2] (demo_record e) = Some demo_native"
    using sent_decrypts [OF l(1,2) _ c] e by (simp add: generateViewingKeyPair_def)
  have "\<exists>x. discover_one sum_hash native_delivery [2] demo_owner [] (demo_record e) = Inr x"
    using native_discover [OF d l(3), of sum_hash demo_owner "[]"] by (simp add: Let_def split: if_splits)
  then obtain ns where ns: "discoverNotes sum_hash native_delivery [2] demo_owner [] [demo_record e] = Inr ns"
    by (auto split: option.splits)
  have "normalize_hex (nr_commitment (demo_record e)) = toHex32 (commitmentOf sum_hash \<lparr>ci_amount = np_amount demo_native,
      ci_ownerPkX = ok_pkX demo_owner, ci_ownerPkY = ok_pkY demo_owner, ci_blinding = np_blinding demo_native, ci_assetField = None\<rparr>)"
    unfolding n k ..
  then have "\<exists>n \<in> set ns. sh_amount n = np_amount demo_native \<and> sec_ownerSk (sh_secret n) = ok_sk demo_owner"
    using sent_note_is_discovered [OF l e ns _ c] by auto
  then show ?thesis using e ns by (simp add: demo_native_def demo_payload_def demo_owner_def) blast
qed

text \<open>A shield address survives its text form: for coordinates of 256 bits and a 32-byte viewing key,
  decoding the encoded address gives the address.\<close>

theorem address_roundtrip:
  assumes "0 \<le> sa_ownerPkX a" "sa_ownerPkX a < 2 ^ 256" "0 \<le> sa_ownerPkY a" "sa_ownerPkY a < 2 ^ 256"
    and "length (sa_viewingPk a) = 32"
  shows "decodeAddress (encodeAddress a) = Inr a"
proof -
  let ?x = "drop 2 (toHex32 (sa_ownerPkX a))" and ?y = "drop 2 (toHex32 (sa_ownerPkY a))" and ?v = "bytesToHex (sa_viewingPk a)"
  have l: "length ?x = 64" "length ?y = 64" "length ?v = 64"
    using assms toHex32_field by (simp_all add: bytesToHex_same length_bytesToHexStr)
  have n: "bigInt0x (drop 2 (toHex32 z)) = Inr z" if "0 \<le> z" for z
    using field_fromHex_toHex32 [OF that] by (simp add: field_fromHex_def toHex32_def js_startsWith_def)
  have v: "hexToBytes ?v = sa_viewingPk a"
    by (simp add: bytesToHex_same hexToBytes_fromHex fromHex_def strip0x_bytesToHexStr hexToBytesArr_bytesToHexStr)
  have "drop 6 (encodeAddress a) = ?x @ ?y @ ?v" by (simp add: encodeAddress_def)
  moreover have "js_startsWith (encodeAddress a) ''stxsh1''" by (simp add: encodeAddress_def js_startsWith_def)
  moreover have "take 64 (drop 64 (?x @ ?y @ ?v)) = ?y" "drop 128 (?x @ ?y @ ?v) = ?v" "take 64 (?x @ ?y @ ?v) = ?x"
    using l by simp_all
  ultimately show ?thesis
    unfolding decodeAddress_def Let_def using l n [OF assms(1)] n [OF assms(3)] v by simp
qed

lemma address_roundtrip_witness:
  "decodeAddress (encodeAddress \<lparr>sa_ownerPkX = 5, sa_ownerPkY = 2 ^ 255, sa_viewingPk = replicate 32 171\<rparr>) =
     Inr \<lparr>sa_ownerPkX = 5, sa_ownerPkY = 2 ^ 255, sa_viewingPk = replicate 32 171\<rparr>"
  by (rule address_roundtrip) simp_all

end
