(* ===== verification/ApiProvider.thy ===== *)
theory ApiProvider
  imports NoteVault SdkRelay
begin

text \<open>
  The second SDK's way to the API, \<open>sdk/src/providers/api.ts\<close>, and to zkVerify,
  \<open>sdk/src/providers/zkverify.ts\<close>. The server is a function of the request and of the number of the
  attempt. The replies are cast to their declared types in the source; here an answer that is not of
  that type is a \<open>TypeError\<close>. The zkVerify package answers by the environment of a direct submission.
\<close>

section \<open>Errors of the SDK\<close>

datatype sdk_error =
    InvalidNoteError string
  | RootNotFoundError string
  | ProofGenerationError string
  | RelayerError provider_error
  | AuthenticationError string
  | ApiError string nat
  | ConfigError string
  | ShieldReverted string
  | JsThrown js_error
  | OtherThrown string

definition lift_js :: "(js_error, 'a) result \<Rightarrow> (sdk_error, 'a) result" where
  "lift_js r = (case r of Inl e \<Rightarrow> Inl (JsThrown e) | Inr a \<Rightarrow> Inr a)"

definition lift_plain :: "(string, 'a) result \<Rightarrow> (sdk_error, 'a) result" where
  "lift_plain r = (case r of Inl e \<Rightarrow> Inl (OtherThrown e) | Inr a \<Rightarrow> Inr a)"

section \<open>Requests\<close>

record http_request =
  rq_method :: string
  rq_path :: string
  rq_body :: "json option"
  rq_contentType :: "string option"
  rq_bearer :: "string option"

type_synonym api_server = "http_request \<Rightarrow> nat \<Rightarrow> relayer_reply"

record api_provider =
  ap_token :: "string option"
  ap_assets :: "(int \<times> asset_info list) option"

definition new_ApiProvider :: api_provider where
  "new_ApiProvider = \<lparr>ap_token = None, ap_assets = None\<rparr>"

definition setToken :: "string option \<Rightarrow> api_provider \<Rightarrow> api_provider" where
  "setToken t p = p\<lparr>ap_token := t\<rparr>"

definition authenticated :: "api_provider \<Rightarrow> bool" where
  "authenticated p \<longleftrightarrow> (case ap_token p of Some t \<Rightarrow> t \<noteq> [] | None \<Rightarrow> False)"

definition http_of :: "string \<Rightarrow> string \<Rightarrow> json option \<Rightarrow> bool \<Rightarrow> api_provider \<Rightarrow> http_request" where
  "http_of meth path body auth p =
     \<lparr>rq_method = meth, rq_path = path, rq_body = body,
      rq_contentType = (if body \<noteq> None then Some ''application/json'' else None),
      rq_bearer = (if auth \<and> authenticated p then ap_token p else None)\<rparr>"

definition api_attempt :: "string \<Rightarrow> relayer_reply \<Rightarrow> (sdk_error, json) result" where
  "api_attempt path reply =
     (case reply of
        ReplyThrows e \<Rightarrow> Inl (OtherThrown e)
      | Reply s b \<Rightarrow>
          (let body = (case b of Some j \<Rightarrow> j | None \<Rightarrow> JObj []);
               message = js_nullish (json_field body ''message'') None
           in if reply_ok s then Inr body
              else if s = 401
              then Inl (AuthenticationError (case message of Some m \<Rightarrow> js_String m | None \<Rightarrow> ''unauthorized''))
              else Inl (ApiError (case message of Some m \<Rightarrow> js_String m
                                  | None \<Rightarrow> ''API '' @ path @ '' -> '' @ dec_of_nat s) s)))"

fun not_auth_error :: "sdk_error \<Rightarrow> nat \<Rightarrow> bool" where
  "not_auth_error (AuthenticationError m) n = False"
| "not_auth_error e n = True"

definition api_request ::
  "api_server \<Rightarrow> string \<Rightarrow> string \<Rightarrow> json option \<Rightarrow> bool \<Rightarrow> api_provider \<Rightarrow> (sdk_error, json) result" where
  "api_request server meth path body auth p =
     (case fst (retry (\<lambda>k. api_attempt path (server (http_of meth path body auth p) k)) not_auth_error None None None) of
        Inl e \<Rightarrow> Inl (or_default e (OtherThrown ''undefined''))
      | Inr j \<Rightarrow> Inr j)"

text \<open>Reading a property of an answer.\<close>

definition js_prop :: "json \<Rightarrow> string \<Rightarrow> (sdk_error, json option) result" where
  "js_prop v k = (if v = JNull then Inl (JsThrown TypeError) else Inr (json_field v k))"

definition results_of :: "(json \<Rightarrow> (sdk_error, 'a) result) \<Rightarrow> json \<Rightarrow> (sdk_error, 'a list) result" where
  "results_of decode body =
     rbind (js_prop body ''results'') (\<lambda>r.
       case js_nullish r None of
         None \<Rightarrow> Inr []
       | Some (JArr vs) \<Rightarrow> rmap decode vs
       | Some _ \<Rightarrow> Inl (JsThrown TypeError))"

definition text_field :: "json \<Rightarrow> string \<Rightarrow> (sdk_error, string) result" where
  "text_field v k = (case json_field v k of Some (JStr s) \<Rightarrow> Inr s | _ \<Rightarrow> Inl (JsThrown TypeError))"

definition record_of_json :: "json \<Rightarrow> (sdk_error, note_record) result" where
  "record_of_json v =
     rbind (text_field v ''commitment'') (\<lambda>c.
     rbind (text_field v ''root'') (\<lambda>r.
     rbind (text_field v ''txid'') (\<lambda>t.
       Inr \<lparr>nr_commitment = c, nr_ciphertext = json_text (json_field v ''ciphertext''), nr_root = r, nr_txid = t,
            nr_spent = js_truthy (json_field v ''spent''), nr_status = json_text (json_field v ''status'')\<rparr>)))"

definition commitment_of_json :: "json \<Rightarrow> (sdk_error, string) result" where
  "commitment_of_json v = text_field v ''commitment''"

section \<open>Public reads\<close>

text \<open>
  \<open>getAssets\<close> with the time before and after the request; whatever fails leaves the empty list,
  which is kept in the cache as well.
\<close>

definition ASSETS_TTL_MS :: int where
  "ASSETS_TTL_MS = 60000"

definition fetch_assets :: "api_server \<Rightarrow> api_provider \<Rightarrow> (sdk_error, asset_info list) result" where
  "fetch_assets server p =
     rbind (api_request server ''GET'' ''/assets'' None False p) (\<lambda>body.
     rbind (results_of (\<lambda>v. lift_plain (validateAsset v)) body) (\<lambda>assets.
       if list_ex as_native assets then Inr assets
       else Inl (OtherThrown ''/assets returned no native STX asset'')))"

definition api_getAssets ::
  "api_server \<Rightarrow> bool \<Rightarrow> int \<Rightarrow> int \<Rightarrow> api_provider \<Rightarrow> asset_info list \<times> api_provider" where
  "api_getAssets server force before after p =
     (case ap_assets p of
        Some (stamp, assets) \<Rightarrow>
          if \<not> force \<and> before - stamp < ASSETS_TTL_MS then (assets, p)
          else (let got = (case fetch_assets server p of Inl _ \<Rightarrow> [] | Inr a \<Rightarrow> a)
                in (got, p\<lparr>ap_assets := Some (after, got)\<rparr>))
      | None \<Rightarrow>
          (let got = (case fetch_assets server p of Inl _ \<Rightarrow> [] | Inr a \<Rightarrow> a)
           in (got, p\<lparr>ap_assets := Some (after, got)\<rparr>)))"

definition not_found :: "(sdk_error, json option) result \<Rightarrow> (sdk_error, json option) result" where
  "not_found r = (case r of Inl (ApiError m s) \<Rightarrow> if s = 404 then Inr None else r | _ \<Rightarrow> r)"

definition api_getLatestRoot :: "api_server \<Rightarrow> api_provider \<Rightarrow> (sdk_error, json option) result" where
  "api_getLatestRoot server p =
     not_found (rbind (api_request server ''GET'' ''/roots/latest'' None False p) (\<lambda>r. js_prop r ''root''))"

definition api_getAggregation :: "api_server \<Rightarrow> int \<Rightarrow> int \<Rightarrow> api_provider \<Rightarrow> (sdk_error, json option) result" where
  "api_getAggregation server domainId aggregationId p =
     not_found (rbind (api_request server ''GET'' (''/aggregations/'' @ dec_of_int aggregationId) None False p)
       (\<lambda>r. Inr (Some r)))"

definition api_getEncryptedNotes :: "api_server \<Rightarrow> int \<Rightarrow> int \<Rightarrow> api_provider \<Rightarrow> (sdk_error, note_record list) result" where
  "api_getEncryptedNotes server limit offset p =
     rbind (api_request server ''GET''
              (''/notes/encrypted?limit='' @ dec_of_int limit @ ''&offset='' @ dec_of_int offset) None False p)
       (results_of record_of_json)"

definition api_getCommitments :: "api_server \<Rightarrow> api_provider \<Rightarrow> (sdk_error, string list) result" where
  "api_getCommitments server p =
     rbind (api_request server ''GET'' ''/commitments'' None False p) (results_of commitment_of_json)"

section \<open>Authentication and the wallet's own routes\<close>

definition api_authNonce :: "api_server \<Rightarrow> string \<Rightarrow> api_provider \<Rightarrow> (sdk_error, string) result" where
  "api_authNonce server wallet p =
     rbind (api_request server ''POST'' ''/auth/nonce'' (Some (JObj [(''wallet'', JStr wallet)])) False p)
       (\<lambda>b. text_field b ''message'')"

definition api_authVerify ::
  "api_server \<Rightarrow> string \<Rightarrow> string \<Rightarrow> string \<Rightarrow> string \<Rightarrow> api_provider \<Rightarrow> (sdk_error, string) result" where
  "api_authVerify server wallet publicKey signature msg p =
     rbind (api_request server ''POST'' ''/auth/verify''
              (Some (JObj [(''wallet'', JStr wallet), (''publicKey'', JStr publicKey), (''signature'', JStr signature),
                           (''message'', JStr msg)])) False p)
       (\<lambda>b. text_field b ''token'')"

text \<open>The requests whose answer is ignored are effects: the request itself is what they leave.\<close>

definition api_logout :: "api_provider \<Rightarrow> http_request list \<times> api_provider" where
  "api_logout p =
     (if authenticated p then [http_of ''POST'' ''/auth/logout'' None True p] else [], p\<lparr>ap_token := None\<rparr>)"

definition api_getMe :: "api_server \<Rightarrow> api_provider \<Rightarrow> (sdk_error, json) result" where
  "api_getMe server p = api_request server ''GET'' ''/me'' None True p"

definition api_getMyNotes :: "api_server \<Rightarrow> api_provider \<Rightarrow> (sdk_error, note_record list) result" where
  "api_getMyNotes server p = rbind (api_request server ''GET'' ''/me/notes'' None True p) (results_of record_of_json)"

definition api_getMyHistory :: "api_server \<Rightarrow> api_provider \<Rightarrow> (sdk_error, json list) result" where
  "api_getMyHistory server p = rbind (api_request server ''GET'' ''/me/history'' None True p) (results_of Inr)"

definition registerNote_request :: "string \<Rightarrow> string \<Rightarrow> api_provider \<Rightarrow> http_request" where
  "registerNote_request commitment ciphertext p =
     http_of ''POST'' ''/me/notes''
       (Some (JObj [(''commitment'', JStr commitment), (''ciphertext'', JStr ciphertext)])) True p"

definition markSpent_request :: "string \<Rightarrow> api_provider \<Rightarrow> http_request" where
  "markSpent_request commitment p =
     (let bare = (if js_startsWith commitment ''0x'' then drop 2 commitment else commitment)
      in http_of ''POST'' (''/me/notes/'' @ bare @ ''/spent'') None True p)"

text \<open>Sending a request for its effect: whether the server took it.\<close>

definition api_send :: "api_server \<Rightarrow> http_request \<Rightarrow> (sdk_error, unit) result" where
  "api_send server rq =
     (case fst (retry (\<lambda>k. api_attempt (rq_path rq) (server rq k)) not_auth_error None None None) of
        Inl e \<Rightarrow> Inl (or_default e (OtherThrown ''undefined''))
      | Inr j \<Rightarrow> Inr ())"

section \<open>Submission to zkVerify\<close>

record raw_proof =
  rp_proof :: string
  rp_publicInputs :: "string list"
  rp_vk :: string

record zk_options =
  zo_seed :: "string option"
  zo_endpointUrl :: "string option"
  zo_domainId :: int

record zk_receipt_path =
  zp_root :: string
  zp_numberOfLeaves :: int
  zp_proof :: "string list"
  zp_leafIndex :: int

record zk_world =
  zw_service :: "json \<Rightarrow> relayer_reply"
  zw_start :: "string \<Rightarrow> (string, unit) result"
  zw_execute :: "raw_proof \<Rightarrow> int \<Rightarrow> (string, int \<times> string option) result"
  zw_receipt :: "int \<Rightarrow> int \<Rightarrow> (string, string) result"
  zw_path :: "string \<Rightarrow> int \<Rightarrow> int \<Rightarrow> string \<Rightarrow> (string, zk_receipt_path) result"

record client_inclusion = inclusion +
  ci_root :: string
  ci_leafCount :: int

text \<open>The hosted submitter's answer as an inclusion.\<close>

definition int_field :: "json \<Rightarrow> string \<Rightarrow> (sdk_error, int) result" where
  "int_field v k =
     (case json_field v k of
        Some (JNum r) \<Rightarrow> if of_int \<lfloor>r\<rfloor> = r then Inr \<lfloor>r\<rfloor> else Inl (JsThrown TypeError)
      | _ \<Rightarrow> Inl (JsThrown TypeError))"

definition texts_field :: "json \<Rightarrow> string \<Rightarrow> (sdk_error, string list) result" where
  "texts_field v k =
     (case json_field v k of
        Some (JArr vs) \<Rightarrow> rmap (\<lambda>x. case x of JStr s \<Rightarrow> Inr s | _ \<Rightarrow> Inl (JsThrown TypeError)) vs
      | _ \<Rightarrow> Inl (JsThrown TypeError))"

definition inclusion_of_json :: "json \<Rightarrow> (sdk_error, client_inclusion) result" where
  "inclusion_of_json v =
     rbind (int_field v ''domainId'') (\<lambda>d. rbind (int_field v ''aggregationId'') (\<lambda>a.
     rbind (text_field v ''root'') (\<lambda>r. rbind (int_field v ''leafCount'') (\<lambda>n.
     rbind (texts_field v ''merklePath'') (\<lambda>p. rbind (int_field v ''leafIndex'') (\<lambda>l.
       Inr \<lparr>inc_domainId = d, inc_aggregationId = a, inc_merklePath = p, inc_leafIndex = l, ci_root = r, ci_leafCount = n\<rparr>))))))"

definition submitViaService :: "zk_world \<Rightarrow> zk_options \<Rightarrow> raw_proof \<Rightarrow> (sdk_error, client_inclusion) result" where
  "submitViaService w opts pf =
     (case zw_service w (JObj [(''proof'', JStr (rp_proof pf)), (''publicInputs'', JArr (map JStr (rp_publicInputs pf))),
                               (''vk'', JStr (rp_vk pf)), (''domainId'', jint (zo_domainId opts))]) of
        ReplyThrows e \<Rightarrow> Inl (OtherThrown e)
      | Reply s b \<Rightarrow>
          if \<not> reply_ok s then Inl (ProofGenerationError (''zkVerify submitter -> '' @ dec_of_nat s))
          else (case b of None \<Rightarrow> Inl (JsThrown SyntaxError) | Some v \<Rightarrow> inclusion_of_json v))"

definition submitDirect :: "zk_world \<Rightarrow> zk_options \<Rightarrow> string \<Rightarrow> raw_proof \<Rightarrow> (sdk_error, client_inclusion) result" where
  "submitDirect w opts seed pf =
     lift_plain
       (rbind (zw_start w seed) (\<lambda>_.
        rbind (zw_execute w pf (zo_domainId opts)) (\<lambda>(a, statement).
        rbind (zw_receipt w (zo_domainId opts) a) (\<lambda>blockHash.
        rbind (zw_path w blockHash (zo_domainId opts) a (or_default statement [])) (\<lambda>path.
          Inr \<lparr>inc_domainId = zo_domainId opts, inc_aggregationId = a, inc_merklePath = zp_proof path,
               inc_leafIndex = zp_leafIndex path, ci_root = zp_root path, ci_leafCount = zp_numberOfLeaves path\<rparr>)))))"

definition zk_submit :: "zk_world \<Rightarrow> zk_options \<Rightarrow> raw_proof \<Rightarrow> (sdk_error, client_inclusion) result" where
  "zk_submit w opts pf =
     (if zo_endpointUrl opts \<noteq> None \<and> zo_endpointUrl opts \<noteq> Some [] then submitViaService w opts pf
      else if zo_seed opts \<noteq> None \<and> zo_seed opts \<noteq> Some [] then submitDirect w opts (the (zo_seed opts)) pf
      else Inl (ProofGenerationError ''No zkVerify submission path configured.''))"

end
