(* ===== verification/ClientMonad.thy ===== *)
theory ClientMonad
  imports Prelude
begin

text \<open>
  Operations of an object with state that may throw: from a state to a result and the state it
  leaves, also when it throws, since an exception undoes nothing. The laws are those of the
  sequence, of \<open>try\<close>, and of a view of the state that an operation leaves as it is.
\<close>

type_synonym ('e, 's, 'a) op = "'s \<Rightarrow> ('e, 'a) result \<times> 's"

definition op_return :: "'a \<Rightarrow> ('e, 's, 'a) op" where
  "op_return a = (\<lambda>s. (Inr a, s))"

definition op_throw :: "'e \<Rightarrow> ('e, 's, 'a) op" where
  "op_throw e = (\<lambda>s. (Inl e, s))"

definition op_bind :: "('e, 's, 'a) op \<Rightarrow> ('a \<Rightarrow> ('e, 's, 'b) op) \<Rightarrow> ('e, 's, 'b) op" where
  "op_bind m f = (\<lambda>s. case m s of (Inl e, s') \<Rightarrow> (Inl e, s') | (Inr a, s') \<Rightarrow> f a s')"

definition op_lift :: "('e, 'a) result \<Rightarrow> ('e, 's, 'a) op" where
  "op_lift r = (\<lambda>s. (r, s))"

definition op_get :: "('s \<Rightarrow> 'a) \<Rightarrow> ('e, 's, 'a) op" where
  "op_get f = (\<lambda>s. (Inr (f s), s))"

definition op_modify :: "('s \<Rightarrow> 's) \<Rightarrow> ('e, 's, unit) op" where
  "op_modify f = (\<lambda>s. (Inr (), f s))"

definition op_guard :: "bool \<Rightarrow> 'e \<Rightarrow> ('e, 's, unit) op" where
  "op_guard b e = op_lift (rguard b e)"

definition op_catch :: "('e, 's, 'a) op \<Rightarrow> ('e \<Rightarrow> ('e, 's, 'a) op) \<Rightarrow> ('e, 's, 'a) op" where
  "op_catch m h = (\<lambda>s. case m s of (Inl e, s') \<Rightarrow> h e s' | (Inr a, s') \<Rightarrow> (Inr a, s'))"

section \<open>Running\<close>

named_theorems op_run \<open>what a run of an operation gives\<close>

lemma op_return_run [op_run, simp]: "op_return a s = (Inr a, s)"
  by (simp add: op_return_def)

lemma op_throw_run [op_run, simp]: "op_throw e s = (Inl e, s)"
  by (simp add: op_throw_def)

lemma op_lift_run [op_run, simp]: "op_lift r s = (r, s)"
  by (simp add: op_lift_def)

lemma op_get_run [op_run, simp]: "op_get f s = (Inr (f s), s)"
  by (simp add: op_get_def)

lemma op_modify_run [op_run, simp]: "op_modify f s = (Inr (), f s)"
  by (simp add: op_modify_def)

lemma op_guard_run [op_run, simp]: "op_guard b e s = (rguard b e, s)"
  by (simp add: op_guard_def)

lemma op_bind_Inr [op_run]:
  "op_bind m f s = (Inr b, s') \<longleftrightarrow> (\<exists>a s1. m s = (Inr a, s1) \<and> f a s1 = (Inr b, s'))"
  by (auto simp: op_bind_def split: prod.splits sum.splits)

lemma op_bind_Inl [op_run]:
  "op_bind m f s = (Inl e, s') \<longleftrightarrow> m s = (Inl e, s') \<or> (\<exists>a s1. m s = (Inr a, s1) \<and> f a s1 = (Inl e, s'))"
  by (auto simp: op_bind_def split: prod.splits sum.splits)

lemma op_bind_run: "m s = (Inr a, s1) \<Longrightarrow> op_bind m f s = f a s1"
  by (simp add: op_bind_def)

lemma op_bind_fail: "m s = (Inl e, s1) \<Longrightarrow> op_bind m f s = (Inl e, s1)"
  by (simp add: op_bind_def)

section \<open>What an operation keeps\<close>

definition keeps :: "('s \<Rightarrow> 'v) \<Rightarrow> ('e, 's, 'a) op \<Rightarrow> bool" where
  "keeps v m \<longleftrightarrow> (\<forall>s. v (snd (m s)) = v s)"

named_theorems keeps_intros \<open>operations that keep a view\<close>

lemma keepsD: "keeps v m \<Longrightarrow> m s = (r, s') \<Longrightarrow> v s' = v s"
  unfolding keeps_def by (metis snd_conv)

lemma keeps_pure [keeps_intros]:
  "keeps v (op_return a)" "keeps v (op_throw e)" "keeps v (op_lift r)" "keeps v (op_get f)" "keeps v (op_guard b e)"
  by (simp_all add: keeps_def)

lemma keeps_modify [keeps_intros]: "(\<And>s. v (f s) = v s) \<Longrightarrow> keeps v (op_modify f)"
  by (simp add: keeps_def)

lemma keeps_bind [keeps_intros]: "keeps v m \<Longrightarrow> (\<And>a. keeps v (f a)) \<Longrightarrow> keeps v (op_bind m f)"
  by (auto simp: keeps_def op_bind_def split: prod.split sum.split) (metis snd_conv)+

lemma keeps_catch [keeps_intros]: "keeps v m \<Longrightarrow> (\<And>e. keeps v (h e)) \<Longrightarrow> keeps v (op_catch m h)"
  by (auto simp: keeps_def op_catch_def split: prod.split sum.split) (metis snd_conv)+

lemma keeps_if [keeps_intros]: "keeps v m \<Longrightarrow> keeps v n \<Longrightarrow> keeps v (if b then m else n)"
  by simp

lemma keeps_option [keeps_intros]:
  "keeps v m \<Longrightarrow> (\<And>a. keeps v (f a)) \<Longrightarrow> keeps v (case x of None \<Rightarrow> m | Some a \<Rightarrow> f a)"
  by (cases x) simp_all

section \<open>Runs that return\<close>

text \<open>The operation returns from this state, with a result and a state that satisfy \<open>Q\<close>.\<close>

definition op_runs :: "('e, 's, 'a) op \<Rightarrow> 's \<Rightarrow> ('a \<Rightarrow> 's \<Rightarrow> bool) \<Rightarrow> bool" where
  "op_runs m s Q \<longleftrightarrow> (\<exists>a s'. m s = (Inr a, s') \<and> Q a s')"

lemma runs_bind: "op_runs m s (\<lambda>a s1. op_runs (f a) s1 Q) \<Longrightarrow> op_runs (op_bind m f) s Q"
  by (auto simp: op_runs_def op_bind_def)

lemma runs_return: "Q a s \<Longrightarrow> op_runs (op_return a) s Q"
  by (simp add: op_runs_def)

lemma runs_lift: "r = Inr a \<Longrightarrow> Q a s \<Longrightarrow> op_runs (op_lift r) s Q"
  by (simp add: op_runs_def)

lemma runs_guard: "b \<Longrightarrow> Q () s \<Longrightarrow> op_runs (op_guard b e) s Q"
  by (simp add: op_runs_def)

lemma runs_eq: "m s = (Inr a, s1) \<Longrightarrow> Q a s1 \<Longrightarrow> op_runs m s Q"
  by (simp add: op_runs_def)

lemma runs_weak: "op_runs m s P \<Longrightarrow> (\<And>a s1. P a s1 \<Longrightarrow> Q a s1) \<Longrightarrow> op_runs m s Q"
  by (auto simp: op_runs_def)

end
