(* ===== verification/ShieldClient.thy ===== *)
theory ShieldClient
  imports ApiProvider ClientMonad
begin

text \<open>
  The client \<open>STXShield\<close> (\<open>sdk/src/client/STXShield.ts\<close>): its configuration, its state, and the
  helpers its operations are made of, with the proof engine's interface (\<open>sdk/src/proving/engine.ts\<close>)
  and the wallet's. What the wallet, the engine, the API, the chain and the relayers answer is in
  the environment. One call runs to its end before the next; where another call can come in between,
  the operation is a sequence of definitions. Log lines are left out.
\<close>

section \<open>Wallet and proof engine\<close>

record wallet_signer =
  ws_getAddress :: "string \<Rightarrow> (string, string) result"
  ws_signMessage :: "string \<Rightarrow> (string, string \<times> string) result"
  ws_broadcast :: "sdk_call \<Rightarrow> string \<Rightarrow> (string, string) result"
  ws_secret :: "(string, bytes) result"

record note_witness =
  nw_amount :: int
  nw_ownerPkX :: int
  nw_ownerPkY :: int
  nw_blinding :: int

record membership_witness =
  mw_indexBits :: "bool list"
  mw_siblings :: "int list"
  mw_merkleRoot :: int

record insertion_proof =
  ip_leafIndex :: nat
  ip_indexBits :: "bool list"
  ip_siblings :: "int list"
  ip_oldRoot :: int
  ip_newRoot :: int

record shield_witness =
  hw_note :: note_witness
  hw_commitment :: int
  hw_ownerCommitment :: int
  hw_assetField :: "int option"
  hw_insertion :: insertion_proof

record transfer_witness =
  tw_nullifier :: int
  tw_newCommitment :: int
  tw_newOwnerCommitment :: int
  tw_input :: note_witness
  tw_ownerSk :: int
  tw_output :: note_witness
  tw_membership :: membership_witness
  tw_insertion :: insertion_proof
  tw_assetField :: "int option"

record split_witness =
  lw_nullifier :: int
  lw_commitment1 :: int
  lw_ownerCommitment1 :: int
  lw_commitment2 :: int
  lw_ownerCommitment2 :: int
  lw_input :: note_witness
  lw_ownerSk :: int
  lw_out1 :: note_witness
  lw_out2 :: note_witness
  lw_membership :: membership_witness
  lw_insertion1 :: insertion_proof
  lw_insertion2 :: insertion_proof
  lw_assetField :: "int option"

record merge_witness =
  gw_nullifier1 :: int
  gw_nullifier2 :: int
  gw_commitment :: int
  gw_ownerCommitment :: int
  gw_input1 :: note_witness
  gw_ownerSk1 :: int
  gw_membership1 :: membership_witness
  gw_input2 :: note_witness
  gw_ownerSk2 :: int
  gw_membership2 :: membership_witness
  gw_output :: note_witness
  gw_insertion :: insertion_proof
  gw_assetField :: "int option"

record withdraw_witness =
  dw_nullifier :: int
  dw_amount :: int
  dw_recipientHash :: int
  dw_input :: note_witness
  dw_ownerSk :: int
  dw_membership :: membership_witness
  dw_assetField :: "int option"

record proof_engine =
  pe_deriveOwnerKey :: "bytes \<Rightarrow> (string, owner_key) result"
  pe_proveShield :: "shield_witness \<Rightarrow> (string, raw_proof) result"
  pe_proveTransfer :: "transfer_witness \<Rightarrow> (string, raw_proof) result"
  pe_proveSplit :: "split_witness \<Rightarrow> (string, raw_proof) result"
  pe_proveMerge :: "merge_witness \<Rightarrow> (string, raw_proof) result"
  pe_proveWithdraw :: "withdraw_witness \<Rightarrow> (string, raw_proof) result"

definition requireEngine :: "proof_engine option \<Rightarrow> (sdk_error, proof_engine) result" where
  "requireEngine e =
     (case e of None \<Rightarrow> Inl (ProofGenerationError ''No proof engine configured.'') | Some x \<Rightarrow> Inr x)"

section \<open>Configuration\<close>

record zk_config =
  zc_endpointUrl :: "string option"
  zc_seed :: "string option"
  zc_domainId :: "int option"

record sdk_config =
  sg_network :: string
  sg_apiUrl :: "string option"
  sg_relayerUrl :: "string option"
  sg_relayerUrls :: "string list option"
  sg_deployer :: "string option"
  sg_signer :: "wallet_signer option"
  sg_proofEngine :: "proof_engine option"
  sg_timeoutMs :: "int option"
  sg_zkVerify :: "zk_config option"
  sg_noteVault :: bool

record resolved_config =
  rf_network :: string
  rf_apiUrl :: string
  rf_relayerUrls :: "string list"
  rf_deployer :: string
  rf_signer :: "wallet_signer option"
  rf_proofEngine :: "proof_engine option"
  rf_timeoutMs :: int
  rf_zkVerify :: zk_options
  rf_hiroApiUrl :: string

definition strip_slash :: "string \<Rightarrow> string" where
  "strip_slash s = (if s \<noteq> [] \<and> last s = CHR ''/'' then butlast s else s)"

text \<open>\<open>rf_hiroApiUrl\<close> is the lookup \<open>NETWORKS[network].hiroApiUrl\<close> the operations repeat.\<close>

definition resolve_config :: "sdk_config \<Rightarrow> (sdk_error, resolved_config) result" where
  "resolve_config c =
     (case NETWORKS (sg_network c) of
        None \<Rightarrow> Inl (ConfigError (''unknown network: '' @ sg_network c))
      | Some net \<Rightarrow>
          if sg_network c = ''mainnet'' \<and> nd_deployer net = [] \<and> (sg_deployer c = None \<or> sg_deployer c = Some [])
          then Inl (ConfigError ''mainnet is not deployed yet; pass an explicit deployer'')
          else Inr
            \<lparr>rf_network = sg_network c,
             rf_apiUrl = strip_slash (or_default (sg_apiUrl c) (nd_apiUrl net)),
             rf_relayerUrls = (case sg_relayerUrls c of
                                 Some us \<Rightarrow> us
                               | None \<Rightarrow> (case sg_relayerUrl c of
                                           Some u \<Rightarrow> if u \<noteq> [] then [u] else nd_relayerUrls net
                                         | None \<Rightarrow> nd_relayerUrls net)),
             rf_deployer = or_default (sg_deployer c) (nd_deployer net),
             rf_signer = sg_signer c, rf_proofEngine = sg_proofEngine c,
             rf_timeoutMs = or_default (sg_timeoutMs c) 30000,
             rf_zkVerify =
               \<lparr>zo_seed = Option.bind (sg_zkVerify c) zc_seed, zo_endpointUrl = Option.bind (sg_zkVerify c) zc_endpointUrl,
                zo_domainId = or_default (Option.bind (sg_zkVerify c) zc_domainId) (nd_zkVerifyDomainId net)\<rparr>,
             rf_hiroApiUrl = nd_hiroApiUrl net\<rparr>)"

section \<open>State and environment\<close>

text \<open>What reaches the outside, in order: a write to the API, an operation a relayer carried out, a call
  the wallet signed and broadcast, and a wait for an aggregation root with its outcome.\<close>

datatype client_event =
    ApiWrite http_request
  | Relayed string json string
  | Broadcast sdk_call string
  | RootWait bool

datatype vault_state = LocalVault browser_storage | MemoryVault memory_vault

fun vault_put :: "persisted_note \<Rightarrow> vault_state \<Rightarrow> vault_state" where
  "vault_put n (LocalVault b) = LocalVault (local_put n b)"
| "vault_put n (MemoryVault m) = MemoryVault (memory_put n m)"

fun vault_all :: "vault_state \<Rightarrow> persisted_note list" where
  "vault_all (LocalVault b) = local_read b"
| "vault_all (MemoryVault m) = memory_all m"

fun vault_setSpent :: "string \<Rightarrow> vault_state \<Rightarrow> vault_state" where
  "vault_setSpent c (LocalVault b) = LocalVault (local_setSpent c b)"
| "vault_setSpent c (MemoryVault m) = MemoryVault (memory_setSpent c m)"

fun vault_remove :: "string \<Rightarrow> vault_state \<Rightarrow> vault_state" where
  "vault_remove c (LocalVault b) = LocalVault (local_remove c b)"
| "vault_remove c (MemoryVault m) = MemoryVault (memory_remove c m)"

record shield_state =
  ss_api :: api_provider
  ss_tree :: commitment_tree
  ss_index :: "(string, nat) jsmap"
  ss_store :: note_store
  ss_owner :: "owner_key option"
  ss_viewing :: "viewing_key_pair option"
  ss_wallet :: "string option"
  ss_vault :: "vault_state option"
  ss_drawn :: nat
  ss_events :: "client_event list"

text \<open>
  The environment of one call. Random bytes come by the number of the draw. \<open>ce_relay\<close> are the
  relayers as they answer to an operation and its body. The functions of the package that read a
  Clarity value from hex: \<open>ce_rootOf\<close> is \<open>value?.root?.value\<close> of the decoded value, \<open>ce_isSome\<close> whether
  \<open>value\<close> is not null; \<open>None\<close> and \<open>Inl\<close> are a decoding that throws.
\<close>

record client_env =
  ce_poseidon :: poseidon
  ce_delivery :: delivery
  ce_mk :: "clarity_value \<Rightarrow> cv_result"
  ce_pow10 :: "rat \<Rightarrow> rat"
  ce_api :: api_server
  ce_now :: int
  ce_random :: "nat \<Rightarrow> bytes"
  ce_liveRoot :: relayer_reply
  ce_rootOf :: "string \<Rightarrow> (string, string option) result"
  ce_aggregation :: "string \<Rightarrow> int \<Rightarrow> int \<Rightarrow> nat \<Rightarrow> relayer_reply"
  ce_isSome :: "string \<Rightarrow> bool option"
  ce_tx :: "string \<Rightarrow> nat \<Rightarrow> relayer_reply"
  ce_relay :: "string \<Rightarrow> json \<Rightarrow> relayer_view list"
  ce_zk :: zk_world

type_synonym 'a client_op = "(sdk_error, shield_state, 'a) op"

definition new_STXShield :: "poseidon \<Rightarrow> vault_state option \<Rightarrow> shield_state" where
  "new_STXShield P v =
     \<lparr>ss_api = new_ApiProvider, ss_tree = new_CommitmentTree (poseidon2 P) TREE_DEPTH, ss_index = [], ss_store = [],
      ss_owner = None, ss_viewing = None, ss_wallet = None, ss_vault = v, ss_drawn = 0, ss_events = []\<rparr>"

definition op_event :: "client_event \<Rightarrow> unit client_op" where
  "op_event e = op_modify (\<lambda>s. s\<lparr>ss_events := ss_events s @ [e]\<rparr>)"

definition op_draw :: "client_env \<Rightarrow> bytes client_op" where
  "op_draw env = (\<lambda>s. (Inr (ce_random env (ss_drawn s)), s\<lparr>ss_drawn := ss_drawn s + 1\<rparr>))"

definition client_crypto :: "client_env \<Rightarrow> crypto" where
  "client_crypto env = crypto.truncate (ce_delivery env)"

definition require_signer :: "string \<Rightarrow> resolved_config \<Rightarrow> (sdk_error, wallet_signer) result" where
  "require_signer msg cfg = (case rf_signer cfg of None \<Rightarrow> Inl (ConfigError msg) | Some w \<Rightarrow> Inr w)"

section \<open>Identity and authentication\<close>

definition client_keys :: "client_env \<Rightarrow> resolved_config \<Rightarrow> (owner_key \<times> viewing_key_pair) client_op" where
  "client_keys env cfg = (\<lambda>s.
     case (ss_owner s, ss_viewing s) of
       (Some own, Some view) \<Rightarrow> (Inr (own, view), s)
     | _ \<Rightarrow>
         op_bind (op_lift (require_signer ''a signer is required for note operations'' cfg)) (\<lambda>signer.
         op_bind (op_lift (requireEngine (rf_proofEngine cfg))) (\<lambda>engine.
         op_bind (op_lift (lift_plain (ws_secret signer))) (\<lambda>secret.
         op_bind (op_lift (lift_plain (pe_deriveOwnerKey engine secret))) (\<lambda>own.
           let view = viewingKeyFromSecret (ce_delivery env) secret in
           op_bind (op_modify (\<lambda>s. s\<lparr>ss_owner := Some own, ss_viewing := Some view\<rparr>)) (\<lambda>_.
             op_return (own, view)))))) s)"

definition doConnect :: "client_env \<Rightarrow> resolved_config \<Rightarrow> string client_op" where
  "doConnect env cfg =
     op_bind (op_lift (require_signer ''a signer is required to connect'' cfg)) (\<lambda>signer.
     op_bind (op_lift (lift_plain (ws_getAddress signer (rf_network cfg)))) (\<lambda>wallet.
     op_bind (op_get ss_api) (\<lambda>api.
     op_bind (op_lift (api_authNonce (ce_api env) wallet api)) (\<lambda>msg.
     op_bind (op_lift (lift_plain (ws_signMessage signer msg))) (\<lambda>(signature, publicKey).
     op_bind (op_lift (api_authVerify (ce_api env) wallet publicKey signature msg api)) (\<lambda>token.
     op_bind (op_modify (\<lambda>s. s\<lparr>ss_api := setToken (Some token) (ss_api s), ss_wallet := Some wallet\<rparr>)) (\<lambda>_.
       op_return wallet)))))))"

definition connect :: "client_env \<Rightarrow> resolved_config \<Rightarrow> string client_op" where
  "connect env cfg = (\<lambda>s.
     if authenticated (ss_api s) \<and> ss_wallet s \<noteq> None \<and> ss_wallet s \<noteq> Some []
     then (Inr (the (ss_wallet s)), s) else doConnect env cfg s)"

definition disconnect :: "unit client_op" where
  "disconnect = op_modify (\<lambda>s.
     let (sent, api) = api_logout (ss_api s)
     in s\<lparr>ss_api := api, ss_wallet := None, ss_events := ss_events s @ map ApiWrite sent\<rparr>)"

definition getAddress :: "client_env \<Rightarrow> resolved_config \<Rightarrow> string client_op" where
  "getAddress env cfg =
     op_bind (client_keys env cfg) (\<lambda>(own, view).
       op_return (encodeAddress \<lparr>sa_ownerPkX = ok_pkX own, sa_ownerPkY = ok_pkY own, sa_viewingPk = vk_publicKey view\<rparr>))"

section \<open>Assets\<close>

definition nativeAsset :: "resolved_config \<Rightarrow> asset_info" where
  "nativeAsset cfg =
     (let d = rf_deployer cfg; c = (\<lambda>name. if d \<noteq> [] then d @ CHR ''.'' # name else name)
      in \<lparr>as_id = 0, as_symbol = ''STX'', as_token = None, as_decimals = 6, as_active = True, as_native = True,
          as_pool = c ''privacy-pool'', as_verifier = c ''zk-verifier'', as_splitMerge = c ''split-merge-manager'',
          as_protocolFees = c ''protocol-fees''\<rparr>)"

definition with_native :: "resolved_config \<Rightarrow> asset_info list \<Rightarrow> asset_info list" where
  "with_native cfg assets = (if list_ex as_native assets then assets else nativeAsset cfg # assets)"

definition getAssets :: "client_env \<Rightarrow> resolved_config \<Rightarrow> asset_info list client_op" where
  "getAssets env cfg = (\<lambda>s.
     let (assets, api) = api_getAssets (ce_api env) False (ce_now env) (ce_now env) (ss_api s)
     in (Inr (with_native cfg assets), s\<lparr>ss_api := api\<rparr>))"

definition getAsset :: "client_env \<Rightarrow> resolved_config \<Rightarrow> asset_ref \<Rightarrow> asset_info client_op" where
  "getAsset env cfg ref =
     op_bind (getAssets env cfg) (\<lambda>assets. op_lift (lift_plain (resolveAsset ref assets)))"

definition assetOfNote :: "resolved_config \<Rightarrow> shield_note \<Rightarrow> asset_info" where
  "assetOfNote cfg n = (case sh_asset n of Some a \<Rightarrow> a | None \<Rightarrow> nativeAsset cfg)"

section \<open>Reading notes\<close>

definition loadVaultRecords :: "vault_state option \<Rightarrow> note_record list" where
  "loadVaultRecords v =
     (case v of
        None \<Rightarrow> []
      | Some vs \<Rightarrow> map (\<lambda>n. \<lparr>nr_commitment = pv_commitment n, nr_ciphertext = Some (pv_ciphertext n), nr_root = pv_root n,
                                nr_txid = pv_txid n, nr_spent = pv_spent n, nr_status = None\<rparr>) (vault_all vs))"

definition newest :: "shield_note \<Rightarrow> int" where
  "newest n = or_default (sec_leafIndex (sh_secret n)) MAX_SAFE_INTEGER"

definition getNotes :: "client_env \<Rightarrow> resolved_config \<Rightarrow> asset_ref \<Rightarrow> shield_note list client_op" where
  "getNotes env cfg ref =
     op_bind (client_keys env cfg) (\<lambda>(own, view).
     op_bind (op_get ss_api) (\<lambda>api.
     let records = (case api_getEncryptedNotes (ce_api env) 1000 0 api of Inl _ \<Rightarrow> [] | Inr rs \<Rightarrow> rs) in
     op_bind (getAssets env cfg) (\<lambda>assets.
     op_bind (op_get (\<lambda>s. loadVaultRecords (ss_vault s))) (\<lambda>vaultRecords.
     op_bind (op_lift (lift_js (discoverNotes (ce_poseidon env) (ce_delivery env) (vk_secretKey view) own assets
                (records @ vaultRecords)))) (\<lambda>found.
     op_bind (op_modify (\<lambda>s. s\<lparr>ss_store := fold store_add found (ss_store s)\<rparr>)) (\<lambda>_.
     op_bind (op_get (\<lambda>s. sort_key (\<lambda>n. - newest n) (store_unspent (ss_store s)))) (\<lambda>ns.
       if ref = RefUndefined then op_return ns
       else op_bind (op_lift (lift_plain (resolveAsset ref (with_native cfg assets)))) (\<lambda>asset.
              op_return (filter (\<lambda>n. sameAsset (sh_asset n) asset) ns)))))))))"

section \<open>Statistics and history\<close>

definition client_getStats :: "client_env \<Rightarrow> json client_op" where
  "client_getStats env =
     op_bind (op_get ss_api) (\<lambda>api. op_lift (api_request (ce_api env) ''GET'' ''/stats'' None False api))"

definition getHistory :: "client_env \<Rightarrow> resolved_config \<Rightarrow> json list client_op" where
  "getHistory env cfg =
     op_bind (connect env cfg) (\<lambda>_. op_bind (op_get ss_api) (\<lambda>api. op_lift (api_getMyHistory (ce_api env) api)))"

end
