(* ===== verification/EngineInputs.thy ===== *)
theory EngineInputs
  imports ShieldClient
begin

text \<open>
  The proof engine \<open>sdk/src/proving/bbjs.ts\<close>: the circuit a witness is proved with, the inputs by name that
  the circuit gets, the derivation of an owner key and the proof itself. The packages \<open>noir_js\<close> and \<open>bb.js\<close>
  and the loader of the compiled circuits answer by functions. The caches of the engine keep what the loader
  and the packages gave for a name, so with functions they cannot be seen and are left out; so is the
  WebAssembly instance.
\<close>

section \<open>Circuits and their inputs\<close>

text \<open>\<open>f\<close>: \<open>"0x" + x.toString(16)\<close>.\<close>

definition big_hex :: "int \<Rightarrow> string" where
  "big_hex x = ''0x'' @ (if x < 0 then CHR ''-'' # hex_of_nat (nat (- x)) else hex_of_nat (nat x))"

definition jfield :: "int \<Rightarrow> json" where
  "jfield x = JStr (big_hex x)"

definition jbits :: "bool list \<Rightarrow> json" where
  "jbits bs = JArr (map JBool bs)"

definition jfields :: "int list \<Rightarrow> json" where
  "jfields xs = JArr (map jfield xs)"

definition noteInput :: "note_witness \<Rightarrow> json" where
  "noteInput n =
     JObj [(''amount'', jfield (nw_amount n)), (''owner_pk_x'', jfield (nw_ownerPkX n)), (''owner_pk_y'', jfield (nw_ownerPkY n)),
           (''blinding'', jfield (nw_blinding n))]"

text \<open>An absent field and a zero are both false.\<close>

definition asset_bound :: "int option \<Rightarrow> bool" where
  "asset_bound f = (case f of None \<Rightarrow> False | Some a \<Rightarrow> a \<noteq> 0)"

definition pick :: "string \<Rightarrow> int option \<Rightarrow> string" where
  "pick base f = (if asset_bound f then ''sip10-'' @ base else base)"

definition assetIn :: "int option \<Rightarrow> (string \<times> json) list" where
  "assetIn f = (if asset_bound f then [(''asset_id'', jfield (the f))] else [])"

definition CIRCUIT_VERSION :: json where
  "CIRCUIT_VERSION = JStr ''2''"

definition insIn :: "insertion_proof \<Rightarrow> (string \<times> json) list" where
  "insIn i =
     [(''new_root'', jfield (ip_newRoot i)), (''leaf_index'', jfield (int (ip_leafIndex i))),
      (''insertion_index_bits'', jbits (ip_indexBits i)), (''insertion_siblings'', jfields (ip_siblings i))]"

definition shieldInputs :: "shield_witness \<Rightarrow> string \<times> json" where
  "shieldInputs w =
     (pick ''shield'' (hw_assetField w),
      JObj ([(''op'', JStr ''1''), (''commitment'', jfield (hw_commitment w)), (''owner_commitment'', jfield (hw_ownerCommitment w)),
             (''amount'', jfield (nw_amount (hw_note w))), (''old_root'', jfield (ip_oldRoot (hw_insertion w)))]
            @ insIn (hw_insertion w) @ assetIn (hw_assetField w)
            @ [(''circuit_version'', CIRCUIT_VERSION), (''note'', noteInput (hw_note w))]))"

definition transferInputs :: "transfer_witness \<Rightarrow> string \<times> json" where
  "transferInputs w =
     (pick ''transfer'' (tw_assetField w),
      JObj ([(''op'', JStr ''2''), (''nullifier'', jfield (tw_nullifier w)), (''new_commitment'', jfield (tw_newCommitment w)),
             (''new_owner_commitment'', jfield (tw_newOwnerCommitment w)), (''merkle_root'', jfield (mw_merkleRoot (tw_membership w)))]
            @ insIn (tw_insertion w) @ assetIn (tw_assetField w)
            @ [(''circuit_version'', CIRCUIT_VERSION), (''owner_sk'', jfield (tw_ownerSk w)),
               (''merkle_index'', jbits (mw_indexBits (tw_membership w))), (''merkle_siblings'', jfields (mw_siblings (tw_membership w))),
               (''input'', noteInput (tw_input w)), (''output'', noteInput (tw_output w))]))"

definition splitInputs :: "split_witness \<Rightarrow> string \<times> json" where
  "splitInputs w =
     (pick ''split'' (lw_assetField w),
      JObj ([(''op'', JStr ''4''), (''nullifier'', jfield (lw_nullifier w)), (''commitment_1'', jfield (lw_commitment1 w)),
             (''owner_commitment_1'', jfield (lw_ownerCommitment1 w)), (''commitment_2'', jfield (lw_commitment2 w)),
             (''owner_commitment_2'', jfield (lw_ownerCommitment2 w)), (''merkle_root'', jfield (mw_merkleRoot (lw_membership w))),
             (''new_root'', jfield (ip_newRoot (lw_insertion2 w))), (''leaf_index'', jfield (int (ip_leafIndex (lw_insertion1 w)))),
             (''insertion_index_bits_1'', jbits (ip_indexBits (lw_insertion1 w))),
             (''insertion_siblings_1'', jfields (ip_siblings (lw_insertion1 w))),
             (''insertion_index_bits_2'', jbits (ip_indexBits (lw_insertion2 w))),
             (''insertion_siblings_2'', jfields (ip_siblings (lw_insertion2 w)))]
            @ assetIn (lw_assetField w)
            @ [(''circuit_version'', CIRCUIT_VERSION), (''owner_sk'', jfield (lw_ownerSk w)),
               (''merkle_index'', jbits (mw_indexBits (lw_membership w))), (''merkle_siblings'', jfields (mw_siblings (lw_membership w))),
               (''input'', noteInput (lw_input w)), (''out_1'', noteInput (lw_out1 w)), (''out_2'', noteInput (lw_out2 w))]))"

definition mergeInputs :: "merge_witness \<Rightarrow> string \<times> json" where
  "mergeInputs w =
     (pick ''merge'' (gw_assetField w),
      JObj ([(''op'', JStr ''5''), (''nullifier_1'', jfield (gw_nullifier1 w)), (''nullifier_2'', jfield (gw_nullifier2 w)),
             (''commitment'', jfield (gw_commitment w)), (''owner_commitment'', jfield (gw_ownerCommitment w)),
             (''merkle_root'', jfield (mw_merkleRoot (gw_membership1 w)))]
            @ insIn (gw_insertion w) @ assetIn (gw_assetField w)
            @ [(''circuit_version'', CIRCUIT_VERSION), (''owner_sk_1'', jfield (gw_ownerSk1 w)),
               (''merkle_index_1'', jbits (mw_indexBits (gw_membership1 w))),
               (''merkle_siblings_1'', jfields (mw_siblings (gw_membership1 w))), (''owner_sk_2'', jfield (gw_ownerSk2 w)),
               (''merkle_index_2'', jbits (mw_indexBits (gw_membership2 w))),
               (''merkle_siblings_2'', jfields (mw_siblings (gw_membership2 w))),
               (''input_1'', noteInput (gw_input1 w)), (''input_2'', noteInput (gw_input2 w)), (''output'', noteInput (gw_output w))]))"

definition withdrawInputs :: "withdraw_witness \<Rightarrow> string \<times> json" where
  "withdrawInputs w =
     (pick ''withdraw'' (dw_assetField w),
      JObj ([(''op'', JStr ''3''), (''nullifier'', jfield (dw_nullifier w)), (''amount'', jfield (dw_amount w)),
             (''recipient_hash'', jfield (dw_recipientHash w)), (''merkle_root'', jfield (mw_merkleRoot (dw_membership w)))]
            @ assetIn (dw_assetField w)
            @ [(''circuit_version'', CIRCUIT_VERSION), (''owner_sk'', jfield (dw_ownerSk w)),
               (''merkle_index'', jbits (mw_indexBits (dw_membership w))), (''merkle_siblings'', jfields (mw_siblings (dw_membership w))),
               (''input'', noteInput (dw_input w))]))"

section \<open>Proving\<close>

text \<open>
  The packages: a compiled circuit by its name, the execution of a circuit on inputs (its witness and what it
  returns), a proof with its public inputs, and the verification key. \<open>Inl\<close> is a call that throws.
\<close>

record 'c circuit_world =
  cw_artifact :: "string \<Rightarrow> (string, 'c) result"
  cw_execute :: "'c \<Rightarrow> json \<Rightarrow> (string, bytes \<times> string list) result"
  cw_prove :: "'c \<Rightarrow> bytes \<Rightarrow> (string, bytes \<times> string list) result"
  cw_vk :: "'c \<Rightarrow> (string, bytes) result"

definition proveCircuit :: "'c circuit_world \<Rightarrow> string \<Rightarrow> json \<Rightarrow> (sdk_error, raw_proof) result" where
  "proveCircuit w name inputs =
     (case rbind (cw_artifact w name) (\<lambda>n.
           rbind (cw_execute w n inputs) (\<lambda>(witness, returned).
           rbind (cw_artifact w name) (\<lambda>b.
           rbind (cw_prove w b witness) (\<lambda>(proof, publicInputs).
           rbind (cw_vk w b) (\<lambda>vk.
             Inr \<lparr>rp_proof = ''0x'' @ bytesToHex proof,
                  rp_publicInputs = map add0x publicInputs,
                  rp_vk = ''0x'' @ bytesToHex vk\<rparr>))))) of
        Inr p \<Rightarrow> Inr p
      | Inl e \<Rightarrow> Inl (ProofGenerationError (name @ '' proof generation failed'')))"

text \<open>
  \<open>deriveOwnerKey\<close>. The key circuit returns two field elements; a shorter answer is read as a call that throws.
\<close>

definition owner_scalar :: "bytes \<Rightarrow> int" where
  "owner_scalar secret = (foldl (\<lambda>sk b. (push_bit 8 sk) OR int (unat b)) 0 secret) mod 2 ^ 240 + 1"

definition deriveOwnerKey :: "'c circuit_world \<Rightarrow> bytes \<Rightarrow> (sdk_error, owner_key) result" where
  "deriveOwnerKey w secret =
     (let sk = owner_scalar secret in
      case rbind (cw_artifact w ''keygen'') (\<lambda>n.
           rbind (cw_execute w n (JObj [(''owner_sk'', jfield sk)])) (\<lambda>(witness, returned).
           case returned of
             x # y # rest \<Rightarrow> rbind (js_BigInt_text x) (\<lambda>pkX. rbind (js_BigInt_text y) (\<lambda>pkY.
                               rbind (rmap js_BigInt_text rest) (\<lambda>_. Inr \<lparr>ok_sk = sk, ok_pkX = pkX, ok_pkY = pkY\<rparr>)))
           | _ \<Rightarrow> Inl ''TypeError'')) of
        Inr k \<Rightarrow> Inr k
      | Inl e \<Rightarrow> Inl (ProofGenerationError ''owner key derivation failed''))"

text \<open>The engine a client is configured with; the client sees the message of what it throws.\<close>

definition thrown :: "(sdk_error, 'a) result \<Rightarrow> (string, 'a) result" where
  "thrown r = (case r of Inr a \<Rightarrow> Inr a | Inl (ProofGenerationError m) \<Rightarrow> Inl m | Inl e \<Rightarrow> Inl [])"

definition createBbjsEngine :: "'c circuit_world \<Rightarrow> proof_engine" where
  "createBbjsEngine w =
     \<lparr>pe_deriveOwnerKey = (\<lambda>secret. thrown (deriveOwnerKey w secret)),
      pe_proveShield = (\<lambda>x. case shieldInputs x of (c, i) \<Rightarrow> thrown (proveCircuit w c i)),
      pe_proveTransfer = (\<lambda>x. case transferInputs x of (c, i) \<Rightarrow> thrown (proveCircuit w c i)),
      pe_proveSplit = (\<lambda>x. case splitInputs x of (c, i) \<Rightarrow> thrown (proveCircuit w c i)),
      pe_proveMerge = (\<lambda>x. case mergeInputs x of (c, i) \<Rightarrow> thrown (proveCircuit w c i)),
      pe_proveWithdraw = (\<lambda>x. case withdrawInputs x of (c, i) \<Rightarrow> thrown (proveCircuit w c i))\<rparr>"

section \<open>Facts\<close>

lemma owner_scalar_range: "1 \<le> owner_scalar secret \<and> owner_scalar secret \<le> 2 ^ 240"
proof -
  let ?x = "foldl (\<lambda>sk b. (push_bit 8 sk) OR int (unat b)) 0 secret"
  have "0 \<le> ?x mod 2 ^ 240" "?x mod 2 ^ 240 < 2 ^ 240" by (simp_all del: foldl_Cons)
  then show ?thesis by (simp add: owner_scalar_def)
qed

end
