(* ===== verification/Circuits.thy ===== *)
theory Circuits
  imports EngineInputs
begin

text \<open>
  The Noir circuits of both families (\<open>zk/circuits/*/src/main.nr\<close> and \<open>zk/circuits/sip10/*/src/main.nr\<close>, with their
  libraries): what each circuit asserts of its inputs, with the messages of the source. A \<open>Field\<close> is an integer
  below the BN254 modulus. The package's \<open>hash_2\<close> and \<open>hash_4\<close> are the Poseidon functions the SDK
  takes from its own package, and the scalar multiplication of the curve is a function. The two families differ
  in the public \<open>asset_id\<close> that a commitment of the second binds; \<open>None\<close> is the first family.
\<close>

section \<open>Fields and assertions\<close>

definition is_field :: "int \<Rightarrow> bool" where
  "is_field x \<longleftrightarrow> 0 \<le> x \<and> x < BN254_FIELD_MODULUS"

definition fadd :: "int \<Rightarrow> int \<Rightarrow> int" where
  "fadd a b = (a + b) mod BN254_FIELD_MODULUS"

text \<open>The assertions of a circuit in their order; the first that fails gives its message.\<close>

fun asserts :: "(bool \<times> string) list \<Rightarrow> (string, unit) result" where
  "asserts [] = Inr ()"
| "asserts ((b, m) # as) = (if b then asserts as else Inl m)"

lemma asserts_Inr: "asserts as = Inr u \<longleftrightarrow> list_all fst as"
  by (induction as) (auto split: if_splits)

lemma asserts_Inl: "asserts as = Inl m \<Longrightarrow> \<exists>b \<in> set as. \<not> fst b"
  by (induction as) (auto split: if_splits)

section \<open>The library\<close>

definition noir_commitment :: "poseidon \<Rightarrow> int option \<Rightarrow> note_witness \<Rightarrow> int" where
  "noir_commitment P asset n =
     (let inner = poseidon4 P (nw_amount n) (nw_ownerPkX n) (nw_ownerPkY n) (nw_blinding n)
      in case asset of None \<Rightarrow> inner | Some a \<Rightarrow> poseidon2 P inner a)"

definition owner_commitment :: "poseidon \<Rightarrow> note_witness \<Rightarrow> int" where
  "owner_commitment P n = poseidon2 P (nw_ownerPkX n) (nw_ownerPkY n)"

definition compute_nullifier :: "poseidon \<Rightarrow> int \<Rightarrow> int \<Rightarrow> int" where
  "compute_nullifier P c sk = poseidon2 P c sk"

fun compute_merkle_root :: "poseidon \<Rightarrow> int \<Rightarrow> bool list \<Rightarrow> int list \<Rightarrow> int" where
  "compute_merkle_root P current (b # bs) (s # ss) =
     compute_merkle_root P (if b then poseidon2 P s current else poseidon2 P current s) bs ss"
| "compute_merkle_root P current _ _ = current"

definition EMPTY_LEAF :: int where
  "EMPTY_LEAF = 0"

definition assert_merkle_membership :: "poseidon \<Rightarrow> int \<Rightarrow> bool list \<Rightarrow> int list \<Rightarrow> int \<Rightarrow> (bool \<times> string) list" where
  "assert_merkle_membership P leaf bs ss root1 =
     [(compute_merkle_root P leaf bs ss = root1, ''merkle membership check failed'')]"

definition assert_insertion ::
  "poseidon \<Rightarrow> int \<Rightarrow> bool list \<Rightarrow> int list \<Rightarrow> int \<Rightarrow> int \<Rightarrow> (bool \<times> string) list" where
  "assert_insertion P leaf bs ss old_root new_root =
     [(compute_merkle_root P EMPTY_LEAF bs ss = old_root, ''insertion: old_root mismatch (slot not empty)''),
      (compute_merkle_root P leaf bs ss = new_root, ''insertion: new_root not derived from this append'')]"

fun bits_loop :: "int \<Rightarrow> int \<Rightarrow> bool list \<Rightarrow> int" where
  "bits_loop acc pow [] = acc"
| "bits_loop acc pow (b # bs) = bits_loop (if b then fadd acc pow else acc) (fadd pow pow) bs"

definition assert_index_bits :: "int \<Rightarrow> bool list \<Rightarrow> (bool \<times> string) list" where
  "assert_index_bits leaf_index bs = [(bits_loop 0 1 bs = leaf_index, ''index_bits do not decompose leaf_index'')]"

definition assert_owner :: "(int \<Rightarrow> int \<times> int) \<Rightarrow> int \<Rightarrow> int \<Rightarrow> int \<Rightarrow> (bool \<times> string) list" where
  "assert_owner mul sk x y = [(fst (mul sk) = x, ''owner pk x mismatch''), (snd (mul sk) = y, ''owner pk y mismatch'')]"

definition assert_asset_bound :: "int option \<Rightarrow> (bool \<times> string) list" where
  "assert_asset_bound asset = (case asset of None \<Rightarrow> [] | Some a \<Rightarrow> [(a \<noteq> 0, ''asset must be bound'')])"

text \<open>\<open>assert_max_bit_size::<64>\<close>\<close>

definition assert_64 :: "int \<Rightarrow> (bool \<times> string) list" where
  "assert_64 x = [(x < 2 ^ 64, ''out of range'')]"

definition assert_header :: "int \<Rightarrow> int \<Rightarrow> int \<Rightarrow> string \<Rightarrow> (bool \<times> string) list" where
  "assert_header op1 expected version name =
     [(op1 = expected, ''wrong op for '' @ name @ '' circuit''), (version = 2, ''unsupported circuit version'')]"

section \<open>The circuits\<close>

definition shield_main ::
  "poseidon \<Rightarrow> int option \<Rightarrow> int \<Rightarrow> int \<Rightarrow> int \<Rightarrow> int \<Rightarrow> int \<Rightarrow> int \<Rightarrow> int \<Rightarrow> int \<Rightarrow> note_witness \<Rightarrow> bool list \<Rightarrow> int list \<Rightarrow>
   (string, unit) result" where
  "shield_main P asset op1 commitment owner_commitment1 amount1 old_root new_root leaf_index circuit_version nt
     insertion_index_bits insertion_siblings =
     asserts (
       assert_header op1 1 circuit_version ''shield''
       @ assert_asset_bound asset
       @ [(nw_amount nt = amount1, ''amount mismatch'')]
       @ assert_64 amount1
       @ [(noir_commitment P asset nt = commitment, ''commitment mismatch''),
          (owner_commitment P nt = owner_commitment1, ''owner mismatch'')]
       @ assert_index_bits leaf_index insertion_index_bits
       @ assert_insertion P commitment insertion_index_bits insertion_siblings old_root new_root)"

definition transfer_main ::
  "poseidon \<Rightarrow> (int \<Rightarrow> int \<times> int) \<Rightarrow> int option \<Rightarrow> int \<Rightarrow> int \<Rightarrow> int \<Rightarrow> int \<Rightarrow> int \<Rightarrow> int \<Rightarrow> int \<Rightarrow> int \<Rightarrow> note_witness \<Rightarrow> int \<Rightarrow>
   bool list \<Rightarrow> int list \<Rightarrow> bool list \<Rightarrow> int list \<Rightarrow> note_witness \<Rightarrow> (string, unit) result" where
  "transfer_main P mul asset op1 nullifier new_commitment new_owner_commitment merkle_root new_root leaf_index circuit_version
     input owner_sk merkle_index merkle_siblings insertion_index_bits insertion_siblings output =
     (let c = noir_commitment P asset input in
      asserts (
        assert_header op1 2 circuit_version ''transfer''
        @ assert_asset_bound asset
        @ assert_owner mul owner_sk (nw_ownerPkX input) (nw_ownerPkY input)
        @ [(compute_nullifier P c owner_sk = nullifier, ''nullifier mismatch'')]
        @ assert_merkle_membership P c merkle_index merkle_siblings merkle_root
        @ [(nw_amount input = nw_amount output, ''value not conserved'')]
        @ assert_64 (nw_amount output)
        @ [(noir_commitment P asset output = new_commitment, ''output commitment mismatch''),
           (owner_commitment P output = new_owner_commitment, ''output owner mismatch'')]
        @ assert_index_bits leaf_index insertion_index_bits
        @ assert_insertion P new_commitment insertion_index_bits insertion_siblings merkle_root new_root))"

definition split_main ::
  "poseidon \<Rightarrow> (int \<Rightarrow> int \<times> int) \<Rightarrow> int option \<Rightarrow> int \<Rightarrow> int \<Rightarrow> int \<Rightarrow> int \<Rightarrow> int \<Rightarrow> int \<Rightarrow> int \<Rightarrow> int \<Rightarrow> int \<Rightarrow> int \<Rightarrow> note_witness \<Rightarrow> int \<Rightarrow>
   bool list \<Rightarrow> int list \<Rightarrow> note_witness \<Rightarrow> note_witness \<Rightarrow> bool list \<Rightarrow> int list \<Rightarrow> bool list \<Rightarrow> int list \<Rightarrow> (string, unit) result" where
  "split_main P mul asset op1 nullifier commitment_1 owner_commitment_1 commitment_2 owner_commitment_2 merkle_root new_root
     leaf_index circuit_version input owner_sk merkle_index merkle_siblings out_1 out_2
     insertion_index_bits_1 insertion_siblings_1 insertion_index_bits_2 insertion_siblings_2 =
     (let c = noir_commitment P asset input;
          mid_root = compute_merkle_root P commitment_1 insertion_index_bits_1 insertion_siblings_1 in
      asserts (
        assert_header op1 4 circuit_version ''split''
        @ assert_asset_bound asset
        @ assert_owner mul owner_sk (nw_ownerPkX input) (nw_ownerPkY input)
        @ [(compute_nullifier P c owner_sk = nullifier, ''nullifier mismatch'')]
        @ assert_merkle_membership P c merkle_index merkle_siblings merkle_root
        @ [(nw_amount input = fadd (nw_amount out_1) (nw_amount out_2), ''value not conserved'')]
        @ assert_64 (nw_amount out_1) @ assert_64 (nw_amount out_2)
        @ [(noir_commitment P asset out_1 = commitment_1, ''output 1 commitment mismatch''),
           (owner_commitment P out_1 = owner_commitment_1, ''output 1 owner mismatch''),
           (noir_commitment P asset out_2 = commitment_2, ''output 2 commitment mismatch''),
           (owner_commitment P out_2 = owner_commitment_2, ''output 2 owner mismatch''),
           (commitment_1 \<noteq> commitment_2, ''split outputs collide'')]
        @ assert_index_bits leaf_index insertion_index_bits_1
        @ assert_index_bits (fadd leaf_index 1) insertion_index_bits_2
        @ assert_insertion P commitment_1 insertion_index_bits_1 insertion_siblings_1 merkle_root mid_root
        @ assert_insertion P commitment_2 insertion_index_bits_2 insertion_siblings_2 mid_root new_root))"

definition merge_main ::
  "poseidon \<Rightarrow> (int \<Rightarrow> int \<times> int) \<Rightarrow> int option \<Rightarrow> int \<Rightarrow> int \<Rightarrow> int \<Rightarrow> int \<Rightarrow> int \<Rightarrow> int \<Rightarrow> int \<Rightarrow> int \<Rightarrow> int \<Rightarrow> note_witness \<Rightarrow> int \<Rightarrow>
   bool list \<Rightarrow> int list \<Rightarrow> note_witness \<Rightarrow> int \<Rightarrow> bool list \<Rightarrow> int list \<Rightarrow> note_witness \<Rightarrow> bool list \<Rightarrow> int list \<Rightarrow>
   (string, unit) result" where
  "merge_main P mul asset op1 nullifier_1 nullifier_2 commitment owner_commitment1 merkle_root new_root leaf_index circuit_version
     input_1 owner_sk_1 merkle_index_1 merkle_siblings_1 input_2 owner_sk_2 merkle_index_2 merkle_siblings_2 output
     insertion_index_bits insertion_siblings =
     (let c1 = noir_commitment P asset input_1; c2 = noir_commitment P asset input_2 in
      asserts (
        assert_header op1 5 circuit_version ''merge''
        @ assert_asset_bound asset
        @ assert_owner mul owner_sk_1 (nw_ownerPkX input_1) (nw_ownerPkY input_1)
        @ [(compute_nullifier P c1 owner_sk_1 = nullifier_1, ''nullifier 1 mismatch'')]
        @ assert_merkle_membership P c1 merkle_index_1 merkle_siblings_1 merkle_root
        @ assert_owner mul owner_sk_2 (nw_ownerPkX input_2) (nw_ownerPkY input_2)
        @ [(compute_nullifier P c2 owner_sk_2 = nullifier_2, ''nullifier 2 mismatch'')]
        @ assert_merkle_membership P c2 merkle_index_2 merkle_siblings_2 merkle_root
        @ [(c1 \<noteq> c2, ''merge inputs identical''), (nullifier_1 \<noteq> nullifier_2, ''merge nullifiers identical''),
           (fadd (nw_amount input_1) (nw_amount input_2) = nw_amount output, ''value not conserved'')]
        @ assert_64 (nw_amount output)
        @ [(noir_commitment P asset output = commitment, ''output commitment mismatch''),
           (owner_commitment P output = owner_commitment1, ''output owner mismatch'')]
        @ assert_index_bits leaf_index insertion_index_bits
        @ assert_insertion P commitment insertion_index_bits insertion_siblings merkle_root new_root))"

definition withdraw_main ::
  "poseidon \<Rightarrow> (int \<Rightarrow> int \<times> int) \<Rightarrow> int option \<Rightarrow> int \<Rightarrow> int \<Rightarrow> int \<Rightarrow> int \<Rightarrow> int \<Rightarrow> int \<Rightarrow> note_witness \<Rightarrow> int \<Rightarrow>
   bool list \<Rightarrow> int list \<Rightarrow> (string, unit) result" where
  "withdraw_main P mul asset op1 nullifier amount1 recipient_hash merkle_root circuit_version input owner_sk merkle_index
     merkle_siblings =
     (let c = noir_commitment P asset input in
      asserts (
        assert_header op1 3 circuit_version ''withdraw''
        @ assert_asset_bound asset
        @ assert_owner mul owner_sk (nw_ownerPkX input) (nw_ownerPkY input)
        @ [(compute_nullifier P c owner_sk = nullifier, ''nullifier mismatch'')]
        @ assert_merkle_membership P c merkle_index merkle_siblings merkle_root
        @ [(nw_amount input = amount1, ''withdraw amount mismatch'')]
        @ assert_64 amount1
        @ [(recipient_hash \<noteq> 0, ''recipient must be bound'')]))"

section \<open>Inputs by name\<close>

text \<open>
  The parameters of \<open>main\<close> are read from the inputs by their names: a field element from its text, an
  array of the depth of the tree, a \<open>Note\<close> from its fields. An input that is missing or has another shape
  is an error; one that no parameter names is not looked at.
\<close>

definition abi_number :: "json \<Rightarrow> (string, int) result" where
  "abi_number v =
     (case v of
        JStr t \<Rightarrow> rbind (js_BigInt_text t) (\<lambda>x. rbind (rguard (is_field x) ''not a field element'') (\<lambda>_. Inr x))
      | _ \<Rightarrow> Inl ''not a field element'')"

definition abi_get :: "json \<Rightarrow> string \<Rightarrow> (string, json) result" where
  "abi_get j k = (case json_field j k of None \<Rightarrow> Inl (''missing input '' @ k) | Some v \<Rightarrow> Inr v)"

definition abi_field :: "json \<Rightarrow> string \<Rightarrow> (string, int) result" where
  "abi_field j k = rbind (abi_get j k) abi_number"

definition abi_array :: "(json \<Rightarrow> (string, 'a) result) \<Rightarrow> json \<Rightarrow> (string, 'a list) result" where
  "abi_array f v =
     (case v of
        JArr vs \<Rightarrow> rbind (rguard (length vs = TREE_DEPTH) ''wrong array length'') (\<lambda>_. rmap f vs)
      | _ \<Rightarrow> Inl ''not an array'')"

definition abi_bool :: "json \<Rightarrow> (string, bool) result" where
  "abi_bool v = (case v of JBool b \<Rightarrow> Inr b | _ \<Rightarrow> Inl ''not a bool'')"

definition abi_bits :: "json \<Rightarrow> string \<Rightarrow> (string, bool list) result" where
  "abi_bits j k = rbind (abi_get j k) (abi_array abi_bool)"

definition abi_fields :: "json \<Rightarrow> string \<Rightarrow> (string, int list) result" where
  "abi_fields j k = rbind (abi_get j k) (abi_array abi_number)"

definition abi_struct :: "json \<Rightarrow> (string, note_witness) result" where
  "abi_struct v =
     rbind (abi_field v ''amount'') (\<lambda>a. rbind (abi_field v ''owner_pk_x'') (\<lambda>x.
     rbind (abi_field v ''owner_pk_y'') (\<lambda>y. rbind (abi_field v ''blinding'') (\<lambda>b.
       Inr \<lparr>nw_amount = a, nw_ownerPkX = x, nw_ownerPkY = y, nw_blinding = b\<rparr>))))"

definition abi_note :: "json \<Rightarrow> string \<Rightarrow> (string, note_witness) result" where
  "abi_note j k = rbind (abi_get j k) abi_struct"

definition abi_asset :: "bool \<Rightarrow> json \<Rightarrow> (string, int option) result" where
  "abi_asset sip10 j = (if sip10 then rbind (abi_field j ''asset_id'') (\<lambda>a. Inr (Some a)) else Inr None)"

definition run_shield :: "poseidon \<Rightarrow> bool \<Rightarrow> json \<Rightarrow> (string, unit) result" where
  "run_shield P sip10 j =
     rbind (abi_field j ''op'') (\<lambda>op1. rbind (abi_field j ''commitment'') (\<lambda>c. rbind (abi_field j ''owner_commitment'') (\<lambda>oc.
     rbind (abi_field j ''amount'') (\<lambda>a. rbind (abi_field j ''old_root'') (\<lambda>o1. rbind (abi_field j ''new_root'') (\<lambda>n1.
     rbind (abi_field j ''leaf_index'') (\<lambda>l. rbind (abi_asset sip10 j) (\<lambda>asset. rbind (abi_field j ''circuit_version'') (\<lambda>v.
     rbind (abi_note j ''note'') (\<lambda>nt. rbind (abi_bits j ''insertion_index_bits'') (\<lambda>bs.
     rbind (abi_fields j ''insertion_siblings'') (\<lambda>ss.
       shield_main P asset op1 c oc a o1 n1 l v nt bs ss))))))))))))"

definition run_transfer :: "poseidon \<Rightarrow> (int \<Rightarrow> int \<times> int) \<Rightarrow> bool \<Rightarrow> json \<Rightarrow> (string, unit) result" where
  "run_transfer P mul sip10 j =
     rbind (abi_field j ''op'') (\<lambda>op1. rbind (abi_field j ''nullifier'') (\<lambda>nf. rbind (abi_field j ''new_commitment'') (\<lambda>c.
     rbind (abi_field j ''new_owner_commitment'') (\<lambda>oc. rbind (abi_field j ''merkle_root'') (\<lambda>m.
     rbind (abi_field j ''new_root'') (\<lambda>n1. rbind (abi_field j ''leaf_index'') (\<lambda>l. rbind (abi_asset sip10 j) (\<lambda>asset.
     rbind (abi_field j ''circuit_version'') (\<lambda>v. rbind (abi_note j ''input'') (\<lambda>i. rbind (abi_field j ''owner_sk'') (\<lambda>sk.
     rbind (abi_bits j ''merkle_index'') (\<lambda>mb. rbind (abi_fields j ''merkle_siblings'') (\<lambda>ms.
     rbind (abi_bits j ''insertion_index_bits'') (\<lambda>bs. rbind (abi_fields j ''insertion_siblings'') (\<lambda>ss.
     rbind (abi_note j ''output'') (\<lambda>out.
       transfer_main P mul asset op1 nf c oc m n1 l v i sk mb ms bs ss out))))))))))))))))"

definition run_split :: "poseidon \<Rightarrow> (int \<Rightarrow> int \<times> int) \<Rightarrow> bool \<Rightarrow> json \<Rightarrow> (string, unit) result" where
  "run_split P mul sip10 j =
     rbind (abi_field j ''op'') (\<lambda>op1. rbind (abi_field j ''nullifier'') (\<lambda>nf. rbind (abi_field j ''commitment_1'') (\<lambda>c1.
     rbind (abi_field j ''owner_commitment_1'') (\<lambda>oc1. rbind (abi_field j ''commitment_2'') (\<lambda>c2.
     rbind (abi_field j ''owner_commitment_2'') (\<lambda>oc2. rbind (abi_field j ''merkle_root'') (\<lambda>m.
     rbind (abi_field j ''new_root'') (\<lambda>n1. rbind (abi_field j ''leaf_index'') (\<lambda>l. rbind (abi_asset sip10 j) (\<lambda>asset.
     rbind (abi_field j ''circuit_version'') (\<lambda>v. rbind (abi_note j ''input'') (\<lambda>i. rbind (abi_field j ''owner_sk'') (\<lambda>sk.
     rbind (abi_bits j ''merkle_index'') (\<lambda>mb. rbind (abi_fields j ''merkle_siblings'') (\<lambda>ms.
     rbind (abi_note j ''out_1'') (\<lambda>out1. rbind (abi_note j ''out_2'') (\<lambda>out2.
     rbind (abi_bits j ''insertion_index_bits_1'') (\<lambda>b1. rbind (abi_fields j ''insertion_siblings_1'') (\<lambda>s1.
     rbind (abi_bits j ''insertion_index_bits_2'') (\<lambda>b2. rbind (abi_fields j ''insertion_siblings_2'') (\<lambda>s2.
       split_main P mul asset op1 nf c1 oc1 c2 oc2 m n1 l v i sk mb ms out1 out2 b1 s1 b2 s2)))))))))))))))))))))"

definition run_merge :: "poseidon \<Rightarrow> (int \<Rightarrow> int \<times> int) \<Rightarrow> bool \<Rightarrow> json \<Rightarrow> (string, unit) result" where
  "run_merge P mul sip10 j =
     rbind (abi_field j ''op'') (\<lambda>op1. rbind (abi_field j ''nullifier_1'') (\<lambda>nf1. rbind (abi_field j ''nullifier_2'') (\<lambda>nf2.
     rbind (abi_field j ''commitment'') (\<lambda>c. rbind (abi_field j ''owner_commitment'') (\<lambda>oc. rbind (abi_field j ''merkle_root'') (\<lambda>m.
     rbind (abi_field j ''new_root'') (\<lambda>n1. rbind (abi_field j ''leaf_index'') (\<lambda>l. rbind (abi_asset sip10 j) (\<lambda>asset.
     rbind (abi_field j ''circuit_version'') (\<lambda>v. rbind (abi_note j ''input_1'') (\<lambda>i1. rbind (abi_field j ''owner_sk_1'') (\<lambda>sk1.
     rbind (abi_bits j ''merkle_index_1'') (\<lambda>mb1. rbind (abi_fields j ''merkle_siblings_1'') (\<lambda>ms1.
     rbind (abi_note j ''input_2'') (\<lambda>i2. rbind (abi_field j ''owner_sk_2'') (\<lambda>sk2.
     rbind (abi_bits j ''merkle_index_2'') (\<lambda>mb2. rbind (abi_fields j ''merkle_siblings_2'') (\<lambda>ms2.
     rbind (abi_note j ''output'') (\<lambda>out. rbind (abi_bits j ''insertion_index_bits'') (\<lambda>bs.
     rbind (abi_fields j ''insertion_siblings'') (\<lambda>ss.
       merge_main P mul asset op1 nf1 nf2 c oc m n1 l v i1 sk1 mb1 ms1 i2 sk2 mb2 ms2 out bs ss)))))))))))))))))))))"

definition run_withdraw :: "poseidon \<Rightarrow> (int \<Rightarrow> int \<times> int) \<Rightarrow> bool \<Rightarrow> json \<Rightarrow> (string, unit) result" where
  "run_withdraw P mul sip10 j =
     rbind (abi_field j ''op'') (\<lambda>op1. rbind (abi_field j ''nullifier'') (\<lambda>nf. rbind (abi_field j ''amount'') (\<lambda>a.
     rbind (abi_field j ''recipient_hash'') (\<lambda>h. rbind (abi_field j ''merkle_root'') (\<lambda>m. rbind (abi_asset sip10 j) (\<lambda>asset.
     rbind (abi_field j ''circuit_version'') (\<lambda>v. rbind (abi_note j ''input'') (\<lambda>i. rbind (abi_field j ''owner_sk'') (\<lambda>sk.
     rbind (abi_bits j ''merkle_index'') (\<lambda>mb. rbind (abi_fields j ''merkle_siblings'') (\<lambda>ms.
       withdraw_main P mul asset op1 nf a h m v i sk mb ms)))))))))))"

text \<open>The circuit of a name on inputs: \<open>Inr\<close> if a witness exists, else the first failure.\<close>

definition circuit :: "poseidon \<Rightarrow> (int \<Rightarrow> int \<times> int) \<Rightarrow> string \<Rightarrow> json \<Rightarrow> (string, unit) result" where
  "circuit P mul name j =
     (let sip10 = js_startsWith name ''sip10-''; base = (if sip10 then drop 6 name else name)
      in if base = ''shield'' then run_shield P sip10 j
         else if base = ''transfer'' then run_transfer P mul sip10 j
         else if base = ''split'' then run_split P mul sip10 j
         else if base = ''merge'' then run_merge P mul sip10 j
         else if base = ''withdraw'' then run_withdraw P mul sip10 j
         else Inl ''unknown circuit'')"

end
