(* ===== verification/ShieldOps.thy ===== *)
theory ShieldOps
  imports ShieldClient
begin

text \<open>
  The operations of \<open>STXShield\<close> (\<open>sdk/src/client/STXShield.ts\<close>): the synchronised tree and its
  witnesses, fresh notes and their delivery, the waits on the chain, and shield, transfer, split,
  merge and withdraw. A spend is three definitions, as it is interrupted where it waits for its proof:
  what is prepared, the proof, and what is posted and recorded.
\<close>

section \<open>The tree of the chain\<close>

definition norm_commitment :: "string \<Rightarrow> string" where
  "norm_commitment c = js_toLowerCase (normalize_hex c)"

fun sync_loop ::
  "(int \<Rightarrow> int \<Rightarrow> int) \<Rightarrow> string list \<Rightarrow> commitment_tree \<Rightarrow> (string, nat) jsmap \<Rightarrow>
   (js_error, commitment_tree \<times> (string, nat) jsmap) result" where
  "sync_loop p [] t m = Inr (t, m)"
| "sync_loop p (c # cs) t m =
     (let norm = norm_commitment c in
      rbind (tree_insert p (hexToBytes norm) t) (\<lambda>(i, t'). sync_loop p cs t' (jm_set norm i m)))"

definition syncTree :: "client_env \<Rightarrow> unit client_op" where
  "syncTree env =
     op_bind (op_get ss_api) (\<lambda>api.
     op_bind (op_lift (api_getCommitments (ce_api env) api)) (\<lambda>commits.
     let p = poseidon2 (ce_poseidon env) in
     op_bind (op_lift (lift_js (sync_loop p commits (new_CommitmentTree p TREE_DEPTH) []))) (\<lambda>(t, m).
       op_modify (\<lambda>s. s\<lparr>ss_tree := t, ss_index := m\<rparr>))))"

definition membership ::
  "commitment_tree \<Rightarrow> (string, nat) jsmap \<Rightarrow> shield_note \<Rightarrow> (sdk_error, membership_witness) result" where
  "membership t m n =
     (case jm_get m (js_toLowerCase (sh_commitment n)) of
        None \<Rightarrow> Inl (InvalidNoteError ''note commitment is not on chain yet (wait for confirmation)'')
      | Some i \<Rightarrow>
          lift_js (rbind (tree_proof (int i) t) (\<lambda>pr.
                   rbind (rmap bytesToBig (mp_siblings pr)) (\<lambda>ss.
                   rbind (bytesToBig (tree_root t)) (\<lambda>r.
                     Inr \<lparr>mw_indexBits = mp_indexBits pr, mw_siblings = ss, mw_merkleRoot = r\<rparr>)))))"

definition currentRootHex :: "commitment_tree \<Rightarrow> string" where
  "currentRootHex t = ''0x'' @ bytesToHex (tree_root t)"

definition insertionFor ::
  "(int \<Rightarrow> int \<Rightarrow> int) \<Rightarrow> string \<Rightarrow> commitment_tree \<Rightarrow> (sdk_error, insertion_proof) result" where
  "insertionFor p commitmentHex t =
     lift_js (rbind (insertionWitness p (hexToBytes commitmentHex) t) (\<lambda>w.
              rbind (rmap bytesToBig (iw_siblings w)) (\<lambda>ss.
              rbind (bytesToBig (iw_oldRoot w)) (\<lambda>o1.
              rbind (bytesToBig (iw_newRoot w)) (\<lambda>n1.
                Inr \<lparr>ip_leafIndex = iw_index w, ip_indexBits = iw_indexBits w, ip_siblings = ss,
                     ip_oldRoot = o1, ip_newRoot = n1\<rparr>)))))"

text \<open>\<open>this.tree.insert\<close>\<close>

definition client_insert :: "client_env \<Rightarrow> string \<Rightarrow> nat client_op" where
  "client_insert env commitmentHex = (\<lambda>s.
     case tree_insert (poseidon2 (ce_poseidon env)) (hexToBytes commitmentHex) (ss_tree s) of
       Inl e \<Rightarrow> (Inl (JsThrown e), s)
     | Inr (i, t) \<Rightarrow> (Inr i, s\<lparr>ss_tree := t\<rparr>))"

definition client_membership :: "shield_note \<Rightarrow> membership_witness client_op" where
  "client_membership n = (\<lambda>s. (membership (ss_tree s) (ss_index s) n, s))"

definition client_insertion :: "client_env \<Rightarrow> string \<Rightarrow> insertion_proof client_op" where
  "client_insertion env c = (\<lambda>s. (insertionFor (poseidon2 (ce_poseidon env)) c (ss_tree s), s))"

definition client_root :: "string client_op" where
  "client_root = op_get (\<lambda>s. currentRootHex (ss_tree s))"

definition fetchCurrentRoot :: "client_env \<Rightarrow> (sdk_error, string) result" where
  "fetchCurrentRoot env =
     (case ce_liveRoot env of
        ReplyThrows e \<Rightarrow> Inl (OtherThrown e)
      | Reply s None \<Rightarrow> Inl (JsThrown SyntaxError)
      | Reply s (Some j) \<Rightarrow>
          rbind (js_prop j ''result'') (\<lambda>v.
            case json_text v of
              None \<Rightarrow> Inl (RootNotFoundError ''could not read the live current root'')
            | Some t \<Rightarrow>
                if t = [] then Inl (RootNotFoundError ''could not read the live current root'')
                else (case ce_rootOf env t of
                        Inl e \<Rightarrow> Inl (OtherThrown e)
                      | Inr root1 \<Rightarrow>
                          (case root1 of
                             None \<Rightarrow> Inl (RootNotFoundError ''unexpected get-current-root response shape'')
                           | Some r \<Rightarrow> if r = [] then Inl (RootNotFoundError ''unexpected get-current-root response shape'')
                                       else Inr r))))"

section \<open>Fresh notes\<close>

record fresh_note =
  fn_note :: shield_note
  fn_commitment :: int
  fn_ownerCommitment :: int

text \<open>The note of an owner key for an amount, with the blinding drawn; \<open>sk\<close> is 0 for a recipient's note.\<close>

definition note_for ::
  "client_env \<Rightarrow> int \<Rightarrow> int \<Rightarrow> int \<Rightarrow> int \<Rightarrow> asset_info \<Rightarrow> int option \<Rightarrow> int \<Rightarrow> fresh_note" where
  "note_for env amount sk x y asset assetField blinding =
     (let P = ce_poseidon env;
          c = commitmentOf P \<lparr>ci_amount = amount, ci_ownerPkX = x, ci_ownerPkY = y, ci_blinding = blinding,
                              ci_assetField = assetField\<rparr>
      in \<lparr>fn_note = \<lparr>sh_commitment = toHex32 c, sh_ciphertext = [], sh_root = [], sh_txid = [], sh_amount = amount,
            sh_asset = Some asset, sh_spent = False, sh_status = None,
            sh_secret = \<lparr>sec_ownerSk = sk, sec_ownerPkX = x, sec_ownerPkY = y, sec_blinding = blinding, sec_leafIndex = None,
              sec_assetId = (if as_native asset then None else Some (as_id asset)), sec_assetField = assetField\<rparr>\<rparr>,
          fn_commitment = c, fn_ownerCommitment = ownerCommitmentOf P x y\<rparr>)"

definition newNote :: "client_env \<Rightarrow> int \<Rightarrow> owner_key \<Rightarrow> asset_info \<Rightarrow> fresh_note client_op" where
  "newNote env amount own asset =
     op_bind (op_draw env) (\<lambda>drawn.
     op_bind (op_lift (lift_js (assetFieldFor (client_crypto env) asset))) (\<lambda>f.
       op_return (note_for env amount (ok_sk own) (ok_pkX own) (ok_pkY own) asset f (randomBlinding drawn))))"

definition recipientNote :: "client_env \<Rightarrow> int \<Rightarrow> shield_address \<Rightarrow> asset_info \<Rightarrow> fresh_note client_op" where
  "recipientNote env amount addr asset =
     op_bind (op_draw env) (\<lambda>drawn.
     op_bind (op_lift (lift_js (assetFieldFor (client_crypto env) asset))) (\<lambda>f.
       op_return (note_for env amount 0 (sa_ownerPkX addr) (sa_ownerPkY addr) asset f (randomBlinding drawn))))"

definition witnessNote :: "shield_note \<Rightarrow> note_witness" where
  "witnessNote n =
     \<lparr>nw_amount = sh_amount n, nw_ownerPkX = sec_ownerPkX (sh_secret n), nw_ownerPkY = sec_ownerPkY (sh_secret n),
      nw_blinding = sec_blinding (sh_secret n)\<rparr>"

text \<open>\<open>nullifierOf(BigInt(note.commitment), note.secret.ownerSk)\<close>\<close>

definition note_nullifier :: "client_env \<Rightarrow> shield_note \<Rightarrow> (sdk_error, int) result" where
  "note_nullifier env n =
     rbind (lift_plain (js_BigInt_text (sh_commitment n))) (\<lambda>c.
       Inr (nullifierOf (ce_poseidon env) c (sec_ownerSk (sh_secret n))))"

section \<open>Recording notes\<close>

definition api_write :: "client_env \<Rightarrow> http_request \<Rightarrow> unit client_op" where
  "api_write env rq = op_bind (op_event (ApiWrite rq)) (\<lambda>_. op_lift (api_send (ce_api env) rq))"

definition when_authenticated :: "(api_provider \<Rightarrow> unit client_op) \<Rightarrow> unit client_op" where
  "when_authenticated f =
     op_bind (op_get ss_api) (\<lambda>api. if authenticated api then op_catch (f api) (\<lambda>e. op_return ()) else op_return ())"

definition storeCiphertext ::
  "client_env \<Rightarrow> resolved_config \<Rightarrow> shield_note \<Rightarrow> nat \<Rightarrow> bytes option \<Rightarrow> string client_op" where
  "storeCiphertext env cfg n leafIndex viewingPubKey =
     op_bind (case viewingPubKey of
                None \<Rightarrow> op_bind (client_keys env cfg) (\<lambda>(own, view). op_return (vk_publicKey view))
              | Some v \<Rightarrow> op_return v) (\<lambda>vpk.
     op_bind (op_draw env) (\<lambda>drawn.
     op_bind (op_draw env) (\<lambda>ephSk.
     op_bind (op_lift (lift_plain (encryptNote (ce_delivery env)
                \<lparr>np_version = Some 1, np_amount = sh_amount n, np_blinding = sec_blinding (sh_secret n),
                 np_ownerSk = sec_ownerSk (sh_secret n), np_nonce = randomBlinding drawn,
                 np_commitment = hexToBytes (sh_commitment n), np_treePosition = Some (of_nat leafIndex),
                 np_assetId = map_option Some (sec_assetId (sh_secret n))\<rparr> vpk ephSk))) (\<lambda>enc.
     let ciphertext = ''0x'' @ toHex (encodeEncryptedNote enc) in
     op_bind (when_authenticated (\<lambda>api. api_write env (registerNote_request (sh_commitment n) ciphertext api))) (\<lambda>_.
       op_return ciphertext)))))"

definition update_vault :: "(vault_state \<Rightarrow> vault_state) \<Rightarrow> unit client_op" where
  "update_vault f = op_modify (\<lambda>s. s\<lparr>ss_vault := map_option f (ss_vault s)\<rparr>)"

definition update_store :: "(note_store \<Rightarrow> note_store) \<Rightarrow> unit client_op" where
  "update_store f = op_modify (\<lambda>s. s\<lparr>ss_store := f (ss_store s)\<rparr>)"

definition persisted_of :: "shield_note \<Rightarrow> persisted_note" where
  "persisted_of n =
     \<lparr>pv_commitment = sh_commitment n, pv_ciphertext = sh_ciphertext n, pv_root = sh_root n, pv_txid = sh_txid n,
      pv_leafIndex = sec_leafIndex (sh_secret n), pv_assetId = sec_assetId (sh_secret n), pv_spent = sh_spent n\<rparr>"

definition persist :: "shield_note \<Rightarrow> unit client_op" where
  "persist n = update_vault (vault_put (persisted_of n))"

definition consume_outside :: "client_env \<Rightarrow> shield_note \<Rightarrow> unit client_op" where
  "consume_outside env n =
     op_bind (update_vault (vault_setSpent (sh_commitment n))) (\<lambda>_.
       when_authenticated (\<lambda>api.
         op_bind (if sh_ciphertext n \<noteq> [] then api_write env (registerNote_request (sh_commitment n) (sh_ciphertext n) api)
                  else op_return ()) (\<lambda>_.
           api_write env (markSpent_request (sh_commitment n) api))))"

definition consume :: "client_env \<Rightarrow> shield_note \<Rightarrow> unit client_op" where
  "consume env n =
     op_bind (update_store (store_markSpent (sh_commitment n))) (\<lambda>_. consume_outside env n)"

text \<open>A note as it is kept once its transaction is known.\<close>

definition landed :: "shield_note \<Rightarrow> string \<Rightarrow> string \<Rightarrow> string \<Rightarrow> nat \<Rightarrow> shield_note" where
  "landed n ciphertext newRoot txid leaf =
     n\<lparr>sh_ciphertext := ciphertext, sh_root := newRoot, sh_txid := txid, sh_status := Some ''pending'',
       sh_secret := (sh_secret n)\<lparr>sec_leafIndex := Some (int leaf)\<rparr>\<rparr>"

definition keep_note :: "shield_note \<Rightarrow> unit client_op" where
  "keep_note n = op_bind (update_store (store_add n)) (\<lambda>_. persist n)"

definition pickNote :: "int \<Rightarrow> asset_info \<Rightarrow> note_store \<Rightarrow> (sdk_error, shield_note) result" where
  "pickNote base asset st =
     (case find (\<lambda>n. sh_amount n = base \<and> sameAsset (sh_asset n) asset) (store_unspent st) of
        None \<Rightarrow> Inl (InvalidNoteError (''no unspent '' @ as_symbol asset @ '' note of exactly '' @ dec_of_int base @
                      '' base units; split first''))
      | Some n \<Rightarrow> Inr n)"

section \<open>Waiting on the chain\<close>

definition splitPrincipal :: "string \<Rightarrow> (sdk_error, string \<times> string) result" where
  "splitPrincipal p =
     (let parts = js_split (CHR ''.'') p; addr = parts ! 0; name = (if 1 < length parts then parts ! 1 else [])
      in if addr = [] \<or> name = [] then Inl (ConfigError (''malformed contract principal: '' @ p)) else Inr (addr, name))"

definition aggregationPosted :: "(string \<Rightarrow> bool option) \<Rightarrow> relayer_reply \<Rightarrow> bool" where
  "aggregationPosted isSome reply =
     (case reply of
        Reply s (Some (JObj fs)) \<Rightarrow>
          (case json_text (json_field (JObj fs) ''result'') of
             Some t \<Rightarrow> t \<noteq> [] \<and> isSome t = Some True
           | None \<Rightarrow> False)
      | _ \<Rightarrow> False)"

fun root_loop :: "(nat \<Rightarrow> bool) \<Rightarrow> nat \<Rightarrow> nat \<Rightarrow> bool" where
  "root_loop posted 0 i = False"
| "root_loop posted (Suc tries) i = (posted i \<or> root_loop posted tries (i + 1))"

definition waitForRoot :: "client_env \<Rightarrow> client_inclusion \<Rightarrow> string \<Rightarrow> unit client_op" where
  "waitForRoot env inc verifier =
     op_event (RootWait (root_loop
       (\<lambda>i. aggregationPosted (ce_isSome env) (ce_aggregation env verifier (inc_domainId inc) (inc_aggregationId inc) i)) 45 0))"

text \<open>One poll of \<open>waitForTx\<close>: settled, reverted, or still open.\<close>

datatype tx_poll = Settled | RevertedTx string | Open

definition poll_tx :: "relayer_reply \<Rightarrow> tx_poll" where
  "poll_tx reply =
     (case reply of
        Reply s (Some (JObj fs)) \<Rightarrow>
          if \<not> reply_ok s then Open
          else (case json_text (json_field (JObj fs) ''tx_status'') of
                  None \<Rightarrow> Open
                | Some st \<Rightarrow>
                    if st = ''success'' then Settled
                    else if js_startsWith st ''abort'' \<or> js_startsWith st ''dropped''
                    then (let repr = Option.bind (json_field (JObj fs) ''tx_result'') (\<lambda>v. json_text (json_field v ''repr''))
                          in RevertedTx (st @ (case repr of Some r \<Rightarrow> if r = [] then [] else CHR '' '' # r | None \<Rightarrow> [])))
                    else Open)
      | _ \<Rightarrow> Open)"

fun tx_loop :: "(nat \<Rightarrow> relayer_reply) \<Rightarrow> nat \<Rightarrow> nat \<Rightarrow> (sdk_error, string) result" where
  "tx_loop replies 0 i = Inr ''pending''"
| "tx_loop replies (Suc tries) i =
     (case poll_tx (replies i) of
        Settled \<Rightarrow> Inr ''confirmed''
      | RevertedTx m \<Rightarrow> Inl (ShieldReverted (''shield transaction reverted on chain ('' @ m @ '')''))
      | Open \<Rightarrow> tx_loop replies tries (i + 1))"

definition waitForTx :: "client_env \<Rightarrow> string \<Rightarrow> (sdk_error, string) result" where
  "waitForTx env txid = tx_loop (ce_tx env (add0x txid)) 60 0"

section \<open>Commitments as numbers\<close>

lemma js_BigInt_0x:
  assumes "list_all is_hex s" "s \<noteq> []"
  shows "js_BigInt_text (CHR ''0'' # CHR ''x'' # s) = Inr (int (nat_of_hex s))"
proof -
  have "foldl (\<lambda>a c. 16 * a + the (hex_val c)) n t = foldl (\<lambda>a c. 16 * a + (case hex_val c of Some d \<Rightarrow> d | None \<Rightarrow> 0)) n t"
    if "list_all is_hex t" for n :: nat and t
    using that by (induction t arbitrary: n) (auto simp: is_hex_def)
  from this [OF assms(1)] have v: "foldl (\<lambda>a c. 16 * a + the (hex_val c)) 0 s = nat_of_hex s" by (simp add: nat_of_hex_def)
  have "list_all (\<lambda>c. case hex_val c of Some d \<Rightarrow> d < 16 | None \<Rightarrow> False) s"
    using assms(1) by (rule list.pred_mono_strong) (auto simp: is_hex_def hex_val_def Let_def split: if_splits)
  then have p: "parse_base 16 s = Some (of_nat (nat_of_hex s))" using assms(2) v by (simp add: parse_base_def)
  have "\<not> js_space (last s)" using assms is_hex_not_special(1) by (simp add: list_all_iff)
  then have tr: "js_trim (CHR ''0'' # CHR ''x'' # s) = CHR ''0'' # CHR ''x'' # s"
    using assms(2) by (intro js_trim_id) (simp_all add: js_space_def)
  show ?thesis using p unfolding js_BigInt_text_def tr by (simp add: Let_def)
qed

lemma js_BigInt_hex32:
  assumes "0 \<le> x"
  shows "js_BigInt_text (toHex32 x) = Inr x"
proof -
  let ?d = "padStart0 64 (hex_of_nat (nat x))"
  have "list_all is_hex ?d" "?d \<noteq> []" by (rule padStart0_is_hex [OF hex_of_nat_is_hex]) (simp add: padStart0_def)
  from js_BigInt_0x [OF this] show ?thesis using assms by (simp add: toHex32_def)
qed

lemma hex_lower: "list_all (\<lambda>c. \<not> is_upper c) (hex_of_nat n)"
proof (induction n rule: hex_of_nat.induct)
  case (1 n)
  have d: "\<not> is_upper (hex_digit k)" if "k < 16" for k
    using that by (auto simp: is_upper_def hex_digit_def of_char_of)
  show ?case
  proof (cases "n < 16")
    case True
    then show ?thesis using d by (subst hex_of_nat.simps) simp
  next
    case False
    then have "list_all (\<lambda>c. \<not> is_upper c) (hex_of_nat (n div 16))" by (rule 1)
    then show ?thesis using d [of "n mod 16"] False by (subst hex_of_nat.simps) simp
  qed
qed

lemma toHex32_lower: "js_toLowerCase (toHex32 x) = toHex32 x"
proof -
  have "list_all (\<lambda>c. \<not> is_upper c) (toHex32 x)"
    using hex_lower [of "nat x"] hex_lower [of "nat (- x)"] by (auto simp: toHex32_def padStart0_def is_upper_def list_all_iff)
  then show ?thesis by (simp add: js_toLowerCase_def list_all_iff map_idI)
qed

end
