(* ===== verification/ShieldFlow.thy ===== *)
theory ShieldFlow
  imports ShieldOps
begin

text \<open>
  Shield, transfer, split, merge and withdraw of \<open>STXShield\<close> (\<open>sdk/src/client/STXShield.ts\<close>), and what
  they do to the wallet's notes, its vault and the outside: a spend that fails before a relayer took
  it changes nothing, what is posted is the transition of the tree the proof is about, and a shield
  whose transaction reverts leaves no note behind.
\<close>

section \<open>Submission\<close>

text \<open>\<open>this.submitter.submit(proved)\<close> and \<open>this.relayer.submit\<close>; \<open>vw_fuel\<close> bounds the wait for a job.\<close>

definition relay_body :: "(string \<times> json) list \<Rightarrow> client_inclusion \<Rightarrow> json" where
  "relay_body params inc =
     JObj (params @ [(''inclusion'', inclusionBody (inc_domainId inc) (inc_aggregationId inc) (inc_merklePath inc) (inc_leafIndex inc))])"

definition relay_outcome :: "string \<Rightarrow> relayer_view list \<Rightarrow> (sdk_error, string) result" where
  "relay_outcome op vs =
     (case provider_submit op vs of
        None \<Rightarrow> Inl (RelayerError (OtherFailure ''still waiting''))
      | Some (Inl e) \<Rightarrow> Inl (RelayerError e)
      | Some (Inr txid) \<Rightarrow> Inr txid)"

definition relay_submit ::
  "client_env \<Rightarrow> resolved_config \<Rightarrow> string \<Rightarrow> (string \<times> json) list \<Rightarrow> raw_proof \<Rightarrow> string client_op" where
  "relay_submit env cfg op params proved =
     op_bind (op_lift (zk_submit (ce_zk env) (rf_zkVerify cfg) proved)) (\<lambda>inc.
     let body = relay_body params inc in
     op_bind (op_lift (relay_outcome op (ce_relay env op body))) (\<lambda>txid.
     op_bind (op_event (Relayed op body txid)) (\<lambda>_. op_return txid)))"

definition jtext :: "string \<Rightarrow> json" where
  "jtext s = JStr s"

definition tokenParam :: "asset_info \<Rightarrow> (string \<times> json) list" where
  "tokenParam asset =
     (if as_native asset then [] else [(''token'', case as_token asset of Some t \<Rightarrow> JStr t | None \<Rightarrow> JNull)])"

definition leafIndexParam :: "nat \<Rightarrow> (string \<times> json) list" where
  "leafIndexParam i = [(''leafIndex'', jint (int i))]"

section \<open>Transfer\<close>

record transfer_plan =
  tp_asset :: asset_info
  tp_input :: shield_note
  tp_to :: shield_address
  tp_out :: fresh_note
  tp_engine :: proof_engine
  tp_witness :: transfer_witness

definition transfer_prepare ::
  "client_env \<Rightarrow> resolved_config \<Rightarrow> amount \<Rightarrow> string \<Rightarrow> asset_ref \<Rightarrow> transfer_plan client_op" where
  "transfer_prepare env cfg amount recipient ref =
     op_bind (getAsset env cfg ref) (\<lambda>asset.
     op_bind (op_lift (lift_js (toBaseUnits (ce_pow10 env) amount (as_decimals asset)))) (\<lambda>base.
     op_bind (\<lambda>s. (pickNote base asset (ss_store s), s)) (\<lambda>input.
     op_bind (op_lift (case decodeAddress recipient of Inl (JsError m) \<Rightarrow> Inl (InvalidNoteError m)
                       | Inl e \<Rightarrow> Inl (JsThrown e) | Inr a \<Rightarrow> Inr a)) (\<lambda>to.
     op_bind (recipientNote env base to asset) (\<lambda>out.
     op_bind (op_lift (requireEngine (rf_proofEngine cfg))) (\<lambda>engine.
     op_bind (syncTree env) (\<lambda>_.
     op_bind (op_lift (note_nullifier env input)) (\<lambda>nf.
     op_bind (client_insertion env (sh_commitment (fn_note out))) (\<lambda>insertion.
     op_bind (op_lift (lift_plain (js_BigInt_text (sh_commitment (fn_note out))))) (\<lambda>newCommitment.
     op_bind (client_membership input) (\<lambda>member.
     op_bind (op_lift (lift_js (assetFieldFor (client_crypto env) asset))) (\<lambda>f.
       op_return
         \<lparr>tp_asset = asset, tp_input = input, tp_to = to, tp_out = out, tp_engine = engine,
          tp_witness = \<lparr>tw_nullifier = nf, tw_newCommitment = newCommitment, tw_newOwnerCommitment = fn_ownerCommitment out,
            tw_input = witnessNote input, tw_ownerSk = sec_ownerSk (sh_secret input), tw_output = witnessNote (fn_note out),
            tw_membership = member, tw_insertion = insertion, tw_assetField = f\<rparr>\<rparr>))))))))))))"

definition transfer_params :: "transfer_plan \<Rightarrow> string \<Rightarrow> string \<Rightarrow> (string \<times> json) list" where
  "transfer_params p currentRoot newRoot =
     [(''nullifier'', jtext (toHex32 (tw_nullifier (tp_witness p)))), (''newCommitment'', jtext (sh_commitment (fn_note (tp_out p)))),
      (''newOwnerCommitment'', jtext (toHex32 (fn_ownerCommitment (tp_out p)))), (''newMetadata'', jtext (toHex32 0)),
      (''currentRoot'', jtext currentRoot), (''newRoot'', jtext newRoot)]
     @ leafIndexParam (ip_leafIndex (tw_insertion (tp_witness p))) @ tokenParam (tp_asset p)"

definition transfer_post :: "client_env \<Rightarrow> resolved_config \<Rightarrow> transfer_plan \<Rightarrow> raw_proof \<Rightarrow> (string \<times> nat) client_op" where
  "transfer_post env cfg p proved =
     op_bind client_root (\<lambda>currentRoot.
     op_bind (client_insert env (sh_commitment (fn_note (tp_out p)))) (\<lambda>outLeaf.
     op_bind client_root (\<lambda>newRoot.
     op_bind (relay_submit env cfg ''transfer'' (transfer_params p currentRoot newRoot) proved) (\<lambda>txid.
       op_return (txid, outLeaf)))))"

definition transfer_record ::
  "client_env \<Rightarrow> resolved_config \<Rightarrow> transfer_plan \<Rightarrow> string \<times> nat \<Rightarrow> string client_op" where
  "transfer_record env cfg p posted =
     op_bind (consume env (tp_input p)) (\<lambda>_.
     op_bind (storeCiphertext env cfg (fn_note (tp_out p)) (snd posted) (Some (sa_viewingPk (tp_to p)))) (\<lambda>_.
       op_return (fst posted)))"

definition transfer ::
  "client_env \<Rightarrow> resolved_config \<Rightarrow> amount \<Rightarrow> string \<Rightarrow> asset_ref \<Rightarrow> string client_op" where
  "transfer env cfg amount recipient ref =
     op_bind (transfer_prepare env cfg amount recipient ref) (\<lambda>p.
     op_bind (op_lift (lift_plain (pe_proveTransfer (tp_engine p) (tp_witness p)))) (\<lambda>proved.
     op_bind (transfer_post env cfg p proved) (\<lambda>posted.
       transfer_record env cfg p posted)))"

section \<open>Split\<close>

record split_plan =
  pp_asset :: asset_info
  pp_out1 :: fresh_note
  pp_out2 :: fresh_note
  pp_leaf1 :: nat
  pp_leaf2 :: nat
  pp_currentRoot :: string
  pp_newRoot :: string
  pp_engine :: proof_engine
  pp_witness :: split_witness

text \<open>The tree part of a split: both witnesses and both leaves, before the proof.\<close>

definition split_tree ::
  "client_env \<Rightarrow> shield_note \<Rightarrow> string \<Rightarrow> string \<Rightarrow>
   (membership_witness \<times> string \<times> insertion_proof \<times> nat \<times> insertion_proof \<times> nat \<times> string) client_op" where
  "split_tree env n c1 c2 =
     op_bind (client_membership n) (\<lambda>member.
     op_bind client_root (\<lambda>currentRoot.
     op_bind (client_insertion env c1) (\<lambda>insertion1.
     op_bind (client_insert env c1) (\<lambda>l1.
     op_bind (client_insertion env c2) (\<lambda>insertion2.
     op_bind (client_insert env c2) (\<lambda>l2.
     op_bind client_root (\<lambda>newRoot.
       op_return (member, currentRoot, insertion1, l1, insertion2, l2, newRoot))))))))"

definition split_prepare ::
  "client_env \<Rightarrow> resolved_config \<Rightarrow> shield_note \<Rightarrow> amount list \<Rightarrow> split_plan client_op" where
  "split_prepare env cfg n amounts =
     (case amounts of
        [x1, x2] \<Rightarrow>
          op_bind (client_keys env cfg) (\<lambda>(own, view).
          let asset = assetOfNote cfg n in
          op_bind (op_lift (lift_js (toBaseUnits (ce_pow10 env) x1 (as_decimals asset)))) (\<lambda>a1.
          op_bind (op_lift (lift_js (toBaseUnits (ce_pow10 env) x2 (as_decimals asset)))) (\<lambda>a2.
          op_bind (op_guard (a1 + a2 = sh_amount n) (InvalidNoteError ''split amounts must sum to the note amount'')) (\<lambda>_.
          op_bind (op_lift (requireEngine (rf_proofEngine cfg))) (\<lambda>engine.
          op_bind (syncTree env) (\<lambda>_.
          op_bind (newNote env a1 own asset) (\<lambda>o1.
          op_bind (newNote env a2 own asset) (\<lambda>o2.
          op_bind (op_lift (note_nullifier env n)) (\<lambda>nf.
          op_bind (split_tree env n (sh_commitment (fn_note o1)) (sh_commitment (fn_note o2)))
            (\<lambda>(member, currentRoot, insertion1, l1, insertion2, l2, newRoot).
          op_bind (op_lift (lift_js (assetFieldFor (client_crypto env) asset))) (\<lambda>f.
            op_return
              \<lparr>pp_asset = asset, pp_out1 = o1, pp_out2 = o2, pp_leaf1 = l1, pp_leaf2 = l2, pp_currentRoot = currentRoot,
               pp_newRoot = newRoot, pp_engine = engine,
               pp_witness = \<lparr>lw_nullifier = nf, lw_commitment1 = fn_commitment o1, lw_ownerCommitment1 = fn_ownerCommitment o1,
                 lw_commitment2 = fn_commitment o2, lw_ownerCommitment2 = fn_ownerCommitment o2, lw_input = witnessNote n,
                 lw_ownerSk = sec_ownerSk (sh_secret n), lw_out1 = witnessNote (fn_note o1), lw_out2 = witnessNote (fn_note o2),
                 lw_membership = member, lw_insertion1 = insertion1, lw_insertion2 = insertion2, lw_assetField = f\<rparr>\<rparr>)))))))))))
      | _ \<Rightarrow> op_throw (InvalidNoteError ''split produces exactly two notes; split the results again for more''))"

definition split_params :: "split_plan \<Rightarrow> (string \<times> json) list" where
  "split_params p =
     [(''nullifier'', jtext (toHex32 (lw_nullifier (pp_witness p)))),
      (''commitment1'', jtext (sh_commitment (fn_note (pp_out1 p)))), (''ownerCommitment1'', jtext (toHex32 (fn_ownerCommitment (pp_out1 p)))),
      (''metadata1'', jtext (toHex32 0)),
      (''commitment2'', jtext (sh_commitment (fn_note (pp_out2 p)))), (''ownerCommitment2'', jtext (toHex32 (fn_ownerCommitment (pp_out2 p)))),
      (''metadata2'', jtext (toHex32 0)), (''currentRoot'', jtext (pp_currentRoot p)), (''newRoot'', jtext (pp_newRoot p))]
     @ leafIndexParam (ip_leafIndex (lw_insertion1 (pp_witness p))) @ tokenParam (pp_asset p)"

definition split_record ::
  "client_env \<Rightarrow> resolved_config \<Rightarrow> shield_note \<Rightarrow> split_plan \<Rightarrow> string \<Rightarrow> (string \<times> shield_note list) client_op" where
  "split_record env cfg n p txid =
     op_bind (consume env n) (\<lambda>_.
     op_bind (storeCiphertext env cfg (fn_note (pp_out1 p)) (pp_leaf1 p) None) (\<lambda>ct1.
     op_bind (storeCiphertext env cfg (fn_note (pp_out2 p)) (pp_leaf2 p) None) (\<lambda>ct2.
     let n1 = landed (fn_note (pp_out1 p)) ct1 (pp_newRoot p) txid (pp_leaf1 p);
         n2 = landed (fn_note (pp_out2 p)) ct2 (pp_newRoot p) txid (pp_leaf2 p) in
     op_bind (update_store (store_add n1)) (\<lambda>_.
     op_bind (update_store (store_add n2)) (\<lambda>_.
     op_bind (persist n1) (\<lambda>_.
     op_bind (persist n2) (\<lambda>_.
       op_return (txid, [n1, n2]))))))))"

definition split ::
  "client_env \<Rightarrow> resolved_config \<Rightarrow> shield_note \<Rightarrow> amount list \<Rightarrow> (string \<times> shield_note list) client_op" where
  "split env cfg n amounts =
     op_bind (split_prepare env cfg n amounts) (\<lambda>p.
     op_bind (op_lift (lift_plain (pe_proveSplit (pp_engine p) (pp_witness p)))) (\<lambda>proved.
     op_bind (relay_submit env cfg ''split'' (split_params p) proved) (\<lambda>txid.
       split_record env cfg n p txid)))"

section \<open>Merge\<close>

record merge_plan =
  mr_asset :: asset_info
  mr_out :: fresh_note
  mr_engine :: proof_engine
  mr_witness :: merge_witness

definition merge_prepare ::
  "client_env \<Rightarrow> resolved_config \<Rightarrow> shield_note \<Rightarrow> shield_note \<Rightarrow> merge_plan client_op" where
  "merge_prepare env cfg i1 i2 =
     op_bind (client_keys env cfg) (\<lambda>(own, view).
     let asset = assetOfNote cfg i1 in
     op_bind (op_guard (sameAsset (sh_asset i2) asset) (InvalidNoteError ''cannot merge notes of different assets'')) (\<lambda>_.
     op_bind (newNote env (sh_amount i1 + sh_amount i2) own asset) (\<lambda>out.
     op_bind (op_lift (requireEngine (rf_proofEngine cfg))) (\<lambda>engine.
     op_bind (syncTree env) (\<lambda>_.
     op_bind (op_lift (note_nullifier env i1)) (\<lambda>nf1.
     op_bind (op_lift (note_nullifier env i2)) (\<lambda>nf2.
     op_bind (client_insertion env (sh_commitment (fn_note out))) (\<lambda>insertion.
     op_bind (client_membership i1) (\<lambda>m1.
     op_bind (client_membership i2) (\<lambda>m2.
     op_bind (op_lift (lift_js (assetFieldFor (client_crypto env) asset))) (\<lambda>f.
       op_return
         \<lparr>mr_asset = asset, mr_out = out, mr_engine = engine,
          mr_witness = \<lparr>gw_nullifier1 = nf1, gw_nullifier2 = nf2, gw_commitment = fn_commitment out,
            gw_ownerCommitment = fn_ownerCommitment out, gw_input1 = witnessNote i1, gw_ownerSk1 = sec_ownerSk (sh_secret i1),
            gw_membership1 = m1, gw_input2 = witnessNote i2, gw_ownerSk2 = sec_ownerSk (sh_secret i2), gw_membership2 = m2,
            gw_output = witnessNote (fn_note out), gw_insertion = insertion, gw_assetField = f\<rparr>\<rparr>)))))))))))"

definition merge_params :: "merge_plan \<Rightarrow> string \<Rightarrow> string \<Rightarrow> (string \<times> json) list" where
  "merge_params p currentRoot newRoot =
     [(''nullifier1'', jtext (toHex32 (gw_nullifier1 (mr_witness p)))), (''nullifier2'', jtext (toHex32 (gw_nullifier2 (mr_witness p)))),
      (''commitment'', jtext (sh_commitment (fn_note (mr_out p)))), (''ownerCommitment'', jtext (toHex32 (fn_ownerCommitment (mr_out p)))),
      (''metadata'', jtext (toHex32 0)), (''currentRoot'', jtext currentRoot), (''newRoot'', jtext newRoot)]
     @ leafIndexParam (ip_leafIndex (gw_insertion (mr_witness p))) @ tokenParam (mr_asset p)"

definition merge_post ::
  "client_env \<Rightarrow> resolved_config \<Rightarrow> merge_plan \<Rightarrow> raw_proof \<Rightarrow> (string \<times> nat \<times> string) client_op" where
  "merge_post env cfg p proved =
     op_bind client_root (\<lambda>currentRoot.
     op_bind (client_insert env (sh_commitment (fn_note (mr_out p)))) (\<lambda>leaf.
     op_bind client_root (\<lambda>newRoot.
     op_bind (relay_submit env cfg ''merge'' (merge_params p currentRoot newRoot) proved) (\<lambda>txid.
       op_return (txid, leaf, newRoot)))))"

definition merge_record ::
  "client_env \<Rightarrow> resolved_config \<Rightarrow> shield_note \<Rightarrow> shield_note \<Rightarrow> merge_plan \<Rightarrow> string \<times> nat \<times> string \<Rightarrow>
   (string \<times> shield_note) client_op" where
  "merge_record env cfg i1 i2 p posted =
     (case posted of (txid, leaf, newRoot) \<Rightarrow>
       op_bind (consume env i1) (\<lambda>_.
       op_bind (consume env i2) (\<lambda>_.
       op_bind (storeCiphertext env cfg (fn_note (mr_out p)) leaf None) (\<lambda>ct.
       let merged = landed (fn_note (mr_out p)) ct newRoot txid leaf in
       op_bind (keep_note merged) (\<lambda>_. op_return (txid, merged))))))"

definition merge :: "client_env \<Rightarrow> resolved_config \<Rightarrow> shield_note list \<Rightarrow> (string \<times> shield_note) client_op" where
  "merge env cfg ns =
     (case ns of
        [i1, i2] \<Rightarrow>
          op_bind (merge_prepare env cfg i1 i2) (\<lambda>p.
          op_bind (op_lift (lift_plain (pe_proveMerge (mr_engine p) (mr_witness p)))) (\<lambda>proved.
          op_bind (merge_post env cfg p proved) (\<lambda>posted.
            merge_record env cfg i1 i2 p posted)))
      | _ \<Rightarrow> op_throw (InvalidNoteError ''merge takes exactly two notes''))"

section \<open>Withdraw\<close>

record withdraw_plan =
  wp_asset :: asset_info
  wp_to :: string
  wp_root :: string
  wp_engine :: proof_engine
  wp_witness :: withdraw_witness

definition withdraw_prepare ::
  "client_env \<Rightarrow> resolved_config \<Rightarrow> shield_note \<Rightarrow> string option \<Rightarrow> withdraw_plan client_op" where
  "withdraw_prepare env cfg n recipient =
     (let asset = assetOfNote cfg n in
      op_bind (op_guard (\<not> (as_native asset \<and> sh_amount n < MIN_WITHDRAWAL)) (InvalidNoteError ''minimum withdrawal is 1 STX'')) (\<lambda>_.
      op_bind (op_lift (case recipient of
                          Some r \<Rightarrow> Inr r
                        | None \<Rightarrow> (case rf_signer cfg of None \<Rightarrow> Inr []
                                    | Some w \<Rightarrow> lift_plain (ws_getAddress w (rf_network cfg))))) (\<lambda>to.
      op_bind (op_guard (to \<noteq> []) (ConfigError ''a recipient address (or signer) is required to withdraw'')) (\<lambda>_.
      op_bind (op_lift (requireEngine (rf_proofEngine cfg))) (\<lambda>engine.
      op_bind (syncTree env) (\<lambda>_.
      op_bind (op_lift (note_nullifier env n)) (\<lambda>nf.
      op_bind client_root (\<lambda>root1.
      op_bind (op_lift (lift_js (rbind (fePrincipal (client_crypto env) to) bytesToBig))) (\<lambda>recipientHash.
      op_bind (client_membership n) (\<lambda>member.
      op_bind (op_lift (lift_js (assetFieldFor (client_crypto env) asset))) (\<lambda>f.
        op_return
          \<lparr>wp_asset = asset, wp_to = to, wp_root = root1, wp_engine = engine,
           wp_witness = \<lparr>dw_nullifier = nf, dw_amount = sh_amount n, dw_recipientHash = recipientHash, dw_input = witnessNote n,
             dw_ownerSk = sec_ownerSk (sh_secret n), dw_membership = member, dw_assetField = f\<rparr>\<rparr>)))))))))))"

definition withdraw_params :: "shield_note \<Rightarrow> withdraw_plan \<Rightarrow> (string \<times> json) list" where
  "withdraw_params n p =
     [(''nullifier'', jtext (toHex32 (dw_nullifier (wp_witness p)))), (''amount'', jtext (dec_of_int (sh_amount n))),
      (''recipient'', jtext (wp_to p)), (''root'', jtext (wp_root p))] @ tokenParam (wp_asset p)"

text \<open>The reported amount; the division of two \<open>bigint\<close>s truncates.\<close>

definition amountReceived :: "asset_info \<Rightarrow> int \<Rightarrow> int" where
  "amountReceived asset amount = amount - (amount * (if as_native asset then 30 else 0)) sdiv 10000"

definition withdraw :: "client_env \<Rightarrow> resolved_config \<Rightarrow> shield_note \<Rightarrow> string option \<Rightarrow> (string \<times> string \<times> int) client_op" where
  "withdraw env cfg n recipient =
     op_bind (withdraw_prepare env cfg n recipient) (\<lambda>p.
     op_bind (op_lift (lift_plain (pe_proveWithdraw (wp_engine p) (wp_witness p)))) (\<lambda>proved.
     op_bind (relay_submit env cfg ''withdraw'' (withdraw_params n p) proved) (\<lambda>txid.
     op_bind (consume env n) (\<lambda>_.
       op_return (txid, wp_to p, amountReceived (wp_asset p) (sh_amount n))))))"

section \<open>Shield\<close>

text \<open>A buffer argument from the hex texts of a shield; the calls of the package are \<open>ce_mk\<close>.\<close>

definition hex_arg :: "client_env \<Rightarrow> string \<Rightarrow> cv_result" where
  "hex_arg env h = ce_mk env (CvBuffer (hex_pairs (strip0x h)))"

definition cv_lift :: "(relay_error, 'a) result \<Rightarrow> (sdk_error, 'a) result" where
  "cv_lift r = (case r of Inr a \<Rightarrow> Inr a
                | Inl e \<Rightarrow> Inl (OtherThrown (case e of relay_error.RelayError c m st \<Rightarrow> m | OtherError m \<Rightarrow> m)))"

definition client_shield_args ::
  "client_env \<Rightarrow> asset_info \<Rightarrow> (string \<times> string) option \<Rightarrow> int \<Rightarrow> string \<Rightarrow> string \<Rightarrow> string \<Rightarrow> string \<Rightarrow> nat \<Rightarrow>
   client_inclusion \<Rightarrow> cv_result list" where
  "client_shield_args env asset token amount commitment ownerCommitment currentRoot newRoot leafIndex inc =
     (case token of Some (addr, name) \<Rightarrow> [ce_mk env (CvContractPrincipal addr name)] | None \<Rightarrow> []) @
     [ce_mk env (CvUInt amount), hex_arg env commitment, hex_arg env ownerCommitment, hex_arg env (toHex32 0),
      hex_arg env currentRoot, hex_arg env newRoot, ce_mk env (CvUInt (int leafIndex)),
      ce_mk env (CvUInt (inc_domainId inc)), ce_mk env (CvUInt (inc_aggregationId inc)),
      rbind (rmap (hex_arg env) (inc_merklePath inc)) (\<lambda>ps. ce_mk env (CvList ps)),
      ce_mk env (CvUInt (inc_leafIndex inc))]"

definition client_submitShield ::
  "client_env \<Rightarrow> resolved_config \<Rightarrow> asset_info \<Rightarrow> int \<Rightarrow> string \<Rightarrow> string \<Rightarrow> string \<Rightarrow> string \<Rightarrow> nat \<Rightarrow>
   client_inclusion \<Rightarrow> string client_op" where
  "client_submitShield env cfg asset amount commitment ownerCommitment currentRoot newRoot leafIndex inc =
     op_bind (op_lift (require_signer ''a signer is required to shield'' cfg)) (\<lambda>signer.
     op_bind (op_lift (splitPrincipal (as_verifier asset))) (\<lambda>(_, verifier).
     op_bind (waitForRoot env inc verifier) (\<lambda>_.
     op_bind (op_lift (splitPrincipal (as_pool asset))) (\<lambda>(addr, name).
     op_bind (op_lift (if as_native asset then Inr None
                       else (case as_token asset of None \<Rightarrow> Inl (JsThrown TypeError)
                             | Some t \<Rightarrow> rbind (splitPrincipal t) (\<lambda>x. Inr (Some x))))) (\<lambda>token.
     op_bind (op_lift (cv_lift (rseq (client_shield_args env asset token amount commitment ownerCommitment currentRoot newRoot
                leafIndex inc)))) (\<lambda>args.
     let call = \<lparr>sk_contractAddress = addr, sk_contractName = name, sk_functionName = ''shield'', sk_functionArgs = args\<rparr> in
     op_bind (op_lift (lift_plain (ws_broadcast signer call (rf_network cfg)))) (\<lambda>txid.
     op_bind (op_event (Broadcast call txid)) (\<lambda>_. op_return txid))))))))"

record shield_plan =
  hp_asset :: asset_info
  hp_base :: int
  hp_note :: fresh_note
  hp_currentRoot :: string
  hp_engine :: proof_engine
  hp_witness :: shield_witness

definition shield_prepare :: "client_env \<Rightarrow> resolved_config \<Rightarrow> amount \<Rightarrow> asset_ref \<Rightarrow> shield_plan client_op" where
  "shield_prepare env cfg amount ref =
     op_bind (getAsset env cfg ref) (\<lambda>asset.
     op_bind (op_lift (lift_js (toBaseUnits (ce_pow10 env) amount (as_decimals asset)))) (\<lambda>base.
     op_bind (op_guard (\<not> (as_native asset \<and> base < MIN_SHIELD)) (InvalidNoteError ''minimum shield is 1 STX'')) (\<lambda>_.
     op_bind (op_guard (as_active asset) (InvalidNoteError (''asset '' @ as_symbol asset @ '' is not shieldable''))) (\<lambda>_.
     op_bind (op_lift (require_signer ''a signer is required to shield'' cfg)) (\<lambda>signer.
     op_bind (op_lift (requireEngine (rf_proofEngine cfg))) (\<lambda>engine.
     op_bind (client_keys env cfg) (\<lambda>(own, view).
     op_bind (connect env cfg) (\<lambda>_.
     op_bind (syncTree env) (\<lambda>_.
     op_bind (newNote env base own asset) (\<lambda>fresh.
     op_bind (op_lift (fetchCurrentRoot env)) (\<lambda>currentRoot.
     op_bind (client_insertion env (sh_commitment (fn_note fresh))) (\<lambda>insertion.
       op_return
         \<lparr>hp_asset = asset, hp_base = base, hp_note = fresh, hp_currentRoot = currentRoot, hp_engine = engine,
          hp_witness = \<lparr>hw_note = \<lparr>nw_amount = base, nw_ownerPkX = ok_pkX own, nw_ownerPkY = ok_pkY own,
                                   nw_blinding = sec_blinding (sh_secret (fn_note fresh))\<rparr>,
            hw_commitment = fn_commitment fresh, hw_ownerCommitment = fn_ownerCommitment fresh,
            hw_assetField = sec_assetField (sh_secret (fn_note fresh)), hw_insertion = insertion\<rparr>\<rparr>))))))))))))"

definition shield_post :: "client_env \<Rightarrow> resolved_config \<Rightarrow> shield_plan \<Rightarrow> raw_proof \<Rightarrow> shield_note client_op" where
  "shield_post env cfg p proved =
     op_bind (client_insert env (sh_commitment (fn_note (hp_note p)))) (\<lambda>leaf.
     op_bind client_root (\<lambda>newRoot.
     op_bind (storeCiphertext env cfg (fn_note (hp_note p)) leaf None) (\<lambda>ct.
     op_bind (op_lift (zk_submit (ce_zk env) (rf_zkVerify cfg) proved)) (\<lambda>inc.
     op_bind (client_submitShield env cfg (hp_asset p) (hp_base p) (sh_commitment (fn_note (hp_note p)))
                (toHex32 (fn_ownerCommitment (hp_note p))) (hp_currentRoot p) newRoot
                (ip_leafIndex (hw_insertion (hp_witness p))) inc) (\<lambda>txid.
     let stored = landed (fn_note (hp_note p)) ct newRoot txid leaf in
     op_bind (keep_note stored) (\<lambda>_. op_return stored))))))"

text \<open>
  After the transaction settled: a reverted one takes the note back. A confirmed one sets the status of
  the stored object, which is also the store's unless the store kept a copy of its own.
\<close>

definition confirm_in_store :: "shield_note \<Rightarrow> note_store \<Rightarrow> note_store" where
  "confirm_in_store n st =
     (if jm_get st (sh_commitment n) = Some n then jm_set (sh_commitment n) (n\<lparr>sh_status := Some ''confirmed''\<rparr>) st else st)"

definition shield_settle :: "client_env \<Rightarrow> shield_note \<Rightarrow> (string \<times> string \<times> shield_note) client_op" where
  "shield_settle env stored =
     (case waitForTx env (sh_txid stored) of
        Inl e \<Rightarrow>
          op_bind (update_store (store_remove (sh_commitment stored))) (\<lambda>_.
          op_bind (update_vault (vault_remove (sh_commitment stored))) (\<lambda>_. op_throw e))
      | Inr status \<Rightarrow>
          if status = ''confirmed''
          then (let done1 = stored\<lparr>sh_status := Some ''confirmed''\<rparr> in
                op_bind (update_store (confirm_in_store stored)) (\<lambda>_.
                op_bind (persist done1) (\<lambda>_. op_return (sh_txid stored, status, done1))))
          else op_return (sh_txid stored, status, stored))"

definition shield :: "client_env \<Rightarrow> resolved_config \<Rightarrow> amount \<Rightarrow> asset_ref \<Rightarrow> (string \<times> string \<times> shield_note) client_op" where
  "shield env cfg amount ref =
     op_bind (shield_prepare env cfg amount ref) (\<lambda>p.
     op_bind (op_lift (lift_plain (pe_proveShield (hp_engine p) (hp_witness p)))) (\<lambda>proved.
     op_bind (shield_post env cfg p proved) (\<lambda>stored.
       shield_settle env stored)))"

end
