(* ===== verification/ShieldProps.thy ===== *)
theory ShieldProps
  imports ShieldFlow "HOL-Library.Sublist"
begin

text \<open>
  What the operations of \<open>STXShield\<close> guarantee (\<open>ShieldFlow\<close>). The lemmas are in three groups: what each
  helper leaves alone (the wallet's view: its notes, its vault and what went out), what the synchronised tree
  is, and what reaches a relayer.
\<close>

section \<open>What the helpers leave alone\<close>

text \<open>The notes, the vault, what went out and the session.\<close>

definition wallet_view ::
  "shield_state \<Rightarrow> note_store \<times> vault_state option \<times> client_event list \<times> string option" where
  "wallet_view s = (ss_store s, ss_vault s, ss_events s, ap_token (ss_api s))"

lemma keeps_run: "(\<And>s. v (snd (m s)) = v s) \<Longrightarrow> keeps v m"
  by (simp add: keeps_def)

lemma keeps_let [keeps_intros]: "keeps v (f x) \<Longrightarrow> keeps v (let y = x in f y)"
  by simp

lemma keeps_prod [keeps_intros]: "(\<And>a b. x = (a, b) \<Longrightarrow> keeps v (f a b)) \<Longrightarrow> keeps v (case x of (a, b) \<Rightarrow> f a b)"
  by (cases x) simp

lemma api_getAssets_token: "ap_token (snd (api_getAssets server force before after p)) = ap_token p"
  by (simp add: api_getAssets_def Let_def split: option.split prod.split)

lemma keeps_draw [keeps_intros]: "keeps wallet_view (op_draw env)"
  by (simp add: keeps_def op_draw_def wallet_view_def)

lemma keeps_keys [keeps_intros]: "keeps wallet_view (client_keys env cfg)"
proof (rule keeps_run)
  fix s :: shield_state
  have "keeps wallet_view
     (op_bind (op_lift (require_signer ''a signer is required for note operations'' cfg)) (\<lambda>signer.
         op_bind (op_lift (requireEngine (rf_proofEngine cfg))) (\<lambda>engine.
         op_bind (op_lift (lift_plain (ws_secret signer))) (\<lambda>secret.
         op_bind (op_lift (lift_plain (pe_deriveOwnerKey engine secret))) (\<lambda>own.
           let view = viewingKeyFromSecret (ce_delivery env) secret in
           op_bind (op_modify (\<lambda>s. s\<lparr>ss_owner := Some own, ss_viewing := Some view\<rparr>)) (\<lambda>_.
             op_return (own, view)))))))"
    by (intro keeps_intros) (simp add: wallet_view_def)
  then show "wallet_view (snd (client_keys env cfg s)) = wallet_view s"
    by (simp add: client_keys_def keeps_def split: option.split)
qed

lemma keeps_assets [keeps_intros]: "keeps wallet_view (getAssets env cfg)"
  using api_getAssets_token by (simp add: keeps_def getAssets_def wallet_view_def split: prod.split) (metis snd_conv)

lemma keeps_asset [keeps_intros]: "keeps wallet_view (getAsset env cfg ref)"
  unfolding getAsset_def by (intro keeps_intros)

lemma keeps_sync [keeps_intros]: "keeps wallet_view (syncTree env)"
  unfolding syncTree_def by (intro keeps_intros) (simp add: wallet_view_def)

lemma keeps_tree [keeps_intros]:
  "keeps wallet_view (client_insert env c)" "keeps wallet_view (client_insertion env c)"
  "keeps wallet_view (client_membership n)" "keeps wallet_view client_root"
  by (simp_all add: keeps_def client_insert_def client_insertion_def client_membership_def client_root_def wallet_view_def
      split: sum.split prod.split)

lemma keeps_fresh [keeps_intros]:
  "keeps wallet_view (newNote env a own asset)" "keeps wallet_view (recipientNote env a addr asset)"
  unfolding newNote_def recipientNote_def by (intro keeps_intros)+

lemma keeps_pick [keeps_intros]: "keeps v (\<lambda>s. (f s, s))"
  by (simp add: keeps_def)

lemma keeps_prepare [keeps_intros]:
  "keeps wallet_view (transfer_prepare env cfg amount recipient ref)"
  "keeps wallet_view (split_tree env n c1 c2)"
  "keeps wallet_view (merge_prepare env cfg i1 i2)"
  "keeps wallet_view (withdraw_prepare env cfg n to)"
  unfolding transfer_prepare_def split_tree_def merge_prepare_def withdraw_prepare_def
  by (intro keeps_intros)+

lemma keeps_split_prepare [keeps_intros]: "keeps wallet_view (split_prepare env cfg n amounts)"
  unfolding split_prepare_def by (cases amounts; cases "tl amounts"; cases "tl (tl amounts)") (auto intro!: keeps_intros)

section \<open>What went out is not taken back\<close>

definition grows :: "'a client_op \<Rightarrow> bool" where
  "grows m \<longleftrightarrow> (\<forall>s. prefix (ss_events s) (ss_events (snd (m s))))"

named_theorems grows_intros \<open>operations that only add events\<close>

lemma growsD: "grows m \<Longrightarrow> m s = (r, s') \<Longrightarrow> prefix (ss_events s) (ss_events s')"
  unfolding grows_def by (metis snd_conv)

lemma grows_pure [grows_intros]:
  "grows (op_return a)" "grows (op_throw e)" "grows (op_lift r)" "grows (op_get f)" "grows (op_guard b e)"
  by (simp_all add: grows_def)

lemma grows_keeps: "keeps wallet_view m \<Longrightarrow> grows m"
  by (simp add: grows_def keeps_def wallet_view_def)

lemma grows_bind [grows_intros]: "grows m \<Longrightarrow> (\<And>a. grows (f a)) \<Longrightarrow> grows (op_bind m f)"
  unfolding grows_def op_bind_def by (auto split: prod.split sum.split) (metis prefix_order.trans snd_conv)+

lemma grows_catch [grows_intros]: "grows m \<Longrightarrow> (\<And>e. grows (h e)) \<Longrightarrow> grows (op_catch m h)"
  unfolding grows_def op_catch_def by (auto split: prod.split sum.split) (metis prefix_order.trans snd_conv)+

lemma grows_cases [grows_intros]:
  "grows m \<Longrightarrow> grows n \<Longrightarrow> grows (if b then m else n)"
  "(\<And>a b. grows (g a b)) \<Longrightarrow> grows (case p of (a, b) \<Rightarrow> g a b)"
  "grows (k x) \<Longrightarrow> grows (let y = x in k y)"
  by (auto split: prod.split)

lemma grows_state [grows_intros]: "grows (op_event e)" "grows (update_store f)" "grows (update_vault g)"
  by (simp_all add: grows_def op_event_def update_store_def update_vault_def)

lemma grows_when [grows_intros]: "(\<And>api. grows (f api)) \<Longrightarrow> grows (when_authenticated f)"
  unfolding when_authenticated_def by (intro grows_intros)

lemma grows_helpers [grows_intros]:
  "grows (op_draw env)" "grows (client_keys env cfg)" "grows (api_write env rq)" "grows (persist n)" "grows (keep_note n)"
  unfolding api_write_def persist_def keep_note_def
  by (rule grows_keeps, rule keeps_draw, rule grows_keeps, rule keeps_keys) (intro grows_intros)+

lemma grows_store [grows_intros]: "grows (storeCiphertext env cfg n leaf vpk)"
  unfolding storeCiphertext_def by (cases vpk) (simp_all, (intro grows_intros)+)

lemma grows_consume [grows_intros]: "grows (consume env n)"
  unfolding consume_def consume_outside_def by (intro grows_intros)

lemma grows_record [grows_intros]:
  "grows (transfer_record env cfg p posted)" "grows (split_record env cfg n q txid)"
  unfolding transfer_record_def split_record_def by (intro grows_intros)+

lemma grows_merge_record [grows_intros]: "grows (merge_record env cfg i1 i2 m posted)"
  unfolding merge_record_def by (cases posted) (auto intro!: grows_intros)

section \<open>A spend is posted or changes nothing\<close>

text \<open>Either the wallet's view is as before, or a relayer carried the operation out first of all.\<close>

definition relayed_first :: "shield_state \<Rightarrow> shield_state \<Rightarrow> bool" where
  "relayed_first s s' \<longleftrightarrow> (\<exists>op body txid. prefix (ss_events s @ [Relayed op body txid]) (ss_events s'))"

definition all_or_nothing :: "'a client_op \<Rightarrow> bool" where
  "all_or_nothing m \<longleftrightarrow>
     (\<forall>s r s'. m s = (r, s') \<longrightarrow>
        (case r of Inl e \<Rightarrow> wallet_view s' = wallet_view s \<or> relayed_first s s' | Inr a \<Rightarrow> relayed_first s s'))"

lemma relay_submit_cases:
  assumes "relay_submit env cfg op params proved s = (r, s')"
  shows "case r of Inl e \<Rightarrow> s' = s
    | Inr txid \<Rightarrow> (\<exists>inc. zk_submit (ce_zk env) (rf_zkVerify cfg) proved = Inr inc \<and>
        relay_outcome op (ce_relay env op (relay_body params inc)) = Inr txid \<and>
        s' = s\<lparr>ss_events := ss_events s @ [Relayed op (relay_body params inc) txid]\<rparr>)"
  using assms unfolding relay_submit_def op_event_def
  by (auto simp: op_bind_def Let_def split: sum.splits prod.splits)

lemma posted_then:
  assumes "\<And>txid. grows (f txid)"
  shows "all_or_nothing (op_bind (relay_submit env cfg op params proved) f)"
  unfolding all_or_nothing_def
proof (intro allI impI)
  fix s r s' assume run: "op_bind (relay_submit env cfg op params proved) f s = (r, s')"
  obtain r1 s1 where m: "relay_submit env cfg op params proved s = (r1, s1)" by fastforce
  show "case r of Inl e \<Rightarrow> wallet_view s' = wallet_view s \<or> relayed_first s s' | Inr a \<Rightarrow> relayed_first s s'"
  proof (cases r1)
    case (Inl e)
    then have "s1 = s" using relay_submit_cases [OF m] by simp
    then show ?thesis using run m Inl by (auto simp: op_bind_def)
  next
    case (Inr txid)
    then obtain body where s1: "ss_events s1 = ss_events s @ [Relayed op body txid]"
      using relay_submit_cases [OF m] by auto
    have "f txid s1 = (r, s')" using run m Inr by (simp add: op_bind_def)
    then have "prefix (ss_events s1) (ss_events s')" using growsD [OF assms] by blast
    then have "relayed_first s s'" unfolding relayed_first_def s1 by blast
    then show ?thesis by (simp split: sum.split)
  qed
qed

lemma prepared_then:
  assumes "keeps wallet_view m" "\<And>a. all_or_nothing (f a)"
  shows "all_or_nothing (op_bind m f)"
  unfolding all_or_nothing_def
proof (intro allI impI)
  fix s r s' assume run: "op_bind m f s = (r, s')"
  obtain r1 s1 where m: "m s = (r1, s1)" by fastforce
  have v: "wallet_view s1 = wallet_view s" using keepsD [OF assms(1) m] .
  then have ev: "relayed_first s1 s' = relayed_first s s'" by (simp add: relayed_first_def wallet_view_def)
  show "case r of Inl e \<Rightarrow> wallet_view s' = wallet_view s \<or> relayed_first s s' | Inr a \<Rightarrow> relayed_first s s'"
  proof (cases r1)
    case (Inl e)
    then show ?thesis using run m v by (auto simp: op_bind_def)
  next
    case (Inr a)
    then have "f a s1 = (r, s')" using run m by (simp add: op_bind_def)
    with assms(2) [of a, unfolded all_or_nothing_def, rule_format, OF this] ev v show ?thesis by (cases r) simp_all
  qed
qed

lemma bind_assoc: "op_bind (op_bind m f) g = op_bind m (\<lambda>a. op_bind (f a) g)"
  by (rule ext) (simp add: op_bind_def split: prod.split sum.split)

datatype spend =
    SpTransfer amount string asset_ref
  | SpSplit shield_note "amount list"
  | SpMerge "shield_note list"
  | SpWithdraw shield_note "string option"

fun run_spend :: "client_env \<Rightarrow> resolved_config \<Rightarrow> spend \<Rightarrow> unit client_op" where
  "run_spend env cfg (SpTransfer a to ref) = op_bind (transfer env cfg a to ref) (\<lambda>_. op_return ())"
| "run_spend env cfg (SpSplit n as) = op_bind (split env cfg n as) (\<lambda>_. op_return ())"
| "run_spend env cfg (SpMerge ns) = op_bind (merge env cfg ns) (\<lambda>_. op_return ())"
| "run_spend env cfg (SpWithdraw n to) = op_bind (withdraw env cfg n to) (\<lambda>_. op_return ())"

lemma throw_nothing: "all_or_nothing (op_bind (op_throw e) f)"
  by (auto simp: all_or_nothing_def op_bind_def)

lemma spend_all_or_nothing: "all_or_nothing (run_spend env cfg sp)"
proof (cases sp)
  case (SpTransfer a to ref)
  show ?thesis
    unfolding SpTransfer run_spend.simps transfer_def transfer_post_def bind_assoc
    by (intro prepared_then posted_then keeps_intros grows_intros)
next
  case (SpSplit n as)
  show ?thesis
    unfolding SpSplit run_spend.simps split_def bind_assoc
    by (intro prepared_then posted_then keeps_intros grows_intros)
next
  case (SpMerge ns)
  show ?thesis
  proof (cases "\<exists>i1 i2. ns = [i1, i2]")
    case True
    then obtain i1 i2 where "ns = [i1, i2]" by blast
    then show ?thesis
      unfolding SpMerge run_spend.simps merge_def merge_post_def bind_assoc
      by (simp add: bind_assoc) (intro prepared_then posted_then keeps_intros grows_intros)
  next
    case False
    then have "merge env cfg ns = op_throw (InvalidNoteError ''merge takes exactly two notes'')"
      by (auto simp: merge_def split: list.split)
    then show ?thesis by (simp add: SpMerge throw_nothing)
  qed
next
  case (SpWithdraw n to)
  show ?thesis
    unfolding SpWithdraw run_spend.simps withdraw_def bind_assoc
    by (intro prepared_then posted_then keeps_intros grows_intros)
qed

section \<open>Spent notes\<close>

text \<open>A property of the note store that an operation does not destroy.\<close>

definition stable :: "(note_store \<Rightarrow> bool) \<Rightarrow> 'a client_op \<Rightarrow> bool" where
  "stable Q m \<longleftrightarrow> (\<forall>s. Q (ss_store s) \<longrightarrow> Q (ss_store (snd (m s))))"

named_theorems stable_intros \<open>operations that do not destroy a property of the note store\<close>

lemma stableD: "stable Q m \<Longrightarrow> m s = (r, s') \<Longrightarrow> Q (ss_store s) \<Longrightarrow> Q (ss_store s')"
  unfolding stable_def by (metis snd_conv)

lemma stable_keeps: "keeps wallet_view m \<Longrightarrow> stable Q m"
  by (simp add: stable_def keeps_def wallet_view_def)

lemma stable_pure [stable_intros]:
  "stable Q (op_return a)" "stable Q (op_throw e)" "stable Q (op_lift r)" "stable Q (op_get f)" "stable Q (op_event ev)"
  "stable Q (update_vault g)"
  by (simp_all add: stable_def op_event_def update_vault_def)

lemma stable_bind [stable_intros]: "stable Q m \<Longrightarrow> (\<And>a. stable Q (f a)) \<Longrightarrow> stable Q (op_bind m f)"
  unfolding stable_def op_bind_def by (auto split: prod.split sum.split)

lemma stable_catch [stable_intros]: "stable Q m \<Longrightarrow> (\<And>e. stable Q (h e)) \<Longrightarrow> stable Q (op_catch m h)"
  unfolding stable_def op_catch_def by (auto split: prod.split sum.split)

lemma stable_cases [stable_intros]:
  "stable Q m \<Longrightarrow> stable Q n \<Longrightarrow> stable Q (if b then m else n)"
  "(\<And>a b. stable Q (g a b)) \<Longrightarrow> stable Q (case p of (a, b) \<Rightarrow> g a b)"
  "stable Q (k x) \<Longrightarrow> stable Q (let y = x in k y)"
  by (auto split: prod.split)

lemma stable_store: "(\<And>st. Q st \<Longrightarrow> Q (f st)) \<Longrightarrow> stable Q (update_store f)"
  by (simp add: stable_def update_store_def)

lemma stable_when [stable_intros]: "(\<And>api. stable Q (f api)) \<Longrightarrow> stable Q (when_authenticated f)"
  unfolding when_authenticated_def by (intro stable_intros)

lemma stable_helpers [stable_intros]:
  "stable Q (op_draw env)" "stable Q (client_keys env cfg)" "stable Q (api_write env rq)" "stable Q (persist n)"
  unfolding api_write_def persist_def
  by ((rule stable_keeps, rule keeps_draw keeps_keys)+, (intro stable_intros)+)

lemma stable_ciphertext [stable_intros]: "stable Q (storeCiphertext env cfg n leaf vpk)"
  unfolding storeCiphertext_def by (cases vpk) (simp_all, (intro stable_intros)+)

text \<open>What the notes of a store can lose: neither a spent mark nor their entry goes by adding or marking.\<close>

definition known_in :: "string \<Rightarrow> note_store \<Rightarrow> bool" where
  "known_in c st \<longleftrightarrow> jm_get st c \<noteq> None"

lemma marked_spent: "known_in c st \<Longrightarrow> spent_in c (store_markSpent c st)"
  by (auto simp: known_in_def spent_in_def store_markSpent_def)

lemma stable_spent [stable_intros]:
  "stable (spent_in c) (update_store (store_add n))" "stable (spent_in c) (update_store (store_markSpent c'))"
  using store_step_spent [of c _ "SAdd n"] store_step_spent [of c _ "SMark c'"] by (auto intro!: stable_store)

lemma stable_known [stable_intros]:
  "stable (known_in c) (update_store (store_add n))" "stable (known_in c) (update_store (store_markSpent c'))"
  by (auto intro!: stable_store simp: known_in_def store_add_def store_markSpent_def Let_def split: option.splits)

lemma stable_consume [stable_intros]: "stable (spent_in c) (consume env n)" "stable (known_in c) (consume env n)"
  unfolding consume_def consume_outside_def by (intro stable_intros)+

lemma stable_keep [stable_intros]: "stable (spent_in c) (keep_note n)"
  unfolding keep_note_def by (intro stable_intros)

lemma consumed:
  assumes "consume env n s = (r, s')" "known_in (sh_commitment n) (ss_store s)"
  shows "spent_in (sh_commitment n) (ss_store s')"
proof -
  have "stable (spent_in (sh_commitment n)) (consume_outside env n)"
    unfolding consume_outside_def by (intro stable_intros)
  moreover have "consume_outside env n (s\<lparr>ss_store := store_markSpent (sh_commitment n) (ss_store s)\<rparr>) = (r, s')"
    using assms(1) by (simp add: consume_def op_bind_def update_store_def)
  ultimately show ?thesis using stableD marked_spent [OF assms(2)] by fastforce
qed

definition spends :: "string \<Rightarrow> 'a client_op \<Rightarrow> bool" where
  "spends c m \<longleftrightarrow>
     (\<forall>s a s'. m s = (Inr a, s') \<longrightarrow> known_in c (ss_store s) \<longrightarrow> spent_in c (ss_store s'))"

lemma spends_consume: "spends (sh_commitment n) (consume env n)"
  unfolding spends_def using consumed by blast

lemma spends_first: "spends c m \<Longrightarrow> (\<And>a. stable (spent_in c) (f a)) \<Longrightarrow> spends c (op_bind m f)"
  unfolding spends_def op_bind_Inr by (meson stableD)

lemma spends_later: "stable (known_in c) m \<Longrightarrow> (\<And>a. spends c (f a)) \<Longrightarrow> spends c (op_bind m f)"
  unfolding spends_def op_bind_Inr by (meson stableD)

lemma stable_relay [stable_intros]: "stable Q (relay_submit env cfg op params proved)"
  unfolding relay_submit_def by (intro stable_intros)

lemma split_spends: "spends (sh_commitment n) (split env cfg n amounts)"
  unfolding split_def split_record_def
  by (rule spends_later, rule stable_keeps, rule keeps_split_prepare, rule spends_later, rule stable_pure,
      rule spends_later, rule stable_relay, rule spends_first, rule spends_consume) (intro stable_intros)+

lemma withdraw_spends: "spends (sh_commitment n) (withdraw env cfg n to)"
  unfolding withdraw_def
  by (rule spends_later, rule stable_keeps, rule keeps_prepare, rule spends_later, rule stable_pure,
      rule spends_later, rule stable_relay, rule spends_first, rule spends_consume) (intro stable_intros)+

lemma merge_post_stable [stable_intros]: "stable Q (merge_post env cfg p proved)"
  unfolding merge_post_def
  by (rule stable_bind, rule stable_keeps, rule keeps_tree, rule stable_bind, rule stable_keeps, rule keeps_tree,
      rule stable_bind, rule stable_keeps, rule keeps_tree) (intro stable_intros)

lemma merge_spends: "i \<in> {i1, i2} \<Longrightarrow> spends (sh_commitment i) (merge env cfg [i1, i2])"
proof -
  assume i: "i \<in> {i1, i2}"
  have r: "spends (sh_commitment i) (merge_record env cfg i1 i2 p posted)" for p posted
    using i unfolding merge_record_def by (cases posted) (auto intro!: spends_consume stable_intros intro: spends_first spends_later)
  show ?thesis
    unfolding merge_def list.case
    by (rule spends_later, rule stable_keeps, rule keeps_prepare, rule spends_later, rule stable_pure,
      rule spends_later, rule merge_post_stable, rule r)
qed

fun spend_inputs :: "spend \<Rightarrow> shield_note list" where
  "spend_inputs (SpSplit n as) = [n]"
| "spend_inputs (SpMerge ns) = ns"
| "spend_inputs (SpWithdraw n to) = [n]"
| "spend_inputs (SpTransfer a to ref) = []"

lemma run_spend_spends: "n \<in> set (spend_inputs sp) \<Longrightarrow> spends (sh_commitment n) (run_spend env cfg sp)"
proof (cases sp)
  case (SpMerge ns)
  assume n: "n \<in> set (spend_inputs sp)"
  show ?thesis
  proof (cases "\<exists>i1 i2. ns = [i1, i2]")
    case True
    then show ?thesis using n SpMerge merge_spends [of n] by (auto intro!: spends_first stable_intros)
  next
    case False
    then have "merge env cfg ns = op_throw (InvalidNoteError ''merge takes exactly two notes'')"
      by (auto simp: merge_def split: list.split)
    then show ?thesis using SpMerge by (simp add: spends_def op_bind_def)
  qed
qed (auto intro!: spends_first split_spends withdraw_spends stable_intros)

text \<open>C6: A spend happens or leaves everything as it was. Whatever fails, in the proof, at zkVerify, at the relayers
  or in the answers of the API: a transfer, split, merge or withdrawal that throws leaves the wallet's notes, its
  vault, its session and the record of what went out unchanged, unless a relayer has already carried the operation
  out; one that returns was carried out by a relayer before anything was recorded, and every note it was given
  that the store knows is spent afterwards.\<close>

theorem spend_all_or_nothing_thm:
  assumes "run_spend env cfg sp s = (r, s')"
  shows "case r of
      Inl e \<Rightarrow> wallet_view s' = wallet_view s \<or> relayed_first s s'
    | Inr u \<Rightarrow> relayed_first s s' \<and>
        (\<forall>n \<in> set (spend_inputs sp). known_in (sh_commitment n) (ss_store s) \<longrightarrow> spent_in (sh_commitment n) (ss_store s'))"
proof (cases r)
  case (Inl e)
  then show ?thesis using spend_all_or_nothing [of env cfg sp] assms unfolding all_or_nothing_def by fastforce
next
  case (Inr u)
  then have "relayed_first s s'" using spend_all_or_nothing [of env cfg sp] assms unfolding all_or_nothing_def by fastforce
  moreover have "spent_in (sh_commitment n) (ss_store s')"
    if "n \<in> set (spend_inputs sp)" "known_in (sh_commitment n) (ss_store s)" for n
    using run_spend_spends [OF that(1)] assms that(2) Inr unfolding spends_def by blast
  ultimately show ?thesis using Inr by simp
qed

end
