(* ===== verification/ShieldTree.thy ===== *)
theory ShieldTree
  imports ShieldProps
begin

text \<open>
  The client's tree (\<open>syncTree\<close>, \<open>membership\<close>, \<open>insertionFor\<close> of \<open>sdk/src/client/STXShield.ts\<close>) as the Poseidon
  tree over the commitments the API gives, and what follows for the operations: which roots, leaf indices and
  witnesses a spend is proved and posted with.
\<close>

section \<open>Runs on the tree of a list of leaves\<close>

abbreviation chain_tree :: "client_env \<Rightarrow> bytes list \<Rightarrow> commitment_tree" where
  "chain_tree env ls \<equiv> tree_of (poseidon2 (ce_poseidon env)) TREE_DEPTH ls"

definition chain_root :: "client_env \<Rightarrow> bytes list \<Rightarrow> bytes" where
  "chain_root env ls = subtree (tree_hash (poseidon2 (ce_poseidon env))) ls TREE_DEPTH 0"

definition chain_leaf :: "string \<Rightarrow> bytes" where
  "chain_leaf c = hexToBytes (norm_commitment c)"

lemma tree_of_snoc: "tree_of p d (ls @ [c]) = tree_append p c (tree_of p d ls)"
  by (simp add: tree_of_def)

lemma chain_tree_root: "length ls \<le> 2 ^ TREE_DEPTH \<Longrightarrow> tree_root (chain_tree env ls) = chain_root env ls"
  using ct.root_spec [OF tree_of_inv(1)] tree_of_inv(2) by (simp add: chain_root_def)

lemma currentRootHex_chain:
  "length ls \<le> 2 ^ TREE_DEPTH \<Longrightarrow> currentRootHex (chain_tree env ls) = toHex (chain_root env ls)"
  by (simp add: currentRootHex_def chain_tree_root bytesToHex_same toHex_def)

lemma insert_run:
  assumes "length ls < 2 ^ TREE_DEPTH"
  shows "tree_insert p c (tree_of p TREE_DEPTH ls) = Inr (length ls, tree_of p TREE_DEPTH (ls @ [c]))"
proof -
  have le: "length ls \<le> 2 ^ TREE_DEPTH" using assms by simp
  show ?thesis
    using tree_append_insert [OF tree_of_inv(1) [OF le] _ order_refl] tree_of_count [OF le] assms by (simp add: tree_of_snoc)
qed

lemma insert_full:
  "length ls = 2 ^ TREE_DEPTH \<Longrightarrow>
   tree_insert p c (tree_of p TREE_DEPTH ls) = Inl (JsError ''commitment tree is full'')"
  using tree_of_count [of ls TREE_DEPTH p] by (simp add: tree_insert_def MAX_LEAVES_def)

text \<open>The insertion witness as integers; the root of the tree of the leaves and of one leaf more.\<close>

definition big :: "bytes \<Rightarrow> int" where
  "big b = int (be_val b)"

definition proof_of_insertion :: "client_env \<Rightarrow> bytes list \<Rightarrow> bytes \<Rightarrow> insertion_proof" where
  "proof_of_insertion env ls c =
     \<lparr>ip_leafIndex = length ls, ip_indexBits = path_bits TREE_DEPTH (length ls),
      ip_siblings = map big (path_sibs (tree_hash (poseidon2 (ce_poseidon env))) ls TREE_DEPTH 0 (length ls)),
      ip_oldRoot = big (chain_root env ls), ip_newRoot = big (chain_root env (ls @ [c]))\<rparr>"

lemma rmap_big: "rmap bytesToBig bs = Inr (map big bs)"
  by (induction bs) (simp_all add: bytesToBig_val big_def)

lemma insertionWitness_run:
  assumes "length ls < 2 ^ TREE_DEPTH"
  shows "insertionWitness p c (tree_of p TREE_DEPTH ls) = Inr
    \<lparr>iw_index = length ls, iw_indexBits = path_bits TREE_DEPTH (length ls),
     iw_siblings = path_sibs (tree_hash p) ls TREE_DEPTH 0 (length ls), iw_emptyLeaf = ZERO,
     iw_oldRoot = tree_root (tree_of p TREE_DEPTH ls), iw_newRoot = tree_root (tree_of p TREE_DEPTH (ls @ [c]))\<rparr>"
proof -
  have le: "length ls \<le> 2 ^ TREE_DEPTH" using assms by simp
  note inv = tree_of_inv [OF le, where p = p]
  have pl: "path_loop (tree_of p TREE_DEPTH ls) TREE_DEPTH 0 (length ls) =
      (path_sibs (tree_hash p) ls TREE_DEPTH 0 (length ls), path_bits TREE_DEPTH (length ls))"
    using path_loop_inv [OF inv(1), of 0 TREE_DEPTH "length ls"] inv(2) by simp
  obtain w t' where w: "insertionWitness p c (tree_of p TREE_DEPTH ls) = Inr w"
    and t: "tree_insert p c (tree_of p TREE_DEPTH ls) = Inr (iw_index w, t')"
    and f: "iw_index w = length ls" "iw_emptyLeaf w = ZERO" "iw_oldRoot w = tree_root (tree_of p TREE_DEPTH ls)"
      "iw_newRoot w = tree_root t'"
    using insertion_transition [OF assms order_refl] by blast
  have "ct_depth (tree_of p TREE_DEPTH ls) = TREE_DEPTH" "ct_count (tree_of p TREE_DEPTH ls) = length ls"
    using inv(1) tree_of_count [OF le] by (simp_all add: tree_inv_def)
  then have "iw_indexBits w = path_bits TREE_DEPTH (length ls)"
    "iw_siblings w = path_sibs (tree_hash p) ls TREE_DEPTH 0 (length ls)"
    using w pl by (auto simp: insertionWitness_def Let_def split: if_splits)
  moreover have "t' = tree_of p TREE_DEPTH (ls @ [c])" using t assms by (simp add: insert_run)
  ultimately show ?thesis using w f by (cases w) simp
qed

lemma insertionFor_run:
  assumes "length ls < 2 ^ TREE_DEPTH"
  shows "insertionFor (poseidon2 (ce_poseidon env)) c (chain_tree env ls) = Inr (proof_of_insertion env ls (hexToBytes c))"
  using assms
  by (simp add: insertionFor_def insertionWitness_run rmap_big bytesToBig_val lift_js_def proof_of_insertion_def
      chain_tree_root big_def)

lemma insertionFor_full:
  assumes "length ls = 2 ^ TREE_DEPTH"
  shows "insertionFor p c (tree_of p TREE_DEPTH ls) = Inl (JsThrown (JsError ''commitment tree is full''))"
  using assms tree_of_count [of ls TREE_DEPTH p] by (simp add: insertionFor_def insertionWitness_def MAX_LEAVES_def lift_js_def)

section \<open>Synchronisation\<close>

fun index_from :: "nat \<Rightarrow> string list \<Rightarrow> (string, nat) jsmap \<Rightarrow> (string, nat) jsmap" where
  "index_from n [] m = m"
| "index_from n (c # cs) m = index_from (n + 1) cs (jm_set (norm_commitment c) n m)"

lemma sync_loop_run:
  "length ls + length cs \<le> 2 ^ TREE_DEPTH \<Longrightarrow>
   sync_loop p cs (tree_of p TREE_DEPTH ls) m = Inr (tree_of p TREE_DEPTH (ls @ map chain_leaf cs), index_from (length ls) cs m)"
proof (induction cs arbitrary: ls m)
  case (Cons c cs)
  then have "length ls < 2 ^ TREE_DEPTH" by simp
  moreover have "sync_loop p cs (tree_of p TREE_DEPTH (ls @ [chain_leaf c])) m' =
      Inr (tree_of p TREE_DEPTH ((ls @ [chain_leaf c]) @ map chain_leaf cs), index_from (length (ls @ [chain_leaf c])) cs m')" for m'
    using Cons.prems by (intro Cons.IH) simp
  ultimately show ?case by (simp add: insert_run chain_leaf_def [symmetric] Let_def)
qed simp

lemma sync_loop_over:
  "length ls \<le> 2 ^ TREE_DEPTH \<Longrightarrow> 2 ^ TREE_DEPTH < length ls + length cs \<Longrightarrow>
   sync_loop p cs (tree_of p TREE_DEPTH ls) m = Inl (JsError ''commitment tree is full'')"
proof (induction cs arbitrary: ls m)
  case (Cons c cs)
  show ?case
  proof (cases "length ls = 2 ^ TREE_DEPTH")
    case False
    then have "length ls < 2 ^ TREE_DEPTH" using Cons.prems by simp
    moreover have "sync_loop p cs (tree_of p TREE_DEPTH (ls @ [chain_leaf c])) m' = Inl (JsError ''commitment tree is full'')" for m'
      using Cons.prems calculation by (intro Cons.IH) simp_all
    ultimately show ?thesis by (simp add: insert_run chain_leaf_def [symmetric] Let_def)
  qed (simp add: insert_full Let_def)
qed simp

lemma index_from_sound:
  "jm_get (index_from n cs m) k = Some i \<Longrightarrow>
     (n \<le> i \<and> i < n + length cs \<and> norm_commitment (cs ! (i - n)) = k) \<or> jm_get m k = Some i"
proof (induction cs arbitrary: n m)
  case (Cons c cs)
  then consider "n + 1 \<le> i" "i < n + 1 + length cs" "norm_commitment (cs ! (i - (n + 1))) = k"
    | "jm_get (jm_set (norm_commitment c) n m) k = Some i" by fastforce
  then show ?case
  proof cases
    case 1
    then have "(c # cs) ! (i - n) = cs ! (i - (n + 1))" by (simp add: nth_Cons')
    with 1 show ?thesis by simp
  next
    case 2
    then show ?thesis by (auto split: if_splits)
  qed
qed simp

lemma index_from_complete:
  "(\<exists>c \<in> set cs. norm_commitment c = k) \<or> jm_get m k \<noteq> None \<Longrightarrow> jm_get (index_from n cs m) k \<noteq> None"
  by (induction cs arbitrary: n m) auto

definition synced :: "client_env \<Rightarrow> string list \<Rightarrow> shield_state \<Rightarrow> shield_state" where
  "synced env cs s = s\<lparr>ss_tree := chain_tree env (map chain_leaf cs), ss_index := index_from 0 cs []\<rparr>"

lemma new_tree_of: "new_CommitmentTree p d = tree_of p d []"
  by (simp add: tree_of_def)

lemma syncTree_run:
  assumes "api_getCommitments (ce_api env) (ss_api s) = Inr cs"
  shows "syncTree env s =
    (if length cs \<le> 2 ^ TREE_DEPTH then (Inr (), synced env cs s)
     else (Inl (JsThrown (JsError ''commitment tree is full'')), s))"
proof -
  let ?p = "poseidon2 (ce_poseidon env)"
  have "sync_loop ?p cs (new_CommitmentTree ?p TREE_DEPTH) [] =
      (if length cs \<le> 2 ^ TREE_DEPTH then Inr (chain_tree env (map chain_leaf cs), index_from 0 cs [])
       else Inl (JsError ''commitment tree is full''))"
    using sync_loop_run [of "[]" cs ?p "[]"] sync_loop_over [of "[]" cs ?p "[]"] by (simp add: new_tree_of)
  then show ?thesis
    using assms by (simp add: syncTree_def op_bind_def Let_def lift_js_def synced_def)
qed

lemma syncTree_Inr:
  assumes "syncTree env s = (Inr u, s1)"
  obtains cs where "api_getCommitments (ce_api env) (ss_api s) = Inr cs" "length cs \<le> 2 ^ TREE_DEPTH" "s1 = synced env cs s"
proof -
  obtain cs where cs: "api_getCommitments (ce_api env) (ss_api s) = Inr cs"
    using assms by (auto simp: syncTree_def op_bind_Inr)
  with assms show ?thesis by (intro that [of cs]) (simp_all add: syncTree_run split: if_splits)
qed

text \<open>The membership witness of the leaf at a position, as integers.\<close>

definition proof_of_member :: "client_env \<Rightarrow> bytes list \<Rightarrow> nat \<Rightarrow> membership_witness" where
  "proof_of_member env ls i =
     \<lparr>mw_indexBits = path_bits TREE_DEPTH i,
      mw_siblings = map big (path_sibs (tree_hash (poseidon2 (ce_poseidon env))) ls TREE_DEPTH 0 i),
      mw_merkleRoot = big (chain_root env ls)\<rparr>"

lemma tree_proof_run:
  assumes "length ls \<le> 2 ^ TREE_DEPTH" "i < length ls"
  shows "tree_proof (int i) (tree_of p TREE_DEPTH ls) = Inr
    \<lparr>mp_leaf = ls ! i, mp_index = i, mp_indexBits = path_bits TREE_DEPTH i,
     mp_siblings = path_sibs (tree_hash p) ls TREE_DEPTH 0 i, mp_root = tree_root (tree_of p TREE_DEPTH ls)\<rparr>"
proof -
  note inv = tree_of_inv [OF assms(1), where p = p]
  have "path_loop (tree_of p TREE_DEPTH ls) TREE_DEPTH 0 i = (path_sibs (tree_hash p) ls TREE_DEPTH 0 i, path_bits TREE_DEPTH i)"
    using path_loop_inv [OF inv(1), of 0 TREE_DEPTH i] inv(2) by simp
  moreover have "tree_get (tree_of p TREE_DEPTH ls) 0 i = ls ! i"
    using tree_inv_get [OF inv(1), of 0] inv(2) assms(2) by simp
  moreover have "ct_depth (tree_of p TREE_DEPTH ls) = TREE_DEPTH" using inv(1) by (simp add: tree_inv_def)
  ultimately show ?thesis using assms tree_of_count [OF assms(1), of p] by (simp add: tree_proof_def Let_def)
qed

lemma membership_run:
  assumes "length cs \<le> 2 ^ TREE_DEPTH"
  shows "membership (chain_tree env (map chain_leaf cs)) (index_from 0 cs []) n =
    (case jm_get (index_from 0 cs []) (js_toLowerCase (sh_commitment n)) of
       None \<Rightarrow> Inl (InvalidNoteError ''note commitment is not on chain yet (wait for confirmation)'')
     | Some i \<Rightarrow> Inr (proof_of_member env (map chain_leaf cs) i))"
proof (cases "jm_get (index_from 0 cs []) (js_toLowerCase (sh_commitment n))")
  case (Some i)
  then have "i < length (map chain_leaf cs)" using index_from_sound [OF Some] by simp
  then have "tree_proof (int i) (chain_tree env (map chain_leaf cs)) = Inr
     \<lparr>mp_leaf = map chain_leaf cs ! i, mp_index = i, mp_indexBits = path_bits TREE_DEPTH i,
      mp_siblings = path_sibs (tree_hash (poseidon2 (ce_poseidon env))) (map chain_leaf cs) TREE_DEPTH 0 i,
      mp_root = tree_root (chain_tree env (map chain_leaf cs))\<rparr>"
    using assms by (intro tree_proof_run) simp_all
  then show ?thesis
    using Some assms
    by (simp add: membership_def rmap_big bytesToBig_val lift_js_def proof_of_member_def chain_tree_root big_def)
qed (simp add: membership_def)

text \<open>What the witness means: its siblings hash the leaf at the position up to the root.\<close>

lemma proof_of_member_folds:
  assumes "i < length ls" "length ls \<le> 2 ^ TREE_DEPTH"
  shows "fold_path (tree_hash (poseidon2 (ce_poseidon env)))
     (path_sibs (tree_hash (poseidon2 (ce_poseidon env))) ls TREE_DEPTH 0 i) (path_bits TREE_DEPTH i) (ls ! i) = chain_root env ls"
  using fold_path_subtree [of "tree_hash (poseidon2 (ce_poseidon env))" ls TREE_DEPTH 0 i] assms by (simp add: chain_root_def)

section \<open>Runs of the client's steps on a synchronised state\<close>

lemma synced_fields [simp]:
  "ss_tree (synced env cs s) = chain_tree env (map chain_leaf cs)" "ss_index (synced env cs s) = index_from 0 cs []"
  "ss_api (synced env cs s) = ss_api s" "ss_events (synced env cs s) = ss_events s" "ss_store (synced env cs s) = ss_store s"
  "ss_vault (synced env cs s) = ss_vault s" "ss_owner (synced env cs s) = ss_owner s"
  "ss_viewing (synced env cs s) = ss_viewing s"
  by (simp_all add: synced_def)

lemma client_insert_run:
  "ss_tree s = chain_tree env ls \<Longrightarrow> length ls < 2 ^ TREE_DEPTH \<Longrightarrow>
   client_insert env c s = (Inr (length ls), s\<lparr>ss_tree := chain_tree env (ls @ [hexToBytes c])\<rparr>)"
  by (simp add: client_insert_def insert_run)

lemma client_insertion_run:
  "ss_tree s = chain_tree env ls \<Longrightarrow> length ls < 2 ^ TREE_DEPTH \<Longrightarrow>
   client_insertion env c s = (Inr (proof_of_insertion env ls (hexToBytes c)), s)"
  by (simp add: client_insertion_def insertionFor_run)

lemma client_insertion_room:
  assumes "client_insertion env c s = (Inr ip, s1)" "ss_tree s = chain_tree env ls" "length ls \<le> 2 ^ TREE_DEPTH"
  shows "length ls < 2 ^ TREE_DEPTH \<and> ip = proof_of_insertion env ls (hexToBytes c) \<and> s1 = s"
proof (cases "length ls = 2 ^ TREE_DEPTH")
  case True
  then show ?thesis using assms by (simp add: client_insertion_def insertionFor_full)
next
  case False
  then have "length ls < 2 ^ TREE_DEPTH" using assms(3) by simp
  then show ?thesis using assms client_insertion_run [OF assms(2)] by simp
qed

lemma client_root_run:
  "ss_tree s = chain_tree env ls \<Longrightarrow> length ls \<le> 2 ^ TREE_DEPTH \<Longrightarrow> client_root s = (Inr (toHex (chain_root env ls)), s)"
  by (simp add: client_root_def currentRootHex_chain)

lemma keeps_keys_api: "keeps ss_api (client_keys env cfg)"
proof (rule keeps_run)
  fix s :: shield_state
  show "ss_api (snd (client_keys env cfg s)) = ss_api s"
    by (auto simp: client_keys_def op_bind_def Let_def split: option.split sum.split prod.split)
qed

lemma newNote_Inr:
  assumes "newNote env a own asset s = (Inr o1, s1)"
  shows "s1 = s\<lparr>ss_drawn := ss_drawn s + 1\<rparr> \<and> sh_amount (fn_note o1) = a"
  using assms by (auto simp: newNote_def op_bind_Inr op_draw_def note_for_def Let_def)

lemma split_tree_run:
  assumes "split_tree env n c1 c2 s = (Inr (member, r1, i1, l1, i2, l2, r2), s')"
    and "ss_tree s = chain_tree env (map chain_leaf cs)" "ss_index s = index_from 0 cs []" "length cs \<le> 2 ^ TREE_DEPTH"
  shows "let ls = map chain_leaf cs; b1 = hexToBytes c1; b2 = hexToBytes c2 in
    (\<exists>i < length cs. norm_commitment (cs ! i) = js_toLowerCase (sh_commitment n) \<and> member = proof_of_member env ls i)
    \<and> r1 = toHex (chain_root env ls) \<and> i1 = proof_of_insertion env ls b1 \<and> l1 = length cs
    \<and> i2 = proof_of_insertion env (ls @ [b1]) b2 \<and> l2 = length cs + 1 \<and> r2 = toHex (chain_root env (ls @ [b1, b2]))
    \<and> length cs + 1 < 2 ^ TREE_DEPTH"
proof -
  let ?ls = "map chain_leaf cs" and ?b1 = "hexToBytes c1" and ?b2 = "hexToBytes c2"
  have le: "length ?ls \<le> 2 ^ TREE_DEPTH" using assms(4) by simp
  obtain s3 s4 s5 where r: "membership (ss_tree s) (ss_index s) n = Inr member" "client_root s = (Inr r1, s)"
    "client_insertion env c1 s = (Inr i1, s)" "client_insert env c1 s = (Inr l1, s3)"
    "client_insertion env c2 s3 = (Inr i2, s4)" "client_insert env c2 s4 = (Inr l2, s5)" "client_root s5 = (Inr r2, s')"
    using assms(1) unfolding split_tree_def op_bind_Inr
    by (auto simp: client_membership_def client_root_def client_insertion_def)
  obtain i where i: "jm_get (index_from 0 cs []) (js_toLowerCase (sh_commitment n)) = Some i" "member = proof_of_member env ?ls i"
    using r(1) assms(2-4) by (auto simp: membership_run split: option.splits)
  have m: "i < length cs" "norm_commitment (cs ! i) = js_toLowerCase (sh_commitment n)" using index_from_sound [OF i(1)] by simp_all
  have a: "length ?ls < 2 ^ TREE_DEPTH" "i1 = proof_of_insertion env ?ls ?b1"
    using client_insertion_room [OF r(3) assms(2) le] by simp_all
  have t3: "l1 = length ?ls" "ss_tree s3 = chain_tree env (?ls @ [?b1])"
    using r(4) client_insert_run [OF assms(2) a(1), of c1] by auto
  have le3: "length (?ls @ [?b1]) \<le> 2 ^ TREE_DEPTH" using a(1) by simp
  have b: "length (?ls @ [?b1]) < 2 ^ TREE_DEPTH" "i2 = proof_of_insertion env (?ls @ [?b1]) ?b2" "s4 = s3"
    using client_insertion_room [OF r(5) t3(2) le3] by simp_all
  have t5: "l2 = length (?ls @ [?b1])" "ss_tree s5 = chain_tree env ((?ls @ [?b1]) @ [?b2])"
    using r(6) client_insert_run [OF t3(2) b(1), of c2] b(3) by auto
  have "r1 = toHex (chain_root env ?ls)" using r(2) client_root_run [OF assms(2) le] by simp
  moreover have "r2 = toHex (chain_root env ((?ls @ [?b1]) @ [?b2]))"
    using r(7) client_root_run [OF t5(2)] b(1) by simp
  ultimately show ?thesis using m i(2) a(2) b(1,2) t3(1) t5(1) by (auto simp: Let_def)
qed

lemma split_prepare_run:
  assumes "split_prepare env cfg n amounts s = (Inr p, s1)"
  obtains cs where "api_getCommitments (ce_api env) (ss_api s) = Inr cs" "length cs \<le> 2 ^ TREE_DEPTH"
    "let ls = map chain_leaf cs; b1 = hexToBytes (sh_commitment (fn_note (pp_out1 p))); b2 = hexToBytes (sh_commitment (fn_note (pp_out2 p))) in
     (\<exists>i < length cs. norm_commitment (cs ! i) = js_toLowerCase (sh_commitment n) \<and> lw_membership (pp_witness p) = proof_of_member env ls i)
     \<and> pp_currentRoot p = toHex (chain_root env ls) \<and> lw_insertion1 (pp_witness p) = proof_of_insertion env ls b1 \<and> pp_leaf1 p = length cs
     \<and> lw_insertion2 (pp_witness p) = proof_of_insertion env (ls @ [b1]) b2 \<and> pp_leaf2 p = length cs + 1
     \<and> pp_newRoot p = toHex (chain_root env (ls @ [b1, b2])) \<and> length cs + 1 < 2 ^ TREE_DEPTH"
    "sh_amount (fn_note (pp_out1 p)) + sh_amount (fn_note (pp_out2 p)) = sh_amount n"
proof -
  obtain x1 x2 where am: "amounts = [x1, x2]"
    using assms by (auto simp: split_prepare_def split: list.splits)
  obtain own view s2 a1 a2 engine s3 o1 s4 o2 s5 nf member r1 i1 l1 i2 l2 r2 f where r:
    "client_keys env cfg s = (Inr (own, view), s2)" "a1 + a2 = sh_amount n" "syncTree env s2 = (Inr (), s3)"
    "newNote env a1 own (assetOfNote cfg n) s3 = (Inr o1, s4)" "newNote env a2 own (assetOfNote cfg n) s4 = (Inr o2, s5)"
    "split_tree env n (sh_commitment (fn_note o1)) (sh_commitment (fn_note o2)) s5 = (Inr (member, r1, i1, l1, i2, l2, r2), s1)"
    "p = \<lparr>pp_asset = assetOfNote cfg n, pp_out1 = o1, pp_out2 = o2, pp_leaf1 = l1, pp_leaf2 = l2, pp_currentRoot = r1,
               pp_newRoot = r2, pp_engine = engine,
               pp_witness = \<lparr>lw_nullifier = nf, lw_commitment1 = fn_commitment o1, lw_ownerCommitment1 = fn_ownerCommitment o1,
                 lw_commitment2 = fn_commitment o2, lw_ownerCommitment2 = fn_ownerCommitment o2, lw_input = witnessNote n,
                 lw_ownerSk = sec_ownerSk (sh_secret n), lw_out1 = witnessNote (fn_note o1), lw_out2 = witnessNote (fn_note o2),
                 lw_membership = member, lw_insertion1 = i1, lw_insertion2 = i2, lw_assetField = f\<rparr>\<rparr>"
    using assms unfolding am split_prepare_def list.case op_bind_Inr Let_def case_prod_beta op_lift_run op_guard_run op_return_run
    by (clarsimp simp: op_bind_Inr)
  obtain cs where cs: "api_getCommitments (ce_api env) (ss_api s2) = Inr cs" "length cs \<le> 2 ^ TREE_DEPTH" "s3 = synced env cs s2"
    using syncTree_Inr [OF r(3)] .
  have s2: "ss_api s2 = ss_api s" using keepsD [OF keeps_keys_api r(1)] .
  have s5: "ss_tree s5 = chain_tree env (map chain_leaf cs)" "ss_index s5 = index_from 0 cs []"
    "sh_amount (fn_note o1) = a1" "sh_amount (fn_note o2) = a2"
    using newNote_Inr [OF r(4)] newNote_Inr [OF r(5)] cs(3) by simp_all
  show ?thesis
    using that [OF cs(1) [unfolded s2] cs(2)] split_tree_run [OF r(6) s5(1,2) cs(2)] r(2,7) s5(3,4) by (simp add: Let_def)
qed

section \<open>What a split posts\<close>

lemma landed_fields [simp]:
  "sh_commitment (landed n ct r t l) = sh_commitment n" "sh_amount (landed n ct r t l) = sh_amount n"
  "sh_root (landed n ct r t l) = r" "sh_txid (landed n ct r t l) = t" "sec_leafIndex (sh_secret (landed n ct r t l)) = Some (int l)"
  by (simp_all add: landed_def)

lemma split_record_run:
  assumes "split_record env cfg n p txid s = (Inr (t, ns), s')"
  shows "t = txid \<and> (\<exists>ct1 ct2. ns = [landed (fn_note (pp_out1 p)) ct1 (pp_newRoot p) txid (pp_leaf1 p),
                                   landed (fn_note (pp_out2 p)) ct2 (pp_newRoot p) txid (pp_leaf2 p)])"
  using assms unfolding split_record_def op_bind_Inr Let_def op_return_run by blast

text \<open>C7: A split posts the tree transition it proves: if it returns, the API gave a list of commitments, a relayer took
  the operation, and the roots it posted are those of the Poseidon tree over that list and over the list with the two
  new commitments appended; the proof was made with the membership path of a leaf that is the spent note's commitment,
  with the append of the first commitment at the next free leaf and with the append of the second one right behind it
  over the intermediate root; the two notes it returns carry these leaves and share the amount of the spent note.\<close>

theorem split_posts_two_appends:
  assumes "split env cfg n amounts s = (Inr (txid, ns), s')"
  shows "\<exists>cs p inc. api_getCommitments (ce_api env) (ss_api s) = Inr cs
    \<and> prefix (ss_events s @ [Relayed ''split'' (relay_body (split_params p) inc) txid]) (ss_events s')
    \<and> (let ls = map chain_leaf cs; b1 = hexToBytes (sh_commitment (fn_note (pp_out1 p)));
           b2 = hexToBytes (sh_commitment (fn_note (pp_out2 p))) in
         pp_currentRoot p = toHex (chain_root env ls) \<and> pp_newRoot p = toHex (chain_root env (ls @ [b1, b2]))
         \<and> (\<exists>i < length cs. norm_commitment (cs ! i) = js_toLowerCase (sh_commitment n)
              \<and> lw_membership (pp_witness p) = proof_of_member env ls i)
         \<and> lw_insertion1 (pp_witness p) = proof_of_insertion env ls b1
         \<and> lw_insertion2 (pp_witness p) = proof_of_insertion env (ls @ [b1]) b2)
    \<and> map sh_commitment ns = [sh_commitment (fn_note (pp_out1 p)), sh_commitment (fn_note (pp_out2 p))]
    \<and> map (\<lambda>x. sec_leafIndex (sh_secret x)) ns = [Some (int (length cs)), Some (int (length cs) + 1)]
    \<and> sum_list (map sh_amount ns) = sh_amount n"
proof -
  obtain p s1 proved s2 where r: "split_prepare env cfg n amounts s = (Inr p, s1)"
    "relay_submit env cfg ''split'' (split_params p) proved s1 = (Inr txid, s2)"
    "split_record env cfg n p txid s2 = (Inr (txid, ns), s')"
    using assms split_record_run unfolding split_def op_bind_Inr op_lift_run by (metis (no_types, lifting) prod.inject)
  obtain inc where e: "ss_events s2 = ss_events s1 @ [Relayed ''split'' (relay_body (split_params p) inc) txid]"
    using relay_submit_cases [OF r(2)] by auto
  have "ss_events s1 = ss_events s" using keepsD [OF keeps_split_prepare r(1)] by (simp add: wallet_view_def)
  moreover have "prefix (ss_events s2) (ss_events s')" using growsD [OF grows_record(2) r(3)] .
  ultimately have ev: "prefix (ss_events s @ [Relayed ''split'' (relay_body (split_params p) inc) txid]) (ss_events s')"
    using e by simp
  obtain ct1 ct2 where ns: "ns = [landed (fn_note (pp_out1 p)) ct1 (pp_newRoot p) txid (pp_leaf1 p),
      landed (fn_note (pp_out2 p)) ct2 (pp_newRoot p) txid (pp_leaf2 p)]"
    using split_record_run [OF r(3)] by blast
  show ?thesis
    by (rule split_prepare_run [OF r(1)], intro exI conjI, assumption, rule ev) (simp_all add: ns Let_def)
qed

section \<open>Two transfers at once\<close>

text \<open>The feed of commitments is read without credentials, so it does not depend on the provider's state.\<close>

lemma api_getCommitments_any: "api_getCommitments server p = api_getCommitments server q"
  by (simp add: api_getCommitments_def api_request_def http_of_def)

lemma keeps_tree_view [keeps_intros]:
  "keeps ss_tree (op_draw env)" "keeps ss_tree (op_event e)" "keeps ss_tree (update_store f)" "keeps ss_tree (update_vault g)"
  by (simp_all add: keeps_def op_draw_def op_event_def update_store_def update_vault_def)

lemma keeps_tree_when [keeps_intros]: "(\<And>api. keeps ss_tree (f api)) \<Longrightarrow> keeps ss_tree (when_authenticated f)"
  unfolding when_authenticated_def by (intro keeps_intros)

lemma keeps_tree_record: "keeps ss_tree (transfer_record env cfg p posted)"
  unfolding transfer_record_def consume_def consume_outside_def storeCiphertext_def api_write_def option.case
  by (intro keeps_intros)

lemma recipientNote_Inr:
  "recipientNote env a addr asset s = (Inr o1, s1) \<Longrightarrow> s1 = s\<lparr>ss_drawn := ss_drawn s + 1\<rparr>"
  by (auto simp: recipientNote_def op_bind_Inr op_draw_def)

lemma transfer_prepare_run:
  assumes "transfer_prepare env cfg amount recipient ref s = (Inr p, s1)"
  obtains cs where "api_getCommitments (ce_api env) (ss_api s) = Inr cs" "length cs < 2 ^ TREE_DEPTH"
    "ss_tree s1 = chain_tree env (map chain_leaf cs)"
    "tw_insertion (tp_witness p) = proof_of_insertion env (map chain_leaf cs) (hexToBytes (sh_commitment (fn_note (tp_out p))))"
proof -
  obtain asset base input to out engine nf c member f s2 s3 s4 ins where r:
    "syncTree env s2 = (Inr (), s3)" "client_insertion env (sh_commitment (fn_note out)) s3 = (Inr ins, s4)"
    "client_membership input s4 = (Inr member, s1)"
    "p = \<lparr>tp_asset = asset, tp_input = input, tp_to = to, tp_out = out, tp_engine = engine,
          tp_witness = \<lparr>tw_nullifier = nf, tw_newCommitment = c, tw_newOwnerCommitment = fn_ownerCommitment out,
            tw_input = witnessNote input, tw_ownerSk = sec_ownerSk (sh_secret input), tw_output = witnessNote (fn_note out),
            tw_membership = member, tw_insertion = ins, tw_assetField = f\<rparr>\<rparr>"
    using assms unfolding transfer_prepare_def op_bind_Inr op_lift_run op_return_run
    by (clarsimp simp: op_bind_Inr)
  obtain cs where cs: "api_getCommitments (ce_api env) (ss_api s2) = Inr cs" "length cs \<le> 2 ^ TREE_DEPTH" "s3 = synced env cs s2"
    using syncTree_Inr [OF r(1)] .
  have t: "ss_tree s3 = chain_tree env (map chain_leaf cs)" using cs(3) by simp
  have "length (map chain_leaf cs) < 2 ^ TREE_DEPTH \<and>
      ins = proof_of_insertion env (map chain_leaf cs) (hexToBytes (sh_commitment (fn_note out))) \<and> s4 = s3"
    using client_insertion_room [OF r(2) t] cs(2) by simp
  moreover have "s1 = s4" using r(3) by (auto simp: client_membership_def)
  ultimately show ?thesis
    using that [of cs] cs(1) api_getCommitments_any [of "ce_api env" "ss_api s2" "ss_api s"] t r(4) by simp
qed

lemma transfer_post_run:
  assumes "transfer_post env cfg p proved s = (Inr (txid, leaf), s')" "ss_tree s = chain_tree env ls" "length ls < 2 ^ TREE_DEPTH"
  shows "let b = hexToBytes (sh_commitment (fn_note (tp_out p))) in
    leaf = length ls \<and> ss_tree s' = chain_tree env (ls @ [b]) \<and>
    (\<exists>inc. ss_events s' = ss_events s @ [Relayed ''transfer'' (relay_body (transfer_params p (toHex (chain_root env ls))
              (toHex (chain_root env (ls @ [b])))) inc) txid])"
proof -
  let ?b = "hexToBytes (sh_commitment (fn_note (tp_out p)))"
  let ?s1 = "s\<lparr>ss_tree := chain_tree env (ls @ [?b])\<rparr>"
  have c: "client_root s = (Inr (toHex (chain_root env ls)), s)" using client_root_run [OF assms(2)] assms(3) by simp
  have i: "client_insert env (sh_commitment (fn_note (tp_out p))) s = (Inr (length ls), ?s1)"
    using client_insert_run [OF assms(2,3)] .
  have n: "client_root ?s1 = (Inr (toHex (chain_root env (ls @ [?b]))), ?s1)" using assms(3) by (intro client_root_run) simp_all
  have rest: "op_bind (relay_submit env cfg ''transfer'' (transfer_params p (toHex (chain_root env ls))
      (toHex (chain_root env (ls @ [?b])))) proved) (\<lambda>txid. op_return (txid, length ls)) ?s1 = (Inr (txid, leaf), s')"
    using assms(1) by (simp add: transfer_post_def op_bind_def c i n)
  then have m: "relay_submit env cfg ''transfer'' (transfer_params p (toHex (chain_root env ls))
      (toHex (chain_root env (ls @ [?b])))) proved ?s1 = (Inr txid, s')" "leaf = length ls"
    by (auto simp: op_bind_Inr)
  then show ?thesis using relay_submit_cases [OF m(1)] by (auto simp: Let_def)
qed

text \<open>C8: Transfers of one client must not overlap: the tree a transfer was proved over is read again after the proof. If a
  second transfer runs while the first waits for its proof, both are proved as the append at the same leaf over the
  same root, and both are posted with that leaf index, but the first is posted with the roots of the tree that
  already holds the second one's commitment, which are not the roots of its proof.\<close>

theorem overlapping_transfers_post_stale_proof:
  assumes "transfer_prepare env cfg a to ref s = (Inr pA, s1)"
    and "transfer env cfg b to' ref' s1 = (Inr txB, s2)"
    and "transfer_post env cfg pA proved s2 = (Inr (txA, leafA), s3)"
    and "length cs + 1 < 2 ^ TREE_DEPTH" "api_getCommitments (ce_api env) (ss_api s) = Inr cs"
  shows "\<exists>pB incA incB. let ls = map chain_leaf cs; cA = hexToBytes (sh_commitment (fn_note (tp_out pA)));
       cB = hexToBytes (sh_commitment (fn_note (tp_out pB))); hexroot = (\<lambda>xs. toHex (chain_root env xs)) in
     tw_insertion (tp_witness pA) = proof_of_insertion env ls cA
     \<and> tw_insertion (tp_witness pB) = proof_of_insertion env ls cB
     \<and> Relayed ''transfer'' (relay_body (transfer_params pB (hexroot ls) (hexroot (ls @ [cB]))) incB) txB \<in> set (ss_events s2)
     \<and> Relayed ''transfer'' (relay_body (transfer_params pA (hexroot (ls @ [cB])) (hexroot (ls @ [cB, cA]))) incA) txA \<in> set (ss_events s3)
     \<and> leafA = length cs + 1"
proof -
  let ?ls = "map chain_leaf cs"
  have pA: "tw_insertion (tp_witness pA) = proof_of_insertion env ?ls (hexToBytes (sh_commitment (fn_note (tp_out pA))))"
    using transfer_prepare_run [OF assms(1)] assms(5) by (metis sum.inject(2))
  obtain pB t1 t2 t3 provedB posted where r: "transfer_prepare env cfg b to' ref' s1 = (Inr pB, t1)"
    "transfer_post env cfg pB provedB t1 = (Inr posted, t2)" "transfer_record env cfg pB posted t2 = (Inr txB, s2)"
    using assms(2) unfolding transfer_def op_bind_Inr op_lift_run by blast
  let ?cB = "hexToBytes (sh_commitment (fn_note (tp_out pB)))"
  obtain cs' where cs': "api_getCommitments (ce_api env) (ss_api s1) = Inr cs'" "ss_tree t1 = chain_tree env (map chain_leaf cs')"
    "tw_insertion (tp_witness pB) = proof_of_insertion env (map chain_leaf cs') ?cB"
    using transfer_prepare_run [OF r(1)] .
  have same: "cs' = cs" using cs'(1) assms(5) api_getCommitments_any [of "ce_api env" "ss_api s1" "ss_api s"] by simp
  obtain leafB where posted: "posted = (txB, leafB)"
    using r(3) by (cases posted) (auto simp: transfer_record_def op_bind_Inr)
  obtain incB where B: "ss_tree t2 = chain_tree env (?ls @ [?cB])"
    "ss_events t2 = ss_events t1 @ [Relayed ''transfer'' (relay_body (transfer_params pB (toHex (chain_root env ?ls))
        (toHex (chain_root env (?ls @ [?cB])))) incB) txB]"
    using transfer_post_run [of env cfg pB provedB t1 txB leafB t2 ?ls] r(2) posted cs'(2) same assms(4) by (auto simp: Let_def)
  have s2: "ss_tree s2 = chain_tree env (?ls @ [?cB])" "prefix (ss_events t2) (ss_events s2)"
    using keepsD [OF keeps_tree_record r(3)] B(1) growsD [OF grows_record(1) r(3)] by simp_all
  obtain incA where A: "leafA = length (?ls @ [?cB])"
    "ss_events s3 = ss_events s2 @ [Relayed ''transfer'' (relay_body (transfer_params pA (toHex (chain_root env (?ls @ [?cB])))
        (toHex (chain_root env ((?ls @ [?cB]) @ [hexToBytes (sh_commitment (fn_note (tp_out pA)))])))) incA) txA]"
    using transfer_post_run [OF assms(3) s2(1)] assms(4) by (auto simp: Let_def)
  have "Relayed ''transfer'' (relay_body (transfer_params pB (toHex (chain_root env ?ls))
        (toHex (chain_root env (?ls @ [?cB])))) incB) txB \<in> set (ss_events s2)"
    using B(2) set_mono_prefix [OF s2(2)] by auto
  then show ?thesis using pA cs'(3) same A by (auto simp: Let_def)
qed

lemma client_membership_synced:
  assumes "client_membership n s = (Inr m, s')" "ss_tree s = chain_tree env (map chain_leaf cs)" "ss_index s = index_from 0 cs []"
    "length cs \<le> 2 ^ TREE_DEPTH"
  shows "s' = s \<and> (\<exists>i < length cs. norm_commitment (cs ! i) = js_toLowerCase (sh_commitment n) \<and>
    m = proof_of_member env (map chain_leaf cs) i)"
proof -
  have r: "membership (ss_tree s) (ss_index s) n = Inr m" "s' = s" using assms(1) by (auto simp: client_membership_def)
  obtain i where i: "jm_get (index_from 0 cs []) (js_toLowerCase (sh_commitment n)) = Some i" "m = proof_of_member env (map chain_leaf cs) i"
    using r(1) assms(2-4) by (auto simp: membership_run split: option.splits)
  then show ?thesis using index_from_sound [OF i(1)] r(2) by auto
qed

end
