(* ===== verification/ClientProofs.thy ===== *)
theory ClientProofs
  imports Circuits ShieldTree
begin

text \<open>
  Whether the witnesses the client prepares can be proved: the inputs the engine builds from them are read by
  the circuit as they were meant, and for notes the wallet owns, on a tree of field elements, every assertion
  of the circuit holds.
\<close>

section \<open>Numbers as text\<close>

lemma big_hex_number: "0 \<le> x \<Longrightarrow> js_BigInt_text (big_hex x) = Inr x"
proof -
  assume x: "0 \<le> x"
  have "hex_of_nat (nat x) \<noteq> []" by (subst hex_of_nat.simps) simp
  then show ?thesis using x js_BigInt_0x [OF hex_of_nat_is_hex, of "nat x"] by (simp add: big_hex_def)
qed

section \<open>Reading the inputs\<close>

lemma abi_number_jfield [simp]: "is_field x \<Longrightarrow> abi_number (jfield x) = Inr x"
  by (simp add: abi_number_def jfield_def big_hex_number is_field_def)

lemma abi_small [simp]:
  "abi_number (JStr ''1'') = Inr 1" "abi_number (JStr ''2'') = Inr 2" "abi_number (JStr ''3'') = Inr 3"
  "abi_number (JStr ''4'') = Inr 4" "abi_number (JStr ''5'') = Inr 5"
  by code_simp+

lemma abi_array_jbits [simp]: "length bs = TREE_DEPTH \<Longrightarrow> abi_array abi_bool (jbits bs) = Inr bs"
proof -
  have "rmap abi_bool (map JBool bs) = Inr bs" by (induction bs) (simp_all add: abi_bool_def)
  then show "length bs = TREE_DEPTH \<Longrightarrow> abi_array abi_bool (jbits bs) = Inr bs"
    by (simp add: abi_array_def jbits_def)
qed

lemma abi_array_jfields [simp]:
  "length xs = TREE_DEPTH \<Longrightarrow> list_all is_field xs \<Longrightarrow> abi_array abi_number (jfields xs) = Inr xs"
proof -
  have "list_all is_field xs \<Longrightarrow> rmap abi_number (map jfield xs) = Inr xs" by (induction xs) simp_all
  then show "length xs = TREE_DEPTH \<Longrightarrow> list_all is_field xs \<Longrightarrow> abi_array abi_number (jfields xs) = Inr xs"
    by (simp add: abi_array_def jfields_def)
qed

definition witness_fields :: "note_witness \<Rightarrow> bool" where
  "witness_fields n \<longleftrightarrow> is_field (nw_amount n) \<and> is_field (nw_ownerPkX n) \<and> is_field (nw_ownerPkY n) \<and> is_field (nw_blinding n)"

lemma abi_get_field [simp]:
  "abi_get (JObj fs) k = (case map_of fs k of None \<Rightarrow> Inl (''missing input '' @ k) | Some v \<Rightarrow> Inr v)"
  by (simp add: abi_get_def)

lemma abi_struct_noteInput [simp]: "witness_fields n \<Longrightarrow> abi_struct (noteInput n) = Inr n"
  by (simp add: abi_struct_def abi_field_def noteInput_def witness_fields_def)

definition member_fields :: "membership_witness \<Rightarrow> bool" where
  "member_fields m \<longleftrightarrow> length (mw_indexBits m) = TREE_DEPTH \<and> length (mw_siblings m) = TREE_DEPTH
     \<and> list_all is_field (mw_siblings m) \<and> is_field (mw_merkleRoot m)"

definition insertion_fields :: "insertion_proof \<Rightarrow> bool" where
  "insertion_fields i \<longleftrightarrow> length (ip_indexBits i) = TREE_DEPTH \<and> length (ip_siblings i) = TREE_DEPTH
     \<and> list_all is_field (ip_siblings i) \<and> is_field (ip_oldRoot i) \<and> is_field (ip_newRoot i) \<and> is_field (int (ip_leafIndex i))"

definition bound_asset :: "int option \<Rightarrow> int option" where
  "bound_asset f = (if asset_bound f then f else None)"

definition asset_field_ok :: "int option \<Rightarrow> bool" where
  "asset_field_ok f \<longleftrightarrow> asset_bound f \<longrightarrow> is_field (the f)"

lemma map_of_assetIn [simp]:
  "map_of (assetIn f) ''asset_id'' = (if asset_bound f then Some (jfield (the f)) else None)"
  "k \<noteq> ''asset_id'' \<Longrightarrow> map_of (assetIn f) k = None"
  by (simp_all add: assetIn_def)

lemma bound_asset_Some [simp]: "asset_bound f \<Longrightarrow> bound_asset f = Some (the f)" "\<not> asset_bound f \<Longrightarrow> bound_asset f = None"
  by (auto simp: bound_asset_def asset_bound_def split: option.splits)

lemmas abi_reads = abi_field_def abi_bits_def abi_fields_def abi_note_def abi_asset_def map_add_def CIRCUIT_VERSION_def
  asset_field_ok_def member_fields_def insertion_fields_def

lemma run_split_inputs:
  assumes "list_all is_field [lw_nullifier w, lw_commitment1 w, lw_ownerCommitment1 w, lw_commitment2 w, lw_ownerCommitment2 w, lw_ownerSk w]"
    and "witness_fields (lw_input w)" "witness_fields (lw_out1 w)" "witness_fields (lw_out2 w)" "member_fields (lw_membership w)"
    and "insertion_fields (lw_insertion1 w)" "insertion_fields (lw_insertion2 w)" "asset_field_ok (lw_assetField w)"
  shows "run_split P mul (asset_bound (lw_assetField w)) (snd (splitInputs w)) =
    split_main P mul (bound_asset (lw_assetField w)) 4 (lw_nullifier w) (lw_commitment1 w) (lw_ownerCommitment1 w) (lw_commitment2 w)
      (lw_ownerCommitment2 w) (mw_merkleRoot (lw_membership w)) (ip_newRoot (lw_insertion2 w)) (int (ip_leafIndex (lw_insertion1 w))) 2
      (lw_input w) (lw_ownerSk w) (mw_indexBits (lw_membership w)) (mw_siblings (lw_membership w)) (lw_out1 w) (lw_out2 w)
      (ip_indexBits (lw_insertion1 w)) (ip_siblings (lw_insertion1 w)) (ip_indexBits (lw_insertion2 w)) (ip_siblings (lw_insertion2 w))"
  using assms by (cases "asset_bound (lw_assetField w)") (simp_all add: run_split_def splitInputs_def abi_reads)

lemma run_transfer_inputs:
  assumes "list_all is_field [tw_nullifier w, tw_newCommitment w, tw_newOwnerCommitment w, tw_ownerSk w]"
    and "witness_fields (tw_input w)" "witness_fields (tw_output w)" "member_fields (tw_membership w)"
    and "insertion_fields (tw_insertion w)" "asset_field_ok (tw_assetField w)"
  shows "run_transfer P mul (asset_bound (tw_assetField w)) (snd (transferInputs w)) =
    transfer_main P mul (bound_asset (tw_assetField w)) 2 (tw_nullifier w) (tw_newCommitment w) (tw_newOwnerCommitment w)
      (mw_merkleRoot (tw_membership w)) (ip_newRoot (tw_insertion w)) (int (ip_leafIndex (tw_insertion w))) 2
      (tw_input w) (tw_ownerSk w) (mw_indexBits (tw_membership w)) (mw_siblings (tw_membership w))
      (ip_indexBits (tw_insertion w)) (ip_siblings (tw_insertion w)) (tw_output w)"
  using assms by (cases "asset_bound (tw_assetField w)") (simp_all add: run_transfer_def transferInputs_def insIn_def abi_reads)

lemma run_merge_inputs:
  assumes "list_all is_field [gw_nullifier1 w, gw_nullifier2 w, gw_commitment w, gw_ownerCommitment w, gw_ownerSk1 w, gw_ownerSk2 w]"
    and "witness_fields (gw_input1 w)" "witness_fields (gw_input2 w)" "witness_fields (gw_output w)" "member_fields (gw_membership1 w)"
    and "member_fields (gw_membership2 w)" "insertion_fields (gw_insertion w)" "asset_field_ok (gw_assetField w)"
  shows "run_merge P mul (asset_bound (gw_assetField w)) (snd (mergeInputs w)) =
    merge_main P mul (bound_asset (gw_assetField w)) 5 (gw_nullifier1 w) (gw_nullifier2 w) (gw_commitment w) (gw_ownerCommitment w)
      (mw_merkleRoot (gw_membership1 w)) (ip_newRoot (gw_insertion w)) (int (ip_leafIndex (gw_insertion w))) 2
      (gw_input1 w) (gw_ownerSk1 w) (mw_indexBits (gw_membership1 w)) (mw_siblings (gw_membership1 w))
      (gw_input2 w) (gw_ownerSk2 w) (mw_indexBits (gw_membership2 w)) (mw_siblings (gw_membership2 w)) (gw_output w)
      (ip_indexBits (gw_insertion w)) (ip_siblings (gw_insertion w))"
  using assms by (cases "asset_bound (gw_assetField w)") (simp_all add: run_merge_def mergeInputs_def insIn_def abi_reads)

lemma run_withdraw_inputs:
  assumes "list_all is_field [dw_nullifier w, dw_amount w, dw_recipientHash w, dw_ownerSk w]"
    and "witness_fields (dw_input w)" "member_fields (dw_membership w)" "asset_field_ok (dw_assetField w)"
  shows "run_withdraw P mul (asset_bound (dw_assetField w)) (snd (withdrawInputs w)) =
    withdraw_main P mul (bound_asset (dw_assetField w)) 3 (dw_nullifier w) (dw_amount w) (dw_recipientHash w)
      (mw_merkleRoot (dw_membership w)) 2 (dw_input w) (dw_ownerSk w) (mw_indexBits (dw_membership w)) (mw_siblings (dw_membership w))"
  using assms by (cases "asset_bound (dw_assetField w)") (simp_all add: run_withdraw_def withdrawInputs_def abi_reads)

lemma run_shield_inputs:
  assumes "list_all is_field [hw_commitment w, hw_ownerCommitment w]"
    and "witness_fields (hw_note w)" "insertion_fields (hw_insertion w)" "asset_field_ok (hw_assetField w)"
  shows "run_shield P (asset_bound (hw_assetField w)) (snd (shieldInputs w)) =
    shield_main P (bound_asset (hw_assetField w)) 1 (hw_commitment w) (hw_ownerCommitment w) (nw_amount (hw_note w))
      (ip_oldRoot (hw_insertion w)) (ip_newRoot (hw_insertion w)) (int (ip_leafIndex (hw_insertion w))) 2 (hw_note w)
      (ip_indexBits (hw_insertion w)) (ip_siblings (hw_insertion w))"
  using assms by (cases "asset_bound (hw_assetField w)")
    (simp_all add: run_shield_def shieldInputs_def insIn_def abi_reads witness_fields_def)

lemma circuit_of_inputs:
  "circuit P mul (fst (shieldInputs w1)) j = run_shield P (asset_bound (hw_assetField w1)) j"
  "circuit P mul (fst (transferInputs w2)) j = run_transfer P mul (asset_bound (tw_assetField w2)) j"
  "circuit P mul (fst (splitInputs w3)) j = run_split P mul (asset_bound (lw_assetField w3)) j"
  "circuit P mul (fst (mergeInputs w4)) j = run_merge P mul (asset_bound (gw_assetField w4)) j"
  "circuit P mul (fst (withdrawInputs w5)) j = run_withdraw P mul (asset_bound (dw_assetField w5)) j"
  by (simp_all add: circuit_def pick_def shieldInputs_def transferInputs_def splitInputs_def mergeInputs_def withdrawInputs_def
      js_startsWith_def Let_def)

section \<open>The tree in the circuit\<close>

text \<open>A tree node whose number is a field element; every node above the leaves is one.\<close>

definition canonical :: "bytes \<Rightarrow> bool" where
  "canonical b \<longleftrightarrow> length b = 32 \<and> is_field (big b)"

lemma chain_field_of_canonical: "canonical b \<Longrightarrow> field_of b = big b"
  by (simp add: canonical_def is_field_def big_def field_of_alt)

lemma canonical_ZERO: "canonical ZERO" "big ZERO = 0"
proof -
  have "be_val ZERO = 0" by code_simp
  then show "canonical ZERO" "big ZERO = 0" by (simp_all add: canonical_def big_def is_field_def BN254_FIELD_MODULUS_def)
qed

lemma tree_hash_big:
  assumes "poseidon_field P"
  shows "canonical (tree_hash (poseidon2 P) l r)" "big (tree_hash (poseidon2 P) l r) = poseidon2 P (field_of l) (field_of r)"
proof -
  have f: "0 \<le> poseidon2 P a b" "poseidon2 P a b < BN254_FIELD_MODULUS" for a b
    using assms by (simp_all add: poseidon_field_def)
  then show "big (tree_hash (poseidon2 P) l r) = poseidon2 P (field_of l) (field_of r)"
    by (simp add: tree_hash_def big_def be_val_fieldToBytes32)
  with f show "canonical (tree_hash (poseidon2 P) l r)"
    by (simp add: canonical_def is_field_def tree_hash_def)
qed

lemma subtree_canonical: "poseidon_field P \<Longrightarrow> list_all canonical ls \<Longrightarrow> canonical (subtree (tree_hash (poseidon2 P)) ls L i)"
  by (cases L) (auto simp: canonical_ZERO list_all_length tree_hash_big)

lemma path_sibs_canonical:
  "poseidon_field P \<Longrightarrow> list_all canonical ls \<Longrightarrow> list_all canonical (path_sibs (tree_hash (poseidon2 P)) ls n L i)"
  by (induction n arbitrary: L i) (simp_all add: subtree_canonical)

text \<open>The circuit folds the numbers of a path as the tree folds its nodes.\<close>

lemma merkle_root_fold:
  assumes "poseidon_field P"
  shows "canonical x \<Longrightarrow> list_all canonical ss \<Longrightarrow> length ss = length bs \<Longrightarrow>
    compute_merkle_root P (big x) bs (map big ss) = big (fold_path (tree_hash (poseidon2 P)) ss bs x)"
proof (induction bs arbitrary: ss x)
  case (Cons b bs)
  then obtain s t where ss: "ss = s # t" by (cases ss) auto
  let ?n = "if b then tree_hash (poseidon2 P) s x else tree_hash (poseidon2 P) x s"
  have "canonical ?n" using tree_hash_big(1) [OF assms] by simp
  then have "compute_merkle_root P (big ?n) bs (map big t) = big (fold_path (tree_hash (poseidon2 P)) t bs ?n)"
    using Cons ss by simp
  moreover have "big ?n = (if b then poseidon2 P (big s) (big x) else poseidon2 P (big x) (big s))"
    using Cons.prems ss by (simp add: tree_hash_big(2) [OF assms] chain_field_of_canonical)
  ultimately show ?case using ss by simp
qed simp

section \<open>The index in the circuit\<close>

lemma bits_loop_value:
  "0 \<le> acc \<Longrightarrow> acc < pow \<Longrightarrow> pow * 2 ^ n < BN254_FIELD_MODULUS \<Longrightarrow> i < 2 ^ n \<Longrightarrow>
     bits_loop acc pow (path_bits n i) = acc + pow * int i"
proof (induction n arbitrary: acc pow i)
  case (Suc n)
  have "pow * 2 \<le> pow * 2 ^ Suc n" using Suc.prems(1,2) by (intro mult_left_mono) simp_all
  then have "pow * 2 < BN254_FIELD_MODULUS" using Suc.prems(3) by simp
  then have m: "fadd pow pow = 2 * pow" "fadd acc pow = acc + pow"
    using Suc.prems(1,2) by (simp_all add: fadd_def mod_pos_pos_trivial)
  let ?acc = "if odd i then acc + pow else acc"
  have "bits_loop ?acc (2 * pow) (path_bits n (i div 2)) = ?acc + 2 * pow * int (i div 2)"
    using Suc.prems by (intro Suc.IH) (simp_all add: algebra_simps)
  moreover have "?acc + 2 * pow * int (i div 2) = acc + pow * int i"
  proof (cases "odd i")
    case True
    then have "int i = 2 * int (i div 2) + 1" by presburger
    then have "acc + pow * int i = acc + pow * (2 * int (i div 2) + 1)" by simp
    then show ?thesis using True by (simp add: algebra_simps)
  next
    case False
    then have "int i = 2 * int (i div 2)" by presburger
    then have "acc + pow * int i = acc + pow * (2 * int (i div 2))" by simp
    then show ?thesis using False by (auto simp: algebra_simps)
  qed
  ultimately show ?case by (cases "odd i") (simp_all add: m)
qed simp

lemma index_bits_hold: "i < 2 ^ TREE_DEPTH \<Longrightarrow> bits_loop 0 1 (path_bits TREE_DEPTH i) = int i"
  using bits_loop_value [of 0 1 TREE_DEPTH i] by (simp add: TREE_DEPTH_def BN254_FIELD_MODULUS_def)

section \<open>The paths of the client\<close>

lemma chain_root_canonical:
  "poseidon_field (ce_poseidon env) \<Longrightarrow> list_all canonical ls \<Longrightarrow> is_field (big (chain_root env ls))"
  using subtree_canonical [of "ce_poseidon env" ls TREE_DEPTH 0] by (simp add: chain_root_def canonical_def)

lemma proof_of_member_fields [simp]:
  "mw_indexBits (proof_of_member env ls i) = path_bits TREE_DEPTH i"
  "mw_merkleRoot (proof_of_member env ls i) = big (chain_root env ls)"
  by (simp_all add: proof_of_member_def)

lemma proof_of_insertion_fields [simp]:
  "ip_leafIndex (proof_of_insertion env ls c) = length ls"
  "ip_indexBits (proof_of_insertion env ls c) = path_bits TREE_DEPTH (length ls)"
  "ip_oldRoot (proof_of_insertion env ls c) = big (chain_root env ls)"
  "ip_newRoot (proof_of_insertion env ls c) = big (chain_root env (ls @ [c]))"
  by (simp_all add: proof_of_insertion_def)

text \<open>A membership witness of the client has the shape of the circuit's arrays and folds to the root.\<close>

lemma member_holds:
  assumes "poseidon_field (ce_poseidon env)" "list_all canonical ls" "i < length ls" "length ls \<le> 2 ^ TREE_DEPTH"
  shows "member_fields (proof_of_member env ls i)"
    and "compute_merkle_root (ce_poseidon env) (big (ls ! i)) (path_bits TREE_DEPTH i)
       (mw_siblings (proof_of_member env ls i)) = big (chain_root env ls)"
proof -
  have c: "list_all canonical (path_sibs (tree_hash (poseidon2 (ce_poseidon env))) ls TREE_DEPTH 0 i)"
    by (rule path_sibs_canonical [OF assms(1,2)])
  then show "member_fields (proof_of_member env ls i)"
    using chain_root_canonical [OF assms(1,2)]
    by (simp add: member_fields_def proof_of_member_def list_all_length canonical_def)
  have "canonical (ls ! i)" using assms(2,3) by (simp add: list_all_length)
  from merkle_root_fold [OF assms(1) this c, of "path_bits TREE_DEPTH i"] proof_of_member_folds [OF assms(3,4), of env]
  show "compute_merkle_root (ce_poseidon env) (big (ls ! i)) (path_bits TREE_DEPTH i)
       (mw_siblings (proof_of_member env ls i)) = big (chain_root env ls)"
    by (simp add: proof_of_member_def)
qed

lemma insertion_holds:
  assumes "poseidon_field (ce_poseidon env)" "list_all canonical ls" "canonical c" "length ls < 2 ^ TREE_DEPTH"
  shows "insertion_fields (proof_of_insertion env ls c)"
    and "compute_merkle_root (ce_poseidon env) 0 (path_bits TREE_DEPTH (length ls))
       (ip_siblings (proof_of_insertion env ls c)) = big (chain_root env ls)"
    and "compute_merkle_root (ce_poseidon env) (big c) (path_bits TREE_DEPTH (length ls))
       (ip_siblings (proof_of_insertion env ls c)) = big (chain_root env (ls @ [c]))"
    and "bits_loop 0 1 (ip_indexBits (proof_of_insertion env ls c)) = int (length ls)"
proof -
  let ?h = "tree_hash (poseidon2 (ce_poseidon env))"
  let ?ss = "path_sibs ?h ls TREE_DEPTH 0 (length ls)"
  have c: "list_all canonical ?ss" by (rule path_sibs_canonical [OF assms(1,2)])
  have l: "list_all canonical (ls @ [c])" using assms(2,3) by simp
  have "int (length ls) < 2 ^ TREE_DEPTH" using assms(4) by (metis of_nat_less_iff of_nat_numeral of_nat_power)
  then have n: "is_field (int (length ls))" by (simp add: is_field_def TREE_DEPTH_def BN254_FIELD_MODULUS_def)
  show "insertion_fields (proof_of_insertion env ls c)"
    using c n chain_root_canonical [OF assms(1,2)] chain_root_canonical [OF assms(1) l]
    by (simp add: insertion_fields_def proof_of_insertion_def list_all_length canonical_def)
  note t = append_transition [where h = ?h, OF assms(4) refl refl]
  show "compute_merkle_root (ce_poseidon env) 0 (path_bits TREE_DEPTH (length ls))
       (ip_siblings (proof_of_insertion env ls c)) = big (chain_root env ls)"
    using merkle_root_fold [OF assms(1) canonical_ZERO(1) c, of "path_bits TREE_DEPTH (length ls)"] t(1)
    by (simp add: proof_of_insertion_def canonical_ZERO(2) chain_root_def)
  show "compute_merkle_root (ce_poseidon env) (big c) (path_bits TREE_DEPTH (length ls))
       (ip_siblings (proof_of_insertion env ls c)) = big (chain_root env (ls @ [c]))"
    using merkle_root_fold [OF assms(1,3) c, of "path_bits TREE_DEPTH (length ls)"] t(2) [of c]
    by (simp add: proof_of_insertion_def chain_root_def)
  show "bits_loop 0 1 (ip_indexBits (proof_of_insertion env ls c)) = int (length ls)"
    using index_bits_hold [OF assms(4)] by (simp add: proof_of_insertion_def)
qed


section \<open>Commitments as leaves\<close>

text \<open>The bytes of a commitment in hex are its number again.\<close>

lemma toHex32_bytes:
  assumes "0 \<le> c" "c < 2 ^ 256"
  shows "big (hexToBytes (toHex32 c)) = c" "length (hexToBytes (toHex32 c)) = 32"
proof -
  let ?d = "padStart0 64 (hex_of_nat (nat c))"
  have t: "toHex32 c = ''0x'' @ ?d" using assms by (simp add: toHex32_def)
  have h: "list_all is_hex ?d" by (rule padStart0_is_hex [OF hex_of_nat_is_hex])
  have l: "length ?d = 64" using toHex32_field [OF assms] t by simp
  have b: "hexToBytes (toHex32 c) = hex_pairs ?d" using l unfolding t by (simp add: hexToBytes_def js_startsWith_def)
  show "big (hexToBytes (toHex32 c)) = c" "length (hexToBytes (toHex32 c)) = 32"
    using be_val_hex_pairs [OF h] l assms(1) unfolding b by (simp_all add: big_def)
qed

lemma canonical_commitment: "is_field c \<Longrightarrow> canonical (hexToBytes (toHex32 c)) \<and> big (hexToBytes (toHex32 c)) = c"
proof -
  assume c: "is_field c"
  have "(BN254_FIELD_MODULUS :: int) < 2 ^ 256" by (simp add: BN254_FIELD_MODULUS_def)
  with c have "0 \<le> c" "c < 2 ^ 256" by (auto simp: is_field_def)
  from toHex32_bytes [OF this] c show ?thesis by (simp add: canonical_def)
qed


section \<open>Owned notes and fresh notes\<close>

text \<open>
  A note the wallet can spend: its commitment is that of its secret, its key is the curve's multiple of the spending
  scalar, its fields are field elements, its amount has 64 bits, and its asset field is that of its asset.
\<close>

definition owned :: "client_env \<Rightarrow> (int \<Rightarrow> int \<times> int) \<Rightarrow> resolved_config \<Rightarrow> shield_note \<Rightarrow> bool" where
  "owned env mul cfg n \<longleftrightarrow>
     sh_commitment n = toHex32 (commitmentOfSecret (ce_poseidon env) (sh_amount n) (sh_secret n))
     \<and> mul (sec_ownerSk (sh_secret n)) = (sec_ownerPkX (sh_secret n), sec_ownerPkY (sh_secret n))
     \<and> is_field (sec_ownerSk (sh_secret n)) \<and> witness_fields (witnessNote n) \<and> sh_amount n < 2 ^ 64
     \<and> assetFieldFor (client_crypto env) (assetOfNote cfg n) = Inr (sec_assetField (sh_secret n))
     \<and> asset_field_ok (sec_assetField (sh_secret n))"

lemma note_commitment_circuit:
  "commitmentOf P \<lparr>ci_amount = nw_amount w, ci_ownerPkX = nw_ownerPkX w, ci_ownerPkY = nw_ownerPkY w, ci_blinding = nw_blinding w,
     ci_assetField = f\<rparr> = noir_commitment P (bound_asset f) w"
  by (auto simp: commitmentOf_def noir_commitment_def bound_asset_def asset_bound_def Let_def split: option.split)

lemma noir_commitment_field: "poseidon_field P \<Longrightarrow> is_field (noir_commitment P a w)"
  by (auto simp: noir_commitment_def poseidon_field_def is_field_def Let_def split: option.split)

lemma poseidon_is_field: "poseidon_field P \<Longrightarrow> is_field (poseidon2 P a b)"
  by (simp add: poseidon_field_def is_field_def)

lemma owned_commitment:
  assumes "owned env mul cfg n"
  shows "sh_commitment n = toHex32 (noir_commitment (ce_poseidon env) (bound_asset (sec_assetField (sh_secret n))) (witnessNote n))"
  using assms note_commitment_circuit [of "ce_poseidon env" "witnessNote n" "sec_assetField (sh_secret n)"]
  by (simp add: owned_def commitmentOfSecret_def witnessNote_def)

lemma owned_nullifier:
  assumes "owned env mul cfg n" "poseidon_field (ce_poseidon env)"
  shows "note_nullifier env n = Inr (compute_nullifier (ce_poseidon env)
    (noir_commitment (ce_poseidon env) (bound_asset (sec_assetField (sh_secret n))) (witnessNote n)) (sec_ownerSk (sh_secret n)))"
  using noir_commitment_field [OF assms(2)] owned_commitment [OF assms(1)]
  by (simp add: note_nullifier_def js_BigInt_hex32 is_field_def lift_plain_def nullifierOf_def compute_nullifier_def)

text \<open>The leaf a membership witness is about is the commitment of the owned note.\<close>

lemma owned_leaf:
  assumes "owned env mul cfg n" "poseidon_field (ce_poseidon env)" "norm_commitment c = js_toLowerCase (sh_commitment n)"
  shows "canonical (chain_leaf c)" and
    "big (chain_leaf c) = noir_commitment (ce_poseidon env) (bound_asset (sec_assetField (sh_secret n))) (witnessNote n)"
  using canonical_commitment [OF noir_commitment_field [OF assms(2), of "bound_asset (sec_assetField (sh_secret n))" "witnessNote n"]]
    owned_commitment [OF assms(1)] assms(3)
  by (simp_all add: chain_leaf_def toHex32_lower)

text \<open>A fresh note: its number, its text and the commitments of the circuit.\<close>

definition fresh_ok :: "client_env \<Rightarrow> int option \<Rightarrow> fresh_note \<Rightarrow> bool" where
  "fresh_ok env f o1 \<longleftrightarrow>
     fn_commitment o1 = noir_commitment (ce_poseidon env) (bound_asset f) (witnessNote (fn_note o1))
     \<and> fn_ownerCommitment o1 = owner_commitment (ce_poseidon env) (witnessNote (fn_note o1))
     \<and> sh_commitment (fn_note o1) = toHex32 (fn_commitment o1)"

lemma note_for_ok: "fresh_ok env f (note_for env a sk x y asset f b)"
  using note_commitment_circuit [of "ce_poseidon env" "\<lparr>nw_amount = a, nw_ownerPkX = x, nw_ownerPkY = y, nw_blinding = b\<rparr>" f]
  by (simp add: fresh_ok_def note_for_def Let_def witnessNote_def owner_commitment_def ownerCommitmentOf_def)

lemma newNote_ok:
  assumes "newNote env a own asset s = (Inr o1, s1)"
  obtains f where "assetFieldFor (client_crypto env) asset = Inr f" "fresh_ok env f o1" "nw_amount (witnessNote (fn_note o1)) = a"
    "s1 = s\<lparr>ss_drawn := ss_drawn s + 1\<rparr>"
proof -
  obtain f where "assetFieldFor (client_crypto env) asset = Inr f"
    "o1 = note_for env a (ok_sk own) (ok_pkX own) (ok_pkY own) asset f (randomBlinding (ce_random env (ss_drawn s)))"
    "s1 = s\<lparr>ss_drawn := ss_drawn s + 1\<rparr>"
    using assms by (auto simp: newNote_def op_bind_Inr op_draw_def lift_js_def split: sum.splits)
  note o1 = this
  show ?thesis
  proof (rule that)
    show "fresh_ok env f o1" unfolding o1(2) by (rule note_for_ok)
    show "nw_amount (witnessNote (fn_note o1)) = a" by (simp add: o1(2) note_for_def witnessNote_def Let_def)
  qed (rule o1)+
qed

lemma fresh_leaf:
  assumes "fresh_ok env f o1" "poseidon_field (ce_poseidon env)"
  shows "is_field (fn_commitment o1)" "canonical (hexToBytes (sh_commitment (fn_note o1)))"
    "big (hexToBytes (sh_commitment (fn_note o1))) = fn_commitment o1"
    "is_field (fn_ownerCommitment o1)"
proof -
  show c: "is_field (fn_commitment o1)" using assms noir_commitment_field by (simp add: fresh_ok_def)
  show "canonical (hexToBytes (sh_commitment (fn_note o1)))" "big (hexToBytes (sh_commitment (fn_note o1))) = fn_commitment o1"
    using canonical_commitment [OF c] assms(1) by (simp_all add: fresh_ok_def)
  show "is_field (fn_ownerCommitment o1)"
    using assms poseidon_is_field by (simp add: fresh_ok_def owner_commitment_def)
qed

lemma bound_assertion: "list_all fst (assert_asset_bound (bound_asset f))"
  by (auto simp: assert_asset_bound_def bound_asset_def asset_bound_def split: option.split)

lemmas circuit_assertions = bound_assertion assert_header_def assert_64_def fresh_ok_def

lemma recipientNote_ok:
  assumes "recipientNote env a addr asset s = (Inr o1, s1)"
  obtains f where "assetFieldFor (client_crypto env) asset = Inr f" "fresh_ok env f o1" "nw_amount (witnessNote (fn_note o1)) = a"
proof -
  obtain f where f: "assetFieldFor (client_crypto env) asset = Inr f"
    "o1 = note_for env a 0 (sa_ownerPkX addr) (sa_ownerPkY addr) asset f (randomBlinding (ce_random env (ss_drawn s)))"
    using assms by (auto simp: recipientNote_def op_bind_Inr op_draw_def lift_js_def split: sum.splits)
  show ?thesis
    by (rule that [OF f(1)]) (use note_for_ok in \<open>simp_all add: f(2) note_for_def witnessNote_def Let_def\<close>)
qed

text \<open>What a circuit asserts of an input the wallet owns, and of an output it appends.\<close>

lemma owned_spend:
  assumes own: "owned env mul cfg n" and P: "poseidon_field (ce_poseidon env)" and cs: "list_all (\<lambda>c. canonical (chain_leaf c)) cs"
    and i: "i < length cs" "length cs \<le> 2 ^ TREE_DEPTH" "norm_commitment (cs ! i) = js_toLowerCase (sh_commitment n)"
    and nf: "note_nullifier env n = Inr nf" and f: "sec_assetField (sh_secret n) = f"
  shows "is_field nf" "member_fields (proof_of_member env (map chain_leaf cs) i)"
    "witness_fields (witnessNote n)" "is_field (sec_ownerSk (sh_secret n))" "asset_field_ok f"
    and "list_all fst (assert_owner mul (sec_ownerSk (sh_secret n)) (nw_ownerPkX (witnessNote n)) (nw_ownerPkY (witnessNote n)))"
    and "compute_nullifier (ce_poseidon env) (noir_commitment (ce_poseidon env) (bound_asset f) (witnessNote n)) (sec_ownerSk (sh_secret n)) = nf"
    and "list_all fst (assert_merkle_membership (ce_poseidon env) (noir_commitment (ce_poseidon env) (bound_asset f) (witnessNote n))
      (path_bits TREE_DEPTH i) (mw_siblings (proof_of_member env (map chain_leaf cs) i)) (big (chain_root env (map chain_leaf cs))))"
proof -
  have ls: "list_all canonical (map chain_leaf cs)" "i < length (map chain_leaf cs)" "length (map chain_leaf cs) \<le> 2 ^ TREE_DEPTH"
    using cs i by (simp_all add: list_all_length)
  note m = member_holds [OF P ls]
  show n: "compute_nullifier (ce_poseidon env) (noir_commitment (ce_poseidon env) (bound_asset f) (witnessNote n)) (sec_ownerSk (sh_secret n)) = nf"
    using owned_nullifier [OF own P] nf f by simp
  then show "is_field nf" using poseidon_is_field [OF P] by (auto simp: compute_nullifier_def)
  show "member_fields (proof_of_member env (map chain_leaf cs) i)" by (rule m(1))
  show "list_all fst (assert_merkle_membership (ce_poseidon env) (noir_commitment (ce_poseidon env) (bound_asset f) (witnessNote n))
      (path_bits TREE_DEPTH i) (mw_siblings (proof_of_member env (map chain_leaf cs) i)) (big (chain_root env (map chain_leaf cs))))"
    using m(2) owned_leaf(2) [OF own P i(3)] i(1) f by (simp add: assert_merkle_membership_def)
qed (use own f in \<open>simp_all add: owned_def assert_owner_def witnessNote_def\<close>)

lemma fresh_append:
  assumes P: "poseidon_field (ce_poseidon env)" and ls: "list_all canonical ls" "length ls < 2 ^ TREE_DEPTH" and o1: "fresh_ok env f o1"
  defines "i \<equiv> proof_of_insertion env ls (hexToBytes (sh_commitment (fn_note o1)))"
  shows "insertion_fields i"
    and "list_all fst (assert_index_bits (int (length ls)) (ip_indexBits i))"
    and "list_all fst (assert_insertion (ce_poseidon env) (fn_commitment o1) (ip_indexBits i) (ip_siblings i) (big (chain_root env ls)) (ip_newRoot i))"
    and "ip_leafIndex i = length ls"
proof -
  note l = fresh_leaf [OF o1 P]
  note h = insertion_holds [OF P ls(1) l(2) ls(2), folded i_def]
  show "insertion_fields i" by (rule h(1))
  show "list_all fst (assert_index_bits (int (length ls)) (ip_indexBits i))" using h(4) by (simp add: assert_index_bits_def)
  show "list_all fst (assert_insertion (ce_poseidon env) (fn_commitment o1) (ip_indexBits i) (ip_siblings i) (big (chain_root env ls)) (ip_newRoot i))"
    using h(2,3) l(3) by (simp add: assert_insertion_def EMPTY_LEAF_def i_def)
  show "ip_leafIndex i = length ls" by (simp add: i_def)
qed

lemma asserts_append: "asserts (as @ bs) = (if list_all fst as then asserts bs else asserts as)"
  by (induction as rule: asserts.induct) auto

end
