(* ===== verification/SpendProofs.thy ===== *)
theory SpendProofs
  imports ClientProofs
begin

text \<open>
  For each spend of the client: what it prepares for a note the wallet owns, from a feed whose leaves are field
  elements, passes every assertion of its circuit; for a merge, exactly when the two notes differ.
\<close>

section \<open>Splits\<close>

lemma split_prepare_fields:
  assumes "split_prepare env cfg n amounts s = (Inr p, s1)"
  obtains f where "assetFieldFor (client_crypto env) (assetOfNote cfg n) = Inr f" "fresh_ok env f (pp_out1 p)" "fresh_ok env f (pp_out2 p)"
    "note_nullifier env n = Inr (lw_nullifier (pp_witness p))" "lw_assetField (pp_witness p) = f"
    "lw_commitment1 (pp_witness p) = fn_commitment (pp_out1 p)" "lw_ownerCommitment1 (pp_witness p) = fn_ownerCommitment (pp_out1 p)"
    "lw_commitment2 (pp_witness p) = fn_commitment (pp_out2 p)" "lw_ownerCommitment2 (pp_witness p) = fn_ownerCommitment (pp_out2 p)"
    "lw_input (pp_witness p) = witnessNote n" "lw_ownerSk (pp_witness p) = sec_ownerSk (sh_secret n)"
    "lw_out1 (pp_witness p) = witnessNote (fn_note (pp_out1 p))" "lw_out2 (pp_witness p) = witnessNote (fn_note (pp_out2 p))"
proof -
  obtain x1 x2 where am: "amounts = [x1, x2]"
    using assms by (auto simp: split_prepare_def split: list.splits)
  obtain own a1 a2 engine s3 o1 s4 o2 s5 nf member r1 i1 l1 i2 l2 r2 f where r:
    "newNote env a1 own (assetOfNote cfg n) s3 = (Inr o1, s4)" "newNote env a2 own (assetOfNote cfg n) s4 = (Inr o2, s5)"
    "note_nullifier env n = Inr nf" "assetFieldFor (client_crypto env) (assetOfNote cfg n) = Inr f"
    "p = \<lparr>pp_asset = assetOfNote cfg n, pp_out1 = o1, pp_out2 = o2, pp_leaf1 = l1, pp_leaf2 = l2, pp_currentRoot = r1,
               pp_newRoot = r2, pp_engine = engine,
               pp_witness = \<lparr>lw_nullifier = nf, lw_commitment1 = fn_commitment o1, lw_ownerCommitment1 = fn_ownerCommitment o1,
                 lw_commitment2 = fn_commitment o2, lw_ownerCommitment2 = fn_ownerCommitment o2, lw_input = witnessNote n,
                 lw_ownerSk = sec_ownerSk (sh_secret n), lw_out1 = witnessNote (fn_note o1), lw_out2 = witnessNote (fn_note o2),
                 lw_membership = member, lw_insertion1 = i1, lw_insertion2 = i2, lw_assetField = f\<rparr>\<rparr>"
    using assms unfolding am split_prepare_def list.case op_bind_Inr Let_def case_prod_beta op_lift_run op_guard_run op_return_run
    by (clarsimp simp: op_bind_Inr lift_js_def split: sum.splits)
  obtain f1 where 1: "assetFieldFor (client_crypto env) (assetOfNote cfg n) = Inr f1" "fresh_ok env f1 o1"
    using newNote_ok [OF r(1)] .
  obtain f2 where 2: "assetFieldFor (client_crypto env) (assetOfNote cfg n) = Inr f2" "fresh_ok env f2 o2"
    using newNote_ok [OF r(2)] .
  show ?thesis using that [OF r(4)] 1 2 r(3,4,5) by simp
qed

lemma split_prepare_chain:
  assumes "split_prepare env cfg n amounts s = (Inr p, s1)" "api_getCommitments (ce_api env) (ss_api s) = Inr cs"
  obtains i where "i < length cs" "length cs + 1 < 2 ^ TREE_DEPTH" "norm_commitment (cs ! i) = js_toLowerCase (sh_commitment n)"
    "lw_membership (pp_witness p) = proof_of_member env (map chain_leaf cs) i"
    "lw_insertion1 (pp_witness p) = proof_of_insertion env (map chain_leaf cs) (hexToBytes (sh_commitment (fn_note (pp_out1 p))))"
    "lw_insertion2 (pp_witness p) = proof_of_insertion env (map chain_leaf cs @ [hexToBytes (sh_commitment (fn_note (pp_out1 p)))])
       (hexToBytes (sh_commitment (fn_note (pp_out2 p))))"
    "pp_currentRoot p = toHex (chain_root env (map chain_leaf cs))"
    "pp_newRoot p = toHex (chain_root env (map chain_leaf cs @ [hexToBytes (sh_commitment (fn_note (pp_out1 p))),
       hexToBytes (sh_commitment (fn_note (pp_out2 p)))]))"
    "sh_amount (fn_note (pp_out1 p)) + sh_amount (fn_note (pp_out2 p)) = sh_amount n"
  by (rule split_prepare_run [OF assms(1)]) (use assms(2) in \<open>auto simp: Let_def\<close>)

text \<open>In the field the sum of two amounts in range is their sum.\<close>

lemma split_conserves:
  assumes "nw_amount a + nw_amount b = m" "m < 2 ^ 64" "witness_fields a" "witness_fields b"
  shows "m = fadd (nw_amount a) (nw_amount b)" "nw_amount a < 2 ^ 64" "nw_amount b < 2 ^ 64"
  using assms by (auto simp: witness_fields_def is_field_def fadd_def BN254_FIELD_MODULUS_def)

text \<open>C2: Whatever the client prepares to split a note its owner key opens satisfies the circuit: if the preparation
  returns, the inputs it hands to the engine pass every assertion of the split circuit (native or SIP-10), membership,
  ownership, nullifier, conservation, both appends and the version included, provided the feed of commitments is
  canonical, the two outputs are field elements in range, and their commitments differ.\<close>

theorem prepared_split_is_provable:
  assumes run: "split_prepare env cfg n amounts s = (Inr p, s1)"
    and P: "poseidon_field (ce_poseidon env)"
    and feed: "api_getCommitments (ce_api env) (ss_api s) = Inr cs" "list_all (\<lambda>c. canonical (chain_leaf c)) cs"
    and own: "owned env mul cfg n"
    and outs: "witness_fields (lw_out1 (pp_witness p))" "witness_fields (lw_out2 (pp_witness p))"
      "lw_commitment1 (pp_witness p) \<noteq> lw_commitment2 (pp_witness p)"
  shows "circuit (ce_poseidon env) mul (fst (splitInputs (pp_witness p))) (snd (splitInputs (pp_witness p))) = Inr ()"
proof -
  let ?P = "ce_poseidon env" and ?w = "pp_witness p"
  obtain f where f: "assetFieldFor (client_crypto env) (assetOfNote cfg n) = Inr f" "fresh_ok env f (pp_out1 p)" "fresh_ok env f (pp_out2 p)"
    "note_nullifier env n = Inr (lw_nullifier ?w)" "lw_assetField ?w = f"
    "lw_commitment1 ?w = fn_commitment (pp_out1 p)" "lw_ownerCommitment1 ?w = fn_ownerCommitment (pp_out1 p)"
    "lw_commitment2 ?w = fn_commitment (pp_out2 p)" "lw_ownerCommitment2 ?w = fn_ownerCommitment (pp_out2 p)"
    "lw_input ?w = witnessNote n" "lw_ownerSk ?w = sec_ownerSk (sh_secret n)"
    "lw_out1 ?w = witnessNote (fn_note (pp_out1 p))" "lw_out2 ?w = witnessNote (fn_note (pp_out2 p))"
    by (rule split_prepare_fields [OF run])
  define ls where "ls = map chain_leaf cs"
  define ls1 where "ls1 = ls @ [hexToBytes (sh_commitment (fn_note (pp_out1 p)))]"
  obtain i where t: "i < length cs" "length cs + 1 < 2 ^ TREE_DEPTH" "norm_commitment (cs ! i) = js_toLowerCase (sh_commitment n)"
    and w: "lw_membership ?w = proof_of_member env ls i"
    "lw_insertion1 ?w = proof_of_insertion env ls (hexToBytes (sh_commitment (fn_note (pp_out1 p))))"
    "lw_insertion2 ?w = proof_of_insertion env ls1 (hexToBytes (sh_commitment (fn_note (pp_out2 p))))"
    and sums: "sh_amount (fn_note (pp_out1 p)) + sh_amount (fn_note (pp_out2 p)) = sh_amount n"
    unfolding ls1_def ls_def by (rule split_prepare_chain [OF run feed(1)])
  have F: "sec_assetField (sh_secret n) = f" using own f(1) by (simp add: owned_def)
  have ls: "list_all canonical ls" "length ls < 2 ^ TREE_DEPTH" "list_all canonical ls1" "length ls1 < 2 ^ TREE_DEPTH"
    using feed(2) t(2) fresh_leaf(2) [OF f(2) P] by (simp_all add: ls_def ls1_def list_all_length nth_append)
  have le: "length cs \<le> 2 ^ TREE_DEPTH" using t(2) by simp
  note a = owned_spend [OF own P feed(2) t(1) le t(3) f(4) F, folded ls_def]
  note o1 = fresh_append [OF P ls(1,2) f(2)] and o2 = fresh_append [OF P ls(3,4) f(3)]
  have main: "circuit ?P mul (fst (splitInputs ?w)) (snd (splitInputs ?w)) =
    split_main ?P mul (bound_asset f) 4 (lw_nullifier ?w) (fn_commitment (pp_out1 p)) (fn_ownerCommitment (pp_out1 p))
      (fn_commitment (pp_out2 p)) (fn_ownerCommitment (pp_out2 p)) (big (chain_root env ls))
      (ip_newRoot (lw_insertion2 ?w)) (int (length ls)) 2
      (witnessNote n) (sec_ownerSk (sh_secret n)) (path_bits TREE_DEPTH i) (mw_siblings (lw_membership ?w))
      (witnessNote (fn_note (pp_out1 p))) (witnessNote (fn_note (pp_out2 p)))
      (ip_indexBits (lw_insertion1 ?w)) (ip_siblings (lw_insertion1 ?w)) (ip_indexBits (lw_insertion2 ?w)) (ip_siblings (lw_insertion2 ?w))"
    using run_split_inputs [of ?w ?P mul] outs(1,2) a(1-5) o1(1,4) o2(1) fresh_leaf(1,4) [OF f(2) P] fresh_leaf(1,4) [OF f(3) P]
    by (simp add: circuit_of_inputs f(5-13) w)
  have v: "nw_amount (witnessNote (fn_note (pp_out1 p))) + nw_amount (witnessNote (fn_note (pp_out2 p))) = nw_amount (witnessNote n)"
    "nw_amount (witnessNote n) < 2 ^ 64" using sums own by (simp_all add: witnessNote_def owned_def)
  note v = split_conserves [OF v outs(1,2) [unfolded f(12,13)]]
  have n1: "fadd (int (length ls)) 1 = int (length ls1)"
    using o2(1,4) by (simp add: fadd_def insertion_fields_def is_field_def ls1_def)
  have mid: "compute_merkle_root ?P (fn_commitment (pp_out1 p)) (ip_indexBits (lw_insertion1 ?w)) (ip_siblings (lw_insertion1 ?w))
      = big (chain_root env ls1)"
    using o1(3) by (simp add: assert_insertion_def w ls1_def)
  show ?thesis
    unfolding main split_main_def asserts_Inr Let_def list_all_append mid
    using a(6-8) v n1 o1(2,3) o2(2,3) f(2,3) outs(3)
    by (simp add: circuit_assertions f(6,8) w ls1_def)
qed

section \<open>Transfers\<close>

lemma transfer_prepare_fields:
  assumes "transfer_prepare env cfg amount recipient ref s = (Inr p, s1)" and "api_getCommitments (ce_api env) (ss_api s) = Inr cs"
    and "poseidon_field (ce_poseidon env)"
  obtains f i where "fresh_ok env f (tp_out p)" "nw_amount (witnessNote (fn_note (tp_out p))) = sh_amount (tp_input p)"
    "note_nullifier env (tp_input p) = Inr (tw_nullifier (tp_witness p))" "tw_assetField (tp_witness p) = f"
    "tw_newCommitment (tp_witness p) = fn_commitment (tp_out p)" "tw_newOwnerCommitment (tp_witness p) = fn_ownerCommitment (tp_out p)"
    "tw_input (tp_witness p) = witnessNote (tp_input p)" "tw_ownerSk (tp_witness p) = sec_ownerSk (sh_secret (tp_input p))"
    "tw_output (tp_witness p) = witnessNote (fn_note (tp_out p))"
    "i < length cs" "length cs < 2 ^ TREE_DEPTH" "norm_commitment (cs ! i) = js_toLowerCase (sh_commitment (tp_input p))"
    "tw_membership (tp_witness p) = proof_of_member env (map chain_leaf cs) i"
    "tw_insertion (tp_witness p) = proof_of_insertion env (map chain_leaf cs) (hexToBytes (sh_commitment (fn_note (tp_out p))))"
proof -
  obtain asset base input to out engine nf c member f s0 s2 s3 s4 ins t t' where r:
    "pickNote base asset (ss_store (t :: shield_state)) = Inr input"
    "recipientNote env base to asset t' = (Inr out, s0)"
    "syncTree env s2 = (Inr (), s3)" "note_nullifier env input = Inr nf" "client_insertion env (sh_commitment (fn_note out)) s3 = (Inr ins, s4)"
    "lift_plain (js_BigInt_text (sh_commitment (fn_note out))) = Inr c"
    "client_membership input s4 = (Inr member, s1)" "lift_js (assetFieldFor (client_crypto env) asset) = Inr f"
    "p = \<lparr>tp_asset = asset, tp_input = input, tp_to = to, tp_out = out, tp_engine = engine,
          tp_witness = \<lparr>tw_nullifier = nf, tw_newCommitment = c, tw_newOwnerCommitment = fn_ownerCommitment out,
            tw_input = witnessNote input, tw_ownerSk = sec_ownerSk (sh_secret input), tw_output = witnessNote (fn_note out),
            tw_membership = member, tw_insertion = ins, tw_assetField = f\<rparr>\<rparr>"
    using assms(1) unfolding transfer_prepare_def op_bind_Inr op_lift_run op_return_run
    by (clarsimp simp: op_bind_Inr)
  obtain f' where o1: "assetFieldFor (client_crypto env) asset = Inr f'" "fresh_ok env f' out" "nw_amount (witnessNote (fn_note out)) = base"
    using recipientNote_ok [OF r(2)] .
  have f: "f' = f" using o1(1) r(8) by (simp add: lift_js_def)
  obtain cs' where cs': "api_getCommitments (ce_api env) (ss_api s2) = Inr cs'" "length cs' \<le> 2 ^ TREE_DEPTH" "s3 = synced env cs' s2"
    using syncTree_Inr [OF r(3)] .
  have same: "cs' = cs" using cs'(1) assms(2) api_getCommitments_any [of "ce_api env" "ss_api s2" "ss_api s"] by simp
  have t: "ss_tree s3 = chain_tree env (map chain_leaf cs)" "ss_index s3 = index_from 0 cs []" using cs'(3) same by simp_all
  have le: "length cs \<le> 2 ^ TREE_DEPTH" using cs'(2) same by simp
  have ins: "length cs < 2 ^ TREE_DEPTH" "ins = proof_of_insertion env (map chain_leaf cs) (hexToBytes (sh_commitment (fn_note out)))" "s4 = s3"
    using client_insertion_room [OF r(5) t(1)] le by simp_all
  obtain i where i: "i < length cs" "norm_commitment (cs ! i) = js_toLowerCase (sh_commitment input)"
    "member = proof_of_member env (map chain_leaf cs) i"
    using client_membership_synced [OF r(7) _ _ le] t ins(3) by blast
  have am: "sh_amount input = base" using r(1) by (auto simp: pickNote_def find_Some_iff split: option.splits)
  show ?thesis
  proof (rule that)
    show "fresh_ok env f (tp_out p)" using o1(2) f r(9) by simp
    show "tw_newCommitment (tp_witness p) = fn_commitment (tp_out p)"
      using r(6,9) o1(2) fresh_leaf(1) [OF o1(2) assms(3)]
      by (simp add: lift_plain_def js_BigInt_hex32 fresh_ok_def is_field_def)
  qed (use r ins i am o1 in simp_all)
qed



section \<open>Merges\<close>


lemma merge_prepare_fields:
  assumes "merge_prepare env cfg i1 i2 s = (Inr p, s1)" and "api_getCommitments (ce_api env) (ss_api s) = Inr cs"
  obtains k1 k2 f where "assetFieldFor (client_crypto env) (assetOfNote cfg i1) = Inr f" "fresh_ok env f (mr_out p)"
    "nw_amount (witnessNote (fn_note (mr_out p))) = sh_amount i1 + sh_amount i2"
    "note_nullifier env i1 = Inr (gw_nullifier1 (mr_witness p))" "note_nullifier env i2 = Inr (gw_nullifier2 (mr_witness p))"
    "gw_assetField (mr_witness p) = f"
    "gw_commitment (mr_witness p) = fn_commitment (mr_out p)" "gw_ownerCommitment (mr_witness p) = fn_ownerCommitment (mr_out p)"
    "gw_input1 (mr_witness p) = witnessNote i1" "gw_ownerSk1 (mr_witness p) = sec_ownerSk (sh_secret i1)"
    "gw_input2 (mr_witness p) = witnessNote i2" "gw_ownerSk2 (mr_witness p) = sec_ownerSk (sh_secret i2)"
    "gw_output (mr_witness p) = witnessNote (fn_note (mr_out p))" "length cs < 2 ^ TREE_DEPTH"
    "k1 < length cs" "norm_commitment (cs ! k1) = js_toLowerCase (sh_commitment i1)"
    "gw_membership1 (mr_witness p) = proof_of_member env (map chain_leaf cs) k1"
    "k2 < length cs" "norm_commitment (cs ! k2) = js_toLowerCase (sh_commitment i2)"
    "gw_membership2 (mr_witness p) = proof_of_member env (map chain_leaf cs) k2"
    "gw_insertion (mr_witness p) = proof_of_insertion env (map chain_leaf cs) (hexToBytes (sh_commitment (fn_note (mr_out p))))"
proof -
  obtain own out engine nf1 nf2 m1 m2 f s0 s2 s3 s4 s5 ins t' where r:
    "newNote env (sh_amount i1 + sh_amount i2) own (assetOfNote cfg i1) t' = (Inr out, s0)"
    "syncTree env s2 = (Inr (), s3)" "note_nullifier env i1 = Inr nf1" "note_nullifier env i2 = Inr nf2"
    "client_insertion env (sh_commitment (fn_note out)) s3 = (Inr ins, s4)"
    "client_membership i1 s4 = (Inr m1, s5)" "client_membership i2 s5 = (Inr m2, s1)"
    "lift_js (assetFieldFor (client_crypto env) (assetOfNote cfg i1)) = Inr f"
    "p = \<lparr>mr_asset = assetOfNote cfg i1, mr_out = out, mr_engine = engine,
          mr_witness = \<lparr>gw_nullifier1 = nf1, gw_nullifier2 = nf2, gw_commitment = fn_commitment out,
            gw_ownerCommitment = fn_ownerCommitment out, gw_input1 = witnessNote i1, gw_ownerSk1 = sec_ownerSk (sh_secret i1),
            gw_membership1 = m1, gw_input2 = witnessNote i2, gw_ownerSk2 = sec_ownerSk (sh_secret i2), gw_membership2 = m2,
            gw_output = witnessNote (fn_note out), gw_insertion = ins, gw_assetField = f\<rparr>\<rparr>"
    using assms(1) unfolding merge_prepare_def op_bind_Inr Let_def case_prod_beta op_lift_run op_guard_run op_return_run
    by (clarsimp simp: op_bind_Inr)
  obtain f' where o1: "assetFieldFor (client_crypto env) (assetOfNote cfg i1) = Inr f'" "fresh_ok env f' out"
    "nw_amount (witnessNote (fn_note out)) = sh_amount i1 + sh_amount i2"
    using newNote_ok [OF r(1)] .
  have f: "f' = f" using o1(1) r(8) by (simp add: lift_js_def)
  obtain cs' where cs': "api_getCommitments (ce_api env) (ss_api s2) = Inr cs'" "length cs' \<le> 2 ^ TREE_DEPTH" "s3 = synced env cs' s2"
    using syncTree_Inr [OF r(2)] .
  have same: "cs' = cs" using cs'(1) assms(2) api_getCommitments_any [of "ce_api env" "ss_api s2" "ss_api s"] by simp
  have t: "ss_tree s3 = chain_tree env (map chain_leaf cs)" "ss_index s3 = index_from 0 cs []" using cs'(3) same by simp_all
  have le: "length cs \<le> 2 ^ TREE_DEPTH" using cs'(2) same by simp
  have ins: "length cs < 2 ^ TREE_DEPTH" "ins = proof_of_insertion env (map chain_leaf cs) (hexToBytes (sh_commitment (fn_note out)))" "s4 = s3"
    using client_insertion_room [OF r(5) t(1)] le by simp_all
  have s5: "s5 = s4" using r(6) by (auto simp: client_membership_def)
  obtain k1 where k1: "k1 < length cs" "norm_commitment (cs ! k1) = js_toLowerCase (sh_commitment i1)"
    "m1 = proof_of_member env (map chain_leaf cs) k1"
    using client_membership_synced [OF r(6) _ _ le] t ins(3) by blast
  obtain k2 where k2: "k2 < length cs" "norm_commitment (cs ! k2) = js_toLowerCase (sh_commitment i2)"
    "m2 = proof_of_member env (map chain_leaf cs) k2"
    using client_membership_synced [OF r(7) _ _ le] t ins(3) s5 by blast
  show ?thesis
    by (rule that [of f k1 k2]) (use r ins k1 k2 o1 f in simp_all)
qed

text \<open>Two owned notes have one commitment text exactly when they have one commitment.\<close>

lemma same_commitment:
  assumes "owned env mul cfg i1" "owned env mul cfg i2" "poseidon_field (ce_poseidon env)"
  shows "sh_commitment i1 = sh_commitment i2 \<longleftrightarrow>
    noir_commitment (ce_poseidon env) (bound_asset (sec_assetField (sh_secret i1))) (witnessNote i1)
    = noir_commitment (ce_poseidon env) (bound_asset (sec_assetField (sh_secret i2))) (witnessNote i2)" (is "_ \<longleftrightarrow> ?c1 = ?c2")
proof -
  have "big (hexToBytes (toHex32 ?c1)) = ?c1" "big (hexToBytes (toHex32 ?c2)) = ?c2"
    using canonical_commitment noir_commitment_field [OF assms(3)] by blast+
  then show ?thesis unfolding owned_commitment [OF assms(1)] owned_commitment [OF assms(2)] by metis
qed



section \<open>Withdrawals\<close>

lemma withdraw_prepare_fields:
  assumes "withdraw_prepare env cfg n recipient s = (Inr p, s1)" and "api_getCommitments (ce_api env) (ss_api s) = Inr cs"
  obtains i f where "assetFieldFor (client_crypto env) (assetOfNote cfg n) = Inr f"
    "note_nullifier env n = Inr (dw_nullifier (wp_witness p))" "dw_assetField (wp_witness p) = f"
    "dw_amount (wp_witness p) = sh_amount n" "dw_input (wp_witness p) = witnessNote n"
    "dw_ownerSk (wp_witness p) = sec_ownerSk (sh_secret n)"
    "rbind (fePrincipal (client_crypto env) (wp_to p)) bytesToBig = Inr (dw_recipientHash (wp_witness p))"
    "i < length cs" "length cs \<le> 2 ^ TREE_DEPTH" "norm_commitment (cs ! i) = js_toLowerCase (sh_commitment n)"
    "dw_membership (wp_witness p) = proof_of_member env (map chain_leaf cs) i"
    "wp_root p = toHex (chain_root env (map chain_leaf cs))"
proof -
  obtain to engine nf root1 rh member f s2 s3 s4 where r:
    "syncTree env s2 = (Inr (), s3)" "note_nullifier env n = Inr nf" "client_root s3 = (Inr root1, s4)"
    "lift_js (rbind (fePrincipal (client_crypto env) to) bytesToBig) = Inr rh"
    "client_membership n s4 = (Inr member, s1)"
    "lift_js (assetFieldFor (client_crypto env) (assetOfNote cfg n)) = Inr f"
    "p = \<lparr>wp_asset = assetOfNote cfg n, wp_to = to, wp_root = root1, wp_engine = engine,
           wp_witness = \<lparr>dw_nullifier = nf, dw_amount = sh_amount n, dw_recipientHash = rh, dw_input = witnessNote n,
             dw_ownerSk = sec_ownerSk (sh_secret n), dw_membership = member, dw_assetField = f\<rparr>\<rparr>"
    using assms(1) unfolding withdraw_prepare_def op_bind_Inr Let_def op_lift_run op_guard_run op_return_run
    by (clarsimp simp: op_bind_Inr)
  obtain cs' where cs': "api_getCommitments (ce_api env) (ss_api s2) = Inr cs'" "length cs' \<le> 2 ^ TREE_DEPTH" "s3 = synced env cs' s2"
    using syncTree_Inr [OF r(1)] .
  have same: "cs' = cs" using cs'(1) assms(2) api_getCommitments_any [of "ce_api env" "ss_api s2" "ss_api s"] by simp
  have t: "ss_tree s3 = chain_tree env (map chain_leaf cs)" "ss_index s3 = index_from 0 cs []" using cs'(3) same by simp_all
  have le: "length cs \<le> 2 ^ TREE_DEPTH" using cs'(2) same by simp
  have root: "root1 = toHex (chain_root env (map chain_leaf cs))" "s4 = s3"
    using client_root_run [OF t(1)] le r(3) by simp_all
  obtain i where i: "i < length cs" "norm_commitment (cs ! i) = js_toLowerCase (sh_commitment n)"
    "member = proof_of_member env (map chain_leaf cs) i"
    using client_membership_synced [OF r(5) _ _ le] t root(2) by blast
  show ?thesis
    by (rule that [of f i]) (use r i le root in \<open>simp_all add: lift_js_def split: sum.splits\<close>)
qed

text \<open>The field element of a principal is 31 bytes of a digest.\<close>

lemma fePrincipal_is_field:
  assumes "digest32 C" "rbind (fePrincipal C a) bytesToBig = Inr h"
  shows "is_field h"
proof -
  obtain enc where h: "h = int (be_val ((sha256 C enc)[0 := 0]))"
    using assms(2) by (auto simp: fePrincipal_def rbind_Inr bytesToBig_val)
  have l: "length (sha256 C enc) = 32" using assms(1) by (simp add: digest32_def)
  then obtain x b where b: "sha256 C enc = x # b" "length b = 31" by (cases "sha256 C enc") auto
  have "be_val b < 256 ^ 31" using be_val_less [of b] b(2) by simp
  then have "be_val ((sha256 C enc)[0 := 0]) < 256 ^ 31" by (simp add: b be_val_Cons)
  then have "h < 256 ^ 31" unfolding h by (metis of_nat_less_iff of_nat_numeral of_nat_power)
  then show ?thesis by (simp add: is_field_def h BN254_FIELD_MODULUS_def)
qed

text \<open>C5: Whatever the client prepares to withdraw a note its owner key opens satisfies the withdraw circuit, with the
  recipient bound by a nonzero hash, and the root it posts is the root of the tree of the chain's commitments.\<close>

theorem prepared_withdraw_is_provable:
  assumes run: "withdraw_prepare env cfg n recipient s = (Inr p, s1)"
    and P: "poseidon_field (ce_poseidon env)"
    and feed: "api_getCommitments (ce_api env) (ss_api s) = Inr cs" "list_all (\<lambda>c. canonical (chain_leaf c)) cs"
    and own: "owned env mul cfg n"
    and bound: "digest32 (client_crypto env)" "dw_recipientHash (wp_witness p) \<noteq> 0"
  shows "circuit (ce_poseidon env) mul (fst (withdrawInputs (wp_witness p))) (snd (withdrawInputs (wp_witness p))) = Inr ()
    \<and> wp_root p = toHex (chain_root env (map chain_leaf cs))"
proof -
  let ?P = "ce_poseidon env" and ?w = "wp_witness p" and ?ls = "map chain_leaf cs"
  obtain i f where f: "assetFieldFor (client_crypto env) (assetOfNote cfg n) = Inr f"
    "note_nullifier env n = Inr (dw_nullifier ?w)" "dw_assetField ?w = f"
    "dw_amount ?w = sh_amount n" "dw_input ?w = witnessNote n" "dw_ownerSk ?w = sec_ownerSk (sh_secret n)"
    "rbind (fePrincipal (client_crypto env) (wp_to p)) bytesToBig = Inr (dw_recipientHash ?w)"
    "i < length cs" "length cs \<le> 2 ^ TREE_DEPTH" "norm_commitment (cs ! i) = js_toLowerCase (sh_commitment n)"
    "dw_membership ?w = proof_of_member env ?ls i" "wp_root p = toHex (chain_root env ?ls)"
    by (rule withdraw_prepare_fields [OF run feed(1)])
  have F: "sec_assetField (sh_secret n) = f" using own f(1) by (simp add: owned_def)
  note a = owned_spend [OF own P feed(2) f(8,9,10,2) F]
  have m: "is_field (sh_amount n)" "nw_amount (witnessNote n) = sh_amount n" "sh_amount n < 2 ^ 64"
    using own by (simp_all add: owned_def witness_fields_def witnessNote_def)
  have main: "circuit ?P mul (fst (withdrawInputs ?w)) (snd (withdrawInputs ?w)) =
    withdraw_main ?P mul (bound_asset f) 3 (dw_nullifier ?w) (sh_amount n) (dw_recipientHash ?w) (big (chain_root env ?ls)) 2
      (witnessNote n) (sec_ownerSk (sh_secret n)) (path_bits TREE_DEPTH i) (mw_siblings (dw_membership ?w))"
    using run_withdraw_inputs [of ?w ?P mul] fePrincipal_is_field [OF bound(1) f(7)] a(1-5) m(1) by (simp add: circuit_of_inputs f)
  have "circuit ?P mul (fst (withdrawInputs ?w)) (snd (withdrawInputs ?w)) = Inr ()"
    unfolding main withdraw_main_def asserts_Inr Let_def list_all_append
    using a(6-8) m bound(2) by (simp add: circuit_assertions f(11))
  then show ?thesis using f(12) by simp
qed

end
