(* ===== verification/ShieldDemo.thy ===== *)
theory ShieldDemo
  imports ShieldTree
begin

text \<open>
  A wallet with one note of 2 STX on a chain with one commitment, an API, an engine, a zkVerify service and
  a relayer that all answer: runs of the client's operations in this world, which are the witnesses of what
  \<open>ShieldProps\<close> and \<open>ShieldTree\<close> prove about successful runs.
\<close>

definition demo_api :: "string list \<Rightarrow> api_server" where
  "demo_api cs rq k =
     (if rq_path rq = ''/commitments''
      then Reply 200 (Some (JObj [(''results'', JArr (map (\<lambda>c. JObj [(''commitment'', JStr c)]) cs))]))
      else Reply 200 (Some (JObj [])))"

definition demo_view :: relayer_view where
  "demo_view = \<lparr>vw_accept = (\<lambda>k. Reply 202 (Some (JObj [(''jobId'', JStr ''j'')]))), vw_clock = (\<lambda>k. 0),
     vw_poll = (\<lambda>k. StatusJob ''confirmed'' (Some ''tx'') None), vw_fuel = 2\<rparr>"

definition demo_zk :: zk_world where
  "demo_zk = \<lparr>zw_service = (\<lambda>b. Reply 200 (Some (JObj [(''domainId'', JNum 0), (''aggregationId'', JNum 7), (''root'', JStr ''0xaa''),
        (''leafCount'', JNum 1), (''merklePath'', JArr []), (''leafIndex'', JNum 0)]))),
     zw_start = (\<lambda>s. Inl ''''), zw_execute = (\<lambda>p d. Inl ''''), zw_receipt = (\<lambda>d a. Inl ''''), zw_path = (\<lambda>b d a s. Inl '''')\<rparr>"

text \<open>A hash into the field, and the commitment of the note the wallet holds.\<close>

definition demo_hash :: poseidon where
  "demo_hash = \<lparr>poseidon2 = (\<lambda>a b. (a + b) mod BN254_FIELD_MODULUS), poseidon4 = (\<lambda>a b c d. (a + b + c + d) mod BN254_FIELD_MODULUS)\<rparr>"

definition demo_cm :: string where
  "demo_cm = toHex32 2000006"

definition demo_env :: client_env where
  "demo_env = \<lparr>ce_poseidon = demo_hash, ce_delivery = native_delivery, ce_mk = (\<lambda>v. Inr v), ce_pow10 = (\<lambda>r. 1000000),
     ce_api = demo_api [demo_cm], ce_now = 0, ce_random = (\<lambda>k. [5]),
     ce_liveRoot = Reply 200 (Some (JObj [(''result'', JStr ''r'')])), ce_rootOf = (\<lambda>t. Inr (Some t)),
     ce_aggregation = (\<lambda>v d a k. Reply 200 (Some (JObj [(''result'', JStr ''r'')]))), ce_isSome = (\<lambda>t. Some True),
     ce_tx = (\<lambda>t k. Reply 200 (Some (JObj [(''tx_status'', JStr ''success'')]))), ce_relay = (\<lambda>op b. [demo_view]), ce_zk = demo_zk\<rparr>"

definition demo_proof :: raw_proof where
  "demo_proof = \<lparr>rp_proof = ''0x'', rp_publicInputs = [], rp_vk = ''0x''\<rparr>"

definition demo_engine :: proof_engine where
  "demo_engine =
     \<lparr>pe_deriveOwnerKey = (\<lambda>b. Inr demo_owner), pe_proveShield = (\<lambda>w. Inr demo_proof), pe_proveTransfer = (\<lambda>w. Inr demo_proof),
      pe_proveSplit = (\<lambda>w. Inr demo_proof), pe_proveMerge = (\<lambda>w. Inr demo_proof), pe_proveWithdraw = (\<lambda>w. Inr demo_proof)\<rparr>"

definition demo_signer :: wallet_signer where
  "demo_signer = \<lparr>ws_getAddress = (\<lambda>n. Inr ''ST1''), ws_signMessage = (\<lambda>m. Inr (''s'', ''k'')),
     ws_broadcast = (\<lambda>c n. Inr ''0xt1''), ws_secret = Inr [1]\<rparr>"

definition demo_cfg :: resolved_config where
  "demo_cfg = \<lparr>rf_network = ''testnet'', rf_apiUrl = ''a'', rf_relayerUrls = [''r''], rf_deployer = ''ST1'', rf_signer = Some demo_signer,
     rf_proofEngine = Some demo_engine, rf_timeoutMs = 1, rf_zkVerify = \<lparr>zo_seed = None, zo_endpointUrl = Some ''u'', zo_domainId = 0\<rparr>,
     rf_hiroApiUrl = ''h''\<rparr>"

definition demo_held :: shield_note where
  "demo_held = \<lparr>sh_commitment = demo_cm, sh_ciphertext = ''aa'', sh_root = ''r'', sh_txid = ''t'', sh_amount = 2000000,
     sh_asset = None, sh_spent = False, sh_status = None,
     sh_secret = \<lparr>sec_ownerSk = 9, sec_ownerPkX = 1, sec_ownerPkY = 2, sec_blinding = 3, sec_leafIndex = None,
       sec_assetId = None, sec_assetField = None\<rparr>\<rparr>"

definition demo_start :: shield_state where
  "demo_start = (new_STXShield demo_hash None)\<lparr>ss_store := [(demo_cm, demo_held)], ss_owner := Some demo_owner,
     ss_viewing := Some \<lparr>vk_secretKey = [2], vk_publicKey = [2]\<rparr>\<rparr>"

lemma retry_first: "fn 1 = Inr a \<Longrightarrow> 0 < or_default n 3 \<Longrightarrow> fst (retry fn again n b m) = Inr a"
  by (cases "or_default n 3 :: nat") (simp_all add: retry_def Let_def)

lemma demo_feed:
  "api_request (demo_api cs) ''GET'' ''/commitments'' None False p =
     Inr (JObj [(''results'', JArr (map (\<lambda>c. JObj [(''commitment'', JStr c)]) cs))])"
proof -
  have "fst (retry (\<lambda>k. api_attempt ''/commitments'' (demo_api cs (http_of ''GET'' ''/commitments'' None False p) k))
      not_auth_error None None None) = Inr (JObj [(''results'', JArr (map (\<lambda>c. JObj [(''commitment'', JStr c)]) cs))])"
    by (rule retry_first) (simp_all add: or_default_def http_of_def demo_api_def api_attempt_def reply_ok_def Let_def)
  then show ?thesis by (simp add: api_request_def)
qed

lemma demo_commitments: "api_getCommitments (ce_api demo_env) p = Inr [demo_cm]"
  by (simp add: api_getCommitments_def demo_env_def demo_feed results_of_def js_prop_def js_nullish_def
      commitment_of_json_def text_field_def)

lemma demo_zk_submit: "\<exists>inc. zk_submit (ce_zk demo_env) (rf_zkVerify demo_cfg) pf = Inr inc"
  by (simp add: demo_env_def demo_cfg_def zk_submit_def submitViaService_def demo_zk_def reply_ok_def inclusion_of_json_def
      int_field_def text_field_def texts_field_def)

lemma demo_relay: "relay_outcome op (ce_relay demo_env op body) = Inr ''tx''"
proof -
  have "fst (retry (\<lambda>k. provider_accept op (vw_accept demo_view k)) root_pending (Some 5) (Some 2000) None) = Inr ''j''"
    by (rule retry_first) (simp_all add: or_default_def demo_view_def provider_accept_def)
  moreover have "provider_await demo_view = Some (Inr ''tx'')"
    by (simp add: provider_await_def demo_view_def numeral_2_eq_2)
  ultimately show ?thesis
    by (simp add: demo_env_def relay_outcome_def provider_submit_def provider_try_def)
qed

lemma demo_relay_submit:
  "\<exists>s'. relay_submit demo_env demo_cfg op params pf s = (Inr ''tx'', s') \<and> ss_store s' = ss_store s \<and> ss_tree s' = ss_tree s
     \<and> ss_viewing s' = ss_viewing s \<and> ss_owner s' = ss_owner s \<and> ss_api s' = ss_api s"
proof -
  obtain inc where "zk_submit (ce_zk demo_env) (rf_zkVerify demo_cfg) pf = Inr inc" using demo_zk_submit by blast
  then show ?thesis by (simp add: relay_submit_def op_bind_def demo_relay op_event_def Let_def)
qed

lemma demo_norm: "norm_commitment demo_cm = demo_cm" "js_toLowerCase demo_cm = demo_cm"
proof -
  have "normalize_hex demo_cm = demo_cm" by (simp add: normalize_hex_def demo_cm_def toHex32_def js_startsWith_def)
  then show "norm_commitment demo_cm = demo_cm" "js_toLowerCase demo_cm = demo_cm"
    by (simp_all add: demo_cm_def norm_commitment_def toHex32_lower)
qed

lemma demo_commitment_number: "js_BigInt_text demo_cm = Inr 2000006"
  by (simp add: demo_cm_def js_BigInt_hex32)

lemma demo_nullifier: "note_nullifier env demo_held = Inr (nullifierOf (ce_poseidon env) 2000006 9)"
  by (simp add: note_nullifier_def demo_held_def lift_plain_def demo_commitment_number)

lemma demo_asset:
  assumes "ap_assets (ss_api s) \<in> {None, Some (0, [])}"
  shows "\<exists>s'. getAsset demo_env demo_cfg RefUndefined s = (Inr (nativeAsset demo_cfg), s') \<and> ap_assets (ss_api s') = Some (0, [])
    \<and> ss_store s' = ss_store s \<and> ss_owner s' = ss_owner s \<and> ss_viewing s' = ss_viewing s \<and> ss_tree s' = ss_tree s"
proof -
  have "api_request (demo_api cs) ''GET'' ''/assets'' None False p = Inr (JObj [])" for cs p
  proof -
    have "fst (retry (\<lambda>k. api_attempt ''/assets'' (demo_api cs (http_of ''GET'' ''/assets'' None False p) k))
        not_auth_error None None None) = Inr (JObj [])"
      by (rule retry_first) (simp_all add: or_default_def http_of_def demo_api_def api_attempt_def reply_ok_def Let_def)
    then show ?thesis by (simp add: api_request_def)
  qed
  then have f: "\<exists>e. fetch_assets (ce_api demo_env) p = Inl e" for p
    by (simp add: fetch_assets_def demo_env_def results_of_def js_prop_def js_nullish_def)
  obtain e where e: "fetch_assets (ce_api demo_env) (ss_api s) = Inl e" using f by blast
  have "ce_now demo_env = 0" by (simp add: demo_env_def)
  then have "\<exists>api. api_getAssets (ce_api demo_env) False (ce_now demo_env) (ce_now demo_env) (ss_api s) = ([], api)
      \<and> ap_assets api = Some (0, [])"
    using assms e by (auto simp: api_getAssets_def ASSETS_TTL_MS_def)
  then obtain api where a: "api_getAssets (ce_api demo_env) False (ce_now demo_env) (ce_now demo_env) (ss_api s) = ([], api)"
    "ap_assets api = Some (0, [])" by blast
  then show ?thesis
    by (simp add: getAsset_def getAssets_def op_bind_def with_native_def resolveAsset_def nativeAsset_def Let_def lift_plain_def)
qed

lemma demo_native: "as_native (nativeAsset demo_cfg)" "as_decimals (nativeAsset demo_cfg) = 6" "assetOfNote demo_cfg demo_held = nativeAsset demo_cfg"
  "assetFieldFor C (nativeAsset demo_cfg) = Inr None" "sameAsset None (nativeAsset demo_cfg)"
  by (simp_all add: nativeAsset_def assetOfNote_def demo_held_def assetFieldFor_def sameAsset_def Let_def)

lemma demo_keys: "ss_owner s = Some own \<Longrightarrow> ss_viewing s = Some view \<Longrightarrow> client_keys env cfg s = (Inr (own, view), s)"
  by (simp add: client_keys_def)

lemma demo_newNote:
  "\<exists>o1. newNote demo_env a own (nativeAsset demo_cfg) s = (Inr o1, s\<lparr>ss_drawn := ss_drawn s + 1\<rparr>)"
  "\<exists>o1. recipientNote demo_env a addr (nativeAsset demo_cfg) s = (Inr o1, s\<lparr>ss_drawn := ss_drawn s + 1\<rparr>)"
  by (simp_all add: newNote_def recipientNote_def op_bind_def op_draw_def demo_native lift_js_def)

lemma demo_member:
  assumes "ss_tree s = chain_tree env [chain_leaf demo_cm]" "ss_index s = index_from 0 [demo_cm] []"
  shows "\<exists>m. client_membership demo_held s = (Inr m, s)"
proof -
  have "(1 :: nat) \<le> 2 ^ TREE_DEPTH" by simp
  moreover have "jm_get (index_from 0 [demo_cm] []) (js_toLowerCase (sh_commitment demo_held)) = Some 0"
    by (simp add: demo_norm demo_held_def)
  ultimately show ?thesis
    using assms membership_run [of "[demo_cm]" env demo_held] by (simp add: client_membership_def)
qed

lemma demo_room: "length [c] < 2 ^ TREE_DEPTH" "length [c, d] < 2 ^ TREE_DEPTH"
  by (simp_all add: TREE_DEPTH_def)

lemma demo_consume:
  "\<exists>s'. consume env n s = (Inr (), s') \<and> ss_owner s' = ss_owner s \<and> ss_viewing s' = ss_viewing s \<and> ss_tree s' = ss_tree s"
  by (auto simp: consume_def consume_outside_def op_bind_def update_store_def update_vault_def when_authenticated_def op_catch_def
      api_write_def op_event_def split: sum.split prod.split)

lemma demo_write:
  "\<exists>s'. when_authenticated (\<lambda>api. api_write env (f api)) s = (Inr (), s') \<and> ss_owner s' = ss_owner s \<and> ss_viewing s' = ss_viewing s
     \<and> ss_tree s' = ss_tree s"
  by (auto simp: op_bind_def when_authenticated_def op_catch_def api_write_def op_event_def split: sum.split)

lemma demo_encrypt: "\<exists>e. encryptNote (ce_delivery demo_env) p v k = Inr e"
  by (simp add: encryptNote_def demo_env_def native_delivery_def demo_delivery_def Let_def)

lemma demo_ciphertext:
  assumes "ss_owner s = Some own" "ss_viewing s = Some view"
  shows "\<exists>ct s'. storeCiphertext demo_env cfg n leaf vpk s = (Inr ct, s') \<and> ss_owner s' = Some own \<and> ss_viewing s' = Some view
    \<and> ss_tree s' = ss_tree s"
proof -
  obtain v where v: "(case vpk of None \<Rightarrow> op_bind (client_keys demo_env cfg) (\<lambda>(own, view). op_return (vk_publicKey view))
      | Some v \<Rightarrow> op_return v) s = (Inr v, s)"
    using assms by (cases vpk) (auto simp: op_bind_def demo_keys)
  let ?s = "s\<lparr>ss_drawn := ss_drawn s + 2\<rparr>"
  obtain enc where e: "encryptNote (ce_delivery demo_env)
      \<lparr>np_version = Some 1, np_amount = sh_amount n, np_blinding = sec_blinding (sh_secret n),
                 np_ownerSk = sec_ownerSk (sh_secret n), np_nonce = randomBlinding (ce_random demo_env (ss_drawn s)),
                 np_commitment = hexToBytes (sh_commitment n), np_treePosition = Some (of_nat leaf),
                 np_assetId = map_option Some (sec_assetId (sh_secret n))\<rparr> v (ce_random demo_env (ss_drawn s + 1)) = Inr enc"
    using demo_encrypt by blast
  obtain s' where w: "when_authenticated (\<lambda>api. api_write demo_env (registerNote_request (sh_commitment n)
      (''0x'' @ toHex (encodeEncryptedNote enc)) api)) ?s = (Inr (), s')" "ss_owner s' = ss_owner s" "ss_viewing s' = ss_viewing s" "ss_tree s' = ss_tree s"
    using demo_write [of demo_env "\<lambda>api. registerNote_request (sh_commitment n) (''0x'' @ toHex (encodeEncryptedNote enc)) api" ?s]
    by auto
  have "storeCiphertext demo_env cfg n leaf vpk s = (Inr (''0x'' @ toHex (encodeEncryptedNote enc)), s')"
    using v e w(1) by (simp add: storeCiphertext_def op_bind_def op_draw_def lift_plain_def Let_def)
  with w assms show ?thesis by simp
qed

section \<open>Steps of the client in this world\<close>

definition demo_recipient :: shield_address where
  "demo_recipient = \<lparr>sa_ownerPkX = 5, sa_ownerPkY = 6, sa_viewingPk = replicate 32 7\<rparr>"

text \<open>A wallet with keys on the tree of some leaves, and one that still holds its note.\<close>

definition demo_on :: "bytes list \<Rightarrow> shield_state \<Rightarrow> bool" where
  "demo_on ls s \<longleftrightarrow> ss_tree s = chain_tree demo_env ls \<and> ss_owner s = Some demo_owner \<and>
     ss_viewing s = Some \<lparr>vk_secretKey = [2], vk_publicKey = [2]\<rparr>"

definition demo_ready :: "bytes list \<Rightarrow> shield_state \<Rightarrow> bool" where
  "demo_ready ls s \<longleftrightarrow> demo_on ls s \<and> ss_store s = [(demo_cm, demo_held)] \<and> ap_assets (ss_api s) \<in> {None, Some (0, [])}"

definition demo_synced :: "bytes list \<Rightarrow> shield_state \<Rightarrow> bool" where
  "demo_synced ls s \<longleftrightarrow> demo_ready ls s \<and> ss_index s = index_from 0 [demo_cm] []"

lemma demo_start_ready: "demo_ready [] demo_start"
  by (simp add: demo_ready_def demo_on_def demo_start_def new_STXShield_def new_ApiProvider_def demo_env_def new_tree_of)

lemma demo_weaken: "demo_ready ls s \<Longrightarrow> demo_on ls s" "demo_synced ls s \<Longrightarrow> demo_ready ls s" "demo_synced ls s \<Longrightarrow> demo_on ls s"
  by (simp_all add: demo_ready_def demo_synced_def)

lemma demo_few: "length ls < 4 \<Longrightarrow> length ls < 2 ^ TREE_DEPTH"
proof -
  have "(4 :: nat) < 2 ^ TREE_DEPTH" by (simp add: TREE_DEPTH_def)
  then show "length ls < 4 \<Longrightarrow> length ls < 2 ^ TREE_DEPTH" by simp
qed

lemma runs_keys:
  assumes "demo_ready ls s" "\<And>view. Q (demo_owner, view) s"
  shows "op_runs (client_keys demo_env demo_cfg) s Q"
  using assms by (auto simp: op_runs_def demo_ready_def demo_on_def demo_keys)

lemma runs_asset:
  assumes "demo_ready ls s" "\<And>s1. demo_ready ls s1 \<Longrightarrow> Q (nativeAsset demo_cfg) s1"
  shows "op_runs (getAsset demo_env demo_cfg RefUndefined) s Q"
proof -
  obtain s1 where "getAsset demo_env demo_cfg RefUndefined s = (Inr (nativeAsset demo_cfg), s1)" "demo_ready ls s1"
    using demo_asset [of s] assms(1) by (auto simp: demo_ready_def demo_on_def)
  then show ?thesis using assms(2) by (auto simp: op_runs_def)
qed

lemma runs_sync:
  assumes "demo_ready ls s" "\<And>s1. demo_synced [chain_leaf demo_cm] s1 \<Longrightarrow> Q () s1"
  shows "op_runs (syncTree demo_env) s Q"
proof -
  have "syncTree demo_env s = (Inr (), synced demo_env [demo_cm] s)"
    using syncTree_run [OF demo_commitments, of s] by (simp add: TREE_DEPTH_def)
  moreover have "demo_synced [chain_leaf demo_cm] (synced demo_env [demo_cm] s)"
    using assms(1) by (simp add: demo_synced_def demo_ready_def demo_on_def)
  ultimately show ?thesis using assms(2) by (auto simp: op_runs_def)
qed

lemma demo_hash_field: "poseidon_field demo_hash"
  by (simp add: poseidon_field_def demo_hash_def BN254_FIELD_MODULUS_def)

definition demo_note :: "int \<Rightarrow> int \<Rightarrow> int \<Rightarrow> int \<Rightarrow> fresh_note" where
  "demo_note a sk x y = note_for demo_env a sk x y (nativeAsset demo_cfg) None (randomBlinding [5])"

lemma demo_blinding: "randomBlinding [5] = 6"
  by code_simp

lemma demo_note_commitment: "\<exists>c. sh_commitment (fn_note (demo_note a sk x y)) = toHex32 c \<and> 0 \<le> c"
  by (intro exI [of _ "(a + x + y + 6) mod BN254_FIELD_MODULUS"])
    (simp add: demo_note_def note_for_def demo_env_def commitmentOf_def demo_hash_def demo_blinding BN254_FIELD_MODULUS_def Let_def)

lemma runs_note:
  assumes "demo_ready ls s" "\<And>o1 s1. demo_ready ls s1 \<Longrightarrow> (demo_synced ls s \<Longrightarrow> demo_synced ls s1) \<Longrightarrow>
      o1 = demo_note a 0 5 6 \<Longrightarrow> Q o1 s1"
  shows "op_runs (recipientNote demo_env a demo_recipient (nativeAsset demo_cfg)) s Q"
    and "(\<And>s1. demo_ready ls s1 \<Longrightarrow> (demo_synced ls s \<Longrightarrow> demo_synced ls s1) \<Longrightarrow> Q' (demo_note a 9 1 2) s1)
      \<Longrightarrow> op_runs (newNote demo_env a demo_owner (nativeAsset demo_cfg)) s Q'"
proof -
  let ?s = "s\<lparr>ss_drawn := ss_drawn s + 1\<rparr>"
  have s: "demo_ready ls ?s" "demo_synced ls s \<Longrightarrow> demo_synced ls ?s"
    using assms(1) by (simp_all add: demo_synced_def demo_ready_def demo_on_def)
  have d: "ce_random demo_env k = [5]" for k by (simp add: demo_env_def)
  have r: "recipientNote demo_env a demo_recipient (nativeAsset demo_cfg) s = (Inr (demo_note a 0 5 6), ?s)"
    by (simp add: recipientNote_def op_bind_def op_draw_def demo_native lift_js_def demo_recipient_def demo_note_def d)
  show "op_runs (recipientNote demo_env a demo_recipient (nativeAsset demo_cfg)) s Q"
    using assms(2) [OF s] r unfolding op_runs_def by blast
  have n: "newNote demo_env a demo_owner (nativeAsset demo_cfg) s = (Inr (demo_note a 9 1 2), ?s)"
    by (simp add: newNote_def op_bind_def op_draw_def demo_native lift_js_def demo_owner_def demo_note_def d)
  show "op_runs (newNote demo_env a demo_owner (nativeAsset demo_cfg)) s Q'"
    if "\<And>s1. demo_ready ls s1 \<Longrightarrow> (demo_synced ls s \<Longrightarrow> demo_synced ls s1) \<Longrightarrow> Q' (demo_note a 9 1 2) s1"
    using that [OF s] n unfolding op_runs_def by blast
qed

lemma runs_membership:
  assumes "demo_synced [chain_leaf demo_cm] s" "\<And>m. Q m s"
  shows "op_runs (client_membership demo_held) s Q"
  using assms demo_member [of s demo_env] by (auto simp: demo_synced_def demo_ready_def demo_on_def op_runs_def)

lemma runs_tree:
  assumes "demo_on ls s" "length ls < 4"
  shows "(\<And>r. Q r s) \<Longrightarrow> op_runs client_root s Q"
    and "(\<And>w. Q' w s) \<Longrightarrow> op_runs (client_insertion demo_env c) s Q'"
    and "(\<And>i s1. demo_on (ls @ [hexToBytes c]) s1 \<Longrightarrow> Q'' i s1) \<Longrightarrow> op_runs (client_insert demo_env c) s Q''"
proof -
  note l = demo_few [OF assms(2)]
  have t: "ss_tree s = chain_tree demo_env ls" using assms(1) by (simp add: demo_on_def)
  show "(\<And>r. Q r s) \<Longrightarrow> op_runs client_root s Q" by (simp add: op_runs_def client_root_def)
  show "(\<And>w. Q' w s) \<Longrightarrow> op_runs (client_insertion demo_env c) s Q'"
    using client_insertion_run [OF t l] by (simp add: op_runs_def)
  show "op_runs (client_insert demo_env c) s Q''" if "\<And>i s1. demo_on (ls @ [hexToBytes c]) s1 \<Longrightarrow> Q'' i s1"
  proof -
    have "demo_on (ls @ [hexToBytes c]) (s\<lparr>ss_tree := chain_tree demo_env (ls @ [hexToBytes c])\<rparr>)"
      using assms(1) by (simp add: demo_on_def)
    with that client_insert_run [OF t l] show ?thesis unfolding op_runs_def by blast
  qed
qed

lemma runs_consume:
  assumes "demo_on ls s" "\<And>s1. demo_on ls s1 \<Longrightarrow> Q () s1"
  shows "op_runs (consume demo_env n) s Q"
  using assms demo_consume [of demo_env n s] by (auto simp: op_runs_def demo_on_def)

lemma runs_ciphertext:
  assumes "demo_on ls s" "\<And>ct s1. demo_on ls s1 \<Longrightarrow> Q ct s1"
  shows "op_runs (storeCiphertext demo_env cfg n leaf vpk) s Q"
proof -
  obtain ct s' where "storeCiphertext demo_env cfg n leaf vpk s = (Inr ct, s')" "demo_on ls s'"
    using demo_ciphertext [of s] assms(1) unfolding demo_on_def by metis
  then show ?thesis using assms(2) by (auto simp: op_runs_def)
qed

lemma runs_record:
  assumes "demo_on ls s" "\<And>s1. demo_on ls s1 \<Longrightarrow> Q () s1"
  shows "op_runs (update_store f) s Q" "op_runs (persist n) s Q"
  using assms by (simp_all add: op_runs_def update_store_def persist_def update_vault_def demo_on_def)

lemma runs_relay:
  assumes "demo_on ls s" "\<And>s1. demo_on ls s1 \<Longrightarrow> Q ''tx'' s1"
  shows "op_runs (relay_submit demo_env demo_cfg op params pf) s Q"
  using demo_relay_submit [of op params pf s] assms by (auto simp: op_runs_def demo_on_def)

lemma runs_engine: "Q demo_engine s \<Longrightarrow> op_runs (op_lift (requireEngine (rf_proofEngine demo_cfg))) s Q"
  by (rule runs_lift) (simp_all add: requireEngine_def demo_cfg_def)

lemma runs_proof:
  "pe_proveSplit demo_engine w = Inr demo_proof" "pe_proveTransfer demo_engine w' = Inr demo_proof"
  by (simp_all add: demo_engine_def)

lemma runs_units: "Q b s \<Longrightarrow> op_runs (op_lift (lift_js (toBaseUnits (ce_pow10 demo_env) (AmountBig b) d))) s Q"
  by (rule runs_lift) (simp_all add: toBaseUnits_def lift_js_def)

lemma runs_nullifier: "(\<And>nf. Q nf s) \<Longrightarrow> op_runs (op_lift (note_nullifier demo_env demo_held)) s Q"
  by (rule runs_lift [OF demo_nullifier])

lemma runs_field: "Q None s \<Longrightarrow> op_runs (op_lift (lift_js (assetFieldFor C (nativeAsset demo_cfg)))) s Q"
  by (rule runs_lift [where a = None]) (simp_all add: demo_native lift_js_def)

lemma demo_held_amount: "sh_amount demo_held = 2000000"
  by (simp add: demo_held_def)

section \<open>A split\<close>

lemma runs_split_tree:
  assumes "demo_synced [chain_leaf demo_cm] s" "\<And>r ls s1. demo_on ls s1 \<Longrightarrow> Q r s1"
  shows "op_runs (split_tree demo_env demo_held c1 c2) s Q"
proof -
  have on: "demo_on [chain_leaf demo_cm] s" using demo_weaken(3) [OF assms(1)] .
  show ?thesis unfolding split_tree_def
    by (rule runs_bind runs_membership [OF assms(1)] runs_tree runs_return | rule on | assumption | (simp; fail)
        | (erule assms(2)))+
qed

lemma runs_split_prepare:
  "op_runs (split_prepare demo_env demo_cfg demo_held [AmountBig 500000, AmountBig 1500000]) demo_start
     (\<lambda>p s1. pp_engine p = demo_engine \<and> pp_out1 p = demo_note 500000 9 1 2 \<and> pp_out2 p = demo_note 1500000 9 1 2 \<and> (\<exists>ls. demo_on ls s1))"
  unfolding split_prepare_def list.case Let_def demo_native(3)
  apply (rule runs_bind, rule runs_keys [OF demo_start_ready], simp only: prod.case)
  apply (rule runs_bind, rule runs_units)
  apply (rule runs_bind, rule runs_units)
  apply (rule runs_bind, rule runs_guard, simp add: demo_held_amount)
  apply (rule runs_bind, rule runs_engine)
  apply (rule runs_bind, rule runs_sync [OF demo_start_ready])
  apply (rule runs_bind, rule runs_note(2), erule demo_weaken, assumption)
  apply (rule runs_bind, rule runs_note(2), assumption, assumption)
  apply (rule runs_bind, rule runs_nullifier)
  apply (rule runs_bind, rule runs_split_tree, simp)
  apply (clarsimp split: prod.split)
  apply (rule runs_bind, rule runs_field)
  apply (rule runs_return)
  apply auto
  done

lemma runs_split: "op_runs (split demo_env demo_cfg demo_held [AmountBig 500000, AmountBig 1500000]) demo_start (\<lambda>r s. True)"
  unfolding split_def split_record_def Let_def
  apply (rule runs_bind, rule runs_weak [OF runs_split_prepare], clarify)
  apply (rule runs_bind, rule runs_lift [where a = demo_proof], simp add: runs_proof lift_plain_def)
  apply (rule runs_bind, erule runs_relay)
  apply (assumption | rule runs_bind runs_consume runs_ciphertext runs_record runs_return | (simp; fail))+
  done


section \<open>Two transfers\<close>

lemma runs_pick:
  assumes "demo_ready ls s" "Q demo_held s"
  shows "op_runs (\<lambda>s. (pickNote 2000000 (nativeAsset demo_cfg) (ss_store s), s)) s Q"
proof -
  have "store_unspent (ss_store s) = [demo_held]"
    using assms(1) by (simp add: demo_ready_def store_unspent_def demo_held_def)
  moreover have "sh_asset demo_held = None" by (simp add: demo_held_def)
  ultimately show ?thesis using assms(2) by (simp add: op_runs_def pickNote_def demo_native demo_held_amount)
qed

lemma demo_decode: "decodeAddress (encodeAddress demo_recipient) = Inr demo_recipient"
  by (rule address_roundtrip) (simp_all add: demo_recipient_def)

lemma runs_decode:
  "Q demo_recipient s \<Longrightarrow> op_runs (op_lift (case decodeAddress (encodeAddress demo_recipient) of
     Inl (JsError m) \<Rightarrow> Inl (InvalidNoteError m) | Inl e \<Rightarrow> Inl (JsThrown e) | Inr a \<Rightarrow> Inr a)) s Q"
  by (rule runs_lift) (simp_all add: demo_decode)

lemma runs_number:
  assumes "\<exists>c. h = toHex32 c \<and> 0 \<le> c" "\<And>c. Q c s"
  shows "op_runs (op_lift (lift_plain (js_BigInt_text h))) s Q"
  using assms by (auto simp: op_runs_def js_BigInt_hex32 lift_plain_def)

lemma runs_transfer_prepare:
  assumes "demo_ready ls s"
  shows "op_runs (transfer_prepare demo_env demo_cfg (AmountBig 2000000) (encodeAddress demo_recipient) RefUndefined) s
     (\<lambda>p s1. tp_engine p = demo_engine \<and> tp_input p = demo_held \<and> tp_out p = demo_note 2000000 0 5 6
       \<and> tw_assetField (tp_witness p) = None \<and> demo_ready [chain_leaf demo_cm] s1)"
  unfolding transfer_prepare_def
  apply (rule runs_bind, rule runs_asset [OF assms])
  apply (rule runs_bind, rule runs_units)
  apply (rule runs_bind, rule runs_pick, assumption)
  apply (rule runs_bind, rule runs_decode)
  apply (rule runs_bind, rule runs_note(1), assumption)
  apply (rule runs_bind, rule runs_engine)
  apply (rule runs_bind, rule runs_sync, assumption)
  apply (rule runs_bind, rule runs_nullifier)
  apply (rule runs_bind, rule runs_tree(2), erule demo_weaken, simp)
  apply (rule runs_bind, rule runs_number, use demo_note_commitment in blast)
  apply (rule runs_bind, rule runs_membership, assumption)
  apply (rule runs_bind, rule runs_field)
  apply (rule runs_return, simp add: demo_weaken)
  done

lemma runs_transfer_post:
  assumes "demo_on ls s" "length ls < 3" "\<And>r s1. demo_on (ls @ [hexToBytes (sh_commitment (fn_note (tp_out p)))]) s1 \<Longrightarrow> Q r s1"
  shows "op_runs (transfer_post demo_env demo_cfg p proved) s Q"
  unfolding transfer_post_def
  apply (rule runs_bind, rule runs_tree(1) [OF assms(1)], use assms(2) in simp)
  apply (rule runs_bind, rule runs_tree(3) [OF assms(1)], use assms(2) in simp)
  apply (rule runs_bind, rule runs_tree(1), assumption, use assms(2) in simp)
  apply (rule runs_bind, rule runs_relay, assumption)
  apply (rule runs_return, erule assms(3))
  done

lemma runs_transfer:
  assumes "demo_ready ls s" "\<And>r l s1. demo_on [chain_leaf demo_cm, l] s1 \<Longrightarrow> Q r s1"
  shows "op_runs (transfer demo_env demo_cfg (AmountBig 2000000) (encodeAddress demo_recipient) RefUndefined) s Q"
  unfolding transfer_def transfer_record_def
  apply (rule runs_bind, rule runs_weak [OF runs_transfer_prepare [OF assms(1)]], clarify)
  apply (rule runs_bind, rule runs_lift [where a = demo_proof], simp add: runs_proof lift_plain_def)
  apply (rule runs_bind, rule runs_transfer_post, erule demo_weaken, simp)
  apply (rule runs_bind, rule runs_consume, assumption)
  apply (rule runs_bind, rule runs_ciphertext, assumption)
  apply (rule runs_return, rule assms(2), simp)
  done

lemma demo_overlap:
  "\<exists>pA s1 txB s2 txA leafA s3.
     transfer_prepare demo_env demo_cfg (AmountBig 2000000) (encodeAddress demo_recipient) RefUndefined demo_start = (Inr pA, s1)
     \<and> transfer demo_env demo_cfg (AmountBig 2000000) (encodeAddress demo_recipient) RefUndefined s1 = (Inr txB, s2)
     \<and> transfer_post demo_env demo_cfg pA demo_proof s2 = (Inr (txA, leafA), s3)"
proof -
  obtain pA s1 where 1: "transfer_prepare demo_env demo_cfg (AmountBig 2000000) (encodeAddress demo_recipient) RefUndefined demo_start = (Inr pA, s1)"
    "demo_ready [chain_leaf demo_cm] s1"
    using runs_transfer_prepare [OF demo_start_ready] unfolding op_runs_def by blast
  have "op_runs (transfer demo_env demo_cfg (AmountBig 2000000) (encodeAddress demo_recipient) RefUndefined) s1
      (\<lambda>r s2. \<exists>l. demo_on [chain_leaf demo_cm, l] s2)"
    by (rule runs_transfer [OF 1(2)]) blast
  then obtain txB s2 l where 2: "transfer demo_env demo_cfg (AmountBig 2000000) (encodeAddress demo_recipient) RefUndefined s1 = (Inr txB, s2)"
    "demo_on [chain_leaf demo_cm, l] s2" unfolding op_runs_def by blast
  have "op_runs (transfer_post demo_env demo_cfg pA demo_proof) s2 (\<lambda>r s. True)"
    by (rule runs_transfer_post [OF 2(2)]) simp_all
  then show ?thesis using 1(1) 2(1) unfolding op_runs_def by (metis surj_pair)
qed

section \<open>Witnesses\<close>

lemma split_posts_two_appends_witness:
  "\<exists>txid ns s' p inc. split demo_env demo_cfg demo_held [AmountBig 500000, AmountBig 1500000] demo_start = (Inr (txid, ns), s')
     \<and> pp_currentRoot p = toHex (chain_root demo_env [chain_leaf demo_cm])
     \<and> prefix (ss_events demo_start @ [Relayed ''split'' (relay_body (split_params p) inc) txid]) (ss_events s')
     \<and> sum_list (map sh_amount ns) = 2000000"
proof -
  obtain txid ns s' where r: "split demo_env demo_cfg demo_held [AmountBig 500000, AmountBig 1500000] demo_start = (Inr (txid, ns), s')"
    using runs_split unfolding op_runs_def by (metis surj_pair)
  show ?thesis using split_posts_two_appends [OF r] r by (auto simp: demo_commitments demo_held_amount Let_def)
qed

lemma spend_all_or_nothing_thm_witness:
  "\<exists>u s'. run_spend demo_env demo_cfg (SpSplit demo_held [AmountBig 500000, AmountBig 1500000]) demo_start = (Inr u, s')
     \<and> relayed_first demo_start s' \<and> spent_in demo_cm (ss_store s')"
proof -
  obtain u s' where r: "run_spend demo_env demo_cfg (SpSplit demo_held [AmountBig 500000, AmountBig 1500000]) demo_start = (Inr u, s')"
    using runs_split unfolding op_runs_def by (auto simp: op_bind_def)
  have "known_in (sh_commitment demo_held) (ss_store demo_start)" "sh_commitment demo_held = demo_cm"
    by (simp_all add: known_in_def demo_start_def demo_held_def)
  then show ?thesis using spend_all_or_nothing_thm [OF r] r by simp
qed

lemma overlapping_transfers_post_stale_proof_witness:
  "\<exists>pA s1 txB s2 leafA txA s3.
     transfer_prepare demo_env demo_cfg (AmountBig 2000000) (encodeAddress demo_recipient) RefUndefined demo_start = (Inr pA, s1)
     \<and> transfer demo_env demo_cfg (AmountBig 2000000) (encodeAddress demo_recipient) RefUndefined s1 = (Inr txB, s2)
     \<and> transfer_post demo_env demo_cfg pA demo_proof s2 = (Inr (txA, leafA), s3) \<and> leafA = 2"
proof -
  obtain pA s1 txB s2 txA leafA s3 where r:
    "transfer_prepare demo_env demo_cfg (AmountBig 2000000) (encodeAddress demo_recipient) RefUndefined demo_start = (Inr pA, s1)"
    "transfer demo_env demo_cfg (AmountBig 2000000) (encodeAddress demo_recipient) RefUndefined s1 = (Inr txB, s2)"
    "transfer_post demo_env demo_cfg pA demo_proof s2 = (Inr (txA, leafA), s3)"
    using demo_overlap by blast
  have "length [demo_cm] + 1 < 2 ^ TREE_DEPTH" by (simp add: TREE_DEPTH_def)
  then have "leafA = length [demo_cm] + 1"
    using overlapping_transfers_post_stale_proof [OF r _ demo_commitments] by (auto simp: Let_def)
  then show ?thesis using r by auto
qed

end
