(* ===== verification/ProofDemo.thy ===== *)
theory ProofDemo
  imports SpendProofs ShieldDemo
begin

text \<open>
  The wallet of \<open>ShieldDemo\<close> owns its note, so what it prepares can be proved: the witnesses of \<open>ClientProofs\<close>.
\<close>

definition demo_mul :: "int \<Rightarrow> int \<times> int" where
  "demo_mul k = (1, 2)"

lemma demo_owned: "owned demo_env demo_mul demo_cfg demo_held"
  by (simp add: owned_def demo_held_def demo_cm_def demo_mul_def commitmentOfSecret_def commitmentOf_def demo_env_def demo_hash_def
      witness_fields_def witnessNote_def is_field_def BN254_FIELD_MODULUS_def assetFieldFor_def assetOfNote_def nativeAsset_def
      asset_field_ok_def asset_bound_def Let_def)

lemma demo_leaves: "api_getCommitments (ce_api demo_env) p = Inr [demo_cm]" "list_all (\<lambda>c. canonical (chain_leaf c)) [demo_cm]"
  using demo_commitments canonical_commitment [of 2000006]
  by (simp_all add: chain_leaf_def demo_norm(1)) (simp add: demo_cm_def is_field_def BN254_FIELD_MODULUS_def)

lemma demo_out:
  "0 \<le> a \<Longrightarrow> a < 2 ^ 64 \<Longrightarrow> witness_fields (witnessNote (fn_note (demo_note a 9 1 2)))"
  "0 \<le> a \<Longrightarrow> a < 2 ^ 64 \<Longrightarrow> fn_commitment (demo_note a 9 1 2) = a + 9"
  by (simp_all add: demo_note_def note_for_def witnessNote_def witness_fields_def is_field_def BN254_FIELD_MODULUS_def demo_blinding
      commitmentOf_def demo_env_def demo_hash_def Let_def)

lemma prepared_split_is_provable_witness:
  "\<exists>p s'. split_prepare demo_env demo_cfg demo_held [AmountBig 500000, AmountBig 1500000] demo_start = (Inr p, s')
     \<and> circuit demo_hash demo_mul (fst (splitInputs (pp_witness p))) (snd (splitInputs (pp_witness p))) = Inr ()"
proof -
  obtain p s' where r: "split_prepare demo_env demo_cfg demo_held [AmountBig 500000, AmountBig 1500000] demo_start = (Inr p, s')"
    "pp_out1 p = demo_note 500000 9 1 2" "pp_out2 p = demo_note 1500000 9 1 2"
    using runs_split_prepare unfolding op_runs_def by blast
  have h: "ce_poseidon demo_env = demo_hash" by (simp add: demo_env_def)
  obtain f where "lw_commitment1 (pp_witness p) = fn_commitment (pp_out1 p)" "lw_commitment2 (pp_witness p) = fn_commitment (pp_out2 p)"
    "lw_out1 (pp_witness p) = witnessNote (fn_note (pp_out1 p))" "lw_out2 (pp_witness p) = witnessNote (fn_note (pp_out2 p))"
    by (rule split_prepare_fields [OF r(1)])
  then have "circuit (ce_poseidon demo_env) demo_mul (fst (splitInputs (pp_witness p))) (snd (splitInputs (pp_witness p))) = Inr ()"
    using prepared_split_is_provable [OF r(1) _ demo_leaves demo_owned] demo_hash_field r(2,3) h by (simp add: demo_out)
  then show ?thesis using r(1) h by auto
qed


section \<open>Merges and withdrawals\<close>

lemma runs_merge_prepare:
  "op_runs (merge_prepare demo_env demo_cfg demo_held demo_held) demo_start
     (\<lambda>p s1. mr_out p = demo_note 4000000 9 1 2 \<and> gw_output (mr_witness p) = witnessNote (fn_note (demo_note 4000000 9 1 2)))"
  unfolding merge_prepare_def Let_def demo_native(3)
  apply (rule runs_bind, rule runs_keys [OF demo_start_ready], simp only: prod.case)
  apply (rule runs_bind, rule runs_guard, simp add: demo_held_def demo_native)
  apply (rule runs_bind, simp only: demo_held_amount, rule runs_note(2) [OF demo_start_ready], simp, simp)
  apply (rule runs_bind, rule runs_engine)
  apply (rule runs_bind, rule runs_sync, assumption)
  apply (rule runs_bind, rule runs_nullifier)
  apply (rule runs_bind, rule runs_nullifier)
  apply (rule runs_bind, rule runs_tree(2), erule demo_weaken, simp)
  apply (rule runs_bind, rule runs_membership, assumption)
  apply (rule runs_bind, rule runs_membership, assumption)
  apply (rule runs_bind, rule runs_field)
  apply (rule runs_return, simp)
  done


definition demo_digest :: bytes where
  "demo_digest = 0 # replicate 30 7 @ [7]"

lemma demo_digest_positive: "be_val demo_digest \<noteq> 0"
proof -
  have "demo_digest = (0 # replicate 30 7) @ [7]" by (simp add: demo_digest_def)
  then have "be_val demo_digest = 256 * be_val (0 # replicate 30 7) + unat (7 :: 8 word)" by (metis be_val_snoc)
  moreover have "unat (7 :: 8 word) = 7" by simp
  ultimately show ?thesis by linarith
qed

lemma demo_principal: "fePrincipal (client_crypto demo_env) a = Inr demo_digest"
  by (simp add: numeral_eq_Suc demo_digest_def fePrincipal_def client_crypto_def demo_env_def native_delivery_def demo_delivery_def crypto.defs)

lemma runs_withdraw_prepare:
  "op_runs (withdraw_prepare demo_env demo_cfg demo_held (Some ''ST2'')) demo_start (\<lambda>p s1. wp_to p = ''ST2'')"
  unfolding withdraw_prepare_def Let_def demo_native(3) option.case
  apply (rule runs_bind, rule runs_guard, simp add: demo_held_amount MIN_WITHDRAWAL_def)
  apply (rule runs_bind, rule runs_lift, rule refl)
  apply (rule runs_bind, rule runs_guard, simp)
  apply (rule runs_bind, rule runs_engine)
  apply (rule runs_bind, rule runs_sync [OF demo_start_ready])
  apply (rule runs_bind, rule runs_nullifier)
  apply (rule runs_bind, rule runs_tree(1), erule demo_weaken, simp)
  apply (rule runs_bind, rule runs_lift, simp add: demo_principal bytesToBig_val lift_js_def)
  apply (rule runs_bind, rule runs_membership, assumption)
  apply (rule runs_bind, rule runs_field)
  apply (rule runs_return, simp)
  done

lemma demo_digest32: "digest32 (client_crypto demo_env)"
  by (simp add: digest32_def client_crypto_def demo_env_def native_delivery_def demo_delivery_def crypto.defs)

lemma prepared_withdraw_is_provable_witness:
  "\<exists>p s'. withdraw_prepare demo_env demo_cfg demo_held (Some ''ST2'') demo_start = (Inr p, s')
     \<and> circuit demo_hash demo_mul (fst (withdrawInputs (wp_witness p))) (snd (withdrawInputs (wp_witness p))) = Inr ()"
proof -
  obtain p s' where r: "withdraw_prepare demo_env demo_cfg demo_held (Some ''ST2'') demo_start = (Inr p, s')"
    using runs_withdraw_prepare unfolding op_runs_def by blast
  have h: "ce_poseidon demo_env = demo_hash" by (simp add: demo_env_def)
  have "rbind (fePrincipal (client_crypto demo_env) (wp_to p)) bytesToBig = Inr (dw_recipientHash (wp_witness p))"
    using withdraw_prepare_fields [OF r demo_leaves(1)] by blast
  then have "dw_recipientHash (wp_witness p) \<noteq> 0"
    using demo_digest_positive by (simp add: demo_principal bytesToBig_val)
  then show ?thesis
    using prepared_withdraw_is_provable [OF r _ demo_leaves demo_owned demo_digest32] demo_hash_field h r by auto
qed

end
