(* ===== verification/PostedProofs.thy ===== *)
theory PostedProofs
  imports ProofDemo
begin

text \<open>
  What a spend posts is what its proof proves. A request is read back as the statement the contracts hash
  (\<open>sdk/public-inputs/\<close>, with the live circuit version 2), the inputs of the engine as the public inputs of the circuit in
  the order its \<open>main\<close> declares them; the two hashes agree for every spend of the client that returns.
\<close>

section \<open>The statement a request makes\<close>

definition body_text :: "json \<Rightarrow> string \<Rightarrow> string" where
  "body_text b k = (case json_field b k of Some (JStr t) \<Rightarrow> t | _ \<Rightarrow> [])"

definition body_bytes :: "json \<Rightarrow> string \<Rightarrow> bytes" where
  "body_bytes b k = hexToBytes (body_text b k)"

definition body_int :: "json \<Rightarrow> string \<Rightarrow> int" where
  "body_int b k = (case json_field b k of Some (JNum r) \<Rightarrow> \<lfloor>r\<rfloor> | _ \<Rightarrow> - 1)"

definition posted_transfer :: "json \<Rightarrow> transfer_inputs" where
  "posted_transfer b =
     \<lparr>tri_nullifier = body_bytes b ''nullifier'', tri_newCommitment = body_bytes b ''newCommitment'',
      tri_newOwnerCommitment = body_bytes b ''newOwnerCommitment'', tri_merkleRoot = body_bytes b ''currentRoot'',
      tri_newRoot = body_bytes b ''newRoot'', tri_leafIndex = body_int b ''leafIndex'', tri_circuitVersion = 2\<rparr>"

definition posted_split :: "json \<Rightarrow> split_inputs" where
  "posted_split b =
     \<lparr>spi_nullifier = body_bytes b ''nullifier'', spi_commitment1 = body_bytes b ''commitment1'',
      spi_ownerCommitment1 = body_bytes b ''ownerCommitment1'', spi_commitment2 = body_bytes b ''commitment2'',
      spi_ownerCommitment2 = body_bytes b ''ownerCommitment2'', spi_merkleRoot = body_bytes b ''currentRoot'',
      spi_newRoot = body_bytes b ''newRoot'', spi_leafIndex = body_int b ''leafIndex'', spi_circuitVersion = 2\<rparr>"

definition posted_merge :: "json \<Rightarrow> merge_inputs" where
  "posted_merge b =
     \<lparr>mgi_nullifier1 = body_bytes b ''nullifier1'', mgi_nullifier2 = body_bytes b ''nullifier2'',
      mgi_commitment = body_bytes b ''commitment'', mgi_ownerCommitment = body_bytes b ''ownerCommitment'',
      mgi_merkleRoot = body_bytes b ''currentRoot'', mgi_newRoot = body_bytes b ''newRoot'',
      mgi_leafIndex = body_int b ''leafIndex'', mgi_circuitVersion = 2\<rparr>"

definition posted_withdraw :: "json \<Rightarrow> withdraw_inputs" where
  "posted_withdraw b =
     \<lparr>wdi_nullifier = body_bytes b ''nullifier'', wdi_amount = int (nat_of_dec (body_text b ''amount'')),
      wdi_recipient = body_text b ''recipient'', wdi_merkleRoot = body_bytes b ''root'', wdi_circuitVersion = 2\<rparr>"

definition posted_hash :: "crypto \<Rightarrow> string \<Rightarrow> json \<Rightarrow> (js_error, bytes) result" where
  "posted_hash C operation b =
     (case json_field b ''token'' of
        None \<Rightarrow>
          (if operation = ''transfer'' then transferPublicInputs C (posted_transfer b)
           else if operation = ''split'' then splitPublicInputs C (posted_split b)
           else if operation = ''merge'' then mergePublicInputs C (posted_merge b)
           else withdrawPublicInputs C (posted_withdraw b))
      | Some _ \<Rightarrow>
          (let t = body_text b ''token'' in
           if operation = ''transfer'' then transferPublicInputsSip10 C (transfer_inputs.extend (posted_transfer b) (transfer_inputs_sip10.fields t))
           else if operation = ''split'' then splitPublicInputsSip10 C (split_inputs.extend (posted_split b) (split_inputs_sip10.fields t))
           else if operation = ''merge'' then mergePublicInputsSip10 C (merge_inputs.extend (posted_merge b) (merge_inputs_sip10.fields t))
           else withdrawPublicInputsSip10 C (withdraw_inputs.extend (posted_withdraw b) (withdraw_inputs_sip10.fields t))))"

section \<open>The public inputs of a proof\<close>

definition public_params :: "string \<Rightarrow> bool \<Rightarrow> string list" where
  "public_params base sip10 =
     (if base = ''transfer'' then [''op'', ''nullifier'', ''new_commitment'', ''new_owner_commitment'', ''merkle_root'', ''new_root'', ''leaf_index'']
      else if base = ''split'' then [''op'', ''nullifier'', ''commitment_1'', ''owner_commitment_1'', ''commitment_2'', ''owner_commitment_2'',
             ''merkle_root'', ''new_root'', ''leaf_index'']
      else if base = ''merge'' then [''op'', ''nullifier_1'', ''nullifier_2'', ''commitment'', ''owner_commitment'', ''merkle_root'', ''new_root'',
             ''leaf_index'']
      else if base = ''withdraw'' then [''op'', ''nullifier'', ''amount'', ''recipient_hash'', ''merkle_root'']
      else [''op'', ''commitment'', ''owner_commitment'', ''amount'', ''old_root'', ''new_root'', ''leaf_index''])
     @ (if sip10 then [''asset_id''] else []) @ [''circuit_version'']"

definition circuit_public :: "string \<times> json \<Rightarrow> (string, int list) result" where
  "circuit_public ci =
     (let sip10 = js_startsWith (fst ci) ''sip10-''
      in rmap (abi_field (snd ci)) (public_params (if sip10 then drop 6 (fst ci) else fst ci) sip10))"

text \<open>A request posts what a proof proves: the hash over the request is the hash over the public inputs of the proof.\<close>

definition posts_proved :: "crypto \<Rightarrow> string \<Rightarrow> json \<Rightarrow> string \<times> json \<Rightarrow> bool" where
  "posts_proved C operation b ci =
     (case circuit_public ci of
        Inl e \<Rightarrow> False
      | Inr xs \<Rightarrow> posted_hash C operation b = Inr (keccak256 C (concat (map fieldToBytes32 xs))))"

section \<open>Fields as bytes\<close>

lemma word_of_field: "length b = 32 \<Longrightarrow> is_field x \<Longrightarrow> big b = x \<Longrightarrow> b = fieldToBytes32 x"
  by (rule be_val_inj) (auto simp: be_val_fieldToBytes32 is_field_def big_def)

lemma fe32_field [simp]: "fe32 (fieldToBytes32 x) = Inr (fieldToBytes32 x)"
  by (simp add: fe32_def)

lemma feUint_field [simp]: "is_field x \<Longrightarrow> feUint x = Inr (fieldToBytes32 x)"
  unfolding feUint_Inr by (simp add: be_val_fieldToBytes32 is_field_def BN254_FIELD_MODULUS_def)

lemma small_fields [simp]: "is_field 1" "is_field 2" "is_field 3" "is_field 4" "is_field 5"
  by (simp_all add: is_field_def BN254_FIELD_MODULUS_def)

lemma posted_field: "is_field x \<Longrightarrow> hexToBytes (toHex32 x) = fieldToBytes32 x"
proof -
  assume x: "is_field x"
  then have "x < 2 ^ 256" by (simp add: is_field_def BN254_FIELD_MODULUS_def)
  with x show ?thesis by (intro word_of_field) (simp_all add: toHex32_bytes is_field_def)
qed

lemma posted_root:
  assumes "poseidon_field (ce_poseidon env)" "list_all canonical ls"
  shows "hexToBytes (toHex (chain_root env ls)) = fieldToBytes32 (big (chain_root env ls))"
proof -
  have "length (chain_root env ls) = 32"
    using subtree_canonical [OF assms, of TREE_DEPTH 0] by (simp add: chain_root_def canonical_def)
  from word_of_field [OF this chain_root_canonical [OF assms] refl] show ?thesis
    by (simp add: hexToBytes_fromHex)
qed

lemma posted_principal:
  assumes "digest32 C" "rbind (fePrincipal C a) bytesToBig = Inr h"
  shows "fePrincipal C a = Inr (fieldToBytes32 h)" "is_field h"
proof -
  obtain b where b: "fePrincipal C a = Inr b" "int (be_val b) = h"
    using assms(2) by (auto simp: rbind_Inr bytesToBig_val)
  show "is_field h" by (rule fePrincipal_is_field [OF assms])
  then show "fePrincipal C a = Inr (fieldToBytes32 h)"
    using word_of_field [OF fePrincipal_length [OF assms(1) b(1)]] b by (simp add: big_def)
qed


text \<open>The asset of a request: none for the native pool, else a token whose field element the circuit is given.\<close>

lemma posted_asset:
  assumes "digest32 C" "assetFieldFor C a = Inr f" "f \<noteq> Some 0"
  obtains (native) "tokenParam a = []" "f = None"
    | (token) t h where "tokenParam a = [(''token'', JStr t)]" "f = Some h" "h \<noteq> 0" "is_field h" "assetIdOf C t = Inr (fieldToBytes32 h)"
proof (cases "as_native a")
  case True
  then show ?thesis using assms(2) native by (simp add: assetFieldFor_def tokenParam_def)
next
  case False
  then obtain t h where t: "as_token a = Some t" "rbind (fePrincipal C t) bytesToBig = Inr h" "f = Some h"
    using assms(2) by (auto simp: assetFieldFor_def assetFieldOf_def rbind_eq_Inr split: option.splits)
  show ?thesis
    by (rule token [of t h]) (use t False assms(3) posted_principal [OF assms(1) t(2)] in \<open>simp_all add: tokenParam_def assetIdOf_def\<close>)
qed

lemmas posted_defs = posts_proved_def circuit_public_def posted_hash_def public_params_def relay_body_def body_text_def body_bytes_def
  body_int_def leafIndexParam_def jint_def jtext_def Let_def js_startsWith_def abi_field_def CIRCUIT_VERSION_def assetIn_def
  asset_bound_def pick_def

lemma split_posts:
  assumes "is_field (lw_nullifier w)" "is_field (lw_commitment1 w)" "is_field (lw_ownerCommitment1 w)" "is_field (lw_commitment2 w)"
    "is_field (lw_ownerCommitment2 w)" "is_field (mw_merkleRoot (lw_membership w))" "is_field (ip_newRoot (lw_insertion2 w))"
    "is_field (int (ip_leafIndex (lw_insertion1 w)))"
    and "pp_witness p = w" "digest32 C" "assetFieldFor C (pp_asset p) = Inr (lw_assetField w)" "lw_assetField w \<noteq> Some 0"
    and "sh_commitment (fn_note (pp_out1 p)) = toHex32 (lw_commitment1 w)" "fn_ownerCommitment (pp_out1 p) = lw_ownerCommitment1 w"
    "sh_commitment (fn_note (pp_out2 p)) = toHex32 (lw_commitment2 w)" "fn_ownerCommitment (pp_out2 p) = lw_ownerCommitment2 w"
    and "hexToBytes (pp_currentRoot p) = fieldToBytes32 (mw_merkleRoot (lw_membership w))"
    "hexToBytes (pp_newRoot p) = fieldToBytes32 (ip_newRoot (lw_insertion2 w))"
  shows "posts_proved C ''split'' (relay_body (split_params p) inc) (splitInputs w)"
  using assms(10-12)
proof (cases rule: posted_asset)
  case native
  then show ?thesis
    using assms(1-9,13-) by (simp add: posted_defs splitInputs_def split_params_def posted_split_def splitPublicInputs_def posted_field
      hash_fields_def rbind_def concatAll_concat)
next
  case (token t h)
  then show ?thesis
    using assms(1-9,13-) by (simp add: posted_defs splitInputs_def split_params_def posted_split_def splitPublicInputsSip10_def posted_field
      hash_fields_def rbind_def concatAll_concat split_inputs.defs split_inputs_sip10.defs)
qed


lemma transfer_posts:
  assumes "is_field (tw_nullifier w)" "is_field (tw_newCommitment w)" "is_field (tw_newOwnerCommitment w)"
    "is_field (mw_merkleRoot (tw_membership w))" "is_field (ip_newRoot (tw_insertion w))" "is_field (int (ip_leafIndex (tw_insertion w)))"
    and "tp_witness p = w" "digest32 C" "assetFieldFor C (tp_asset p) = Inr (tw_assetField w)" "tw_assetField w \<noteq> Some 0"
    and "sh_commitment (fn_note (tp_out p)) = toHex32 (tw_newCommitment w)" "fn_ownerCommitment (tp_out p) = tw_newOwnerCommitment w"
    and "hexToBytes r1 = fieldToBytes32 (mw_merkleRoot (tw_membership w))" "hexToBytes r2 = fieldToBytes32 (ip_newRoot (tw_insertion w))"
  shows "posts_proved C ''transfer'' (relay_body (transfer_params p r1 r2) inc) (transferInputs w)"
  using assms(8-10)
proof (cases rule: posted_asset)
  case native
  then show ?thesis
    using assms(1-7,11-) by (simp add: posted_defs transferInputs_def insIn_def transfer_params_def posted_transfer_def transferPublicInputs_def
      posted_field hash_fields_def rbind_def concatAll_concat)
next
  case (token t h)
  then show ?thesis
    using assms(1-7,11-) by (simp add: posted_defs transferInputs_def insIn_def transfer_params_def posted_transfer_def
      transferPublicInputsSip10_def posted_field hash_fields_def rbind_def concatAll_concat transfer_inputs.defs transfer_inputs_sip10.defs)
qed

lemma merge_posts:
  assumes "is_field (gw_nullifier1 w)" "is_field (gw_nullifier2 w)" "is_field (gw_commitment w)" "is_field (gw_ownerCommitment w)"
    "is_field (mw_merkleRoot (gw_membership1 w))" "is_field (ip_newRoot (gw_insertion w))" "is_field (int (ip_leafIndex (gw_insertion w)))"
    and "mr_witness p = w" "digest32 C" "assetFieldFor C (mr_asset p) = Inr (gw_assetField w)" "gw_assetField w \<noteq> Some 0"
    and "sh_commitment (fn_note (mr_out p)) = toHex32 (gw_commitment w)" "fn_ownerCommitment (mr_out p) = gw_ownerCommitment w"
    and "hexToBytes r1 = fieldToBytes32 (mw_merkleRoot (gw_membership1 w))" "hexToBytes r2 = fieldToBytes32 (ip_newRoot (gw_insertion w))"
  shows "posts_proved C ''merge'' (relay_body (merge_params p r1 r2) inc) (mergeInputs w)"
  using assms(9-11)
proof (cases rule: posted_asset)
  case native
  then show ?thesis
    using assms(1-8,12-) by (simp add: posted_defs mergeInputs_def insIn_def merge_params_def posted_merge_def mergePublicInputs_def
      posted_field hash_fields_def rbind_def concatAll_concat)
next
  case (token t h)
  then show ?thesis
    using assms(1-8,12-) by (simp add: posted_defs mergeInputs_def insIn_def merge_params_def posted_merge_def
      mergePublicInputsSip10_def posted_field hash_fields_def rbind_def concatAll_concat merge_inputs.defs merge_inputs_sip10.defs)
qed

lemma withdraw_posts:
  assumes "is_field (dw_nullifier w)" "is_field (dw_amount w)" "is_field (mw_merkleRoot (dw_membership w))"
    and "wp_witness p = w" "digest32 C" "assetFieldFor C (wp_asset p) = Inr (dw_assetField w)" "dw_assetField w \<noteq> Some 0"
    and "dw_amount w = sh_amount n" "rbind (fePrincipal C (wp_to p)) bytesToBig = Inr (dw_recipientHash w)"
    and "hexToBytes (wp_root p) = fieldToBytes32 (mw_merkleRoot (dw_membership w))"
  shows "posts_proved C ''withdraw'' (relay_body (withdraw_params n p) inc) (withdrawInputs w)"
proof -
  note to = posted_principal [OF assms(5,9)]
  have amount: "int (nat_of_dec (dec_of_int (sh_amount n))) = sh_amount n"
    using assms(2,8) by (simp add: dec_of_int_def is_field_def)
  show ?thesis
    using assms(5-7)
  proof (cases rule: posted_asset)
    case native
    then show ?thesis
      using assms(1-4,8-) to amount by (simp add: posted_defs withdrawInputs_def withdraw_params_def posted_withdraw_def
        withdrawPublicInputs_def posted_field hash_fields_def rbind_def concatAll_concat)
  next
    case (token t h)
    then show ?thesis
      using assms(1-4,8-) to amount by (simp add: posted_defs withdrawInputs_def withdraw_params_def posted_withdraw_def
        withdrawPublicInputsSip10_def posted_field hash_fields_def rbind_def concatAll_concat withdraw_inputs.defs withdraw_inputs_sip10.defs)
  qed
qed


section \<open>Plans\<close>

lemma lift_js_Inr [simp]: "lift_js r = Inr a \<longleftrightarrow> r = Inr a"
  by (simp add: lift_js_def split: sum.split)

lemma lift_plain_Inr [simp]: "lift_plain r = Inr a \<longleftrightarrow> r = Inr a"
  by (simp add: lift_plain_def split: sum.split)

lemma requireEngine_Inr [simp]: "requireEngine e = Inr x \<longleftrightarrow> e = Some x"
  by (simp add: requireEngine_def split: option.split)

lemma split_plan:
  "split_prepare env cfg n amounts s = (Inr p, s1) \<Longrightarrow>
     rf_proofEngine cfg = Some (pp_engine p) \<and> pp_asset p = assetOfNote cfg n"
  unfolding split_prepare_def Let_def case_prod_beta
  by (clarsimp simp: op_bind_Inr split: list.splits)

lemma transfer_plan:
  "transfer_prepare env cfg a to ref s = (Inr p, s1) \<Longrightarrow>
     rf_proofEngine cfg = Some (tp_engine p) \<and> assetFieldFor (client_crypto env) (tp_asset p) = Inr (tw_assetField (tp_witness p))"
  unfolding transfer_prepare_def
  by (clarsimp simp: op_bind_Inr)

lemma withdraw_plan:
  "withdraw_prepare env cfg n to s = (Inr p, s1) \<Longrightarrow> rf_proofEngine cfg = Some (wp_engine p) \<and> wp_asset p = assetOfNote cfg n"
  unfolding withdraw_prepare_def Let_def
  by (clarsimp simp: op_bind_Inr)

lemma merge_plan:
  "merge_prepare env cfg i1 i2 s = (Inr p, s1) \<Longrightarrow> rf_proofEngine cfg = Some (mr_engine p) \<and> mr_asset p = assetOfNote cfg i1"
  unfolding merge_prepare_def Let_def case_prod_beta
  by (clarsimp simp: op_bind_Inr)

lemma merge_plan_tree:
  assumes "merge_prepare env cfg i1 i2 s = (Inr p, s1)" "api_getCommitments (ce_api env) (ss_api s) = Inr cs"
  shows "ss_tree s1 = chain_tree env (map chain_leaf cs)"
proof -
  obtain s2 s3 s4 s5 c ins m1 m2 where r: "syncTree env s2 = (Inr (), s3)" "client_insertion env c s3 = (Inr ins, s4)"
    "client_membership i1 s4 = (Inr m1, s5)" "client_membership i2 s5 = (Inr m2, s1)"
    using assms(1) unfolding merge_prepare_def op_bind_Inr Let_def case_prod_beta op_lift_run op_guard_run op_return_run
    by (clarsimp simp: op_bind_Inr)
  obtain cs' where cs': "api_getCommitments (ce_api env) (ss_api s2) = Inr cs'" "length cs' \<le> 2 ^ TREE_DEPTH" "s3 = synced env cs' s2"
    using syncTree_Inr [OF r(1)] .
  have same: "cs' = cs" using cs'(1) assms(2) api_getCommitments_any [of "ce_api env" "ss_api s2" "ss_api s"] by simp
  have t: "ss_tree s3 = chain_tree env (map chain_leaf cs)" using cs'(3) same by simp
  have "s4 = s3" using client_insertion_room [OF r(2) t] cs'(2) same by simp
  moreover have "s5 = s4" "s1 = s5" using r(3,4) by (auto simp: client_membership_def)
  ultimately show ?thesis using t by simp
qed

text \<open>No principal hashes to zero.\<close>

definition nonzero_principals :: "crypto \<Rightarrow> bool" where
  "nonzero_principals C \<longleftrightarrow> (\<forall>a. rbind (fePrincipal C a) bytesToBig \<noteq> Inr 0)"

lemma nonzero_asset: "nonzero_principals C \<Longrightarrow> assetFieldFor C a = Inr f \<Longrightarrow> f \<noteq> Some 0"
  by (auto simp: nonzero_principals_def assetFieldFor_def assetFieldOf_def rbind_eq_Inr split: if_splits option.splits)

lemma nullifier_field: "poseidon_field (ce_poseidon env) \<Longrightarrow> note_nullifier env n = Inr nf \<Longrightarrow> is_field nf"
  by (auto simp: note_nullifier_def lift_plain_def rbind_eq_Inr nullifierOf_def poseidon_is_field split: sum.splits)


lemma leaves_canonical: "list_all (\<lambda>c. canonical (chain_leaf c)) cs \<Longrightarrow> list_all canonical (map chain_leaf cs)"
  by (simp add: list_all_length)

lemma leaf_field: "n < 2 ^ TREE_DEPTH \<Longrightarrow> is_field (int n)"
proof -
  assume "n < 2 ^ TREE_DEPTH"
  then have "int n < 2 ^ TREE_DEPTH" by (metis of_nat_less_iff of_nat_numeral of_nat_power)
  then show ?thesis by (simp add: is_field_def TREE_DEPTH_def BN254_FIELD_MODULUS_def)
qed

lemma split_plan_posts:
  assumes run: "split_prepare env cfg n amounts s = (Inr p, s1)" and P: "poseidon_field (ce_poseidon env)"
    and feed: "api_getCommitments (ce_api env) (ss_api s) = Inr cs" "list_all (\<lambda>c. canonical (chain_leaf c)) cs"
    and C: "digest32 (client_crypto env)" "nonzero_principals (client_crypto env)"
  shows "posts_proved (client_crypto env) ''split'' (relay_body (split_params p) inc) (splitInputs (pp_witness p))"
proof -
  let ?w = "pp_witness p" and ?b1 = "hexToBytes (sh_commitment (fn_note (pp_out1 p)))"
  let ?b2 = "hexToBytes (sh_commitment (fn_note (pp_out2 p)))" and ?ls = "map chain_leaf cs"
  obtain f where f: "assetFieldFor (client_crypto env) (assetOfNote cfg n) = Inr f" "fresh_ok env f (pp_out1 p)" "fresh_ok env f (pp_out2 p)"
    "note_nullifier env n = Inr (lw_nullifier ?w)" "lw_assetField ?w = f"
    "lw_commitment1 ?w = fn_commitment (pp_out1 p)" "lw_ownerCommitment1 ?w = fn_ownerCommitment (pp_out1 p)"
    "lw_commitment2 ?w = fn_commitment (pp_out2 p)" "lw_ownerCommitment2 ?w = fn_ownerCommitment (pp_out2 p)"
    by (rule split_prepare_fields [OF run])
  obtain i where w: "lw_membership ?w = proof_of_member env ?ls i" "pp_currentRoot p = toHex (chain_root env ?ls)"
    "lw_insertion1 ?w = proof_of_insertion env ?ls ?b1" "lw_insertion2 ?w = proof_of_insertion env (?ls @ [?b1]) ?b2"
    "pp_newRoot p = toHex (chain_root env (?ls @ [?b1, ?b2]))" "length cs < 2 ^ TREE_DEPTH"
    by (rule split_prepare_chain [OF run feed(1)]) auto
  note l1 = fresh_leaf [OF f(2) P] and l2 = fresh_leaf [OF f(3) P]
  have ls: "list_all canonical ?ls" "list_all canonical (?ls @ [?b1, ?b2])"
    using leaves_canonical [OF feed(2)] l1(2) l2(2) by simp_all
  have c: "sh_commitment (fn_note (pp_out1 p)) = toHex32 (lw_commitment1 ?w)" "sh_commitment (fn_note (pp_out2 p)) = toHex32 (lw_commitment2 ?w)"
    using f(2,3) by (simp_all add: f(6,8) fresh_ok_def)
  show ?thesis
    by (rule split_posts [OF _ _ _ _ _ _ _ _ refl C(1)])
      (use c f(1,4,5) l1(1,4) l2(1,4) leaf_field [OF w(6)] split_plan [OF run] nullifier_field [OF P f(4)] nonzero_asset [OF C(2) f(1)]
         chain_root_canonical [OF P ls(1)] chain_root_canonical [OF P ls(2)] posted_root [OF P ls(1)] posted_root [OF P ls(2)] in
       \<open>simp_all add: f(6-9) w(1-5)\<close>)
qed


lemma transfer_plan_posts:
  assumes run: "transfer_prepare env cfg a to ref s = (Inr p, s1)" and P: "poseidon_field (ce_poseidon env)"
    and feed: "api_getCommitments (ce_api env) (ss_api s) = Inr cs" "list_all (\<lambda>c. canonical (chain_leaf c)) cs"
    and C: "digest32 (client_crypto env)" "nonzero_principals (client_crypto env)"
  shows "posts_proved (client_crypto env) ''transfer'' (relay_body (transfer_params p (toHex (chain_root env (map chain_leaf cs)))
      (toHex (chain_root env (map chain_leaf cs @ [hexToBytes (sh_commitment (fn_note (tp_out p)))])))) inc) (transferInputs (tp_witness p))"
proof -
  let ?w = "tp_witness p" and ?b = "hexToBytes (sh_commitment (fn_note (tp_out p)))" and ?ls = "map chain_leaf cs"
  obtain f i where f: "fresh_ok env f (tp_out p)" "note_nullifier env (tp_input p) = Inr (tw_nullifier ?w)" "tw_assetField ?w = f"
    "tw_newCommitment ?w = fn_commitment (tp_out p)" "tw_newOwnerCommitment ?w = fn_ownerCommitment (tp_out p)" "length cs < 2 ^ TREE_DEPTH"
    "tw_membership ?w = proof_of_member env ?ls i" "tw_insertion ?w = proof_of_insertion env ?ls ?b"
    by (rule transfer_prepare_fields [OF run feed(1) P])
  note l = fresh_leaf [OF f(1) P]
  have ls: "list_all canonical ?ls" "list_all canonical (?ls @ [?b])" using leaves_canonical [OF feed(2)] l(2) by simp_all
  have A: "assetFieldFor (client_crypto env) (tp_asset p) = Inr (tw_assetField ?w)" using transfer_plan [OF run] by simp
  have c: "sh_commitment (fn_note (tp_out p)) = toHex32 (tw_newCommitment ?w)" using f(1) by (simp add: f(4) fresh_ok_def)
  show ?thesis
    by (rule transfer_posts [OF _ _ _ _ _ _ refl C(1) A nonzero_asset [OF C(2) A]])
      (use c l(1,4) leaf_field [OF f(6)] nullifier_field [OF P f(2)] chain_root_canonical [OF P ls(1)] chain_root_canonical [OF P ls(2)]
         posted_root [OF P ls(1)] posted_root [OF P ls(2)] in \<open>simp_all add: f(4,5,7,8)\<close>)
qed

lemma merge_plan_posts:
  assumes run: "merge_prepare env cfg i1 i2 s = (Inr p, s1)" and P: "poseidon_field (ce_poseidon env)"
    and feed: "api_getCommitments (ce_api env) (ss_api s) = Inr cs" "list_all (\<lambda>c. canonical (chain_leaf c)) cs"
    and C: "digest32 (client_crypto env)" "nonzero_principals (client_crypto env)"
  shows "posts_proved (client_crypto env) ''merge'' (relay_body (merge_params p (toHex (chain_root env (map chain_leaf cs)))
      (toHex (chain_root env (map chain_leaf cs @ [hexToBytes (sh_commitment (fn_note (mr_out p)))])))) inc) (mergeInputs (mr_witness p))"
proof -
  let ?w = "mr_witness p" and ?b = "hexToBytes (sh_commitment (fn_note (mr_out p)))" and ?ls = "map chain_leaf cs"
  obtain k f where f: "assetFieldFor (client_crypto env) (assetOfNote cfg i1) = Inr f" "fresh_ok env f (mr_out p)"
    "note_nullifier env i1 = Inr (gw_nullifier1 ?w)" "note_nullifier env i2 = Inr (gw_nullifier2 ?w)" "gw_assetField ?w = f"
    "gw_commitment ?w = fn_commitment (mr_out p)" "gw_ownerCommitment ?w = fn_ownerCommitment (mr_out p)" "length cs < 2 ^ TREE_DEPTH"
    "gw_membership1 ?w = proof_of_member env ?ls k" "gw_insertion ?w = proof_of_insertion env ?ls ?b"
    by (rule merge_prepare_fields [OF run feed(1)])
  note l = fresh_leaf [OF f(2) P]
  have ls: "list_all canonical ?ls" "list_all canonical (?ls @ [?b])" using leaves_canonical [OF feed(2)] l(2) by simp_all
  have A: "assetFieldFor (client_crypto env) (mr_asset p) = Inr (gw_assetField ?w)" using merge_plan [OF run] f(1,5) by simp
  have c: "sh_commitment (fn_note (mr_out p)) = toHex32 (gw_commitment ?w)" using f(2) by (simp add: f(6) fresh_ok_def)
  show ?thesis
    by (rule merge_posts [OF _ _ _ _ _ _ _ refl C(1) A nonzero_asset [OF C(2) A]])
      (use c l(1,4) leaf_field [OF f(8)] nullifier_field [OF P f(3)] nullifier_field [OF P f(4)] chain_root_canonical [OF P ls(1)]
         chain_root_canonical [OF P ls(2)] posted_root [OF P ls(1)] posted_root [OF P ls(2)] in \<open>simp_all add: f(6,7,9,10)\<close>)
qed

lemma withdraw_plan_posts:
  assumes run: "withdraw_prepare env cfg n to s = (Inr p, s1)" and P: "poseidon_field (ce_poseidon env)"
    and feed: "api_getCommitments (ce_api env) (ss_api s) = Inr cs" "list_all (\<lambda>c. canonical (chain_leaf c)) cs"
    and C: "digest32 (client_crypto env)" "nonzero_principals (client_crypto env)" and a: "is_field (sh_amount n)"
  shows "posts_proved (client_crypto env) ''withdraw'' (relay_body (withdraw_params n p) inc) (withdrawInputs (wp_witness p))"
proof -
  let ?w = "wp_witness p" and ?ls = "map chain_leaf cs"
  obtain i f where f: "assetFieldFor (client_crypto env) (assetOfNote cfg n) = Inr f"
    "note_nullifier env n = Inr (dw_nullifier ?w)" "dw_assetField ?w = f" "dw_amount ?w = sh_amount n"
    "rbind (fePrincipal (client_crypto env) (wp_to p)) bytesToBig = Inr (dw_recipientHash ?w)"
    "dw_membership ?w = proof_of_member env ?ls i" "wp_root p = toHex (chain_root env ?ls)"
    by (rule withdraw_prepare_fields [OF run feed(1)])
  have ls: "list_all canonical ?ls" by (rule leaves_canonical [OF feed(2)])
  have A: "assetFieldFor (client_crypto env) (wp_asset p) = Inr (dw_assetField ?w)" using withdraw_plan [OF run] f(1,3) by simp
  show ?thesis
    by (rule withdraw_posts [OF _ _ _ refl C(1) A nonzero_asset [OF C(2) A] f(4,5)])
      (use a nullifier_field [OF P f(2)] chain_root_canonical [OF P ls] posted_root [OF P ls] in \<open>simp_all add: f(4,6,7)\<close>)
qed

section \<open>Whole spends\<close>

text \<open>The engine proved these inputs: it was given the witness they are built from.\<close>

definition engine_proves :: "proof_engine \<Rightarrow> string \<times> json \<Rightarrow> raw_proof \<Rightarrow> bool" where
  "engine_proves e ci pr \<longleftrightarrow>
     (\<exists>w. ci = transferInputs w \<and> pe_proveTransfer e w = Inr pr) \<or> (\<exists>w. ci = splitInputs w \<and> pe_proveSplit e w = Inr pr)
     \<or> (\<exists>w. ci = mergeInputs w \<and> pe_proveMerge e w = Inr pr) \<or> (\<exists>w. ci = withdrawInputs w \<and> pe_proveWithdraw e w = Inr pr)"

lemma thrown_Inr [simp]: "thrown r = Inr a \<longleftrightarrow> r = Inr a"
  by (simp add: thrown_def split: sum.split sdk_error.split)

lemma bbjs_proves: "engine_proves (createBbjsEngine W) ci pr \<Longrightarrow> proveCircuit W (fst ci) (snd ci) = Inr pr"
  unfolding engine_proves_def createBbjsEngine_def by (elim disjE exE conjE) (simp_all add: case_prod_beta)

definition spend_posts :: "client_env \<Rightarrow> resolved_config \<Rightarrow> shield_state \<Rightarrow> shield_state \<Rightarrow> bool" where
  "spend_posts env cfg s s' \<longleftrightarrow>
     (\<exists>engine ci pr inc operation params txid.
        rf_proofEngine cfg = Some engine \<and> engine_proves engine ci pr \<and> zk_submit (ce_zk env) (rf_zkVerify cfg) pr = Inr inc
        \<and> prefix (ss_events s @ [Relayed operation (relay_body params inc) txid]) (ss_events s')
        \<and> posts_proved (client_crypto env) operation (relay_body params inc) ci)"

lemma posted_by_relay:
  assumes "relay_submit env cfg operation params pr s2 = (Inr txid, s3)" "prefix (ss_events s3) (ss_events s')" "ss_events s2 = ss_events s"
    and "rf_proofEngine cfg = Some engine" "engine_proves engine ci pr" "\<And>inc. posts_proved (client_crypto env) operation (relay_body params inc) ci"
  shows "spend_posts env cfg s s'"
  using relay_submit_cases [OF assms(1)] assms(2-) unfolding spend_posts_def by fastforce

lemma keeps_events: "keeps wallet_view m \<Longrightarrow> m s = (r, s') \<Longrightarrow> ss_events s' = ss_events s"
  using keepsD [of wallet_view m s r s'] by (simp add: wallet_view_def)


text \<open>A transfer and a merge that follow their own preparation post the roots the preparation saw.\<close>

lemma append_then_relay:
  assumes "ss_tree s = chain_tree env ls" "length ls < 2 ^ TREE_DEPTH"
    and "op_bind client_root (\<lambda>r1. op_bind (client_insert env c) (\<lambda>l. op_bind client_root (\<lambda>r2.
           op_bind (relay_submit env cfg operation (params r1 r2) pr) (\<lambda>txid. op_return (g txid l r2))))) s = (Inr x, s')"
  obtains s2 txid where "ss_events s2 = ss_events s"
    "relay_submit env cfg operation (params (toHex (chain_root env ls)) (toHex (chain_root env (ls @ [hexToBytes c])))) pr s2 = (Inr txid, s')"
proof -
  let ?s2 = "s\<lparr>ss_tree := chain_tree env (ls @ [hexToBytes c])\<rparr>"
  have r1: "client_root s = (Inr (toHex (chain_root env ls)), s)" using client_root_run [OF assms(1)] assms(2) by simp
  have i: "client_insert env c s = (Inr (length ls), ?s2)" using client_insert_run [OF assms(1,2)] .
  have r2: "client_root ?s2 = (Inr (toHex (chain_root env (ls @ [hexToBytes c]))), ?s2)" using assms(2) by (intro client_root_run) simp_all
  obtain txid where "relay_submit env cfg operation (params (toHex (chain_root env ls)) (toHex (chain_root env (ls @ [hexToBytes c])))) pr ?s2
      = (Inr txid, s')"
    using assms(3) by (auto simp: op_bind_def r1 i r2 op_return_def split: prod.splits sum.splits)
  then show ?thesis using that [of ?s2 txid] by simp
qed

lemma transfer_spend_posts:
  assumes run: "transfer env cfg a to ref s = (Inr x, s')" and P: "poseidon_field (ce_poseidon env)"
    and feed: "api_getCommitments (ce_api env) (ss_api s) = Inr cs" "list_all (\<lambda>c. canonical (chain_leaf c)) cs"
    and C: "digest32 (client_crypto env)" "nonzero_principals (client_crypto env)"
  shows "spend_posts env cfg s s'"
proof -
  obtain p s1 pr posted s2 where r: "transfer_prepare env cfg a to ref s = (Inr p, s1)"
    "pe_proveTransfer (tp_engine p) (tp_witness p) = Inr pr" "transfer_post env cfg p pr s1 = (Inr posted, s2)"
    "transfer_record env cfg p posted s2 = (Inr x, s')"
    using run unfolding transfer_def op_bind_Inr op_lift_run by auto
  obtain cs' where t: "api_getCommitments (ce_api env) (ss_api s) = Inr cs'" "length cs' < 2 ^ TREE_DEPTH"
    "ss_tree s1 = chain_tree env (map chain_leaf cs')"
    by (rule transfer_prepare_run [OF r(1)])
  have same: "cs' = cs" using t(1) feed(1) by simp
  obtain s3 txid where m: "ss_events s3 = ss_events s1" "relay_submit env cfg ''transfer'' (transfer_params p (toHex (chain_root env (map chain_leaf cs)))
      (toHex (chain_root env (map chain_leaf cs @ [hexToBytes (sh_commitment (fn_note (tp_out p)))])))) pr s3 = (Inr txid, s2)"
    using append_then_relay [OF t(3) _ r(3) [unfolded transfer_post_def]] t(2) same by auto
  show ?thesis
  proof (rule posted_by_relay [OF m(2)])
    show "prefix (ss_events s2) (ss_events s')" by (rule growsD [OF grows_record(1) r(4)])
    show "ss_events s3 = ss_events s" using m(1) keeps_events [OF keeps_prepare(1) r(1)] by simp
    show "rf_proofEngine cfg = Some (tp_engine p)" using transfer_plan [OF r(1)] by simp
    show "engine_proves (tp_engine p) (transferInputs (tp_witness p)) pr" using r(2) by (auto simp: engine_proves_def)
  qed (rule transfer_plan_posts [OF r(1) P feed C])
qed

lemma split_spend_posts:
  assumes run: "split env cfg n amounts s = (Inr x, s')" and P: "poseidon_field (ce_poseidon env)"
    and feed: "api_getCommitments (ce_api env) (ss_api s) = Inr cs" "list_all (\<lambda>c. canonical (chain_leaf c)) cs"
    and C: "digest32 (client_crypto env)" "nonzero_principals (client_crypto env)"
  shows "spend_posts env cfg s s'"
proof -
  obtain p s1 pr txid s2 where r: "split_prepare env cfg n amounts s = (Inr p, s1)"
    "pe_proveSplit (pp_engine p) (pp_witness p) = Inr pr" "relay_submit env cfg ''split'' (split_params p) pr s1 = (Inr txid, s2)"
    "split_record env cfg n p txid s2 = (Inr x, s')"
    using run unfolding split_def op_bind_Inr op_lift_run by auto
  show ?thesis
  proof (rule posted_by_relay [OF r(3)])
    show "prefix (ss_events s2) (ss_events s')" by (rule growsD [OF grows_record(2) r(4)])
    show "ss_events s1 = ss_events s" by (rule keeps_events [OF keeps_split_prepare r(1)])
    show "rf_proofEngine cfg = Some (pp_engine p)" using split_plan [OF r(1)] by simp
    show "engine_proves (pp_engine p) (splitInputs (pp_witness p)) pr" using r(2) by (auto simp: engine_proves_def)
  qed (rule split_plan_posts [OF r(1) P feed C])
qed

lemma merge_spend_posts:
  assumes run: "merge env cfg ns s = (Inr x, s')" and P: "poseidon_field (ce_poseidon env)"
    and feed: "api_getCommitments (ce_api env) (ss_api s) = Inr cs" "list_all (\<lambda>c. canonical (chain_leaf c)) cs"
    and C: "digest32 (client_crypto env)" "nonzero_principals (client_crypto env)"
  shows "spend_posts env cfg s s'"
proof -
  obtain i1 i2 where ns: "ns = [i1, i2]" using run by (auto simp: merge_def split: list.splits)
  obtain p s1 pr posted s2 where r: "merge_prepare env cfg i1 i2 s = (Inr p, s1)"
    "pe_proveMerge (mr_engine p) (mr_witness p) = Inr pr" "merge_post env cfg p pr s1 = (Inr posted, s2)"
    "merge_record env cfg i1 i2 p posted s2 = (Inr x, s')"
    using run unfolding ns merge_def list.case op_bind_Inr op_lift_run by auto
  note t = merge_plan_tree [OF r(1) feed(1)]
  have len: "length cs < 2 ^ TREE_DEPTH" by (rule merge_prepare_fields [OF r(1) feed(1)])
  obtain s3 txid where m: "ss_events s3 = ss_events s1" "relay_submit env cfg ''merge'' (merge_params p (toHex (chain_root env (map chain_leaf cs)))
      (toHex (chain_root env (map chain_leaf cs @ [hexToBytes (sh_commitment (fn_note (mr_out p)))])))) pr s3 = (Inr txid, s2)"
    using append_then_relay [OF t _ r(3) [unfolded merge_post_def]] len by auto
  show ?thesis
  proof (rule posted_by_relay [OF m(2)])
    show "prefix (ss_events s2) (ss_events s')" by (rule growsD [OF grows_merge_record r(4)])
    show "ss_events s3 = ss_events s" using m(1) keeps_events [OF keeps_prepare(3) r(1)] by simp
    show "rf_proofEngine cfg = Some (mr_engine p)" using merge_plan [OF r(1)] by simp
    show "engine_proves (mr_engine p) (mergeInputs (mr_witness p)) pr" using r(2) by (auto simp: engine_proves_def)
  qed (rule merge_plan_posts [OF r(1) P feed C])
qed

lemma withdraw_spend_posts:
  assumes run: "withdraw env cfg n to s = (Inr x, s')" and P: "poseidon_field (ce_poseidon env)"
    and feed: "api_getCommitments (ce_api env) (ss_api s) = Inr cs" "list_all (\<lambda>c. canonical (chain_leaf c)) cs"
    and C: "digest32 (client_crypto env)" "nonzero_principals (client_crypto env)" and a: "is_field (sh_amount n)"
  shows "spend_posts env cfg s s'"
proof -
  obtain p s1 pr txid s2 s3 where r: "withdraw_prepare env cfg n to s = (Inr p, s1)"
    "pe_proveWithdraw (wp_engine p) (wp_witness p) = Inr pr" "relay_submit env cfg ''withdraw'' (withdraw_params n p) pr s1 = (Inr txid, s2)"
    "consume env n s2 = (Inr (), s3)" "s3 = s'"
    using run unfolding withdraw_def op_bind_Inr op_lift_run by (auto simp: op_return_def)
  show ?thesis
  proof (rule posted_by_relay [OF r(3)])
    show "prefix (ss_events s2) (ss_events s')" using growsD [OF grows_consume r(4)] r(5) by simp
    show "ss_events s1 = ss_events s" by (rule keeps_events [OF keeps_prepare(4) r(1)])
    show "rf_proofEngine cfg = Some (wp_engine p)" using withdraw_plan [OF r(1)] by simp
    show "engine_proves (wp_engine p) (withdrawInputs (wp_witness p)) pr" using r(2) by (auto simp: engine_proves_def)
  qed (rule withdraw_plan_posts [OF r(1) P feed C a])
qed

section \<open>Properties\<close>

text \<open>C1: Every spend posts the statement its proof proves. If a transfer, split, merge or withdrawal returns, native or
  SIP-10, the engine proved some inputs, zkVerify aggregated that proof, and one request with that inclusion went out
  first, whose fields hash, as the contracts hash them, to the hash of the public inputs of the proof. The
  commitments of the API have to be canonical and no principal may hash to zero.\<close>

theorem spend_posts_what_it_proves:
  assumes run: "run_spend env cfg sp s = (Inr u, s')" and P: "poseidon_field (ce_poseidon env)"
    and feed: "api_getCommitments (ce_api env) (ss_api s) = Inr cs" "list_all (\<lambda>c. canonical (chain_leaf c)) cs"
    and C: "digest32 (client_crypto env)" "nonzero_principals (client_crypto env)"
    and a: "list_all (\<lambda>n. is_field (sh_amount n)) (spend_inputs sp)"
  shows "\<exists>engine ci pr inc operation params txid.
    rf_proofEngine cfg = Some engine \<and> engine_proves engine ci pr \<and> zk_submit (ce_zk env) (rf_zkVerify cfg) pr = Inr inc
    \<and> prefix (ss_events s @ [Relayed operation (relay_body params inc) txid]) (ss_events s')
    \<and> posts_proved (client_crypto env) operation (relay_body params inc) ci"
proof -
  have "spend_posts env cfg s s'"
  proof (cases sp)
    case (SpTransfer x to ref)
    then show ?thesis using run transfer_spend_posts [OF _ P feed C] by (auto simp: op_bind_Inr)
  next
    case (SpSplit n as)
    then show ?thesis using run split_spend_posts [OF _ P feed C] by (auto simp: op_bind_Inr)
  next
    case (SpMerge ns)
    then show ?thesis using run merge_spend_posts [OF _ P feed C] by (auto simp: op_bind_Inr)
  next
    case (SpWithdraw n to)
    then show ?thesis using run a withdraw_spend_posts [OF _ P feed C] by (auto simp: op_bind_Inr)
  qed
  then show ?thesis unfolding spend_posts_def .
qed

lemma demo_nonzero: "nonzero_principals (client_crypto demo_env)"
  using demo_digest_positive by (simp add: nonzero_principals_def demo_principal bytesToBig_val)

lemma spend_posts_what_it_proves_witness:
  "\<exists>u s' ci operation params inc txid.
     run_spend demo_env demo_cfg (SpSplit demo_held [AmountBig 500000, AmountBig 1500000]) demo_start = (Inr u, s')
     \<and> prefix (ss_events demo_start @ [Relayed operation (relay_body params inc) txid]) (ss_events s')
     \<and> posts_proved (client_crypto demo_env) operation (relay_body params inc) ci"
proof -
  obtain u s' where r: "run_spend demo_env demo_cfg (SpSplit demo_held [AmountBig 500000, AmountBig 1500000]) demo_start = (Inr u, s')"
    using runs_split unfolding op_runs_def by (auto simp: op_bind_def)
  have P: "poseidon_field (ce_poseidon demo_env)" using demo_hash_field by (simp add: demo_env_def)
  have a: "list_all (\<lambda>n. is_field (sh_amount n)) (spend_inputs (SpSplit demo_held [AmountBig 500000, AmountBig 1500000]))"
    by (simp add: demo_held_amount is_field_def BN254_FIELD_MODULUS_def)
  show ?thesis using spend_posts_what_it_proves [OF r P demo_leaves demo_digest32 demo_nonzero a] r by blast
qed

end
