(* ===== verification/ZkProofs.thy ===== *)
theory ZkProofs
  imports Attestation Json
begin

text \<open>
  Proving on the committee's side: the UltraHonk prover (\<open>zk/barretenberg/proving/prover.ts\<close>), the local
  verifier over it, the records of verification keys, and under \<open>zk/proofs\<close> the generator, the wire form and the
  check before submission. A compiled program is a value of any type; what the packages \<open>noir_js\<close> and
  \<open>bb.js\<close> answer for it is a record of functions. A prover keeps whether its instances exist and the hash of
  its key once that was derived.
\<close>

section \<open>The prover\<close>

record 'c zk_backend =
  zb_execute :: "'c \<Rightarrow> json \<Rightarrow> (string, bytes) result"
  zb_generateProof :: "'c \<Rightarrow> bytes \<Rightarrow> (string, bytes \<times> string list) result"
  zb_verificationKey :: "'c \<Rightarrow> (string, bytes) result"
  zb_verifyProof :: "'c \<Rightarrow> bytes \<Rightarrow> string list \<Rightarrow> (string, bool) result"

record 'c circuit_artifact =
  ca_proofType :: int
  ca_circuitVersion :: int
  ca_program :: 'c

record 'c prover =
  pv_artifact :: "'c circuit_artifact"
  pv_ready :: bool
  pv_vkeyHash :: "bytes option"

definition loadArtifact :: "int \<Rightarrow> int \<Rightarrow> 'c option \<Rightarrow> (js_error, 'c circuit_artifact) result" where
  "loadArtifact proofType circuitVersion programJson =
     (case programJson of
        None \<Rightarrow> Inl (JsError ''NO_ARTIFACT'')
      | Some p \<Rightarrow> Inr \<lparr>ca_proofType = proofType, ca_circuitVersion = circuitVersion, ca_program = p\<rparr>)"

definition new_UltraHonkProver :: "'c circuit_artifact \<Rightarrow> 'c prover" where
  "new_UltraHonkProver a = \<lparr>pv_artifact = a, pv_ready = False, pv_vkeyHash = None\<rparr>"

definition prover_init :: "'c prover \<Rightarrow> 'c prover" where
  "prover_init pv = pv\<lparr>pv_ready := True\<rparr>"

definition package :: "(string, 'a) result \<Rightarrow> (js_error, 'a) result" where
  "package r = (case r of Inl e \<Rightarrow> Inl (JsError e) | Inr a \<Rightarrow> Inr a)"

definition prover_vkeyHash ::
  "'a crypto_scheme \<Rightarrow> 'c zk_backend \<Rightarrow> 'c prover \<Rightarrow> (js_error, bytes) result \<times> 'c prover" where
  "prover_vkeyHash C B pv =
     (case pv_vkeyHash pv of
        Some h \<Rightarrow> (Inr h, pv)
      | None \<Rightarrow>
          (let pv1 = prover_init pv in
           case package (zb_verificationKey B (ca_program (pv_artifact pv1))) of
             Inl e \<Rightarrow> (Inl e, pv1)
           | Inr vk \<Rightarrow> (Inr (sha256 C vk), pv1\<lparr>pv_vkeyHash := Some (sha256 C vk)\<rparr>)))"

record prove_result =
  pr_proof :: bytes
  pr_publicInputs :: "string list"
  pr_vkeyHash :: bytes

definition prover_prove ::
  "'a crypto_scheme \<Rightarrow> 'c zk_backend \<Rightarrow> 'c prover \<Rightarrow> json \<Rightarrow> (js_error, prove_result) result \<times> 'c prover" where
  "prover_prove C B pv inputs =
     (let pv1 = prover_init pv; program = ca_program (pv_artifact pv1) in
      case rbind (package (zb_execute B program inputs)) (\<lambda>w. package (zb_generateProof B program w)) of
        Inl e \<Rightarrow> (Inl e, pv1)
      | Inr (proof, publicInputs) \<Rightarrow>
          (case prover_vkeyHash C B pv1 of
             (Inl e, pv2) \<Rightarrow> (Inl e, pv2)
           | (Inr h, pv2) \<Rightarrow> (Inr \<lparr>pr_proof = proof, pr_publicInputs = publicInputs, pr_vkeyHash = h\<rparr>, pv2)))"

definition prover_verify ::
  "'c zk_backend \<Rightarrow> 'c prover \<Rightarrow> bytes \<Rightarrow> string list \<Rightarrow> (js_error, bool) result \<times> 'c prover" where
  "prover_verify B pv proof publicInputs =
     (let pv1 = prover_init pv
      in (package (zb_verifyProof B (ca_program (pv_artifact pv1)) proof publicInputs), pv1))"

definition prover_proofLength ::
  "'a crypto_scheme \<Rightarrow> 'c zk_backend \<Rightarrow> 'c prover \<Rightarrow> json \<Rightarrow> (js_error, nat) result \<times> 'c prover" where
  "prover_proofLength C B pv sample =
     (case prover_prove C B pv sample of
        (Inl e, pv1) \<Rightarrow> (Inl e, pv1)
      | (Inr r, pv1) \<Rightarrow> (Inr (length (pr_proof r)), pv1))"

text \<open>The local verifier is a prover seen through its \<open>verify\<close> and \<open>vkeyHash\<close>.\<close>

definition verifier_verify ::
  "'c zk_backend \<Rightarrow> 'c prover \<Rightarrow> bytes \<Rightarrow> string list \<Rightarrow> (js_error, bool) result \<times> 'c prover" where
  "verifier_verify B v proof publicInputs = prover_verify B v proof publicInputs"

definition verifier_vkeyHash :: "'a crypto_scheme \<Rightarrow> 'c zk_backend \<Rightarrow> 'c prover \<Rightarrow> (js_error, bytes) result \<times> 'c prover" where
  "verifier_vkeyHash C B v = prover_vkeyHash C B v"

record barretenberg_config =
  bc_threads :: nat
  bc_flavor :: string
  bc_crsPath :: "string option"
  bc_memoryLimitMb :: nat

definition PRODUCTION_CONFIG :: barretenberg_config where
  "PRODUCTION_CONFIG = \<lparr>bc_threads = 0, bc_flavor = ''ultra_keccak_honk'', bc_crsPath = None, bc_memoryLimitMb = 4096\<rparr>"

definition TEST_CONFIG :: barretenberg_config where
  "TEST_CONFIG = \<lparr>bc_threads = 1, bc_flavor = ''ultra_keccak_honk'', bc_crsPath = None, bc_memoryLimitMb = 1024\<rparr>"

section \<open>Verification keys\<close>

record vkey_record =
  vr_proofType :: int
  vr_circuitVersion :: int
  vr_vkeyHashHex :: string
  vr_proofLength :: nat

definition CIRCUIT_PROOF_TYPES :: "(string \<times> int) list" where
  "CIRCUIT_PROOF_TYPES =
     [(''shield-note'', 1), (''transfer-note'', 2), (''withdraw-note'', 3), (''split-note'', 4), (''merge-note'', 5)]"

definition toVKeyRecord :: "'a crypto_scheme \<Rightarrow> int \<Rightarrow> int \<Rightarrow> bytes \<Rightarrow> nat \<Rightarrow> vkey_record" where
  "toVKeyRecord C proofType circuitVersion serializedVk proofLength =
     \<lparr>vr_proofType = proofType, vr_circuitVersion = circuitVersion,
      vr_vkeyHashHex = toHex (sha256 C serializedVk), vr_proofLength = proofLength\<rparr>"

section \<open>The generator\<close>

record generated_proof =
  gp_proofType :: int
  gp_circuitVersion :: int
  gp_proof :: bytes
  gp_publicInputs :: "string list"
  gp_publicInputsHash :: bytes
  gp_vkeyHash :: bytes
  gp_proofId :: bytes

record 'c generator =
  pg_provers :: "(int, 'c prover) jsmap"
  pg_circuitVersion :: int

definition generate ::
  "'a crypto_scheme \<Rightarrow> 'c zk_backend \<Rightarrow> int \<Rightarrow> json \<Rightarrow> bytes \<Rightarrow> 'c generator \<Rightarrow>
   (js_error, generated_proof) result \<times> 'c generator" where
  "generate C B proofType witness publicInputsHash g =
     (case jm_get (pg_provers g) proofType of
        None \<Rightarrow> (Inl (JsError ''NO_PROVER''), g)
      | Some pv \<Rightarrow>
          (let (r, pv1) = prover_prove C B pv witness; g1 = g\<lparr>pg_provers := jm_set proofType pv1 (pg_provers g)\<rparr> in
           (rbind r (\<lambda>p.
             rbind (attestationMessage C
               \<lparr>aq_proofType = proofType, aq_circuitVersion = pg_circuitVersion g, aq_vkeyHash = pr_vkeyHash p,
                aq_publicInputsHash = publicInputsHash, aq_proof = pr_proof p\<rparr>) (\<lambda>proofId.
             Inr \<lparr>gp_proofType = proofType, gp_circuitVersion = pg_circuitVersion g, gp_proof = pr_proof p,
                  gp_publicInputs = map add0x (pr_publicInputs p), gp_publicInputsHash = publicInputsHash,
                  gp_vkeyHash = pr_vkeyHash p, gp_proofId = proofId\<rparr>)), g1)))"

section \<open>The wire form\<close>

record serialized_proof =
  sz_proofType :: int
  sz_circuitVersion :: int
  sz_proof :: string
  sz_publicInputs :: "string list"
  sz_publicInputsHash :: string
  sz_vkeyHash :: string
  sz_proofId :: string

definition serializeProof :: "generated_proof \<Rightarrow> serialized_proof" where
  "serializeProof p =
     \<lparr>sz_proofType = gp_proofType p, sz_circuitVersion = gp_circuitVersion p, sz_proof = toHex (gp_proof p),
      sz_publicInputs = gp_publicInputs p, sz_publicInputsHash = toHex (gp_publicInputsHash p),
      sz_vkeyHash = toHex (gp_vkeyHash p), sz_proofId = toHex (gp_proofId p)\<rparr>"

definition deserializeProof :: "serialized_proof \<Rightarrow> generated_proof" where
  "deserializeProof s =
     \<lparr>gp_proofType = sz_proofType s, gp_circuitVersion = sz_circuitVersion s, gp_proof = node_fromHex (sz_proof s),
      gp_publicInputs = sz_publicInputs s, gp_publicInputsHash = node_fromHex (sz_publicInputsHash s),
      gp_vkeyHash = node_fromHex (sz_vkeyHash s), gp_proofId = node_fromHex (sz_proofId s)\<rparr>"

section \<open>The check before submission\<close>

record preflight_result =
  pf_ok :: bool
  pf_reason :: "string option"

definition preflightProof ::
  "'a crypto_scheme \<Rightarrow> 'c zk_backend \<Rightarrow> generated_proof \<Rightarrow> 'c prover \<Rightarrow> nat \<Rightarrow> (js_error, preflight_result) result" where
  "preflightProof C B p verifier expected =
     (if length (gp_proof p) \<noteq> expected
      then Inr \<lparr>pf_ok = False, pf_reason = Some (''proof length '' @ dec_of_nat (length (gp_proof p)) @ '' != '' @ dec_of_nat expected)\<rparr>
      else rbind (attestationMessage C
             \<lparr>aq_proofType = gp_proofType p, aq_circuitVersion = gp_circuitVersion p, aq_vkeyHash = gp_vkeyHash p,
              aq_publicInputsHash = gp_publicInputsHash p, aq_proof = gp_proof p\<rparr>) (\<lambda>proofId.
           if \<not> bytesEqual proofId (gp_proofId p) then Inr \<lparr>pf_ok = False, pf_reason = Some ''proof-id mismatch''\<rparr>
           else rbind (fst (verifier_verify B verifier (gp_proof p) (gp_publicInputs p))) (\<lambda>verified.
             if \<not> verified then Inr \<lparr>pf_ok = False, pf_reason = Some ''local UltraHonk verification failed''\<rparr>
             else Inr \<lparr>pf_ok = True, pf_reason = None\<rparr>)))"

section \<open>What holds of them\<close>

lemma package_Inr [simp]: "package r = Inr a \<longleftrightarrow> r = Inr a"
  by (simp add: package_def split: sum.split)

lemma deserialize_serialize: "deserializeProof (serializeProof p) = p"
  by (cases p) (simp add: deserializeProof_def serializeProof_def)

text \<open>A prover whose cached hash is that of its key.\<close>

definition prover_wf :: "'a crypto_scheme \<Rightarrow> 'c zk_backend \<Rightarrow> 'c prover \<Rightarrow> bool" where
  "prover_wf C B pv \<longleftrightarrow>
     (\<forall>h. pv_vkeyHash pv = Some h \<longrightarrow> pv_ready pv \<and> (\<exists>vk. zb_verificationKey B (ca_program (pv_artifact pv)) = Inr vk \<and> h = sha256 C vk))"

lemma prover_wf_new: "prover_wf C B (new_UltraHonkProver a)"
  by (simp add: prover_wf_def new_UltraHonkProver_def)

lemma prover_init_wf: "prover_wf C B pv \<Longrightarrow> prover_wf C B (prover_init pv) \<and> pv_artifact (prover_init pv) = pv_artifact pv"
  by (auto simp: prover_wf_def prover_init_def)

lemma prover_vkeyHash_wf:
  assumes "prover_vkeyHash C B pv = (r, pv')" "prover_wf C B pv"
  shows "prover_wf C B pv' \<and> pv_artifact pv' = pv_artifact pv
    \<and> (\<forall>h. r = Inr h \<longrightarrow> (\<exists>vk. zb_verificationKey B (ca_program (pv_artifact pv)) = Inr vk \<and> h = sha256 C vk))"
  using assms
  by (auto simp: prover_vkeyHash_def prover_wf_def prover_init_def Let_def split: option.splits sum.splits)

lemma prover_prove_Inr:
  assumes "prover_prove C B pv inputs = (Inr p, pv')" "prover_wf C B pv"
  obtains w vk where "zb_execute B (ca_program (pv_artifact pv)) inputs = Inr w"
    "zb_generateProof B (ca_program (pv_artifact pv)) w = Inr (pr_proof p, pr_publicInputs p)"
    "zb_verificationKey B (ca_program (pv_artifact pv)) = Inr vk" "pr_vkeyHash p = sha256 C vk"
    "prover_wf C B pv'" "pv_artifact pv' = pv_artifact pv"
proof -
  note i = prover_init_wf [OF assms(2)]
  obtain pbs pis h pv2 where r: "rbind (package (zb_execute B (ca_program (pv_artifact pv)) inputs))
      (\<lambda>w. package (zb_generateProof B (ca_program (pv_artifact pv)) w)) = Inr (pbs, pis)"
    "prover_vkeyHash C B (prover_init pv) = (Inr h, pv2)" "pv' = pv2"
    "p = \<lparr>pr_proof = pbs, pr_publicInputs = pis, pr_vkeyHash = h\<rparr>"
    using assms(1) i by (auto simp: prover_prove_def Let_def split: sum.splits prod.splits)
  obtain w where "zb_execute B (ca_program (pv_artifact pv)) inputs = Inr w"
    "zb_generateProof B (ca_program (pv_artifact pv)) w = Inr (pbs, pis)"
    using r(1) by (auto simp: rbind_Inr)
  then show ?thesis
    using that prover_vkeyHash_wf [OF r(2)] i r(3,4) by auto
qed

lemma generate_Inr:
  assumes "generate C B t w pih g = (Inr gp, g')" "jm_get (pg_provers g) t = Some pv" "prover_wf C B pv"
  obtains wit vk pis where "zb_execute B (ca_program (pv_artifact pv)) w = Inr wit"
    "zb_generateProof B (ca_program (pv_artifact pv)) wit = Inr (gp_proof gp, pis)" "gp_publicInputs gp = map add0x pis"
    "zb_verificationKey B (ca_program (pv_artifact pv)) = Inr vk" "gp_vkeyHash gp = sha256 C vk"
    "gp_proofType gp = t" "gp_circuitVersion gp = pg_circuitVersion g" "gp_publicInputsHash gp = pih"
    "attestationMessage C \<lparr>aq_proofType = t, aq_circuitVersion = pg_circuitVersion g, aq_vkeyHash = gp_vkeyHash gp,
        aq_publicInputsHash = pih, aq_proof = gp_proof gp\<rparr> = Inr (gp_proofId gp)"
proof -
  obtain p pv1 where r: "prover_prove C B pv w = (Inr p, pv1)"
    "attestationMessage C \<lparr>aq_proofType = t, aq_circuitVersion = pg_circuitVersion g, aq_vkeyHash = pr_vkeyHash p,
        aq_publicInputsHash = pih, aq_proof = pr_proof p\<rparr> = Inr (gp_proofId gp)"
    "gp = \<lparr>gp_proofType = t, gp_circuitVersion = pg_circuitVersion g, gp_proof = pr_proof p,
           gp_publicInputs = map add0x (pr_publicInputs p), gp_publicInputsHash = pih,
           gp_vkeyHash = pr_vkeyHash p, gp_proofId = gp_proofId gp\<rparr>"
    using assms(1,2) by (auto simp: generate_def Let_def rbind_Inr split: prod.splits)
  have f: "gp_proof gp = pr_proof p" "gp_publicInputs gp = map add0x (pr_publicInputs p)" "gp_vkeyHash gp = pr_vkeyHash p"
    "gp_proofType gp = t" "gp_circuitVersion gp = pg_circuitVersion g" "gp_publicInputsHash gp = pih"
    by (subst r(3), simp)+
  obtain wit vk where w: "zb_execute B (ca_program (pv_artifact pv)) w = Inr wit"
    "zb_generateProof B (ca_program (pv_artifact pv)) wit = Inr (pr_proof p, pr_publicInputs p)"
    "zb_verificationKey B (ca_program (pv_artifact pv)) = Inr vk" "pr_vkeyHash p = sha256 C vk"
    by (rule prover_prove_Inr [OF r(1) assms(3)])
  show ?thesis
    by (rule that [OF w(1)]) (use w f r(2) in simp_all)
qed

section \<open>Properties\<close>

text \<open>A generated proof survives its way to the submitting wallet: what the generator makes, written to the wire and
  read back, passes the check before submission against the prover's own length, provided the backend
  verifies the proofs it makes with the public inputs the generator publishes (those with a 0x prefix).\<close>

theorem generated_proof_passes_preflight:
  assumes "generate C B t w pih g = (Inr gp, g')" "jm_get (pg_provers g) t = Some pv" "prover_wf C B pv"
    and "\<And>wit pbs pis. zb_generateProof B (ca_program (pv_artifact pv)) wit = Inr (pbs, pis) \<Longrightarrow>
           list_all (prefix ''0x'') pis \<and> zb_verifyProof B (ca_program (pv_artifact pv)) pbs pis = Inr True"
    and "length (gp_proof gp) = n"
  shows "preflightProof C B (deserializeProof (serializeProof gp)) pv n = Inr \<lparr>pf_ok = True, pf_reason = None\<rparr>"
proof -
  obtain wit pis where g: "zb_generateProof B (ca_program (pv_artifact pv)) wit = Inr (gp_proof gp, pis)" "gp_publicInputs gp = map add0x pis"
    "gp_proofType gp = t" "gp_circuitVersion gp = pg_circuitVersion g" "gp_publicInputsHash gp = pih"
    "attestationMessage C \<lparr>aq_proofType = t, aq_circuitVersion = pg_circuitVersion g, aq_vkeyHash = gp_vkeyHash gp,
        aq_publicInputsHash = pih, aq_proof = gp_proof gp\<rparr> = Inr (gp_proofId gp)"
    by (rule generate_Inr [OF assms(1-3)])
  have v: "list_all (prefix ''0x'') pis" "zb_verifyProof B (ca_program (pv_artifact pv)) (gp_proof gp) pis = Inr True"
    using assms(4) [OF g(1)] by simp_all
  have "map add0x pis = pis" using v(1) by (induction pis) (simp_all add: add0x_def)
  then show ?thesis
    using g v(2) assms(5) prover_init_wf [OF assms(3)]
    by (simp add: deserialize_serialize preflightProof_def prover_verify_def verifier_verify_def Let_def package_def)
qed

text \<open>The message whose sha256 is the id of a proof.\<close>

definition proof_cv :: "'a crypto_scheme \<Rightarrow> generated_proof \<Rightarrow> clarity_value" where
  "proof_cv C p = CvTuple
     [(''domain'', CvStringAscii ATTESTATION_DOMAIN), (''proof-type'', CvUInt (gp_proofType p)),
      (''circuit-version'', CvUInt (gp_circuitVersion p)), (''vkey-hash'', CvBuffer (gp_vkeyHash p)),
      (''public-inputs-hash'', CvBuffer (gp_publicInputsHash p)), (''proof-hash'', CvBuffer (sha256 C (gp_proof p)))]"

lemma preflight_ok:
  assumes "preflightProof C B p v n = Inr r" "pf_ok r"
  obtains b where "serializeCV C (proof_cv C p) = Inr b" "gp_proofId p = sha256 C b" "length (gp_proof p) = n"
    "zb_verifyProof B (ca_program (pv_artifact v)) (gp_proof p) (gp_publicInputs p) = Inr True"
  using assms
  by (auto simp: preflightProof_def attestationMessage_def proof_cv_def rbind_Inr prover_verify_def verifier_verify_def prover_init_def Let_def split: if_splits)

text \<open>The check before submission binds: two proofs that pass it with the same proof id have the same type, circuit
  version, verification key hash and public-inputs hash and the same proof bytes, or sha256 maps their two
  different proofs or serialised messages to one digest, or the package serialises their two different messages alike.\<close>

theorem preflight_binds_statement:
  assumes "preflightProof C B p v n = Inr r" "pf_ok r" "preflightProof C B p' v' n' = Inr r'" "pf_ok r'"
    and "gp_proofId p = gp_proofId p'"
  shows "(gp_proofType p = gp_proofType p' \<and> gp_circuitVersion p = gp_circuitVersion p' \<and> gp_vkeyHash p = gp_vkeyHash p'
      \<and> gp_publicInputsHash p = gp_publicInputsHash p' \<and> gp_proof p = gp_proof p')
    \<or> clash (sha256 C) (gp_proof p) (gp_proof p') \<or> clash (serializeCV C) (proof_cv C p) (proof_cv C p')
    \<or> (\<exists>b b'. serializeCV C (proof_cv C p) = Inr b \<and> serializeCV C (proof_cv C p') = Inr b' \<and> clash (sha256 C) b b')"
proof -
  obtain b b' where b: "serializeCV C (proof_cv C p) = Inr b" "serializeCV C (proof_cv C p') = Inr b'" "sha256 C b = sha256 C b'"
    using preflight_ok [OF assms(1,2)] preflight_ok [OF assms(3,4)] assms(5) by metis
  show ?thesis
  proof (cases "b = b' \<and> proof_cv C p = proof_cv C p'")
    case True
    then show ?thesis using clashI [of "sha256 C" "gp_proof p" "gp_proof p'"] by (auto simp: proof_cv_def)
  next
    case False
    then show ?thesis using b by (auto simp: clash_def)
  qed
qed

section \<open>A concrete prover\<close>

definition demo_backend :: "nat zk_backend" where
  "demo_backend = \<lparr>zb_execute = (\<lambda>c j. Inr [1]), zb_generateProof = (\<lambda>c w. Inr ([4, 5], [''0x01''])),
     zb_verificationKey = (\<lambda>c. Inr [9]), zb_verifyProof = (\<lambda>c p i. Inr (p = [4, 5] \<and> i = [''0x01'']))\<rparr>"

definition demo_prover :: "nat prover" where
  "demo_prover = new_UltraHonkProver \<lparr>ca_proofType = 4, ca_circuitVersion = 2, ca_program = 0\<rparr>"

definition demo_generator :: "nat generator" where
  "demo_generator = \<lparr>pg_provers = [(4, demo_prover)], pg_circuitVersion = 2\<rparr>"

lemma demo_generated:
  "\<exists>gp g'. generate plain_crypto demo_backend 4 JNull [7] demo_generator = (Inr gp, g') \<and> gp_proof gp = [4, 5]"
  by (simp add: generate_def demo_generator_def prover_prove_def demo_prover_def new_UltraHonkProver_def prover_init_def
      prover_vkeyHash_def demo_backend_def plain_crypto_def attestationMessage_def package_def Let_def)

lemma generated_proof_passes_preflight_witness:
  "\<exists>gp g'. generate plain_crypto demo_backend 4 JNull [7] demo_generator = (Inr gp, g')
     \<and> preflightProof plain_crypto demo_backend (deserializeProof (serializeProof gp)) demo_prover 2 = Inr \<lparr>pf_ok = True, pf_reason = None\<rparr>"
proof -
  obtain gp g' where g: "generate plain_crypto demo_backend 4 JNull [7] demo_generator = (Inr gp, g')" "gp_proof gp = [4, 5]"
    using demo_generated by blast
  have "jm_get (pg_provers demo_generator) 4 = Some demo_prover" by (simp add: demo_generator_def)
  from generated_proof_passes_preflight [OF g(1) this, of 2] g show ?thesis
    using prover_wf_new [of plain_crypto demo_backend] by (simp add: demo_backend_def demo_prover_def)
qed

text \<open>With a serialiser that maps everything to the same bytes, two proofs with one id do not say the same.\<close>

definition demo_gp :: "bytes \<Rightarrow> generated_proof" where
  "demo_gp pih = \<lparr>gp_proofType = 4, gp_circuitVersion = 2, gp_proof = [4, 5], gp_publicInputs = [''0x01''],
     gp_publicInputsHash = pih, gp_vkeyHash = [9], gp_proofId = replicate 32 7\<rparr>"

lemma demo_preflight: "preflightProof plain_crypto demo_backend (demo_gp pih) demo_prover 2 = Inr \<lparr>pf_ok = True, pf_reason = None\<rparr>"
  by (simp add: preflightProof_def demo_gp_def attestationMessage_def plain_crypto_def prover_verify_def verifier_verify_def demo_backend_def
      package_def Let_def)

lemma preflight_binds_statement_witness:
  "preflightProof plain_crypto demo_backend (demo_gp [7]) demo_prover 2 = Inr \<lparr>pf_ok = True, pf_reason = None\<rparr>
    \<and> preflightProof plain_crypto demo_backend (demo_gp [8]) demo_prover 2 = Inr \<lparr>pf_ok = True, pf_reason = None\<rparr>
    \<and> clash (serializeCV plain_crypto) (proof_cv plain_crypto (demo_gp [7])) (proof_cv plain_crypto (demo_gp [8]))"
proof -
  have "\<not> clash (sha256 plain_crypto) b b'"
    if "serializeCV plain_crypto (proof_cv plain_crypto (demo_gp [7])) = Inr b" "serializeCV plain_crypto (proof_cv plain_crypto (demo_gp [8])) = Inr b'"
    for b b' using that by (simp add: plain_crypto_def clash_def)
  then show ?thesis
    using preflight_binds_statement [OF demo_preflight [of "[7]"] _ demo_preflight [of "[8]"]] demo_preflight
    by (auto simp: demo_gp_def clash_def)
qed

end
