(* ===== verification/ShieldSdk.thy ===== *)
theory ShieldSdk
  imports Circuits ZkProofs RootsTree SdkTx
begin

text \<open>
  The older client of the SDK, \<open>ShieldClient\<close> of \<open>sdk/index.ts\<close>, with the witnesses of \<open>sdk/witness/index.ts\<close>:
  split and merge from notes in the wallet over the local roots tree, the prover, the attestation committee and
  the transaction builder, retried while the root is stale. What is drawn at random is a function of the
  attempt and of the position of the draw; the replies of the committee and of the registry are functions.
  The provers' caches do not change what they answer, so each attempt starts from the same ones.
\<close>

section \<open>Witnesses\<close>

definition leafField :: "shielded_note \<Rightarrow> (js_error, int) result" where
  "leafField n = bytes32ToField (n_commitment n)"

definition noteWitness :: "shielded_note \<Rightarrow> json" where
  "noteWitness n = JObj
     [(''amount'', jfield (n_amount n)), (''owner_pk_x'', jfield (n_ownerPkX n)), (''owner_pk_y'', jfield (n_ownerPkY n)),
      (''blinding'', jfield (n_blinding n))]"

definition pathFields :: "merkle_path \<Rightarrow> (js_error, json \<times> json) result" where
  "pathFields p =
     rbind (rmap bytes32ToField (pa_siblings p)) (\<lambda>ss.
       Inr (JArr (map (\<lambda>b. JStr (dec_of_nat b)) (pa_indexBits p)), JArr (map jfield ss)))"

record split_witness_args =
  sw_input :: shielded_note
  sw_path :: merkle_path
  sw_out1 :: shielded_note
  sw_out2 :: shielded_note
  sw_circuitVersion :: int

definition splitWitness :: "split_witness_args \<Rightarrow> (js_error, (string \<times> json) list) result" where
  "splitWitness a =
     rbind (pathFields (sw_path a)) (\<lambda>(index, siblings).
     rbind (leafField (sw_input a)) (\<lambda>oldNote.
     rbind (bytes32ToField (n_commitment (sw_input a))) (\<lambda>nullifier.
     rbind (leafField (sw_out1 a)) (\<lambda>c1.
     rbind (bytes32ToField (n_ownerCommitment (sw_out1 a))) (\<lambda>oc1.
     rbind (leafField (sw_out2 a)) (\<lambda>c2.
     rbind (bytes32ToField (n_ownerCommitment (sw_out2 a))) (\<lambda>oc2.
     rbind (bytes32ToField (pa_root (sw_path a))) (\<lambda>r.
       Inr [(''op'', jfield 4), (''old_note'', jfield oldNote), (''nullifier'', jfield nullifier), (''commitment_1'', jfield c1),
            (''owner_commitment_1'', jfield oc1), (''commitment_2'', jfield c2), (''owner_commitment_2'', jfield oc2),
            (''merkle_root'', jfield r), (''circuit_version'', jfield (sw_circuitVersion a)),
            (''input'', noteWitness (sw_input a)), (''owner_sk'', jfield (n_ownerSk (sw_input a))),
            (''merkle_index'', index), (''merkle_siblings'', siblings),
            (''out_1'', noteWitness (sw_out1 a)), (''out_2'', noteWitness (sw_out2 a))]))))))))"

record merge_witness_args =
  gm_input1 :: shielded_note
  gm_path1 :: merkle_path
  gm_input2 :: shielded_note
  gm_path2 :: merkle_path
  gm_output :: shielded_note
  gm_circuitVersion :: int

definition mergeWitness :: "merge_witness_args \<Rightarrow> (js_error, (string \<times> json) list) result" where
  "mergeWitness a =
     rbind (pathFields (gm_path1 a)) (\<lambda>(index1, siblings1).
     rbind (pathFields (gm_path2 a)) (\<lambda>(index2, siblings2).
     rbind (leafField (gm_input1 a)) (\<lambda>o1.
     rbind (leafField (gm_input2 a)) (\<lambda>o2.
     rbind (leafField (gm_output a)) (\<lambda>c.
     rbind (bytes32ToField (n_ownerCommitment (gm_output a))) (\<lambda>oc.
     rbind (bytes32ToField (pa_root (gm_path1 a))) (\<lambda>r.
       Inr [(''op'', jfield 5), (''old_note_1'', jfield o1), (''old_note_2'', jfield o2), (''commitment'', jfield c),
            (''owner_commitment'', jfield oc), (''merkle_root'', jfield r), (''circuit_version'', jfield (gm_circuitVersion a)),
            (''input_1'', noteWitness (gm_input1 a)), (''owner_sk_1'', jfield (n_ownerSk (gm_input1 a))),
            (''merkle_index_1'', index1), (''merkle_siblings_1'', siblings1),
            (''input_2'', noteWitness (gm_input2 a)), (''owner_sk_2'', jfield (n_ownerSk (gm_input2 a))),
            (''merkle_index_2'', index2), (''merkle_siblings_2'', siblings2), (''output'', noteWitness (gm_output a))])))))))"

section \<open>The client\<close>

record ('a, 'c) shield_deps =
  sd_crypto :: "'a signing_scheme"
  sd_poseidon :: poseidon
  sd_backend :: "'c zk_backend"
  sd_mk :: "clarity_value \<Rightarrow> cv_result"
  sd_contracts :: sdk_contracts
  sd_tree :: roots_tree
  sd_fetchRoot :: "nat \<Rightarrow> (retry_error, string) result"
  sd_attestations :: attestation_client
  sd_replies :: "attestor_endpoint \<Rightarrow> attest_reply"
  sd_provers :: "(int, 'c prover) jsmap"
  sd_circuitVersion :: int
  sd_feeConfigs :: "(int, fee_config) jsmap"
  sd_maxFeeBps :: int
  sd_randomField :: "nat \<Rightarrow> nat \<Rightarrow> int"

record operation_result =
  or_call :: sdk_call
  or_proofId :: bytes
  or_newNotes :: "shielded_note list"
  or_newRoot :: bytes

definition client_prover :: "('a, 'c) shield_deps \<Rightarrow> int \<Rightarrow> (js_error, 'c prover) result" where
  "client_prover D t = (case jm_get (sd_provers D) t of None \<Rightarrow> Inl (JsError ''NO_PROVER'') | Some p \<Rightarrow> Inr p)"

definition randomMetadata :: "('a, 'c) shield_deps \<Rightarrow> nat \<Rightarrow> nat \<Rightarrow> bytes" where
  "randomMetadata D k i = fieldToBytes32 (sd_randomField D k i)"

text \<open>
  The builder gets no \<open>inclusion\<close> from this client, and \<open>inclusionArgs\<close> reads a property of \<open>undefined\<close>; the arguments
  before it are built first.
\<close>

definition from_builder :: "(relay_error, 'b) result \<Rightarrow> (js_error, 'b) result" where
  "from_builder r = (case r of Inr b \<Rightarrow> Inr b
                     | Inl (OtherError m) \<Rightarrow> Inl (JsError m) | Inl (RelayError c m st) \<Rightarrow> Inl (JsError m))"

definition call_without_inclusion :: "(clarity_value \<Rightarrow> cv_result) \<Rightarrow> string \<Rightarrow> string \<Rightarrow> bytes list \<Rightarrow> (js_error, sdk_call) result" where
  "call_without_inclusion mk cid fn bs =
     rbind (from_builder (rmap (cl_buffer mk) bs)) (\<lambda>_. Inl TypeError)"

record older_split_request =
  cs_inputNote :: shielded_note
  cs_inputLeafIndex :: int
  cs_amount1 :: int
  cs_amount2 :: int
  cs_recipient1 :: owner_key
  cs_recipient2 :: owner_key

definition prove_and_attest ::
  "('a, 'c) shield_deps \<Rightarrow> int \<Rightarrow> (string \<times> json) list \<Rightarrow> (js_error, bytes) result \<Rightarrow> (js_error, bytes) result" where
  "prove_and_attest D t wit publicInputsHash =
     rbind (client_prover D t) (\<lambda>pv.
     rbind (fst (prover_prove (sd_crypto D) (sd_backend D) pv (JObj wit))) (\<lambda>p.
     rbind publicInputsHash (\<lambda>pih.
     let req = \<lparr>aq_proofType = t, aq_circuitVersion = sd_circuitVersion D, aq_vkeyHash = pr_vkeyHash p,
                aq_publicInputsHash = pih, aq_proof = pr_proof p\<rparr> in
     rbind (collect (sd_crypto D) (sd_replies D) req (sd_attestations D)) (\<lambda>_.
       attestationMessage (sd_crypto D) req))))"

definition split_build ::
  "('a, 'c) shield_deps \<Rightarrow> older_split_request \<Rightarrow> nat \<Rightarrow> bytes \<Rightarrow> (js_error, operation_result) result" where
  "split_build D q k currentRoot =
     (let n = cs_inputNote q in
      rbind (createNote (sd_poseidon D) (cs_amount1 q) (cs_recipient1 q) (sd_randomField D k 0)) (\<lambda>out1.
      rbind (createNote (sd_poseidon D) (cs_amount2 q) (cs_recipient2 q) (sd_randomField D k 1)) (\<lambda>out2.
      rbind (computeNullifier (sd_poseidon D) n) (\<lambda>nullifier.
      rbind (rt_proof (cs_inputLeafIndex q) (sd_tree D)) (\<lambda>path.
      rbind (projectRoot (poseidon2 (sd_poseidon D)) [n_commitment out1, n_commitment out2] (sd_tree D)) (\<lambda>projected.
      rbind (splitWitness \<lparr>sw_input = n, sw_path = path, sw_out1 = out1, sw_out2 = out2, sw_circuitVersion = sd_circuitVersion D\<rparr>) (\<lambda>wit.
      rbind (prove_and_attest D 4 (jm_set ''nullifier'' (JStr (toHex nullifier)) wit)
               (splitInputsHash (crypto.truncate (sd_crypto D))
                  \<lparr>spt_oldNote = n_commitment n, spt_nullifier = nullifier, spt_commitment1 = n_commitment out1,
                   spt_ownerCommitment1 = n_ownerCommitment out1, spt_metadata1 = randomMetadata D k 2,
                   spt_commitment2 = n_commitment out2, spt_ownerCommitment2 = n_ownerCommitment out2,
                   spt_metadata2 = randomMetadata D k 3, spt_currentRoot = currentRoot, spt_newRoot = projected\<rparr>)) (\<lambda>proofId.
      rbind (call_without_inclusion (sd_mk D) (sx_splitMerge (sd_contracts D)) ''split-note''
               [nullifier, n_commitment out1, n_ownerCommitment out1, randomMetadata D k 2, n_commitment out2, n_ownerCommitment out2,
                randomMetadata D k 3, currentRoot, projected]) (\<lambda>call.
        Inr \<lparr>or_call = call, or_proofId = proofId, or_newNotes = [out1, out2], or_newRoot = projected\<rparr>)))))))))"

record older_merge_request =
  cm_inputNote1 :: shielded_note
  cm_inputLeafIndex1 :: int
  cm_inputNote2 :: shielded_note
  cm_inputLeafIndex2 :: int
  cm_recipient :: owner_key

definition merge_build ::
  "('a, 'c) shield_deps \<Rightarrow> older_merge_request \<Rightarrow> nat \<Rightarrow> bytes \<Rightarrow> (js_error, operation_result) result" where
  "merge_build D q k currentRoot =
     (let n1 = cm_inputNote1 q; n2 = cm_inputNote2 q in
      rbind (createNote (sd_poseidon D) (n_amount n1 + n_amount n2) (cm_recipient q) (sd_randomField D k 0)) (\<lambda>out.
      rbind (computeNullifier (sd_poseidon D) n1) (\<lambda>nf1.
      rbind (computeNullifier (sd_poseidon D) n2) (\<lambda>nf2.
      rbind (rt_proof (cm_inputLeafIndex1 q) (sd_tree D)) (\<lambda>path1.
      rbind (rt_proof (cm_inputLeafIndex2 q) (sd_tree D)) (\<lambda>path2.
      rbind (projectRoot (poseidon2 (sd_poseidon D)) [n_commitment out] (sd_tree D)) (\<lambda>projected.
      rbind (mergeWitness \<lparr>gm_input1 = n1, gm_path1 = path1, gm_input2 = n2, gm_path2 = path2, gm_output = out,
                           gm_circuitVersion = sd_circuitVersion D\<rparr>) (\<lambda>wit.
      rbind (prove_and_attest D 5 (jm_set ''nullifier_2'' (JStr (toHex nf2)) (jm_set ''nullifier_1'' (JStr (toHex nf1)) wit))
               (mergeInputsHash (crypto.truncate (sd_crypto D))
                  \<lparr>mgt_oldNote1 = n_commitment n1, mgt_nullifier1 = nf1, mgt_oldNote2 = n_commitment n2, mgt_nullifier2 = nf2,
                   mgt_commitment = n_commitment out, mgt_ownerCommitment = n_ownerCommitment out,
                   mgt_metadata = randomMetadata D k 1, mgt_currentRoot = currentRoot, mgt_newRoot = projected\<rparr>)) (\<lambda>proofId.
      rbind (call_without_inclusion (sd_mk D) (sx_splitMerge (sd_contracts D)) ''merge-notes''
               [nf1, nf2, n_commitment out, n_ownerCommitment out, randomMetadata D k 1, currentRoot, projected]) (\<lambda>call.
        Inr \<lparr>or_call = call, or_proofId = proofId, or_newNotes = [out], or_newRoot = projected\<rparr>))))))))))"

text \<open>An error of a build has no numeric code; \<open>submit\<close> hands out what was built.\<close>

definition build_error :: "js_error \<Rightarrow> retry_error" where
  "build_error e = Thrown None (case e of JsError m \<Rightarrow> m | TypeError \<Rightarrow> ''TypeError'' | RangeError \<Rightarrow> ''RangeError''
                                | SyntaxError \<Rightarrow> ''SyntaxError'')"

definition with_root_retries ::
  "('a, 'c) shield_deps \<Rightarrow> (nat \<Rightarrow> bytes \<Rightarrow> (js_error, operation_result) result) \<Rightarrow>
   (retry_error, operation_result) result \<times> retry_event list" where
  "with_root_retries D build =
     retryRootUpdates (sd_fetchRoot D)
       (\<lambda>k r. case build k r of Inl e \<Rightarrow> Inl (build_error e) | Inr _ \<Rightarrow> Inr ())
       (\<lambda>k r. case build k r of Inl e \<Rightarrow> Inl (None, '''') | Inr res \<Rightarrow> Inr res) 5"

definition client_split ::
  "('a, 'c) shield_deps \<Rightarrow> older_split_request \<Rightarrow> (retry_error, operation_result) result \<times> retry_event list" where
  "client_split D q =
     (if cs_amount1 q + cs_amount2 q \<noteq> n_amount (cs_inputNote q) then (Inl (Thrown None ''VALUE_MISMATCH''), [])
      else with_root_retries D (split_build D q))"

definition client_merge ::
  "('a, 'c) shield_deps \<Rightarrow> older_merge_request \<Rightarrow> (retry_error, operation_result) result \<times> retry_event list" where
  "client_merge D q = with_root_retries D (merge_build D q)"

definition quoteFee :: "('a, 'c) shield_deps \<Rightarrow> int \<Rightarrow> int \<Rightarrow> int" where
  "quoteFee D feeType amount =
     (case jm_get (sd_feeConfigs D) feeType of None \<Rightarrow> 0 | Some cfg \<Rightarrow> calculateFee cfg amount (sd_maxFeeBps D))"

definition client_ownerKey :: "(int \<Rightarrow> (js_error, int \<times> int) result) \<Rightarrow> bytes \<Rightarrow> (js_error, owner_key) result" where
  "client_ownerKey multiply secret = ownerKeyFromSecret multiply secret"

section \<open>What holds of it\<close>

lemma call_without_inclusion_Inl: "\<exists>e. call_without_inclusion mk cid fn bs = Inl e"
  by (cases "from_builder (rmap (cl_buffer mk) bs)") (simp_all add: call_without_inclusion_def)

lemma split_build_Inl: "\<exists>e. split_build D q k r = Inl e"
proof (rule ccontr)
  assume "\<not> ?thesis"
  then obtain res where "split_build D q k r = Inr res" by (cases "split_build D q k r") auto
  then obtain mk cid fn bs call where "call_without_inclusion mk cid fn bs = Inr call"
    by (auto simp: split_build_def rbind_Inr Let_def)
  then show False using call_without_inclusion_Inl [of mk cid fn bs] by simp
qed

lemma merge_build_Inl: "\<exists>e. merge_build D q k r = Inl e"
proof (rule ccontr)
  assume "\<not> ?thesis"
  then obtain res where "merge_build D q k r = Inr res" by (cases "merge_build D q k r") auto
  then obtain mk cid fn bs call where "call_without_inclusion mk cid fn bs = Inr call"
    by (auto simp: merge_build_def rbind_Inr Let_def)
  then show False using call_without_inclusion_Inl [of mk cid fn bs] by simp
qed

lemma failing_builds:
  assumes "\<And>k r. \<exists>e. build k r = Inl e"
  shows "(\<exists>e. fst (with_root_retries D build) = Inl e) \<and> submissions (snd (with_root_retries D build)) = 0"
proof -
  have five: "(5 :: nat) + 1 = Suc 5" by simp
  note unf = with_root_retries_def retryRootUpdates_def five retry_loop.simps
  show ?thesis
  proof (cases "getCurrentRoot (sd_fetchRoot D 0)")
    case (Inr r)
    obtain e where "build 0 r = Inl e" using assms by blast
    then show ?thesis using Inr unfolding unf by (simp add: submissions_def)
  next
    case (Inl e)
    then show ?thesis unfolding unf by (simp add: submissions_def)
  qed
qed

lemma witness_lacks_root:
  assumes "map_of fs ''new_root'' = None"
  shows "\<exists>m. run_split P mul b (JObj fs) = Inl m" "\<exists>m. run_merge P mul b (JObj fs) = Inl m"
proof -
  have "abi_field (JObj fs) ''new_root'' = Inl ''missing input new_root''"
    using assms by (simp add: abi_field_def abi_get_def)
  then have "run_split P mul b (JObj fs) \<noteq> Inr u" "run_merge P mul b (JObj fs) \<noteq> Inr u" for u
    by (auto simp: run_split_def run_merge_def rbind_Inr)
  then show "\<exists>m. run_split P mul b (JObj fs) = Inl m" "\<exists>m. run_merge P mul b (JObj fs) = Inl m"
    by (metis sum.exhaust old.unit.exhaust)+
qed

lemma splitWitness_root: "splitWitness a = Inr fs \<Longrightarrow> map_of fs ''new_root'' = None"
  by (auto simp: splitWitness_def rbind_Inr)

lemma mergeWitness_root: "mergeWitness a = Inr fs \<Longrightarrow> map_of fs ''new_root'' = None"
  by (auto simp: mergeWitness_def rbind_Inr)

section \<open>Properties\<close>

text \<open>Split and merge of the older client never succeed: whatever the notes, the prover, the committee and the registry
  answer, they end with an error and hand out no call, since the transaction builder is called without the
  inclusion proof it reads; and no circuit accepts the witnesses they prove, which lack the root the circuits
  assert the append of the outputs against.\<close>

theorem older_client_never_spends:
  "(\<exists>e. fst (client_split D q) = Inl e) \<and> submissions (snd (client_split D q)) = 0
   \<and> (\<exists>e. fst (client_merge D q') = Inl e) \<and> submissions (snd (client_merge D q')) = 0
   \<and> (splitWitness a = Inr fs \<longrightarrow> (\<exists>m. run_split P mul b (JObj (jm_set ''nullifier'' v fs)) = Inl m))
   \<and> (mergeWitness a' = Inr fs' \<longrightarrow>
        (\<exists>m. run_merge P mul b (JObj (jm_set ''nullifier_2'' v (jm_set ''nullifier_1'' v' fs'))) = Inl m))"
proof (intro conjI)
  have s: "(\<exists>e. fst (with_root_retries D (split_build D q)) = Inl e) \<and> submissions (snd (with_root_retries D (split_build D q))) = 0"
    by (rule failing_builds) (rule split_build_Inl)
  then show "\<exists>e. fst (client_split D q) = Inl e" "submissions (snd (client_split D q)) = 0"
    by (simp_all add: client_split_def submissions_def)
  have "(\<exists>e. fst (with_root_retries D (merge_build D q')) = Inl e) \<and> submissions (snd (with_root_retries D (merge_build D q'))) = 0"
    by (rule failing_builds) (rule merge_build_Inl)
  then show "\<exists>e. fst (client_merge D q') = Inl e" "submissions (snd (client_merge D q')) = 0"
    by (simp_all add: client_merge_def)
qed (use splitWitness_root mergeWitness_root in \<open>auto intro!: witness_lacks_root simp: update_conv'\<close>)

text \<open>A note of 5 on a tree with one leaf: its witness exists, and the circuit rejects it.\<close>

definition demo_leaf_note :: shielded_note where
  "demo_leaf_note = \<lparr>n_amount = 5, n_ownerPkX = 1, n_ownerPkY = 2, n_ownerSk = 3, n_blinding = 4, n_commitment = ZERO, n_ownerCommitment = ZERO\<rparr>"

definition demo_path :: merkle_path where
  "demo_path = \<lparr>pa_leaf = ZERO, pa_index = 0, pa_indexBits = [], pa_siblings = [], pa_root = ZERO\<rparr>"

definition demo_witness_args :: split_witness_args where
  "demo_witness_args = \<lparr>sw_input = demo_leaf_note, sw_path = demo_path, sw_out1 = demo_leaf_note, sw_out2 = demo_leaf_note, sw_circuitVersion = 2\<rparr>"

lemma older_client_never_spends_witness:
  "\<exists>fs m. splitWitness demo_witness_args = Inr fs \<and> run_split sum_poseidon (\<lambda>k. (1, 2)) False (JObj (jm_set ''nullifier'' JNull fs)) = Inl m"
proof -
  have "\<exists>x. bytes32ToField ZERO = Inr x" by (simp add: bytes32ToField_nonempty ZERO_def)
  then have "\<exists>fs. splitWitness demo_witness_args = Inr fs"
    by (auto simp: splitWitness_def demo_witness_args_def demo_path_def pathFields_def leafField_def demo_leaf_note_def)
  then show ?thesis using older_client_never_spends by blast
qed

end
