(* ===== verification/ProofProvider.thy ===== *)
theory ProofProvider
  imports PublicInputs Json
begin

text \<open>
  The proof provider \<open>sdk/proof-provider/zkverify-provider.ts\<close> with the interface of \<open>sdk/proof-provider/index.ts\<close>:
  a proof is generated, submitted to zkVerify, and its inclusion path is checked against the statement leaf of
  the operation. The packages and zkVerify answer by functions; what the provider asks of them is the list of
  its events. A field that is read where the object does not have it is \<open>None\<close>, the \<open>undefined\<close> of the source.
\<close>

section \<open>Configuration\<close>

record 'c provider_config =
  zc_endpoint :: string
  zc_seedPhrase :: string
  zc_domainId :: int
  zc_vkeyHashes :: "(string, bytes) jsmap"
  zc_circuits :: "(string, 'c) jsmap"
  zc_awaitRootOnStacks :: "(int \<Rightarrow> int \<Rightarrow> (string, unit) result) option"

record prove_request =
  rq_proofType :: int
  rq_circuitVersion :: int
  rq_witness :: json
  rq_publicInputsHash :: bytes

record proof_data =
  pd_proof :: string
  pd_publicSignals :: "string list"
  pd_vk :: string

record zkverify_result =
  zr_aggregationId :: int
  zr_jobId :: string

record poe =
  po_proof :: "string list"
  po_leafIndex :: int
  po_leaf :: string

record inclusion_proof =
  ic_domainId :: int
  ic_aggregationId :: int
  ic_merklePath :: "bytes list"
  ic_leafIndex :: int
  ic_leaf :: bytes

text \<open>What \<open>noir_js\<close>, \<open>bb.js\<close> (called with \<open>PROVING_OPTIONS\<close>) and \<open>zkverifyjs\<close> answer.\<close>

record 'c provider_world =
  pw_noir :: "'c \<Rightarrow> json \<Rightarrow> (string, bytes) result"
  pw_prove :: "'c \<Rightarrow> bytes \<Rightarrow> (string, bytes \<times> string list) result"
  pw_vk :: "'c \<Rightarrow> (string, bytes) result"
  pw_connect :: "string \<Rightarrow> string \<Rightarrow> (string, unit) result"
  pw_execute :: "proof_data \<Rightarrow> int \<Rightarrow> (string, zkverify_result) result"
  pw_poe :: "string \<Rightarrow> int \<Rightarrow> (string, poe) result"

datatype provider_event = Connected | SubmittedProof proof_data int | AskedPath string int | AwaitedRoot int int | Closed

record provider_state =
  ps_session :: bool
  ps_events :: "provider_event list"

definition new_ZkVerifyProvider :: provider_state where
  "new_ZkVerifyProvider = \<lparr>ps_session = False, ps_events = []\<rparr>"

definition tell :: "provider_event \<Rightarrow> provider_state \<Rightarrow> provider_state" where
  "tell e s = s\<lparr>ps_events := ps_events s @ [e]\<rparr>"

section \<open>The statement leaf\<close>

record zkverify_binding =
  zb_contextHash :: "bytes option"
  zb_zkvVkeyHash :: "bytes option"
  zb_versionHash :: "bytes option"

text \<open>\<open>a.length\<close> of an \<open>undefined\<close> is a \<open>TypeError\<close>.\<close>

definition concat2 :: "bytes option \<Rightarrow> bytes option \<Rightarrow> (js_error, bytes) result" where
  "concat2 a b = (case (a, b) of (Some x, Some y) \<Rightarrow> Inr (x @ y) | _ \<Rightarrow> Inl TypeError)"

definition statementLeaf :: "'a crypto_scheme \<Rightarrow> zkverify_binding \<Rightarrow> bytes \<Rightarrow> (js_error, bytes) result" where
  "statementLeaf C b publicInputsHash =
     rbind (concat2 (zb_contextHash b) (zb_zkvVkeyHash b)) (\<lambda>l.
     rbind (concat2 (zb_versionHash b) (Some publicInputsHash)) (\<lambda>r.
     rbind (concat2 (Some l) (Some r)) (\<lambda>m. Inr (keccak256 C m))))"

text \<open>A \<open>Uint8Array\<close> passed as a binding: it has none of the three properties.\<close>

definition array_as_binding :: "bytes \<Rightarrow> zkverify_binding" where
  "array_as_binding b = \<lparr>zb_contextHash = None, zb_zkvVkeyHash = None, zb_versionHash = None\<rparr>"

section \<open>Lookups\<close>

definition provider_key :: "int \<Rightarrow> int \<Rightarrow> string" where
  "provider_key proofType circuitVersion = dec_of_int proofType @ '':'' @ dec_of_int circuitVersion"

definition provider_vkeyHash :: "('c, 'z) provider_config_scheme \<Rightarrow> int \<Rightarrow> int \<Rightarrow> (js_error, bytes) result" where
  "provider_vkeyHash cfg t v =
     (let k = provider_key t v in
      case jm_get (zc_vkeyHashes cfg) k of
        None \<Rightarrow> Inl (JsError (''no zkVerify vkey hash registered for '' @ k))
      | Some h \<Rightarrow> Inr h)"

definition provider_circuit :: "('c, 'z) provider_config_scheme \<Rightarrow> int \<Rightarrow> int \<Rightarrow> (js_error, 'c) result" where
  "provider_circuit cfg t v =
     (let k = provider_key t v in
      case jm_get (zc_circuits cfg) k of
        None \<Rightarrow> Inl (JsError (''no compiled circuit for '' @ k))
      | Some c \<Rightarrow> Inr c)"

section \<open>Proving\<close>

definition from_package :: "(string, 'a) result \<Rightarrow> (js_error, 'a) result" where
  "from_package r = (case r of Inl m \<Rightarrow> Inl (JsError m) | Inr a \<Rightarrow> Inr a)"

definition provider_connect ::
  "'c provider_config \<Rightarrow> 'c provider_world \<Rightarrow> provider_state \<Rightarrow> (js_error, unit) result \<times> provider_state" where
  "provider_connect cfg W s =
     (if ps_session s then (Inr (), s)
      else (case pw_connect W (zc_endpoint cfg) (zc_seedPhrase cfg) of
              Inl m \<Rightarrow> (Inl (JsError m), s)
            | Inr _ \<Rightarrow> (Inr (), tell Connected (s\<lparr>ps_session := True\<rparr>))))"

definition provider_generateProof ::
  "'c provider_config \<Rightarrow> 'c provider_world \<Rightarrow> prove_request \<Rightarrow> (js_error, proof_data) result" where
  "provider_generateProof cfg W q =
     rbind (provider_circuit cfg (rq_proofType q) (rq_circuitVersion q)) (\<lambda>c.
     rbind (from_package (pw_noir W c (rq_witness q))) (\<lambda>w.
     rbind (from_package (pw_prove W c w)) (\<lambda>(pf, pis).
     rbind (from_package (pw_vk W c)) (\<lambda>vk.
       Inr \<lparr>pd_proof = toHex pf, pd_publicSignals = pis, pd_vk = toHex vk\<rparr>))))"

definition provider_hexToBytes :: "string \<Rightarrow> bytes" where
  "provider_hexToBytes h = hex_pairs (if js_startsWith h ''0x'' then drop 2 h else h)"

text \<open>\<open>prove\<close> after the expected leaf: proof, submission, path, comparison, wait for the root.\<close>

definition prove_expecting ::
  "'c provider_config \<Rightarrow> 'c provider_world \<Rightarrow> prove_request \<Rightarrow> bytes \<Rightarrow> provider_state \<Rightarrow>
   (js_error, inclusion_proof) result \<times> provider_state" where
  "prove_expecting cfg W q expectedLeaf s =
     (case provider_generateProof cfg W q of
        Inl e \<Rightarrow> (Inl e, s)
      | Inr d \<Rightarrow>
     (case provider_connect cfg W s of
        (Inl e, s1) \<Rightarrow> (Inl e, s1)
      | (Inr _, s1) \<Rightarrow>
          (let s2 = tell (SubmittedProof d (zc_domainId cfg)) s1 in
     (case from_package (pw_execute W d (zc_domainId cfg)) of
        Inl e \<Rightarrow> (Inl e, s2)
      | Inr r \<Rightarrow>
          (let s3 = tell (AskedPath (zr_jobId r) (zr_aggregationId r)) s2 in
     (case from_package (pw_poe W (zr_jobId r) (zr_aggregationId r)) of
        Inl e \<Rightarrow> (Inl e, s3)
      | Inr poe \<Rightarrow>
          (let leaf = provider_hexToBytes (po_leaf poe) in
           if \<not> (length leaf = length expectedLeaf \<and> leaf = expectedLeaf)
           then (Inl (JsError ''zkVerify statement leaf does not match the operation binding''), s3)
           else
             (let incl = \<lparr>ic_domainId = zc_domainId cfg, ic_aggregationId = zr_aggregationId r,
                          ic_merklePath = map provider_hexToBytes (po_proof poe), ic_leafIndex = po_leafIndex poe, ic_leaf = leaf\<rparr>
              in case zc_awaitRootOnStacks cfg of
                   None \<Rightarrow> (Inr incl, s3)
                 | Some await \<Rightarrow>
                     (let s4 = tell (AwaitedRoot (zc_domainId cfg) (zr_aggregationId r)) s3 in
                      case from_package (await (zc_domainId cfg) (zr_aggregationId r)) of
                        Inl e \<Rightarrow> (Inl e, s4)
                      | Inr _ \<Rightarrow> (Inr incl, s4))))))))))"

definition prove ::
  "'a crypto_scheme \<Rightarrow> 'c provider_config \<Rightarrow> 'c provider_world \<Rightarrow> prove_request \<Rightarrow> provider_state \<Rightarrow>
   (js_error, inclusion_proof) result \<times> provider_state" where
  "prove C cfg W q s =
     (case rbind (provider_vkeyHash cfg (rq_proofType q) (rq_circuitVersion q))
             (\<lambda>vkeyHash. statementLeaf C (array_as_binding vkeyHash) (rq_publicInputsHash q)) of
        Inl e \<Rightarrow> (Inl e, s)
      | Inr expectedLeaf \<Rightarrow> prove_expecting cfg W q expectedLeaf s)"

definition provider_close :: "provider_state \<Rightarrow> provider_state" where
  "provider_close s = (if ps_session s then (tell Closed s)\<lparr>ps_session := False\<rparr> else s)"

section \<open>Properties\<close>

text \<open>\<open>prove\<close> never proves: for every configuration, request and answer of the packages it throws before anything
  is generated or sent, an error of the lookup when no key hash is registered and a \<open>TypeError\<close> otherwise,
  because it hands the key hash to \<open>statementLeaf\<close> where the binding record belongs. With the leaf of a binding
  record in its place it would return only an inclusion of exactly that leaf, and with a complete record
  the leaf is the hash of the four parts.\<close>

theorem prove_never_proves:
  shows "prove C cfg W q s =
      (Inl (case jm_get (zc_vkeyHashes cfg) (provider_key (rq_proofType q) (rq_circuitVersion q)) of
              None \<Rightarrow> JsError (''no zkVerify vkey hash registered for '' @ provider_key (rq_proofType q) (rq_circuitVersion q))
            | Some _ \<Rightarrow> TypeError), s)
    \<and> (fst (prove_expecting cfg W q leaf s) = Inr incl \<longrightarrow>
         ic_leaf incl = leaf \<and> (\<exists>d. SubmittedProof d (zc_domainId cfg) \<in> set (ps_events (snd (prove_expecting cfg W q leaf s)))))
    \<and> statementLeaf C \<lparr>zb_contextHash = Some a, zb_zkvVkeyHash = Some k, zb_versionHash = Some v\<rparr> h = Inr (keccak256 C (a @ k @ v @ h))"
proof (intro conjI impI)
  show "prove C cfg W q s =
      (Inl (case jm_get (zc_vkeyHashes cfg) (provider_key (rq_proofType q) (rq_circuitVersion q)) of
              None \<Rightarrow> JsError (''no zkVerify vkey hash registered for '' @ provider_key (rq_proofType q) (rq_circuitVersion q))
            | Some _ \<Rightarrow> TypeError), s)"
    by (simp add: prove_def provider_vkeyHash_def statementLeaf_def array_as_binding_def concat2_def Let_def split: option.split)
  show "statementLeaf C \<lparr>zb_contextHash = Some a, zb_zkvVkeyHash = Some k, zb_versionHash = Some v\<rparr> h = Inr (keccak256 C (a @ k @ v @ h))"
    by (simp add: statementLeaf_def concat2_def)
  assume "fst (prove_expecting cfg W q leaf s) = Inr incl"
  then show "ic_leaf incl = leaf" "\<exists>d. SubmittedProof d (zc_domainId cfg) \<in> set (ps_events (snd (prove_expecting cfg W q leaf s)))"
    by (auto simp: prove_expecting_def tell_def Let_def split: sum.splits prod.splits option.splits if_splits)
qed

text \<open>A world in which the path is found, so that the second part speaks of a run.\<close>

definition demo_provider :: "nat provider_config" where
  "demo_provider = \<lparr>zc_endpoint = ''e'', zc_seedPhrase = ''s'', zc_domainId = 3, zc_vkeyHashes = [(''4:2'', [9])], zc_circuits = [(''4:2'', 0)],
     zc_awaitRootOnStacks = None\<rparr>"

definition demo_provider_world :: "nat provider_world" where
  "demo_provider_world = \<lparr>pw_noir = (\<lambda>c j. Inr [1]), pw_prove = (\<lambda>c w. Inr ([4], [])), pw_vk = (\<lambda>c. Inr [9]), pw_connect = (\<lambda>e s. Inr ()),
     pw_execute = (\<lambda>d i. Inr \<lparr>zr_aggregationId = 7, zr_jobId = ''j''\<rparr>),
     pw_poe = (\<lambda>j a. Inr \<lparr>po_proof = [], po_leafIndex = 0, po_leaf = ''0x0102''\<rparr>)\<rparr>"

definition demo_request :: prove_request where
  "demo_request = \<lparr>rq_proofType = 4, rq_circuitVersion = 2, rq_witness = JNull, rq_publicInputsHash = [5]\<rparr>"

lemma demo_key: "provider_key 4 2 = ''4:2''"
  by code_simp

lemma demo_leaf: "provider_hexToBytes ''0x0102'' = [1, 2]"
  by code_simp

lemma prove_never_proves_witness:
  "prove plain_crypto demo_provider demo_provider_world demo_request new_ZkVerifyProvider = (Inl TypeError, new_ZkVerifyProvider)
   \<and> (\<exists>incl. fst (prove_expecting demo_provider demo_provider_world demo_request [1, 2] new_ZkVerifyProvider) = Inr incl \<and> ic_leaf incl = [1, 2])"
proof -
  have "\<exists>incl. fst (prove_expecting demo_provider demo_provider_world demo_request [1, 2] new_ZkVerifyProvider) = Inr incl"
  proof -
    have "provider_generateProof demo_provider demo_provider_world demo_request = Inr \<lparr>pd_proof = toHex [4], pd_publicSignals = [], pd_vk = toHex [9]\<rparr>"
      by (simp add: provider_generateProof_def provider_circuit_def demo_provider_def
        demo_provider_world_def demo_request_def demo_key from_package_def Let_def)
    then show ?thesis
      by (simp add: prove_expecting_def provider_connect_def demo_provider_def demo_provider_world_def demo_leaf from_package_def
          new_ZkVerifyProvider_def Let_def)
  qed
  then show ?thesis
    using prove_never_proves [of plain_crypto demo_provider demo_provider_world demo_request new_ZkVerifyProvider]
    by (simp add: demo_provider_def demo_request_def demo_key) blast
qed

end
