(* ===== verification/ApiAssets.thy ===== *)
theory ApiAssets
  imports ApiQueries ApiProvider
begin

text \<open>
  What the API reads live from the chain: its configuration (\<open>services/api/src/config.ts\<close>), the asset registry
  (\<open>services/api/src/services/assets.ts\<close>), the statistics by asset (\<open>services/queries.ts\<close>) and the routes \<open>/stats\<close>,
  \<open>/assets\<close>, \<open>/treasury\<close> and \<open>/version\<close> (\<open>routes/public.ts\<close>), over \<open>callReadOnly\<close> of \<open>utils/hiro.ts\<close>; and how the
  list of assets arrives in the SDK. The chain answers by a function of contract, function and arguments, the decoding of
  a Clarity value by another; a number that is not finite is \<open>None\<close> and becomes \<open>null\<close> in JSON.
\<close>

section \<open>Configuration\<close>

record api_config =
  ac_env :: string
  ac_port :: int
  ac_host :: string
  ac_databaseUrl :: string
  ac_dbPoolSize :: int
  ac_jwtSecret :: string
  ac_jwtTtlSeconds :: int
  ac_network :: string
  ac_hiroApiUrl :: string
  ac_hiroApiKey :: "string option"
  ac_deployer :: string
  ac_blockPollMs :: int
  ac_indexerEnabled :: bool
  ac_indexerStartHeight :: int
  ac_corsOrigins :: "string list option"
  ac_authNonceTtlMs :: int
  ac_rateLimitMax :: int
  ac_rateLimitWindow :: string

text \<open>\<open>z.coerce.number().int().positive().default(d)\<close> and its relatives: a variable that is not set takes the default.\<close>

definition z_env_int :: "(int \<Rightarrow> bool) \<Rightarrow> int \<Rightarrow> string option \<Rightarrow> (issue, int) result" where
  "z_env_int ok dflt v =
     (case v of
        None \<Rightarrow> Inr dflt
      | Some t \<Rightarrow>
          (case js_Number_text t of
             None \<Rightarrow> Inl []
           | Some r \<Rightarrow> if of_int \<lfloor>r\<rfloor> = r \<and> \<bar>\<lfloor>r\<rfloor>\<bar> \<le> MAX_SAFE_INTEGER \<and> ok \<lfloor>r\<rfloor> then Inr \<lfloor>r\<rfloor> else Inl []))"

definition z_env_enum :: "string list \<Rightarrow> string \<Rightarrow> string option \<Rightarrow> (issue, string) result" where
  "z_env_enum vals dflt v = (case v of None \<Rightarrow> Inr dflt | Some t \<Rightarrow> if t \<in> set vals then Inr t else Inl [])"

definition z_env_text :: "nat \<Rightarrow> string option \<Rightarrow> (issue, string) result" where
  "z_env_text n v = (case v of None \<Rightarrow> Inl [] | Some t \<Rightarrow> if n \<le> length t then Inr t else Inl [])"

definition env_or :: "string \<Rightarrow> string option \<Rightarrow> string" where
  "env_or dflt v = (case v of None \<Rightarrow> dflt | Some t \<Rightarrow> t)"

definition api_strip_slash :: "string \<Rightarrow> string" where
  "api_strip_slash s = (if s \<noteq> [] \<and> last s = CHR ''/'' then butlast s else s)"

definition load_api_config :: "(string \<Rightarrow> string option) \<Rightarrow> (issue, api_config) result" where
  "load_api_config env =
     rbind (at_path ''NODE_ENV'' (z_env_enum [''development'', ''test'', ''production''] ''development'' (env ''NODE_ENV''))) (\<lambda>nodeEnv.
     rbind (at_path ''API_PORT'' (z_env_int (\<lambda>i. 0 < i) 8888 (env ''API_PORT''))) (\<lambda>port.
     rbind (at_path ''DATABASE_URL'' (z_env_text 1 (env ''DATABASE_URL''))) (\<lambda>dbUrl.
     rbind (at_path ''DB_POOL_SIZE'' (z_env_int (\<lambda>i. 0 < i) 10 (env ''DB_POOL_SIZE''))) (\<lambda>pool.
     rbind (at_path ''JWT_SECRET'' (z_env_text 16 (env ''JWT_SECRET''))) (\<lambda>secret.
     rbind (at_path ''JWT_TTL_HOURS'' (z_env_int (\<lambda>i. 0 < i) 24 (env ''JWT_TTL_HOURS''))) (\<lambda>ttl.
     rbind (at_path ''STACKS_NETWORK'' (z_env_enum [''mainnet'', ''testnet''] ''testnet'' (env ''STACKS_NETWORK''))) (\<lambda>network.
     rbind (at_path ''CONTRACT_DEPLOYER'' (z_env_text 1 (env ''CONTRACT_DEPLOYER''))) (\<lambda>deployer.
     rbind (at_path ''BLOCK_POLL_MS'' (z_env_int (\<lambda>i. 0 < i) 10000 (env ''BLOCK_POLL_MS''))) (\<lambda>blockPoll.
     rbind (at_path ''INDEXER_START_HEIGHT'' (z_env_int (\<lambda>i. 0 \<le> i) 0 (env ''INDEXER_START_HEIGHT''))) (\<lambda>start.
     rbind (at_path ''AUTH_NONCE_TTL_MINUTES'' (z_env_int (\<lambda>i. 0 < i) 10 (env ''AUTH_NONCE_TTL_MINUTES''))) (\<lambda>nonceTtl.
     rbind (at_path ''RATE_LIMIT_MAX'' (z_env_int (\<lambda>i. 0 < i) 120 (env ''RATE_LIMIT_MAX''))) (\<lambda>rate.
       Inr \<lparr>ac_env = nodeEnv, ac_port = port, ac_host = env_or ''0.0.0.0'' (env ''API_HOST''), ac_databaseUrl = dbUrl,
            ac_dbPoolSize = pool, ac_jwtSecret = secret, ac_jwtTtlSeconds = ttl * 3600, ac_network = network,
            ac_hiroApiUrl = api_strip_slash (env_or ''https://api.testnet.hiro.so'' (env ''HIRO_API_URL'')),
            ac_hiroApiKey = env ''HIRO_API_KEY'', ac_deployer = deployer, ac_blockPollMs = blockPoll,
            ac_indexerEnabled = (env_or ''true'' (env ''INDEXER_ENABLED'') \<noteq> ''false''), ac_indexerStartHeight = start,
            ac_corsOrigins = (let c = env_or ''*'' (env ''CORS_ORIGINS'') in if c = ''*'' then None else Some (map js_trim (js_split (CHR '','') c))),
            ac_authNonceTtlMs = nonceTtl * 60000, ac_rateLimitMax = rate,
            ac_rateLimitWindow = env_or ''1 minute'' (env ''RATE_LIMIT_WINDOW'')\<rparr>))))))))))))"

definition api_contract :: "api_config \<Rightarrow> string \<Rightarrow> string" where
  "api_contract cfg n = ac_deployer cfg @ ''.'' @ n"

section \<open>The chain\<close>

record chain_world =
  cw_read :: "string \<Rightarrow> string \<Rightarrow> string list \<Rightarrow> relayer_reply"
  cw_decode :: "string \<Rightarrow> (string, json) result"
  cw_uintHex :: "nat \<Rightarrow> string"
  cw_balances :: "string \<Rightarrow> relayer_reply"

definition callReadOnly :: "chain_world \<Rightarrow> string \<Rightarrow> string \<Rightarrow> string list \<Rightarrow> (string, string option) result" where
  "callReadOnly W contractId fn args =
     (case cw_read W contractId fn args of
        ReplyThrows e \<Rightarrow> Inl e
      | Reply s b \<Rightarrow>
          if \<not> reply_ok s then Inr None
          else (case b of
                  None \<Rightarrow> Inl ''SyntaxError''
                | Some v \<Rightarrow> Inr (if js_truthy (json_field v ''okay'') \<and> js_truthy (json_field v ''result'')
                                then (case json_field v ''result'' of Some (JStr t) \<Rightarrow> Some t | _ \<Rightarrow> None) else None)))"

text \<open>\<open>j.value?.k\<close>\<close>

definition opt_field :: "json option \<Rightarrow> string \<Rightarrow> json option" where
  "opt_field v k = (case v of None \<Rightarrow> None | Some w \<Rightarrow> json_field w k)"

definition num_of :: "json option \<Rightarrow> rat option" where
  "num_of n = (case n of Some v \<Rightarrow> (if is_object v \<and> json_field v ''value'' \<noteq> None then js_Number (json_field v ''value'') else js_Number n)
               | None \<Rightarrow> None)"

definition str_of :: "json option \<Rightarrow> string" where
  "str_of n =
     (case n of
        None \<Rightarrow> ''undefined''
      | Some v \<Rightarrow> if is_object v then (case json_field v ''value'' of Some w \<Rightarrow> js_String w | None \<Rightarrow> js_String v) else js_String v)"

section \<open>The asset registry\<close>

record api_asset =
  aa_id :: nat
  aa_symbol :: string
  aa_token :: "string option"
  aa_decimals :: "rat option"
  aa_active :: bool
  aa_native :: bool
  aa_pool :: string
  aa_verifier :: string
  aa_splitMerge :: string
  aa_protocolFees :: string

definition NATIVE_asset :: "api_config \<Rightarrow> api_asset" where
  "NATIVE_asset cfg =
     \<lparr>aa_id = 0, aa_symbol = ''STX'', aa_token = None, aa_decimals = Some 6, aa_active = True, aa_native = True,
      aa_pool = api_contract cfg ''privacy-pool'', aa_verifier = api_contract cfg ''zk-verifier'',
      aa_splitMerge = api_contract cfg ''split-merge-manager'', aa_protocolFees = api_contract cfg ''protocol-fees''\<rparr>"

definition readAsset :: "chain_world \<Rightarrow> api_config \<Rightarrow> nat \<Rightarrow> (string, api_asset option) result" where
  "readAsset W cfg uid =
     rbind (callReadOnly W (api_contract cfg ''asset-registry'') ''get-asset'' [cw_uintHex W uid]) (\<lambda>h.
       case h of
         None \<Rightarrow> Inr None
       | Some hex \<Rightarrow>
           rbind (cw_decode W hex) (\<lambda>j.
           let a = opt_field (json_field j ''value'') ''value'' in
           if \<not> js_truthy a then Inr None
           else (let f = (\<lambda>k. opt_field (opt_field a k) ''value'') in
             Inr (Some \<lparr>aa_id = uid, aa_symbol = str_of (f ''name''), aa_token = Some (str_of (f ''token'')),
                        aa_decimals = num_of (f ''decimals''), aa_active = (num_of (f ''status'') = Some 1), aa_native = False,
                        aa_pool = api_contract cfg ''sip10-pool'', aa_verifier = api_contract cfg ''sip10-zk-verifier'',
                        aa_splitMerge = api_contract cfg ''sip10-pool'',
                        aa_protocolFees = api_contract cfg ''sip10-protocol-fees''\<rparr>))))"

text \<open>The reads from one id on; an error ends the loop and leaves what was read before.\<close>

fun read_assets :: "(nat \<Rightarrow> (string, api_asset option) result) \<Rightarrow> nat list \<Rightarrow> api_asset list" where
  "read_assets rd [] = []"
| "read_assets rd (u # us) =
     (case rd u of
        Inl e \<Rightarrow> []
      | Inr None \<Rightarrow> read_assets rd us
      | Inr (Some a) \<Rightarrow> a # read_assets rd us)"

definition asset_count :: "chain_world \<Rightarrow> api_config \<Rightarrow> (string, rat option) result" where
  "asset_count W cfg =
     rbind (callReadOnly W (api_contract cfg ''asset-registry'') ''get-asset-count'' []) (\<lambda>h.
       case h of
         None \<Rightarrow> Inr (Some 0)
       | Some hex \<Rightarrow> rbind (cw_decode W hex) (\<lambda>j. Inr (num_of (json_field j ''value''))))"

text \<open>\<open>for (uid = 1; uid <= count; uid++)\<close>: a count that is not a number runs no round.\<close>

definition registry_assets :: "chain_world \<Rightarrow> api_config \<Rightarrow> api_asset list" where
  "registry_assets W cfg =
     NATIVE_asset cfg #
     (case asset_count W cfg of
        Inl e \<Rightarrow> []
      | Inr None \<Rightarrow> []
      | Inr (Some c) \<Rightarrow> read_assets (readAsset W cfg) [1..<nat \<lfloor>c\<rfloor> + 1])"

type_synonym 'a cache = "(int \<times> 'a) option"

definition CACHE_MS :: int where
  "CACHE_MS = 60000"

definition server_getAssets ::
  "chain_world \<Rightarrow> api_config \<Rightarrow> int \<Rightarrow> int \<Rightarrow> api_asset list cache \<Rightarrow> api_asset list \<times> api_asset list cache" where
  "server_getAssets W cfg before after cache =
     (let fresh = registry_assets W cfg in
      case cache of
        Some (at_ms, assets) \<Rightarrow> if before - at_ms < CACHE_MS then (assets, cache) else (fresh, Some (after, fresh))
      | None \<Rightarrow> (fresh, Some (after, fresh)))"

definition assetByToken :: "string option \<Rightarrow> api_asset list \<Rightarrow> api_asset option" where
  "assetByToken token assets =
     (case token of
        None \<Rightarrow> find aa_native assets
      | Some t \<Rightarrow> if t = [] \<or> js_toUpperCase t = ''STX'' then find aa_native assets else find (\<lambda>a. aa_token a = Some t) assets)"

section \<open>Statistics by asset\<close>

definition readUint :: "chain_world \<Rightarrow> string \<Rightarrow> string \<Rightarrow> string list \<Rightarrow> int" where
  "readUint W contract fn args =
     (case rbind (callReadOnly W contract fn args) (\<lambda>h.
             case h of
               None \<Rightarrow> Inr 0
             | Some hex \<Rightarrow> rbind (cw_decode W hex) (\<lambda>j.
                 case js_nullish (json_field j ''value'') None of None \<Rightarrow> Inr 0 | Some v \<Rightarrow> js_BigInt_text (js_String v))) of
        Inl e \<Rightarrow> 0 | Inr n \<Rightarrow> n)"

definition readTreasuryCollected :: "chain_world \<Rightarrow> api_config \<Rightarrow> nat \<Rightarrow> int" where
  "readTreasuryCollected W cfg uid =
     (case rbind (callReadOnly W (api_contract cfg ''sip10-protocol-fees'') ''get-asset-treasury'' [cw_uintHex W uid]) (\<lambda>h.
             case h of
               None \<Rightarrow> Inr 0
             | Some hex \<Rightarrow> rbind (cw_decode W hex) (\<lambda>j.
                 case js_nullish (opt_field (opt_field (json_field j ''value'') ''total-collected'') ''value'') None of
                   None \<Rightarrow> Inr 0 | Some v \<Rightarrow> js_BigInt_text (js_String v))) of
        Inl e \<Rightarrow> 0 | Inr n \<Rightarrow> n)"

record asset_stat =
  ss_id :: nat
  ss_symbol :: string
  ss_decimals :: "rat option"
  ss_native :: bool
  ss_shielded :: "rat option"
  ss_fees :: "rat option"

text \<open>\<open>Number(base) / 10 ** decimals\<close>\<close>

definition display :: "(rat \<Rightarrow> rat) \<Rightarrow> rat option \<Rightarrow> int \<Rightarrow> rat option" where
  "display pow10 decimals base =
     (case (decimals, js_double (of_int base)) of
        (Some d, Some b) \<Rightarrow> js_double (b / pow10 d)
      | _ \<Rightarrow> None)"

definition asset_stat_of :: "chain_world \<Rightarrow> api_config \<Rightarrow> (rat \<Rightarrow> rat) \<Rightarrow> int \<Rightarrow> api_asset \<Rightarrow> asset_stat" where
  "asset_stat_of W cfg pow10 nativeFees a =
     (let (shieldedBase, feesBase) =
        (if aa_native a then (readUint W (api_contract cfg ''privacy-pool'') ''get-pool-balance'' [], nativeFees)
         else (readUint W (api_contract cfg ''sip10-pool'') ''get-shielded-total'' [cw_uintHex W (aa_id a)],
               readTreasuryCollected W cfg (aa_id a)))
      in \<lparr>ss_id = aa_id a, ss_symbol = aa_symbol a, ss_decimals = aa_decimals a, ss_native = aa_native a,
          ss_shielded = display pow10 (aa_decimals a) shieldedBase, ss_fees = display pow10 (aa_decimals a) feesBase\<rparr>)"

definition ASSET_STATS_TTL_MS :: int where
  "ASSET_STATS_TTL_MS = 30000"

definition getAssetStats ::
  "chain_world \<Rightarrow> api_config \<Rightarrow> (rat \<Rightarrow> rat) \<Rightarrow> db \<Rightarrow> int \<Rightarrow> int \<Rightarrow> asset_stat list cache \<times> api_asset list cache \<Rightarrow>
   asset_stat list \<times> asset_stat list cache \<times> api_asset list cache" where
  "getAssetStats W cfg pow10 d before after caches =
     (let (statsCache, assetsCache) = caches;
          (assets, assetsCache') = server_getAssets W cfg before after assetsCache;
          out = map (asset_stat_of W cfg pow10 (case db_fees d of Some f \<Rightarrow> f | None \<Rightarrow> 0)) assets;
          fresh = (out, Some (after, out), assetsCache') in
      case statsCache of
        Some (at_ms, data) \<Rightarrow> if before - at_ms < ASSET_STATS_TTL_MS then (data, statsCache, assetsCache) else fresh
      | None \<Rightarrow> fresh)"

section \<open>Routes\<close>

definition jnumber :: "rat option \<Rightarrow> json" where
  "jnumber r = (case r of None \<Rightarrow> JNull | Some x \<Rightarrow> JNum x)"

definition asset_json :: "api_asset \<Rightarrow> json" where
  "asset_json a = JObj
     [(''id'', JNum (of_nat (aa_id a))), (''symbol'', JStr (aa_symbol a)),
      (''token'', case aa_token a of None \<Rightarrow> JNull | Some t \<Rightarrow> JStr t), (''decimals'', jnumber (aa_decimals a)),
      (''active'', JBool (aa_active a)), (''native'', JBool (aa_native a)), (''pool'', JStr (aa_pool a)),
      (''verifier'', JStr (aa_verifier a)), (''splitMerge'', JStr (aa_splitMerge a)), (''protocolFees'', JStr (aa_protocolFees a))]"

definition route_assets :: "api_asset list \<Rightarrow> json" where
  "route_assets assets = JObj [(''results'', JArr (map asset_json assets))]"

definition stat_json :: "asset_stat \<Rightarrow> json" where
  "stat_json s = JObj
     [(''id'', JNum (of_nat (ss_id s))), (''symbol'', JStr (ss_symbol s)), (''decimals'', jnumber (ss_decimals s)),
      (''native'', JBool (ss_native s)), (''shielded'', jnumber (ss_shielded s)), (''fees'', jnumber (ss_fees s))]"

definition route_stats ::
  "chain_world \<Rightarrow> api_config \<Rightarrow> (rat \<Rightarrow> rat) \<Rightarrow> db \<Rightarrow> int \<Rightarrow> int \<Rightarrow> asset_stat list cache \<times> api_asset list cache \<Rightarrow>
   (stats_view \<times> json) \<times> asset_stat list cache \<times> api_asset list cache" where
  "route_stats W cfg pow10 d before after caches =
     (let (byAsset, caches') = getAssetStats W cfg pow10 d before after caches
      in ((getStats d, JArr (map stat_json byAsset)), caches'))"

definition route_treasury :: "chain_world \<Rightarrow> api_config \<Rightarrow> string option \<times> string option \<times> rat option" where
  "route_treasury W cfg =
     (let address = (case rbind (callReadOnly W (api_contract cfg ''protocol-fees'') ''get-treasury'' []) (\<lambda>h.
                            case h of None \<Rightarrow> Inr None
                            | Some hex \<Rightarrow> rbind (cw_decode W hex) (\<lambda>j.
                                Inr (case json_field j ''value'' of Some (JStr t) \<Rightarrow> Some t | _ \<Rightarrow> None))) of
                       Inl e \<Rightarrow> None | Inr a \<Rightarrow> a);
          balance = (case address of
                       None \<Rightarrow> None
                     | Some a \<Rightarrow>
                         if a = [] then None
                         else (case cw_balances W a of
                                 Reply s (Some b) \<Rightarrow>
                                   if reply_ok s then (case opt_field (json_field b ''stx'') ''balance'' of Some (JStr t) \<Rightarrow> Some t | _ \<Rightarrow> None)
                                   else None
                               | _ \<Rightarrow> None))
      in (address, balance,
          case balance of None \<Rightarrow> None
          | Some t \<Rightarrow> if t = [] then None else map_option (\<lambda>n. n / 1000000) (js_Number_text t)))"

definition route_version :: "api_config \<Rightarrow> json" where
  "route_version cfg = JObj
     [(''api'', JStr ''0.1.0''), (''network'', JStr (ac_network cfg)), (''deployer'', JStr (ac_deployer cfg)),
      (''contracts'', JObj (map (\<lambda>(k, n). (k, JStr (api_contract cfg n)))
        [(''privacyPool'', ''privacy-pool''), (''splitMerge'', ''split-merge-manager''), (''zkVerifier'', ''zk-verifier''),
         (''privacyRegistry'', ''privacy-registry''), (''protocolFees'', ''protocol-fees''), (''sip10Pool'', ''sip10-pool''),
         (''sip10ZkVerifier'', ''sip10-zk-verifier''), (''assetRegistry'', ''asset-registry''),
         (''sip10ProtocolFees'', ''sip10-protocol-fees'')])),
      (''protocol'', JStr ''stx-shield-v1'')]"

section \<open>What the SDK makes of the list\<close>

text \<open>An asset of the API as the SDK's record, and the assets the SDK's validation accepts.\<close>

definition sdk_asset :: "api_asset \<Rightarrow> asset_info" where
  "sdk_asset a =
     \<lparr>as_id = of_nat (aa_id a), as_symbol = aa_symbol a, as_token = (if aa_native a then None else aa_token a),
      as_decimals = the (aa_decimals a), as_active = aa_active a, as_native = aa_native a, as_pool = aa_pool a,
      as_verifier = aa_verifier a, as_splitMerge = aa_splitMerge a, as_protocolFees = aa_protocolFees a\<rparr>"

definition arrives :: "api_asset \<Rightarrow> bool" where
  "arrives a \<longleftrightarrow> aa_symbol a \<noteq> [] \<and> aa_decimals a \<noteq> None \<and> aa_pool a \<noteq> [] \<and> aa_verifier a \<noteq> [] \<and> aa_splitMerge a \<noteq> []
     \<and> aa_protocolFees a \<noteq> [] \<and> (\<not> aa_native a \<longrightarrow> (\<exists>t. aa_token a = Some t \<and> token_principal t))"

lemma rmap_all:
  assumes "\<And>a. P a \<Longrightarrow> f (g a) = Inr (h a)" "\<And>a. \<not> P a \<Longrightarrow> \<exists>e. f (g a) = Inl e"
  shows "list_all P as \<Longrightarrow> rmap f (map g as) = Inr (map h as)" "\<not> list_all P as \<Longrightarrow> \<exists>e. rmap f (map g as) = Inl e"
proof (induction as)
  case (Cons a as)
  { case 1
    then show ?case using Cons assms(1) by simp
  next
    case 2
    then show ?case using Cons assms by (cases "P a") (force simp: rbind_def split: sum.splits)+
  }
qed simp_all

lemma validate_asset_json:
  "arrives a \<Longrightarrow> validateAsset (asset_json a) = Inr (sdk_asset a)"
  "\<not> arrives a \<Longrightarrow> \<exists>e. validateAsset (asset_json a) = Inl e"
  by (auto simp: validateAsset_def asset_json_def arrives_def sdk_asset_def asset_number_def asset_text_def jnumber_def Let_def
      split: option.splits)

lemma registry_native: "list_ex as_native (map sdk_asset (registry_assets W cfg))" "arrives (NATIVE_asset cfg)"
  by (simp_all add: registry_assets_def NATIVE_asset_def sdk_asset_def arrives_def api_contract_def)

text \<open>C35: Assets cross the wire well typed or not at all: when the API answers \<open>/assets\<close> with its registry list, the SDK ends up
  with exactly these assets, native STX included, field for field, if each of them has a name, finite decimals and a token that
  is a contract principal; and a single asset that does not leaves the SDK with no asset of the list at all.\<close>

theorem served_assets_arrive:
  assumes "api_request server ''GET'' ''/assets'' None False p = Inr (route_assets (registry_assets W cfg))"
  shows "fst (api_getAssets server True before after p) =
    (if list_all arrives (registry_assets W cfg) then map sdk_asset (registry_assets W cfg) else [])"
proof -
  let ?as = "registry_assets W cfg"
  have r: "results_of f (route_assets as) = rmap f (map asset_json as)" for f :: "json \<Rightarrow> (sdk_error, asset_info) result" and as
    by (simp add: results_of_def route_assets_def js_prop_def js_nullish_def)
  have ok: "arrives a \<Longrightarrow> lift_plain (validateAsset (asset_json a)) = Inr (sdk_asset a)"
    and bad: "\<not> arrives a \<Longrightarrow> \<exists>e. lift_plain (validateAsset (asset_json a)) = Inl e" for a
    using validate_asset_json [of a] by (auto simp: lift_plain_def)
  note all = rmap_all [where P = arrives and f = "\<lambda>v. lift_plain (validateAsset v)" and g = asset_json and h = sdk_asset and as = ?as,
      OF ok bad]
  show ?thesis
  proof (cases "list_all arrives ?as")
    case True
    then have "fetch_assets server p = Inr (map sdk_asset ?as)"
      using assms all(1) registry_native(1) [of W cfg] by (simp add: fetch_assets_def r)
    then show ?thesis using True by (simp add: api_getAssets_def Let_def split: option.split)
  next
    case False
    then obtain e where "fetch_assets server p = Inl e" using assms all(2) by (auto simp: fetch_assets_def r)
    then show ?thesis using False by (simp add: api_getAssets_def Let_def split: option.split)
  qed
qed

text \<open>A registry with one asset without a name, and an API that serves it.\<close>

definition demo_api_config :: api_config where
  "demo_api_config =
     \<lparr>ac_env = ''test'', ac_port = 1, ac_host = ''h'', ac_databaseUrl = ''d'', ac_dbPoolSize = 1, ac_jwtSecret = ''s'', ac_jwtTtlSeconds = 1,
      ac_network = ''testnet'', ac_hiroApiUrl = ''u'', ac_hiroApiKey = None, ac_deployer = ''ST1'', ac_blockPollMs = 1,
      ac_indexerEnabled = True, ac_indexerStartHeight = 0, ac_corsOrigins = None, ac_authNonceTtlMs = 1, ac_rateLimitMax = 1,
      ac_rateLimitWindow = ''w''\<rparr>"

definition demo_chain :: "string \<Rightarrow> chain_world" where
  "demo_chain name1 =
     \<lparr>cw_read = (\<lambda>c f args. Reply 200 (Some (JObj [(''okay'', JBool True), (''result'', JStr (if f = ''get-asset'' then ''a'' else ''n''))]))),
      cw_decode = (\<lambda>h. if h = ''n'' then Inr (JObj [(''value'', JStr ''1'')])
        else Inr (JObj [(''value'', JObj [(''value'', JObj [(''name'', JObj [(''value'', JStr name1)]), (''token'', JObj [(''value'', JStr ''t'')]),
               (''decimals'', JObj [(''value'', JStr ''8'')]), (''status'', JObj [(''value'', JStr ''1'')])])])])),
      cw_uintHex = (\<lambda>n. ''u''), cw_balances = (\<lambda>a. ReplyThrows [])\<rparr>"

definition demo_assets_server :: "json \<Rightarrow> api_server" where
  "demo_assets_server body rq k = Reply 200 (Some body)"

lemma demo_served: "api_request (demo_assets_server body) ''GET'' ''/assets'' None False p = Inr body"
proof -
  have "fst (retry (\<lambda>k. api_attempt ''/assets'' (demo_assets_server body (http_of ''GET'' ''/assets'' None False p) k))
      not_auth_error None None None) = Inr body"
  proof -
    have f: "fn 1 = Inr a \<Longrightarrow> 0 < or_default n 3 \<Longrightarrow> fst (retry fn again n b m) = Inr a"
      for fn :: "nat \<Rightarrow> (sdk_error, json) result" and a again n b m
      by (cases "or_default n 3 :: nat") (simp_all add: retry_def Let_def)
    show ?thesis by (rule f) (simp_all add: or_default_def demo_assets_server_def api_attempt_def reply_ok_def Let_def)
  qed
  then show ?thesis by (simp add: api_request_def)
qed

lemma demo_registry:
  "registry_assets (demo_chain name1) demo_api_config =
     [NATIVE_asset demo_api_config, NATIVE_asset demo_api_config \<lparr>aa_id := 1, aa_symbol := name1, aa_token := Some ''t'', aa_decimals := Some 8,
        aa_native := False, aa_pool := ''ST1.sip10-pool'', aa_verifier := ''ST1.sip10-zk-verifier'', aa_splitMerge := ''ST1.sip10-pool'',
        aa_protocolFees := ''ST1.sip10-protocol-fees''\<rparr>]"
proof -
  have n: "js_Number_text ''1'' = Some 1" "js_Number_text ''8'' = Some 8" by code_simp+
  have o: "opt_field (Some (JObj fs)) k = map_of fs k" for fs k by (simp add: opt_field_def)
  have c: "callReadOnly (demo_chain name1) i f args = Inr (Some (if f = ''get-asset'' then ''a'' else ''n''))" for i f args
    by (simp add: callReadOnly_def demo_chain_def reply_ok_def js_truthy_def)
  have count: "asset_count (demo_chain name1) demo_api_config = Inr (Some 1)"
    by (simp add: asset_count_def c) (simp add: demo_chain_def num_of_def js_Number_def n)
  have one: "[1..<nat \<lfloor>1 :: rat\<rfloor> + 1] = [1]" by (simp add: upt_rec)
  have d: "cw_decode (demo_chain name1) ''a'' =
      Inr (JObj [(''value'', JObj [(''value'', JObj [(''name'', JObj [(''value'', JStr name1)]), (''token'', JObj [(''value'', JStr ''t'')]),
               (''decimals'', JObj [(''value'', JStr ''8'')]), (''status'', JObj [(''value'', JStr ''1'')])])])])"
    by (simp add: demo_chain_def)
  have asset: "readAsset (demo_chain name1) demo_api_config 1 =
      Inr (Some (NATIVE_asset demo_api_config \<lparr>aa_id := 1, aa_symbol := name1, aa_token := Some ''t'', aa_decimals := Some 8,
        aa_native := False, aa_pool := ''ST1.sip10-pool'', aa_verifier := ''ST1.sip10-zk-verifier'', aa_splitMerge := ''ST1.sip10-pool'',
        aa_protocolFees := ''ST1.sip10-protocol-fees''\<rparr>))"
    by (simp add: readAsset_def c d o js_truthy_def num_of_def str_of_def js_Number_def n NATIVE_asset_def api_contract_def
        demo_api_config_def Let_def)
  show ?thesis unfolding registry_assets_def count sum.case option.case one read_assets.simps asset ..
qed

lemma served_assets_arrive_witness:
  "fst (api_getAssets (demo_assets_server (route_assets (registry_assets (demo_chain []) demo_api_config))) True 0 0 new_ApiProvider) = []
   \<and> length (registry_assets (demo_chain []) demo_api_config) = 2"
  using served_assets_arrive [OF demo_served, of "demo_chain []" demo_api_config 0 0 new_ApiProvider]
  by (simp add: demo_registry arrives_def)

end
