(* ===== verification/WebForms.thy ===== *)
theory WebForms
  imports ShieldOps
begin

text \<open>
  The forms of the web frontend: how an amount is shown (\<open>frontend/src/shared/utils/format.ts\<close>), which assets can be
  chosen (\<open>features/assets/useAssets.ts\<close>), and what the pages make of the fields a user fills in before they call
  the client (\<open>ShieldPage\<close>, \<open>TransferPage\<close>, \<open>SplitPage\<close>, \<open>MergePage\<close>, \<open>WithdrawPage\<close>). A number is a double; \<open>None\<close> is
  one that is not finite, for which every comparison the forms make is false.
\<close>

section \<open>Amounts on the screen\<close>

definition MICRO_PER_STX :: rat where
  "MICRO_PER_STX = 1000000"

datatype ui_amount = UiBig int | UiNumber rat

definition toStx :: "ui_amount option \<Rightarrow> rat option" where
  "toStx amount =
     (case amount of
        None \<Rightarrow> Some 0
      | Some (UiBig b) \<Rightarrow> Option.bind (js_double (of_int b)) (\<lambda>n. js_double (n / MICRO_PER_STX))
      | Some (UiNumber r) \<Rightarrow> if MICRO_PER_STX \<le> r then js_double (r / MICRO_PER_STX) else Some r)"

definition unitsToDisplay :: "(rat \<Rightarrow> rat) \<Rightarrow> ui_amount option \<Rightarrow> rat \<Rightarrow> rat option" where
  "unitsToDisplay pow10 amount decimals =
     (case amount of
        None \<Rightarrow> Some 0
      | Some (UiBig b) \<Rightarrow> Option.bind (js_double (of_int b)) (\<lambda>n. js_double (n / pow10 decimals))
      | Some (UiNumber r) \<Rightarrow> js_double (r / pow10 decimals))"

definition noteAsset :: "shield_note \<Rightarrow> string \<times> rat" where
  "noteAsset n = (case sh_asset n of None \<Rightarrow> (''STX'', 6) | Some a \<Rightarrow> (as_symbol a, as_decimals a))"

definition noteDisplay :: "(rat \<Rightarrow> rat) \<Rightarrow> shield_note \<Rightarrow> rat option" where
  "noteDisplay pow10 n = unitsToDisplay pow10 (Some (UiBig (sh_amount n))) (snd (noteAsset n))"

definition ui_sameAsset :: "shield_note \<Rightarrow> shield_note \<Rightarrow> bool" where
  "ui_sameAsset a b \<longleftrightarrow> fst (noteAsset a) = fst (noteAsset b)"

text \<open>The ellipsis is one character of the source; here it is \<open>~\<close>, and the dash of an empty text is \<open>-\<close>.\<close>

definition truncate_text :: "string option \<Rightarrow> nat \<Rightarrow> nat \<Rightarrow> string" where
  "truncate_text v head tail =
     (case v of
        None \<Rightarrow> ''-''
      | Some t \<Rightarrow> if t = [] then ''-'' else if length t \<le> head + tail + 3 then t
                  else take head t @ ''~'' @ (if tail = 0 then t else drop (length t - tail) t))"

definition noteKey :: "string option \<Rightarrow> shield_note \<Rightarrow> string" where
  "noteKey i n = (case i of Some k \<Rightarrow> k | None \<Rightarrow> sh_commitment n)"

section \<open>Numbers in JavaScript\<close>

definition positive :: "rat option \<Rightarrow> bool" where
  "positive x \<longleftrightarrow> (case x of Some v \<Rightarrow> 0 < v | None \<Rightarrow> False)"

definition js_sub :: "rat option \<Rightarrow> rat option \<Rightarrow> rat option" where
  "js_sub a b = (case (a, b) of (Some x, Some y) \<Rightarrow> js_double (x - y) | _ \<Rightarrow> None)"

definition js_mult :: "rat option \<Rightarrow> rat option \<Rightarrow> rat option" where
  "js_mult a b = (case (a, b) of (Some x, Some y) \<Rightarrow> js_double (x * y) | _ \<Rightarrow> None)"

text \<open>\<open>Number(text)\<close>: the double nearest to what the text says.\<close>

definition js_Number_double :: "string \<Rightarrow> rat option" where
  "js_Number_double t = Option.bind (js_Number_text t) js_double"

text \<open>\<open>Number(x.toFixed(d))\<close>: the multiple of \<open>10 ^ - d\<close> nearest to \<open>x\<close>, the larger of two, read back as a double.\<close>

definition js_fixed :: "rat option \<Rightarrow> rat \<Rightarrow> (js_error, rat option) result" where
  "js_fixed x decimals =
     (let f = (if 0 \<le> decimals then \<lfloor>decimals\<rfloor> else \<lceil>decimals\<rceil>) in
      if f < 0 \<or> 100 < f then Inl RangeError
      else Inr (case x of
          None \<Rightarrow> None
        | Some v \<Rightarrow>
            if 10 ^ 21 \<le> \<bar>v\<bar> then Some v
            else (let n = of_int \<lfloor>\<bar>v\<bar> * 10 ^ nat f + 1 / 2\<rfloor> / 10 ^ nat f in js_double (if v < 0 then - n else n))))"

section \<open>Assets to choose from\<close>

definition shieldableAssets :: "asset_info \<Rightarrow> asset_info list option \<Rightarrow> asset_info list" where
  "shieldableAssets fallback assets = filter as_active (case assets of None \<Rightarrow> [fallback] | Some as \<Rightarrow> as)"

definition offered_assets :: "asset_info \<Rightarrow> asset_info list \<Rightarrow> asset_info list" where
  "offered_assets fallback assets = (if assets \<noteq> [] then assets else [fallback])"

text \<open>\<open>asset?.native ? undefined : (asset?.token ?? undefined)\<close>\<close>

definition form_asset :: "asset_info option \<Rightarrow> asset_ref" where
  "form_asset a =
     (case a of
        None \<Rightarrow> RefUndefined
      | Some i \<Rightarrow> if as_native i then RefUndefined else (case as_token i of None \<Rightarrow> RefUndefined | Some t \<Rightarrow> RefText t))"

section \<open>The forms\<close>

definition MIN_SHIELD_STX :: rat where
  "MIN_SHIELD_STX = 1"

record shield_draft =
  hf_amount :: "rat option"
  hf_asset :: asset_ref
  hf_valid :: bool

definition shield_form :: "asset_info option \<Rightarrow> string \<Rightarrow> shield_draft" where
  "shield_form asset amount =
     (let v = js_Number_double amount; least = (case asset of Some a \<Rightarrow> if as_native a then MIN_SHIELD_STX else 0 | None \<Rightarrow> 0) in
      \<lparr>hf_amount = v, hf_asset = form_asset asset, hf_valid = (positive v \<and> (case v of Some x \<Rightarrow> least \<le> x | None \<Rightarrow> False))\<rparr>)"

record transfer_draft =
  tf_amount :: "rat option"
  tf_recipient :: string
  tf_asset :: asset_ref
  tf_valid :: bool

definition transfer_form :: "(rat \<Rightarrow> rat) \<Rightarrow> shield_note option \<Rightarrow> string \<Rightarrow> transfer_draft" where
  "transfer_form pow10 selected recipient =
     \<lparr>tf_amount = (case selected of Some n \<Rightarrow> noteDisplay pow10 n | None \<Rightarrow> Some 0), tf_recipient = js_trim recipient,
      tf_asset = form_asset (Option.bind selected sh_asset), tf_valid = (selected \<noteq> None \<and> 10 < length (js_trim recipient))\<rparr>"

record split_draft =
  lf_amountA :: "rat option"
  lf_amountB :: "rat option"
  lf_valid :: bool

definition split_form :: "(rat \<Rightarrow> rat) \<Rightarrow> shield_note option \<Rightarrow> string \<Rightarrow> (js_error, split_draft) result" where
  "split_form pow10 selected a =
     (let decimals = (case selected of Some n \<Rightarrow> snd (noteAsset n) | None \<Rightarrow> 6);
          total = (case selected of Some n \<Rightarrow> noteDisplay pow10 n | None \<Rightarrow> Some 0);
          amountA = js_Number_double a in
      rbind (js_fixed (js_sub total amountA) decimals) (\<lambda>amountB.
        Inr \<lparr>lf_amountA = amountA, lf_amountB = amountB, lf_valid = (selected \<noteq> None \<and> positive amountA \<and> positive amountB)\<rparr>))"

definition merge_toggle :: "string \<Rightarrow> shield_note \<Rightarrow> (string \<times> shield_note) list \<Rightarrow> (string \<times> shield_note) list" where
  "merge_toggle i n prev =
     (if list_ex (\<lambda>p. fst p = i) prev then filter (\<lambda>p. fst p \<noteq> i) prev else take 2 (prev @ [(i, n)]))"

definition merge_valid :: "(string \<times> shield_note) list \<Rightarrow> bool" where
  "merge_valid picked \<longleftrightarrow> length picked = 2 \<and> ui_sameAsset (snd (picked ! 0)) (snd (picked ! 1))"

text \<open>\<open>gross * 0.003\<close> for every asset.\<close>

definition WITHDRAW_FEE_RATE :: "rat option" where
  "WITHDRAW_FEE_RATE = js_double (3 / 1000)"

record withdraw_draft =
  wf_gross :: "rat option"
  wf_fee :: "rat option"
  wf_net :: "rat option"
  wf_recipient :: "string option"

definition withdraw_form :: "(rat \<Rightarrow> rat) \<Rightarrow> shield_note option \<Rightarrow> string \<Rightarrow> withdraw_draft" where
  "withdraw_form pow10 selected recipient =
     (let gross = (case selected of Some n \<Rightarrow> noteDisplay pow10 n | None \<Rightarrow> Some 0); fee = js_mult gross WITHDRAW_FEE_RATE;
          to = js_trim recipient in
      \<lparr>wf_gross = gross, wf_fee = fee, wf_net = js_sub gross fee, wf_recipient = (if to = [] then None else Some to)\<rparr>)"

section \<open>Small numbers are exact\<close>

lemma round_half_even_int [simp]: "round_half_even (of_int k) = k"
  by (simp add: round_half_even_def)

lemma js_double_nat: "n < 2 ^ 53 \<Longrightarrow> js_double (of_nat n) = Some (of_nat n)"
proof (cases "n = 0")
  case False
  assume n: "n < 2 ^ 53"
  define m where "m = 53 - floorlog 2 n"
  have "0 < floorlog 2 n" using False floorlog_eq_zero_iff [of 2 n] by auto
  moreover have "floorlog 2 n \<le> 53" using n by (intro floorlog_leI) simp_all
  ultimately have e: "max (leading_bit \<bar>of_nat n\<bar> - 52) (- 1074) = - int m"
    using False by (simp add: leading_bit_def m_def)
  have "\<bar>of_nat n :: rat\<bar> / pow2 (- int m) = of_int (int n * 2 ^ m)" by (simp add: pow2_neg)
  then have v: "of_int (round_half_even (\<bar>of_nat n\<bar> / pow2 (- int m))) * pow2 (- int m) = (of_nat n :: rat)"
    by (simp only: round_half_even_int) (simp add: pow2_neg)
  have "(of_nat n :: rat) < of_nat (2 ^ 53)" using n by (simp only: of_nat_less_iff)
  also have "\<dots> < 2 ^ 1024" by simp
  finally have "\<not> 2 ^ 1024 \<le> (of_nat n :: rat)" by (simp only: not_le)
  then show ?thesis using False unfolding js_double_def Let_def e v by (simp only: of_nat_eq_0_iff if_False of_nat_less_0_iff)
qed (simp add: js_double_def)

lemma js_double_positive: "1 / 2 ^ 1022 \<le> r \<Longrightarrow> r < 2 ^ 1023 \<Longrightarrow> positive (js_double r)"
proof -
  assume r: "1 / 2 ^ 1022 \<le> r" "r < 2 ^ 1023"
  then have p: "0 < r" using less_le_trans [of 0 "1 / 2 ^ 1022" r] by simp
  obtain v where v: "js_double r = Some v" "\<bar>v - r\<bar> \<le> r / 2 ^ 53" using js_double_close [OF r] by blast
  have "r / 2 ^ 53 < r" using p by simp
  then have "0 < v" using v(2) by linarith
  then show ?thesis by (simp add: positive_def v(1))
qed

text \<open>The difference of two human amounts, rounded to the decimals of the asset, is the amount of the difference.\<close>

lemma human_close:
  assumes "0 < k" "k \<le> 2 ^ 50" "d \<le> 22"
  obtains x where "js_double (of_nat k / 10 ^ d) = Some x" "\<bar>x * 10 ^ d - of_nat k\<bar> \<le> 1 / 8" "0 < x"
proof -
  define K where "K = (of_nat k :: rat)"
  define D where "D = (10 ^ d :: rat)"
  have K: "1 \<le> K" "K \<le> 2 ^ 50" using assms(1,2) by (simp_all add: K_def)
  have "(10 :: rat) ^ d \<le> 10 ^ 22" using assms(3) by (intro power_increasing) simp_all
  then have D: "1 \<le> D" "D \<le> 10 ^ 22" by (simp_all add: D_def)
  have "(1 :: rat) / 2 ^ 1022 \<le> 1 / 10 ^ 22" by simp
  also have "\<dots> \<le> 1 / D" using D by (simp add: field_simps)
  also have "\<dots> \<le> K / D" using K D by (simp add: field_simps)
  finally have lo: "1 / 2 ^ 1022 \<le> K / D" .
  have "K / D \<le> K" using K D by (simp add: field_simps)
  then have "K / D \<le> 2 ^ 50" using K(2) by linarith
  then have hi: "K / D < 2 ^ 1023" by (rule le_less_trans) simp
  obtain x where x: "js_double (K / D) = Some x" "\<bar>x - K / D\<bar> \<le> K / D / 2 ^ 53" using js_double_close [OF lo hi] by blast
  have "\<bar>x * D - K\<bar> = \<bar>x - K / D\<bar> * D" using D by (simp add: abs_mult [symmetric] field_simps)
  also have "\<dots> \<le> K / D / 2 ^ 53 * D" using x(2) D by (intro mult_right_mono) simp_all
  also have "\<dots> = K / 2 ^ 53" using D by simp
  also have "\<dots> \<le> 1 / 8" using K(2) by simp
  finally have "\<bar>x * D - K\<bar> \<le> 1 / 8" .
  moreover have "0 < x" using js_double_positive [OF lo hi] by (simp add: positive_def x(1))
  ultimately show ?thesis using that x(1) by (simp add: K_def D_def)
qed


lemma fixed_difference:
  assumes T: "T \<le> 2 ^ 50" "0 < k" "k < T" and d: "d \<le> 22"
    and x: "\<bar>x * 10 ^ d - of_nat T\<bar> \<le> 1 / 8" and y: "\<bar>y * 10 ^ d - of_nat k\<bar> \<le> 1 / 8"
  shows "js_fixed (js_sub (Some x) (Some y)) (of_nat d) = Inr (js_double (of_nat (T - k) / 10 ^ d))"
proof -
  define D where "D = (10 ^ d :: rat)"
  define R where "R = (x - y) * D"
  define N where "N = (of_nat (T - k) :: rat)"
  have "(10 :: rat) ^ d \<le> 10 ^ 22" using d by (intro power_increasing) simp_all
  then have D: "1 \<le> D" "D \<le> 10 ^ 22" by (simp_all add: D_def)
  have N: "N = of_nat T - of_nat k" using T by (simp add: N_def of_nat_diff)
  have "R = x * D - y * D" by (simp add: R_def algebra_simps)
  then have R: "\<bar>R - N\<bar> \<le> 1 / 4" using x y unfolding N D_def [symmetric] by linarith
  have "1 \<le> N" using T(2,3) by (simp add: N_def)
  moreover have "N \<le> of_nat T" using T(2) by (simp add: N)
  moreover have "(of_nat T :: rat) \<le> 2 ^ 50" using T(1) by simp
  ultimately have N1: "1 \<le> N" "N \<le> 2 ^ 50" by linarith+
  have R1: "3 / 4 \<le> R" "R \<le> 2 ^ 50 + 1" using R N1 by linarith+
  have xy: "x - y = R / D" using D by (simp add: R_def)
  have "(1 :: rat) / 2 ^ 1022 \<le> 3 / 4 / 10 ^ 22" by simp
  also have "\<dots> \<le> 3 / 4 / D" using D by (simp add: field_simps)
  also have "\<dots> \<le> R / D" using R1(1) D by (intro divide_right_mono) simp_all
  finally have lo: "1 / 2 ^ 1022 \<le> R / D" .
  have "R / D \<le> R" using R1 D by (simp add: field_simps)
  then have s: "R / D \<le> 2 ^ 50 + 1" using R1(2) by linarith
  then have hi: "R / D < 2 ^ 1023" by (rule le_less_trans) simp
  obtain z where z: "js_double (R / D) = Some z" "\<bar>z - R / D\<bar> \<le> R / D / 2 ^ 53" using js_double_close [OF lo hi] by blast
  have "\<bar>z * D - R\<bar> = \<bar>z - R / D\<bar> * D" using D by (simp add: abs_mult [symmetric] field_simps)
  also have "\<dots> \<le> R / D / 2 ^ 53 * D" using z(2) D by (intro mult_right_mono) simp_all
  also have "\<dots> = R / 2 ^ 53" using D by simp
  also have "\<dots> < 1 / 4" using R1(2) by simp
  finally have zD: "\<bar>z * D - N\<bar> < 1 / 2" using R by linarith
  have "0 < z" using js_double_positive [OF lo hi] by (simp add: positive_def z(1))
  have "0 \<le> R / D" using R1 D by simp
  then have "R / D / 2 ^ 53 \<le> R / D" by simp
  moreover have "z - R / D \<le> R / D / 2 ^ 53" using z(2) by (simp only: abs_le_iff)
  ultimately have "z \<le> R / D + R / D" by linarith
  also have "\<dots> \<le> (2 ^ 50 + 1) + (2 ^ 50 + 1)" using s s by (rule add_mono)
  finally have "z \<le> (2 ^ 50 + 1) + (2 ^ 50 + 1)" .
  then have "z < 10 ^ 21" by (rule le_less_trans) simp
  moreover have "\<lfloor>z * D + 1 / 2\<rfloor> = int (T - k)"
    unfolding floor_eq_iff of_int_of_nat_eq N_def [symmetric] using zD unfolding abs_less_iff by (intro conjI) linarith+
  ultimately show ?thesis
    using \<open>0 < z\<close> z(1) d xy by (simp add: js_fixed_def js_sub_def D_def not_le)
qed

lemma noteDisplay_small:
  assumes "pow10 (of_nat d) = 10 ^ d" "snd (noteAsset n) = of_nat d" "sh_amount n = int T" "T \<le> 2 ^ 50"
  shows "noteDisplay pow10 n = js_double (of_nat T / 10 ^ d)"
proof -
  have "T < 2 ^ 53" using assms(4) by (rule le_less_trans) simp
  then show ?thesis using js_double_nat [of T] by (simp add: noteDisplay_def unitsToDisplay_def assms)
qed

text \<open>C33: The split form adds up: for a note of up to 2 ^ 50 base units of an asset with up to 22 decimals, an amount A that a
  user writes with no more decimals than the asset has, between zero and the note, makes the form valid, and the client
  reads its two amounts as A and exactly the rest of the note, so it does not refuse the split, although the form
  computes the rest by subtracting and rounding doubles.\<close>

theorem split_form_adds_up:
  assumes "pow10 (of_nat d) = 10 ^ d" "d \<le> 22" "snd (noteAsset n) = of_nat d" "sh_amount n = int T" "T \<le> 2 ^ 50"
    and "js_Number_text a = Some (of_nat k / 10 ^ d)" "0 < k" "k < T"
  shows "\<exists>f. split_form pow10 (Some n) a = Inr f \<and> lf_valid f
    \<and> toBaseUnits pow10 (AmountNumber (lf_amountA f)) (of_nat d) = Inr (int k)
    \<and> toBaseUnits pow10 (AmountNumber (lf_amountB f)) (of_nat d) = Inr (sh_amount n - int k)"
proof -
  have T: "0 < T" "k \<le> 2 ^ 50" "0 < T - k" "T - k \<le> 2 ^ 50" using assms(5,7,8) by simp_all
  obtain x where x: "js_double (of_nat T / 10 ^ d) = Some x" "\<bar>x * 10 ^ d - of_nat T\<bar> \<le> 1 / 8" "0 < x"
    by (rule human_close [OF T(1) assms(5,2)])
  obtain y where y: "js_double (of_nat k / 10 ^ d) = Some y" "\<bar>y * 10 ^ d - of_nat k\<bar> \<le> 1 / 8" "0 < y"
    by (rule human_close [OF assms(7) T(2) assms(2)])
  obtain z where z: "js_double (of_nat (T - k) / 10 ^ d) = Some z" "\<bar>z * 10 ^ d - of_nat (T - k)\<bar> \<le> 1 / 8" "0 < z"
    by (rule human_close [OF T(3,4) assms(2)])
  have A: "js_Number_double a = Some y" using y(1) by (simp add: js_Number_double_def assms(6))
  note B = fixed_difference [OF assms(5,7,8,2) x(2) y(2)]
  have "split_form pow10 (Some n) a = Inr \<lparr>lf_amountA = Some y, lf_amountB = Some z, lf_valid = True\<rparr>"
    using noteDisplay_small [of pow10 d n T, OF assms(1,3,4,5)] x(1) B z(1) y(3) z(3)
    by (simp add: split_form_def A assms(3) positive_def)
  moreover have "toBaseUnits pow10 (AmountNumber (Some y)) (of_nat d) = Inr (int k)"
    using human_amount_exact [of pow10 d k, OF assms(1,2) T(2)] y(1) by simp
  moreover have "toBaseUnits pow10 (AmountNumber (Some z)) (of_nat d) = Inr (sh_amount n - int k)"
    using human_amount_exact [of pow10 d "T - k", OF assms(1,2) T(4)] z(1) assms(4,8) by (simp add: of_nat_diff)
  ultimately show ?thesis by simp
qed


text \<open>A deposit the shield form lets through is not below the minimum of the client.\<close>

lemma shield_form_minimum:
  assumes "hf_valid (shield_form (Some a) t)" "as_native a" "as_decimals a = 6" "pow10 6 = 10 ^ 6"
    and "hf_amount (shield_form (Some a) t) = Some x" "x \<le> 2 ^ 50"
  shows "\<exists>b. toBaseUnits pow10 (AmountNumber (hf_amount (shield_form (Some a) t))) (as_decimals a) = Inr b \<and> MIN_SHIELD \<le> b"
proof -
  have x: "1 \<le> x" using assms(1,2,5) by (simp add: shield_form_def Let_def MIN_SHIELD_STX_def)
  define r where "r = x * 10 ^ 6"
  have r: "10 ^ 6 \<le> r" "r \<le> 2 ^ 50 * 10 ^ 6" using x assms(6) by (simp_all add: r_def)
  have "(1 :: rat) / 2 ^ 1022 \<le> 10 ^ 6" by simp
  then have lo: "1 / 2 ^ 1022 \<le> r" using r(1) by (rule order_trans)
  have hi: "r < 2 ^ 1023" using r(2) by (rule le_less_trans) simp
  obtain p where p: "js_double r = Some p" "\<bar>p - r\<bar> \<le> r / 2 ^ 53" using js_double_close [OF lo hi] by blast
  have "r - r / 2 ^ 53 \<le> p" using p(2) unfolding abs_le_iff by linarith
  then have "r * (1 - 1 / 2 ^ 53) \<le> p" by (simp add: right_diff_distrib)
  moreover have "10 ^ 6 * (1 - 1 / 2 ^ 53) \<le> r * (1 - 1 / 2 ^ 53)" using r(1) by (intro mult_right_mono) simp_all
  moreover have "(10 ^ 6 :: rat) - 1 / 2 \<le> 10 ^ 6 * (1 - 1 / 2 ^ 53)" by simp
  ultimately have "of_int MIN_SHIELD \<le> p + 1 / 2" unfolding MIN_SHIELD_def by simp
  then have "MIN_SHIELD \<le> \<lfloor>p + 1 / 2\<rfloor>" by (simp only: le_floor_iff)
  then show ?thesis
    using assms(3,4,5) p(1) by (simp add: toBaseUnits_def r_def)
qed

text \<open>The merge form: at most two notes, and never the same one twice.\<close>

definition merge_form_inv :: "(string \<times> shield_note) list \<Rightarrow> bool" where
  "merge_form_inv picked \<longleftrightarrow> length picked \<le> 2 \<and> distinct (map fst picked)"

lemma merge_toggle_inv:
  assumes "merge_form_inv picked"
  shows "merge_form_inv (merge_toggle i n picked)"
proof (cases "list_ex (\<lambda>p. fst p = i) picked")
  case True
  have "length (filter (\<lambda>p. fst p \<noteq> i) picked) \<le> 2"
    using assms by (auto simp: merge_form_inv_def intro: le_trans [OF length_filter_le])
  then show ?thesis using True assms by (simp add: merge_toggle_def merge_form_inv_def distinct_map_filter)
next
  case False
  then have "distinct (map fst (picked @ [(i, n)]))" using assms by (auto simp: merge_form_inv_def list_ex_iff)
  then have "distinct (take 2 (map fst (picked @ [(i, n)])))" by (rule distinct_take)
  then have "distinct (map fst (take 2 (picked @ [(i, n)])))" by (simp only: take_map)
  then show ?thesis using False by (simp add: merge_toggle_def merge_form_inv_def del: take_append)
qed

text \<open>Two notes the merge form offers to merge are different notes: the form never leads to the merge the circuit refuses.\<close>

lemma merge_form_distinct:
  assumes "merge_form_inv picked" "merge_valid picked" "\<forall>p \<in> set picked. fst p = noteKey None (snd p)"
  shows "sh_commitment (snd (picked ! 0)) \<noteq> sh_commitment (snd (picked ! 1))"
proof -
  obtain p q where "picked = [p, q]" using assms(2) by (auto simp: merge_valid_def length_Suc_conv numeral_2_eq_2)
  then show ?thesis using assms by (auto simp: merge_form_inv_def noteKey_def)
qed

text \<open>The transfer form sends the value of the note that was selected: the amount it shows is read by the client as
  exactly that many base units, and as long as the note is in the store and unspent the client finds a note of that
  amount and asset to send; it is a note of the same value, but the first such note of the store, which need not be
  the one the user selected.\<close>

theorem transfer_form_finds_note:
  assumes "pow10 (of_nat d) = 10 ^ d" "d \<le> 22" "snd (noteAsset n) = of_nat d" "as_decimals asset = of_nat d" "sh_amount n = int T" "T \<le> 2 ^ 50"
    and "n \<in> set (store_unspent st)" "sameAsset (sh_asset n) asset"
  shows "\<exists>m. toBaseUnits pow10 (AmountNumber (tf_amount (transfer_form pow10 (Some n) to))) (as_decimals asset) = Inr (sh_amount n)
    \<and> pickNote (sh_amount n) asset st = Inr m \<and> m \<in> set (store_unspent st) \<and> sh_amount m = sh_amount n \<and> sameAsset (sh_asset m) asset
    \<and> Some m = find (\<lambda>x. sh_amount x = sh_amount n \<and> sameAsset (sh_asset x) asset) (store_unspent st)"
proof -
  have a: "toBaseUnits pow10 (AmountNumber (tf_amount (transfer_form pow10 (Some n) to))) (as_decimals asset) = Inr (sh_amount n)"
    using noteDisplay_small [of pow10 d n T, OF assms(1,3,5,6)] human_amount_exact [of pow10 d T, OF assms(1,2,6)] assms(4,5)
    by (simp add: transfer_form_def)
  let ?P = "\<lambda>x. sh_amount x = sh_amount n \<and> sameAsset (sh_asset x) asset"
  obtain m where m: "find ?P (store_unspent st) = Some m"
    using assms(7,8) by (cases "find ?P (store_unspent st)") (auto simp: find_None_iff)
  then have "m \<in> set (store_unspent st) \<and> ?P m" by (auto simp: find_Some_iff)
  then show ?thesis using a m by (simp add: pickNote_def)
qed

definition demo_form_asset :: asset_info where
  "demo_form_asset =
     \<lparr>as_id = 0, as_symbol = ''STX'', as_token = None, as_decimals = 6, as_active = True, as_native = True, as_pool = ''p'',
      as_verifier = ''v'', as_splitMerge = ''m'', as_protocolFees = ''f''\<rparr>"

definition demo_form_note :: shield_note where
  "demo_form_note =
     \<lparr>sh_commitment = ''0x01'', sh_ciphertext = [], sh_root = [], sh_txid = [], sh_amount = 2000000, sh_asset = Some demo_form_asset,
      sh_spent = False, sh_status = None,
      sh_secret = \<lparr>sec_ownerSk = 1, sec_ownerPkX = 1, sec_ownerPkY = 1, sec_blinding = 1, sec_leafIndex = None, sec_assetId = None, sec_assetField = None\<rparr>\<rparr>"

lemma demo_form_facts:
  "snd (noteAsset demo_form_note) = of_nat 6" "sh_amount demo_form_note = int 2000000" "as_decimals demo_form_asset = of_nat 6"
  "sameAsset (sh_asset demo_form_note) demo_form_asset"
  by (simp_all add: demo_form_note_def demo_form_asset_def noteAsset_def sameAsset_def)

lemma split_form_adds_up_witness:
  "\<exists>f. split_form (\<lambda>r. if r = of_nat 6 then 10 ^ 6 else 1) (Some demo_form_note) ''1'' = Inr f \<and> lf_valid f
     \<and> toBaseUnits (\<lambda>r. if r = of_nat 6 then 10 ^ 6 else 1) (AmountNumber (lf_amountB f)) (of_nat 6) = Inr 1000000"
proof -
  have "dec_of_nat 1 = ''1''" by code_simp
  then have t: "js_Number_text ''1'' = Some (of_nat 1000000 / 10 ^ 6)" using js_Number_dec [of 1] by simp
  have b: "(2000000 :: nat) \<le> 2 ^ 50" by simp
  show ?thesis
    using split_form_adds_up [of "\<lambda>r. if r = of_nat 6 then 10 ^ 6 else 1" 6 demo_form_note 2000000, OF _ _ demo_form_facts(1,2) b t]
    by (auto simp: demo_form_facts(2))
qed

lemma transfer_form_demo:
  "\<exists>m. pickNote 2000000 demo_form_asset (store_add demo_form_note []) = Inr m \<and> sh_amount m = 2000000"
proof -
  have "demo_form_note \<in> set (store_unspent (store_add demo_form_note []))"
    by (simp add: store_unspent_def store_add_def demo_form_note_def)
  then show ?thesis
    using transfer_form_finds_note [of "\<lambda>r. if r = of_nat 6 then 10 ^ 6 else 1" 6 demo_form_note demo_form_asset 2000000
        "store_add demo_form_note []"] demo_form_facts by auto
qed

end
