(* ===== verification/WebState.thy ===== *)
theory WebState
  imports WebForms
begin

text \<open>
  The state of the web frontend outside its forms: the one SDK client of a session
  (\<open>frontend/src/services/sdk/shield.service.ts\<close>), the wallet session (\<open>services/sdk/wallet.ts\<close>, \<open>store/wallet.ts\<close>,
  \<open>features/wallet/useWallet.ts\<close>), the address shown on the settings page, the stages of an operation
  (\<open>shared/hooks/useOperation.ts\<close>), the notifications store and the list of notes. The pages are a step relation over
  events; an event that waits for the wallet is taken where it ends, with the wallet's answer as its argument.
\<close>

section \<open>The SDK client of the session\<close>

text \<open>What the constructor of the client is given that depends on the wallet: whose signer, and the name of the vault.\<close>

record web_client =
  wc_signer :: "string option"
  wc_vault :: string

record web_service =
  sv_instance :: "web_client option"
  sv_signer :: "string option"
  sv_address :: "string option"

definition ShieldService :: web_service where
  "ShieldService = \<lparr>sv_instance = None, sv_signer = None, sv_address = None\<rparr>"

text \<open>A signer is named by the address it was created for (\<open>createWalletSigner\<close>).\<close>

definition setSigner :: "string option \<Rightarrow> string option \<Rightarrow> web_service \<Rightarrow> web_service" where
  "setSigner signer address s =
     s\<lparr>sv_instance := (if sv_address s \<noteq> address then None else sv_instance s), sv_signer := signer, sv_address := address\<rparr>"

definition vault_of :: "string option \<Rightarrow> string" where
  "vault_of address = ''stxshield.notes.'' @ (case address of Some a \<Rightarrow> a | None \<Rightarrow> ''default'')"

definition getInstance :: "web_service \<Rightarrow> web_client \<times> web_service" where
  "getInstance s =
     (case sv_instance s of
        Some c \<Rightarrow> (c, s)
      | None \<Rightarrow> (let c = \<lparr>wc_signer = sv_signer s, wc_vault = vault_of (sv_address s)\<rparr> in (c, s\<lparr>sv_instance := Some c\<rparr>)))"

definition service_reset :: "web_service \<Rightarrow> web_service" where
  "service_reset s = s\<lparr>sv_instance := None, sv_signer := None, sv_address := None\<rparr>"

section \<open>The wallet session\<close>

text \<open>What the wallet extension answers: it fails, it names no address, or it names one.\<close>

datatype wallet_answer = WalletFails string | WalletSays "string option"

definition saveSession :: "string option \<Rightarrow> string option \<Rightarrow> string option" where
  "saveSession session stored = session"

definition loadSession :: "string option \<Rightarrow> string option" where
  "loadSession stored = (case stored of Some t \<Rightarrow> if t = [] then None else Some t | None \<Rightarrow> None)"

definition connectWallet :: "wallet_answer \<Rightarrow> string option \<Rightarrow> (string, string) result \<times> string option" where
  "connectWallet answer stored =
     (case answer of
        WalletFails e \<Rightarrow> (Inl e, stored)
      | WalletSays None \<Rightarrow> (Inl ''No Stacks address returned by the wallet.'', stored)
      | WalletSays (Some a) \<Rightarrow>
          if a = [] then (Inl ''No Stacks address returned by the wallet.'', stored) else (Inr a, saveSession (Some a) stored))"

definition restoreWallet :: "bool \<Rightarrow> wallet_answer \<Rightarrow> string option \<Rightarrow> string option \<times> string option" where
  "restoreWallet on_line answer stored =
     (case answer of
        WalletFails e \<Rightarrow> (loadSession stored, stored)
      | WalletSays a \<Rightarrow>
          if \<not> on_line \<or> a = None \<or> a = Some [] then (None, stored) else (a, saveSession a stored))"

text \<open>The \<open>finally\<close> clears the stored session also when the wallet fails to disconnect; the error then goes on.\<close>

definition disconnectWallet :: "string option \<Rightarrow> string option \<Rightarrow> (string, unit) result \<times> string option" where
  "disconnectWallet failure stored = (case failure of Some e \<Rightarrow> Inl e | None \<Rightarrow> Inr (), saveSession None stored)"

datatype wallet_status = Disconnected | Connecting | Connected

text \<open>The store's \<open>shieldAddress\<close> is \<open>null\<close> or \<open>undefined\<close> until it is set; here \<open>None\<close> is both.\<close>

record wallet_store =
  st_status :: wallet_status
  st_address :: "string option"
  st_shieldAddress :: "string option"

definition useWalletStore :: wallet_store where
  "useWalletStore = \<lparr>st_status = Disconnected, st_address = None, st_shieldAddress = None\<rparr>"

definition setStatus :: "wallet_status \<Rightarrow> wallet_store \<Rightarrow> wallet_store" where
  "setStatus status s = s\<lparr>st_status := status\<rparr>"

definition setSession :: "string option \<Rightarrow> wallet_store \<Rightarrow> wallet_store" where
  "setSession session s =
     s\<lparr>st_address := session, st_status := (if session = None then Disconnected else Connected), st_shieldAddress := None\<rparr>"

definition setShieldAddress :: "string option \<Rightarrow> wallet_store \<Rightarrow> wallet_store" where
  "setShieldAddress a s = s\<lparr>st_shieldAddress := a\<rparr>"

definition isConnected :: "wallet_store \<Rightarrow> bool" where
  "isConnected s \<longleftrightarrow> st_status s = Connected \<and> st_address s \<noteq> None \<and> st_address s \<noteq> Some []"

section \<open>The pages as a step relation\<close>

text \<open>\<open>wb_shown\<close> is the state \<open>shieldAddr\<close> of the settings page, which lives as long as the page is open.\<close>

record web =
  wb_service :: web_service
  wb_store :: wallet_store
  wb_stored :: "string option"
  wb_bootstrapped :: bool
  wb_shown :: "string option"

definition web_start :: "string option \<Rightarrow> web" where
  "web_start stored =
     \<lparr>wb_service = ShieldService, wb_store = useWalletStore, wb_stored = stored, wb_bootstrapped = False, wb_shown = None\<rparr>"

definition enter_session :: "string \<Rightarrow> web \<Rightarrow> web" where
  "enter_session a w = w\<lparr>wb_service := setSigner (Some a) (Some a) (wb_service w), wb_store := setSession (Some a) (wb_store w)\<rparr>"

definition bootstrap :: "bool \<Rightarrow> wallet_answer \<Rightarrow> web \<Rightarrow> web" where
  "bootstrap on_line answer w =
     (if wb_bootstrapped w then w
      else (let (session, stored) = restoreWallet on_line answer (wb_stored w); w' = w\<lparr>wb_stored := stored, wb_bootstrapped := True\<rparr> in
            (case session of None \<Rightarrow> w' | Some a \<Rightarrow> enter_session a w')))"

definition connect_begin :: "web \<Rightarrow> web" where
  "connect_begin w = w\<lparr>wb_store := setStatus Connecting (wb_store w)\<rparr>"

definition connect_end :: "wallet_answer \<Rightarrow> web \<Rightarrow> web" where
  "connect_end answer w =
     (let (r, stored) = connectWallet answer (wb_stored w); w' = w\<lparr>wb_stored := stored\<rparr> in
      (case r of Inr a \<Rightarrow> enter_session a w' | Inl e \<Rightarrow> w'\<lparr>wb_store := setStatus Disconnected (wb_store w')\<rparr>))"

definition web_disconnect :: "string option \<Rightarrow> web \<Rightarrow> web" where
  "web_disconnect failure w =
     (let (r, stored) = disconnectWallet failure (wb_stored w); w' = w\<lparr>wb_stored := stored\<rparr> in
      (case r of
         Inl e \<Rightarrow> w'
       | Inr u \<Rightarrow> w'\<lparr>wb_service := service_reset (wb_service w'),
                      wb_store := setShieldAddress None (setSession None (wb_store w'))\<rparr>))"

definition getShield :: "web \<Rightarrow> web_client \<times> web" where
  "getShield w = (let (c, s) = getInstance (wb_service w) in (c, w\<lparr>wb_service := s\<rparr>))"

text \<open>\<open>reveal\<close> on the settings page, whose button is off while no wallet is on_line; \<open>addressOf\<close> is what \<open>getAddress\<close> of a
  client answers.\<close>

definition reveal :: "(web_client \<Rightarrow> string option) \<Rightarrow> web \<Rightarrow> web" where
  "reveal addressOf w =
     (let (c, w') = getShield w in (case addressOf c of Some a \<Rightarrow> w'\<lparr>wb_shown := Some a\<rparr> | None \<Rightarrow> w'))"

inductive web_step :: "(web_client \<Rightarrow> string option) \<Rightarrow> web \<Rightarrow> web \<Rightarrow> bool" for f where
  step_bootstrap: "web_step f w (bootstrap on_line answer w)"
| step_connect_begin: "st_status (wb_store w) \<noteq> Connecting \<Longrightarrow> web_step f w (connect_begin w)"
| step_connect_end: "web_step f w (connect_end answer w)"
| step_disconnect: "web_step f w (web_disconnect failure w)"
| step_client: "web_step f w (snd (getShield w))"
| step_reveal: "isConnected (wb_store w) \<Longrightarrow> web_step f w (reveal f w)"

inductive web_reachable :: "(web_client \<Rightarrow> string option) \<Rightarrow> web \<Rightarrow> bool" for f where
  reach_start: "web_reachable f (web_start stored)"
| reach_step: "web_reachable f w \<Longrightarrow> web_step f w w' \<Longrightarrow> web_reachable f w'"

section \<open>The stages of an operation\<close>

datatype op_step = Idle | Preparing | Proving | Submitting | Confirming | Done | OpError

definition STEP_PROGRESS :: "op_step \<Rightarrow> nat" where
  "STEP_PROGRESS s =
     (case s of Idle \<Rightarrow> 0 | Preparing \<Rightarrow> 12 | Proving \<Rightarrow> 45 | Submitting \<Rightarrow> 78 | Confirming \<Rightarrow> 92 | Done \<Rightarrow> 100 | OpError \<Rightarrow> 100)"

datatype op_hook = UseShield | UseTransfer | UseSplit | UseMerge | UseWithdraw

text \<open>The stages a hook's \<open>run\<close> sets, up to the await on the client and after it.\<close>

definition run_steps :: "op_hook \<Rightarrow> op_step list \<times> op_step list" where
  "run_steps h = ([Proving, Submitting], if h = UseShield then [Confirming] else [])"

datatype op_outcome = ClientMissing | CallFails | CallReturns

definition useOperation :: "op_hook \<Rightarrow> op_outcome \<Rightarrow> op_step list" where
  "useOperation h out =
     (case out of
        ClientMissing \<Rightarrow> [Preparing, OpError]
      | CallFails \<Rightarrow> Preparing # fst (run_steps h) @ [OpError]
      | CallReturns \<Rightarrow> Preparing # fst (run_steps h) @ snd (run_steps h) @ [Done])"

section \<open>Notifications\<close>

datatype NotificationKind = NInfo | NSuccess | NWarning | NError

record notification =
  no_id :: string
  no_kind :: NotificationKind
  no_title :: string
  no_description :: "string option"
  no_createdAt :: int
  no_read :: bool

record notification_state =
  ns_items :: "notification list"
  ns_unread :: nat

definition notifications_start :: notification_state where
  "notifications_start = \<lparr>ns_items = [], ns_unread = 0\<rparr>"

definition notify_push :: "string \<Rightarrow> int \<Rightarrow> NotificationKind \<Rightarrow> string \<Rightarrow> string option \<Rightarrow> notification_state \<Rightarrow> notification_state" where
  "notify_push uid now nkind title description s =
     (let item = \<lparr>no_id = uid, no_kind = nkind, no_title = title, no_description = description, no_createdAt = now, no_read = False\<rparr> in
      \<lparr>ns_items = take 50 (item # ns_items s), ns_unread = ns_unread s + 1\<rparr>)"

definition markAllRead :: "notification_state \<Rightarrow> notification_state" where
  "markAllRead s = \<lparr>ns_items = map (\<lambda>i. i\<lparr>no_read := True\<rparr>) (ns_items s), ns_unread = 0\<rparr>"

definition notify_remove :: "string \<Rightarrow> notification_state \<Rightarrow> notification_state" where
  "notify_remove i s =
     \<lparr>ns_items = filter (\<lambda>x. no_id x \<noteq> i) (ns_items s),
      ns_unread = (case find (\<lambda>x. no_id x = i) (ns_items s) of
          Some x \<Rightarrow> if no_read x then ns_unread s else ns_unread s - 1 | None \<Rightarrow> ns_unread s)\<rparr>"

definition notify_clear :: "notification_state \<Rightarrow> notification_state" where
  "notify_clear s = \<lparr>ns_items = [], ns_unread = 0\<rparr>"

section \<open>The list of notes\<close>

definition PAGE_SIZE :: nat where
  "PAGE_SIZE = 8"

definition notes_pages :: "shield_note list \<Rightarrow> nat" where
  "notes_pages filtered = max 1 ((length filtered + PAGE_SIZE - 1) div PAGE_SIZE)"

definition notes_visible :: "nat \<Rightarrow> shield_note list \<Rightarrow> shield_note list" where
  "notes_visible page filtered =
     (let current = min page (notes_pages filtered - 1) in take PAGE_SIZE (drop (current * PAGE_SIZE) filtered))"

definition picker_notes :: "shield_note list option \<Rightarrow> shield_note list" where
  "picker_notes data = filter (\<lambda>n. \<not> sh_spent n) (case data of Some ns \<Rightarrow> ns | None \<Rightarrow> [])"

definition picker_blocked :: "bool \<Rightarrow> nat option \<Rightarrow> string list \<Rightarrow> string \<Rightarrow> bool" where
  "picker_blocked multi mx selected i \<longleftrightarrow>
     multi \<and> i \<notin> set selected \<and> (case mx of Some m \<Rightarrow> m \<le> length selected | None \<Rightarrow> False)"

section \<open>One client per wallet\<close>

definition service_inv :: "web_service \<Rightarrow> bool" where
  "service_inv s \<longleftrightarrow> sv_signer s = sv_address s \<and>
     (case sv_instance s of None \<Rightarrow> True | Some c \<Rightarrow> wc_signer c = sv_signer s \<and> wc_vault c = vault_of (sv_address s))"

definition web_inv :: "web \<Rightarrow> bool" where
  "web_inv w \<longleftrightarrow> service_inv (wb_service w) \<and> st_address (wb_store w) = sv_address (wb_service w)"

named_theorems web_defs

declare setStatus_def [web_defs] setSession_def [web_defs] setShieldAddress_def [web_defs] enter_session_def [web_defs]
  connect_begin_def [web_defs] web_inv_def [web_defs]

lemma service_inv_ops [simp]:
  "service_inv ShieldService"
  "service_inv (service_reset s)"
  "service_inv s \<Longrightarrow> service_inv (setSigner a a s)"
  "service_inv s \<Longrightarrow> service_inv (snd (getInstance s))"
  by (auto simp: service_inv_def ShieldService_def service_reset_def setSigner_def getInstance_def Let_def split: option.splits)

lemma service_address [simp]:
  "sv_address (setSigner x a s) = a" "sv_address (service_reset s) = None" "sv_address (snd (getInstance s)) = sv_address s"
  by (simp_all add: setSigner_def service_reset_def getInstance_def Let_def split: option.splits)

lemma enter_session_inv: "web_inv w \<Longrightarrow> web_inv (enter_session a w)"
  by (simp add: web_defs)

lemma web_inv_stored [simp]: "web_inv (w\<lparr>wb_stored := x\<rparr>) = web_inv w" "web_inv (w\<lparr>wb_bootstrapped := b\<rparr>) = web_inv w"
  "web_inv (w\<lparr>wb_shown := t\<rparr>) = web_inv w"
  by (simp_all add: web_inv_def)

lemma web_inv_status [simp]: "web_inv (w\<lparr>wb_store := setStatus st (wb_store w)\<rparr>) = web_inv w"
  by (simp add: web_defs)

lemma getShield_inv: "web_inv w \<Longrightarrow> web_inv (snd (getShield w))"
  by (simp add: web_inv_def getShield_def split: prod.splits) (metis service_address(3) service_inv_ops(4) snd_conv)

lemma web_step_inv: "web_step f w w' \<Longrightarrow> web_inv w \<Longrightarrow> web_inv w'"
proof (induction rule: web_step.induct)
  case (step_bootstrap w on_line answer)
  then show ?case by (auto simp: bootstrap_def Let_def intro!: enter_session_inv split: option.splits prod.splits)
next
  case (step_connect_begin w)
  then show ?case by (simp add: web_defs)
next
  case (step_connect_end w answer)
  have s: "web_inv (v\<lparr>wb_store := setStatus Disconnected (wb_store v)\<rparr>) = web_inv v" for v by (rule web_inv_status)
  show ?case using step_connect_end s [of "w\<lparr>wb_stored := _\<rparr>"]
    by (auto simp: connect_end_def Let_def intro!: enter_session_inv split: sum.splits prod.splits)
next
  case (step_disconnect w failure)
  then show ?case by (cases failure) (simp_all add: web_disconnect_def disconnectWallet_def Let_def web_defs)
next
  case (step_client w)
  then show ?case by (rule getShield_inv)
next
  case (step_reveal w)
  then show ?case using getShield_inv [of w] by (auto simp: reveal_def Let_def split: prod.splits option.splits)
qed

lemma web_start_inv: "web_inv (web_start stored)"
  by (simp add: web_inv_def web_start_def useWalletStore_def) (simp add: ShieldService_def)

lemma web_reachable_inv: "web_reachable f w \<Longrightarrow> web_inv w"
  by (induction rule: web_reachable.induct) (simp_all add: web_start_inv web_step_inv)


text \<open>The settings page keeps the shield address it has revealed when the wallet is changed: after \<open>a\<close> disconnects and \<open>b\<close>
  connects, the page shows the address of \<open>a\<close> as the one to share.\<close>

definition switch_wallets :: "(web_client \<Rightarrow> string option) \<Rightarrow> string \<Rightarrow> string \<Rightarrow> web" where
  "switch_wallets f a b =
     connect_end (WalletSays (Some b)) (web_disconnect None (reveal f (connect_end (WalletSays (Some a)) (web_start None))))"

lemma revealed_address_survives_switch:
  assumes "a \<noteq> []" "b \<noteq> []" "f \<lparr>wc_signer = Some a, wc_vault = vault_of (Some a)\<rparr> = Some x"
  shows "web_reachable f (switch_wallets f a b) \<and> isConnected (wb_store (switch_wallets f a b))
    \<and> st_address (wb_store (switch_wallets f a b)) = Some b \<and> wb_shown (switch_wallets f a b) = Some x"
proof -
  let ?w = "connect_end (WalletSays (Some a)) (web_start None)"
  have w: "?w = \<lparr>wb_service = \<lparr>sv_instance = None, sv_signer = Some a, sv_address = Some a\<rparr>,
      wb_store = \<lparr>st_status = Connected, st_address = Some a, st_shieldAddress = None\<rparr>, wb_stored = Some a,
      wb_bootstrapped = False, wb_shown = None\<rparr>"
    using assms(1) by (simp add: connect_end_def connectWallet_def web_start_def saveSession_def enter_session_def setSigner_def
        ShieldService_def useWalletStore_def setSession_def)
  have "isConnected (wb_store ?w)" using assms(1) by (simp add: w isConnected_def)
  then have "web_reachable f (switch_wallets f a b)"
    unfolding switch_wallets_def by (intro reach_step [OF _ step_connect_end] reach_step [OF _ step_disconnect]
        reach_step [OF _ step_reveal] reach_start) 
  then show ?thesis using assms
    by (simp add: switch_wallets_def w reveal_def getShield_def getInstance_def Let_def connect_end_def [of "WalletSays (Some b)"]
        web_disconnect_def disconnectWallet_def connectWallet_def enter_session_def setSession_def setShieldAddress_def isConnected_def)
qed

section \<open>Stages, notifications and pages\<close>

lemma progress_grows: "sorted_wrt (<) (map STEP_PROGRESS (useOperation h out))"
  by (cases h; cases out) (simp_all add: useOperation_def run_steps_def STEP_PROGRESS_def)

text \<open>The badge never counts fewer than the unread items; it may count more, since an item cut off by the limit of 50 stays in
  the count.\<close>

definition unread_items :: "notification_state \<Rightarrow> nat" where
  "unread_items s = length (filter (\<lambda>i. \<not> no_read i) (ns_items s))"

lemma notify_push_badge:
  "unread_items s \<le> ns_unread s \<Longrightarrow> unread_items (notify_push u now k t d s) \<le> ns_unread (notify_push u now k t d s)"
proof -
  assume a: "unread_items s \<le> ns_unread s"
  have "length (filter p (take n xs)) \<le> length (filter p xs)" for p and n :: nat and xs :: "notification list"
    by (metis append_take_drop_id filter_append le_add1 length_append)
  from this [of "\<lambda>i. \<not> no_read i" 49 "ns_items s"] a show ?thesis by (simp add: unread_items_def notify_push_def)
qed

lemma notify_remove_badge:
  assumes "distinct (map no_id (ns_items s))" "unread_items s \<le> ns_unread s"
  shows "unread_items (notify_remove i s) \<le> ns_unread (notify_remove i s)"
proof (cases "find (\<lambda>x. no_id x = i) (ns_items s)")
  case None
  then have "filter (\<lambda>x. no_id x \<noteq> i) (ns_items s) = ns_items s" by (auto simp: find_None_iff intro!: filter_True)
  then show ?thesis using assms None by (simp add: unread_items_def notify_remove_def)
next
  case (Some x)
  then obtain us vs where e: "ns_items s = us @ x # vs" "no_id x = i" by (auto simp: find_Some_iff dest!: nth_mem split_list)
  then have "filter (\<lambda>x. no_id x \<noteq> i) (ns_items s) = us @ vs"
    using assms(1) by (auto intro!: arg_cong2 [of _ _ _ _ append] filter_True) (metis imageI)+
  then show ?thesis using assms(2) Some e by (auto simp: unread_items_def notify_remove_def split: if_splits)
qed

text \<open>The pages of the list of notes, one after another, are the list.\<close>

lemma take_drop_pages: "0 < p \<Longrightarrow> length xs \<le> k * p \<Longrightarrow> concat (map (\<lambda>i. take p (drop (i * p) xs)) [0..<k]) = xs"
proof -
  assume p: "0 < p" "length xs \<le> k * p"
  have "concat (map (\<lambda>i. take p (drop (i * p) xs)) [0..<k]) = take (k * p) xs"
    by (induction k) (simp_all add: take_add [symmetric] add.commute)
  then show ?thesis using p by simp
qed

lemma notes_pages_cover: "concat (map (\<lambda>i. notes_visible i ns) [0..<notes_pages ns]) = ns"
proof -
  have "notes_visible i ns = take PAGE_SIZE (drop (i * PAGE_SIZE) ns)" if "i < notes_pages ns" for i
    using that by (simp add: notes_visible_def)
  moreover have "length ns \<le> notes_pages ns * PAGE_SIZE" unfolding notes_pages_def PAGE_SIZE_def max_def by presburger
  moreover have "map (\<lambda>i. notes_visible i ns) [0..<notes_pages ns] = map (\<lambda>i. take PAGE_SIZE (drop (i * PAGE_SIZE) ns)) [0..<notes_pages ns]"
    using calculation(1) by (intro map_cong) simp_all
  ultimately show ?thesis using take_drop_pages [of PAGE_SIZE ns "notes_pages ns"] by (simp only:) (simp add: PAGE_SIZE_def)
qed


end
