(* ===== verification/Deployer.thy ===== *)
theory Deployer
  imports SdkAssets TxManager ClientMonad
begin

text \<open>
  Configuration and engine of the deployment scripts: \<open>scripts/deployment/config.ts\<close> and
  \<open>scripts/deployment/deployer.ts\<close>. What the node and the package answer is the record \<open>chain_node\<close> over a type of chain
  states: a broadcast gives the chain as the transaction leaves it, and the polls of a transaction are the answers of the
  rounds its timeout allows. A script is an operation with state: the chain, what was sent to it, and the artifacts
  written. A number that is not finite is \<open>None\<close>, which compares as \<open>NaN\<close> does. Fees, post-condition mode and Clarity version of a transaction are constants of the source and not modelled,
  nor are the lines printed.
\<close>

section \<open>Configuration\<close>

definition CONTRACT_ORDER :: "string list" where
  "CONTRACT_ORDER = [''privacy-registry'', ''note-manager'', ''protocol-fees'', ''zk-verifier'', ''privacy-pool'', ''split-merge-manager'']"

definition AUTHORIZED_CALLERS :: "string list" where
  "AUTHORIZED_CALLERS = [''privacy-pool'', ''note-manager'', ''split-merge-manager'']"

definition STX_CIRCUIT_VERSION :: int where
  "STX_CIRCUIT_VERSION = 2"

definition CIRCUITS :: "(string \<times> int) list" where
  "CIRCUITS = [(''shield-note'', 1), (''transfer-note'', 2), (''withdraw-note'', 3), (''split-note'', 4), (''merge-note'', 5)]"

record network_config =
  nc_network :: string
  nc_coreApiUrl :: string
  nc_genesisRootHex :: string
  nc_zkVerifyDomainId :: int
  nc_finalOwner :: "string option"

definition zero_root :: string where
  "zero_root = ''0x'' @ concat (replicate 32 ''00'')"

definition SCRIPT_NETWORKS :: "string \<Rightarrow> network_config option" where
  "SCRIPT_NETWORKS n =
     (if n = ''devnet'' then Some \<lparr>nc_network = n, nc_coreApiUrl = ''http://localhost:3999'', nc_genesisRootHex = zero_root,
        nc_zkVerifyDomainId = 1, nc_finalOwner = None\<rparr>
      else if n = ''testnet'' then Some \<lparr>nc_network = n, nc_coreApiUrl = ''https://api.testnet.hiro.so'', nc_genesisRootHex = zero_root,
        nc_zkVerifyDomainId = 1, nc_finalOwner = None\<rparr>
      else if n = ''mainnet'' then Some \<lparr>nc_network = n, nc_coreApiUrl = ''https://api.hiro.so'', nc_genesisRootHex = zero_root,
        nc_zkVerifyDomainId = 1, nc_finalOwner = None\<rparr>
      else None)"

text \<open>An environment is what \<open>process.env\<close> and the files define.\<close>

type_synonym script_env = "(string, string) jsmap"

definition env_key_char :: "char \<Rightarrow> bool" where
  "env_key_char c \<longleftrightarrow> (let n = of_char c :: nat in 65 \<le> n \<and> n \<le> 90 \<or> 48 \<le> n \<and> n \<le> 57 \<or> n = 95)"

definition env_quote :: "char \<Rightarrow> bool" where
  "env_quote c \<longleftrightarrow> c = CHR 0x22 \<or> c = CHR 0x27"

definition unquote :: "string \<Rightarrow> string" where
  "unquote v =
     (let w = (case v of [] \<Rightarrow> [] | c # cs \<Rightarrow> if env_quote c then cs else v) in
      if w \<noteq> [] \<and> env_quote (last w) then butlast w else w)"

text \<open>One line, \<open>/^([A-Z0-9_]+)\s*=\s*(.*)$/\<close> after trimming.\<close>

definition env_line :: "string \<Rightarrow> (string \<times> string) option" where
  "env_line line =
     (let t = js_trim line; k = takeWhile env_key_char t; r = dropWhile js_space (drop (length k) t) in
      if k = [] then None
      else (case r of
          [] \<Rightarrow> None
        | c # cs \<Rightarrow>
            if c \<noteq> CHR ''='' then None
            else (let v = dropWhile js_space cs in if CHR 0x0D \<in> set v then None else Some (k, unquote (js_trim v)))))"

definition env_lines :: "string \<Rightarrow> string list" where
  "env_lines text = js_split (CHR 0x0A) text"

definition env_add :: "string \<Rightarrow> script_env \<Rightarrow> script_env" where
  "env_add line out =
     (case env_line line of
        None \<Rightarrow> out
      | Some (k, v) \<Rightarrow> (case jm_get out k of None \<Rightarrow> jm_set k v out | Some w \<Rightarrow> if w = [] then jm_set k v out else out))"

definition loadEnv :: "script_env \<Rightarrow> (string \<Rightarrow> string option) \<Rightarrow> string \<Rightarrow> script_env" where
  "loadEnv process_env read_file file =
     foldl (\<lambda>out candidate. case read_file candidate of None \<Rightarrow> out | Some text \<Rightarrow> foldl (\<lambda>acc l. env_add l acc) out (env_lines text))
       process_env [file, ''.env'']"

text \<open>A variable that is set and not empty: what \<open>env[key] || \<dots>\<close> looks at.\<close>

definition env_set :: "script_env \<Rightarrow> string \<Rightarrow> string option" where
  "env_set env key = (case jm_get env key of None \<Rightarrow> None | Some v \<Rightarrow> if v = [] then None else Some v)"

definition env_else :: "script_env \<Rightarrow> string \<Rightarrow> string \<Rightarrow> string" where
  "env_else env key d = (case env_set env key of Some v \<Rightarrow> v | None \<Rightarrow> d)"

definition requireEnv :: "script_env \<Rightarrow> string \<Rightarrow> (string, string) result" where
  "requireEnv env key =
     (case env_set env key of
        None \<Rightarrow> Inl (''Missing required environment variable '' @ key @ ''. Copy .env.testnet.example to .env.testnet and fill it in.'')
      | Some v \<Rightarrow> Inr v)"

text \<open>\<open>clarinet\<close> is the mnemonic found in Clarinet's own settings file, if any.\<close>

definition resolveDeployerMnemonic :: "script_env \<Rightarrow> string option \<Rightarrow> (string, string) result" where
  "resolveDeployerMnemonic env clarinet =
     (case env_set env ''NEW_DEPLOYER_MNEMONIC'' of
        Some m \<Rightarrow> Inr m
      | None \<Rightarrow> (case env_set env ''DEPLOYER_MNEMONIC'' of
          Some m \<Rightarrow> Inr m
        | None \<Rightarrow> (case clarinet of Some m \<Rightarrow> Inr m | None \<Rightarrow> Inl ''No deployer mnemonic found.'')))"

text \<open>\<open>Number(text)\<close> as a double, \<open>None\<close> when it is not finite.\<close>

definition env_number :: "string \<Rightarrow> rat option" where
  "env_number t = Option.bind (js_Number_text t) js_double"

section \<open>The node\<close>

datatype broadcast_answer = BaThrows string | BaError string | BaTxid string

datatype poll_answer = PollThrows string | PollNotOk | PollStatus string

record read_reply =
  rr_okay :: bool
  rr_result :: "string option"
  rr_cause :: "string option"

record 'c chain_node =
  cn_interface :: "string \<Rightarrow> 'c \<Rightarrow> (string, bool) result"
  cn_deploy :: "string \<Rightarrow> 'c \<Rightarrow> broadcast_answer \<times> 'c"
  cn_call :: "contract_call \<Rightarrow> 'c \<Rightarrow> broadcast_answer \<times> 'c"
  cn_polls :: "string \<Rightarrow> 'c \<Rightarrow> poll_answer list \<times> 'c"
  cn_read :: "string \<Rightarrow> string \<Rightarrow> clarity_value list \<Rightarrow> 'c \<Rightarrow> (string, read_reply) result"
  cn_balance :: "'c \<Rightarrow> (string, int) result"
  cn_mk :: "clarity_value \<Rightarrow> (string, clarity_value) result"
  cn_uint :: "rat option \<Rightarrow> (string, clarity_value) result"
  cn_hex :: "string \<Rightarrow> (string, clarity_value) result"

datatype sent = SentDeploy string | SentCall contract_call

record addresses =
  ad_network :: string
  ad_deployer :: string
  ad_contracts :: "(string \<times> string) list"

record deployment_artifact =
  da_network :: string
  da_deployer :: string
  da_zkVerifyDomainId :: int
  da_contracts :: "(string \<times> string \<times> string option) list"

record 'c run =
  rn_chain :: 'c
  rn_sent :: "sent list"
  rn_addresses :: "(string, addresses) jsmap"
  rn_artifacts :: "(string, deployment_artifact) jsmap"

type_synonym ('c, 'a) script = "(string, 'c run, 'a) op"

fun op_each :: "('a \<Rightarrow> ('e, 's, unit) op) \<Rightarrow> 'a list \<Rightarrow> ('e, 's, unit) op" where
  "op_each f [] = op_return ()"
| "op_each f (x # xs) = op_bind (f x) (\<lambda>_. op_each f xs)"

fun op_map :: "('a \<Rightarrow> ('e, 's, 'b) op) \<Rightarrow> 'a list \<Rightarrow> ('e, 's, 'b list) op" where
  "op_map f [] = op_return []"
| "op_map f (x # xs) = op_bind (f x) (\<lambda>y. op_bind (op_map f xs) (\<lambda>ys. op_return (y # ys)))"

text \<open>\<open>try { \<dots> } catch { console.log(\<dots>) }\<close>\<close>

definition op_ignore :: "('e, 's, unit) op \<Rightarrow> ('e, 's, unit) op" where
  "op_ignore m = op_catch m (\<lambda>_. op_return ())"

section \<open>The engine\<close>

definition on_chain :: "('c \<Rightarrow> 'a \<times> 'c) \<Rightarrow> ('c, 'a) script" where
  "on_chain f = (\<lambda>s. let (a, c) = f (rn_chain s) in (Inr a, s\<lparr>rn_chain := c\<rparr>))"

definition note_sent :: "sent \<Rightarrow> ('c, unit) script" where
  "note_sent x = op_modify (\<lambda>s. s\<lparr>rn_sent := rn_sent s @ [x]\<rparr>)"

definition accountBalance :: "'c chain_node \<Rightarrow> ('c, int) script" where
  "accountBalance N = op_bind (op_get rn_chain) (\<lambda>c. op_lift (cn_balance N c))"

definition isDeployed :: "'c chain_node \<Rightarrow> string \<Rightarrow> ('c, bool) script" where
  "isDeployed N contract = op_bind (op_get rn_chain) (\<lambda>c. op_lift (cn_interface N contract c))"

definition readOnly :: "'c chain_node \<Rightarrow> string \<Rightarrow> string \<Rightarrow> clarity_value list \<Rightarrow> ('c, read_reply) script" where
  "readOnly N contract fn args = op_bind (op_get rn_chain) (\<lambda>c. op_lift (cn_read N contract fn args c))"

definition broadcast :: "broadcast_answer \<Rightarrow> string \<Rightarrow> (string, string) result" where
  "broadcast r label =
     (case r of
        BaThrows e \<Rightarrow> Inl e
      | BaError j \<Rightarrow> Inl (label @ '' failed to broadcast: '' @ j)
      | BaTxid t \<Rightarrow> Inr t)"

fun wait_polls :: "string \<Rightarrow> poll_answer list \<Rightarrow> (string, unit) result" where
  "wait_polls txid [] = Inl (''transaction '' @ txid @ '' not confirmed within 900000ms'')"
| "wait_polls txid (PollThrows e # ps) = Inl e"
| "wait_polls txid (PollNotOk # ps) = wait_polls txid ps"
| "wait_polls txid (PollStatus st # ps) =
     (if st = ''success'' then Inr ()
      else if js_startsWith st ''abort'' then Inl (''transaction '' @ txid @ '' aborted: '' @ st)
      else wait_polls txid ps)"

definition deployer_waitForConfirmation :: "'c chain_node \<Rightarrow> string \<Rightarrow> ('c, unit) script" where
  "deployer_waitForConfirmation N txid = op_bind (on_chain (cn_polls N txid)) (\<lambda>ps. op_lift (wait_polls txid ps))"

definition deployContract :: "'c chain_node \<Rightarrow> string \<Rightarrow> ('c, string option) script" where
  "deployContract N contract =
     op_bind (isDeployed N contract) (\<lambda>there.
       if there then op_return None
       else op_bind (note_sent (SentDeploy contract)) (\<lambda>_.
            op_bind (on_chain (cn_deploy N contract)) (\<lambda>r.
            op_bind (op_lift (broadcast r (''deploy '' @ contract))) (\<lambda>txid.
            op_bind (deployer_waitForConfirmation N txid) (\<lambda>_. op_return (Some txid))))))"

definition callContract :: "'c chain_node \<Rightarrow> string \<Rightarrow> string \<Rightarrow> clarity_value list \<Rightarrow> string \<Rightarrow> ('c, string) script" where
  "callContract N contract fn args label =
     (let call = \<lparr>cc_contract = contract, cc_fn = fn, cc_args = args\<rparr> in
      op_bind (note_sent (SentCall call)) (\<lambda>_.
      op_bind (on_chain (cn_call N call)) (\<lambda>r.
      op_bind (op_lift (broadcast r label)) (\<lambda>txid.
      op_bind (deployer_waitForConfirmation N txid) (\<lambda>_. op_return txid)))))"

text \<open>The arguments are built before the call is; building one may throw.\<close>

definition call_with :: "'c chain_node \<Rightarrow> string \<Rightarrow> string \<Rightarrow> (string, clarity_value) result list \<Rightarrow> string \<Rightarrow> ('c, unit) script" where
  "call_with N contract fn args label =
     op_bind (op_lift (rseq args)) (\<lambda>vs. op_bind (callContract N contract fn vs label) (\<lambda>_. op_return ()))"

end
