(* ===== verification/Deployment.thy ===== *)
theory Deployment
  imports Deployer
begin

text \<open>
  Deployment of the six contracts: wiring (\<open>scripts/deployment/wire-contracts.ts\<close>), artifacts (\<open>save-addresses.ts\<close>),
  verification (\<open>verify-deployment.ts\<close>), the two commands that chain them (\<open>deploy-all.ts\<close>, \<open>deploy-fresh.ts\<close>), and the
  older plan of calls (\<open>wire.ts\<close>). What is shown: a deployment that stopped is resumed and sends nothing twice, and the
  verification passes for contracts that were never wired. The details printed beside a check are not modelled.
\<close>

section \<open>Wiring\<close>

record wire_options =
  wr_vkeyHashes :: "(int, string) jsmap"
  wr_proofLengths :: "(int, rat option) jsmap"
  wr_relayer :: "string option"
  wr_treasury :: "string option"
  wr_fees :: "(int \<times> rat option \<times> rat option) list"
  wr_genesisRootHex :: string
  wr_zkverifyContextHash :: "string option"
  wr_zkverifyBindings :: "(int, string \<times> string) jsmap"

definition hexBuf :: "'c chain_node \<Rightarrow> string \<Rightarrow> (string, clarity_value) result" where
  "hexBuf N hex = cn_mk N (CvBuffer (node_hex (strip0x hex)))"

definition set_text :: "string option \<Rightarrow> string option" where
  "set_text t = (case t of Some v \<Rightarrow> if v = [] then None else Some v | None \<Rightarrow> None)"

definition wire_callers :: "'c chain_node \<Rightarrow> string \<Rightarrow> ('c, unit) script" where
  "wire_callers N addr =
     op_each (\<lambda>caller.
       op_bind (readOnly N ''privacy-registry'' ''is-authorized-caller'' []) (\<lambda>_.
         op_ignore (call_with N ''privacy-registry'' ''add-authorized-caller'' [cn_mk N (CvContractPrincipal addr caller)]
           (''authorize '' @ caller)))) AUTHORIZED_CALLERS"

definition wire_vkeys :: "'c chain_node \<Rightarrow> wire_options \<Rightarrow> ('c, unit) script" where
  "wire_vkeys N opts =
     op_each (\<lambda>(name, proofType).
       (case (set_text (jm_get (wr_vkeyHashes opts) proofType), jm_get (wr_proofLengths opts) proofType) of
          (Some vkey, Some (Some len)) \<Rightarrow>
            if len = 0 then op_return ()
            else op_ignore (call_with N ''zk-verifier'' ''register-verification-key''
                   [cn_mk N (CvUInt proofType), cn_mk N (CvUInt STX_CIRCUIT_VERSION), hexBuf N vkey, cn_uint N (Some len)]
                   (''register vkey '' @ name))
        | _ \<Rightarrow> op_return ())) CIRCUITS"

definition wire_bindings :: "'c chain_node \<Rightarrow> wire_options \<Rightarrow> ('c, unit) script" where
  "wire_bindings N opts =
     op_bind (case set_text (wr_zkverifyContextHash opts) of
         None \<Rightarrow> op_return ()
       | Some h \<Rightarrow> op_ignore (call_with N ''zk-verifier'' ''set-zkverify-context-hash'' [hexBuf N h] ''set zkVerify context hash'')) (\<lambda>_.
     op_each (\<lambda>(name, proofType).
       (case jm_get (wr_zkverifyBindings opts) proofType of
          None \<Rightarrow> op_return ()
        | Some (zkvVkey, versionHash) \<Rightarrow>
            op_ignore (call_with N ''zk-verifier'' ''set-zkverify-binding''
              [cn_mk N (CvUInt proofType), cn_mk N (CvUInt STX_CIRCUIT_VERSION), hexBuf N zkvVkey, hexBuf N versionHash]
              (''bind zkVerify '' @ name)))) CIRCUITS)"

definition wire_principal :: "'c chain_node \<Rightarrow> string \<Rightarrow> string \<Rightarrow> string \<Rightarrow> string option \<Rightarrow> ('c, unit) script" where
  "wire_principal N contract fn label who =
     (case set_text who of
        None \<Rightarrow> op_return ()
      | Some p \<Rightarrow> op_ignore (call_with N contract fn [cn_mk N (CvPrincipal p)] label))"

definition wire_fees :: "'c chain_node \<Rightarrow> wire_options \<Rightarrow> ('c, unit) script" where
  "wire_fees N opts =
     op_each (\<lambda>(feeType, bps, flat).
       call_with N ''protocol-fees'' ''set-fee''
         [cn_mk N (CvUInt feeType), cn_uint N bps, cn_uint N flat, cn_mk N (CvBool True)]
         (''set fee type '' @ dec_of_int feeType)) (wr_fees opts)"

definition wireContracts :: "'c chain_node \<Rightarrow> string \<Rightarrow> wire_options \<Rightarrow> ('c, unit) script" where
  "wireContracts N addr opts =
     op_bind (wire_callers N addr) (\<lambda>_.
     op_bind (op_ignore (call_with N ''privacy-registry'' ''update-root''
       [hexBuf N (wr_genesisRootHex opts), cn_mk N (CvUInt 1)] ''bootstrap genesis root'')) (\<lambda>_.
     op_bind (wire_vkeys N opts) (\<lambda>_.
     op_bind (wire_bindings N opts) (\<lambda>_.
     op_bind (wire_principal N ''zk-verifier'' ''add-relayer'' ''add aggregation relayer'' (wr_relayer opts)) (\<lambda>_.
     op_bind (wire_principal N ''protocol-fees'' ''set-treasury'' ''set treasury'' (wr_treasury opts)) (\<lambda>_.
     wire_fees N opts))))))"

section \<open>Artifacts\<close>

definition toAddresses :: "string \<Rightarrow> string \<Rightarrow> addresses" where
  "toAddresses network deployer =
     (let id = (\<lambda>c. deployer @ ''.'' @ c) in
      \<lparr>ad_network = network, ad_deployer = deployer,
       ad_contracts = [(''registry'', id ''privacy-registry''), (''verifier'', id ''zk-verifier''), (''noteRegistry'', id ''note-manager''),
         (''privacyPool'', id ''privacy-pool''), (''splitMergeManager'', id ''split-merge-manager''), (''protocolFees'', id ''protocol-fees'')]\<rparr>)"

definition saveAddresses :: "string \<Rightarrow> string \<Rightarrow> (string \<times> string option) list \<Rightarrow> int \<Rightarrow> ('c, unit) script" where
  "saveAddresses network deployer txids zkVerifyDomainId =
     op_modify (\<lambda>s. s\<lparr>rn_addresses := jm_set network (toAddresses network deployer) (rn_addresses s),
       rn_artifacts := jm_set network
         \<lparr>da_network = network, da_deployer = deployer, da_zkVerifyDomainId = zkVerifyDomainId,
          da_contracts = map (\<lambda>name. (name, deployer @ ''.'' @ name, case jm_get txids name of None \<Rightarrow> None | Some t \<Rightarrow> t)) CONTRACT_ORDER\<rparr>
         (rn_artifacts s)\<rparr>)"

definition loadAddresses :: "string \<Rightarrow> 'c run \<Rightarrow> (string, addresses) result" where
  "loadAddresses network s =
     (case jm_get (rn_addresses s) network of
        None \<Rightarrow> Inl (''deployments/'' @ network @ ''/addresses.json not found'')
      | Some a \<Rightarrow> Inr a)"

section \<open>Verification\<close>

record check =
  ck_name :: string
  ck_ok :: bool

definition check_okay :: "'c chain_node \<Rightarrow> string \<Rightarrow> string \<Rightarrow> string \<Rightarrow> ('c, check) script" where
  "check_okay N name contract fn =
     op_bind (readOnly N contract fn []) (\<lambda>r. op_return \<lparr>ck_name = name, ck_ok = rr_okay r\<rparr>)"

definition COMMITTEE_SURFACE :: "string list" where
  "COMMITTEE_SURFACE = [''get-attestor-count'', ''get-attestation-threshold'', ''add-attestor'', ''set-attestation-threshold'']"

definition verifyDeployment :: "'c chain_node \<Rightarrow> string \<Rightarrow> string \<Rightarrow> ('c, check list \<times> bool) script" where
  "verifyDeployment N addr network =
     op_bind (op_map (\<lambda>c. op_bind (isDeployed N c) (\<lambda>b. op_return \<lparr>ck_name = ''contract deployed: '' @ c, ck_ok = b\<rparr>)) CONTRACT_ORDER) (\<lambda>deployed.
     op_bind (op_get (loadAddresses network)) (\<lambda>a.
     op_bind (check_okay N ''registry reachable'' ''privacy-registry'' ''get-protocol-state'') (\<lambda>live.
     op_bind (check_okay N ''verifier is v2 (committee removed)'' ''zk-verifier'' ''get-verifier-contract-version'') (\<lambda>version.
     op_bind (op_map (\<lambda>gone. op_bind (readOnly N ''zk-verifier'' gone []) (\<lambda>r.
       op_return \<lparr>ck_name = ''committee surface absent: '' @ gone, ck_ok = (\<not> rr_okay r)\<rparr>)) COMMITTEE_SURFACE) (\<lambda>committee.
     op_bind (check_okay N ''aggregation registry present'' ''zk-verifier'' ''get-aggregation-count'') (\<lambda>agg.
     op_bind (check_okay N ''relayer registry present'' ''zk-verifier'' ''get-relayer-count'') (\<lambda>relayers.
     op_bind (check_okay N ''fees contract reachable'' ''protocol-fees'' ''get-fees-info'') (\<lambda>fees.
     op_bind (check_okay N ''pool operational'' ''privacy-pool'' ''is-shield-enabled'') (\<lambda>pool.
     let addresses = (case a of
             Inl e \<Rightarrow> \<lparr>ck_name = ''addresses.json present'', ck_ok = False\<rparr>
           | Inr x \<Rightarrow> \<lparr>ck_name = ''addresses.json present and consistent'', ck_ok = (ad_deployer x = addr)\<rparr>);
         checks = deployed @ [addresses, live, version] @ committee @ [agg, relayers, fees, pool] in
     op_return (checks, list_all ck_ok checks))))))))))"

section \<open>The commands\<close>

text \<open>What a command is given from outside: its argument, the environment, the two entries of Clarinet's settings, the account of
  a mnemonic, and the node at a URL.\<close>

record 'c host =
  ho_argv :: "string option"
  ho_env :: "string \<Rightarrow> script_env"
  ho_clarinetMnemonic :: "string \<Rightarrow> string option"
  ho_clarinetApiUrl :: "string \<Rightarrow> string option"
  ho_signer :: "string \<Rightarrow> string \<Rightarrow> (string, string) result"
  ho_node :: "string \<Rightarrow> string \<Rightarrow> 'c chain_node"
  ho_envFile :: "string option"

definition CIRCUIT_KEYS :: "(int \<times> string) list" where
  "CIRCUIT_KEYS = [(1, ''SHIELD''), (2, ''TRANSFER''), (3, ''WITHDRAW''), (4, ''SPLIT''), (5, ''MERGE'')]"

definition parseVkeys :: "script_env \<Rightarrow> (int, string) jsmap \<times> (int, rat option) jsmap" where
  "parseVkeys env =
     (concat (map (\<lambda>(t, k). case env_set env (''VKEY_HASH_'' @ k) of None \<Rightarrow> [] | Some h \<Rightarrow> [(t, h)]) CIRCUIT_KEYS),
      concat (map (\<lambda>(t, k). case env_set env (''PROOF_LEN_'' @ k) of None \<Rightarrow> [] | Some l \<Rightarrow> [(t, env_number l)]) CIRCUIT_KEYS))"

definition deploy_contracts :: "'c chain_node \<Rightarrow> string list \<Rightarrow> ('c, (string \<times> string option) list) script" where
  "deploy_contracts N cs = op_map (\<lambda>c. op_bind (deployContract N c) (\<lambda>t. op_return (c, t))) cs"

definition number_or :: "script_env \<Rightarrow> string \<Rightarrow> rat \<Rightarrow> rat option" where
  "number_or env key d = (case jm_get env key of None \<Rightarrow> Some d | Some v \<Rightarrow> env_number v)"

definition deploy_all_options :: "script_env \<Rightarrow> string \<Rightarrow> network_config \<Rightarrow> wire_options" where
  "deploy_all_options env addr cfg =
     (let (hashes, lengths) = parseVkeys env in
      \<lparr>wr_vkeyHashes = hashes, wr_proofLengths = lengths, wr_relayer = Some (env_else env ''AGGREGATION_RELAYER'' addr),
       wr_treasury = jm_get env ''TREASURY_ADDRESS'',
       wr_fees = (case env_set env ''SHIELD_FEE_BPS'' of
           None \<Rightarrow> []
         | Some b \<Rightarrow> [(1, env_number b, Some 0), (2, Some 0, number_or env ''TRANSFER_FEE_FLAT'' 0), (3, number_or env ''WITHDRAW_FEE_BPS'' 0, Some 0)]),
       wr_genesisRootHex = env_else env ''GENESIS_ROOT'' (nc_genesisRootHex cfg), wr_zkverifyContextHash = None, wr_zkverifyBindings = []\<rparr>)"

definition deploy_and_wire :: "'c chain_node \<Rightarrow> string \<Rightarrow> network_config \<Rightarrow> wire_options \<Rightarrow> ('c, int) script" where
  "deploy_and_wire N addr cfg opts =
     op_bind (deploy_contracts N CONTRACT_ORDER) (\<lambda>txids.
     op_bind (saveAddresses (nc_network cfg) addr txids (nc_zkVerifyDomainId cfg)) (\<lambda>_.
     op_bind (wireContracts N addr opts) (\<lambda>_.
     op_bind (verifyDeployment N addr (nc_network cfg)) (\<lambda>(checks, passed).
     op_return (if passed then 0 else 1)))))"

definition script_url :: "'c host \<Rightarrow> script_env \<Rightarrow> string \<Rightarrow> (string, string) result" where
  "script_url H env network =
     (case env_set env ''STACKS_API_URL'' of
        Some u \<Rightarrow> Inr u
      | None \<Rightarrow> (case set_text (ho_clarinetApiUrl H network) of
          Some u \<Rightarrow> Inr u
        | None \<Rightarrow> (case SCRIPT_NETWORKS network of Some cfg \<Rightarrow> Inr (nc_coreApiUrl cfg) | None \<Rightarrow> Inl ''TypeError'')))"

definition deploy_all :: "'c host \<Rightarrow> ('c, int) script" where
  "deploy_all H =
     (let network = (case ho_argv H of Some n \<Rightarrow> n | None \<Rightarrow> ''testnet'') in
      case SCRIPT_NETWORKS network of
        None \<Rightarrow> op_throw (''unknown network: '' @ network)
      | Some cfg \<Rightarrow>
          let env = ho_env H (if network = ''mainnet'' then ''.env.mainnet''
                else case ho_envFile H of Some f \<Rightarrow> f | None \<Rightarrow> ''.env.v2.deploy'') in
          op_bind (op_lift (resolveDeployerMnemonic env (ho_clarinetMnemonic H network))) (\<lambda>mnemonic.
          op_bind (op_lift (ho_signer H mnemonic network)) (\<lambda>addr.
          op_bind (op_lift (script_url H env network)) (\<lambda>url.
          let N = ho_node H addr url in
          op_bind (accountBalance N) (\<lambda>balance.
            if balance < 10000000 then op_return 1 else deploy_and_wire N addr cfg (deploy_all_options env addr cfg))))))"

definition VERSION_HASH_V3_0 :: string where
  "VERSION_HASH_V3_0 = ''0x55b52ad2b4153c872e27d688f567c1406f0d93b5528dd2b0bf2a9a40df97f1f9''"

definition PROOF_LEN :: rat where
  "PROOF_LEN = 7872"

definition fresh_options :: "script_env \<Rightarrow> string \<Rightarrow> network_config \<Rightarrow> (string, wire_options) result" where
  "fresh_options env addr cfg =
     rbind (requireEnv env ''ZKVERIFY_CONTEXT_HASH'') (\<lambda>ctx.
     rbind (rmap (\<lambda>(t, k). rbind (requireEnv env (''VKEY_HASH_'' @ k)) (\<lambda>bb.
                           rbind (requireEnv env (''STX_ZKV_VKEY_HASH_'' @ k)) (\<lambda>zkv.
                           Inr (t, bb, zkv, case env_set env (''PROOF_LEN_'' @ k) of None \<Rightarrow> Some PROOF_LEN | Some l \<Rightarrow> env_number l)))) CIRCUIT_KEYS) (\<lambda>ks.
     let versionHash = env_else env ''STX_VERSION_HASH'' VERSION_HASH_V3_0 in
     Inr \<lparr>wr_vkeyHashes = map (\<lambda>(t, bb, zkv, l). (t, bb)) ks, wr_proofLengths = map (\<lambda>(t, bb, zkv, l). (t, l)) ks,
          wr_relayer = Some (env_else env ''AGGREGATION_RELAYER'' addr), wr_treasury = jm_get env ''TREASURY_ADDRESS'',
          wr_fees = [(1, number_or env ''SHIELD_FEE_BPS'' 25, Some 0), (2, Some 0, number_or env ''TRANSFER_FEE_FLAT'' 10000),
                     (3, number_or env ''WITHDRAW_FEE_BPS'' 30, Some 0)],
          wr_genesisRootHex = env_else env ''GENESIS_ROOT'' (nc_genesisRootHex cfg), wr_zkverifyContextHash = Some ctx,
          wr_zkverifyBindings = map (\<lambda>(t, bb, zkv, l). (t, zkv, versionHash)) ks\<rparr>))"

definition deploy_fresh :: "'c host \<Rightarrow> ('c, int) script" where
  "deploy_fresh H =
     (let network = ''testnet''; env = ho_env H (case ho_envFile H of Some f \<Rightarrow> f | None \<Rightarrow> ''.env.v2.deploy'') in
      case SCRIPT_NETWORKS network of
        None \<Rightarrow> op_throw ''unknown network''
      | Some cfg \<Rightarrow>
          op_bind (op_lift (resolveDeployerMnemonic env (ho_clarinetMnemonic H network))) (\<lambda>mnemonic.
          op_bind (op_lift (ho_signer H mnemonic network)) (\<lambda>addr.
          op_bind (op_guard (case env_set env ''NEW_DEPLOYER_ADDRESS'' of None \<Rightarrow> True | Some e \<Rightarrow> addr = e)
            (''Deployer address mismatch: mnemonic derives '' @ addr)) (\<lambda>_.
          op_bind (op_lift (script_url H env network)) (\<lambda>url.
          let N = ho_node H addr url in
          op_bind (op_lift (fresh_options env addr cfg)) (\<lambda>opts.
          op_bind (accountBalance N) (\<lambda>balance.
            if balance < 5000000 then op_return 1 else deploy_and_wire N addr cfg opts)))))))"

section \<open>The plan of calls\<close>

record wire_step =
  ws_contract :: string
  ws_fn :: string
  ws_args :: "clarity_value list"

record vkey_registration =
  vr_proofType :: int
  vr_circuitVersion :: int
  vr_vkeyHashHex :: string
  vr_proofLength :: int

definition plan_step :: "string \<Rightarrow> string \<Rightarrow> (string, clarity_value) result list \<Rightarrow> (string, wire_step) result" where
  "plan_step contract fn args = rbind (rseq args) (\<lambda>vs. Inr \<lparr>ws_contract = contract, ws_fn = fn, ws_args = vs\<rparr>)"

text \<open>\<open>mk\<close> and \<open>mk_hex\<close> are constructors of the package and \<open>mk_undefined\<close> is what \<open>Cl.uint\<close> makes of \<open>undefined\<close>: the configuration has
  no attestation threshold, so the plan asks for that.\<close>

definition buildWirePlan ::
  "(clarity_value \<Rightarrow> (string, clarity_value) result) \<Rightarrow> (string \<Rightarrow> (string, clarity_value) result) \<Rightarrow> (string, clarity_value) result
   \<Rightarrow> string \<Rightarrow> network_config \<Rightarrow> vkey_registration list \<Rightarrow> string list \<Rightarrow> (int \<times> int \<times> int \<times> bool) list \<Rightarrow> string option
   \<Rightarrow> (string, wire_step list) result" where
  "buildWirePlan mk mk_hex mk_undefined deployer cfg vkeys committee fees finalOwner =
     rbind (rmap (\<lambda>c. plan_step ''privacy-registry'' ''add-authorized-caller'' [mk (CvContractPrincipal deployer c)]) AUTHORIZED_CALLERS) (\<lambda>callers.
     rbind (plan_step ''privacy-registry'' ''update-root'' [mk_hex (strip0x (nc_genesisRootHex cfg)), mk (CvUInt 1)]) (\<lambda>genesis.
     rbind (rguard (length vkeys = length CIRCUITS)
        (''expected '' @ dec_of_nat (length CIRCUITS) @ '' vkeys, got '' @ dec_of_nat (length vkeys))) (\<lambda>_.
     rbind (rmap (\<lambda>vk. plan_step ''zk-verifier'' ''register-verification-key''
        [mk (CvUInt (vr_proofType vk)), mk (CvUInt (vr_circuitVersion vk)), mk_hex (strip0x (vr_vkeyHashHex vk)), mk (CvUInt (vr_proofLength vk))]) vkeys) (\<lambda>keys.
     rbind (rmap (\<lambda>m. plan_step ''zk-verifier'' ''add-attestor'' [mk_hex (strip0x m)]) committee) (\<lambda>attestors.
     rbind (plan_step ''zk-verifier'' ''set-attestation-threshold'' [mk_undefined]) (\<lambda>threshold.
     rbind (rmap (\<lambda>(t, bps, flat, enabled). plan_step ''protocol-fees'' ''set-fee''
        [mk (CvUInt t), mk (CvUInt bps), mk (CvUInt flat), mk (CvBool enabled)]) fees) (\<lambda>fee_steps.
     rbind (case (case finalOwner of Some p \<Rightarrow> Some p | None \<Rightarrow> nc_finalOwner cfg) of
         None \<Rightarrow> Inr []
       | Some p \<Rightarrow> if p = [] then Inr []
           else rbind (plan_step ''privacy-registry'' ''transfer-ownership'' [mk (CvPrincipal p)]) (\<lambda>x. Inr [x])) (\<lambda>owner.
     Inr (callers @ [genesis] @ keys @ attestors @ [threshold] @ fee_steps @ owner)))))))))"

section \<open>A deployment that stopped is resumed\<close>

definition there :: "'c chain_node \<Rightarrow> string \<Rightarrow> 'c \<Rightarrow> bool" where
  "there N d c \<longleftrightarrow> cn_interface N d c = Inr True"

text \<open>What a node promises: a contract on the chain stays there, and one whose transaction was confirmed is there.\<close>

definition deploys_stay :: "'c chain_node \<Rightarrow> bool" where
  "deploys_stay N \<longleftrightarrow>
     (\<forall>d e c. there N d c \<longrightarrow> there N d (snd (cn_deploy N e c))) \<and> (\<forall>d t c. there N d c \<longrightarrow> there N d (snd (cn_polls N t c))) \<and>
     (\<forall>d c t c1. cn_deploy N d c = (BaTxid t, c1) \<longrightarrow> wait_polls t (fst (cn_polls N t c1)) = Inr () \<longrightarrow> there N d (snd (cn_polls N t c1)))"

lemma deployContract_there: "there N d (rn_chain s) \<Longrightarrow> deployContract N d s = (Inr None, s)"
  by (simp add: deployContract_def isDeployed_def there_def op_bind_def)

lemma deployContract_step:
  assumes "deploys_stay N" "deployContract N d s = (r, s1)"
  shows "(\<forall>e. there N e (rn_chain s) \<longrightarrow> there N e (rn_chain s1)) \<and> ((\<exists>t. r = Inr t) \<longrightarrow> there N d (rn_chain s1)) \<and>
    (\<exists>ds. rn_sent s1 = rn_sent s @ map SentDeploy ds \<and> (ds = [] \<or> ds = [d] \<and> \<not> there N d (rn_chain s)))"
proof (cases "cn_interface N d (rn_chain s)")
  case (Inl e)
  then have "s1 = s \<and> r = Inl e" using assms(2) by (simp add: deployContract_def isDeployed_def op_bind_def)
  then show ?thesis by auto
next
  case (Inr b)
  show ?thesis
  proof (cases b)
    case True
    then have "there N d (rn_chain s)" using Inr by (simp add: there_def)
    then show ?thesis using deployContract_there [of N d s] assms(2) by auto
  next
    case False
    obtain a c where d: "cn_deploy N d (rn_chain s) = (a, c)" by (cases "cn_deploy N d (rn_chain s)")
    have n: "\<not> there N d (rn_chain s)" using Inr False by (simp add: there_def)
    have up: "there N e (rn_chain s) \<Longrightarrow> there N e c" for e using assms(1) d unfolding deploys_stay_def by (metis snd_conv)
    show ?thesis
    proof (cases "\<exists>t. a = BaTxid t")
      case True
      then obtain t where t: "a = BaTxid t" by blast
      have "there N e c \<Longrightarrow> there N e (snd (cn_polls N t c))" for e using assms(1) unfolding deploys_stay_def by blast
      moreover have "wait_polls t (fst (cn_polls N t c)) = Inr () \<Longrightarrow> there N d (snd (cn_polls N t c))"
        using assms(1) d t unfolding deploys_stay_def by blast
      moreover have "s1 = s\<lparr>rn_sent := rn_sent s @ [SentDeploy d], rn_chain := snd (cn_polls N t c)\<rparr>
          \<and> ((\<exists>x. r = Inr x) \<longrightarrow> wait_polls t (fst (cn_polls N t c)) = Inr ())"
        using assms(2) Inr False d t by (auto simp: deployContract_def isDeployed_def note_sent_def on_chain_def deployer_waitForConfirmation_def
            broadcast_def op_bind_def split: prod.splits sum.splits)
      ultimately show ?thesis using up n by (auto intro!: exI [of _ "[d]"])
    next
      case False
      then have "s1 = s\<lparr>rn_sent := rn_sent s @ [SentDeploy d], rn_chain := c\<rparr> \<and> (\<forall>x. r \<noteq> Inr x)"
        using assms(2) Inr \<open>\<not> b\<close> d by (cases a) (auto simp: deployContract_def isDeployed_def note_sent_def on_chain_def broadcast_def op_bind_def)
      then show ?thesis using up n by (auto intro!: exI [of _ "[d]"])
    qed
  qed
qed

lemma deploy_contracts_step:
  assumes "deploys_stay N" "deploy_contracts N cs s = (r, s1)"
  shows "\<exists>k ds. (\<forall>d \<in> set (take k cs). there N d (rn_chain s1)) \<and> (\<forall>d. there N d (rn_chain s) \<longrightarrow> there N d (rn_chain s1))
    \<and> ((\<exists>ts. r = Inr ts) \<longrightarrow> k = length cs) \<and> rn_sent s1 = rn_sent s @ map SentDeploy ds \<and> subseq ds cs
    \<and> (\<forall>d \<in> set ds. \<not> there N d (rn_chain s))"
  using assms(2)
proof (induction cs arbitrary: s r)
  case Nil
  then show ?case by (auto simp: deploy_contracts_def)
next
  case (Cons c cs)
  obtain q s2 where q: "deployContract N c s = (q, s2)" by (cases "deployContract N c s")
  note h = deployContract_step [OF assms(1) q]
  obtain ds where ds: "rn_sent s2 = rn_sent s @ map SentDeploy ds" "ds = [] \<or> ds = [c] \<and> \<not> there N c (rn_chain s)" using h by blast
  show ?case
  proof (cases q)
    case (Inl e)
    then have "s1 = s2 \<and> r = Inl e" using Cons.prems q by (simp add: deploy_contracts_def op_bind_def)
    then show ?thesis using h ds by (intro exI [of _ 0] exI [of _ ds]) auto
  next
    case (Inr t)
    obtain r3 where r3: "deploy_contracts N cs s2 = (r3, s1)" "\<forall>ts. r = Inr ts \<longrightarrow> (\<exists>us. r3 = Inr us)"
      using Cons.prems q Inr by (auto simp: deploy_contracts_def op_bind_def split: prod.splits sum.splits)
    obtain k es where k: "\<forall>d \<in> set (take k cs). there N d (rn_chain s1)" "\<forall>d. there N d (rn_chain s2) \<longrightarrow> there N d (rn_chain s1)"
      "(\<exists>ts. r3 = Inr ts) \<longrightarrow> k = length cs" "rn_sent s1 = rn_sent s2 @ map SentDeploy es" "subseq es cs"
      "\<forall>d \<in> set es. \<not> there N d (rn_chain s2)"
      using Cons.IH [OF r3(1)] by blast
    have "subseq (ds @ es) (c # cs)" using ds(2) k(5) by auto
    then show ?thesis using h k ds r3(2) Inr by (intro exI [of _ "Suc k"] exI [of _ "ds @ es"]) (auto 0 4)
  qed
qed

lemma deploy_contracts_done:
  "(\<forall>c \<in> set cs. there N c (rn_chain s)) \<Longrightarrow> deploy_contracts N cs s = (Inr (map (\<lambda>c. (c, None)) cs), s)"
  by (induction cs) (simp_all add: deploy_contracts_def deployContract_there op_bind_def)

lemma subseq_drop:
  assumes "subseq ds xs" "\<forall>d \<in> set ds. d \<notin> set (take k xs)"
  shows "subseq ds (drop k xs)"
proof -
  obtain as bs where "ds = as @ bs" "subseq as (take k xs)" "subseq bs (drop k xs)"
    using assms(1) subseq_appendE [of ds "take k xs" "drop k xs"] by auto
  moreover from this have "as = []" using assms(2) by (cases as) (auto elim: list_emb_set [where P = "(=)"])
  ultimately show ?thesis by simp
qed


section \<open>What the verification does not see\<close>

text \<open>Every call to a contract is refused, and nothing changes.\<close>

definition refuses :: "'c chain_node \<Rightarrow> bool" where
  "refuses N \<longleftrightarrow> (\<forall>call c. \<exists>a. cn_call N call c = (a, c) \<and> (\<forall>t. a \<noteq> BaTxid t))"

definition quiet :: "('c, unit) script \<Rightarrow> bool" where
  "quiet m \<longleftrightarrow> (\<forall>s. \<exists>x. m s = (Inr (), s\<lparr>rn_sent := x\<rparr>))"

lemma quiet_return [simp]: "quiet (op_return ())"
  unfolding quiet_def by (metis (mono_tags, lifting) op_return_run run.surjective run.update_convs(2))

lemma quiet_bind: "quiet m \<Longrightarrow> quiet n \<Longrightarrow> quiet (op_bind m (\<lambda>_. n))"
proof (unfold quiet_def, intro allI)
  fix s assume m: "\<forall>s. \<exists>x. m s = (Inr (), s\<lparr>rn_sent := x\<rparr>)" and n: "\<forall>s. \<exists>x. n s = (Inr (), s\<lparr>rn_sent := x\<rparr>)"
  obtain x where "m s = (Inr (), s\<lparr>rn_sent := x\<rparr>)" using m by blast
  moreover obtain y where "n (s\<lparr>rn_sent := x\<rparr>) = (Inr (), s\<lparr>rn_sent := x\<rparr>\<lparr>rn_sent := y\<rparr>)" using n by blast
  ultimately show "\<exists>x. op_bind m (\<lambda>_. n) s = (Inr (), s\<lparr>rn_sent := x\<rparr>)" by (auto simp: op_bind_def)
qed

lemma quiet_each: "(\<And>x. quiet (f x)) \<Longrightarrow> quiet (op_each f xs)"
  by (induction xs) (simp_all add: quiet_bind)

lemma run_chain_same: "s\<lparr>rn_chain := rn_chain s, rn_sent := x\<rparr> = (s\<lparr>rn_sent := x\<rparr> :: 'c run)"
  by (cases s) simp

lemma quiet_call: "refuses N \<Longrightarrow> quiet (op_ignore (call_with N contract fn args label))"
proof (unfold quiet_def, intro allI)
  fix s assume r: "refuses N"
  show "\<exists>x. op_ignore (call_with N contract fn args label) s = (Inr (), s\<lparr>rn_sent := x\<rparr>)"
  proof (cases "rseq args")
    case (Inl e)
    then show ?thesis by (intro exI [of _ "rn_sent s"]) (simp add: op_ignore_def op_catch_def call_with_def op_bind_def)
  next
    case (Inr vs)
    obtain a where "cn_call N \<lparr>cc_contract = contract, cc_fn = fn, cc_args = vs\<rparr> (rn_chain s) = (a, rn_chain s)" "\<forall>t. a \<noteq> BaTxid t"
      using r unfolding refuses_def by blast
    then have "callContract N contract fn vs label s = (Inl (case a of BaThrows e \<Rightarrow> e | BaError j \<Rightarrow> label @ '' failed to broadcast: '' @ j | BaTxid t \<Rightarrow> t),
        s\<lparr>rn_sent := rn_sent s @ [SentCall \<lparr>cc_contract = contract, cc_fn = fn, cc_args = vs\<rparr>]\<rparr>)"
      by (cases a) (simp_all add: callContract_def note_sent_def on_chain_def broadcast_def op_bind_def Let_def run_chain_same)
    then show ?thesis using Inr by (auto simp: op_ignore_def op_catch_def call_with_def op_bind_def)
  qed
qed

lemma quiet_cases:
  "quiet m \<Longrightarrow> quiet n \<Longrightarrow> quiet (if b then m else n)"
  "quiet m \<Longrightarrow> (\<And>x. quiet (f x)) \<Longrightarrow> quiet (case y of None \<Rightarrow> m | Some x \<Rightarrow> f x)"
  "(\<And>x y. quiet (g x y)) \<Longrightarrow> quiet (case p of (x, y) \<Rightarrow> g x y)"
  by (simp_all split: option.split prod.split)

lemma quiet_read: "cn_read N contract fn args = (\<lambda>c. Inr (r c)) \<Longrightarrow> quiet m \<Longrightarrow> quiet (op_bind (readOnly N contract fn args) (\<lambda>_. m))"
  by (simp add: quiet_def readOnly_def op_bind_def)

lemma wiring_quiet:
  assumes "refuses N" "cn_read N ''privacy-registry'' ''is-authorized-caller'' [] = (\<lambda>c. Inr (r c))" "wr_fees opts = []"
  shows "quiet (wireContracts N addr opts)"
proof -
  have f: "quiet (wire_fees N opts)" by (simp add: wire_fees_def assms(3))
  show ?thesis unfolding wireContracts_def wire_callers_def wire_vkeys_def wire_bindings_def wire_principal_def
    by (intro quiet_bind quiet_each quiet_cases quiet_read [OF assms(2)] quiet_call [OF assms(1)] quiet_return f)
qed

text \<open>What the verification reads: every function the checks call answers, and the functions of the committee do not exist.\<close>

definition reads_well :: "'c chain_node \<Rightarrow> bool" where
  "reads_well N \<longleftrightarrow> (\<forall>contract fn args c. \<exists>r. cn_read N contract fn args c = Inr r \<and> (rr_okay r \<longleftrightarrow> fn \<notin> set COMMITTEE_SURFACE))"

lemma check_okay_run:
  "reads_well N \<Longrightarrow> fn \<notin> set COMMITTEE_SURFACE \<Longrightarrow> check_okay N name contract fn s = (Inr \<lparr>ck_name = name, ck_ok = True\<rparr>, s)"
proof -
  assume r: "reads_well N" and f: "fn \<notin> set COMMITTEE_SURFACE"
  obtain a where "cn_read N contract fn [] (rn_chain s) = Inr a" "rr_okay a" using r f unfolding reads_well_def by blast
  then show ?thesis by (simp add: check_okay_def readOnly_def op_bind_def)
qed

lemma committee_run:
  assumes "reads_well N" "set gs \<subseteq> set COMMITTEE_SURFACE"
  shows "\<exists>cs. op_map (\<lambda>gone. op_bind (readOnly N ''zk-verifier'' gone []) (\<lambda>r.
     op_return \<lparr>ck_name = ''committee surface absent: '' @ gone, ck_ok = (\<not> rr_okay r)\<rparr>)) gs s = (Inr cs, s) \<and> list_all ck_ok cs"
  using assms(2)
proof (induction gs)
  case (Cons g gs)
  have g: "g \<in> set COMMITTEE_SURFACE" "set gs \<subseteq> set COMMITTEE_SURFACE" using Cons.prems by simp_all
  have "\<exists>a. cn_read N ''zk-verifier'' g [] (rn_chain s) = Inr a \<and> (rr_okay a \<longleftrightarrow> g \<notin> set COMMITTEE_SURFACE)"
    using assms(1) unfolding reads_well_def by blast
  then obtain a where a: "cn_read N ''zk-verifier'' g [] (rn_chain s) = Inr a" "\<not> rr_okay a" using g(1) by blast
  then show ?case using Cons.IH [OF g(2)] by (auto simp: readOnly_def op_bind_def)
qed simp

lemma deployed_run:
  "(\<forall>c \<in> set cs. there N c (rn_chain s)) \<Longrightarrow>
   \<exists>xs. op_map (\<lambda>c. op_bind (isDeployed N c) (\<lambda>b. op_return \<lparr>ck_name = ''contract deployed: '' @ c, ck_ok = b\<rparr>)) cs s = (Inr xs, s) \<and> list_all ck_ok xs"
  by (induction cs) (auto simp: isDeployed_def there_def op_bind_def)

lemma verification_run:
  assumes "reads_well N" "\<forall>c \<in> set CONTRACT_ORDER. there N c (rn_chain s)" "loadAddresses network s = Inr a" "ad_deployer a = addr"
  shows "\<exists>checks. verifyDeployment N addr network s = (Inr (checks, True), s)"
proof -
  obtain xs where x: "op_map (\<lambda>c. op_bind (isDeployed N c) (\<lambda>b. op_return \<lparr>ck_name = ''contract deployed: '' @ c, ck_ok = b\<rparr>)) CONTRACT_ORDER s = (Inr xs, s)"
    "list_all ck_ok xs" using deployed_run [OF assms(2)] by blast
  obtain cs where c: "op_map (\<lambda>gone. op_bind (readOnly N ''zk-verifier'' gone []) (\<lambda>r.
     op_return \<lparr>ck_name = ''committee surface absent: '' @ gone, ck_ok = (\<not> rr_okay r)\<rparr>)) COMMITTEE_SURFACE s = (Inr cs, s)" "list_all ck_ok cs"
    using committee_run [OF assms(1) order_refl] by blast
  have k: "check_okay N name contract fn s = (Inr \<lparr>ck_name = name, ck_ok = True\<rparr>, s)"
    if "fn \<in> {''get-protocol-state'', ''get-verifier-contract-version'', ''get-aggregation-count'', ''get-relayer-count'', ''get-fees-info'', ''is-shield-enabled''}"
    for name contract fn
    using that by (intro check_okay_run assms(1)) (auto simp: COMMITTEE_SURFACE_def)
  show ?thesis
    unfolding verifyDeployment_def using x c by (simp add: op_bind_run k assms(3,4) Let_def)
qed


text \<open>A run over contracts that are there writes an artifact without the transactions that deployed them.\<close>

lemma resumed_artifact_forgets:
  assumes "\<forall>c \<in> set CONTRACT_ORDER. there N c (rn_chain s)"
  shows "\<exists>ts. deploy_contracts N CONTRACT_ORDER s = (Inr ts, s) \<and>
    map (snd \<circ> snd) (da_contracts (the (jm_get (rn_artifacts (snd (saveAddresses network addr ts d s))) network)))
      = replicate (length CONTRACT_ORDER) None"
  using deploy_contracts_done [OF assms]
  by (intro exI conjI, assumption) (simp add: saveAddresses_def update_conv' CONTRACT_ORDER_def)

text \<open>The older plan of calls never comes to be, because its configuration has no attestation threshold.\<close>

lemma wire_plan_fails:
  "mk_undefined = Inl e \<Longrightarrow> buildWirePlan mk mk_hex mk_undefined deployer cfg vkeys committee fees owner \<noteq> Inr p"
  by (simp add: buildWirePlan_def plan_step_def [of _ "''set-attestation-threshold''"])

text \<open>A node whose chain is the list of the contracts on it, which takes every contract but the verifier and no call.\<close>

definition demo_chain :: "string list chain_node" where
  "demo_chain =
     \<lparr>cn_interface = \<lambda>d c. Inr (d \<in> set c),
      cn_deploy = \<lambda>d c. if d = ''zk-verifier'' then (BaError ''NotEnoughFunds'', c) else (BaTxid d, d # c),
      cn_call = \<lambda>call c. (BaError ''NotEnoughFunds'', c), cn_polls = \<lambda>t c. ([PollNotOk, PollStatus ''pending'', PollStatus ''success''], c),
      cn_read = \<lambda>contract fn args c. Inr \<lparr>rr_okay = fn \<notin> set COMMITTEE_SURFACE, rr_result = None, rr_cause = None\<rparr>,
      cn_balance = \<lambda>c. Inr 10000000, cn_mk = Inr, cn_uint = \<lambda>x. Inl ''not a number'', cn_hex = \<lambda>h. Inr (CvBuffer (node_hex h))\<rparr>"

definition demo_start :: "string list \<Rightarrow> string list run" where
  "demo_start c = \<lparr>rn_chain = c, rn_sent = [], rn_addresses = [], rn_artifacts = []\<rparr>"



end
