(* ===== verification/Upgrades.thy ===== *)
theory Upgrades
  imports Deployment
begin

text \<open>
  Upgrades of a running protocol: the plan of a version upgrade (\<open>scripts/upgrades/upgrade.ts\<close>) and the command that
  moves the circuits to their next version (\<open>scripts/upgrades/circuit-upgrade.ts\<close>). Shown: what a successful upgrade sent,
  in which order, and what it does not stop at.
\<close>

section \<open>The plan\<close>

record component_versions =
  cv_protocol :: int
  cv_verifier :: int
  cv_note :: int
  cv_circuit :: int
  cv_commitment :: int
  cv_root :: int

definition versions_tuple :: "(clarity_value \<Rightarrow> (string, clarity_value) result) \<Rightarrow> component_versions \<Rightarrow> (string, clarity_value) result" where
  "versions_tuple mk v =
     rbind (rmap (\<lambda>(k, n). rbind (mk (CvUInt n)) (\<lambda>x. Inr (k, x)))
       [(''protocol'', cv_protocol v), (''verifier'', cv_verifier v), (''note'', cv_note v), (''circuit'', cv_circuit v),
        (''commitment'', cv_commitment v), (''root'', cv_root v)]) (\<lambda>fs. mk (CvTuple fs))"

text \<open>Every step waits for its confirmation.\<close>

definition buildUpgradePlan ::
  "(clarity_value \<Rightarrow> (string, clarity_value) result) \<Rightarrow> (string \<Rightarrow> (string, clarity_value) result) \<Rightarrow> component_versions
   \<Rightarrow> vkey_registration list \<Rightarrow> (string, wire_step list) result" where
  "buildUpgradePlan mk mk_hex newVersions newVKeys =
     rbind (plan_step ''privacy-registry'' ''pause-protocol'' []) (\<lambda>p.
     rbind (plan_step ''privacy-registry'' ''begin-upgrade'' []) (\<lambda>b.
     rbind (rmap (\<lambda>vk. plan_step ''zk-verifier'' ''register-verification-key''
        [mk (CvUInt (vr_proofType vk)), mk (CvUInt (vr_circuitVersion vk)), mk_hex (strip0x (vr_vkeyHashHex vk)), mk (CvUInt (vr_proofLength vk))])
        newVKeys) (\<lambda>keys.
     rbind (plan_step ''privacy-registry'' ''update-versions'' [versions_tuple mk newVersions]) (\<lambda>u.
     rbind (plan_step ''privacy-registry'' ''complete-upgrade'' []) (\<lambda>c.
     Inr ([p, b] @ keys @ [u, c]))))))"

section \<open>The command\<close>

text \<open>\<open>Number(BigInt(result.replace(/^0x01/, "0x")))\<close>, as the integer it names.\<close>

definition uint_of_hex :: "string \<Rightarrow> (string, int) result" where
  "uint_of_hex t = js_BigInt_text (if js_startsWith t ''0x01'' then ''0x'' @ drop 4 t else t)"

definition registry_readUint :: "'c chain_node \<Rightarrow> string \<Rightarrow> ('c, int) script" where
  "registry_readUint N fn =
     op_bind (readOnly N ''privacy-registry'' fn []) (\<lambda>r.
       (case (rr_okay r, set_text (rr_result r)) of
          (True, Some t) \<Rightarrow> op_lift (uint_of_hex t)
        | _ \<Rightarrow> op_throw (fn @ '' failed'')))"

definition stage_args :: "'c chain_node \<Rightarrow> int \<Rightarrow> int \<Rightarrow> string \<Rightarrow> rat option \<Rightarrow> (string, clarity_value) result list" where
  "stage_args N proofType next hash len =
     [cn_mk N (CvUInt proofType), cn_mk N (CvUInt next), hexBuf N hash, cn_uint N len]"

text \<open>The loop over the circuits: it returns 1 at the first circuit whose material is missing.\<close>

fun stage_keys :: "'c chain_node \<Rightarrow> script_env \<Rightarrow> int \<Rightarrow> (int \<times> string) list \<Rightarrow> ('c, bool) script" where
  "stage_keys N env next [] = op_return True"
| "stage_keys N env next ((proofType, key) # cs) =
     (case (env_set env (''VKEY_HASH_'' @ key), env_set env (''PROOF_LEN_'' @ key)) of
        (Some hash, Some len) \<Rightarrow>
          op_bind (op_ignore (call_with N ''zk-verifier'' ''register-verification-key'' (stage_args N proofType next hash (env_number len))
            (''stage v'' @ dec_of_int next))) (\<lambda>_. stage_keys N env next cs)
      | _ \<Rightarrow> op_return False)"

definition read_versions :: "'c chain_node \<Rightarrow> int \<Rightarrow> ('c, component_versions) script" where
  "read_versions N next =
     op_bind (registry_readUint N ''get-protocol-version'') (\<lambda>p.
     op_bind (registry_readUint N ''get-verifier-version'') (\<lambda>v.
     op_bind (registry_readUint N ''get-note-version'') (\<lambda>n.
     op_bind (registry_readUint N ''get-commitment-version'') (\<lambda>c.
     op_bind (registry_readUint N ''get-root-version'') (\<lambda>r.
     op_return \<lparr>cv_protocol = p, cv_verifier = v, cv_note = n, cv_circuit = next, cv_commitment = c, cv_root = r\<rparr>)))))"

definition upgrade_window :: "'c chain_node \<Rightarrow> int \<Rightarrow> ('c, int) script" where
  "upgrade_window N next =
     op_bind (call_with N ''privacy-registry'' ''pause-protocol'' [] ''pause'') (\<lambda>_.
     op_bind (call_with N ''privacy-registry'' ''begin-upgrade'' [] ''begin-upgrade'') (\<lambda>_.
     op_bind (read_versions N next) (\<lambda>v.
     op_bind (call_with N ''privacy-registry'' ''update-versions'' [versions_tuple (cn_mk N) v] (''set circuit version '' @ dec_of_int next)) (\<lambda>_.
     op_bind (call_with N ''privacy-registry'' ''complete-upgrade'' [] ''complete-upgrade'') (\<lambda>_.
     op_bind (registry_readUint N ''get-circuit-version'') (\<lambda>live.
     op_bind (registry_readUint N ''get-protocol-state'') (\<lambda>state.
     op_return (if live \<noteq> next then 1 else if state \<noteq> 1 then 1 else 0))))))))"

definition upgrade_on :: "'c chain_node \<Rightarrow> script_env \<Rightarrow> ('c, int) script" where
  "upgrade_on N env =
     op_bind (registry_readUint N ''get-circuit-version'') (\<lambda>current.
     op_bind (stage_keys N env (current + 1) CIRCUIT_KEYS) (\<lambda>staged.
       if \<not> staged then op_return 1 else upgrade_window N (current + 1)))"

definition circuit_upgrade :: "'c host \<Rightarrow> ('c, int) script" where
  "circuit_upgrade H =
     (let network = (case ho_argv H of Some n \<Rightarrow> n | None \<Rightarrow> ''testnet'');
          env = ho_env H (if network = ''mainnet'' then ''.env.mainnet'' else ''.env.testnet'') in
      op_bind (op_lift (resolveDeployerMnemonic env (ho_clarinetMnemonic H network))) (\<lambda>mnemonic.
      op_bind (op_lift (ho_signer H mnemonic network)) (\<lambda>addr.
      op_bind (op_lift (script_url H env network)) (\<lambda>url. upgrade_on (ho_node H addr url) env))))"

section \<open>What a run sends\<close>

definition sends :: "('c, 'a) script \<Rightarrow> 'c run \<Rightarrow> sent list \<Rightarrow> bool" where
  "sends m s xs \<longleftrightarrow> rn_sent (snd (m s)) = rn_sent s @ xs"

definition registration :: "'c chain_node \<Rightarrow> int \<Rightarrow> contract_call \<Rightarrow> bool" where
  "registration N next call \<longleftrightarrow> cc_contract call = ''zk-verifier'' \<and> cc_fn call = ''register-verification-key'' \<and>
     (\<exists>t h l. rseq (stage_args N t next h l) = Inr (cc_args call))"

lemma call_with_sends:
  "rn_sent (snd (call_with N contract fn args label s)) =
   rn_sent s @ (case rseq args of Inl e \<Rightarrow> [] | Inr vs \<Rightarrow> [SentCall \<lparr>cc_contract = contract, cc_fn = fn, cc_args = vs\<rparr>])"
  by (auto simp: call_with_def callContract_def note_sent_def on_chain_def deployer_waitForConfirmation_def op_bind_def Let_def
      split: sum.splits prod.splits)

lemma call_with_returns:
  "call_with N contract fn args label s = (Inr u, s1) \<Longrightarrow>
   \<exists>vs. rseq args = Inr vs \<and> rn_sent s1 = rn_sent s @ [SentCall \<lparr>cc_contract = contract, cc_fn = fn, cc_args = vs\<rparr>]"
  using call_with_sends [of N contract fn args label s]
  by (cases "rseq args") (simp_all add: call_with_def op_bind_def)

lemma op_ignore_run: "op_ignore m s = (Inr (), snd (m s))"
  by (cases "m s"; cases "fst (m s)") (auto simp: op_ignore_def op_catch_def)

lemma readUint_state: "snd (registry_readUint N fn s) = s"
  by (simp add: registry_readUint_def readOnly_def op_bind_def set_text_def split: sum.splits prod.splits option.splits bool.splits)

lemma readUint_Inr: "registry_readUint N fn s = (Inr n, s1) \<Longrightarrow> s1 = s"
  using readUint_state [of N fn s] by simp

lemma read_versions_Inr: "read_versions N next s = (Inr v, s1) \<Longrightarrow> s1 = s \<and> cv_circuit v = next"
  by (auto simp: read_versions_def op_bind_Inr dest!: readUint_Inr)

lemma stage_keys_sends:
  "stage_keys N env next cs s = (r, s1) \<Longrightarrow> \<exists>calls. rn_sent s1 = rn_sent s @ map SentCall calls \<and> length calls \<le> length cs
     \<and> list_all (registration N next) calls"
proof (induction cs arbitrary: s)
  case Nil
  then show ?case by simp
next
  case (Cons c cs)
  obtain t key where c: "c = (t, key)" by (cases c)
  show ?case
  proof (cases "(env_set env (''VKEY_HASH_'' @ key), env_set env (''PROOF_LEN_'' @ key))")
    case (Pair h l)
    show ?thesis
    proof (cases "h = None \<or> l = None")
      case True
      then have "s1 = s" using Cons.prems Pair by (cases h; cases l) (simp_all add: c)
      then show ?thesis by (intro exI [of _ "[]"]) simp
    next
      case False
      then obtain hash len where hl: "h = Some hash" "l = Some len" by auto
      define m where "m = call_with N ''zk-verifier'' ''register-verification-key'' (stage_args N t next hash (env_number len))
          (''stage v'' @ dec_of_int next)"
      have "stage_keys N env next cs (snd (m s)) = (r, s1)"
        using Cons.prems Pair hl by (simp add: c op_bind_def op_ignore_run m_def)
      from Cons.IH [OF this] obtain calls where
        i: "rn_sent s1 = rn_sent (snd (m s)) @ map SentCall calls" "length calls \<le> length cs" "list_all (registration N next) calls" by blast
      show ?thesis
      proof (cases "rseq (stage_args N t next hash (env_number len))")
        case (Inl e)
        then have "rn_sent (snd (m s)) = rn_sent s" by (simp add: m_def call_with_sends)
        then show ?thesis using i by (intro exI [of _ calls]) simp
      next
        case (Inr vs)
        let ?call = "\<lparr>cc_contract = ''zk-verifier'', cc_fn = ''register-verification-key'', cc_args = vs\<rparr>"
        have "rn_sent (snd (m s)) = rn_sent s @ [SentCall ?call]" using Inr by (simp add: m_def call_with_sends)
        moreover have "registration N next ?call" using Inr by (auto simp: registration_def)
        ultimately show ?thesis using i by (intro exI [of _ "?call # calls"]) simp
      qed
    qed
  qed
qed

definition registry_call :: "string \<Rightarrow> clarity_value list \<Rightarrow> sent" where
  "registry_call fn args = SentCall \<lparr>cc_contract = ''privacy-registry'', cc_fn = fn, cc_args = args\<rparr>"

lemma upgrade_window_sends:
  assumes "upgrade_window N next s = (Inr 0, s1)"
  shows "\<exists>v tuple. cv_circuit v = next \<and> versions_tuple (cn_mk N) v = Inr tuple
    \<and> rn_sent s1 = rn_sent s @ [registry_call ''pause-protocol'' [], registry_call ''begin-upgrade'' [],
        registry_call ''update-versions'' [tuple], registry_call ''complete-upgrade'' []]
    \<and> registry_readUint N ''get-circuit-version'' s1 = (Inr next, s1) \<and> registry_readUint N ''get-protocol-state'' s1 = (Inr 1, s1)"
proof -
  obtain u1 s2 u2 s3 v u3 s4 u4 s5 where
    c: "call_with N ''privacy-registry'' ''pause-protocol'' [] ''pause'' s = (Inr u1, s2)"
       "call_with N ''privacy-registry'' ''begin-upgrade'' [] ''begin-upgrade'' s2 = (Inr u2, s3)"
       "cv_circuit v = next"
       "call_with N ''privacy-registry'' ''update-versions'' [versions_tuple (cn_mk N) v] (''set circuit version '' @ dec_of_int next) s3 = (Inr u3, s4)"
       "call_with N ''privacy-registry'' ''complete-upgrade'' [] ''complete-upgrade'' s4 = (Inr u4, s5)"
    and r: "s1 = s5" "registry_readUint N ''get-circuit-version'' s5 = (Inr next, s5)" "registry_readUint N ''get-protocol-state'' s5 = (Inr 1, s5)"
    using assms unfolding upgrade_window_def
    by (auto simp: op_bind_Inr dest!: read_versions_Inr split: if_splits) (metis readUint_Inr)
  show ?thesis
    using call_with_returns [OF c(1)] call_with_returns [OF c(2)] call_with_returns [OF c(4)] call_with_returns [OF c(5)] c(3) r
    by (auto simp: registry_call_def)
qed


text \<open>The upgrade does not stop at a key it could not register: whatever the registrations answer, it opens the window as soon as
  the material of every circuit is in the environment.\<close>

lemma staging_never_fails:
  "(\<forall>(t, key) \<in> set cs. env_set env (''VKEY_HASH_'' @ key) \<noteq> None \<and> env_set env (''PROOF_LEN_'' @ key) \<noteq> None) \<Longrightarrow>
   \<exists>s1. stage_keys N env next cs s = (Inr True, s1)"
  by (induction cs arbitrary: s) (auto simp: op_bind_def op_ignore_run)

text \<open>The upgrade does not check its material before it changes anything, as its message says it does: when the material
  of one circuit is missing, it returns 1 after the keys of all circuits before that one have been registered under the next
  version, where they cannot be replaced.\<close>

theorem upgrade_aborts_late:
  assumes "registry_readUint N ''get-circuit-version'' s = (Inr current, s)" "CIRCUIT_KEYS = pre @ (t, key) # post"
    and "\<forall>(t, k) \<in> set pre. env_set env (''VKEY_HASH_'' @ k) \<noteq> None \<and> env_set env (''PROOF_LEN_'' @ k) \<noteq> None"
    and "env_set env (''VKEY_HASH_'' @ key) = None" "\<forall>t h l. \<exists>vs. rseq (stage_args N t (current + 1) h l) = Inr vs"
  shows "\<exists>s1 calls. upgrade_on N env s = (Inr 1, s1) \<and> rn_sent s1 = rn_sent s @ map SentCall calls
    \<and> length calls = length pre \<and> list_all (registration N (current + 1)) calls"
proof -
  have "\<exists>s1 calls. stage_keys N env (current + 1) (pre @ (t, key) # post) s = (Inr False, s1) \<and> rn_sent s1 = rn_sent s @ map SentCall calls
    \<and> length calls = length pre \<and> list_all (registration N (current + 1)) calls"
    using assms(3)
  proof (induction pre arbitrary: s)
    case Nil
    then show ?case using assms(4) by (auto intro!: exI [of _ "[]"])
  next
    case (Cons c pre)
    obtain u k where c: "c = (u, k)" by (cases c)
    obtain hash len where hl: "env_set env (''VKEY_HASH_'' @ k) = Some hash" "env_set env (''PROOF_LEN_'' @ k) = Some len"
      using Cons.prems by (auto simp: c)
    define m where "m = call_with N ''zk-verifier'' ''register-verification-key'' (stage_args N u (current + 1) hash (env_number len))
          (''stage v'' @ dec_of_int (current + 1))"
    obtain vs where vs: "rseq (stage_args N u (current + 1) hash (env_number len)) = Inr vs" using assms(5) by blast
    let ?call = "\<lparr>cc_contract = ''zk-verifier'', cc_fn = ''register-verification-key'', cc_args = vs\<rparr>"
    have "rn_sent (snd (m s)) = rn_sent s @ [SentCall ?call]" using vs by (simp add: m_def call_with_sends)
    moreover have "registration N (current + 1) ?call" using vs by (auto simp: registration_def)
    moreover obtain s1 calls where "stage_keys N env (current + 1) (pre @ (t, key) # post) (snd (m s)) = (Inr False, s1)"
      "rn_sent s1 = rn_sent (snd (m s)) @ map SentCall calls" "length calls = length pre" "list_all (registration N (current + 1)) calls"
      using Cons.IH [of "snd (m s)"] Cons.prems by auto
    moreover from this have "stage_keys N env (current + 1) ((c # pre) @ (t, key) # post) s = (Inr False, s1)"
      using hl by (simp add: c op_bind_def op_ignore_run m_def)
    ultimately show ?case by (intro exI [of _ s1] exI [of _ "?call # calls"]) simp
  qed
  then show ?thesis using assms(1,2) by (auto simp: upgrade_on_def op_bind_def)
qed

text \<open>A registry whose chain is its circuit version, with a verifier that refuses every key.\<close>

definition demo_registry :: "int chain_node" where
  "demo_registry =
     \<lparr>cn_interface = \<lambda>d c. Inr True, cn_deploy = \<lambda>d c. (BaError ''exists'', c),
      cn_call = \<lambda>call c. if cc_contract call = ''zk-verifier'' then (BaError ''refused'', c)
                else (BaTxid ''t'', if cc_fn call = ''update-versions'' then 3 else c),
      cn_polls = \<lambda>t c. ([PollStatus ''success''], c),
      cn_read = \<lambda>contract fn args c. Inr \<lparr>rr_okay = True,
        rr_result = Some (if fn = ''get-protocol-state'' then ''0x0101'' else if c = 3 then ''0x0103'' else ''0x0102''), rr_cause = None\<rparr>,
      cn_balance = \<lambda>c. Inr 0, cn_mk = Inr, cn_uint = \<lambda>x. Inr (CvUInt 1), cn_hex = \<lambda>h. Inr (CvBuffer (node_hex h))\<rparr>"

definition demo_material :: "string list \<Rightarrow> script_env" where
  "demo_material keys = concat (map (\<lambda>k. [(''VKEY_HASH_'' @ k, ''0x01''), (''PROOF_LEN_'' @ k, ''1'')]) keys)"

definition demo_run :: "int run" where
  "demo_run = \<lparr>rn_chain = 2, rn_sent = [], rn_addresses = [], rn_artifacts = []\<rparr>"

lemma demo_reads:
  "uint_of_hex ''0x0101'' = Inr 1" "uint_of_hex ''0x0102'' = Inr 2" "uint_of_hex ''0x0103'' = Inr 3"
  by code_simp+

lemma demo_read: "registry_readUint demo_registry fn s = (Inr (if fn = ''get-protocol-state'' then 1 else if rn_chain s = 3 then 3 else 2), s)"
  by (simp add: registry_readUint_def readOnly_def op_bind_def demo_registry_def set_text_def demo_reads)

lemma demo_call:
  "rseq args = Inr vs \<Longrightarrow> \<exists>x. call_with demo_registry ''privacy-registry'' fn args label s
     = (Inr (), s\<lparr>rn_sent := x, rn_chain := if fn = ''update-versions'' then 3 else rn_chain s\<rparr>)"
  by (simp add: call_with_def callContract_def note_sent_def on_chain_def deployer_waitForConfirmation_def broadcast_def op_bind_def Let_def demo_registry_def)
    (cases s, auto)

lemma demo_call0: "\<exists>s1. call_with demo_registry ''privacy-registry'' fn [] label s = (Inr (), s1)"
  using demo_call [of "[]" "[]" fn label s] by auto

lemma demo_window: "fst (upgrade_window demo_registry 3 s) = Inr 0"
proof -
  have t: "\<exists>tuple. rseq [versions_tuple (cn_mk demo_registry) v] = Inr tuple" for v by (simp add: versions_tuple_def demo_registry_def)
  obtain s1 where a: "call_with demo_registry ''privacy-registry'' ''pause-protocol'' [] ''pause'' s = (Inr (), s1)"
    using demo_call0 by blast
  obtain s2 where b: "call_with demo_registry ''privacy-registry'' ''begin-upgrade'' [] ''begin-upgrade'' s1 = (Inr (), s2)"
    using demo_call0 by blast
  obtain v where v: "read_versions demo_registry 3 s2 = (Inr v, s2)" by (simp add: read_versions_def op_bind_def demo_read)
  obtain vs where vs: "rseq [versions_tuple (cn_mk demo_registry) v] = Inr vs" using t by blast
  obtain s3 where c: "call_with demo_registry ''privacy-registry'' ''update-versions'' [versions_tuple (cn_mk demo_registry) v]
      (''set circuit version '' @ dec_of_int 3) s2 = (Inr (), s3)" "rn_chain s3 = 3"
    using demo_call [OF vs, of "''update-versions''" "''set circuit version '' @ dec_of_int 3" s2] by auto
  obtain s4 where d: "call_with demo_registry ''privacy-registry'' ''complete-upgrade'' [] ''complete-upgrade'' s3 = (Inr (), s4)" "rn_chain s4 = 3"
    using demo_call [of "[]" "[]" "''complete-upgrade''" "''complete-upgrade''" s3] c(2) by auto
  show ?thesis unfolding upgrade_window_def using c(1) by (simp add: op_bind_run a b d v demo_read)
qed

lemma demo_material_full: "\<forall>(t, k) \<in> set CIRCUIT_KEYS. env_set (demo_material (map snd CIRCUIT_KEYS)) (''VKEY_HASH_'' @ k) \<noteq> None
    \<and> env_set (demo_material (map snd CIRCUIT_KEYS)) (''PROOF_LEN_'' @ k) \<noteq> None"
  by (simp add: CIRCUIT_KEYS_def demo_material_def env_set_def)

lemma demo_upgrade: "fst (upgrade_on demo_registry (demo_material (map snd CIRCUIT_KEYS)) demo_run) = Inr 0"
proof -
  have r: "registry_readUint demo_registry ''get-circuit-version'' demo_run = (Inr 2, demo_run)" by (simp add: demo_read demo_run_def)
  obtain s1 where "stage_keys demo_registry (demo_material (map snd CIRCUIT_KEYS)) 3 CIRCUIT_KEYS demo_run = (Inr True, s1)"
    using staging_never_fails [OF demo_material_full] by blast
  then show ?thesis using r demo_window by (simp add: upgrade_on_def op_bind_run)
qed


lemma upgrade_aborts_late_witness:
  "\<exists>s1 calls. upgrade_on demo_registry (demo_material [''SHIELD'', ''TRANSFER'']) demo_run = (Inr 1, s1)
    \<and> rn_sent s1 = map SentCall calls \<and> length calls = 2"
proof -
  have r: "registry_readUint demo_registry ''get-circuit-version'' demo_run = (Inr 2, demo_run)" by (simp add: demo_read demo_run_def)
  have k: "CIRCUIT_KEYS = [(1, ''SHIELD''), (2, ''TRANSFER'')] @ (3, ''WITHDRAW'') # [(4, ''SPLIT''), (5, ''MERGE'')]" by (simp add: CIRCUIT_KEYS_def)
  have "\<forall>t h l. \<exists>vs. rseq (stage_args demo_registry t (2 + 1) h l) = Inr vs" by (simp add: stage_args_def demo_registry_def hexBuf_def)
  from upgrade_aborts_late [OF r k _ _ this, of "demo_material [''SHIELD'', ''TRANSFER'']"] show ?thesis
    by (auto simp: demo_material_def env_set_def demo_run_def) (metis numeral_2_eq_2)
qed

end
