(* ===== verification/Sip10Deploy.thy ===== *)
theory Sip10Deploy
  imports Deployment
begin

text \<open>
  Deployment of the SIP-10 contracts and administration of both families: \<open>scripts/deployment/sip10/\<close> (library, deployment,
  keys, assets, fees, configuration) and \<open>scripts/deployment/set-relayers.ts\<close>. Shown: the configuration cannot be run a
  second time, because an aborted transaction is reported without the error code the scripts look for; and what the seats
  of the relayers are after \<open>set-relayers\<close>, which reads them before it writes.
\<close>

section \<open>Library\<close>

definition SIP10_CONTRACTS :: "string list" where
  "SIP10_CONTRACTS = [''sip-010-trait'', ''asset-registry'', ''sip10-protocol-fees'', ''sip10-zk-verifier'', ''sip10-pool'']"

definition SIP10_CIRCUIT_VERSION :: int where
  "SIP10_CIRCUIT_VERSION = 2"

definition SIP10_PROOF_LEN :: int where
  "SIP10_PROOF_LEN = 7872"

definition SIP10_CIRCUITS :: "(string \<times> int \<times> string) list" where
  "SIP10_CIRCUITS =
     [(''shield'', 1, ''SHIELD''), (''transfer'', 2, ''TRANSFER''), (''withdraw'', 3, ''WITHDRAW''), (''split'', 4, ''SPLIT''),
      (''merge'', 5, ''MERGE'')]"

definition EXPECTED_DEPLOYER :: string where
  "EXPECTED_DEPLOYER = ''ST18XMPE0PS5VNEEKB82BPW7NRZRHXEPH16JK8NN6''"

definition env_present :: "script_env \<Rightarrow> string \<Rightarrow> bool" where
  "env_present e k \<longleftrightarrow> (case env_set e k of None \<Rightarrow> False | Some v \<Rightarrow> js_trim v \<noteq> [])"

definition requireEnvVars :: "script_env \<Rightarrow> string list \<Rightarrow> (string, unit) result" where
  "requireEnvVars e keys =
     (let missing = filter (\<lambda>k. \<not> env_present e k) keys in
      if missing \<noteq> [] then Inl (''Missing required .env.v2.deploy variables:'' @ concat (map (\<lambda>k. ''  - '' @ k) missing)) else Inr ())"

definition getDeployer :: "'c host \<Rightarrow> script_env \<Rightarrow> (string, string \<times> 'c chain_node) result" where
  "getDeployer H e =
     rbind (requireEnvVars e [''NEW_DEPLOYER_MNEMONIC'']) (\<lambda>_.
     rbind (ho_signer H (env_else e ''NEW_DEPLOYER_MNEMONIC'' []) ''testnet'') (\<lambda>addr.
     rbind (rguard (addr = env_else e ''NEW_DEPLOYER_ADDRESS'' EXPECTED_DEPLOYER) (''Deployer address mismatch: mnemonic derives '' @ addr)) (\<lambda>_.
     Inr (addr, ho_node H addr (env_else e ''CORE_API_URL'' ''https://api.testnet.hiro.so'')))))"

definition buff32 :: "'c chain_node \<Rightarrow> string \<Rightarrow> (string, clarity_value) result" where
  "buff32 N hex =
     (let clean = strip0x hex in
      if length clean \<noteq> 64 then Inl (''expected a 32-byte hex value: '' @ hex) else cn_hex N clean)"

definition contractPrincipalArg :: "'c chain_node \<Rightarrow> string \<Rightarrow> (string, clarity_value) result" where
  "contractPrincipalArg N i =
     (case js_split (CHR ''.'') i of
        addr # name # _ \<Rightarrow> if addr = [] \<or> name = [] then Inl (''not a contract principal: '' @ i) else cn_mk N (CvContractPrincipal addr name)
      | _ \<Rightarrow> Inl (''not a contract principal: '' @ i))"

text \<open>\<open>try { \<dots> } catch (err) { if (msg.includes(code)) \<dots> else throw err }\<close>\<close>

definition tolerate :: "string list \<Rightarrow> ('c, unit) script \<Rightarrow> ('c, unit) script" where
  "tolerate codes m = op_catch m (\<lambda>msg. if list_ex (js_includes msg) codes then op_return () else op_throw msg)"

definition tolerant ::
  "'c chain_node \<Rightarrow> string \<Rightarrow> string \<Rightarrow> (string, clarity_value) result list \<Rightarrow> string \<Rightarrow> ('c, unit) script" where
  "tolerant N contract fn args okCode = tolerate [okCode] (call_with N contract fn args (contract @ ''.'' @ fn))"

section \<open>Deployment and configuration\<close>

text \<open>A low balance is only warned about.\<close>

definition deploy_sip10 :: "'c host \<Rightarrow> script_env \<Rightarrow> ('c, unit) script" where
  "deploy_sip10 H e =
     op_bind (op_lift (getDeployer H e)) (\<lambda>(addr, N).
     op_bind (accountBalance N) (\<lambda>_.
     op_each (\<lambda>name. op_bind (deployContract N name) (\<lambda>_. op_return ())) SIP10_CONTRACTS))"

definition vkEnvKeys :: "string list" where
  "vkEnvKeys = ''ZKVERIFY_CONTEXT_HASH'' #
     concat (map (\<lambda>(n, t, p). [p @ ''_VK_HASH'', p @ ''_ZKV_VKEY_HASH'', p @ ''_VERSION_HASH'']) SIP10_CIRCUITS)"

definition registerVerificationKeys :: "'c chain_node \<Rightarrow> script_env \<Rightarrow> ('c, unit) script" where
  "registerVerificationKeys N e =
     (let V = ''sip10-zk-verifier''; buf = (\<lambda>k. buff32 N (env_else e k [])) in
      op_bind (op_lift (requireEnvVars e vkEnvKeys)) (\<lambda>_.
      op_bind (call_with N V ''set-zkverify-context-hash'' [buf ''ZKVERIFY_CONTEXT_HASH''] (V @ ''.set-context'')) (\<lambda>_.
      op_each (\<lambda>(name, proofType, prefix).
        op_bind (tolerate [''u556''] (call_with N V ''register-verification-key''
          [cn_mk N (CvUInt proofType), cn_mk N (CvUInt SIP10_CIRCUIT_VERSION), buf (prefix @ ''_VK_HASH''), cn_mk N (CvUInt SIP10_PROOF_LEN)]
          (V @ ''.register-vk.'' @ name))) (\<lambda>_.
        call_with N V ''set-zkverify-binding''
          [cn_mk N (CvUInt proofType), cn_mk N (CvUInt SIP10_CIRCUIT_VERSION), buf (prefix @ ''_ZKV_VKEY_HASH''), buf (prefix @ ''_VERSION_HASH'')]
          (V @ ''.set-binding.'' @ name))) SIP10_CIRCUITS)))"

record asset_spec =
  sp_contract :: string
  sp_name :: string
  sp_decimals :: "rat option"
  sp_minShield :: "rat option"
  sp_maxShield :: "rat option"

definition assetEnvKeys :: "string list" where
  "assetEnvKeys = [''SBTC_CONTRACT'', ''SBTC_DECIMALS'', ''USDCX_CONTRACT'', ''USDCX_DECIMALS'']"

definition env_num :: "script_env \<Rightarrow> string \<Rightarrow> rat \<Rightarrow> rat option" where
  "env_num e k dflt = (if env_present e k then env_number (env_else e k []) else Some dflt)"

definition assetSpecs :: "script_env \<Rightarrow> asset_spec list" where
  "assetSpecs e =
     [\<lparr>sp_contract = env_else e ''SBTC_CONTRACT'' [], sp_name = ''sBTC'', sp_decimals = env_num e ''SBTC_DECIMALS'' 8,
       sp_minShield = env_num e ''SBTC_MIN_SHIELD'' 1000, sp_maxShield = env_num e ''SBTC_MAX_SHIELD'' 100000000000\<rparr>,
      \<lparr>sp_contract = env_else e ''USDCX_CONTRACT'' [], sp_name = ''USDCx'', sp_decimals = env_num e ''USDCX_DECIMALS'' 6,
       sp_minShield = env_num e ''USDCX_MIN_SHIELD'' 1000000, sp_maxShield = env_num e ''USDCX_MAX_SHIELD'' 1000000000000\<rparr>]"

definition registerAssets :: "'c chain_node \<Rightarrow> string \<Rightarrow> script_env \<Rightarrow> ('c, unit) script" where
  "registerAssets N addr e =
     op_bind (op_lift (requireEnvVars e assetEnvKeys)) (\<lambda>_.
       op_each (\<lambda>a. tolerate [''u401'', ''NoSuchContract'', ''BadFunctionArgument''] (call_with N ''asset-registry'' ''register-asset''
         [contractPrincipalArg N (sp_contract a), cn_mk N (CvStringAscii (sp_name a)), cn_uint N (sp_decimals a), cn_uint N (sp_minShield a),
          cn_uint N (sp_maxShield a), cn_mk N (CvUInt 1), cn_mk N (CvUInt 0), cn_mk N (CvPrincipal (env_else e ''FEE_RECIPIENT'' addr)),
          cn_mk N (CvUInt 1)] (''asset-registry.register-asset.'' @ sp_name a))) (assetSpecs e))"

definition configure_sip10 :: "'c host \<Rightarrow> script_env \<Rightarrow> ('c, unit) script" where
  "configure_sip10 H e =
     op_bind (op_lift (getDeployer H e)) (\<lambda>(addr, N).
     op_bind (op_lift (cn_mk N (CvContractPrincipal addr ''sip10-pool''))) (\<lambda>pool.
     op_bind (tolerant N ''privacy-registry'' ''add-authorized-caller'' [Inr pool] ''u144'') (\<lambda>_.
     op_bind (tolerant N ''sip10-zk-verifier'' ''set-authorized-pool'' [Inr pool] ''u573'') (\<lambda>_.
     op_bind (op_lift (cn_mk N (CvPrincipal (env_else e ''RELAYER_ADDRESS'' addr)))) (\<lambda>relayer.
     op_bind (tolerant N ''sip10-zk-verifier'' ''add-relayer'' [Inr relayer] ''u318'') (\<lambda>_.
     op_bind (registerVerificationKeys N e) (\<lambda>_.
     op_bind (registerAssets N addr e) (\<lambda>_.
     op_bind (op_lift (cn_mk N (CvUInt SIP10_CIRCUIT_VERSION))) (\<lambda>v.
     tolerant N ''sip10-zk-verifier'' ''set-circuit-version'' [Inr v] ''u572'')))))))))"

section \<open>Fees\<close>

text \<open>\<open>decode_uid\<close> and \<open>decode_uint\<close> read the Clarity value of a reply; \<open>pow10\<close> is \<open>10 ** n\<close>.\<close>

definition resolveAssetId :: "(string \<Rightarrow> int option) \<Rightarrow> 'c chain_node \<Rightarrow> string \<Rightarrow> ('c, int) script" where
  "resolveAssetId decode_uid N p =
     op_bind (op_lift (cn_mk N (CvPrincipal p))) (\<lambda>v.
     op_bind (readOnly N ''asset-registry'' ''get-asset-id-by-principal'' [v]) (\<lambda>r.
       (case (rr_okay r, set_text (rr_result r)) of
          (True, Some t) \<Rightarrow> (case decode_uid t of Some u \<Rightarrow> op_return u | None \<Rightarrow> op_throw (''asset '' @ p @ '' is not registered in asset-registry''))
        | _ \<Rightarrow> op_throw (''get-asset-id-by-principal('' @ p @ '') failed''))))"

definition js_greater :: "rat option \<Rightarrow> rat option \<Rightarrow> bool" where
  "js_greater a b \<longleftrightarrow> (case (a, b) of (Some x, Some y) \<Rightarrow> y < x | _ \<Rightarrow> False)"

definition fee_plan :: "rat option \<Rightarrow> rat option \<Rightarrow> rat option \<Rightarrow> (int \<times> rat option \<times> rat option) list" where
  "fee_plan shieldBps withdrawBps flat =
     [(1, shieldBps, Some 0), (3, withdrawBps, Some 0), (2, Some 0, flat), (4, Some 0, flat), (5, Some 0, flat)]"

definition asset_fees ::
  "(rat \<Rightarrow> rat) \<Rightarrow> (string \<Rightarrow> int option) \<Rightarrow> 'c chain_node \<Rightarrow> rat option \<Rightarrow> rat option \<Rightarrow> rat option \<Rightarrow> asset_spec \<Rightarrow> ('c, unit) script" where
  "asset_fees pow10 decode_uid N shieldBps withdrawBps flatTokens a =
     op_bind (op_catch (op_bind (resolveAssetId decode_uid N (sp_contract a)) (\<lambda>u. op_return (Some u))) (\<lambda>_. op_return None)) (\<lambda>found.
       (case found of
          None \<Rightarrow> op_return ()
        | Some uid \<Rightarrow>
            let flat = Option.bind flatTokens (\<lambda>f. Option.bind (sp_decimals a) (\<lambda>d.
                  map_option (\<lambda>x. of_int \<lfloor>x + 1 / 2\<rfloor>) (js_double (f * pow10 d)))) in
            op_bind (op_guard (\<not> js_greater flat (sp_maxShield a)) (sp_name a @ '': flat fee exceeds max-shield'')) (\<lambda>_.
            op_each (\<lambda>(type, bps, flatAmt).
              if bps = Some 0 \<and> flatAmt = Some 0 then op_return ()
              else call_with N ''asset-registry'' ''set-asset-fee-config''
                [cn_mk N (CvUInt uid), cn_mk N (CvUInt type), cn_uint N bps, cn_uint N flatAmt, cn_mk N (CvBool True)]
                (''asset-registry.set-asset-fee-config.'' @ sp_name a)) (fee_plan shieldBps withdrawBps flat))))"

definition setSip10Fees ::
  "(rat \<Rightarrow> rat) \<Rightarrow> (string \<Rightarrow> int option) \<Rightarrow> (string \<Rightarrow> rat option) \<Rightarrow> 'c chain_node \<Rightarrow> script_env \<Rightarrow> ('c, unit) script" where
  "setSip10Fees pow10 decode_uid decode_uint N e =
     op_bind (op_lift (requireEnvVars e assetEnvKeys)) (\<lambda>_.
     let shieldBps = env_num e ''FEE_SHIELD_BPS'' 25; withdrawBps = env_num e ''FEE_WITHDRAW_BPS'' 30; flatTokens = env_num e ''FEE_FLAT_TOKENS'' 0 in
     op_bind (readOnly N ''privacy-registry'' ''get-max-fee-bps'' []) (\<lambda>r.
     let maxBps = (case (rr_okay r, set_text (rr_result r)) of (True, Some t) \<Rightarrow> decode_uint t | _ \<Rightarrow> Some 100) in
     op_bind (op_guard (\<not> js_greater shieldBps maxBps) ''FEE_SHIELD_BPS exceeds the registry ceiling'') (\<lambda>_.
     op_bind (op_guard (\<not> js_greater withdrawBps maxBps) ''FEE_WITHDRAW_BPS exceeds the registry ceiling'') (\<lambda>_.
     op_each (asset_fees pow10 decode_uid N shieldBps withdrawBps flatTokens) (assetSpecs e)))))"

section \<open>Seats of the relayers\<close>

definition RELAYER_VERIFIERS :: "string list" where
  "RELAYER_VERIFIERS = [''zk-verifier'', ''sip10-zk-verifier'']"

text \<open>\<open>[...new Set(xs.map(trim).filter(Boolean))]\<close>: without repetitions, in the order of first occurrence.\<close>

definition trimmed_set :: "string list \<Rightarrow> string list" where
  "trimmed_set xs = rev (remdups (rev (filter (\<lambda>t. t \<noteq> []) (map js_trim xs))))"

definition parseRelayers :: "script_env \<Rightarrow> string list" where
  "parseRelayers e =
     trimmed_set (case env_set e ''RELAYER_ADDRESSES'' of
       Some csv \<Rightarrow> js_split (CHR '','') csv
     | None \<Rightarrow> map (\<lambda>k. case jm_get e k of Some v \<Rightarrow> v | None \<Rightarrow> []) [''RELAYER_1_ADDRESS'', ''RELAYER_2_ADDRESS'', ''RELAYER_3_ADDRESS''])"

definition isRelayer :: "'c chain_node \<Rightarrow> string \<Rightarrow> string \<Rightarrow> ('c, bool) script" where
  "isRelayer N verifier who =
     op_bind (op_lift (cn_mk N (CvPrincipal who))) (\<lambda>p.
     op_bind (readOnly N verifier ''get-relayer'' [p]) (\<lambda>r.
       op_return (rr_okay r \<and> (case set_text (rr_result r) of None \<Rightarrow> False | Some t \<Rightarrow> t \<noteq> ''0x09''))))"

definition seat_call :: "'c chain_node \<Rightarrow> string \<Rightarrow> string \<Rightarrow> string \<Rightarrow> ('c, unit) script" where
  "seat_call N verifier fn who = call_with N verifier fn [cn_mk N (CvPrincipal who)] (verifier @ ''.'' @ fn @ '' '' @ who)"

definition seat_one :: "'c chain_node \<Rightarrow> string \<Rightarrow> string \<Rightarrow> ('c, unit) script" where
  "seat_one N verifier who =
     op_bind (isRelayer N verifier who) (\<lambda>b. if b then op_return () else seat_call N verifier ''add-relayer'' who)"

definition unseat_one :: "'c chain_node \<Rightarrow> string list \<Rightarrow> string \<Rightarrow> string \<Rightarrow> ('c, unit) script" where
  "unseat_one N relayers verifier who =
     (if who \<in> set relayers then op_return ()
      else op_bind (isRelayer N verifier who) (\<lambda>b. if b then seat_call N verifier ''remove-relayer'' who else op_return ()))"

definition seat_verifier :: "'c chain_node \<Rightarrow> string list \<Rightarrow> string list \<Rightarrow> string \<Rightarrow> ('c, unit) script" where
  "seat_verifier N relayers removeList verifier =
     op_bind (isDeployed N verifier) (\<lambda>b.
       if \<not> b then op_return ()
       else op_bind (op_each (seat_one N verifier) relayers) (\<lambda>_.
            op_bind (op_each (unseat_one N relayers verifier) removeList) (\<lambda>_.
            op_bind (readOnly N verifier ''get-relayer-count'' []) (\<lambda>_. op_return ()))))"

text \<open>\<open>/^(1|true|yes)$/i\<close>, case being that of ASCII letters.\<close>

definition says_yes :: "string \<Rightarrow> bool" where
  "says_yes v \<longleftrightarrow> js_toLowerCase v \<in> {''1'', ''true'', ''yes''}"

definition relayer_drop :: "script_env \<Rightarrow> bool" where
  "relayer_drop e = says_yes (case jm_get e ''RELAYER_DROP_DEPLOYER'' of Some v \<Rightarrow> v | None \<Rightarrow> [])"

definition relayer_removals :: "script_env \<Rightarrow> string \<Rightarrow> string list" where
  "relayer_removals e addr =
     trimmed_set (js_split (CHR '','') (case jm_get e ''RELAYER_REMOVE'' of Some v \<Rightarrow> v | None \<Rightarrow> [])) @ (if relayer_drop e then [addr] else [])"

text \<open>Without \<open>--status\<close>, which only reads.\<close>

definition set_relayers :: "'c host \<Rightarrow> script_env \<Rightarrow> ('c, unit) script" where
  "set_relayers H e =
     (let relayers = parseRelayers e in
      op_bind (op_guard (relayers \<noteq> []) ''No relayer addresses.'') (\<lambda>_.
      op_bind (op_lift (getDeployer H e)) (\<lambda>(addr, N).
      op_bind (op_guard (\<not> (relayer_drop e \<and> addr \<in> set relayers)) ''RELAYER_DROP_DEPLOYER=true but the deployer is itself in RELAYER_ADDRESSES'') (\<lambda>_.
      op_each (seat_verifier N relayers (relayer_removals e addr)) RELAYER_VERIFIERS))))"

section \<open>A second configuration\<close>

text \<open>What the script reports of a transaction that was aborted: its id and its status, and no code.\<close>

lemma sublist_set: "sublist t s \<Longrightarrow> set t \<subseteq> set s"
  by (auto simp: sublist_def)

lemma not_tolerated:
  assumes "CHR ''u'' \<notin> set txid" "CHR ''u'' \<notin> set st"
  shows "\<not> js_includes (''transaction '' @ txid @ '' aborted: '' @ st) (CHR ''u'' # code)"
  using assms by (auto simp: js_includes_def dest!: sublist_set)

lemma call_aborted:
  assumes "rseq args = Inr vs" "cn_call N \<lparr>cc_contract = contract, cc_fn = fn, cc_args = vs\<rparr> (rn_chain s) = (BaTxid txid, c)"
    and "wait_polls txid (fst (cn_polls N txid c)) = Inl e"
  shows "\<exists>c1. call_with N contract fn args label s
    = (Inl e, s\<lparr>rn_sent := rn_sent s @ [SentCall \<lparr>cc_contract = contract, cc_fn = fn, cc_args = vs\<rparr>], rn_chain := c1\<rparr>)"
proof -
  obtain ps c1 where "cn_polls N txid c = (ps, c1)" by (cases "cn_polls N txid c")
  then show ?thesis using assms
    by (auto simp: call_with_def callContract_def note_sent_def on_chain_def deployer_waitForConfirmation_def broadcast_def op_bind_def Let_def)
qed


section \<open>Who is seated\<close>

text \<open>What the verifiers promise: a read tells who is seated, and a confirmed call seats or unseats the one it names, on the
  verifier it goes to.\<close>

definition seat_answer :: "read_reply \<Rightarrow> bool" where
  "seat_answer r \<longleftrightarrow> rr_okay r \<and> (case set_text (rr_result r) of None \<Rightarrow> False | Some t \<Rightarrow> t \<noteq> ''0x09'')"

text \<open>The call \<open>fn\<close> for the account \<open>w\<close> on \<open>v\<close>, when it is confirmed, leaves the chain \<open>after\<close>.\<close>

definition confirmed :: "'c chain_node \<Rightarrow> string \<Rightarrow> string \<Rightarrow> string \<Rightarrow> 'c \<Rightarrow> 'c \<Rightarrow> bool" where
  "confirmed N v fn w c after \<longleftrightarrow> (\<exists>p t c1. cn_mk N (CvPrincipal w) = Inr p
     \<and> cn_call N \<lparr>cc_contract = v, cc_fn = fn, cc_args = [p]\<rparr> c = (BaTxid t, c1)
     \<and> wait_polls t (fst (cn_polls N t c1)) = Inr () \<and> after = snd (cn_polls N t c1))"

definition seat_laws :: "'c chain_node \<Rightarrow> (string \<Rightarrow> string \<Rightarrow> 'c \<Rightarrow> bool) \<Rightarrow> bool" where
  "seat_laws N seated \<longleftrightarrow>
     (\<forall>v w p c r. cn_mk N (CvPrincipal w) = Inr p \<longrightarrow> cn_read N v ''get-relayer'' [p] c = Inr r \<longrightarrow> seat_answer r = seated v w c) \<and>
     (\<forall>v w c after. confirmed N v ''add-relayer'' w c after \<longrightarrow> (\<forall>v' w'. seated v' w' after \<longleftrightarrow> seated v' w' c \<or> v' = v \<and> w' = w)) \<and>
     (\<forall>v w c after. confirmed N v ''remove-relayer'' w c after \<longrightarrow> (\<forall>v' w'. seated v' w' after \<longleftrightarrow> seated v' w' c \<and> \<not> (v' = v \<and> w' = w)))"

lemma seat_lawsD:
  assumes "seat_laws N seated"
  shows "cn_mk N (CvPrincipal w) = Inr p \<Longrightarrow> cn_read N v ''get-relayer'' [p] c = Inr r \<Longrightarrow> seat_answer r = seated v w c"
    and "confirmed N v ''add-relayer'' w c after \<Longrightarrow> seated v' w' after \<longleftrightarrow> seated v' w' c \<or> v' = v \<and> w' = w"
    and "confirmed N v ''remove-relayer'' w c after \<Longrightarrow> seated v' w' after \<longleftrightarrow> seated v' w' c \<and> \<not> (v' = v \<and> w' = w)"
  using assms unfolding seat_laws_def by blast+

lemma callContract_returns:
  assumes "callContract N contract fn vs label s = (Inr t, s1)"
  shows "\<exists>c. cn_call N \<lparr>cc_contract = contract, cc_fn = fn, cc_args = vs\<rparr> (rn_chain s) = (BaTxid t, c)
    \<and> wait_polls t (fst (cn_polls N t c)) = Inr () \<and> rn_chain s1 = snd (cn_polls N t c)"
proof -
  let ?call = "\<lparr>cc_contract = contract, cc_fn = fn, cc_args = vs\<rparr>"
  obtain a c where a: "cn_call N ?call (rn_chain s) = (a, c)" by (cases "cn_call N ?call (rn_chain s)")
  obtain x where x: "a = BaTxid x" using assms a
    by (cases a) (simp_all add: callContract_def note_sent_def on_chain_def broadcast_def op_bind_def Let_def)
  obtain ps c1 where p: "cn_polls N x c = (ps, c1)" by (cases "cn_polls N x c")
  have "wait_polls x ps = Inr () \<and> t = x \<and> rn_chain s1 = c1"
    using assms a x p by (cases "wait_polls x ps")
      (auto simp: callContract_def note_sent_def on_chain_def deployer_waitForConfirmation_def broadcast_def op_bind_def Let_def)
  then show ?thesis using a x p by simp
qed

lemma seat_call_returns:
  assumes "seat_call N v fn w s = (Inr u, s1)"
  shows "confirmed N v fn w (rn_chain s) (rn_chain s1)"
proof -
  obtain p where p: "cn_mk N (CvPrincipal w) = Inr p"
    using assms by (cases "cn_mk N (CvPrincipal w)") (simp_all add: seat_call_def call_with_def op_bind_def)
  obtain r s2 where c: "callContract N v fn [p] (v @ ''.'' @ fn @ '' '' @ w) s = (r, s2)"
    by (cases "callContract N v fn [p] (v @ ''.'' @ fn @ '' '' @ w) s")
  then obtain t where "r = Inr t" "s2 = s1"
    using assms p by (cases r) (simp_all add: seat_call_def call_with_def op_bind_def)
  then have "callContract N v fn [p] (v @ ''.'' @ fn @ '' '' @ w) s = (Inr t, s1)" using c by (simp only:)
  from callContract_returns [OF this] show ?thesis using p unfolding confirmed_def by blast
qed

lemma isRelayer_returns:
  assumes "seat_laws N seated" "isRelayer N v w s = (Inr b, s1)"
  shows "s1 = s \<and> b = seated v w (rn_chain s)"
proof (cases "cn_mk N (CvPrincipal w)")
  case (Inl e)
  then show ?thesis using assms(2) by (simp add: isRelayer_def op_bind_def)
next
  case (Inr p)
  show ?thesis
  proof (cases "cn_read N v ''get-relayer'' [p] (rn_chain s)")
    case (Inl e)
    then show ?thesis using assms(2) Inr by (simp add: isRelayer_def readOnly_def op_bind_def)
  next
    case r: (Inr r)
    then have "s1 = s \<and> b = seat_answer r" using assms(2) Inr by (simp add: isRelayer_def readOnly_def op_bind_def seat_answer_def)
    then show ?thesis using seat_lawsD(1) [OF assms(1) Inr r] by simp
  qed
qed

lemma seat_one_returns:
  assumes "seat_laws N seated" "seat_one N v w s = (Inr u, s1)"
  shows "seated v' w' (rn_chain s1) \<longleftrightarrow> seated v' w' (rn_chain s) \<or> v' = v \<and> w' = w"
proof -
  obtain b where b: "b = seated v w (rn_chain s)" and r: "(if b then op_return () else seat_call N v ''add-relayer'' w) s = (Inr u, s1)"
    using assms(2) isRelayer_returns [OF assms(1)] unfolding seat_one_def op_bind_Inr by blast
  show ?thesis
  proof (cases b)
    case False
    then have "seat_call N v ''add-relayer'' w s = (Inr u, s1)" using r by (simp only: if_False)
    then show ?thesis by (rule seat_lawsD(2) [OF assms(1) seat_call_returns])
  qed (use b r in auto)
qed

lemma unseat_one_returns:
  assumes "seat_laws N seated" "unseat_one N R v w s = (Inr u, s1)"
  shows "seated v' w' (rn_chain s1) \<longleftrightarrow> seated v' w' (rn_chain s) \<and> \<not> (v' = v \<and> w' = w \<and> w \<notin> set R)"
proof (cases "w \<in> set R")
  case True
  then show ?thesis using assms(2) by (simp add: unseat_one_def)
next
  case n: False
  then obtain b where b: "b = seated v w (rn_chain s)" and r: "(if b then seat_call N v ''remove-relayer'' w else op_return ()) s = (Inr u, s1)"
    using assms(2) isRelayer_returns [OF assms(1)] unfolding unseat_one_def if_not_P [OF n] op_bind_Inr by blast
  show ?thesis
  proof (cases b)
    case True
    then have "seat_call N v ''remove-relayer'' w s = (Inr u, s1)" using r by (simp only: if_True)
    from seat_lawsD(3) [OF assms(1) seat_call_returns [OF this]] n show ?thesis by blast
  qed (use b r n in auto)
qed

lemma seat_each:
  "seat_laws N seated \<Longrightarrow> op_each (seat_one N v) ws s = (Inr u, s1) \<Longrightarrow>
   seated v' w' (rn_chain s1) \<longleftrightarrow> seated v' w' (rn_chain s) \<or> v' = v \<and> w' \<in> set ws"
proof (induction ws arbitrary: s)
  case (Cons w ws)
  obtain u2 s2 where "seat_one N v w s = (Inr u2, s2)" "op_each (seat_one N v) ws s2 = (Inr u, s1)"
    using Cons.prems(2) by (auto simp: op_bind_Inr)
  then show ?case using Cons.IH [OF Cons.prems(1)] seat_one_returns [OF Cons.prems(1), of v w s u2 s2 v' w'] by auto
qed simp

lemma unseat_each:
  "seat_laws N seated \<Longrightarrow> op_each (unseat_one N R v) ws s = (Inr u, s1) \<Longrightarrow>
   seated v' w' (rn_chain s1) \<longleftrightarrow> seated v' w' (rn_chain s) \<and> \<not> (v' = v \<and> w' \<in> set ws \<and> w' \<notin> set R)"
proof (induction ws arbitrary: s)
  case (Cons w ws)
  obtain u2 s2 where "unseat_one N R v w s = (Inr u2, s2)" "op_each (unseat_one N R v) ws s2 = (Inr u, s1)"
    using Cons.prems(2) by (auto simp: op_bind_Inr)
  then show ?case using Cons.IH [OF Cons.prems(1)] unseat_one_returns [OF Cons.prems(1), of R v w s u2 s2 v' w'] by auto
qed simp

lemma seat_verifier_returns:
  assumes "seat_laws N seated" "\<forall>c. cn_interface N v c = Inr True" "seat_verifier N R D v s = (Inr u, s1)"
  shows "seated v' w (rn_chain s1) \<longleftrightarrow> (if v' = v then w \<in> set R \<or> seated v w (rn_chain s) \<and> w \<notin> set D else seated v' w (rn_chain s))"
proof -
  obtain u2 s2 u3 s3 where a: "op_each (seat_one N v) R s = (Inr u2, s2)" "op_each (unseat_one N R v) D s2 = (Inr u3, s3)" and s: "s1 = s3"
    using assms(2,3) by (auto simp: seat_verifier_def isDeployed_def readOnly_def op_bind_Inr)
  show ?thesis using seat_each [OF assms(1) a(1), of v' w] unseat_each [OF assms(1) a(2), of v' w] s by auto
qed


section \<open>A chain with seats\<close>

definition demo_seats :: "(string \<times> string) list chain_node" where
  "demo_seats =
     \<lparr>cn_interface = \<lambda>d c. Inr True, cn_deploy = \<lambda>d c. (BaError ''exists'', c),
      cn_call = \<lambda>call c. (case cc_args call of
          [CvPrincipal w] \<Rightarrow> (BaTxid ''0x01'',
            if cc_fn call = ''add-relayer'' then (cc_contract call, w) # c
            else if cc_fn call = ''remove-relayer'' then filter (\<lambda>x. x \<noteq> (cc_contract call, w)) c else c)
        | _ \<Rightarrow> (BaTxid ''0x02'', c)),
      cn_polls = \<lambda>t c. ([PollNotOk, PollStatus (if t = ''0x01'' then ''success'' else ''abort_by_response'')], c),
      cn_read = \<lambda>contract fn args c. Inr \<lparr>rr_okay = True,
        rr_result = Some (case args of [CvPrincipal w] \<Rightarrow> if (contract, w) \<in> set c then ''0x0a'' else ''0x09'' | _ \<Rightarrow> ''0x01''), rr_cause = None\<rparr>,
      cn_balance = \<lambda>c. Inr 0, cn_mk = Inr, cn_uint = \<lambda>x. Inr (CvUInt 1), cn_hex = \<lambda>h. Inr (CvBuffer (node_hex h))\<rparr>"

definition demo_host :: "(string \<times> string) list host" where
  "demo_host =
     \<lparr>ho_argv = None, ho_env = \<lambda>f. [], ho_clarinetMnemonic = \<lambda>n. None, ho_clarinetApiUrl = \<lambda>n. None,
      ho_signer = \<lambda>m n. Inr ''ST1'', ho_node = \<lambda>a u. demo_seats, ho_envFile = None\<rparr>"

definition demo_deploy_env :: script_env where
  "demo_deploy_env =
     [(''NEW_DEPLOYER_MNEMONIC'', ''words''), (''NEW_DEPLOYER_ADDRESS'', ''ST1''), (''RELAYER_ADDRESSES'', ''ST2, ST3,ST2''),
      (''RELAYER_DROP_DEPLOYER'', ''Yes'')]"

definition demo_seated :: "(string \<times> string) list run" where
  "demo_seated = \<lparr>rn_chain = [(''zk-verifier'', ''ST1'')], rn_sent = [], rn_addresses = [], rn_artifacts = []\<rparr>"

lemma demo_deployer: "getDeployer demo_host demo_deploy_env = Inr (''ST1'', demo_seats)"
  by (simp add: getDeployer_def requireEnvVars_def env_present_def env_set_def env_else_def demo_deploy_env_def demo_host_def js_trim_def js_space_def)

lemma demo_seat_laws: "seat_laws demo_seats (\<lambda>v w c. (v, w) \<in> set c)"
  by (auto simp: seat_laws_def confirmed_def seat_answer_def set_text_def demo_seats_def)

definition returns :: "('c, unit) script \<Rightarrow> bool" where
  "returns m \<longleftrightarrow> (\<forall>s. \<exists>s1. m s = (Inr (), s1))"

lemma returns_rules:
  "returns (op_return ())"
  "returns m \<Longrightarrow> returns n \<Longrightarrow> returns (op_bind m (\<lambda>_. n))"
  "returns m \<Longrightarrow> returns n \<Longrightarrow> returns (if b then m else n)"
proof -
  show "returns (op_return ())" by (simp add: returns_def)
  show "returns m \<Longrightarrow> returns n \<Longrightarrow> returns (if b then m else n)" by simp
  assume m: "returns m" and n: "returns n"
  have "\<exists>s1. op_bind m (\<lambda>_. n) s = (Inr (), s1)" for s
  proof -
    obtain s2 where "m s = (Inr (), s2)" using m unfolding returns_def by blast
    moreover obtain s3 where "n s2 = (Inr (), s3)" using n unfolding returns_def by blast
    ultimately show ?thesis by (simp add: op_bind_run)
  qed
  then show "returns (op_bind m (\<lambda>_. n))" by (simp only: returns_def) blast
qed

lemma returns_each: "(\<And>x. returns (f x)) \<Longrightarrow> returns (op_each f xs)"
  by (induction xs) (simp_all add: returns_rules)

lemma demo_call_returns:
  "returns (seat_call demo_seats v fn w)"
proof -
  have "\<exists>s1. op_bind (callContract demo_seats v fn [CvPrincipal w] label) (\<lambda>_. op_return ()) s = (Inr (), s1)" for label s
  proof -
    let ?call = "\<lparr>cc_contract = v, cc_fn = fn, cc_args = [CvPrincipal w]\<rparr>"
    obtain c1 where c: "cn_call demo_seats ?call (rn_chain s) = (BaTxid ''0x01'', c1)" by (simp add: demo_seats_def)
    have p: "cn_polls demo_seats ''0x01'' c1 = ([PollNotOk, PollStatus ''success''], c1)" by (simp add: demo_seats_def)
    show ?thesis
      by (simp add: callContract_def note_sent_def on_chain_def deployer_waitForConfirmation_def broadcast_def op_bind_def Let_def c p)
  qed
  moreover have "rseq [cn_mk demo_seats (CvPrincipal w)] = Inr [CvPrincipal w]" by (simp add: demo_seats_def)
  ultimately show ?thesis unfolding returns_def seat_call_def call_with_def by (simp add: op_bind_def [of "op_lift x" for x])
qed

lemma demo_reads_seats: "isRelayer demo_seats v w s = (Inr ((v, w) \<in> set (rn_chain s)), s)"
  by (simp add: isRelayer_def readOnly_def op_bind_def set_text_def demo_seats_def)

lemma demo_verifier_returns: "returns (seat_verifier demo_seats R D v)"
proof -
  have "returns (seat_one demo_seats v w)" for v w
    using demo_call_returns [of v "''add-relayer''" w] by (auto simp: returns_def seat_one_def op_bind_run [OF demo_reads_seats])
  moreover have "returns (unseat_one demo_seats R v w)" for R v w
    using demo_call_returns [of v "''remove-relayer''" w] by (auto simp: returns_def unseat_one_def op_bind_run [OF demo_reads_seats])
  moreover have "returns (op_bind (readOnly demo_seats v ''get-relayer-count'' []) (\<lambda>_. op_return ()))"
    by (simp add: returns_def readOnly_def op_bind_def demo_seats_def)
  ultimately have "returns (op_bind (op_each (seat_one demo_seats v) R) (\<lambda>_. op_bind (op_each (unseat_one demo_seats R v) D) (\<lambda>_.
      op_bind (readOnly demo_seats v ''get-relayer-count'' []) (\<lambda>_. op_return ()))))"
    by (intro returns_rules returns_each)
  moreover have "isDeployed demo_seats v s = (Inr True, s)" for s by (simp add: isDeployed_def op_bind_def demo_seats_def)
  ultimately show ?thesis unfolding seat_verifier_def returns_def by (simp add: op_bind_run)
qed

lemma demo_set_relayers: "fst (set_relayers demo_host demo_deploy_env demo_seated) = Inr ()"
proof -
  have p: "parseRelayers demo_deploy_env = [''ST2'', ''ST3'']" by code_simp
  obtain s1 where "op_each (seat_verifier demo_seats [''ST2'', ''ST3''] (relayer_removals demo_deploy_env ''ST1'')) RELAYER_VERIFIERS demo_seated = (Inr (), s1)"
    using returns_each [of "seat_verifier demo_seats [''ST2'', ''ST3''] (relayer_removals demo_deploy_env ''ST1'')" RELAYER_VERIFIERS, OF demo_verifier_returns]
    unfolding returns_def by blast
  then show ?thesis by (simp add: set_relayers_def p op_bind_def demo_deployer rguard_def)
qed



end
