(* ===== verification/Spec2Isabelle.thy ===== *)
theory Spec2Isabelle
  imports RootsTree RelayApi RelayConfig RootPublisher SdkRelay ApiQueries ApiAuth PublicInputs NoteCrypto Attestation NoteVault
    PostedProofs ShieldSdk ProofProvider ApiAssets WebState
    Upgrades Sip10Deploy
begin

text \<open>
  Verification of Stacks Shield, a privacy pool on Stacks: the SDK (\<open>sdk/\<close>, with the newer client under
  \<open>sdk/src/\<close>), the proving side (\<open>zk/\<close>), the relayer (\<open>services/relayer/\<close>) and the API with its indexer
  (\<open>services/api/\<close>), with the state of the web frontend and the scripts that deploy and upgrade the contracts.

  \<^bold>\<open>The program.\<close> A note is a commitment, a Poseidon hash over amount, owner key and blinding, kept as a leaf of a Merkle
  tree whose root is on the chain. The client \<open>STXShield\<close> reads the commitments from the API, rebuilds the tree, picks
  notes, builds a witness, has it proved by a Noir circuit, has the proof aggregated by zkVerify, and posts the
  operation to a relayer, which validates it against the chain and broadcasts a contract call. The indexer of the API
  reads the events of the contracts back into a database; a recipient finds a note by trial decryption of the feed.

  \<^bold>\<open>Theories, in the order of the code.\<close>
  \<^item> \<open>Prelude\<close>, \<open>Bytes\<close>, \<open>JsNumber\<close>, \<open>Json\<close>, \<open>Clarity\<close>: results, ordered maps with JavaScript's semantics of \<open>Map\<close>, byte
    and hex conversions (\<open>sdk/utilities/crypto.ts\<close>), \<open>Number\<close> and \<open>BigInt\<close> of a text, JSON with zod schemas, and
    Clarity values. Field elements and amounts are \<open>int\<close> as in the source (\<open>bigint\<close>); bytes are 8-bit words; a JavaScript
    number is a rational, rounded as a double where the code depends on it (\<open>js_double\<close>).
  \<^item> \<open>MerkleSpec\<close>, \<open>CommitmentTree\<close>, \<open>RootsTree\<close>: the reference tree \<open>subtree\<close>, and the two implementations
    \<open>sdk/merkle-tree/index.ts\<close> and \<open>sdk/roots/\<close>, each a table of nodes by level and index. Both interpret the locale
    \<open>merkle_tree\<close>, so that they agree with the reference and with each other.
  \<^item> \<open>PublicInputs\<close>, \<open>NoteCrypto\<close>: the public inputs of the operations in their three encodings
    (\<open>sdk/public-inputs/\<close>, \<open>sdk/proofs/public-inputs.ts\<close>), and notes, commitments, nullifiers and fees of both layers.
    Binding is stated constructively: equal hashes of different statements exhibit a collision of a hash, and the
    theorem names its two arguments.
  \<^item> \<open>RelayTypes\<close>, \<open>TxManager\<close>, \<open>RelayPolicy\<close>, \<open>JobQueue\<close>, \<open>Validator\<close>, \<open>RelayerService\<close>, \<open>RootPublisher\<close>, \<open>RelayConfig\<close>,
    \<open>Submitter\<close>, \<open>RelayApi\<close>: the relayer, file by file. The queue is a step relation with its loop as a function; the two
    drivers interpret \<open>queue_driver\<close>.
  \<^item> \<open>SdkTx\<close>, \<open>SdkRelay\<close>, \<open>Attestation\<close>, \<open>ZkProofs\<close>, \<open>ProofProvider\<close>, \<open>ShieldSdk\<close>: the older SDK: transaction builder and relay
    payloads, relayer clients and submission, the attestation committee, prover, generator and preflight, the zkVerify
    provider, and the client \<open>ShieldClient\<close> over all of them.
  \<^item> \<open>ApiStore\<close>, \<open>ApiIndexer\<close>, \<open>ApiQueries\<close>, \<open>ApiAuth\<close>, \<open>ApiAssets\<close>: the database as ordered maps with its write helpers (four
    interpretations of \<open>upsert_table\<close>), the indexer, the queries and routes, authentication, and what is read live from
    the chain.
  \<^item> \<open>NoteScanner\<close>, \<open>SdkAssets\<close>, \<open>NoteVault\<close>, \<open>ApiProvider\<close>: encryption and delivery of notes, amounts and assets, the note store with
    both vaults (interpretations of \<open>note_vault\<close>), and the providers of the newer SDK.
  \<^item> \<open>ClientMonad\<close>, \<open>ShieldClient\<close>, \<open>ShieldOps\<close>, \<open>ShieldFlow\<close>: the client \<open>STXShield\<close>. Its fields are the record \<open>shield_state\<close>; a method
    is a function from the state to a result and the state, with what went out to relayers and the wallet as a list of
    events; wallet, engine, chain, API and relayers are the record \<open>client_env\<close>. An operation is cut where it waits
    for something the caller can overtake: \<open>transfer_prepare\<close> up to the proof, \<open>transfer_post\<close>, \<open>transfer_record\<close>.
  \<^item> \<open>EngineInputs\<close>, \<open>Circuits\<close>: the inputs the engine hands to a circuit by name (\<open>sdk/src/proving/bbjs.ts\<close>), and the five
    circuits of \<open>zk/circuits/\<close> as the list of their assertions, native and SIP-10.
  \<^item> \<open>ShieldProps\<close>, \<open>ShieldTree\<close>, \<open>ClientProofs\<close>, \<open>SpendProofs\<close>, \<open>PostedProofs\<close>: what holds of the client, alone and together
    with the circuits and the public inputs; \<open>ShieldDemo\<close> and \<open>ProofDemo\<close> run it on a wallet with one note.
  \<^item> \<open>WebForms\<close>, \<open>WebState\<close>: of the web frontend (\<open>frontend/src/\<close>), what the forms of the five operations hand to the
    client, and the wallet session with the one client of a session as a step relation over events.
  \<^item> \<open>Deployer\<close>, \<open>Deployment\<close>, \<open>Upgrades\<close>, \<open>Sip10Deploy\<close>: the scripts that deploy, wire, verify, configure and upgrade the
    contracts (\<open>scripts/deployment/\<close>, \<open>scripts/upgrades/\<close>), as operations over a chain state; the node is the record
    \<open>chain_node\<close>, and what a script sent is a list in its state.

  \<^bold>\<open>What the lemmas show.\<close>
  \<^item> Client and circuits: what the client prepares from the feed of the API passes every assertion of the circuit, for
    splits, transfers and withdrawals (\<open>SpendProofs\<close>); a merge does exactly when its notes differ. Every spend that
    returns has posted a request whose fields hash, as the contracts hash them, to the public inputs of the proof it went
    out with. A spend happens or leaves everything as it was; two transfers that overlap break the first one's roots.
  \<^item> Trees and hashes: insertion builds the reference tree, its witness is the transition of the root, a verified proof
    binds its leaf, public inputs and both note layers agree and bind.
  \<^item> Relayer: a request becomes the call its fields say, nonces follow each other, retries are bounded and the queue drains,
    validation looks at what it must, and the cases in which a job is sent twice or a root is lost.
  \<^item> SDK delivery and storage: encryption, wire form and scan give back the note with a proof of membership, the vaults
    refine a map, a note that was sent is discovered, an amount of a human is converted exactly.
  \<^item> API: rescanning is idempotent, a nonce serves once and a session needs a signature, assets arrive typed or not at all, and
    what a page or a wallet can hide or take over.
  \<^item> Web frontend: the two amounts of the split form add up to the note although they are computed with doubles; the client
    an operation gets belongs to the account on the page in every order of connecting and disconnecting; the merge form
    never picks a note twice; the pages of the list of notes are the list.
  \<^item> Scripts: a deployment that stopped is resumed and sends nothing twice; what an upgrade that succeeded has sent, in order;
    who is seated as a relayer afterwards; and where a script goes on, or cannot go on, because it does not see why a call
    failed.

  \<^bold>\<open>Bounds and fuel.\<close> The depth of the tree is \<open>TREE_DEPTH = 20\<close> with at most \<open>2 ^ 20\<close> leaves; theorems on shorter trees take the
  depth as a variable. The loop of the queue runs with fuel; its termination theorem gives a fuel that is enough, from the
  number of waiting jobs and their attempts left. The waiting loops (\<open>wait_loop\<close>, \<open>root_loop\<close>, \<open>tx_loop\<close>) run over the rounds
  their timeout allows. The scan of the indexer runs over the pages its limit allows. The
  scripts wait over the polls that \<open>cn_polls\<close> gives for the rounds of the timeout. A fixed numeral is never chosen to
  make a proof pass: conversions of amounts hold up to \<open>2 ^ 50\<close> base units and 22 decimals, beyond which a power of ten is
  not a double.

  \<^bold>\<open>Parameters.\<close> Poseidon, sha256, keccak, the curves, X25519, XChaCha20-Poly1305, the Clarity serialisation, \<open>noir_js\<close>, \<open>bb.js\<close>,
  \<open>zkverifyjs\<close>, BullMQ, JWT, HTTP replies, clocks, random draws and the wallet are arguments. Where a theorem relies on
  them it says so: a digest has 32 bytes, Poseidon answers a field element, decryption with the right key returns the text.

  \<^bold>\<open>Not modelled.\<close> The entry points of the two services and the database pool (process start, sockets, signals); log lines,
  re-exports and type declarations without operations; of the web frontend the rendering, routing, texts in the language
  of the browser, prices, the faucet and what the signer asks of the browser wallet; end-to-end
  runs on test networks, wallet printing and migrations, examples and tests; the sharing of one wallet prompt by concurrent callers of the client; the caches
  of the bb.js engine, which functions cannot show; and the Clarity contracts, which are another language: what the
  TypeScript relies on them for is a parameter.
\<close>

end
